(* ===== verification/Prelude.thy ===== *)
theory Prelude
  imports Main
begin

text \<open>
  Shared vocabulary of the development: Go results and errors, the fixed-width
  integers of Go written as \<open>int\<close> and \<open>nat\<close> with explicit wrap-around, and the
  generic lemmas the component theories use.

  A Go function that returns \<open>(T, error)\<close> is a function into \<open>'a result\<close>:
  \<open>Inl e\<close> is a non-nil error or a panic, \<open>Inr x\<close> the returned value. A panic is the
  error \<open>GoPanic\<close>; it passes through \<open>fmt.Errorf("...: %w", err)\<close> wrapping unchanged
  (\<open>rwrap\<close>), since a panicking callee never returns to the wrapping statement.
\<close>

section \<open>Collections of facts\<close>

named_theorems result_simps "rewrite rules for the result type"
named_theorems wrap_simps "rewrite rules for the fixed-width integers"

section \<open>Errors and results\<close>

datatype go_error =
    GoPanic string
  | GoSentinel string
  | GoErr string
  | GoWrap string go_error

type_synonym 'a result = "go_error + 'a"

text \<open>\<open>errors.Is\<close> on a package-level sentinel: the wrap chain is searched for it.\<close>

fun errors_Is :: "go_error \<Rightarrow> string \<Rightarrow> bool" where
  "errors_Is (GoSentinel s) t = (s = t)"
| "errors_Is (GoWrap _ e) t = errors_Is e t"
| "errors_Is _ t = False"

fun is_panic :: "go_error \<Rightarrow> bool" where
  "is_panic (GoPanic _) = True"
| "is_panic _ = False"

definition rbind :: "'a result \<Rightarrow> ('a \<Rightarrow> 'b result) \<Rightarrow> 'b result" where
  "rbind r f = (case r of Inl e \<Rightarrow> Inl e | Inr x \<Rightarrow> f x)"

fun wrap_error :: "string \<Rightarrow> go_error \<Rightarrow> go_error" where
  "wrap_error _ (GoPanic p) = GoPanic p"
| "wrap_error m e = GoWrap m e"

definition rwrap :: "string \<Rightarrow> 'a result \<Rightarrow> 'a result" where
  "rwrap m r = (case r of Inl e \<Rightarrow> Inl (wrap_error m e) | Inr x \<Rightarrow> Inr x)"

text \<open>\<open>if err != nil { panic(err) }\<close>, the shape of every \<open>Must...\<close> helper.\<close>

definition must :: "'a result \<Rightarrow> 'a result" where
  "must r = (case r of Inl e \<Rightarrow> Inl (GoPanic ''must'') | Inr x \<Rightarrow> Inr x)"

lemma rbind_Inr [simp, result_simps]: "rbind (Inr x) f = f x"
  by (simp add: rbind_def)

lemma rbind_Inl [simp, result_simps]: "rbind (Inl e) f = Inl e"
  by (simp add: rbind_def)

lemma rbind_eq_Inr [result_simps]:
  "rbind r f = Inr y \<longleftrightarrow> (\<exists>x. r = Inr x \<and> f x = Inr y)"
  by (cases r) auto

lemma rbind_eq_Inl [result_simps]:
  "rbind r f = Inl e \<longleftrightarrow> r = Inl e \<or> (\<exists>x. r = Inr x \<and> f x = Inl e)"
  by (cases r) auto

lemma rbind_cong [fundef_cong]:
  "r = s \<Longrightarrow> (\<And>x. s = Inr x \<Longrightarrow> f x = g x) \<Longrightarrow> rbind r f = rbind s g"
  by (cases s) auto

lemma rwrap_Inr [simp, result_simps]: "rwrap m (Inr x) = Inr x"
  by (simp add: rwrap_def)

lemma rwrap_Inl [simp]: "rwrap m (Inl e) = Inl (wrap_error m e)"
  by (simp add: rwrap_def)

lemma rwrap_eq_Inr [simp, result_simps]: "rwrap m r = Inr y \<longleftrightarrow> r = Inr y"
  by (cases r) auto

lemma must_Inr [simp, result_simps]: "must (Inr x) = Inr x"
  by (simp add: must_def)

lemma must_Inl [simp]: "must (Inl e) = Inl (GoPanic ''must'')"
  by (simp add: must_def)

lemma must_eq_Inr [simp, result_simps]: "must r = Inr y \<longleftrightarrow> r = Inr y"
  by (cases r) auto

lemma errors_Is_wrap_error [simp]: "errors_Is (wrap_error m e) t = errors_Is e t"
  by (cases e) auto

lemma is_panic_wrap_error [simp]: "is_panic (wrap_error m e) = is_panic e"
  by (cases e) auto

section \<open>Fixed-width integers\<close>

text \<open>
  \<open>int64\<close> values are \<open>int\<close>s, and every \<open>+\<close>, \<open>-\<close>, \<open>*\<close> of the source goes through
  \<open>wrap_i64\<close>; \<open>uint64\<close> values are \<open>nat\<close>s and go through \<open>wrap_u64\<close>.
\<close>

definition wrap_i64 :: "int \<Rightarrow> int" where
  "wrap_i64 x = (x + 9223372036854775808) mod 18446744073709551616 - 9223372036854775808"

definition is_i64 :: "int \<Rightarrow> bool" where
  "is_i64 x \<longleftrightarrow> - 9223372036854775808 \<le> x \<and> x < 9223372036854775808"

definition wrap_u64 :: "nat \<Rightarrow> nat" where
  "wrap_u64 n = n mod 18446744073709551616"

definition is_u64 :: "nat \<Rightarrow> bool" where
  "is_u64 n \<longleftrightarrow> n < 18446744073709551616"

definition u64_add :: "nat \<Rightarrow> nat \<Rightarrow> nat" where
  "u64_add a b = wrap_u64 (a + b)"

definition u64_sub :: "nat \<Rightarrow> nat \<Rightarrow> nat" where
  "u64_sub a b = wrap_u64 (a + 18446744073709551616 - wrap_u64 b)"

definition u64_mul :: "nat \<Rightarrow> nat \<Rightarrow> nat" where
  "u64_mul a b = wrap_u64 (a * b)"

text \<open>The conversion \<open>int64(x)\<close> of an unsigned value.\<close>

definition u64_to_i64 :: "nat \<Rightarrow> int" where
  "u64_to_i64 n = wrap_i64 (int n)"

lemma wrap_i64_id [simp, wrap_simps]: "is_i64 x \<Longrightarrow> wrap_i64 x = x"
  by (simp add: wrap_i64_def is_i64_def)

lemma is_i64_wrap_i64 [simp]: "is_i64 (wrap_i64 x)"
  by (simp add: wrap_i64_def is_i64_def)

lemma wrap_u64_id [simp, wrap_simps]: "is_u64 n \<Longrightarrow> wrap_u64 n = n"
  by (simp add: wrap_u64_def is_u64_def)

lemma is_u64_wrap_u64 [simp]: "is_u64 (wrap_u64 n)"
  by (simp add: wrap_u64_def is_u64_def)

lemma is_u64_ops [simp]: "is_u64 (u64_add a b)" "is_u64 (u64_sub a b)" "is_u64 (u64_mul a b)"
  by (simp_all add: u64_add_def u64_sub_def u64_mul_def)

lemma is_u64_mono: "is_u64 n \<Longrightarrow> m \<le> n \<Longrightarrow> is_u64 m"
  by (simp add: is_u64_def)

lemma u64_add_exact [wrap_simps]: "is_u64 (a + b) \<Longrightarrow> u64_add a b = a + b"
  by (simp add: u64_add_def)

lemma u64_mul_exact [wrap_simps]: "is_u64 (a * b) \<Longrightarrow> u64_mul a b = a * b"
  by (simp add: u64_mul_def)

lemma u64_sub_exact [wrap_simps]: "is_u64 a \<Longrightarrow> b \<le> a \<Longrightarrow> u64_sub a b = a - b"
  by (simp add: u64_sub_def wrap_u64_def is_u64_def mod_if)

text \<open>Wrapping subtraction undoes wrapping addition, whatever overflowed.\<close>

lemma mod_add_sub_cancel:
  fixes a b m :: nat
  assumes "0 < m" and "a < m"
  shows "((a + b) mod m + m - b mod m) mod m = a"
proof -
  have lt: "b mod m < m" using assms(1) by simp
  then have "(a + b) mod m + m - b mod m = (a + b) mod m + (m - b mod m)" by simp
  then have "((a + b) mod m + m - b mod m) mod m = (a + b + (m - b mod m)) mod m"
    by (simp add: mod_add_left_eq)
  also have "a + b + (m - b mod m) = a + (b div m + 1) * m"
    using lt div_mult_mod_eq [of b m] unfolding distrib_right by linarith
  also have "(a + (b div m + 1) * m) mod m = a"
    using assms(2) by (simp only: mod_mult_self1 mod_less)
  finally show ?thesis .
qed

lemma u64_sub_add [wrap_simps]: "is_u64 a \<Longrightarrow> u64_sub (u64_add a b) b = a"
  unfolding u64_sub_def u64_add_def wrap_u64_def is_u64_def
  by (rule mod_add_sub_cancel) simp_all

lemma filter_ConsD: "filter P xs = y # ys \<Longrightarrow> y \<in> set xs \<and> P y"
  by (drule arg_cong [where f = set]) (auto simp: set_eq_iff)

end
