(* ===== verification/Tx_Status.thy ===== *)
theory Tx_Status
  imports Prelude
begin

text \<open>
  The status vocabularies of \<open>pkg/wdk/tx_status.go\<close>, \<open>pkg/wdk/utxo_status.go\<close> and
  \<open>pkg/wdk/storage_process_action_result.go\<close>, with their classification predicates and the
  conversions between them. In Go each status type is a string type, so a value read from the
  database can be any string: every datatype has an \<open>...Other\<close> constructor for the strings
  that are none of the declared constants.
\<close>

section \<open>Statuses\<close>

datatype tx_status =
    TxStatusCompleted
  | TxStatusFailed
  | TxStatusUnprocessed
  | TxStatusSending
  | TxStatusUnproven
  | TxStatusUnsigned
  | TxStatusNoSend
  | TxStatusNonFinal
  | TxStatusUnfail
  | TxStatusAborted
  | TxStatusOther string

datatype proven_tx_req_status =
    ProvenTxStatusSending
  | ProvenTxStatusUnsent
  | ProvenTxStatusNoSend
  | ProvenTxStatusUnknown
  | ProvenTxStatusNonFinal
  | ProvenTxStatusUnprocessed
  | ProvenTxStatusUnmined
  | ProvenTxStatusCallback
  | ProvenTxStatusUnconfirmed
  | ProvenTxStatusCompleted
  | ProvenTxStatusInvalid
  | ProvenTxStatusDoubleSpend
  | ProvenTxStatusUnfail
  | ProvenTxStatusReorg
  | ProvenTxStatusOther string

datatype standardized_tx_status =
    TxUpdateStatusBroadcasted
  | TxUpdateStatusDoubleSpend
  | TxUpdateStatusInvalidTx
  | TxUpdateStatusServiceError
  | TxUpdateStatusWaiting
  | TxUpdateStatusMined
  | TxUpdateStatusUnknown
  | TxUpdateStatusFailed
  | TxUpdateStatusAborted
  | TxUpdateStatusOther string

datatype utxo_status =
    UTXOStatusSending
  | UTXOStatusUnproven
  | UTXOStatusMined
  | UTXOStatusUnknown
  | UTXOStatusOther string

datatype send_with_result_status =
    SendWithResultStatusUnproven
  | SendWithResultStatusSending
  | SendWithResultStatusFailed
  | SendWithResultStatusOther string

datatype review_action_result_status =
    ReviewActionResultStatusSuccess
  | ReviewActionResultStatusDoubleSpend
  | ReviewActionResultStatusServiceError
  | ReviewActionResultStatusInvalidTx
  | ReviewActionResultStatusOther string

section \<open>Conversions and predicates\<close>

definition ToUTXOStatus :: "tx_status \<Rightarrow> utxo_status" where
  "ToUTXOStatus s = (case s of
     TxStatusCompleted \<Rightarrow> UTXOStatusMined
   | TxStatusSending \<Rightarrow> UTXOStatusSending
   | TxStatusUnproven \<Rightarrow> UTXOStatusUnproven
   | TxStatusAborted \<Rightarrow> UTXOStatusUnknown
   | _ \<Rightarrow> UTXOStatusUnknown)"

definition TxStatus_ToStandardizedStatus :: "tx_status \<Rightarrow> standardized_tx_status" where
  "TxStatus_ToStandardizedStatus s = (case s of
     TxStatusCompleted \<Rightarrow> TxUpdateStatusMined
   | TxStatusUnproven \<Rightarrow> TxUpdateStatusBroadcasted
   | TxStatusSending \<Rightarrow> TxUpdateStatusWaiting
   | TxStatusUnprocessed \<Rightarrow> TxUpdateStatusWaiting
   | TxStatusNoSend \<Rightarrow> TxUpdateStatusWaiting
   | TxStatusNonFinal \<Rightarrow> TxUpdateStatusWaiting
   | TxStatusUnsigned \<Rightarrow> TxUpdateStatusWaiting
   | TxStatusUnfail \<Rightarrow> TxUpdateStatusWaiting
   | TxStatusFailed \<Rightarrow> TxUpdateStatusInvalidTx
   | TxStatusAborted \<Rightarrow> TxUpdateStatusAborted
   | TxStatusOther _ \<Rightarrow> TxUpdateStatusUnknown)"

definition Sending :: "proven_tx_req_status \<Rightarrow> bool" where
  "Sending s = (case s of
     ProvenTxStatusUnknown \<Rightarrow> True
   | ProvenTxStatusNonFinal \<Rightarrow> True
   | ProvenTxStatusSending \<Rightarrow> True
   | ProvenTxStatusUnsent \<Rightarrow> True
   | ProvenTxStatusNoSend \<Rightarrow> True
   | ProvenTxStatusUnprocessed \<Rightarrow> True
   | _ \<Rightarrow> False)"

definition AlreadySent :: "proven_tx_req_status \<Rightarrow> bool" where
  "AlreadySent s = (case s of
     ProvenTxStatusUnmined \<Rightarrow> True
   | ProvenTxStatusCallback \<Rightarrow> True
   | ProvenTxStatusUnconfirmed \<Rightarrow> True
   | ProvenTxStatusCompleted \<Rightarrow> True
   | _ \<Rightarrow> False)"

definition IsInFlight :: "proven_tx_req_status \<Rightarrow> bool" where
  "IsInFlight s = (case s of
     ProvenTxStatusSending \<Rightarrow> True
   | ProvenTxStatusUnsent \<Rightarrow> True
   | ProvenTxStatusUnprocessed \<Rightarrow> True
   | _ \<Rightarrow> False)"

definition IsTerminalFailure :: "proven_tx_req_status \<Rightarrow> bool" where
  "IsTerminalFailure s = (case s of
     ProvenTxStatusInvalid \<Rightarrow> True
   | ProvenTxStatusDoubleSpend \<Rightarrow> True
   | _ \<Rightarrow> False)"

definition IsAcceptedUnproven :: "proven_tx_req_status \<Rightarrow> bool" where
  "IsAcceptedUnproven s = (case s of
     ProvenTxStatusUnmined \<Rightarrow> True
   | ProvenTxStatusCallback \<Rightarrow> True
   | ProvenTxStatusUnconfirmed \<Rightarrow> True
   | _ \<Rightarrow> False)"

definition IsFinalMined :: "proven_tx_req_status \<Rightarrow> bool" where
  "IsFinalMined s = (s = ProvenTxStatusCompleted)"

definition WasBroadcastStatus :: "proven_tx_req_status \<Rightarrow> bool" where
  "WasBroadcastStatus s = (case s of
     ProvenTxStatusUnmined \<Rightarrow> True
   | ProvenTxStatusCallback \<Rightarrow> True
   | ProvenTxStatusUnconfirmed \<Rightarrow> True
   | ProvenTxStatusCompleted \<Rightarrow> True
   | ProvenTxStatusReorg \<Rightarrow> True
   | _ \<Rightarrow> False)"

definition SendWithResultStatus :: "proven_tx_req_status \<Rightarrow> send_with_result_status" where
  "SendWithResultStatus s =
     (if Sending s then SendWithResultStatusSending
      else if AlreadySent s then SendWithResultStatusUnproven
      else SendWithResultStatusFailed)"

definition ProvenTxReq_ToStandardizedStatus :: "proven_tx_req_status \<Rightarrow> standardized_tx_status" where
  "ProvenTxReq_ToStandardizedStatus s = (case s of
     ProvenTxStatusCompleted \<Rightarrow> TxUpdateStatusMined
   | ProvenTxStatusUnmined \<Rightarrow> TxUpdateStatusBroadcasted
   | ProvenTxStatusCallback \<Rightarrow> TxUpdateStatusBroadcasted
   | ProvenTxStatusUnconfirmed \<Rightarrow> TxUpdateStatusBroadcasted
   | ProvenTxStatusSending \<Rightarrow> TxUpdateStatusWaiting
   | ProvenTxStatusUnsent \<Rightarrow> TxUpdateStatusWaiting
   | ProvenTxStatusUnprocessed \<Rightarrow> TxUpdateStatusWaiting
   | ProvenTxStatusNoSend \<Rightarrow> TxUpdateStatusWaiting
   | ProvenTxStatusNonFinal \<Rightarrow> TxUpdateStatusWaiting
   | ProvenTxStatusUnfail \<Rightarrow> TxUpdateStatusWaiting
   | ProvenTxStatusReorg \<Rightarrow> TxUpdateStatusWaiting
   | ProvenTxStatusInvalid \<Rightarrow> TxUpdateStatusInvalidTx
   | ProvenTxStatusDoubleSpend \<Rightarrow> TxUpdateStatusDoubleSpend
   | ProvenTxStatusUnknown \<Rightarrow> TxUpdateStatusUnknown
   | ProvenTxStatusOther _ \<Rightarrow> TxUpdateStatusUnknown)"

definition SendWithResult_ToStandardizedStatus :: "send_with_result_status \<Rightarrow> standardized_tx_status" where
  "SendWithResult_ToStandardizedStatus s = (case s of
     SendWithResultStatusUnproven \<Rightarrow> TxUpdateStatusBroadcasted
   | SendWithResultStatusSending \<Rightarrow> TxUpdateStatusWaiting
   | SendWithResultStatusFailed \<Rightarrow> TxUpdateStatusServiceError
   | SendWithResultStatusOther _ \<Rightarrow> TxUpdateStatusUnknown)"

definition ReviewActionResult_ToStandardizedStatus ::
  "review_action_result_status \<Rightarrow> standardized_tx_status" where
  "ReviewActionResult_ToStandardizedStatus s = (case s of
     ReviewActionResultStatusSuccess \<Rightarrow> TxUpdateStatusBroadcasted
   | ReviewActionResultStatusDoubleSpend \<Rightarrow> TxUpdateStatusDoubleSpend
   | ReviewActionResultStatusInvalidTx \<Rightarrow> TxUpdateStatusInvalidTx
   | ReviewActionResultStatusServiceError \<Rightarrow> TxUpdateStatusServiceError
   | ReviewActionResultStatusOther _ \<Rightarrow> TxUpdateStatusUnknown)"

definition ProvenTxReqProblematicStatuses :: "proven_tx_req_status list" where
  "ProvenTxReqProblematicStatuses =
     [ProvenTxStatusUnknown, ProvenTxStatusNonFinal, ProvenTxStatusInvalid, ProvenTxStatusDoubleSpend]"

definition ProvenTxReqBeyondBroadcastStageStatuses :: "proven_tx_req_status list" where
  "ProvenTxReqBeyondBroadcastStageStatuses =
     [ProvenTxStatusUnmined, ProvenTxStatusCallback, ProvenTxStatusUnconfirmed,
      ProvenTxStatusCompleted, ProvenTxStatusReorg]"

section \<open>Properties\<close>

lemmas proven_status_defs =
  Sending_def AlreadySent_def IsInFlight_def IsTerminalFailure_def IsAcceptedUnproven_def
  IsFinalMined_def WasBroadcastStatus_def SendWithResultStatus_def
  ProvenTxReq_ToStandardizedStatus_def SendWithResult_ToStandardizedStatus_def

text \<open>
  C37. The status predicates of a proven-transaction request fit together as their comments
  say: \<open>AlreadySent\<close> is acceptance without or with a proof, the broadcast evidence is
  \<open>AlreadySent\<close> or \<open>reorg\<close> and coincides with the list of beyond-broadcast statuses, an
  in-flight status is still sending, no status is in two of the classes sending, already sent
  and terminal failure, a terminal failure is reported as failed, and a status that is reported
  to the caller as unproven is standardised as mined or broadcasted and never as waiting.
\<close>

theorem proven_status_classes:
  "(AlreadySent s \<longleftrightarrow> IsAcceptedUnproven s \<or> IsFinalMined s) \<and>
   (WasBroadcastStatus s \<longleftrightarrow> AlreadySent s \<or> s = ProvenTxStatusReorg) \<and>
   (WasBroadcastStatus s \<longleftrightarrow> s \<in> set ProvenTxReqBeyondBroadcastStageStatuses) \<and>
   \<not> (IsInFlight s \<and> \<not> Sending s) \<and>
   \<not> (Sending s \<and> WasBroadcastStatus s) \<and>
   \<not> (IsTerminalFailure s \<and> (Sending s \<or> WasBroadcastStatus s)) \<and>
   (SendWithResultStatus s = SendWithResultStatusSending \<longleftrightarrow> Sending s) \<and>
   (SendWithResultStatus s = SendWithResultStatusUnproven \<longleftrightarrow>
      ProvenTxReq_ToStandardizedStatus s \<in> {TxUpdateStatusMined, TxUpdateStatusBroadcasted}) \<and>
   (ProvenTxReq_ToStandardizedStatus s \<in> {TxUpdateStatusInvalidTx, TxUpdateStatusDoubleSpend} \<longleftrightarrow>
      IsTerminalFailure s)"
  by (cases s) (simp_all add: proven_status_defs ProvenTxReqBeyondBroadcastStageStatuses_def)

end
