(* ===== verification/Utxo_Repo.thy ===== *)
theory Utxo_Repo
  imports Tx_Status "HOL-Library.Product_Lexorder"
begin

text \<open>
  The index of spendable outputs: \<open>models.UserUTXO\<close>, the queries of
  \<open>pkg/internal/storage/repo/utxos.go\<close> that the funder uses, \<open>queryopts.Paging\<close>, and the
  interface \<open>UTXORepository\<close> of the funder with its contract as a locale.

  A table is the list of its rows. \<open>skip\<close> tells which rows are locked by other database
  transactions: on Postgres and MySQL \<open>SELECT ... FOR UPDATE SKIP LOCKED\<close> leaves them out; on
  SQLite it is constantly false. A Go interface value is a record of functions.
\<close>

section \<open>Rows and queries\<close>

record user_utxo =
  uu_UserID :: int
  uu_OutputID :: nat
  uu_UTXOStatus :: utxo_status
  uu_BasketName :: string
  uu_Satoshis :: nat
  uu_EstimatedInputSize :: nat
  uu_CreatedAt :: int
  uu_ReservedByID :: "nat option"

record bounded_utxo_query =
  q_UserID :: int
  q_BasketName :: string
  q_Status :: utxo_status
  q_ExcludedOutputIDs :: "nat list"

section \<open>Paging\<close>

definition lower_char :: "char \<Rightarrow> char" where
  "lower_char c =
     (if 65 \<le> (of_char c :: nat) \<and> (of_char c :: nat) \<le> 90 then char_of ((of_char c :: nat) + 32) else c)"

definition strings_ToLower :: "string \<Rightarrow> string" where
  "strings_ToLower s = map lower_char s"

record paging =
  pg_Limit :: int
  pg_Offset :: int
  pg_Sort :: string
  pg_SortBy :: string
  pg_ThenBy :: string

definition ApplyDefaults :: "paging \<Rightarrow> paging" where
  "ApplyDefaults p =
     (let p1 = (if pg_Limit p \<le> 0 then p\<lparr>pg_Limit := -1\<rparr> else p);
          p2 = p1\<lparr>pg_SortBy := strings_ToLower (pg_SortBy p1)\<rparr>;
          p3 = (if pg_SortBy p2 = '''' then p2\<lparr>pg_SortBy := ''created_at''\<rparr> else p2);
          p4 = p3\<lparr>pg_ThenBy := strings_ToLower (pg_ThenBy p3)\<rparr>
      in if strings_ToLower (pg_Sort p4) = ''asc'' then p4\<lparr>pg_Sort := ''ASC''\<rparr>
         else p4\<lparr>pg_Sort := ''DESC''\<rparr>)"

definition Next :: "paging \<Rightarrow> paging" where
  "Next p = p\<lparr>pg_Offset := wrap_i64 (pg_Offset p + pg_Limit p)\<rparr>"

definition IsDesc :: "paging \<Rightarrow> bool" where
  "IsDesc p \<longleftrightarrow> strings_ToLower (pg_Sort p) = ''desc''"

text \<open>\<open>OFFSET\<close> and \<open>LIMIT\<close> of a query; a non-positive value leaves the clause out.\<close>

definition sql_page :: "int \<Rightarrow> int \<Rightarrow> 'a list \<Rightarrow> 'a list" where
  "sql_page offset limit xs =
     (let ys = drop (nat offset) xs in if limit \<le> 0 then ys else take (nat limit) ys)"

section \<open>The queries of \<open>repo/utxos.go\<close>\<close>

definition notReserved :: "user_utxo \<Rightarrow> bool" where
  "notReserved u \<longleftrightarrow> uu_ReservedByID u = None"

definition outputNotIn :: "nat list \<Rightarrow> user_utxo \<Rightarrow> bool" where
  "outputNotIn forbiddenOutputIDs u \<longleftrightarrow>
     (if forbiddenOutputIDs = [] then True else uu_OutputID u \<notin> set forbiddenOutputIDs)"

definition status_order :: "utxo_status \<Rightarrow> nat" where
  "status_order s = (case s of
     UTXOStatusMined \<Rightarrow> 0 | UTXOStatusUnproven \<Rightarrow> 1 | UTXOStatusSending \<Rightarrow> 2 | _ \<Rightarrow> 3)"

definition FindNotReservedUTXOs ::
  "user_utxo list \<Rightarrow> (user_utxo \<Rightarrow> bool) \<Rightarrow> int \<Rightarrow> string \<Rightarrow> paging \<Rightarrow> nat list \<Rightarrow> bool \<Rightarrow> user_utxo list result"
where
  "FindNotReservedUTXOs tbl skip userID basketName page forbiddenOutputIDs includeSending =
     (let page' = ApplyDefaults page;
          statuses = [UTXOStatusMined, UTXOStatusUnproven] @
            (if includeSending then [UTXOStatusSending] else []);
          rows = filter (\<lambda>u. uu_UserID u = userID \<and> uu_BasketName u = basketName \<and> notReserved u \<and>
            outputNotIn forbiddenOutputIDs u \<and> uu_UTXOStatus u \<in> set statuses \<and> \<not> skip u) tbl
      in Inr (sql_page (pg_Offset page') (pg_Limit page')
           (sort_key (\<lambda>u. (status_order (uu_UTXOStatus u), uu_Satoshis u, uu_OutputID u)) rows)))"

text \<open>The rows a bounded query may return, before its bound on the amount.\<close>

definition bounded_rows :: "user_utxo list \<Rightarrow> (user_utxo \<Rightarrow> bool) \<Rightarrow> bounded_utxo_query \<Rightarrow> user_utxo list" where
  "bounded_rows tbl skip q =
     filter (\<lambda>u. uu_UserID u = q_UserID q \<and> uu_BasketName u = q_BasketName q \<and> notReserved u \<and>
       outputNotIn (q_ExcludedOutputIDs q) u \<and> uu_UTXOStatus u = q_Status q \<and> \<not> skip u) tbl"

definition FindSmallestSufficient ::
  "user_utxo list \<Rightarrow> (user_utxo \<Rightarrow> bool) \<Rightarrow> bounded_utxo_query \<Rightarrow> nat \<Rightarrow> user_utxo option result" where
  "FindSmallestSufficient tbl skip q minSatoshis =
     (let res = sql_page 0 1 (sort_key (\<lambda>u. (uu_Satoshis u, uu_OutputID u))
            (filter (\<lambda>u. uu_Satoshis u \<ge> minSatoshis) (bounded_rows tbl skip q)))
      in if res = [] then Inr None else Inr (Some (res ! 0)))"

definition FindLargestInsufficient ::
  "user_utxo list \<Rightarrow> (user_utxo \<Rightarrow> bool) \<Rightarrow> bounded_utxo_query \<Rightarrow> nat \<Rightarrow> int \<Rightarrow> user_utxo list result" where
  "FindLargestInsufficient tbl skip q maxSatoshis limit =
     (if limit \<le> 0 then Inl (GoErr ''limit must be positive'')
      else Inr (sql_page 0 limit (rev (sort_key (\<lambda>u. (uu_Satoshis u, uu_OutputID u))
            (filter (\<lambda>u. uu_Satoshis u < maxSatoshis) (bounded_rows tbl skip q))))))"

definition CountUTXOs :: "user_utxo list \<Rightarrow> int \<Rightarrow> string \<Rightarrow> int" where
  "CountUTXOs tbl userID basketName =
     int (length (filter (\<lambda>u. uu_UserID u = userID \<and> uu_BasketName u = basketName \<and> notReserved u) tbl))"

definition UnreserveUTXOsByTransactionID :: "nat \<Rightarrow> user_utxo list \<Rightarrow> user_utxo list" where
  "UnreserveUTXOsByTransactionID transactionID tbl =
     map (\<lambda>u. if uu_ReservedByID u = Some transactionID then u\<lparr>uu_ReservedByID := None\<rparr> else u) tbl"

definition DeleteIndexRowsForOutputs :: "int \<Rightarrow> nat list \<Rightarrow> user_utxo list \<Rightarrow> user_utxo list" where
  "DeleteIndexRowsForOutputs userID outputIDs tbl =
     (if outputIDs = [] then tbl
      else filter (\<lambda>u. \<not> (uu_UserID u = userID \<and> uu_OutputID u \<in> set outputIDs)) tbl)"

section \<open>The interface \<open>UTXORepository\<close> and its contract\<close>

record utxo_repository =
  FindNotReservedUTXOsForUpdate :: "int \<Rightarrow> string \<Rightarrow> paging \<Rightarrow> nat list \<Rightarrow> bool \<Rightarrow> user_utxo list result"
  FindSmallestSufficientUTXOForUpdate :: "bounded_utxo_query \<Rightarrow> nat \<Rightarrow> user_utxo option result"
  FindLargestInsufficientUTXOsForUpdate :: "bounded_utxo_query \<Rightarrow> nat \<Rightarrow> int \<Rightarrow> user_utxo list result"

definition UTXOs_repository :: "user_utxo list \<Rightarrow> (user_utxo \<Rightarrow> bool) \<Rightarrow> utxo_repository" where
  "UTXOs_repository tbl skip = \<lparr>
     FindNotReservedUTXOsForUpdate = FindNotReservedUTXOs tbl skip,
     FindSmallestSufficientUTXOForUpdate = FindSmallestSufficient tbl skip,
     FindLargestInsufficientUTXOsForUpdate = FindLargestInsufficient tbl skip\<rparr>"

text \<open>What makes a row claimable for a query.\<close>

definition eligible :: "user_utxo list \<Rightarrow> (user_utxo \<Rightarrow> bool) \<Rightarrow> bounded_utxo_query \<Rightarrow> user_utxo \<Rightarrow> bool" where
  "eligible tbl skip q u \<longleftrightarrow> u \<in> set tbl \<and> uu_UserID u = q_UserID q \<and> uu_BasketName u = q_BasketName q \<and>
     uu_ReservedByID u = None \<and> uu_OutputID u \<notin> set (q_ExcludedOutputIDs q) \<and>
     uu_UTXOStatus u = q_Status q \<and> \<not> skip u"

abbreviation utxo_key :: "user_utxo \<Rightarrow> nat \<times> nat" where
  "utxo_key u \<equiv> (uu_Satoshis u, uu_OutputID u)"

text \<open>The primary key of the table: a user has at most one row per output.\<close>

definition keyed :: "user_utxo list \<Rightarrow> bool" where
  "keyed tbl \<longleftrightarrow> distinct (map (\<lambda>u. (uu_UserID u, uu_OutputID u)) tbl)"

text \<open>The laws every answer of the repository obeys: only claimable rows within the bound.\<close>

locale utxo_repo_sound =
  fixes repo :: utxo_repository and tbl :: "user_utxo list" and skip :: "user_utxo \<Rightarrow> bool"
  assumes suff_sound: "FindSmallestSufficientUTXOForUpdate repo q m = Inr (Some u) \<Longrightarrow>
      eligible tbl skip q u \<and> m \<le> uu_Satoshis u"
    and insuff_sound: "FindLargestInsufficientUTXOsForUpdate repo q m l = Inr us \<Longrightarrow> u \<in> set us \<Longrightarrow>
      eligible tbl skip q u \<and> uu_Satoshis u < m"
    and insuff_distinct: "keyed tbl \<Longrightarrow> FindLargestInsufficientUTXOsForUpdate repo q m l = Inr us \<Longrightarrow>
      distinct (map uu_OutputID us)"
    and page_sound: "FindNotReservedUTXOsForUpdate repo userID basket page forb sending = Inr us \<Longrightarrow>
      u \<in> set us \<Longrightarrow> \<exists>st. eligible tbl skip
        \<lparr>q_UserID = userID, q_BasketName = basket, q_Status = st, q_ExcludedOutputIDs = forb\<rparr> u"

text \<open>The laws of the best-fit order: which claimable row is returned.\<close>

locale utxo_repo = utxo_repo_sound +
  assumes suff_total: "\<exists>r. FindSmallestSufficientUTXOForUpdate repo q m = Inr r"
    and suff_none: "FindSmallestSufficientUTXOForUpdate repo q m = Inr None \<Longrightarrow>
      eligible tbl skip q u \<Longrightarrow> uu_Satoshis u < m"
    and suff_least: "FindSmallestSufficientUTXOForUpdate repo q m = Inr (Some u) \<Longrightarrow>
      eligible tbl skip q v \<Longrightarrow> m \<le> uu_Satoshis v \<Longrightarrow> utxo_key u \<le> utxo_key v"
    and insuff_total: "0 < l \<Longrightarrow> \<exists>us. FindLargestInsufficientUTXOsForUpdate repo q m l = Inr us"
    and insuff_sorted: "FindLargestInsufficientUTXOsForUpdate repo q m l = Inr us \<Longrightarrow>
      sorted (rev (map utxo_key us))"
    and insuff_greatest: "FindLargestInsufficientUTXOsForUpdate repo q m l = Inr us \<Longrightarrow>
      eligible tbl skip q v \<Longrightarrow> uu_Satoshis v < m \<Longrightarrow> v \<notin> set us \<Longrightarrow>
      int (length us) = l \<and> (\<forall>u \<in> set us. utxo_key v \<le> utxo_key u)"

section \<open>The SQL repository fulfils the contract\<close>

lemma bounded_rows_iff: "u \<in> set (bounded_rows tbl skip q) \<longleftrightarrow> eligible tbl skip q u"
  by (auto simp: bounded_rows_def eligible_def notReserved_def outputNotIn_def)

lemma keyed_eq:
  assumes "keyed tbl" and "eligible tbl skip q u" "eligible tbl skip q v" and "uu_OutputID u = uu_OutputID v"
  shows "u = v"
  using assms by (auto simp: keyed_def eligible_def distinct_map inj_on_def)

lemma keyed_bounded_rows: "keyed tbl \<Longrightarrow> distinct (bounded_rows tbl skip q)"
  by (simp add: keyed_def bounded_rows_def distinct_map)

lemma keyed_distinct_ids:
  assumes "keyed tbl" and "distinct us" and "\<And>u. u \<in> set us \<Longrightarrow> eligible tbl skip q u"
  shows "distinct (map uu_OutputID us)"
  using assms by (auto simp: distinct_map inj_on_def dest: keyed_eq)

lemma sql_page_subset: "u \<in> set (sql_page off lim xs) \<Longrightarrow> u \<in> set xs"
  by (auto simp: sql_page_def Let_def split: if_splits dest: in_set_takeD in_set_dropD)

lemma FindSmallestSufficient_cases:
  fixes tbl skip q m
  defines "ys \<equiv> sort_key utxo_key (filter (\<lambda>u. uu_Satoshis u \<ge> m) (bounded_rows tbl skip q))"
  shows "FindSmallestSufficient tbl skip q m = Inr (case ys of [] \<Rightarrow> None | y # _ \<Rightarrow> Some y)"
  by (simp add: FindSmallestSufficient_def ys_def sql_page_def Let_def split: list.split)

lemma FindSmallestSufficient_Some:
  assumes "FindSmallestSufficient tbl skip q m = Inr (Some u)"
  shows "eligible tbl skip q u \<and> m \<le> uu_Satoshis u"
    and "eligible tbl skip q v \<Longrightarrow> m \<le> uu_Satoshis v \<Longrightarrow> utxo_key u \<le> utxo_key v"
proof -
  let ?ys = "sort_key utxo_key (filter (\<lambda>u. uu_Satoshis u \<ge> m) (bounded_rows tbl skip q))"
  have set: "set ?ys = {v. eligible tbl skip q v \<and> m \<le> uu_Satoshis v}"
    by (auto simp: bounded_rows_iff)
  from assms obtain ws where ys: "?ys = u # ws"
    unfolding FindSmallestSufficient_cases by (auto split: list.splits)
  from ys set show "eligible tbl skip q u \<and> m \<le> uu_Satoshis u" by auto
  have sorted: "sorted (map utxo_key ?ys)" by (rule sorted_sort_key)
  assume "eligible tbl skip q v" "m \<le> uu_Satoshis v"
  with set have "v \<in> set ?ys" by blast
  with sorted show "utxo_key u \<le> utxo_key v" unfolding ys by auto
qed

lemma FindLargestInsufficient_eq:
  "FindLargestInsufficient tbl skip q m l = Inr us \<longleftrightarrow> 0 < l \<and>
     us = take (nat l) (rev (sort_key utxo_key (filter (\<lambda>u. uu_Satoshis u < m) (bounded_rows tbl skip q))))"
  by (auto simp: FindLargestInsufficient_def sql_page_def)

lemma sorted_rev_take: "sorted xs \<Longrightarrow> sorted (rev (take n (rev xs)))"
  by (simp add: take_rev sorted_wrt_drop)

lemma take_rev_greatest:
  assumes "sorted (map f xs)" and "v \<in> set xs" and "v \<notin> set (take n (rev xs))"
  shows "length (take n (rev xs)) = n \<and> (\<forall>u \<in> set (take n (rev xs)). f v \<le> f u)"
proof -
  let ?k = "length xs - n"
  have split: "xs = take ?k xs @ drop ?k xs" by simp
  from assms(2,3) have "v \<in> set (take ?k xs)"
    using split by (metis Un_iff set_append set_rev take_rev)
  moreover from this have "n < length xs" by (cases "n < length xs") auto
  moreover have "sorted (map f (take ?k xs) @ map f (drop ?k xs))"
    using assms(1) by (metis map_append split)
  ultimately show ?thesis by (auto simp: sorted_append take_rev)
qed

interpretation sql_sound: utxo_repo_sound "UTXOs_repository tbl skip" tbl skip for tbl skip
proof (unfold_locales, goal_cases)
  case (1 q m u)
  then show ?case by (simp add: UTXOs_repository_def FindSmallestSufficient_Some(1))
next
  case (2 q m l us u)
  then show ?case
    by (auto simp: UTXOs_repository_def FindLargestInsufficient_eq bounded_rows_iff dest!: in_set_takeD)
next
  case (3 q m l us)
  have "distinct us"
    using 3 by (auto simp: UTXOs_repository_def FindLargestInsufficient_eq keyed_bounded_rows
        intro!: distinct_take)
  moreover have "eligible tbl skip q u" if "u \<in> set us" for u
    using that 3(2) by (auto simp: UTXOs_repository_def FindLargestInsufficient_eq bounded_rows_iff
        dest!: in_set_takeD)
  ultimately show ?case by (rule keyed_distinct_ids [OF 3(1)])
next
  case (4 userID basket page forb sending us u)
  then show ?case
    by (auto simp: UTXOs_repository_def FindNotReservedUTXOs_def Let_def eligible_def notReserved_def
        outputNotIn_def dest!: sql_page_subset split: if_splits)
qed

interpretation sql: utxo_repo "UTXOs_repository tbl skip" tbl skip for tbl skip
proof (unfold_locales, goal_cases)
  case (1 q m)
  then show ?case by (simp add: UTXOs_repository_def FindSmallestSufficient_cases)
next
  case (2 q m u)
  let ?xs = "filter (\<lambda>u. uu_Satoshis u \<ge> m) (bounded_rows tbl skip q)"
  from 2(1) have "sort_key utxo_key ?xs = []"
    by (simp add: UTXOs_repository_def FindSmallestSufficient_cases split: list.splits)
  then have "?xs = []" by (metis length_0_conv length_sort)
  moreover from 2(2) have "u \<in> set (bounded_rows tbl skip q)" by (simp add: bounded_rows_iff)
  ultimately show ?case by (auto simp: filter_empty_conv not_le)
next
  case (3 q m u v)
  then show ?case unfolding UTXOs_repository_def utxo_repository.simps
    by (rule FindSmallestSufficient_Some(2))
next
  case (4 l q m)
  then show ?case by (simp add: UTXOs_repository_def FindLargestInsufficient_def)
next
  case (5 q m l us)
  then show ?case
    by (auto simp: UTXOs_repository_def FindLargestInsufficient_eq take_map [symmetric] rev_map [symmetric]
        intro!: sorted_rev_take)
next
  case (6 q m l us v)
  let ?xs = "sort_key utxo_key (filter (\<lambda>u. uu_Satoshis u < m) (bounded_rows tbl skip q))"
  from 6 have l: "0 < l" and us: "us = take (nat l) (rev ?xs)"
    by (auto simp: UTXOs_repository_def FindLargestInsufficient_eq)
  have "sorted (map utxo_key ?xs)" "v \<in> set ?xs"
    using 6 by (auto simp: bounded_rows_iff)
  then show ?case
    using take_rev_greatest [of utxo_key ?xs v "nat l"] 6(4) l unfolding us by auto
qed

end
