(* ===== verification/Satoshi.thy ===== *)
theory Satoshi
  imports Prelude
begin

text \<open>
  The satoshi arithmetic of \<open>pkg/internal/satoshi/satoshi.go\<close> and the satoshi bounds of
  \<open>pkg/wdk/primitives/numbers.go\<close>.

  \<open>satoshi.Value\<close> is an \<open>int64\<close>; the generic functions accept any Go integer type. A value of
  such a type is a \<open>go_int\<close>: signed or unsigned, with its mathematical value. Every addition,
  subtraction and multiplication of the source wraps at 64 bits before it is validated.
\<close>

section \<open>Definitions\<close>

datatype go_int = Signed int | Unsigned nat

fun go_val :: "go_int \<Rightarrow> int" where
  "go_val (Signed v) = v"
| "go_val (Unsigned n) = int n"

type_synonym sat_value = int

definition MaxSatoshis :: int where
  "MaxSatoshis = 2100000000000000"

definition SweepMaxSatoshis :: int where
  "SweepMaxSatoshis = 2099999999999999"

definition SatoshiValue_Validate :: "nat \<Rightarrow> unit result" where
  "SatoshiValue_Validate s =
     (if int s > MaxSatoshis then Inl (GoErr ''less than 2100000000000000'') else Inr ())"

definition PositiveIntegerDefault10Max10000_Validate :: "nat \<Rightarrow> unit result" where
  "PositiveIntegerDefault10Max10000_Validate i =
     (if i > 10000 then Inl (GoErr ''is larger than 10000'') else Inr ())"

definition validateInt :: "int \<Rightarrow> unit result" where
  "validateInt value =
     (if value > MaxSatoshis then Inl (GoErr ''satoshi value exceeded max value'')
      else if value < - MaxSatoshis then Inl (GoErr ''satoshi value is less than minimum allowed value'')
      else Inr ())"

definition validateUint :: "nat \<Rightarrow> unit result" where
  "validateUint value =
     (if int value > MaxSatoshis then Inl (GoErr ''satoshi value exceeded max value'') else Inr ())"

text \<open>
  The type switch of \<open>Validate\<close> and the reflection switch of \<open>validateGeneric\<close> both come down
  to the signedness of the argument type: the unsupported kinds are not integer types.
\<close>

fun Validate :: "go_int \<Rightarrow> unit result" where
  "Validate (Signed v) = validateInt v"
| "Validate (Unsigned n) = validateUint n"

text \<open>The Go conversion \<open>Value(value)\<close>.\<close>

fun to_Value :: "go_int \<Rightarrow> sat_value" where
  "to_Value (Signed v) = wrap_i64 v"
| "to_Value (Unsigned n) = u64_to_i64 n"

definition From :: "go_int \<Rightarrow> sat_value result" where
  "From value = rbind (Validate value) (\<lambda>_. Inr (to_Value value))"

definition MustFrom :: "go_int \<Rightarrow> sat_value result" where
  "MustFrom value = must (From value)"

definition UInt64 :: "sat_value \<Rightarrow> nat result" where
  "UInt64 v = (if v < 0 then Inl (GoErr ''cannot convert negative satoshi to uint64'') else Inr (nat v))"

definition MustUInt64 :: "sat_value \<Rightarrow> nat result" where
  "MustUInt64 v = must (UInt64 v)"

definition Add :: "go_int \<Rightarrow> go_int \<Rightarrow> sat_value result" where
  "Add a b =
     rbind (From a) (\<lambda>satsA. rbind (From b) (\<lambda>satsB.
       let c = wrap_i64 (satsA + satsB) in rbind (Validate (Signed c)) (\<lambda>_. Inr c)))"

definition MustAdd :: "go_int \<Rightarrow> go_int \<Rightarrow> sat_value result" where
  "MustAdd a b = must (Add a b)"

definition Subtract :: "go_int \<Rightarrow> go_int \<Rightarrow> sat_value result" where
  "Subtract a b =
     rbind (From a) (\<lambda>satsA. rbind (From b) (\<lambda>satsB.
       let c = wrap_i64 (satsA - satsB) in rbind (validateInt c) (\<lambda>_. Inr c)))"

definition MustSubtract :: "go_int \<Rightarrow> go_int \<Rightarrow> sat_value result" where
  "MustSubtract a b = must (Subtract a b)"

definition Multiply :: "go_int \<Rightarrow> go_int \<Rightarrow> sat_value result" where
  "Multiply a b =
     rbind (From a) (\<lambda>satsA. rbind (From b) (\<lambda>satsB.
       let c = wrap_i64 (satsA * satsB) in rbind (validateInt c) (\<lambda>_. Inr c)))"

definition MustMultiply :: "go_int \<Rightarrow> go_int \<Rightarrow> sat_value result" where
  "MustMultiply a b = must (Multiply a b)"

text \<open>The loop of \<open>Sum\<close>, with the running total \<open>val\<close>.\<close>

fun sum_loop :: "sat_value \<Rightarrow> go_int list \<Rightarrow> sat_value result" where
  "sum_loop val [] = Inr val"
| "sum_loop val (it # values) =
     rbind (From it) (\<lambda>satsB.
       let val' = wrap_i64 (val + satsB) in
       rbind (validateInt val') (\<lambda>_. sum_loop val' values))"

definition Sum_sats :: "go_int list \<Rightarrow> sat_value result" where
  "Sum_sats values = sum_loop 0 values"

definition MustSum :: "go_int list \<Rightarrow> sat_value result" where
  "MustSum values = must (Sum_sats values)"

definition Equal_sats :: "go_int \<Rightarrow> go_int \<Rightarrow> bool result" where
  "Equal_sats a b = rbind (From a) (\<lambda>satsA. rbind (From b) (\<lambda>satsB. Inr (satsA = satsB)))"

definition MustEqual :: "go_int \<Rightarrow> go_int \<Rightarrow> bool result" where
  "MustEqual a b = must (Equal_sats a b)"

section \<open>The range of valid amounts\<close>

definition valid_sats :: "int \<Rightarrow> bool" where
  "valid_sats v \<longleftrightarrow> - MaxSatoshis \<le> v \<and> v \<le> MaxSatoshis"

lemma valid_sats_i64: "valid_sats v \<Longrightarrow> is_i64 v"
  by (simp add: valid_sats_def MaxSatoshis_def is_i64_def)

lemma valid_sats_0 [simp]: "valid_sats 0"
  by (simp add: valid_sats_def MaxSatoshis_def)

lemma validateInt_eq [result_simps]: "validateInt v = Inr u \<longleftrightarrow> valid_sats v"
  by (auto simp: validateInt_def valid_sats_def)

lemma validateInt_valid [simp]: "valid_sats v \<Longrightarrow> validateInt v = Inr ()"
  by (auto simp: validateInt_def valid_sats_def)

lemma Validate_eq [result_simps]: "Validate a = Inr u \<longleftrightarrow> valid_sats (go_val a)"
  by (cases a) (auto simp: result_simps validateUint_def valid_sats_def MaxSatoshis_def)

lemma to_Value_valid: "valid_sats (go_val a) \<Longrightarrow> to_Value a = go_val a"
  by (cases a) (auto simp: u64_to_i64_def valid_sats_i64)

lemma From_eq [result_simps]: "From a = Inr v \<longleftrightarrow> valid_sats (go_val a) \<and> v = go_val a"
  by (auto simp: From_def result_simps to_Value_valid)

lemma From_valid [simp]: "valid_sats (go_val a) \<Longrightarrow> From a = Inr (go_val a)"
  by (simp add: From_eq)

lemma From_no_panic: "From a = Inl e \<Longrightarrow> \<not> is_panic e"
  by (cases a) (auto simp: From_def result_simps validateInt_def validateUint_def split: if_splits)

lemma valid_sats_sum_i64:
  assumes "valid_sats a" "valid_sats b"
  shows "is_i64 (a + b)" "is_i64 (a - b)"
  using assms by (simp_all add: valid_sats_def MaxSatoshis_def is_i64_def)

lemma Add_eq [result_simps]:
  "Add a b = Inr c \<longleftrightarrow>
     valid_sats (go_val a) \<and> valid_sats (go_val b) \<and> valid_sats (go_val a + go_val b) \<and>
     c = go_val a + go_val b"
  by (auto simp: Add_def Let_def result_simps valid_sats_sum_i64)

lemma Subtract_eq [result_simps]:
  "Subtract a b = Inr c \<longleftrightarrow>
     valid_sats (go_val a) \<and> valid_sats (go_val b) \<and> valid_sats (go_val a - go_val b) \<and>
     c = go_val a - go_val b"
  by (auto simp: Subtract_def Let_def result_simps valid_sats_sum_i64)

lemma Multiply_eq [result_simps]:
  "Multiply a b = Inr c \<longleftrightarrow>
     valid_sats (go_val a) \<and> valid_sats (go_val b) \<and>
     valid_sats (wrap_i64 (go_val a * go_val b)) \<and> c = wrap_i64 (go_val a * go_val b)"
  by (auto simp: Multiply_def Let_def result_simps)

lemma MustAdd_eq [result_simps]: "MustAdd a b = Inr c \<longleftrightarrow> Add a b = Inr c"
  by (simp add: MustAdd_def)

lemma MustSubtract_eq [result_simps]: "MustSubtract a b = Inr c \<longleftrightarrow> Subtract a b = Inr c"
  by (simp add: MustSubtract_def)

lemma MustMultiply_eq [result_simps]: "MustMultiply a b = Inr c \<longleftrightarrow> Multiply a b = Inr c"
  by (simp add: MustMultiply_def)

lemma MustFrom_eq [result_simps]: "MustFrom a = Inr c \<longleftrightarrow> valid_sats (go_val a) \<and> c = go_val a"
  by (simp add: MustFrom_def result_simps)

lemma MustUInt64_eq [result_simps]: "MustUInt64 v = Inr n \<longleftrightarrow> 0 \<le> v \<and> n = nat v"
  by (auto simp: MustUInt64_def UInt64_def split: if_splits)

lemma MustUInt64_nonneg [simp]: "0 \<le> v \<Longrightarrow> MustUInt64 v = Inr (nat v)"
  by (simp add: MustUInt64_eq)

lemma MustFrom_valid [simp]: "valid_sats (go_val a) \<Longrightarrow> MustFrom a = Inr (go_val a)"
  by (simp add: MustFrom_eq)

section \<open>Sums\<close>

lemma sum_loop_sound:
  "sum_loop val xs = Inr v \<Longrightarrow> valid_sats val \<Longrightarrow>
   v = val + sum_list (map go_val xs) \<and> valid_sats v"
proof (induction xs arbitrary: val)
  case (Cons x xs)
  from Cons.prems have ok: "valid_sats (go_val x)" "valid_sats (val + go_val x)"
    and rest: "sum_loop (val + go_val x) xs = Inr v"
    by (auto simp: Let_def result_simps valid_sats_sum_i64)
  from Cons.IH [OF rest ok(2)] show ?case by (auto simp: add.assoc)
qed simp

lemma sum_loop_complete:
  "list_all (\<lambda>x. 0 \<le> go_val x) xs \<Longrightarrow> 0 \<le> val \<Longrightarrow>
   val + sum_list (map go_val xs) \<le> MaxSatoshis \<Longrightarrow>
   sum_loop val xs = Inr (val + sum_list (map go_val xs))"
proof (induction xs arbitrary: val)
  case (Cons x xs)
  have nonneg: "0 \<le> sum_list (map go_val xs)"
    using Cons.prems(1) by (intro sum_list_nonneg) (auto simp: list_all_iff)
  with Cons.prems have ok: "valid_sats (go_val x)" "valid_sats val" "valid_sats (val + go_val x)"
    by (auto simp: valid_sats_def MaxSatoshis_def)
  have "sum_loop (val + go_val x) xs = Inr (val + go_val x + sum_list (map go_val xs))"
    using Cons.prems by (intro Cons.IH) auto
  with ok show ?case by (simp add: Let_def valid_sats_sum_i64 add.assoc)
qed simp

lemma Sum_sats_sound:
  "Sum_sats xs = Inr v \<Longrightarrow> v = sum_list (map go_val xs) \<and> valid_sats v"
  using sum_loop_sound [of 0] by (simp add: Sum_sats_def)

section \<open>Properties\<close>

text \<open>
  Checked addition, subtraction and summation never return a wrapped amount. \<open>Add\<close> and
  \<open>Subtract\<close> return a value exactly when both operands and the exact result are valid satoshi
  amounts, and then they return the exact result; \<open>Sum\<close> returns the exact total of its
  arguments, and it does so whenever they are non-negative and the total does not exceed the
  maximum supply.
\<close>

theorem satoshi_arithmetic_exact:
  "(Add a b = Inr c \<longleftrightarrow>
      valid_sats (go_val a) \<and> valid_sats (go_val b) \<and> valid_sats (go_val a + go_val b) \<and>
      c = go_val a + go_val b) \<and>
   (Subtract a b = Inr c \<longleftrightarrow>
      valid_sats (go_val a) \<and> valid_sats (go_val b) \<and> valid_sats (go_val a - go_val b) \<and>
      c = go_val a - go_val b) \<and>
   (Sum_sats xs = Inr v \<longrightarrow> v = sum_list (map go_val xs) \<and> valid_sats v) \<and>
   (list_all (\<lambda>x. 0 \<le> go_val x) xs \<and> sum_list (map go_val xs) \<le> MaxSatoshis \<longrightarrow>
      Sum_sats xs = Inr (sum_list (map go_val xs)))"
proof (intro conjI impI)
  assume "list_all (\<lambda>x. 0 \<le> go_val x) xs \<and> sum_list (map go_val xs) \<le> MaxSatoshis"
  then show "Sum_sats xs = Inr (sum_list (map go_val xs))"
    using sum_loop_complete [of xs 0] by (simp add: Sum_sats_def)
qed (rule Add_eq, rule Subtract_eq, simp_all only: Sum_sats_sound)

theorem satoshi_arithmetic_exact_witness:
  "Add (Signed (-5)) (Unsigned 7) = Inr 2 \<and> Sum_sats [Unsigned 3, Signed 4] = Inr 7"
  using satoshi_arithmetic_exact [of "Signed (-5)" "Unsigned 7" 2 "[Unsigned 3, Signed 4]" 7]
  by (simp add: valid_sats_def MaxSatoshis_def)

text \<open>
  Multiplication is exact as long as the mathematical product fits in 64 bits, but its
  overflow check looks only at the wrapped product: \<open>2^32\<close> times \<open>2^32\<close> is accepted with the
  result \<open>0\<close>.
\<close>

theorem Multiply_exact_unless_wrapped:
  "(is_i64 (go_val a * go_val b) \<longrightarrow>
      (Multiply a b = Inr c \<longleftrightarrow>
        valid_sats (go_val a) \<and> valid_sats (go_val b) \<and> valid_sats (go_val a * go_val b) \<and>
        c = go_val a * go_val b)) \<and>
   Multiply (Unsigned 4294967296) (Unsigned 4294967296) = Inr 0"
proof -
  have "wrap_i64 18446744073709551616 = 0" by (simp add: wrap_i64_def)
  then show ?thesis by (auto simp: Multiply_eq valid_sats_def MaxSatoshis_def)
qed

theorem Multiply_exact_unless_wrapped_witness:
  "is_i64 (go_val (Unsigned 1000) * go_val (Signed 21)) \<and>
   Multiply (Unsigned 1000) (Signed 21) = Inr 21000"
  using Multiply_exact_unless_wrapped [of "Unsigned 1000" "Signed 21" 21000]
  by (simp add: valid_sats_def MaxSatoshis_def is_i64_def)

end
