(* ===== verification/Float64.thy ===== *)
theory Float64
  imports Complex_Main "HOL-Library.Log_Nat"
begin

text \<open>
  Go's \<open>float64\<close> arithmetic, as far as the fee computations use it. A finite \<open>float64\<close> is the
  rational number it denotes; the result of a float operation is the exact rational result
  rounded to 53 significant bits, ties to even (\<open>fl\<close>), as IEEE 754 prescribes. Overflow to
  infinity and the subnormal range are left out: the operands here are products and quotients
  of 64-bit integers, far inside the normal range.
\<close>

section \<open>Definitions\<close>

text \<open>The binary exponent of a positive rational: \<open>2 powi e \<le> x < 2 powi (e + 1)\<close>.\<close>

definition rat_exponent :: "rat \<Rightarrow> int" where
  "rat_exponent x =
     (let (n, d) = quotient_of x; e = bitlen n - bitlen d
      in if 2 powi e \<le> x then e else e - 1)"

definition round_half_even :: "rat \<Rightarrow> int" where
  "round_half_even y =
     (let f = \<lfloor>y\<rfloor>; r = y - of_int f in
      if r < 1 / 2 then f else if r > 1 / 2 then f + 1 else if even f then f else f + 1)"

definition fl :: "rat \<Rightarrow> rat" where
  "fl x =
     (if x = 0 then 0
      else let e = rat_exponent \<bar>x\<bar> - 52
           in sgn x * of_int (round_half_even (\<bar>x\<bar> / 2 powi e)) * 2 powi e)"

definition float_div :: "rat \<Rightarrow> rat \<Rightarrow> rat" where
  "float_div x y = fl (x / y)"

definition float_mul :: "rat \<Rightarrow> rat \<Rightarrow> rat" where
  "float_mul x y = fl (x * y)"

definition float_add :: "rat \<Rightarrow> rat \<Rightarrow> rat" where
  "float_add x y = fl (x + y)"

section \<open>Rounding\<close>

lemma round_half_even_err: "\<bar>of_int (round_half_even y) - y\<bar> \<le> 1 / 2"
proof -
  have "of_int \<lfloor>y\<rfloor> \<le> y" "y < of_int \<lfloor>y\<rfloor> + 1" by linarith+
  then show ?thesis
    by (auto simp: round_half_even_def Let_def abs_le_iff)
qed

lemma round_half_even_int [simp]: "round_half_even (of_int n) = n"
  by (simp add: round_half_even_def)

lemma round_half_even_mono: "x \<le> y \<Longrightarrow> round_half_even x \<le> round_half_even y"
proof -
  assume le: "x \<le> y"
  then have f: "\<lfloor>x\<rfloor> \<le> \<lfloor>y\<rfloor>" by (rule floor_mono)
  show ?thesis
  proof (cases "\<lfloor>x\<rfloor> = \<lfloor>y\<rfloor>")
    case True
    with le show ?thesis by (auto simp: round_half_even_def Let_def)
  next
    case False
    with f have "\<lfloor>x\<rfloor> + 1 \<le> \<lfloor>y\<rfloor>" by simp
    then show ?thesis by (auto simp: round_half_even_def Let_def)
  qed
qed

lemma bitlen_powi:
  assumes "0 < n"
  shows "2 powi (bitlen n - 1) \<le> (of_int n :: rat)" and "(of_int n :: rat) < 2 powi bitlen n"
proof -
  have one: "1 \<le> bitlen n" using assms by (auto simp: bitlen_alt_def)
  from bitlen_bounds [OF assms] have
    "(of_int (2 ^ nat (bitlen n - 1)) :: rat) \<le> of_int n" "(of_int n :: rat) < of_int (2 ^ nat (bitlen n))"
    by (simp_all only: of_int_le_iff of_int_less_iff)
  with one show "2 powi (bitlen n - 1) \<le> (of_int n :: rat)" "(of_int n :: rat) < 2 powi bitlen n"
    by (simp_all add: power_int_def)
qed

lemma rat_frac_le: "0 < b \<Longrightarrow> 0 < d \<Longrightarrow> a * d \<le> n * b \<Longrightarrow> a / b \<le> n / (d :: rat)"
  by (simp add: field_simps)

lemma rat_frac_less: "0 < b \<Longrightarrow> 0 < d \<Longrightarrow> n * b < a * d \<Longrightarrow> n / d < a / (b :: rat)"
  by (simp add: field_simps)

lemma rat_exponent_bounds:
  assumes "0 < x"
  shows "2 powi rat_exponent x \<le> x \<and> x < 2 powi (rat_exponent x + 1)"
proof -
  obtain n d where q: "quotient_of x = (n, d)" by (cases "quotient_of x")
  have x: "x = of_int n / of_int d" and d: "0 < d"
    using quotient_of_div [OF q] quotient_of_denom_pos [OF q] by auto
  with assms have n: "0 < n" by (simp add: zero_less_divide_iff)
  note bn = bitlen_powi [OF n] and bd = bitlen_powi [OF d]
  have pos: "0 < (2 :: rat) powi k" for k by simp
  have lo: "2 powi (bitlen n - bitlen d - 1) \<le> x"
  proof -
    have "2 powi (bitlen n - 1) * of_int d \<le> (of_int n :: rat) * 2 powi bitlen d"
      using bn(1) bd(2) pos d n by (intro mult_mono) (auto intro: less_imp_le)
    moreover have "2 powi (bitlen n - bitlen d - 1) = (2 powi (bitlen n - 1) :: rat) / 2 powi bitlen d"
      by (simp add: power_int_diff [symmetric] algebra_simps)
    ultimately show ?thesis
      using d pos unfolding x by (simp only: rat_frac_le of_int_0_less_iff)
  qed
  have hi: "x < 2 powi (bitlen n - bitlen d + 1)"
  proof -
    have "(of_int n :: rat) * 2 powi (bitlen d - 1) < 2 powi bitlen n * of_int d"
      using bn(2) bd(1) pos d n by (intro mult_less_le_imp_less) auto
    moreover have "2 powi (bitlen n - bitlen d + 1) = (2 powi bitlen n :: rat) / 2 powi (bitlen d - 1)"
      by (simp add: power_int_diff [symmetric] algebra_simps)
    ultimately show ?thesis
      using d pos unfolding x by (simp only: rat_frac_less of_int_0_less_iff)
  qed
  show ?thesis
    using lo hi by (auto simp: rat_exponent_def q Let_def)
qed

text \<open>The relative error of one rounding is at most \<open>2 powi -53\<close>.\<close>

lemma fl_abs_err: "0 \<le> x \<Longrightarrow> \<bar>fl x - x\<bar> \<le> x / 2 ^ 53"
proof (cases "x = 0")
  case False
  assume "0 \<le> x"
  with False have pos: "0 < x" by simp
  let ?e = "rat_exponent x - 52"
  let ?u = "2 powi ?e :: rat"
  have u: "0 < ?u" by simp
  have flx: "fl x = of_int (round_half_even (x / ?u)) * ?u"
    using pos by (simp add: fl_def Let_def)
  have "fl x - x = (of_int (round_half_even (x / ?u)) - x / ?u) * ?u"
    using u by (simp add: flx field_simps)
  then have "\<bar>fl x - x\<bar> = \<bar>of_int (round_half_even (x / ?u)) - x / ?u\<bar> * ?u"
    using u by (simp add: abs_mult)
  also have "\<dots> \<le> 1 / 2 * ?u"
    by (rule mult_right_mono [OF round_half_even_err]) (use u in simp)
  also have "?u = 2 powi rat_exponent x / 2 ^ 52"
    by (simp add: power_int_diff)
  also have "1 / 2 * (2 powi rat_exponent x / 2 ^ 52) \<le> 1 / 2 * (x / 2 ^ 52)"
    using rat_exponent_bounds [OF pos] by (intro mult_left_mono divide_right_mono) auto
  finally show ?thesis by simp
qed (simp add: fl_def)

lemma fl_nonneg: "0 \<le> x \<Longrightarrow> 0 \<le> fl x"
proof -
  assume x: "0 \<le> x"
  have "x / 2 ^ 53 \<le> x" using x by (simp add: field_simps)
  with fl_abs_err [OF x] show ?thesis by linarith
qed

text \<open>Evaluating a rounding: the exponent is determined by its bounds.\<close>

lemma rat_exponent_unique:
  assumes "2 powi e \<le> x" and "x < 2 powi (e + 1)"
  shows "rat_exponent x = e"
proof -
  have "0 < (2 :: rat) powi e" by simp
  with assms(1) have pos: "0 < x" by linarith
  note b = rat_exponent_bounds [OF pos]
  have "(2 :: rat) powi e < 2 powi (rat_exponent x + 1)" "(2 :: rat) powi rat_exponent x < 2 powi (e + 1)"
    using assms b by linarith+
  moreover have "i < j" if "(2 :: rat) powi i < 2 powi j" for i j :: int
    using that power_int_increasing [of j i "2 :: rat"] by force
  ultimately have "e < rat_exponent x + 1" "rat_exponent x < e + 1" by blast+
  then show ?thesis by simp
qed

lemma fl_at:
  assumes "2 powi e \<le> x" and "x < 2 powi (e + 1)"
  shows "fl x = of_int (round_half_even (x / 2 powi (e - 52))) * 2 powi (e - 52)"
proof -
  have "0 < (2 :: rat) powi e" by simp
  with assms(1) have "0 < x" by linarith
  then show ?thesis by (simp add: fl_def Let_def rat_exponent_unique [OF assms])
qed

lemma round_half_even_eq:
  assumes "\<bar>y - of_int n\<bar> < 1 / 2"
  shows "round_half_even y = n"
proof -
  have "\<bar>of_int (round_half_even y) - y\<bar> \<le> 1 / 2" by (rule round_half_even_err)
  with assms have "\<bar>of_int (round_half_even y) - of_int n :: rat\<bar> < 1" by arith
  then show ?thesis by linarith
qed

end
