(* ===== verification/Go_Lib.thy ===== *)
theory Go_Lib
  imports Prelude Float64
begin

text \<open>
  The third-party functions the modelled code calls. Their source is not part of the
  repository, so they are a parameter of the model: a record \<open>go_lib\<close> that the definitions take
  as an argument. \<open>go_lib_ok\<close> states the documented behaviour the theorems rely on, and
  \<open>std_lib\<close> is a concrete record that has it.

  \<^item> \<open>sdk.VarInt(v).Length()\<close> of go-sdk: the length of the variable-length integer encoding;
  \<^item> \<open>to.NoLessThan\<close>, \<open>to.ValueBetween\<close>, \<open>to.UInt64\<close>, \<open>to.Float64\<close>, \<open>to.Float64FromUnsigned\<close>,
    \<open>to.Int64\<close> and \<open>must.ConvertToUInt64\<close> of go-softwarelab/common (\<open>None\<close> is an error, or a
    panic for the \<open>must\<close> function);
  \<^item> \<open>seq.Of\<close>, \<open>seq.Repeat\<close>, \<open>seq.Concat\<close> and \<open>seq.Map\<close> of the same library. A Go sequence is the
    list of the values one iteration yields; the function given to \<open>seq.Map\<close> may keep state
    between calls, which is the extra argument of \<open>seq_Map\<close>.
\<close>

record go_lib =
  sdk_VarInt_Length :: "nat \<Rightarrow> nat"
  to_NoLessThan_u64 :: "nat \<Rightarrow> nat \<Rightarrow> nat"
  to_NoLessThan_i64 :: "int \<Rightarrow> int \<Rightarrow> int"
  to_ValueBetween_u64 :: "nat \<Rightarrow> nat \<Rightarrow> nat \<Rightarrow> nat"
  to_UInt64 :: "int \<Rightarrow> nat option"
  must_ConvertToUInt64 :: "int \<Rightarrow> nat option"
  to_Float64 :: "int \<Rightarrow> rat option"
  to_Float64FromUnsigned :: "nat \<Rightarrow> rat option"
  to_Int64 :: "rat \<Rightarrow> int option"
  seq_Of_u64 :: "nat list \<Rightarrow> nat list"
  seq_Of_sat :: "int list \<Rightarrow> int list"
  seq_Repeat_u64 :: "nat \<Rightarrow> nat \<Rightarrow> nat list"
  seq_Repeat_sat :: "int \<Rightarrow> nat \<Rightarrow> int list"
  seq_Concat_u64 :: "nat list \<Rightarrow> nat list \<Rightarrow> nat list"
  seq_Concat_sat :: "int list \<Rightarrow> int list \<Rightarrow> int list"
  seq_Map :: "(nat \<Rightarrow> nat \<Rightarrow> nat \<times> int result) \<Rightarrow> nat \<Rightarrow> nat list \<Rightarrow> int result list"

section \<open>Documented behaviour\<close>

definition varint_length :: "nat \<Rightarrow> nat" where
  "varint_length v =
     (if v < 253 then 1 else if v < 65536 then 3 else if v < 4294967296 then 5 else 9)"

definition varint_ok :: "go_lib \<Rightarrow> bool" where
  "varint_ok lib \<longleftrightarrow> (\<forall>v. is_u64 v \<longrightarrow> sdk_VarInt_Length lib v = varint_length v)"

definition clamp_ok :: "go_lib \<Rightarrow> bool" where
  "clamp_ok lib \<longleftrightarrow>
     (\<forall>v m. to_NoLessThan_u64 lib v m = max v m) \<and>
     (\<forall>v m. to_NoLessThan_i64 lib v m = max v m) \<and>
     (\<forall>v lo hi. lo \<le> hi \<longrightarrow> to_ValueBetween_u64 lib v lo hi = max lo (min hi v))"

definition convert_ok :: "go_lib \<Rightarrow> bool" where
  "convert_ok lib \<longleftrightarrow>
     (\<forall>v. is_i64 v \<longrightarrow> to_UInt64 lib v = (if v < 0 then None else Some (nat v))) \<and>
     (\<forall>v. is_i64 v \<longrightarrow> must_ConvertToUInt64 lib v = (if v < 0 then None else Some (nat v)))"

definition float_ok :: "go_lib \<Rightarrow> bool" where
  "float_ok lib \<longleftrightarrow>
     (\<forall>v. \<bar>v\<bar> \<le> 9007199254740992 \<longrightarrow> to_Float64 lib v = Some (of_int v)) \<and>
     (\<forall>v. v \<le> 9007199254740992 \<longrightarrow> to_Float64FromUnsigned lib v = Some (of_nat v)) \<and>
     (\<forall>v. \<bar>v\<bar> \<le> 9007199254740992 \<longrightarrow> to_Int64 lib (of_int v) = Some v)"

definition seq_ok :: "go_lib \<Rightarrow> bool" where
  "seq_ok lib \<longleftrightarrow>
     (\<forall>xs. seq_Of_u64 lib xs = xs) \<and> (\<forall>xs. seq_Of_sat lib xs = xs) \<and>
     (\<forall>x n. seq_Repeat_u64 lib x n = replicate n x) \<and>
     (\<forall>x n. seq_Repeat_sat lib x n = replicate n x) \<and>
     (\<forall>xs ys. seq_Concat_u64 lib xs ys = xs @ ys) \<and>
     (\<forall>xs ys. seq_Concat_sat lib xs ys = xs @ ys) \<and>
     (\<forall>f s. seq_Map lib f s [] = []) \<and>
     (\<forall>f s x xs. seq_Map lib f s (x # xs) = snd (f s x) # seq_Map lib f (fst (f s x)) xs)"

definition go_lib_ok :: "go_lib \<Rightarrow> bool" where
  "go_lib_ok lib \<longleftrightarrow> varint_ok lib \<and> clamp_ok lib \<and> convert_ok lib \<and> float_ok lib \<and> seq_ok lib"

section \<open>A concrete library\<close>

fun map_state :: "(nat \<Rightarrow> nat \<Rightarrow> nat \<times> int result) \<Rightarrow> nat \<Rightarrow> nat list \<Rightarrow> int result list" where
  "map_state f s [] = []"
| "map_state f s (x # xs) = snd (f s x) # map_state f (fst (f s x)) xs"

definition std_lib :: go_lib where
  "std_lib = \<lparr>
     sdk_VarInt_Length = varint_length,
     to_NoLessThan_u64 = max,
     to_NoLessThan_i64 = max,
     to_ValueBetween_u64 = (\<lambda>v lo hi. max lo (min hi v)),
     to_UInt64 = (\<lambda>v. if v < 0 then None else Some (nat v)),
     must_ConvertToUInt64 = (\<lambda>v. if v < 0 then None else Some (nat v)),
     to_Float64 = (\<lambda>v. Some (of_int v)),
     to_Float64FromUnsigned = (\<lambda>v. Some (of_nat v)),
     to_Int64 = (\<lambda>x. if is_i64 \<lfloor>x\<rfloor> then Some \<lfloor>x\<rfloor> else None),
     seq_Of_u64 = (\<lambda>xs. xs),
     seq_Of_sat = (\<lambda>xs. xs),
     seq_Repeat_u64 = (\<lambda>x n. replicate n x),
     seq_Repeat_sat = (\<lambda>x n. replicate n x),
     seq_Concat_u64 = (@),
     seq_Concat_sat = (@),
     seq_Map = map_state\<rparr>"

lemma std_lib_ok: "go_lib_ok std_lib"
  by (auto simp: go_lib_ok_def varint_ok_def clamp_ok_def convert_ok_def float_ok_def seq_ok_def
      std_lib_def is_i64_def)

lemmas go_lib_okD =
  go_lib_ok_def [THEN iffD1, THEN conjunct1]
  go_lib_ok_def [THEN iffD1, THEN conjunct2, THEN conjunct1]
  go_lib_ok_def [THEN iffD1, THEN conjunct2, THEN conjunct2, THEN conjunct1]
  go_lib_ok_def [THEN iffD1, THEN conjunct2, THEN conjunct2, THEN conjunct2, THEN conjunct1]
  go_lib_ok_def [THEN iffD1, THEN conjunct2, THEN conjunct2, THEN conjunct2, THEN conjunct2]

end
