(* ===== verification/Fee_Calculator.thy ===== *)
theory Fee_Calculator
  imports Satoshi Go_Lib
begin

text \<open>
  The transaction fee: \<open>pkg/internal/storage/funder/fee_calculator.go\<close> and the fee model of
  \<open>pkg/defs/fee_model.go\<close>. The fee is computed in \<open>float64\<close>; the main theorem bounds what the
  two roundings can do to the exact value \<open>\<lceil>size * rate / 1000\<rceil>\<close>.
\<close>

section \<open>Fee model\<close>

definition SatPerKB :: string where
  "SatPerKB = ''sat/kb''"

record fee_model =
  fm_Type :: string
  fm_Value :: int

definition DefaultFeeModel :: fee_model where
  "DefaultFeeModel = \<lparr>fm_Type = SatPerKB, fm_Value = 100\<rparr>"

section \<open>Fee calculator\<close>

record feeCalc =
  fc_bytes :: rat
  fc_value :: rat

definition newFeeCalculator :: "go_lib \<Rightarrow> fee_model \<Rightarrow> feeCalc result" where
  "newFeeCalculator lib model =
     (if fm_Type model \<noteq> SatPerKB then Inl (GoPanic ''unsupported fee model'')
      else if fm_Value model < 0 then Inl (GoPanic ''fee model value cannot be negative'')
      else case to_Float64 lib (fm_Value model) of
        None \<Rightarrow> Inl (GoPanic ''invalid fee model value'')
      | Some feeValue \<Rightarrow> Inr \<lparr>fc_bytes = 1000, fc_value = feeValue\<rparr>)"

definition Calculate :: "go_lib \<Rightarrow> feeCalc \<Rightarrow> nat \<Rightarrow> int result" where
  "Calculate lib f txSize =
     (case to_Float64FromUnsigned lib txSize of
        None \<Rightarrow> Inl (GoWrap ''invalid transaction size'' (GoErr ''to.Float64FromUnsigned''))
      | Some sz \<Rightarrow>
          let feeAmount = of_int \<lceil>float_mul (float_div sz (fc_bytes f)) (fc_value f)\<rceil> in
          (case to_Int64 lib feeAmount of
             None \<Rightarrow> Inl (GoWrap ''failed to calculate fee value'' (GoErr ''to.Int64''))
           | Some fee \<Rightarrow> rwrap ''failed to convert fee to satoshi'' (From (Signed fee))))"

section \<open>Accuracy of the fee\<close>

definition exact_fee :: "nat \<Rightarrow> int \<Rightarrow> int" where
  "exact_fee txSize rate = \<lceil>(of_nat txSize * of_int rate / 1000 :: rat)\<rceil>"

lemma two_roundings:
  fixes s v :: rat
  assumes "0 \<le> s" "0 \<le> v"
  shows "\<bar>float_mul (float_div s 1000) v - s * v / 1000\<bar> \<le> (s * v / 1000) * (3 / 2 ^ 53)"
proof -
  let ?a = "fl (s / 1000)" and ?x = "s * v / 1000"
  have a: "\<bar>?a - s / 1000\<bar> \<le> s / 1000 / 2 ^ 53" using assms by (intro fl_abs_err) simp
  have a0: "0 \<le> ?a" using assms by (intro fl_nonneg) simp
  have b: "\<bar>fl (?a * v) - ?a * v\<bar> \<le> ?a * v / 2 ^ 53" using a0 assms by (intro fl_abs_err) simp
  have x0: "0 \<le> ?x" using assms by simp
  have "?a * v - ?x = (?a - s / 1000) * v" by (simp add: algebra_simps)
  then have "\<bar>?a * v - ?x\<bar> = \<bar>?a - s / 1000\<bar> * v" using assms(2) by (simp add: abs_mult)
  also have "\<dots> \<le> (s / 1000 / 2 ^ 53) * v" by (rule mult_right_mono [OF a assms(2)])
  finally have av: "\<bar>?a * v - ?x\<bar> \<le> ?x / 2 ^ 53" by simp
  have "\<bar>fl (?a * v) - ?x\<bar> \<le> \<bar>fl (?a * v) - ?a * v\<bar> + \<bar>?a * v - ?x\<bar>" by linarith
  also have "\<dots> \<le> ?a * v / 2 ^ 53 + ?x / 2 ^ 53" using b av by linarith
  finally have sum: "\<bar>fl (?a * v) - ?x\<bar> \<le> ?a * v / 2 ^ 53 + ?x / 2 ^ 53" .
  have "?x / 2 ^ 53 \<le> ?x" using x0 by simp
  with av have "?a * v \<le> 2 * ?x" by linarith
  then have "?a * v / 2 ^ 53 \<le> 2 * ?x / 2 ^ 53" by (rule divide_right_mono) simp
  with sum have "\<bar>fl (?a * v) - ?x\<bar> \<le> 2 * ?x / 2 ^ 53 + ?x / 2 ^ 53" by linarith
  also have "\<dots> = ?x * (3 / 2 ^ 53)" by simp
  finally show ?thesis by (simp only: float_mul_def float_div_def)
qed

lemma ceiling_near:
  fixes x y :: rat
  assumes k: "x * 1000 = of_int k" and near: "\<bar>y - x\<bar> < 1 / 1000"
  shows "\<lceil>x\<rceil> \<le> \<lceil>y\<rceil>" and "\<lceil>y\<rceil> \<le> \<lceil>x\<rceil> + 1"
    and "x \<noteq> of_int \<lceil>x\<rceil> \<Longrightarrow> \<lceil>y\<rceil> = \<lceil>x\<rceil>"
proof -
  have step: "of_int i + 1 / 1000 \<le> x" if "of_int i < x" for i :: int
  proof -
    have "(of_int (i * 1000) :: rat) < of_int k" using that k by simp
    then have "i * 1000 + 1 \<le> k" by (simp only: of_int_less_iff)
    then have "(of_int (i * 1000 + 1) :: rat) \<le> of_int k" by (simp only: of_int_le_iff)
    then show ?thesis using k by simp
  qed
  have down: "x \<le> of_int i - 1 / 1000" if "x < of_int i" for i :: int
  proof -
    have "(of_int k :: rat) < of_int (i * 1000)" using that k by simp
    then have "k + 1 \<le> i * 1000" by (simp only: of_int_less_iff)
    then have "(of_int (k + 1) :: rat) \<le> of_int (i * 1000)" by (simp only: of_int_le_iff)
    then show ?thesis using k by simp
  qed
  have lt: "of_int (\<lceil>x\<rceil> - 1) < x" by linarith
  then have lo: "of_int (\<lceil>x\<rceil> - 1) < y" using step [OF lt] near by linarith
  then show "\<lceil>x\<rceil> \<le> \<lceil>y\<rceil>" by linarith
  show "\<lceil>y\<rceil> \<le> \<lceil>x\<rceil> + 1" using near by linarith
  assume "x \<noteq> of_int \<lceil>x\<rceil>"
  then have "x < of_int \<lceil>x\<rceil>" by linarith
  then have "y \<le> of_int \<lceil>x\<rceil>" using down [of "\<lceil>x\<rceil>"] near by linarith
  with lo show "\<lceil>y\<rceil> = \<lceil>x\<rceil>" by linarith
qed

text \<open>The sizes and rates at which the float computation is accurate: fees up to \<open>2 ^ 41\<close>
  satoshis, a thousandth of the money supply.\<close>

definition fee_domain :: "fee_model \<Rightarrow> nat \<Rightarrow> bool" where
  "fee_domain model txSize \<longleftrightarrow>
     fm_Type model = SatPerKB \<and> 0 \<le> fm_Value model \<and> fm_Value model \<le> 9007199254740992 \<and>
     txSize \<le> 9007199254740992 \<and> int txSize * fm_Value model \<le> 1000 * 2 ^ 41"

lemma Calculate_value:
  assumes "float_ok lib" and "fee_domain model txSize" and "newFeeCalculator lib model = Inr f"
  defines "x \<equiv> of_nat txSize * of_int (fm_Value model) / 1000"
  defines "y \<equiv> float_mul (float_div (of_nat txSize) 1000) (of_int (fm_Value model))"
  shows "Calculate lib f txSize = Inr \<lceil>y\<rceil>" and "\<bar>y - x\<bar> < 1 / 1000" and "x * 1000 = of_int (int txSize * fm_Value model)"
proof -
  have f: "f = \<lparr>fc_bytes = 1000, fc_value = of_int (fm_Value model)\<rparr>"
    using assms by (auto simp: newFeeCalculator_def fee_domain_def float_ok_def)
  show x: "x * 1000 = of_int (int txSize * fm_Value model)" by (simp add: x_def)
  have x0: "0 \<le> x" using assms(2) by (simp add: x_def fee_domain_def)
  have "(of_int (int txSize * fm_Value model) :: rat) \<le> of_int (1000 * 2 ^ 41)"
    using assms(2) unfolding fee_domain_def by (simp only: of_int_le_iff)
  with x have xm: "x \<le> 2 ^ 41" by simp
  have "\<bar>y - x\<bar> \<le> x * (3 / 2 ^ 53)"
    unfolding x_def y_def using assms(2) by (intro two_roundings) (auto simp: fee_domain_def)
  with xm show near: "\<bar>y - x\<bar> < 1 / 1000" by simp
  then have "-1 < y" "y \<le> of_int (2 ^ 41 + 1)" using x0 xm by (simp_all add: abs_less_iff, linarith+)
  then have "0 \<le> \<lceil>y\<rceil>" "\<lceil>y\<rceil> \<le> 2 ^ 41 + 1" by (linarith, simp only: ceiling_le_iff)
  then have "to_Int64 lib (of_int \<lceil>y\<rceil>) = Some \<lceil>y\<rceil>" "From (Signed \<lceil>y\<rceil>) = Inr \<lceil>y\<rceil>"
    using assms(1) by (auto simp: float_ok_def From_eq valid_sats_def MaxSatoshis_def)
  then show "Calculate lib f txSize = Inr \<lceil>y\<rceil>"
    using assms(1,2) by (simp add: Calculate_def f float_ok_def fee_domain_def Let_def y_def)
qed

lemmas fee_defs = SatPerKB_def DefaultFeeModel_def fee_domain_def

text \<open>
  C33. The fee the wallet pays is never below the configured rate and at most one satoshi above
  it. For every size and non-negative rate whose exact fee is at most \<open>2 ^ 41\<close> satoshis,
  \<open>Calculate\<close> returns a value, it is at least the exact fee rounded up, at most one more, and
  equal to it whenever \<open>size * rate\<close> is not a multiple of 1000.
\<close>

theorem Calculate_accurate:
  assumes "float_ok lib" and "fee_domain model txSize" and "newFeeCalculator lib model = Inr f"
  shows "\<exists>fee. Calculate lib f txSize = Inr fee \<and>
    exact_fee txSize (fm_Value model) \<le> fee \<and> fee \<le> exact_fee txSize (fm_Value model) + 1 \<and>
    (\<not> 1000 dvd int txSize * fm_Value model \<longrightarrow> fee = exact_fee txSize (fm_Value model))"
proof -
  note val = Calculate_value [OF assms]
  note near = ceiling_near [OF val(3,2)]
  have dvd: "1000 dvd int txSize * fm_Value model"
    if "of_nat txSize * of_int (fm_Value model) / 1000 = (of_int c :: rat)" for c
  proof -
    have "(of_int (int txSize * fm_Value model) :: rat) = of_int (c * 1000)"
      using that by (simp add: field_simps)
    then have "int txSize * fm_Value model = c * 1000" by (simp only: of_int_eq_iff)
    then show ?thesis by simp
  qed
  show ?thesis
    unfolding exact_fee_def using val(1) near dvd by blast
qed

theorem Calculate_accurate_witness:
  "\<exists>fee. Calculate std_lib \<lparr>fc_bytes = 1000, fc_value = 100\<rparr> 192 = Inr fee \<and>
     exact_fee 192 100 \<le> fee \<and> fee \<le> exact_fee 192 100 + 1 \<and> fee = exact_fee 192 100"
proof -
  have new: "newFeeCalculator std_lib DefaultFeeModel = Inr \<lparr>fc_bytes = 1000, fc_value = 100\<rparr>"
    by (simp add: newFeeCalculator_def fee_defs std_lib_def)
  have dom: "fee_domain DefaultFeeModel 192" by (simp add: fee_defs)
  show ?thesis
    using Calculate_accurate [OF go_lib_okD(4) [OF std_lib_ok] dom new]
    by (simp add: fee_defs)
qed

text \<open>
  The extra satoshi is real: at the default rate of 100 sat/kB a transaction of 1100 bytes
  is charged 111 satoshis although 110 pay for it exactly, because \<open>1100 / 1000\<close> is rounded up in
  \<open>float64\<close> before it is multiplied by the rate.
\<close>

theorem Calculate_overcharges:
  "Calculate std_lib \<lparr>fc_bytes = 1000, fc_value = 100\<rparr> 1100 = Inr 111 \<and> exact_fee 1100 100 = 110"
proof -
  have a: "float_div 1100 1000 = 4953959590107546 / 4503599627370496"
    using fl_at [of 0 "1100 / 1000"] round_half_even_eq [of "1100 / 1000 * 2 ^ 52" 4953959590107546]
    by (simp add: float_div_def power_int_def field_simps)
  have b: "float_mul (float_div 1100 1000) 100 = 7740561859543041 / 70368744177664"
    unfolding a
    using fl_at [of 6 "4953959590107546 / 4503599627370496 * 100"]
      round_half_even_eq [of "4953959590107546 / 4503599627370496 * 100 * 2 ^ 46" 7740561859543041]
    by (simp add: float_mul_def power_int_def field_simps)
  have c: "\<lceil>7740561859543041 / 70368744177664 :: rat\<rceil> = 111" by (simp add: ceiling_eq_iff)
  have "Calculate std_lib \<lparr>fc_bytes = 1000, fc_value = 100\<rparr> 1100 =
    rwrap ''failed to convert fee to satoshi'' (From (Signed 111))"
    by (simp add: Calculate_def std_lib_def b c is_i64_def Let_def)
  then show ?thesis
    by (simp add: exact_fee_def std_lib_def Let_def is_i64_def valid_sats_def MaxSatoshis_def)
qed

end
