(* ===== verification/Tx_Size.thy ===== *)
theory Tx_Size
  imports Go_Lib
begin

text \<open>
  Transaction sizes: \<open>pkg/internal/txutils/tx_size.go\<close> and
  \<open>pkg/internal/txutils/inputs_outputs_sizes.go\<close>. Sizes are \<open>uint64\<close> and their sums wrap.
\<close>

section \<open>Definitions\<close>

definition txEnvelopeSize :: nat where "txEnvelopeSize = 4 + 4"
definition satoshisSize :: nat where "satoshisSize = 8"
definition inputConstSize :: nat where "inputConstSize = 32 + 4 + 4"

definition varIntSize :: "go_lib \<Rightarrow> nat \<Rightarrow> nat" where
  "varIntSize lib val = sdk_VarInt_Length lib val"

definition TransactionInputSize :: "go_lib \<Rightarrow> nat \<Rightarrow> nat" where
  "TransactionInputSize lib scriptSize =
     u64_add (u64_add inputConstSize (varIntSize lib scriptSize)) scriptSize"

definition TransactionOutputSize :: "go_lib \<Rightarrow> nat \<Rightarrow> nat" where
  "TransactionOutputSize lib scriptSize =
     u64_add (u64_add (varIntSize lib scriptSize) scriptSize) satoshisSize"

text \<open>One counting loop of \<open>TransactionSize\<close>; the sequence yields sizes or errors.\<close>

fun script_sizes_loop ::
  "(nat \<Rightarrow> nat) \<Rightarrow> string \<Rightarrow> nat \<Rightarrow> nat \<Rightarrow> nat result list \<Rightarrow> (nat \<times> nat) result" where
  "script_sizes_loop sizeOf msg count acc [] = Inr (count, acc)"
| "script_sizes_loop sizeOf msg count acc (s # ss) = (case s of
     Inl e \<Rightarrow> Inl (wrap_error msg e)
   | Inr scriptSize \<Rightarrow>
       script_sizes_loop sizeOf msg (u64_add count 1) (u64_add acc (sizeOf scriptSize)) ss)"

definition TransactionSize :: "go_lib \<Rightarrow> nat result list \<Rightarrow> nat result list \<Rightarrow> nat result" where
  "TransactionSize lib inputSizes outputSizes =
     rbind (script_sizes_loop (TransactionInputSize lib)
              ''failed to calculate unlocking script size'' 0 0 inputSizes)
       (\<lambda>(inputsCount, inputsSize).
     rbind (script_sizes_loop (TransactionOutputSize lib)
              ''failed to calculate locking script size'' 0 0 outputSizes)
       (\<lambda>(outputsCount, outputsSize).
     Inr (u64_add (u64_add (u64_add (u64_add txEnvelopeSize (varIntSize lib inputsCount))
            inputsSize) (varIntSize lib outputsCount)) outputsSize)))"

fun u64_total :: "('a \<Rightarrow> nat) \<Rightarrow> nat \<Rightarrow> 'a list \<Rightarrow> nat" where
  "u64_total f acc [] = acc"
| "u64_total f acc (x # xs) = u64_total f (u64_add acc (f x)) xs"

definition TransactionSizeFromScriptLengths :: "go_lib \<Rightarrow> nat list \<Rightarrow> nat list \<Rightarrow> nat" where
  "TransactionSizeFromScriptLengths lib inputScriptLengths outputScriptLengths =
     (let inputsSize = u64_total (TransactionInputSize lib) 0 inputScriptLengths;
          outputsSize = u64_total (TransactionOutputSize lib) 0 outputScriptLengths
      in u64_add (u64_add (u64_add (u64_add txEnvelopeSize
           (varIntSize lib (length inputScriptLengths))) inputsSize)
           (varIntSize lib (length outputScriptLengths))) outputsSize)"

definition P2PKHUnlockingScriptLength :: nat where "P2PKHUnlockingScriptLength = 107"
definition P2PKHLockingScriptLength :: nat where "P2PKHLockingScriptLength = 25"

definition P2PKHOutputSize :: "go_lib \<Rightarrow> nat" where
  "P2PKHOutputSize lib = TransactionOutputSize lib P2PKHLockingScriptLength"

definition P2PKHEstimatedInputSize :: "go_lib \<Rightarrow> nat" where
  "P2PKHEstimatedInputSize lib = TransactionInputSize lib P2PKHUnlockingScriptLength"

datatype output_type = OutputTypeP2PKH | OutputTypeCustom | OutputTypeOther string

definition EstimatedInputSizeByType :: "go_lib \<Rightarrow> output_type \<Rightarrow> nat result" where
  "EstimatedInputSizeByType lib txType = (case txType of
     OutputTypeP2PKH \<Rightarrow> Inr (P2PKHEstimatedInputSize lib)
   | OutputTypeCustom \<Rightarrow> Inl (GoPanic ''unsupported tx type'')
   | OutputTypeOther _ \<Rightarrow> Inl (GoPanic ''unsupported tx type''))"

section \<open>Facts\<close>

lemma P2PKH_sizes:
  assumes "varint_ok lib"
  shows "P2PKHOutputSize lib = 34" and "P2PKHEstimatedInputSize lib = 148"
    and "TransactionSizeFromScriptLengths lib [P2PKHUnlockingScriptLength]
      [P2PKHLockingScriptLength] = 192"
  using assms
  by (simp_all add: P2PKHOutputSize_def P2PKHEstimatedInputSize_def TransactionOutputSize_def
      TransactionInputSize_def P2PKHLockingScriptLength_def P2PKHUnlockingScriptLength_def
      varIntSize_def varint_ok_def varint_length_def u64_add_def wrap_u64_def satoshisSize_def
      inputConstSize_def TransactionSizeFromScriptLengths_def txEnvelopeSize_def is_u64_def)

text \<open>The byte lengths of the two serialised script lists, without wrap-around.\<close>

definition input_bytes :: "nat list \<Rightarrow> nat" where
  "input_bytes ls = sum_list (map (\<lambda>l. 40 + varint_length l + l) ls)"

definition output_bytes :: "nat list \<Rightarrow> nat" where
  "output_bytes ls = sum_list (map (\<lambda>l. varint_length l + l + 8) ls)"

definition serialized_size :: "nat list \<Rightarrow> nat list \<Rightarrow> nat" where
  "serialized_size ins outs =
     8 + varint_length (length ins) + input_bytes ins + varint_length (length outs) + output_bytes outs"

lemma u64_total_exact:
  assumes "\<And>x. x \<in> set xs \<Longrightarrow> f x = g x" and "is_u64 (acc + sum_list (map g xs))"
  shows "u64_total f acc xs = acc + sum_list (map g xs)"
  using assms
proof (induction xs arbitrary: acc)
  case (Cons x xs)
  have "is_u64 (acc + g x)"
    using Cons.prems(2) by (rule is_u64_mono) simp
  with Cons show ?case by (simp add: u64_add_exact add.assoc)
qed simp

lemma script_sizes_loop_ok:
  "is_u64 (count + length ls) \<Longrightarrow>
   script_sizes_loop f msg count acc (map Inr ls) = Inr (count + length ls, u64_total f acc ls)"
proof (induction ls arbitrary: count acc)
  case (Cons l ls)
  have "is_u64 (count + 1)" using Cons.prems by (rule is_u64_mono) simp
  with Cons show ?case by (simp add: u64_add_exact)
qed simp

lemma TransactionSize_lengths:
  assumes "is_u64 (length ins)" "is_u64 (length outs)"
  shows "TransactionSize lib (map Inr ins) (map Inr outs) =
    Inr (TransactionSizeFromScriptLengths lib ins outs)"
  using assms script_sizes_loop_ok [of 0 ins] script_sizes_loop_ok [of 0 outs]
  by (simp add: TransactionSize_def TransactionSizeFromScriptLengths_def Let_def)

lemma length_le_bytes: "length ls \<le> input_bytes ls" "length ls \<le> output_bytes ls"
  by (induction ls) (auto simp: input_bytes_def output_bytes_def)

lemma member_le_bytes:
  "l \<in> set ls \<Longrightarrow> 40 + varint_length l + l \<le> input_bytes ls"
  "l \<in> set ls \<Longrightarrow> varint_length l + l + 8 \<le> output_bytes ls"
  by (induction ls) (auto simp: input_bytes_def output_bytes_def)

lemma item_size_exact:
  assumes "varint_ok lib"
  shows "is_u64 (40 + varint_length l + l) \<Longrightarrow> TransactionInputSize lib l = 40 + varint_length l + l"
    and "is_u64 (varint_length l + l + 8) \<Longrightarrow> TransactionOutputSize lib l = varint_length l + l + 8"
proof -
  assume h: "is_u64 (40 + varint_length l + l)"
  then have "is_u64 l" "is_u64 (40 + varint_length l)" by (auto intro: is_u64_mono)
  with h assms show "TransactionInputSize lib l = 40 + varint_length l + l"
    by (simp add: TransactionInputSize_def inputConstSize_def varIntSize_def varint_ok_def u64_add_exact)
next
  assume h: "is_u64 (varint_length l + l + 8)"
  then have "is_u64 l" "is_u64 (varint_length l + l)" by (auto intro: is_u64_mono)
  with h assms show "TransactionOutputSize lib l = varint_length l + l + 8"
    by (simp add: TransactionOutputSize_def satoshisSize_def varIntSize_def varint_ok_def u64_add_exact)
qed

section \<open>Properties\<close>

text \<open>
  The estimated size of a transaction is the length of its serialisation (version, lock
  time, counts, outpoints, sequence numbers, amounts, scripts and their length prefixes) as long
  as that length fits in 64 bits, and \<open>TransactionSize\<close> computes the same number from sequences of
  script sizes.
\<close>

theorem transaction_size_exact:
  assumes lib: "varint_ok lib" and fits: "is_u64 (serialized_size ins outs)"
  shows "TransactionSizeFromScriptLengths lib ins outs = serialized_size ins outs \<and>
    TransactionSize lib (map Inr ins) (map Inr outs) = Inr (serialized_size ins outs)"
proof -
  have small: "is_u64 n" if "n \<le> serialized_size ins outs" for n
    using fits that by (rule is_u64_mono)
  have lens: "is_u64 (length ins)" "is_u64 (length outs)"
    using length_le_bytes(1) [of ins] length_le_bytes(2) [of outs]
    by (auto intro!: small simp: serialized_size_def)
  have inp: "u64_total (TransactionInputSize lib) 0 ins = input_bytes ins"
    unfolding input_bytes_def
    by (subst u64_total_exact [where g = "\<lambda>l. 40 + varint_length l + l"])
       (auto intro!: item_size_exact(1) [OF lib] small
         dest: member_le_bytes(1) simp: serialized_size_def input_bytes_def)
  have out: "u64_total (TransactionOutputSize lib) 0 outs = output_bytes outs"
    unfolding output_bytes_def
    by (subst u64_total_exact [where g = "\<lambda>l. varint_length l + l + 8"])
       (auto intro!: item_size_exact(2) [OF lib] small
         dest: member_le_bytes(2) simp: serialized_size_def output_bytes_def)
  have "TransactionSizeFromScriptLengths lib ins outs = serialized_size ins outs"
    using lib lens fits
    by (simp add: TransactionSizeFromScriptLengths_def inp out varIntSize_def varint_ok_def
        txEnvelopeSize_def u64_add_exact small serialized_size_def)
  with lens show ?thesis by (simp add: TransactionSize_lengths)
qed

theorem transaction_size_exact_witness:
  "is_u64 (serialized_size [107] [25, 300]) \<and>
   TransactionSizeFromScriptLengths std_lib [107] [25, 300] = 503"
proof -
  have h: "is_u64 (serialized_size [107] [25, 300])" "serialized_size [107] [25, 300] = 503"
    by (simp_all add: serialized_size_def input_bytes_def output_bytes_def varint_length_def is_u64_def)
  show ?thesis
    using transaction_size_exact [OF go_lib_okD(1) [OF std_lib_ok] h(1)] h by simp
qed

end
