(* ===== verification/Change_Distribution.thy ===== *)
theory Change_Distribution
  imports Satoshi Go_Lib
begin

text \<open>
  The split of the change amount into outputs, \<open>pkg/internal/txutils/change_distribution.go\<close>.

  The randomizer is a source of draws: \<open>randomizer k m\<close> is what the \<open>k\<close>-th call returns when it is
  asked for a number up to \<open>m\<close>. The sequence that \<open>Distribute\<close> returns is lazy in Go; the model
  returns the list of one complete iteration, in which a panic of the mapping function is a
  panic of the iteration.
\<close>

section \<open>Definitions\<close>

record change_distribution =
  cd_initialValue :: sat_value
  cd_randomizer :: "nat \<Rightarrow> nat \<Rightarrow> nat"

definition NewChangeDistribution :: "sat_value \<Rightarrow> (nat \<Rightarrow> nat \<Rightarrow> nat) \<Rightarrow> change_distribution" where
  "NewChangeDistribution initialValue randomizer =
     \<lparr>cd_initialValue = initialValue, cd_randomizer = randomizer\<rparr>"

definition ErrCannotDistributeChange :: string where
  "ErrCannotDistributeChange = ''cannot distribute change among given outputs''"

definition CanDistribute :: "change_distribution \<Rightarrow> nat \<Rightarrow> sat_value \<Rightarrow> bool result" where
  "CanDistribute d count amount =
     (if count \<le> 1 \<or> amount = 0 then Inr True
      else rbind (MustMultiply (Unsigned (u64_sub count 1)) (Signed (cd_initialValue d)))
        (\<lambda>m. Inr (amount > m)))"

text \<open>The loop of \<open>randomNoise\<close>, with the noise drawn so far.\<close>

fun noise_loop :: "change_distribution \<Rightarrow> nat list \<Rightarrow> nat list \<Rightarrow> nat list result" where
  "noise_loop d noise [] = Inr noise"
| "noise_loop d noise (current # rest) =
     rbind (MustUInt64 (cd_initialValue d)) (\<lambda>initial.
       let randomRange = u64_sub current initial;
           randomized = (if randomRange \<noteq> 0 then cd_randomizer d (length noise) randomRange else 0)
       in noise_loop d (noise @ [randomized]) rest)"

definition randomNoise :: "change_distribution \<Rightarrow> nat list \<Rightarrow> nat list result" where
  "randomNoise d distribution = noise_loop d [] distribution"

text \<open>\<open>noise[i]\<close>: an index out of range panics.\<close>

definition noise_at :: "nat list \<Rightarrow> nat \<Rightarrow> nat result" where
  "noise_at noise i = (if i < length noise then Inr (noise ! i) else Inl (GoPanic ''index out of range''))"

text \<open>The closure given to \<open>seq.Map\<close>; its captured variable is the index \<open>i\<close>.\<close>

definition add_noise :: "nat \<Rightarrow> nat list \<Rightarrow> nat \<Rightarrow> nat \<Rightarrow> nat \<times> sat_value result" where
  "add_noise count noise i current =
     (u64_add i 1,
      rbind (noise_at noise i) (\<lambda>mine.
      rbind (noise_at noise (u64_sub (u64_sub count i) 1)) (\<lambda>other.
        MustFrom (Unsigned (u64_add (u64_sub current mine) other)))))"

fun collect :: "'a result list \<Rightarrow> 'a list result" where
  "collect [] = Inr []"
| "collect (r # rs) = rbind r (\<lambda>x. rbind (collect rs) (\<lambda>xs. Inr (x # xs)))"

definition saturatedRandomDistribution ::
  "go_lib \<Rightarrow> change_distribution \<Rightarrow> nat \<Rightarrow> sat_value \<Rightarrow> sat_value list result" where
  "saturatedRandomDistribution lib d count amount =
     rbind (MustUInt64 amount) (\<lambda>amountUint64.
       let base = amountUint64 div count;
           remainder = amountUint64 mod count;
           distribution = seq_Concat_u64 lib (seq_Of_u64 lib [u64_add base remainder])
             (seq_Repeat_u64 lib base (u64_sub count 1))
       in rbind (randomNoise d distribution) (\<lambda>noise.
            collect (seq_Map lib (add_noise count noise) 0 distribution)))"

definition notSaturatedDistribution ::
  "go_lib \<Rightarrow> change_distribution \<Rightarrow> nat \<Rightarrow> sat_value \<Rightarrow> sat_value list result" where
  "notSaturatedDistribution lib d count amount =
     (let saturatedOutputs = u64_sub count 1 in
      rbind (MustMultiply (Unsigned saturatedOutputs) (Signed (cd_initialValue d))) (\<lambda>valueOfSatOuts.
      rbind (MustFrom (Signed (cd_initialValue d))) (\<lambda>initial.
        Inr (seq_Concat_sat lib (seq_Of_sat lib [wrap_i64 (amount - valueOfSatOuts)])
               (seq_Repeat_sat lib initial saturatedOutputs)))))"

definition Distribute ::
  "go_lib \<Rightarrow> change_distribution \<Rightarrow> nat \<Rightarrow> sat_value \<Rightarrow> sat_value list result" where
  "Distribute lib d count amount =
     (if count = 0 \<or> amount = 0 then Inr (seq_Of_sat lib [])
      else if count = 1 then Inr (seq_Of_sat lib [amount])
      else rbind (CanDistribute d count amount) (\<lambda>can.
        if \<not> can then Inl (GoWrap ''distribute'' (GoSentinel ErrCannotDistributeChange))
        else rbind (MustMultiply (Unsigned count) (Signed (cd_initialValue d))) (\<lambda>saturationThreshold.
          if amount = saturationThreshold then Inr (seq_Repeat_sat lib (cd_initialValue d) count)
          else if amount > saturationThreshold then saturatedRandomDistribution lib d count amount
          else notSaturatedDistribution lib d count amount)))"

section \<open>The saturated distribution\<close>

lemma collect_map_Inr [simp]: "collect (map (\<lambda>i. Inr (h i)) is) = Inr (map h is)"
  by (induction "is") auto

lemma collect_cong_Inr: "(\<And>i. i \<in> set is \<Longrightarrow> f i = Inr (h i)) \<Longrightarrow> collect (map f is) = Inr (map h is)"
  by (induction "is") auto

lemma seq_Map_state: "seq_ok lib \<Longrightarrow> seq_Map lib f s xs = map_state f s xs"
  by (induction xs arbitrary: s) (auto simp: seq_ok_def)

lemma map_state_index:
  assumes "\<And>i x. f i x = (u64_add i 1, g i x)" and "is_u64 (s + length xs)"
  shows "map_state f s xs = map (\<lambda>k. g (s + k) (xs ! k)) [0..<length xs]"
  using assms(2)
proof (induction xs arbitrary: s)
  case (Cons x xs)
  have "is_u64 (s + 1)" using Cons.prems by (rule is_u64_mono) simp
  then have "map_state f s (x # xs) = g s x # map_state f (s + 1) xs"
    by (simp add: assms(1) u64_add_exact)
  also have "map_state f (s + 1) xs = map (\<lambda>k. g (s + 1 + k) (xs ! k)) [0..<length xs]"
    using Cons.prems by (intro Cons.IH) simp
  finally show ?case
    by (simp add: upt_conv_Cons map_Suc_upt [symmetric] o_def del: upt_Suc)
qed simp

text \<open>Drawn noise never takes an output below the initial value.\<close>

definition draws_ok :: "change_distribution \<Rightarrow> bool" where
  "draws_ok d \<longleftrightarrow> (\<forall>k m. cd_randomizer d k m \<le> m)"

lemma noise_loop_ok:
  assumes "draws_ok d" and "0 \<le> cd_initialValue d"
    and "\<And>c. c \<in> set cs \<Longrightarrow> is_u64 c \<and> nat (cd_initialValue d) \<le> c"
  shows "\<exists>ns. noise_loop d noise cs = Inr (noise @ ns) \<and> length ns = length cs \<and>
    (\<forall>i < length cs. ns ! i \<le> cs ! i - nat (cd_initialValue d))"
  using assms(3)
proof (induction cs arbitrary: noise)
  case (Cons c cs)
  let ?r = "u64_sub c (nat (cd_initialValue d))"
  let ?x = "if ?r \<noteq> 0 then cd_randomizer d (length noise) ?r else 0"
  from Cons.prems have r: "?r = c - nat (cd_initialValue d)"
    by (simp add: u64_sub_exact)
  have x: "?x \<le> c - nat (cd_initialValue d)"
    using assms(1) by (auto simp: draws_ok_def r)
  from Cons.IH [of "noise @ [?x]"] Cons.prems obtain ns where
    "noise_loop d (noise @ [?x]) cs = Inr ((noise @ [?x]) @ ns)" "length ns = length cs"
    "\<forall>i < length cs. ns ! i \<le> cs ! i - nat (cd_initialValue d)" by auto
  with x assms(2) show ?case
    by (intro exI [of _ "?x # ns"]) (auto simp: Let_def nth_Cons split: nat.splits)
qed simp

text \<open>What the noise does to the values: the total is unchanged.\<close>

definition noisy :: "nat list \<Rightarrow> nat list \<Rightarrow> nat \<Rightarrow> nat" where
  "noisy cs ns i = cs ! i - ns ! i + ns ! (length cs - Suc i)"

lemma sum_noisy:
  assumes "\<And>i. i < length cs \<Longrightarrow> ns ! i \<le> cs ! i"
  shows "(\<Sum>i < length cs. noisy cs ns i) = sum_list cs"
proof -
  let ?n = "length cs"
  have "(\<Sum>i < ?n. noisy cs ns i) = (\<Sum>i < ?n. cs ! i - ns ! i) + (\<Sum>i < ?n. ns ! (?n - Suc i))"
    by (simp add: noisy_def sum.distrib)
  also have "(\<Sum>i < ?n. ns ! (?n - Suc i)) = (\<Sum>i < ?n. ns ! i)"
    by (rule sum.nat_diff_reindex)
  also have "(\<Sum>i < ?n. cs ! i - ns ! i) + (\<Sum>i < ?n. ns ! i) = (\<Sum>i < ?n. cs ! i)"
    using assms by (simp add: sum.distrib [symmetric])
  also have "\<dots> = sum_list cs"
    by (simp add: sum_list_sum_nth atLeast0LessThan)
  finally show ?thesis .
qed

lemma add_noise_exact:
  assumes len: "length ns = length cs" "is_u64 (length cs)" and i: "i < length cs"
    and le: "\<And>i. i < length cs \<Longrightarrow> ns ! i \<le> cs ! i"
    and fits: "int (sum_list cs) \<le> MaxSatoshis"
  shows "snd (add_noise (length cs) ns i (cs ! i)) = Inr (int (noisy cs ns i))"
proof -
  have "noisy cs ns i \<le> (\<Sum>i < length cs. noisy cs ns i)"
    using i by (intro member_le_sum) auto
  then have v: "noisy cs ns i \<le> sum_list cs" using sum_noisy [OF le] by simp
  have c: "cs ! i \<le> sum_list cs" using i by (auto intro: member_le_sum_list)
  have small: "is_u64 n" if "n \<le> sum_list cs" for n
    using that fits by (simp add: is_u64_def MaxSatoshis_def)
  have len_i: "is_u64 (length cs - i)" using len(2) by (rule is_u64_mono) simp
  have rev: "u64_sub (u64_sub (length cs) i) 1 = length cs - Suc i"
    using i len(2) len_i by (simp add: u64_sub_exact)
  have sub: "u64_sub (cs ! i) (ns ! i) = cs ! i - ns ! i"
    using small [OF c] le [OF i] by (simp add: u64_sub_exact)
  have val: "u64_add (cs ! i - ns ! i) (ns ! (length cs - Suc i)) = noisy cs ns i"
    using small [OF v] by (simp add: u64_add_exact noisy_def)
  have "valid_sats (int (noisy cs ns i))"
    using v fits by (simp add: valid_sats_def MaxSatoshis_def)
  then show ?thesis
    using i len(1) by (simp add: add_noise_def noise_at_def rev [simplified] sub val)
qed

lemma noisy_list_facts:
  assumes le: "\<And>i. i < length cs \<Longrightarrow> m \<le> cs ! i \<and> ns ! i \<le> cs ! i - m"
  shows "sum_list (map (\<lambda>i. int (noisy cs ns i)) [0..<length cs]) = int (sum_list cs)"
    and "\<forall>x \<in> set (map (\<lambda>i. int (noisy cs ns i)) [0..<length cs]). int m \<le> x"
proof -
  have "ns ! i \<le> cs ! i" if "i < length cs" for i using le [OF that] by linarith
  then have "(\<Sum>i < length cs. noisy cs ns i) = sum_list cs" by (rule sum_noisy)
  then show "sum_list (map (\<lambda>i. int (noisy cs ns i)) [0..<length cs]) = int (sum_list cs)"
    by (simp add: sum_list_sum_nth atLeast0LessThan flip: of_nat_sum)
  show "\<forall>x \<in> set (map (\<lambda>i. int (noisy cs ns i)) [0..<length cs]). int m \<le> x"
    using le by (force simp: noisy_def)
qed

lemma saturated_ok:
  assumes lib: "seq_ok lib" and d: "draws_ok d" "0 \<le> cd_initialValue d"
    and count: "0 < count" "is_u64 count"
    and amount: "int count * cd_initialValue d \<le> amount" "amount \<le> MaxSatoshis"
  shows "\<exists>xs. saturatedRandomDistribution lib d count amount = Inr xs \<and> length xs = count \<and>
    sum_list xs = amount \<and> (\<forall>x \<in> set xs. cd_initialValue d \<le> x)"
proof -
  let ?m = "nat (cd_initialValue d)"
  let ?a = "nat amount"
  let ?base = "?a div count"
  define cs where "cs = (?base + ?a mod count) # replicate (count - 1) ?base"
  have nonneg: "0 \<le> amount"
    using amount(1) d(2) by (meson mult_nonneg_nonneg of_nat_0_le_iff order_trans)
  have len: "length cs = count" using count(1) by (simp add: cs_def)
  have sum: "sum_list cs = ?a"
  proof -
    have "sum_list cs = count * ?base + ?a mod count"
      using count(1) by (cases count) (simp_all add: cs_def sum_list_replicate)
    then show ?thesis by simp
  qed
  have base: "?m \<le> ?base"
  proof -
    have "count * ?m \<le> ?a"
      using amount(1) d(2) by (metis nat_int nat_mono nat_mult_distrib of_nat_0_le_iff)
    then show ?thesis using count(1) by (metis div_le_mono nonzero_mult_div_cancel_left not_gr_zero)
  qed
  have a64: "is_u64 ?a" using amount(2) by (simp add: is_u64_def MaxSatoshis_def)
  have head: "?base + ?a mod count \<le> ?a"
    using sum count(1) by (simp add: cs_def)
  have items: "is_u64 c \<and> ?m \<le> c" if "c \<in> set cs" for c
    using that base a64 head
    by (auto simp: cs_def intro: is_u64_mono)
  have dist: "seq_Concat_u64 lib (seq_Of_u64 lib [u64_add ?base (?a mod count)])
      (seq_Repeat_u64 lib ?base (u64_sub count 1)) = cs"
    using lib count a64 head
    by (simp add: seq_ok_def cs_def u64_sub_exact u64_add_exact is_u64_mono)
  from noise_loop_ok [OF d items, of cs "[]"] obtain ns where
    ns: "randomNoise d cs = Inr ns" "length ns = length cs"
    and le: "\<And>i. i < length cs \<Longrightarrow> ns ! i \<le> cs ! i - ?m"
    by (auto simp: randomNoise_def)
  have le': "?m \<le> cs ! i \<and> ns ! i \<le> cs ! i - ?m" if "i < length cs" for i
    using items [OF nth_mem [OF that]] le [OF that] by simp
  let ?xs = "map (\<lambda>i. int (noisy cs ns i)) [0..<length cs]"
  have "seq_Map lib (add_noise count ns) 0 cs =
      map (\<lambda>k. snd (add_noise count ns k (cs ! k))) [0..<length cs]"
    using map_state_index [of "add_noise count ns" "\<lambda>i x. snd (add_noise count ns i x)" 0 cs]
      count(2) len by (simp add: seq_Map_state [OF lib] add_noise_def)
  also have "collect \<dots> = Inr ?xs"
  proof (rule collect_cong_Inr)
    fix k assume "k \<in> set [0..<length cs]"
    then have k: "k < length cs" by simp
    have "ns ! i \<le> cs ! i" if "i < length cs" for i using le' [OF that] by linarith
    moreover have "int (sum_list cs) \<le> MaxSatoshis" using sum nonneg amount(2) by simp
    ultimately show "snd (add_noise count ns k (cs ! k)) = Inr (int (noisy cs ns k))"
      using add_noise_exact [OF ns(2) _ k] count(2) len by simp
  qed
  finally have "saturatedRandomDistribution lib d count amount = Inr ?xs"
    using nonneg ns(1) by (simp add: saturatedRandomDistribution_def dist [simplified] Let_def)
  moreover have "sum_list ?xs = amount" "\<forall>x \<in> set ?xs. cd_initialValue d \<le> x"
    using noisy_list_facts [of cs ?m ns] le' sum nonneg d(2) by simp_all
  ultimately show ?thesis using len by (intro exI [of _ ?xs]) simp
qed

section \<open>Properties\<close>

text \<open>The products of the source stay below the 64-bit wrap-around.\<close>

definition distributable :: "change_distribution \<Rightarrow> nat \<Rightarrow> sat_value \<Rightarrow> bool" where
  "distributable d count amount \<longleftrightarrow>
     draws_ok d \<and> 0 < cd_initialValue d \<and> cd_initialValue d \<le> MaxSatoshis \<and>
     0 \<le> amount \<and> amount \<le> MaxSatoshis \<and> int count * cd_initialValue d \<le> MaxSatoshis"

lemma distributable_facts:
  assumes "distributable d count amount" "2 \<le> count"
  shows "u64_sub count 1 = count - 1" "is_u64 count"
    and "MustMultiply (Unsigned count) (Signed (cd_initialValue d)) = Inr (int count * cd_initialValue d)"
    and "MustMultiply (Unsigned (count - 1)) (Signed (cd_initialValue d)) =
      Inr ((int count - 1) * cd_initialValue d)"
proof -
  let ?v = "cd_initialValue d"
  have v: "0 < ?v" "?v \<le> MaxSatoshis" and prod: "int count * ?v \<le> MaxSatoshis"
    using assms(1) by (auto simp: distributable_def)
  have "int count * 1 \<le> int count * ?v" using v(1) by (intro mult_left_mono) auto
  then have c: "int count \<le> MaxSatoshis" using prod by simp
  then show u: "is_u64 count" by (simp add: is_u64_def MaxSatoshis_def)
  with assms(2) show "u64_sub count 1 = count - 1" by (simp add: u64_sub_exact)
  have range: "valid_sats x" if "0 \<le> x" "x \<le> MaxSatoshis" for x
    using that by (simp add: valid_sats_def MaxSatoshis_def)
  have "0 \<le> (int count - 1) * ?v" using assms(2) v(1) by simp
  moreover have "(int count - 1) * ?v \<le> int count * ?v"
    using v(1) by (intro mult_right_mono) auto
  then have "(int count - 1) * ?v \<le> MaxSatoshis" using prod by linarith
  ultimately have "valid_sats (int count * ?v)" "valid_sats ((int count - 1) * ?v)"
    "valid_sats ?v" "valid_sats (int count)" "valid_sats (int count - 1)"
    using prod c v assms(2) by (auto intro!: range)
  with assms(2) show
    "MustMultiply (Unsigned count) (Signed ?v) = Inr (int count * ?v)"
    "MustMultiply (Unsigned (count - 1)) (Signed ?v) = Inr ((int count - 1) * ?v)"
    by (simp_all add: MustMultiply_eq Multiply_eq valid_sats_i64 of_nat_diff)
qed

lemma CanDistribute_iff:
  assumes "distributable d count amount" "2 \<le> count" "amount \<noteq> 0"
  shows "CanDistribute d count amount = Inr (amount > (int count - 1) * cd_initialValue d)"
  using assms distributable_facts [OF assms(1,2)] by (simp add: CanDistribute_def)

lemma notSaturated_ok:
  assumes "seq_ok lib" "distributable d count amount" "2 \<le> count"
    and "(int count - 1) * cd_initialValue d < amount"
  shows "notSaturatedDistribution lib d count amount =
    Inr ((amount - (int count - 1) * cd_initialValue d) # replicate (count - 1) (cd_initialValue d))"
proof -
  note facts = distributable_facts [OF assms(2,3)]
  have nonneg: "0 \<le> (int count - 1) * cd_initialValue d"
    using assms(2,3) by (simp add: distributable_def)
  have "is_i64 (amount - (int count - 1) * cd_initialValue d)"
    using assms(2,4) nonneg by (simp add: distributable_def is_i64_def MaxSatoshis_def)
  moreover have "MustFrom (Signed (cd_initialValue d)) = Inr (cd_initialValue d)"
    using assms(2) by (simp add: distributable_def valid_sats_def MaxSatoshis_def)
  ultimately show ?thesis
    using assms(1) facts by (simp add: notSaturatedDistribution_def seq_ok_def)
qed

lemma set_tlD: "x \<in> set (tl xs) \<Longrightarrow> x \<in> set xs"
  by (cases xs) auto

text \<open>The successful case, shared by the properties of the distribution and of the funder.\<close>

lemma Distribute_splits:
  assumes "seq_ok lib" and "distributable d count amount" and "2 \<le> count"
    and "(int count - 1) * cd_initialValue d < amount"
  shows "\<exists>xs. Distribute lib d count amount = Inr xs \<and> length xs = count \<and> sum_list xs = amount \<and>
      (\<forall>x \<in> set xs. 0 < x) \<and> (\<forall>x \<in> set (tl xs). cd_initialValue d \<le> x) \<and>
      (int count * cd_initialValue d \<le> amount \<longrightarrow> (\<forall>x \<in> set xs. cd_initialValue d \<le> x))"
proof -
  let ?v = "cd_initialValue d"
  have v: "0 < ?v" using assms(2) by (simp add: distributable_def)
  have pos: "0 < amount" using v assms(3,4) by (auto intro: le_less_trans [rotated])
  note facts = distributable_facts [OF assms(2,3)]
  have "CanDistribute d count amount = Inr (amount > (int count - 1) * ?v)"
    using assms pos by (intro CanDistribute_iff) auto
  then have unfold: "Distribute lib d count amount =
    (if amount = int count * ?v then Inr (seq_Repeat_sat lib ?v count)
     else if amount > int count * ?v then saturatedRandomDistribution lib d count amount
     else notSaturatedDistribution lib d count amount)"
    using assms(3,4) pos facts(3) by (simp add: Distribute_def)
  consider (eq) "amount = int count * ?v" | (sat) "amount > int count * ?v"
    | (part) "amount < int count * ?v" by linarith
  then show ?thesis
  proof cases
    case eq
    have "seq_Repeat_sat lib ?v count = replicate count ?v"
      using assms(1) by (simp add: seq_ok_def)
    then have "Distribute lib d count amount = Inr (replicate count ?v)"
      unfolding unfold if_P [OF eq] by simp
    with v eq show ?thesis
      by (intro exI [of _ "replicate count ?v"]) (auto simp: sum_list_replicate dest: set_tlD)
  next
    case sat
    have "\<exists>xs. saturatedRandomDistribution lib d count amount = Inr xs \<and> length xs = count \<and>
      sum_list xs = amount \<and> (\<forall>x \<in> set xs. ?v \<le> x)"
      using assms facts(2) sat by (intro saturated_ok) (auto simp: distributable_def)
    moreover have "Distribute lib d count amount = saturatedRandomDistribution lib d count amount"
      using sat by (simp add: unfold)
    ultimately show ?thesis using v by (force dest: set_tlD)
  next
    case part
    let ?xs = "(amount - (int count - 1) * ?v) # replicate (count - 1) ?v"
    have "Distribute lib d count amount = notSaturatedDistribution lib d count amount"
      using part by (simp add: unfold)
    also have "\<dots> = Inr ?xs"
      using assms by (intro notSaturated_ok) auto
    finally show ?thesis
      using v part assms(3,4)
      by (intro exI [of _ ?xs]) (auto simp: sum_list_replicate of_nat_diff)
  qed
qed

text \<open>
  Splitting the change is total and loses nothing. For a positive initial value and an
  amount and saturation threshold within the money supply, \<open>Distribute\<close> of a positive amount to
  at least two outputs either reports that the change cannot be distributed, exactly when
  \<open>amount \<le> (count - 1) * initialValue\<close>, or returns exactly \<open>count\<close> positive amounts that add up
  to \<open>amount\<close>, of which all but the first are at least the initial value, and the first too when
  the amount reaches the saturation threshold. This holds for every randomizer that never draws
  more than it is asked for.
\<close>

theorem Distribute_correct:
  assumes "seq_ok lib" and "distributable d count amount" and "2 \<le> count" and "0 < amount"
  shows "if amount \<le> (int count - 1) * cd_initialValue d
    then Distribute lib d count amount =
      Inl (GoWrap ''distribute'' (GoSentinel ErrCannotDistributeChange))
    else \<exists>xs. Distribute lib d count amount = Inr xs \<and> length xs = count \<and> sum_list xs = amount \<and>
      (\<forall>x \<in> set xs. 0 < x) \<and> (\<forall>x \<in> set (tl xs). cd_initialValue d \<le> x) \<and>
      (int count * cd_initialValue d \<le> amount \<longrightarrow> (\<forall>x \<in> set xs. cd_initialValue d \<le> x))"
proof (cases "amount \<le> (int count - 1) * cd_initialValue d")
  case True
  with assms show ?thesis by (simp add: Distribute_def CanDistribute_iff)
next
  case False
  with Distribute_splits [OF assms(1-3)] show ?thesis by simp
qed

theorem Distribute_correct_witness:
  "\<exists>xs. Distribute std_lib (NewChangeDistribution 4 (\<lambda>k m. m)) 3 20 = Inr xs \<and>
     length xs = 3 \<and> sum_list xs = 20 \<and> (\<forall>x \<in> set xs. 4 \<le> x)"
  using Distribute_correct [OF go_lib_okD(5) [OF std_lib_ok],
      of "NewChangeDistribution 4 (\<lambda>k m. m)" 3 20]
  by (simp add: distributable_def draws_ok_def NewChangeDistribution_def MaxSatoshis_def) blast

end
