(* ===== verification/Funder.thy ===== *)
theory Funder
  imports Utxo_Repo Fee_Calculator Tx_Size Change_Distribution
begin

text \<open>
  The funder, \<open>pkg/internal/storage/funder/sql.go\<close>, \<open>pool.go\<close> and \<open>funder_result.go\<close>: it selects
  the outputs that pay for a transaction, computes the fee and decides how many change outputs
  to create.

  The collector is a record that every operation returns updated; a panic or an error ends the
  call, so the half-updated collector of a failing operation is not part of the result. The two
  loops that ask the repository until it is satisfied may run forever on a repository that
  keeps answering with the same rows: they are \<open>partial_function (option)\<close>, and \<open>None\<close> means that
  the call does not return.
\<close>

section \<open>Results and the collector\<close>

record utxo =
  ux_OutputID :: nat
  ux_Satoshis :: int

record fund_result =
  fr_AllocatedUTXOs :: "utxo list"
  fr_ChangeOutputsCount :: nat
  fr_ChangeAmount :: int
  fr_Fee :: int
  fr_DustFloor :: int
  fr_ChangeInitialValue :: int

definition TotalAllocated :: "fund_result \<Rightarrow> int result" where
  "TotalAllocated fr =
     rwrap ''failed to sum allocated UTXOs'' (Sum_sats (map (Signed \<circ> ux_Satoshis) (fr_AllocatedUTXOs fr)))"

definition ErrNotEnoughFunds :: string where
  "ErrNotEnoughFunds = ''not enough funds''"

definition changeOutputSize :: "go_lib \<Rightarrow> nat" where
  "changeOutputSize lib = P2PKHOutputSize lib"

definition utxoBatchSize :: nat where "utxoBatchSize = 1000"
definition insufficientBatchSize :: int where "insufficientBatchSize = 16"

record utxo_collector =
  c_txSats :: int
  c_txSize :: nat
  c_fee :: int
  c_feeCalculator :: feeCalc
  c_satsCovered :: int
  c_allocatedUTXOs :: "utxo list"
  c_outputCount :: nat
  c_numberOfDesiredUTXOs :: nat
  c_minimumDesiredUTXOValue :: nat
  c_maxChangeOutputsPerTx :: nat
  c_changeOutputsCount :: nat
  c_changeOutputsSize :: nat
  c_minimumChange :: nat
  c_dustFloor :: int
  c_isSweep :: bool

section \<open>Operations of the collector\<close>

definition increaseSize :: "go_lib \<Rightarrow> nat \<Rightarrow> utxo_collector \<Rightarrow> utxo_collector result" where
  "increaseSize lib sz c =
     (let c1 = c\<lparr>c_txSize := u64_add (c_txSize c) sz\<rparr> in
      rbind (rwrap ''failed to calculate fee'' (Calculate lib (c_feeCalculator c1) (c_txSize c1)))
        (\<lambda>fee. Inr (c1\<lparr>c_fee := fee\<rparr>)))"

definition increaseValue :: "int \<Rightarrow> utxo_collector \<Rightarrow> utxo_collector result" where
  "increaseValue sats c =
     rbind (rwrap ''cannot increase tx value'' (Add (Signed (c_satsCovered c)) (Signed sats)))
       (\<lambda>v. Inr (c\<lparr>c_satsCovered := v\<rparr>))"

definition satsToCover :: "utxo_collector \<Rightarrow> int result" where
  "satsToCover c = MustAdd (Signed (c_txSats c)) (Signed (c_fee c))"

definition change :: "utxo_collector \<Rightarrow> int result" where
  "change c = rbind (satsToCover c) (\<lambda>s. MustSubtract (Signed (c_satsCovered c)) (Signed s))"

definition changeInitialValue :: "utxo_collector \<Rightarrow> int result" where
  "changeInitialValue c =
     rbind (MustFrom (Unsigned (c_minimumDesiredUTXOValue c))) (\<lambda>initialValue.
       Inr (if c_dustFloor c > initialValue then c_dustFloor c else initialValue))"

definition setChangeOutputsSize :: "go_lib \<Rightarrow> nat \<Rightarrow> utxo_collector \<Rightarrow> utxo_collector result" where
  "setChangeOutputsSize lib sz c =
     increaseSize lib sz
       (c\<lparr>c_txSize := u64_sub (c_txSize c) (c_changeOutputsSize c), c_changeOutputsSize := sz\<rparr>)"

definition changeFitsOutputs :: "utxo_collector \<Rightarrow> bool result" where
  "changeFitsOutputs c =
     rbind (change c) (\<lambda>ch.
       if ch \<le> 0 then Inr False
       else rbind (MustUInt64 ch) (\<lambda>chU.
         if c_changeOutputsCount c = 0 then Inl (GoPanic ''integer divide by zero'')
         else rbind (MustUInt64 (c_dustFloor c)) (\<lambda>dustU.
           if chU div c_changeOutputsCount c < dustU then Inr False
           else rbind (changeInitialValue c) (\<lambda>iv.
             CanDistribute (NewChangeDistribution iv (\<lambda>_ _. 0)) (c_changeOutputsCount c) ch))))"

text \<open>The last loop of \<open>calculateChangeCount\<close>.\<close>

fun dust_count_loop :: "nat \<Rightarrow> nat \<Rightarrow> nat \<Rightarrow> nat" where
  "dust_count_loop changeVal dustFloorU64 n =
     (if n > 1 \<and> changeVal div n < dustFloorU64 then dust_count_loop changeVal dustFloorU64 (n - 1) else n)"

declare dust_count_loop.simps [simp del]

definition calculateChangeCount :: "go_lib \<Rightarrow> nat \<Rightarrow> utxo_collector \<Rightarrow> utxo_collector result" where
  "calculateChangeCount lib changeVal c =
     (let m = c_minimumDesiredUTXOValue c in
      if m = 0 then Inl (GoPanic ''integer divide by zero'')
      else
        let n0 = u64_add (changeVal div m) 1;
            n1 = (if changeVal mod m < c_minimumChange c then u64_sub n0 1 else n0);
            capCount = (if c_maxChangeOutputsPerTx c < c_numberOfDesiredUTXOs c
              then c_maxChangeOutputsPerTx c else c_numberOfDesiredUTXOs c);
            n2 = to_ValueBetween_u64 lib n1 1 capCount
        in rbind (MustUInt64 (c_dustFloor c)) (\<lambda>dustFloorU64.
             Inr (c\<lparr>c_changeOutputsCount := dust_count_loop changeVal dustFloorU64 n2\<rparr>)))"

text \<open>The loop of \<open>calculateChangeOutputs\<close>; \<open>n\<close> is the current \<open>changeOutputsCount\<close>.\<close>

fun change_outputs_loop :: "go_lib \<Rightarrow> nat \<Rightarrow> utxo_collector \<Rightarrow> utxo_collector result" where
  "change_outputs_loop lib n c =
     rbind (rwrap ''failed to set change outputs size''
         (setChangeOutputsSize lib (u64_mul n (changeOutputSize lib)) (c\<lparr>c_changeOutputsCount := n\<rparr>)))
       (\<lambda>c1. if n \<le> 1 then Inr c1
             else rbind (changeFitsOutputs c1) (\<lambda>fits.
               if fits then Inr c1 else change_outputs_loop lib (n - 1) c1))"

declare change_outputs_loop.simps [simp del]

definition calculateChangeOutputs :: "go_lib \<Rightarrow> utxo_collector \<Rightarrow> utxo_collector result" where
  "calculateChangeOutputs lib c =
     rbind (rwrap ''failed to reset change outputs size'' (setChangeOutputsSize lib 0 c)) (\<lambda>c1.
     rbind (change c1) (\<lambda>ch.
       if ch \<le> 0 then Inr (c1\<lparr>c_changeOutputsCount := 0\<rparr>)
       else case must_ConvertToUInt64 lib ch of
         None \<Rightarrow> Inl (GoPanic ''must.ConvertToUInt64'')
       | Some chU \<Rightarrow>
           rbind (calculateChangeCount lib chU c1) (\<lambda>c2.
             change_outputs_loop lib (c_changeOutputsCount c2) c2)))"

definition addToAllocated :: "user_utxo \<Rightarrow> utxo_collector \<Rightarrow> utxo_collector result" where
  "addToAllocated u c =
     rbind (MustFrom (Unsigned (uu_Satoshis u))) (\<lambda>sats.
       Inr (c\<lparr>c_allocatedUTXOs := c_allocatedUTXOs c @ [\<lparr>ux_OutputID = uu_OutputID u, ux_Satoshis = sats\<rparr>]\<rparr>))"

definition allocateUTXO :: "go_lib \<Rightarrow> user_utxo \<Rightarrow> utxo_collector \<Rightarrow> utxo_collector result" where
  "allocateUTXO lib u c =
     rbind (addToAllocated u c) (\<lambda>c1.
     rbind (rwrap ''failed to increase tx size'' (increaseSize lib (uu_EstimatedInputSize u) c1)) (\<lambda>c2.
     rbind (MustFrom (Unsigned (uu_Satoshis u))) (\<lambda>sats.
     rbind (rwrap ''failed to increase tx value'' (increaseValue sats c2)) (\<lambda>c3.
       rwrap ''failed to calculate change outputs'' (calculateChangeOutputs lib c3)))))"

text \<open>The conversion of a \<open>float64\<close> to \<open>int64\<close>, with the value that amd64 gives out of range.\<close>

definition float_to_i64 :: "rat \<Rightarrow> int" where
  "float_to_i64 x =
     (let t = (if x < 0 then \<lceil>x\<rceil> else \<lfloor>x\<rfloor>) in if is_i64 t then t else - 9223372036854775808)"

definition dustFloorOf :: "go_lib \<Rightarrow> feeCalc \<Rightarrow> int" where
  "dustFloorOf lib fc =
     (let minSpendTxSize = TransactionSizeFromScriptLengths lib
            [P2PKHUnlockingScriptLength] [P2PKHLockingScriptLength]
      in float_to_i64 (max 1 (float_mul
           (of_int \<lceil>float_mul (float_div (fl (of_nat minSpendTxSize)) 1000) (fc_value fc)\<rceil>) 2)))"

definition calculateMinimumChange :: "utxo_collector \<Rightarrow> utxo_collector" where
  "calculateMinimumChange c = c\<lparr>c_minimumChange := c_minimumDesiredUTXOValue c div 4\<rparr>"

definition newCollector ::
  "go_lib \<Rightarrow> int \<Rightarrow> nat \<Rightarrow> nat \<Rightarrow> int \<Rightarrow> nat \<Rightarrow> feeCalc \<Rightarrow> nat \<Rightarrow> bool \<Rightarrow> utxo_collector result" where
  "newCollector lib txSats txSize outputCount numberOfDesiredUTXOs minimumDesiredUTXOValue
      feeCalculator maxChangeOutputsPerTx isSweep =
     (let c = \<lparr>c_txSats = txSats, c_txSize = 0, c_fee = 0, c_feeCalculator = feeCalculator,
            c_satsCovered = 0, c_allocatedUTXOs = [], c_outputCount = outputCount,
            c_numberOfDesiredUTXOs = 0,
            c_minimumDesiredUTXOValue = to_NoLessThan_u64 lib minimumDesiredUTXOValue 1,
            c_maxChangeOutputsPerTx = maxChangeOutputsPerTx, c_changeOutputsCount = 0,
            c_changeOutputsSize = 0, c_minimumChange = 0, c_dustFloor = 0, c_isSweep = isSweep\<rparr>
      in rbind (rwrap ''failed to increase transaction size'' (increaseSize lib txSize c)) (\<lambda>c1.
         case must_ConvertToUInt64 lib (to_NoLessThan_i64 lib numberOfDesiredUTXOs 1) of
           None \<Rightarrow> Inl (GoPanic ''must.ConvertToUInt64'')
         | Some n \<Rightarrow>
             let c2 = c1\<lparr>c_numberOfDesiredUTXOs := n, c_dustFloor := dustFloorOf lib feeCalculator\<rparr>;
                 c3 = calculateMinimumChange c2
             in rwrap ''failed to calculate change outputs'' (calculateChangeOutputs lib c3)))"

definition must_fee :: "go_lib \<Rightarrow> utxo_collector \<Rightarrow> nat \<Rightarrow> int result" where
  "must_fee lib c sz = must (Calculate lib (c_feeCalculator c) sz)"

definition remaining_default :: "utxo_collector \<Rightarrow> int result" where
  "remaining_default c = rbind (satsToCover c) (\<lambda>s. MustSubtract (Signed s) (Signed (c_satsCovered c)))"

text \<open>\<open>txSats + fee + dustFloor\<close>, and what is missing to it when it is not covered.\<close>

definition missing_with_dust :: "utxo_collector \<Rightarrow> int \<Rightarrow> int option result" where
  "missing_with_dust c fee =
     rbind (MustAdd (Signed (c_txSats c)) (Signed fee)) (\<lambda>x.
     rbind (MustAdd (Signed x) (Signed (c_dustFloor c))) (\<lambda>toCover.
       if toCover > c_satsCovered c
       then rbind (MustSubtract (Signed toCover) (Signed (c_satsCovered c))) (\<lambda>r. Inr (Some r))
       else Inr None))"

definition remaining :: "go_lib \<Rightarrow> utxo_collector \<Rightarrow> int result" where
  "remaining lib c =
     (if c_outputCount c = 0 then
        rbind (change c) (\<lambda>ch.
        rbind (if c_changeOutputsCount c > 0 \<and> ch < c_dustFloor c
               then rbind (must_fee lib c (u64_add (c_txSize c) (P2PKHEstimatedInputSize lib)))
                      (missing_with_dust c)
               else Inr None) (\<lambda>first.
          case first of Some r \<Rightarrow> Inr r
          | None \<Rightarrow>
              rbind (if c_changeOutputsCount c = 0
                     then rbind (must_fee lib c (u64_add (u64_add (c_txSize c) (P2PKHEstimatedInputSize lib))
                                  (changeOutputSize lib)))
                            (missing_with_dust c)
                     else Inr None) (\<lambda>second.
                case second of Some r \<Rightarrow> Inr r | None \<Rightarrow> remaining_default c)))
      else remaining_default c)"

definition IsFunded :: "utxo_collector \<Rightarrow> bool result" where
  "IsFunded c =
     (if c_outputCount c = 0 then
        (if c_changeOutputsCount c > 0 then rbind (change c) (\<lambda>ch. Inr (ch \<ge> c_dustFloor c)) else Inr False)
      else if c_isSweep c then Inr False
      else rbind (satsToCover c) (\<lambda>s. Inr (c_satsCovered c \<ge> s)))"

definition prepareResult :: "utxo_collector \<Rightarrow> fund_result result" where
  "prepareResult c =
     rbind (change c) (\<lambda>changeAmount.
     rbind (changeInitialValue c) (\<lambda>iv.
       Inr \<lparr>fr_AllocatedUTXOs = c_allocatedUTXOs c,
            fr_ChangeOutputsCount = (if changeAmount < c_dustFloor c then 0 else c_changeOutputsCount c),
            fr_ChangeAmount = changeAmount, fr_Fee = c_fee c, fr_DustFloor = c_dustFloor c,
            fr_ChangeInitialValue = iv\<rparr>))"

definition GetResult :: "utxo_collector \<Rightarrow> fund_result result" where
  "GetResult c =
     rbind (IsFunded c) (\<lambda>funded.
       if funded \<or> c_isSweep c then prepareResult c else Inl (GoSentinel ErrNotEnoughFunds))"

section \<open>The bounded allocator\<close>

record bounded_allocator =
  ba_userID :: int
  ba_basketName :: string
  ba_collector :: utxo_collector
  ba_excluded :: "nat list"

definition newBoundedAllocator :: "int \<Rightarrow> string \<Rightarrow> utxo_collector \<Rightarrow> nat list \<Rightarrow> bounded_allocator" where
  "newBoundedAllocator userID basketName collector forbiddenOutputIDs =
     \<lparr>ba_userID = userID, ba_basketName = basketName, ba_collector = collector,
      ba_excluded = forbiddenOutputIDs\<rparr>"

text \<open>Allocating a row and appending its id to the exclusion list, the step that \<open>fromTier\<close> and
  \<open>drainBatch\<close> share.\<close>

definition claim :: "go_lib \<Rightarrow> user_utxo \<Rightarrow> bounded_allocator \<Rightarrow> bounded_allocator result" where
  "claim lib u a =
     rbind (rwrap ''failed to allocate utxo'' (allocateUTXO lib u (ba_collector a))) (\<lambda>c.
       Inr (a\<lparr>ba_collector := c, ba_excluded := ba_excluded a @ [uu_OutputID u]\<rparr>))"

text \<open>The loop of \<open>drainBatch\<close>, with its variable \<open>allocated\<close>.\<close>

fun drain_loop ::
  "go_lib \<Rightarrow> bool \<Rightarrow> user_utxo list \<Rightarrow> bounded_allocator \<Rightarrow> (bool \<times> bounded_allocator) result" where
  "drain_loop lib allocated [] a = Inr (allocated, a)"
| "drain_loop lib allocated (u # batch) a =
     rbind (IsFunded (ba_collector a)) (\<lambda>funded.
       if funded then Inr (allocated, a)
       else rbind (remaining lib (ba_collector a)) (\<lambda>r.
         if r \<le> 0 then Inr (allocated, a)
         else rbind (MustUInt64 r) (\<lambda>rU.
           if uu_Satoshis u \<ge> rU then Inr (allocated, a)
           else rbind (claim lib u a) (\<lambda>a'. drain_loop lib True batch a'))))"

definition drainBatch :: "go_lib \<Rightarrow> user_utxo list \<Rightarrow> bounded_allocator \<Rightarrow> (bool \<times> bounded_allocator) result" where
  "drainBatch lib batch a = drain_loop lib False batch a"

definition tier_query :: "bounded_allocator \<Rightarrow> utxo_status \<Rightarrow> bounded_utxo_query" where
  "tier_query a tier = \<lparr>q_UserID = ba_userID a, q_BasketName = ba_basketName a, q_Status = tier,
     q_ExcludedOutputIDs = ba_excluded a\<rparr>"

definition fromTier ::
  "go_lib \<Rightarrow> utxo_repository \<Rightarrow> utxo_status \<Rightarrow> int \<Rightarrow> bounded_allocator \<Rightarrow> (bool \<times> bounded_allocator) result"
where
  "fromTier lib repo tier remainingSats a =
     (let q = tier_query a tier in
      rbind (MustUInt64 remainingSats) (\<lambda>rU.
      rbind (rwrap ''failed to find sufficient utxo''
               (FindSmallestSufficientUTXOForUpdate repo q rU)) (\<lambda>found.
        case found of
          Some u \<Rightarrow> rbind (claim lib u a) (\<lambda>a'. Inr (True, a'))
        | None \<Rightarrow>
            rbind (rwrap ''failed to find insufficient utxos''
                     (FindLargestInsufficientUTXOsForUpdate repo q rU insufficientBatchSize)) (\<lambda>batch.
              drainBatch lib batch a))))"

fun round_tiers ::
  "go_lib \<Rightarrow> utxo_repository \<Rightarrow> utxo_status list \<Rightarrow> int \<Rightarrow> bounded_allocator \<Rightarrow> (bool \<times> bounded_allocator) result"
where
  "round_tiers lib repo [] remainingSats a = Inr (False, a)"
| "round_tiers lib repo (tier # tiers) remainingSats a =
     rbind (fromTier lib repo tier remainingSats a) (\<lambda>(allocated, a').
       if allocated then Inr (True, a') else round_tiers lib repo tiers remainingSats a')"

partial_function (option) run ::
  "go_lib \<Rightarrow> utxo_repository \<Rightarrow> utxo_status list \<Rightarrow> bounded_allocator \<Rightarrow> bounded_allocator result option" where
  "run lib repo tiers a =
     (case IsFunded (ba_collector a) of
        Inl e \<Rightarrow> Some (Inl e)
      | Inr funded \<Rightarrow>
          if funded then Some (Inr a)
          else case remaining lib (ba_collector a) of
            Inl e \<Rightarrow> Some (Inl e)
          | Inr r \<Rightarrow>
              if r \<le> 0 then Some (Inr a)
              else case round_tiers lib repo tiers r a of
                Inl e \<Rightarrow> Some (Inl e)
              | Inr (allocated, a') \<Rightarrow>
                  if \<not> allocated then Some (Inl (GoSentinel ErrNotEnoughFunds))
                  else run lib repo tiers a')"

section \<open>Priority outputs, sweeps and \<open>FundWithConstraints\<close>\<close>

record output_basket =
  ob_Name :: string
  ob_NumberOfDesiredUTXOs :: int
  ob_MinimumDesiredUTXOValue :: nat

record priority_output =
  po_ID :: nat
  po_UserID :: int
  po_Satoshis :: int
  po_BasketName :: "string option"
  po_Type :: output_type
  po_CreatedAt :: int

text \<open>The row that a priority output is allocated as.\<close>

definition priority_row :: "go_lib \<Rightarrow> priority_output \<Rightarrow> user_utxo result" where
  "priority_row lib output = (case to_UInt64 lib (po_Satoshis output) of
     None \<Rightarrow> Inl (GoWrap ''failed to convert output satoshis'' (GoErr ''to.UInt64''))
   | Some sats \<Rightarrow>
       let basket = (case po_BasketName output of None \<Rightarrow> '''' | Some b \<Rightarrow> b) in
       rbind (EstimatedInputSizeByType lib (po_Type output)) (\<lambda>sz.
         Inr \<lparr>uu_UserID = po_UserID output, uu_OutputID = po_ID output,
              uu_UTXOStatus = UTXOStatusUnknown, uu_BasketName = basket, uu_Satoshis = sats,
              uu_EstimatedInputSize = sz, uu_CreatedAt = po_CreatedAt output, uu_ReservedByID = None\<rparr>))"

fun allocatePriorityOutputs ::
  "go_lib \<Rightarrow> priority_output list \<Rightarrow> nat list \<Rightarrow> bool \<Rightarrow> utxo_collector \<Rightarrow> utxo_collector result" where
  "allocatePriorityOutputs lib [] forbiddenOutputIDs isSweep c = Inr c"
| "allocatePriorityOutputs lib (output # outputs) forbiddenOutputIDs isSweep c =
     (if po_ID output \<in> set forbiddenOutputIDs
      then allocatePriorityOutputs lib outputs forbiddenOutputIDs isSweep c
      else rbind (priority_row lib output) (\<lambda>u.
        rbind (rwrap ''failed to allocate priority output'' (allocateUTXO lib u c)) (\<lambda>c'.
          if isSweep then allocatePriorityOutputs lib outputs forbiddenOutputIDs isSweep c'
          else rbind (IsFunded c') (\<lambda>funded.
            if funded then Inr c'
            else allocatePriorityOutputs lib outputs forbiddenOutputIDs isSweep c'))))"

text \<open>The pool of a sweep. \<open>sort.Slice\<close> sorts by satoshis; among equal amounts any order is
  allowed, and the model keeps the given one.\<close>

definition statusToTier :: "utxo_status \<Rightarrow> nat" where
  "statusToTier status = (case status of
     UTXOStatusMined \<Rightarrow> 0 | UTXOStatusUnproven \<Rightarrow> 1 | UTXOStatusSending \<Rightarrow> 2 | _ \<Rightarrow> 2)"

record utxo_pool =
  pool_mined :: "user_utxo list"
  pool_unproven :: "user_utxo list"
  pool_sending :: "user_utxo list"

definition tier_of :: "user_utxo list \<Rightarrow> nat \<Rightarrow> user_utxo list" where
  "tier_of utxos tier = sort_key uu_Satoshis (filter (\<lambda>u. statusToTier (uu_UTXOStatus u) = tier) utxos)"

definition newUTXOPool :: "user_utxo list \<Rightarrow> utxo_pool" where
  "newUTXOPool utxos = \<lparr>pool_mined = tier_of utxos 0, pool_unproven = tier_of utxos 1,
     pool_sending = tier_of utxos 2\<rparr>"

definition pool_all :: "utxo_pool \<Rightarrow> user_utxo list" where
  "pool_all p = pool_mined p @ pool_unproven p @ pool_sending p"

text \<open>The inner loop of \<open>loadUTXOPool\<close>: rows not seen yet are appended.\<close>

fun dedup_loop :: "nat set \<Rightarrow> user_utxo list \<Rightarrow> user_utxo list \<Rightarrow> nat set \<times> user_utxo list" where
  "dedup_loop seen allUTXOs [] = (seen, allUTXOs)"
| "dedup_loop seen allUTXOs (u # utxos) =
     (if uu_OutputID u \<in> seen then dedup_loop seen allUTXOs utxos
      else dedup_loop (insert (uu_OutputID u) seen) (allUTXOs @ [u]) utxos)"

text \<open>The callee applies the paging defaults to the caller's paging object.\<close>

partial_function (option) load_loop ::
  "utxo_repository \<Rightarrow> int \<Rightarrow> string \<Rightarrow> nat list \<Rightarrow> bool \<Rightarrow> paging \<Rightarrow> nat set \<Rightarrow> user_utxo list \<Rightarrow>
   user_utxo list result option" where
  "load_loop repo userID basketName forbidden includeSending page seen allUTXOs =
     (case FindNotReservedUTXOsForUpdate repo userID basketName page forbidden includeSending of
        Inl e \<Rightarrow> Some (Inl (wrap_error ''failed to load utxos'' e))
      | Inr utxos \<Rightarrow>
          (case dedup_loop seen allUTXOs utxos of (seen', all') \<Rightarrow>
             if length utxos < utxoBatchSize then Some (Inr all')
             else load_loop repo userID basketName forbidden includeSending (Next (ApplyDefaults page)) seen' all'))"

definition loadUTXOPool ::
  "utxo_repository \<Rightarrow> int \<Rightarrow> string \<Rightarrow> nat list \<Rightarrow> bool \<Rightarrow> utxo_pool result option" where
  "loadUTXOPool repo userID basketName forbidden includeSending =
     map_option (\<lambda>r. rbind r (\<lambda>us. Inr (newUTXOPool us)))
       (load_loop repo userID basketName forbidden includeSending
          \<lparr>pg_Limit = int utxoBatchSize, pg_Offset = 0, pg_Sort = '''', pg_SortBy = '''', pg_ThenBy = ''''\<rparr> {} [])"

fun allocate_all :: "go_lib \<Rightarrow> user_utxo list \<Rightarrow> utxo_collector \<Rightarrow> utxo_collector result" where
  "allocate_all lib [] c = Inr c"
| "allocate_all lib (u # us) c =
     rbind (rwrap ''failed to allocate utxo in sweep'' (allocateUTXO lib u c)) (allocate_all lib us)"

definition allocateSweep :: "go_lib \<Rightarrow> utxo_collector \<Rightarrow> utxo_pool \<Rightarrow> fund_result result" where
  "allocateSweep lib c pool = rbind (allocate_all lib (pool_all pool) c) GetResult"

record constraints =
  cs_Tiers :: "utxo_status list option"
  cs_MaxChangeOutputs :: nat

record fund_args =
  fa_TargetSat :: int
  fa_CurrentTxSize :: nat
  fa_OutputCount :: nat
  fa_Basket :: output_basket
  fa_UserID :: int
  fa_ForbiddenOutputIDs :: "nat list"
  fa_PriorityOutputs :: "priority_output list"
  fa_IncludeSending :: bool
  fa_IsSweep :: bool
  fa_Existing :: int
  fa_Constraints :: constraints

record sql_funder =
  sf_utxoRepository :: utxo_repository
  sf_feeCalculator :: feeCalc
  sf_maxChangeOutputsPerTx :: nat

definition NewSQL :: "go_lib \<Rightarrow> utxo_repository \<Rightarrow> fee_model \<Rightarrow> nat \<Rightarrow> sql_funder result" where
  "NewSQL lib repo feeModel maxChangeOutputsPerTx =
     rbind (newFeeCalculator lib feeModel) (\<lambda>fc.
       Inr \<lparr>sf_utxoRepository = repo, sf_feeCalculator = fc,
            sf_maxChangeOutputsPerTx = maxChangeOutputsPerTx\<rparr>)"

definition SetMaxChangeOutputsPerTx :: "nat \<Rightarrow> sql_funder \<Rightarrow> sql_funder" where
  "SetMaxChangeOutputsPerTx n f = f\<lparr>sf_maxChangeOutputsPerTx := n\<rparr>"

datatype spend_policy = SpendPolicyMinedOnly | SpendPolicyPreferMined | SpendPolicyAny | SpendPolicyOther string

definition SpendTiers :: "spend_policy \<Rightarrow> utxo_status list" where
  "SpendTiers policy = (case policy of
     SpendPolicyMinedOnly \<Rightarrow> [UTXOStatusMined]
   | SpendPolicyAny \<Rightarrow> [UTXOStatusMined, UTXOStatusUnproven, UTXOStatusSending]
   | SpendPolicyPreferMined \<Rightarrow> [UTXOStatusMined, UTXOStatusUnproven]
   | _ \<Rightarrow> [UTXOStatusMined, UTXOStatusUnproven])"

definition resolveTiers :: "bool \<Rightarrow> utxo_status list option \<Rightarrow> utxo_status list" where
  "resolveTiers includeSending tierOverride = (case tierOverride of
     Some tiers \<Rightarrow> tiers
   | None \<Rightarrow> [UTXOStatusMined, UTXOStatusUnproven] @ (if includeSending then [UTXOStatusSending] else []))"

definition start_collector :: "go_lib \<Rightarrow> sql_funder \<Rightarrow> fund_args \<Rightarrow> utxo_collector result" where
  "start_collector lib f args =
     (let maxChangeOutputs = (if cs_MaxChangeOutputs (fa_Constraints args) > 0
            then cs_MaxChangeOutputs (fa_Constraints args) else sf_maxChangeOutputsPerTx f)
      in rbind (rwrap ''failed to start collecting utxo''
           (newCollector lib (fa_TargetSat args) (fa_CurrentTxSize args) (fa_OutputCount args)
              (wrap_i64 (ob_NumberOfDesiredUTXOs (fa_Basket args) - fa_Existing args))
              (ob_MinimumDesiredUTXOValue (fa_Basket args)) (sf_feeCalculator f) maxChangeOutputs
              (fa_IsSweep args)))
           (allocatePriorityOutputs lib (fa_PriorityOutputs args) (fa_ForbiddenOutputIDs args) (fa_IsSweep args)))"

definition FundWithConstraints :: "go_lib \<Rightarrow> sql_funder \<Rightarrow> fund_args \<Rightarrow> fund_result result option" where
  "FundWithConstraints lib f args =
     (case start_collector lib f args of
        Inl e \<Rightarrow> Some (Inl e)
      | Inr collector \<Rightarrow>
          if fa_IsSweep args then
            map_option (\<lambda>r. rbind r (allocateSweep lib collector))
              (loadUTXOPool (sf_utxoRepository f) (fa_UserID args) (ob_Name (fa_Basket args))
                 (fa_ForbiddenOutputIDs args) (fa_IncludeSending args))
          else case IsFunded collector of
            Inl e \<Rightarrow> Some (Inl e)
          | Inr funded \<Rightarrow>
              if funded then Some (GetResult collector)
              else map_option (\<lambda>r. rbind r (\<lambda>a. GetResult (ba_collector a)))
                (run lib (sf_utxoRepository f)
                   (resolveTiers (fa_IncludeSending args) (cs_Tiers (fa_Constraints args)))
                   (newBoundedAllocator (fa_UserID args) (ob_Name (fa_Basket args)) collector
                      (fa_ForbiddenOutputIDs args))))"

text \<open>\<open>Fund\<close>: the constraints are the zero value.\<close>

definition Fund :: "go_lib \<Rightarrow> sql_funder \<Rightarrow> fund_args \<Rightarrow> fund_result result option" where
  "Fund lib f args =
     FundWithConstraints lib f (args\<lparr>fa_Constraints := \<lparr>cs_Tiers = None, cs_MaxChangeOutputs = 0\<rparr>\<rparr>)"

end
