(* ===== verification/Funder_Collector.thy ===== *)
theory Funder_Collector
  imports Funder
begin

text \<open>
  The invariant of the collector. Whatever rows \<open>us\<close> are allocated, the collector's bookkeeping
  agrees with them: covered satoshis, allocated list, size, fee for that size, and a number of
  change outputs that the change distribution can serve.
\<close>

section \<open>Modular sizes\<close>

lemma u64_add_sub_swap:
  "is_u64 t \<Longrightarrow> u64_sub (u64_add t s) k = u64_add (u64_sub t k) s"
proof -
  assume t: "is_u64 t"
  let ?m = "18446744073709551616 :: nat"
  have k: "k mod ?m \<le> ?m" by (simp add: less_imp_le)
  have "((t + s) mod ?m + ?m - k mod ?m) mod ?m = ((t + s) mod ?m + (?m - k mod ?m)) mod ?m"
    using k by simp
  also have "\<dots> = (t + s + (?m - k mod ?m)) mod ?m" by (rule mod_add_left_eq)
  also have "\<dots> = ((t + (?m - k mod ?m)) + s) mod ?m" by (simp only: ac_simps)
  also have "\<dots> = ((t + (?m - k mod ?m)) mod ?m + s) mod ?m" by (rule mod_add_left_eq [symmetric])
  also have "t + (?m - k mod ?m) = t + ?m - k mod ?m" using k by simp
  finally show ?thesis unfolding u64_sub_def u64_add_def wrap_u64_def .
qed

definition base_size :: "utxo_collector \<Rightarrow> nat" where
  "base_size c = u64_sub (c_txSize c) (c_changeOutputsSize c)"

section \<open>One operation at a time\<close>

text \<open>The fee is the fee of the current size.\<close>

definition fee_current :: "go_lib \<Rightarrow> utxo_collector \<Rightarrow> bool" where
  "fee_current lib c \<longleftrightarrow> Calculate lib (c_feeCalculator c) (c_txSize c) = Inr (c_fee c) \<and> is_u64 (c_txSize c)"

lemma increaseSize_ok:
  assumes "increaseSize lib s c = Inr c'"
  shows "c' = c\<lparr>c_txSize := u64_add (c_txSize c) s, c_fee := c_fee c'\<rparr>" and "fee_current lib c'"
  using assms by (auto simp: increaseSize_def Let_def result_simps fee_current_def)

lemma setChangeOutputsSize_ok:
  assumes "setChangeOutputsSize lib s c = Inr c'"
  shows "c' = c\<lparr>c_txSize := c_txSize c', c_fee := c_fee c', c_changeOutputsSize := s\<rparr>"
    and "fee_current lib c'" and "base_size c' = base_size c"
proof -
  note inc = increaseSize_ok [OF assms [unfolded setChangeOutputsSize_def]]
  from inc(1) show eq: "c' = c\<lparr>c_txSize := c_txSize c', c_fee := c_fee c', c_changeOutputsSize := s\<rparr>"
    by (cases c') simp
  show "fee_current lib c'" by (rule inc(2))
  have "c_txSize c' = u64_add (base_size c) s" "c_changeOutputsSize c' = s"
    using arg_cong [OF inc(1), of c_txSize] arg_cong [OF eq, of c_changeOutputsSize]
    by (simp_all add: base_size_def)
  then show "base_size c' = base_size c"
    by (simp add: base_size_def u64_sub_add)
qed

lemma change_unaffected [simp]:
  "change (c\<lparr>c_changeOutputsCount := n\<rparr>) = change c"
  by (simp add: change_def satsToCover_def)

text \<open>What \<open>calculateChangeOutputs\<close> leaves behind: a count with its size, and either at most one
  output or a change that the distribution can split.\<close>

definition change_fits :: "go_lib \<Rightarrow> utxo_collector \<Rightarrow> bool" where
  "change_fits lib c \<longleftrightarrow>
     c_changeOutputsSize c = u64_mul (c_changeOutputsCount c) (changeOutputSize lib) \<and>
     (c_changeOutputsCount c \<le> 1 \<or> changeFitsOutputs c = Inr True)"

definition same_config :: "utxo_collector \<Rightarrow> utxo_collector \<Rightarrow> bool" where
  "same_config c c' \<longleftrightarrow> c_txSats c' = c_txSats c \<and> c_feeCalculator c' = c_feeCalculator c \<and>
     c_outputCount c' = c_outputCount c \<and> c_numberOfDesiredUTXOs c' = c_numberOfDesiredUTXOs c \<and>
     c_minimumDesiredUTXOValue c' = c_minimumDesiredUTXOValue c \<and>
     c_maxChangeOutputsPerTx c' = c_maxChangeOutputsPerTx c \<and> c_minimumChange c' = c_minimumChange c \<and>
     c_dustFloor c' = c_dustFloor c \<and> c_isSweep c' = c_isSweep c"

definition only_change_moved :: "utxo_collector \<Rightarrow> utxo_collector \<Rightarrow> bool" where
  "only_change_moved c c' \<longleftrightarrow> same_config c c' \<and> c_satsCovered c' = c_satsCovered c \<and>
     c_allocatedUTXOs c' = c_allocatedUTXOs c \<and> base_size c' = base_size c"

lemma same_config_refl [simp]: "same_config c c"
  by (simp add: same_config_def)

lemma same_config_trans: "same_config a b \<Longrightarrow> same_config b c \<Longrightarrow> same_config a c"
  by (simp add: same_config_def)

lemma only_change_moved_trans:
  "only_change_moved a b \<Longrightarrow> only_change_moved b c \<Longrightarrow> only_change_moved a c"
  by (auto simp: only_change_moved_def intro: same_config_trans)

lemma setChangeOutputsSize_moved:
  "setChangeOutputsSize lib s (c\<lparr>c_changeOutputsCount := n\<rparr>) = Inr c' \<Longrightarrow>
   only_change_moved c c' \<and> fee_current lib c' \<and> c_changeOutputsCount c' = n \<and> c_changeOutputsSize c' = s"
  using setChangeOutputsSize_ok [of lib s "c\<lparr>c_changeOutputsCount := n\<rparr>" c']
  unfolding only_change_moved_def same_config_def
  by (cases c') (auto simp: base_size_def)

lemma change_outputs_loop_ok:
  "change_outputs_loop lib n c = Inr c' \<Longrightarrow>
   only_change_moved c c' \<and> fee_current lib c' \<and> change_fits lib c' \<and> (1 \<le> n \<longrightarrow> 1 \<le> c_changeOutputsCount c') \<and>
   c_changeOutputsCount c' \<le> n"
proof (induction lib n c rule: change_outputs_loop.induct)
  case (1 lib n c)
  from 1(2) obtain c1 where c1:
    "setChangeOutputsSize lib (u64_mul n (changeOutputSize lib)) (c\<lparr>c_changeOutputsCount := n\<rparr>) = Inr c1"
    by (subst (asm) change_outputs_loop.simps) (auto simp: result_simps)
  note moved = setChangeOutputsSize_moved [OF c1]
  consider (small) "n \<le> 1" "c' = c1" | (fits) "\<not> n \<le> 1" "changeFitsOutputs c1 = Inr True" "c' = c1"
    | (again) "\<not> n \<le> 1" "changeFitsOutputs c1 = Inr False" "change_outputs_loop lib (n - 1) c1 = Inr c'"
    using 1(2) c1 by (subst (asm) change_outputs_loop.simps) (auto simp: result_simps split: if_splits)
  then show ?case
  proof cases
    case again
    have "only_change_moved c1 c' \<and> fee_current lib c' \<and> change_fits lib c' \<and>
      (1 \<le> n - 1 \<longrightarrow> 1 \<le> c_changeOutputsCount c') \<and> c_changeOutputsCount c' \<le> n - 1"
      using 1(1) [OF _ again(1,2) _ again(3)] by (simp add: c1)
    moreover from this have "only_change_moved c c'" using moved only_change_moved_trans by blast
    ultimately show ?thesis using again(1) by (auto intro: le_trans [OF _ diff_le_self])
  qed (use moved in \<open>auto simp: change_fits_def\<close>)
qed

lemma dust_count_loop_pos: "Suc 0 \<le> n \<Longrightarrow> Suc 0 \<le> dust_count_loop v d n"
  by (induction v d n rule: dust_count_loop.induct) (subst dust_count_loop.simps, auto)

lemma dust_count_loop_le: "dust_count_loop v d n \<le> n"
proof (induction v d n rule: dust_count_loop.induct)
  case (1 v d n)
  then show ?case by (subst dust_count_loop.simps) (auto dest: le_diff_conv [THEN iffD1])
qed

text \<open>The configuration with which change is only ever dropped below the dust floor, and split into no more outputs than allowed.\<close>

definition change_allowed :: "utxo_collector \<Rightarrow> bool" where
  "change_allowed c \<longleftrightarrow> 1 \<le> c_maxChangeOutputsPerTx c \<and> 1 \<le> c_numberOfDesiredUTXOs c"

definition no_change_reason :: "utxo_collector \<Rightarrow> bool" where
  "no_change_reason c \<longleftrightarrow> (c_changeOutputsCount c = 0 \<longrightarrow> (\<exists>ch. change c = Inr ch \<and> ch \<le> 0)) \<and>
     c_changeOutputsCount c \<le> c_maxChangeOutputsPerTx c"

lemma calculateChangeCount_ok:
  assumes "calculateChangeCount lib v c = Inr c'"
  shows "c' = c\<lparr>c_changeOutputsCount := c_changeOutputsCount c'\<rparr>"
    and "clamp_ok lib \<Longrightarrow> change_allowed c \<Longrightarrow> 1 \<le> c_changeOutputsCount c' \<and> c_changeOutputsCount c' \<le> c_maxChangeOutputsPerTx c"
proof -
  show "c' = c\<lparr>c_changeOutputsCount := c_changeOutputsCount c'\<rparr>"
    using assms by (auto simp: calculateChangeCount_def Let_def result_simps split: if_splits)
  assume ok: "clamp_ok lib" "change_allowed c"
  let ?cap = "if c_maxChangeOutputsPerTx c < c_numberOfDesiredUTXOs c
    then c_maxChangeOutputsPerTx c else c_numberOfDesiredUTXOs c"
  have cap: "1 \<le> to_ValueBetween_u64 lib k 1 ?cap \<and> to_ValueBetween_u64 lib k 1 ?cap \<le> c_maxChangeOutputsPerTx c" for k
    using ok by (auto simp: clamp_ok_def change_allowed_def)
  obtain k v' d where "c_changeOutputsCount c' = dust_count_loop v' d (to_ValueBetween_u64 lib k 1 ?cap)"
    using assms unfolding calculateChangeCount_def Let_def by (auto simp: result_simps split: if_splits)
  with cap [of k] dust_count_loop_pos [of "to_ValueBetween_u64 lib k 1 ?cap"] dust_count_loop_le [of v' d "to_ValueBetween_u64 lib k 1 ?cap"]
  show "1 \<le> c_changeOutputsCount c' \<and> c_changeOutputsCount c' \<le> c_maxChangeOutputsPerTx c" by simp
qed

lemma calculateChangeOutputs_ok:
  assumes "calculateChangeOutputs lib c = Inr c'"
  shows "only_change_moved c c' \<and> fee_current lib c' \<and> change_fits lib c'"
    and "clamp_ok lib \<Longrightarrow> change_allowed c \<Longrightarrow> no_change_reason c'"
proof -
  from assms obtain c1 ch where c1: "setChangeOutputsSize lib 0 c = Inr c1" and ch: "change c1 = Inr ch"
    by (auto simp: calculateChangeOutputs_def result_simps)
  have moved: "only_change_moved c c1" "fee_current lib c1" "c_changeOutputsSize c1 = 0"
    using setChangeOutputsSize_moved [where n = "c_changeOutputsCount c" and c = c and c' = c1] c1 by auto
  consider (none) "ch \<le> 0" "c' = c1\<lparr>c_changeOutputsCount := 0\<rparr>"
    | (some) v c2 where "calculateChangeCount lib v c1 = Inr c2"
        "change_outputs_loop lib (c_changeOutputsCount c2) c2 = Inr c'"
    using assms c1 ch
    by (auto simp: calculateChangeOutputs_def result_simps split: if_splits option.splits)
  then have "(only_change_moved c c' \<and> fee_current lib c' \<and> change_fits lib c') \<and>
    (clamp_ok lib \<longrightarrow> change_allowed c \<longrightarrow> no_change_reason c')"
  proof cases
    case none
    have "only_change_moved c c'"
      using moved(1) none by (auto simp: only_change_moved_def same_config_def base_size_def)
    with none moved ch show ?thesis
      by (auto simp: fee_current_def change_fits_def no_change_reason_def u64_mul_def wrap_u64_def)
  next
    case some
    note c2 = calculateChangeCount_ok [OF some(1)]
    have "only_change_moved c1 c2"
      using c2(1) by (cases c2) (auto simp: only_change_moved_def same_config_def base_size_def)
    then have "only_change_moved c c2" using moved(1) only_change_moved_trans by blast
    moreover note loop = change_outputs_loop_ok [OF some(2)]
    ultimately have "only_change_moved c c'" using only_change_moved_trans by blast
    moreover have "change_allowed c1 = change_allowed c"
      using moved(1) by (simp add: only_change_moved_def same_config_def change_allowed_def)
    moreover have "c_maxChangeOutputsPerTx c' = c_maxChangeOutputsPerTx c1"
      using moved(1) calculation(1) by (simp add: only_change_moved_def same_config_def)
    ultimately show ?thesis
      using loop c2(2) by (auto simp: no_change_reason_def)
  qed
  then show "only_change_moved c c' \<and> fee_current lib c' \<and> change_fits lib c'"
    "clamp_ok lib \<Longrightarrow> change_allowed c \<Longrightarrow> no_change_reason c'" by blast+
qed

section \<open>The invariant\<close>

definition to_utxo :: "user_utxo \<Rightarrow> utxo" where
  "to_utxo u = \<lparr>ux_OutputID = uu_OutputID u, ux_Satoshis = int (uu_Satoshis u)\<rparr>"

definition coll_inv :: "go_lib \<Rightarrow> nat \<Rightarrow> user_utxo list \<Rightarrow> utxo_collector \<Rightarrow> bool" where
  "coll_inv lib sz us c \<longleftrightarrow>
     c_allocatedUTXOs c = map to_utxo us \<and> c_satsCovered c = int (sum_list (map uu_Satoshis us)) \<and>
     base_size c = u64_total uu_EstimatedInputSize sz us \<and> fee_current lib c \<and> change_fits lib c \<and>
     (clamp_ok lib \<longrightarrow> change_allowed c \<longrightarrow> no_change_reason c)"

lemma u64_total_snoc: "u64_total f acc (xs @ [x]) = u64_add (u64_total f acc xs) (f x)"
  by (induction xs arbitrary: acc) auto

lemma same_config_allowed: "same_config c c' \<Longrightarrow> change_allowed c' = change_allowed c"
  by (simp add: same_config_def change_allowed_def)

lemma calculateChangeOutputs_inv:
  assumes "calculateChangeOutputs lib c = Inr c'"
    and "c_allocatedUTXOs c = map to_utxo us" and "c_satsCovered c = int (sum_list (map uu_Satoshis us))"
    and "base_size c = u64_total uu_EstimatedInputSize sz us"
  shows "coll_inv lib sz us c' \<and> same_config c c'"
  using calculateChangeOutputs_ok [OF assms(1)] assms(2-4) same_config_allowed [of c c']
  by (auto simp: coll_inv_def only_change_moved_def)

lemma allocateUTXO_inv:
  assumes inv: "coll_inv lib sz us c" and alloc: "allocateUTXO lib u c = Inr c'"
  shows "coll_inv lib sz (us @ [u]) c' \<and> same_config c c'"
proof -
  from alloc obtain c1 c2 c3 where c1: "addToAllocated u c = Inr c1"
    and c2: "increaseSize lib (uu_EstimatedInputSize u) c1 = Inr c2"
    and c3: "increaseValue (int (uu_Satoshis u)) c2 = Inr c3"
    and c4: "calculateChangeOutputs lib c3 = Inr c'"
    by (auto simp: allocateUTXO_def result_simps)
  note sz = increaseSize_ok [OF c2]
  have c1': "c1 = c\<lparr>c_allocatedUTXOs := c_allocatedUTXOs c @ [to_utxo u]\<rparr>"
    using c1 by (auto simp: addToAllocated_def result_simps to_utxo_def)
  have c3': "c3 = c2\<lparr>c_satsCovered := c_satsCovered c2 + int (uu_Satoshis u)\<rparr>"
    using c3 by (auto simp: increaseValue_def result_simps)
  have size2: "c_txSize c2 = u64_add (c_txSize c) (uu_EstimatedInputSize u)"
    using arg_cong [OF sz(1), of c_txSize] by (simp add: c1')
  have frame: "c_changeOutputsSize c3 = c_changeOutputsSize c" "c_txSize c3 = c_txSize c2"
    "c_allocatedUTXOs c3 = c_allocatedUTXOs c @ [to_utxo u]"
    "c_satsCovered c3 = c_satsCovered c + int (uu_Satoshis u)" "same_config c c3"
    by (subst c3', subst sz(1), simp add: c1' same_config_def)+
  have "base_size c3 = u64_add (base_size c) (uu_EstimatedInputSize u)"
    using inv by (simp add: base_size_def frame size2 u64_add_sub_swap coll_inv_def fee_current_def)
  then have "coll_inv lib sz (us @ [u]) c' \<and> same_config c3 c'"
    using inv frame by (intro calculateChangeOutputs_inv [OF c4]) (auto simp: coll_inv_def u64_total_snoc)
  then show ?thesis using frame(5) same_config_trans by blast
qed

text \<open>Where a collector comes from.\<close>

definition configured ::
  "go_lib \<Rightarrow> int \<Rightarrow> nat \<Rightarrow> int \<Rightarrow> nat \<Rightarrow> feeCalc \<Rightarrow> nat \<Rightarrow> bool \<Rightarrow> utxo_collector \<Rightarrow> bool" where
  "configured lib txSats outputCount desired minValue fc maxChange isSweep c \<longleftrightarrow>
     c_txSats c = txSats \<and> c_outputCount c = outputCount \<and> c_feeCalculator c = fc \<and> c_isSweep c = isSweep \<and>
     c_maxChangeOutputsPerTx c = maxChange \<and> c_dustFloor c = dustFloorOf lib fc \<and>
     c_minimumDesiredUTXOValue c = to_NoLessThan_u64 lib minValue 1 \<and>
     must_ConvertToUInt64 lib (to_NoLessThan_i64 lib desired 1) = Some (c_numberOfDesiredUTXOs c)"

lemma configured_same:
  "same_config c c' \<Longrightarrow> configured lib s n d m fc mx sw c \<Longrightarrow> configured lib s n d m fc mx sw c'"
  by (simp add: same_config_def configured_def)

lemma newCollector_inv:
  assumes "newCollector lib txSats txSize outputCount desired minValue fc maxChange isSweep = Inr c"
    and "is_u64 txSize"
  shows "coll_inv lib txSize [] c \<and> configured lib txSats outputCount desired minValue fc maxChange isSweep c"
proof -
  let ?c0 = "\<lparr>c_txSats = txSats, c_txSize = 0, c_fee = 0, c_feeCalculator = fc,
            c_satsCovered = 0, c_allocatedUTXOs = [], c_outputCount = outputCount,
            c_numberOfDesiredUTXOs = 0,
            c_minimumDesiredUTXOValue = to_NoLessThan_u64 lib minValue 1,
            c_maxChangeOutputsPerTx = maxChange, c_changeOutputsCount = 0,
            c_changeOutputsSize = 0, c_minimumChange = 0, c_dustFloor = 0, c_isSweep = isSweep\<rparr>"
  from assms(1) obtain c1 n where c1: "increaseSize lib txSize ?c0 = Inr c1"
    and n: "must_ConvertToUInt64 lib (to_NoLessThan_i64 lib desired 1) = Some n"
    and fin: "calculateChangeOutputs lib (calculateMinimumChange
      (c1\<lparr>c_numberOfDesiredUTXOs := n, c_dustFloor := dustFloorOf lib fc\<rparr>)) = Inr c"
    unfolding newCollector_def Let_def by (auto simp: result_simps split: option.splits)
  let ?c3 = "calculateMinimumChange (c1\<lparr>c_numberOfDesiredUTXOs := n, c_dustFloor := dustFloorOf lib fc\<rparr>)"
  obtain fee where c1': "c1 = ?c0\<lparr>c_txSize := txSize, c_fee := fee\<rparr>"
    using increaseSize_ok(1) [OF c1] assms(2) by (auto simp: u64_add_def)
  have "base_size ?c3 = txSize"
    using assms(2) by (simp add: base_size_def c1' calculateMinimumChange_def u64_sub_exact)
  then have "coll_inv lib txSize [] c \<and> same_config ?c3 c"
    by (intro calculateChangeOutputs_inv [OF fin]) (simp_all add: c1' calculateMinimumChange_def)
  moreover have "configured lib txSats outputCount desired minValue fc maxChange isSweep ?c3"
    using n by (simp add: configured_def c1' calculateMinimumChange_def)
  ultimately show ?thesis using configured_same by blast
qed

lemma configured_allowed:
  assumes "configured lib s n d m fc mx sw c" and "clamp_ok lib" "convert_ok lib" "is_i64 d" "1 \<le> mx"
  shows "change_allowed c" and "1 \<le> c_minimumDesiredUTXOValue c"
proof -
  have "must_ConvertToUInt64 lib (max d 1) = Some (nat (max d 1))"
    using assms(3,4) by (auto simp: convert_ok_def is_i64_def)
  moreover have "must_ConvertToUInt64 lib (max d 1) = Some (c_numberOfDesiredUTXOs c)"
    using assms(1,2) by (simp add: configured_def clamp_ok_def)
  ultimately have "1 \<le> c_numberOfDesiredUTXOs c" by auto
  then show "change_allowed c" "1 \<le> c_minimumDesiredUTXOValue c"
    using assms(1,2,5) by (auto simp: configured_def change_allowed_def clamp_ok_def)
qed

end
