(* ===== verification/Funder_Run.thy ===== *)
theory Funder_Run
  imports Funder_Collector
begin

text \<open>
  The bounded allocator. First, for every repository that only answers with claimable rows: what
  a pass claims and that it ends. Then, for every repository that also answers in best-fit order:
  the batched micro-queries select exactly the rows that a reference allocator selects, which
  looks at the whole table before every single claim.
\<close>

section \<open>What a pass claims\<close>

text \<open>The rows \<open>us\<close> claimed by an allocator that started with the collector of \<open>ps\<close> and the
  exclusions \<open>forb\<close>.\<close>

definition pass_inv ::
  "go_lib \<Rightarrow> nat \<Rightarrow> user_utxo list \<Rightarrow> nat list \<Rightarrow> user_utxo list \<Rightarrow> (user_utxo \<Rightarrow> bool) \<Rightarrow> utxo_status list \<Rightarrow>
   user_utxo list \<Rightarrow> bounded_allocator \<Rightarrow> bool" where
  "pass_inv lib sz ps forb tbl skip tiers us a \<longleftrightarrow>
     coll_inv lib sz (ps @ us) (ba_collector a) \<and> ba_excluded a = forb @ map uu_OutputID us \<and>
     distinct (map uu_OutputID us) \<and>
     (\<forall>u \<in> set us. \<exists>tier \<in> set tiers. eligible tbl skip
        \<lparr>q_UserID = ba_userID a, q_BasketName = ba_basketName a, q_Status = tier, q_ExcludedOutputIDs = forb\<rparr> u)"

text \<open>The part of an allocator that a pass leaves alone.\<close>

definition same_pass :: "bounded_allocator \<Rightarrow> bounded_allocator \<Rightarrow> bool" where
  "same_pass a a' \<longleftrightarrow> ba_userID a' = ba_userID a \<and> ba_basketName a' = ba_basketName a \<and>
     same_config (ba_collector a) (ba_collector a') \<and> set (ba_excluded a) \<subseteq> set (ba_excluded a')"

lemma same_pass_refl [simp]: "same_pass a a"
  by (simp add: same_pass_def)

lemma same_pass_trans: "same_pass a b \<Longrightarrow> same_pass b c \<Longrightarrow> same_pass a c"
  by (auto simp: same_pass_def intro: same_config_trans)

lemma eligible_tier_query:
  "eligible tbl skip (tier_query a tier) u \<longleftrightarrow> u \<in> set tbl \<and> uu_UserID u = ba_userID a \<and>
     uu_BasketName u = ba_basketName a \<and> uu_ReservedByID u = None \<and>
     uu_OutputID u \<notin> set (ba_excluded a) \<and> uu_UTXOStatus u = tier \<and> \<not> skip u"
  by (simp add: tier_query_def eligible_def)

lemma claim_frame:
  assumes "claim lib u a = Inr a'"
  shows "ba_userID a' = ba_userID a" "ba_basketName a' = ba_basketName a"
    and "ba_excluded a' = ba_excluded a @ [uu_OutputID u]"
    and "allocateUTXO lib u (ba_collector a) = Inr (ba_collector a')"
  using assms by (auto simp: claim_def result_simps)

lemma claim_inv:
  assumes inv: "pass_inv lib sz ps forb tbl skip tiers us a" and claim: "claim lib u a = Inr a'"
    and elig: "eligible tbl skip (tier_query a tier) u" and tier: "tier \<in> set tiers"
  shows "pass_inv lib sz ps forb tbl skip tiers (us @ [u]) a' \<and> same_pass a a'"
proof -
  note fr = claim_frame [OF claim]
  have "coll_inv lib sz ((ps @ us) @ [u]) (ba_collector a') \<and> same_config (ba_collector a) (ba_collector a')"
    using inv by (intro allocateUTXO_inv [OF _ fr(4)]) (simp add: pass_inv_def)
  then show ?thesis
    using inv elig tier unfolding pass_inv_def same_pass_def fr
    by (auto simp: tier_query_def eligible_def)
qed

lemma drain_loop_True: "drain_loop lib True batch a = Inr (b, a') \<Longrightarrow> b"
  by (induction batch arbitrary: a) (auto simp: result_simps split: if_splits)

context utxo_repo_sound
begin

lemma drain_loop_inv:
  assumes "drain_loop lib b batch a = Inr (b', a')" and "pass_inv lib sz ps forb tbl skip tiers us a"
    and "tier \<in> set tiers" and "distinct (map uu_OutputID batch)"
    and "\<And>u. u \<in> set batch \<Longrightarrow> eligible tbl skip (tier_query a tier) u"
  shows "\<exists>vs. pass_inv lib sz ps forb tbl skip tiers (us @ vs) a' \<and> same_pass a a' \<and>
    (b' \<longrightarrow> b \<or> vs \<noteq> []) \<and> (b' \<or> a' = a) \<and> set vs \<subseteq> set batch"
  using assms
proof (induction lib b batch a arbitrary: us rule: drain_loop.induct)
  case (2 lib b u batch a)
  show ?case
  proof (cases "b' = b \<and> a' = a")
    case True
    with 2(3) show ?thesis by (intro exI [of _ "[]"]) auto
  next
    case False
    then obtain f r rU a1 where st: "IsFunded (ba_collector a) = Inr f" "\<not> f"
      "remaining lib (ba_collector a) = Inr r" "\<not> r \<le> 0" "MustUInt64 r = Inr rU" "\<not> rU \<le> uu_Satoshis u"
      and claim: "claim lib u a = Inr a1" and rest: "drain_loop lib True batch a1 = Inr (b', a')"
      using 2(2) by (auto simp: result_simps split: if_splits)
    have inv1: "pass_inv lib sz ps forb tbl skip tiers (us @ [u]) a1 \<and> same_pass a a1"
      using 2(3-6) by (intro claim_inv [OF _ claim]) auto
    have "eligible tbl skip (tier_query a1 tier) v" if "v \<in> set batch" for v
    proof -
      have "uu_OutputID v \<in> uu_OutputID ` set batch" using that by (rule imageI)
      then have "uu_OutputID v \<noteq> uu_OutputID u" using 2(5) by auto
      with 2(6) [of v] that show ?thesis by (simp add: eligible_tier_query claim_frame [OF claim])
    qed
    then obtain vs where "pass_inv lib sz ps forb tbl skip tiers ((us @ [u]) @ vs) a'" "same_pass a1 a'"
      "set vs \<subseteq> set batch" "b' \<or> a' = a1"
      using 2(1) [OF st(1,2) st(3,4) st(5,6) claim rest] inv1 2(4,5) by (metis distinct.simps(2) list.map(2))
    moreover have "b'" using rest by (rule drain_loop_True)
    ultimately show ?thesis
      using inv1 same_pass_trans by (intro exI [of _ "u # vs"]) auto
  qed
qed (auto intro!: exI [of _ "[]"])

lemma fromTier_inv:
  assumes "fromTier lib repo tier r a = Inr (b, a')" and "pass_inv lib sz ps forb tbl skip tiers us a"
    and "tier \<in> set tiers" and "keyed tbl"
  shows "\<exists>vs. pass_inv lib sz ps forb tbl skip tiers (us @ vs) a' \<and> same_pass a a' \<and>
    (b \<longrightarrow> vs \<noteq> []) \<and> (b \<or> a' = a)"
proof -
  let ?q = "tier_query a tier"
  consider (suff) rU u where "FindSmallestSufficientUTXOForUpdate repo ?q rU = Inr (Some u)"
      "claim lib u a = Inr a'" "b"
    | (insuff) rU batch where "FindLargestInsufficientUTXOsForUpdate repo ?q rU insufficientBatchSize = Inr batch"
      "drain_loop lib False batch a = Inr (b, a')"
    using assms(1)
    by (auto simp: fromTier_def Let_def result_simps drainBatch_def split: option.splits)
  then show ?thesis
  proof cases
    case suff
    then have "eligible tbl skip ?q u" using suff_sound by blast
    with suff(2,3) assms(2,3) claim_inv show ?thesis by (intro exI [of _ "[u]"]) auto
  next
    case insuff
    have "\<exists>vs. pass_inv lib sz ps forb tbl skip tiers (us @ vs) a' \<and> same_pass a a' \<and>
      (b \<longrightarrow> False \<or> vs \<noteq> []) \<and> (b \<or> a' = a) \<and> set vs \<subseteq> set batch"
      using insuff(1) assms insuff_sound insuff_distinct by (intro drain_loop_inv [OF insuff(2)]) blast+
    then show ?thesis by blast
  qed
qed

lemma round_tiers_inv:
  assumes "round_tiers lib repo ts r a = Inr (b, a')" and "pass_inv lib sz ps forb tbl skip tiers us a"
    and "set ts \<subseteq> set tiers" and "keyed tbl"
  shows "\<exists>vs. pass_inv lib sz ps forb tbl skip tiers (us @ vs) a' \<and> same_pass a a' \<and>
    (b \<longrightarrow> vs \<noteq> []) \<and> (b \<or> a' = a)"
  using assms
proof (induction ts arbitrary: a us)
  case (Cons tier ts)
  from Cons.prems(1) obtain b1 a1 where t: "fromTier lib repo tier r a = Inr (b1, a1)"
    and rest: "if b1 then b \<and> a' = a1 else round_tiers lib repo ts r a1 = Inr (b, a')"
    by (auto simp: result_simps split: if_splits)
  have tier: "\<exists>vs. pass_inv lib sz ps forb tbl skip tiers (us @ vs) a1 \<and> same_pass a a1 \<and>
    (b1 \<longrightarrow> vs \<noteq> []) \<and> (b1 \<or> a1 = a)"
    using Cons.prems by (intro fromTier_inv [OF t]) auto
  show ?case
  proof (cases b1)
    case True
    with rest tier show ?thesis by auto
  next
    case False
    with rest tier have "round_tiers lib repo ts r a = Inr (b, a')" by simp
    with Cons.IH Cons.prems show ?thesis by auto
  qed
qed (auto intro!: exI [of _ "[]"])

text \<open>The rows that are still unclaimed; every round that allocates uses some up.\<close>

definition unclaimed :: "bounded_allocator \<Rightarrow> nat set" where
  "unclaimed a = uu_OutputID ` set tbl - set (ba_excluded a)"

lemma finite_unclaimed [simp]: "finite (unclaimed a)"
  by (simp add: unclaimed_def)

lemma round_progress:
  assumes "round_tiers lib repo ts r a = Inr (True, a')" and "pass_inv lib sz ps forb tbl skip tiers us a"
    and "set ts \<subseteq> set tiers" and "keyed tbl"
  shows "card (unclaimed a') < card (unclaimed a)"
proof -
  from round_tiers_inv [OF assms] obtain vs where
    inv: "pass_inv lib sz ps forb tbl skip tiers (us @ vs) a'" and vs: "vs \<noteq> []" by auto
  let ?x = "uu_OutputID (hd vs)"
  have ex: "ba_excluded a = forb @ map uu_OutputID us" "ba_excluded a' = ba_excluded a @ map uu_OutputID vs"
    using inv assms(2) by (auto simp: pass_inv_def)
  have hd: "hd vs \<in> set vs" using vs by simp
  have el: "hd vs \<in> set tbl \<and> ?x \<notin> set forb"
    using inv hd by (force simp: pass_inv_def eligible_def)
  have "distinct (map uu_OutputID (us @ vs))" using inv by (simp add: pass_inv_def)
  then have "?x \<notin> set (map uu_OutputID us)" using hd by auto
  with el ex have "?x \<in> unclaimed a" by (auto simp: unclaimed_def)
  moreover have "?x \<notin> unclaimed a'" using hd ex by (auto simp: unclaimed_def)
  moreover have "unclaimed a' \<subseteq> unclaimed a" using ex by (auto simp: unclaimed_def)
  ultimately show ?thesis by (intro psubset_card_mono) auto
qed

lemma run_returns:
  assumes "pass_inv lib sz ps forb tbl skip tiers us a" and "keyed tbl"
  shows "\<exists>y. run lib repo tiers a = Some y \<and> (\<forall>a'. y = Inr a' \<longrightarrow>
    (\<exists>vs. pass_inv lib sz ps forb tbl skip tiers vs a') \<and> same_pass a a')"
  using assms(1)
proof (induction "card (unclaimed a)" arbitrary: a us rule: less_induct)
  case less
  note unf = run.simps [of lib repo tiers a]
  show ?case
  proof (cases "IsFunded (ba_collector a)")
    case (Inr funded)
    show ?thesis
    proof (cases "remaining lib (ba_collector a)")
      case rem: (Inr r)
      show ?thesis
      proof (cases "funded \<or> r \<le> 0")
        case False
        show ?thesis
        proof (cases "round_tiers lib repo tiers r a")
          case rt: (Inr p)
          obtain b a1 where p: "p = (b, a1)" by (cases p)
          show ?thesis
          proof (cases b)
            case True
            have rt': "round_tiers lib repo tiers r a = Inr (True, a1)" using rt p True by simp
            from round_tiers_inv [OF rt'] less(2) assms(2) obtain vs where
              inv: "pass_inv lib sz ps forb tbl skip tiers (us @ vs) a1" "same_pass a a1" by blast
            have "card (unclaimed a1) < card (unclaimed a)"
              using round_progress [OF rt'] less(2) assms(2) by blast
            from less(1) [OF this inv(1)] inv(2) show ?thesis
              using False True Inr rem rt p same_pass_trans by (subst unf) auto
          qed (use False Inr rem rt p in \<open>subst unf, auto\<close>)
        qed (use False Inr rem in \<open>subst unf, auto\<close>)
      qed (use Inr rem less(2) in \<open>subst unf, auto\<close>)
    qed (use Inr less(2) in \<open>subst unf, auto\<close>)
  qed (subst unf, auto)
qed

end

end
