(* ===== verification/Funder_Best_Fit.thy ===== *)
theory Funder_Best_Fit
  imports Funder_Run
begin

text \<open>
  The reference allocator that the comments of \<open>sql.go\<close> call the old in-memory \<open>selectBest\<close>: before
  every claim it looks at all claimable rows, tier by tier, and takes the exact match, else the
  smallest sufficient row, else the largest insufficient one. The bounded allocator asks for
  one row or a batch of sixteen at a time; it makes the same claims.
\<close>

section \<open>The reference\<close>

definition selectBest_tier ::
  "user_utxo list \<Rightarrow> (user_utxo \<Rightarrow> bool) \<Rightarrow> bounded_utxo_query \<Rightarrow> int \<Rightarrow> user_utxo option" where
  "selectBest_tier tbl skip q r =
     (let rows = sort_key utxo_key (bounded_rows tbl skip q);
          sufficient = filter (\<lambda>u. r \<le> int (uu_Satoshis u)) rows
      in if rows = [] then None else Some (if sufficient \<noteq> [] then hd sufficient else last rows))"

fun selectBest ::
  "user_utxo list \<Rightarrow> (user_utxo \<Rightarrow> bool) \<Rightarrow> bounded_allocator \<Rightarrow> utxo_status list \<Rightarrow> int \<Rightarrow> user_utxo option" where
  "selectBest tbl skip a [] r = None"
| "selectBest tbl skip a (tier # tiers) r =
     (case selectBest_tier tbl skip (tier_query a tier) r of
        None \<Rightarrow> selectBest tbl skip a tiers r | Some u \<Rightarrow> Some u)"

partial_function (option) reference_run ::
  "go_lib \<Rightarrow> user_utxo list \<Rightarrow> (user_utxo \<Rightarrow> bool) \<Rightarrow> utxo_status list \<Rightarrow> bounded_allocator \<Rightarrow>
   bounded_allocator result option" where
  "reference_run lib tbl skip tiers a =
     (case IsFunded (ba_collector a) of
        Inl e \<Rightarrow> Some (Inl e)
      | Inr funded \<Rightarrow>
          if funded then Some (Inr a)
          else case remaining lib (ba_collector a) of
            Inl e \<Rightarrow> Some (Inl e)
          | Inr r \<Rightarrow>
              if r \<le> 0 then Some (Inr a)
              else case selectBest tbl skip a tiers r of
                None \<Rightarrow> Some (Inl (GoSentinel ErrNotEnoughFunds))
              | Some u \<Rightarrow>
                  case claim lib u a of
                    Inl e \<Rightarrow> Some (Inl e)
                  | Inr a' \<Rightarrow> reference_run lib tbl skip tiers a')"

section \<open>Which row is the best\<close>

definition best_row ::
  "user_utxo list \<Rightarrow> (user_utxo \<Rightarrow> bool) \<Rightarrow> bounded_utxo_query \<Rightarrow> int \<Rightarrow> user_utxo \<Rightarrow> bool" where
  "best_row tbl skip q r u \<longleftrightarrow> eligible tbl skip q u \<and>
     (if r \<le> int (uu_Satoshis u)
      then \<forall>v. eligible tbl skip q v \<and> r \<le> int (uu_Satoshis v) \<longrightarrow> utxo_key u \<le> utxo_key v
      else \<forall>v. eligible tbl skip q v \<longrightarrow> int (uu_Satoshis v) < r \<and> utxo_key v \<le> utxo_key u)"

lemma sorted_hd_le: "sorted (map f xs) \<Longrightarrow> x \<in> set xs \<Longrightarrow> f (hd xs) \<le> f x"
  by (cases xs) auto

lemma sorted_last_ge: "sorted (map f xs) \<Longrightarrow> x \<in> set xs \<Longrightarrow> f x \<le> f (last xs)"
  by (induction xs rule: rev_induct) (auto simp: sorted_append)

lemma selectBest_tier_best:
  assumes "keyed tbl" and "best_row tbl skip q r u"
  shows "selectBest_tier tbl skip q r = Some u"
proof -
  let ?rows = "sort_key utxo_key (bounded_rows tbl skip q)"
  let ?suff = "filter (\<lambda>u. r \<le> int (uu_Satoshis u)) ?rows"
  have el: "v \<in> set ?rows \<longleftrightarrow> eligible tbl skip q v" for v by (simp add: bounded_rows_iff)
  have u: "u \<in> set ?rows" using assms(2) by (simp add: best_row_def bounded_rows_iff)
  have sorted: "sorted (map utxo_key ?rows)" "sorted (map utxo_key ?suff)"
    by (simp_all add: sorted_filter)
  have same: "v = u" if "v \<in> set ?rows" "utxo_key v \<le> utxo_key u" "utxo_key u \<le> utxo_key v" for v
    using keyed_eq [OF assms(1)] that u el by (metis order_antisym prod.inject)
  show ?thesis
  proof (cases "r \<le> int (uu_Satoshis u)")
    case True
    then have "u \<in> set ?suff" using u by simp
    moreover from this have "hd ?suff \<in> set ?suff" by (intro hd_in_set) (metis empty_iff list.set(1))
    ultimately have "hd ?suff = u"
      using assms(2) True sorted_hd_le [OF sorted(2), of u] same [of "hd ?suff"]
      by (auto simp: best_row_def bounded_rows_iff simp del: less_eq_prod_simp)
    moreover have "?suff \<noteq> []" "?rows \<noteq> []"
      using u \<open>u \<in> set ?suff\<close> by (metis empty_iff list.set(1))+
    ultimately show ?thesis by (simp add: selectBest_tier_def Let_def)
  next
    case False
    with assms(2) have "?suff = []" by (auto simp: best_row_def filter_empty_conv bounded_rows_iff)
    moreover have ne: "?rows \<noteq> []" using u by (metis empty_iff list.set(1))
    then have "last ?rows \<in> set ?rows" by (rule last_in_set)
    then have "last ?rows = u"
      using False assms(2) sorted_last_ge [OF sorted(1) u] same [of "last ?rows"]
      by (auto simp: best_row_def bounded_rows_iff simp del: less_eq_prod_simp)
    ultimately show ?thesis using ne by (simp add: selectBest_tier_def Let_def)
  qed
qed

definition tier_empty :: "user_utxo list \<Rightarrow> (user_utxo \<Rightarrow> bool) \<Rightarrow> bounded_allocator \<Rightarrow> utxo_status \<Rightarrow> bool" where
  "tier_empty tbl skip a tier \<longleftrightarrow> (\<forall>u. \<not> eligible tbl skip (tier_query a tier) u)"

lemma selectBest_tier_None: "selectBest_tier tbl skip q r = None \<longleftrightarrow> (\<forall>u. \<not> eligible tbl skip q u)"
proof -
  have "set (bounded_rows tbl skip q) = {u. eligible tbl skip q u}" by (auto simp: bounded_rows_iff)
  then have "sort_key utxo_key (bounded_rows tbl skip q) = [] \<longleftrightarrow> {u. eligible tbl skip q u} = {}"
    by (metis set_empty2 set_sort)
  then show ?thesis by (simp add: selectBest_tier_def Let_def)
qed

lemma selectBest_None: "selectBest tbl skip a tiers r = None \<longleftrightarrow> (\<forall>tier \<in> set tiers. tier_empty tbl skip a tier)"
proof (induction tiers)
  case (Cons t tiers)
  then show ?case
    by (cases "selectBest_tier tbl skip (tier_query a t) r")
      (simp_all add: tier_empty_def selectBest_tier_None [symmetric, where r = r])
qed simp

lemma selectBest_first:
  assumes "\<forall>t \<in> set pre. tier_empty tbl skip a t" and "keyed tbl" and "best_row tbl skip (tier_query a tier) r u"
  shows "selectBest tbl skip a (pre @ tier # post) r = Some u"
proof -
  have "selectBest tbl skip a (pre @ tier # post) r = selectBest tbl skip a (tier # post) r"
    using assms(1)
  proof (induction pre)
    case (Cons t pre)
    then have "selectBest_tier tbl skip (tier_query a t) r = None"
      by (simp add: selectBest_tier_None tier_empty_def)
    with Cons show ?case by simp
  qed simp
  then show ?thesis by (simp add: selectBest_tier_best [OF assms(2,3)])
qed

section \<open>One drained batch\<close>

text \<open>While a batch is drained, it holds the largest claimable rows of its tier, all of them below
  the amount that was missing, and the tiers before it are exhausted.\<close>

definition batch_ok ::
  "user_utxo list \<Rightarrow> (user_utxo \<Rightarrow> bool) \<Rightarrow> utxo_status list \<Rightarrow> utxo_status \<Rightarrow> user_utxo list \<Rightarrow> bounded_allocator \<Rightarrow> bool"
where
  "batch_ok tbl skip pre tier batch a \<longleftrightarrow>
     (\<forall>t \<in> set pre. tier_empty tbl skip a t) \<and> distinct (map uu_OutputID batch) \<and>
     sorted (rev (map utxo_key batch)) \<and>
     (\<forall>u \<in> set batch. eligible tbl skip (tier_query a tier) u) \<and>
     (\<forall>v. eligible tbl skip (tier_query a tier) v \<and> v \<notin> set batch \<longrightarrow>
        (\<forall>u \<in> set batch. utxo_key v \<le> utxo_key u))"

lemma eligible_after_claim:
  "claim lib u a = Inr a' \<Longrightarrow> eligible tbl skip (tier_query a' t) v \<longleftrightarrow>
     eligible tbl skip (tier_query a t) v \<and> uu_OutputID v \<noteq> uu_OutputID u"
  by (auto simp: eligible_tier_query claim_frame)

lemma batch_ok_claim:
  assumes "batch_ok tbl skip pre tier (u # batch) a" and "claim lib u a = Inr a'"
  shows "batch_ok tbl skip pre tier batch a'"
proof -
  have "uu_OutputID v \<noteq> uu_OutputID u" if "v \<in> set batch" for v
  proof -
    have "uu_OutputID u \<notin> uu_OutputID ` set batch" using assms(1) by (simp add: batch_ok_def)
    with that show ?thesis by (metis imageI)
  qed
  moreover have "sorted (rev (map utxo_key batch))"
    using assms(1) by (simp add: batch_ok_def sorted_append del: less_eq_prod_simp)
  moreover have "\<forall>u' \<in> set batch. utxo_key v \<le> utxo_key u'"
    if "eligible tbl skip (tier_query a tier) v" "uu_OutputID v \<noteq> uu_OutputID u" "v \<notin> set batch" for v
  proof -
    have "v \<notin> set (u # batch)" using that by auto
    with assms(1) that(1) show ?thesis
      unfolding batch_ok_def by (meson list.set_intros(2))
  qed
  ultimately show ?thesis
    using assms(1) unfolding batch_ok_def tier_empty_def eligible_after_claim [OF assms(2)]
    by simp
qed

lemma batch_head_best:
  assumes "batch_ok tbl skip pre tier (u # batch) a" and "int (uu_Satoshis u) < r"
  shows "best_row tbl skip (tier_query a tier) r u"
proof -
  have le: "utxo_key v \<le> utxo_key u" if "eligible tbl skip (tier_query a tier) v" for v
    using assms(1) that
    by (cases "v \<in> set (u # batch)") (auto simp: batch_ok_def sorted_append simp del: less_eq_prod_simp)
  moreover have "int (uu_Satoshis v) < r" if "utxo_key v \<le> utxo_key u" for v
    using that assms(2) by auto
  moreover have "\<not> r \<le> int (uu_Satoshis u)" "eligible tbl skip (tier_query a tier) u"
    using assms by (simp_all add: batch_ok_def)
  ultimately show ?thesis
    by (simp add: best_row_def del: less_eq_prod_simp)
qed

lemma drain_reference:
  assumes "keyed tbl" and "batch_ok tbl skip pre tier batch a"
  shows "case drain_loop lib b batch a of
      Inl e \<Rightarrow> reference_run lib tbl skip (pre @ tier # post) a = Some (Inl e)
    | Inr (b', a') \<Rightarrow> reference_run lib tbl skip (pre @ tier # post) a =
        reference_run lib tbl skip (pre @ tier # post) a'"
  using assms(2)
proof (induction lib b batch a rule: drain_loop.induct)
  case (2 lib b u batch a)
  let ?ref = "reference_run lib tbl skip (pre @ tier # post)"
  note unf = reference_run.simps [of lib tbl skip "pre @ tier # post" a]
  show ?case
  proof (cases "\<exists>r. IsFunded (ba_collector a) = Inr False \<and> remaining lib (ba_collector a) = Inr r \<and>
      int (uu_Satoshis u) < r")
    case True
    then obtain r where st: "IsFunded (ba_collector a) = Inr False" "remaining lib (ba_collector a) = Inr r"
      "int (uu_Satoshis u) < r" by blast
    have sel: "selectBest tbl skip a (pre @ tier # post) r = Some u"
      using 2(2) assms(1) batch_head_best [OF 2(2) st(3)]
      by (intro selectBest_first) (auto simp: batch_ok_def)
    have drain: "drain_loop lib b (u # batch) a = rbind (claim lib u a) (drain_loop lib True batch)"
    proof -
      have "\<not> nat r \<le> uu_Satoshis u" "\<not> r \<le> 0" using st(3) by linarith+
      with st show ?thesis by simp
    qed
    have ref: "?ref a = (case claim lib u a of Inl e \<Rightarrow> Some (Inl e) | Inr a' \<Rightarrow> ?ref a')"
      using st sel by (subst unf) simp
    show ?thesis
    proof (cases "claim lib u a")
      case (Inr a1)
      then show ?thesis
        using 2(1) [OF st(1) _ st(2) _ _ _ Inr, of "nat r"] st(3) batch_ok_claim [OF 2(2) Inr]
        by (simp only: drain ref sum.case rbind_Inr) simp
    qed (simp only: drain ref sum.case rbind_Inl)
  next
    case False
    then have "drain_loop lib b (u # batch) a = Inr (b, a) \<or>
      (\<exists>e. drain_loop lib b (u # batch) a = Inl e \<and> (IsFunded (ba_collector a) = Inl e \<or>
        IsFunded (ba_collector a) = Inr False \<and> remaining lib (ba_collector a) = Inl e))"
      by (cases "IsFunded (ba_collector a)"; cases "remaining lib (ba_collector a)") auto
    then show ?thesis
    proof (elim disjE exE conjE)
      fix e assume d: "drain_loop lib b (u # batch) a = Inl e" and "IsFunded (ba_collector a) = Inl e"
      then have "?ref a = Some (Inl e)" by (subst unf) simp
      then show ?thesis by (simp only: d sum.case)
    next
      fix e assume d: "drain_loop lib b (u # batch) a = Inl e"
        and "IsFunded (ba_collector a) = Inr False" "remaining lib (ba_collector a) = Inl e"
      then have "?ref a = Some (Inl e)" by (subst unf) simp
      then show ?thesis by (simp only: d sum.case)
    qed (simp only: sum.case prod.case)
  qed
qed simp

section \<open>Tiers, rounds and runs\<close>

context utxo_repo
begin

lemma fromTier_reference:
  fixes lib a r pre tier post
  assumes keyed: "keyed tbl" and pre: "\<forall>t \<in> set pre. tier_empty tbl skip a t"
    and st: "IsFunded (ba_collector a) = Inr False" "remaining lib (ba_collector a) = Inr r" "0 < r"
  defines "ref \<equiv> reference_run lib tbl skip (pre @ tier # post)"
  shows "case fromTier lib repo tier r a of Inl e \<Rightarrow> ref a = Some (Inl e)
    | Inr (b, a') \<Rightarrow> if b then ref a = ref a' else a' = a \<and> tier_empty tbl skip a tier"
proof -
  let ?q = "tier_query a tier"
  obtain found where found: "FindSmallestSufficientUTXOForUpdate repo ?q (nat r) = Inr found"
    using suff_total by blast
  show ?thesis
  proof (cases found)
    case (Some u)
    note u = suff_sound [OF found [unfolded Some]] and least = suff_least [OF found [unfolded Some]]
    have "best_row tbl skip ?q r u"
      using u least by (auto simp: best_row_def nat_le_iff simp del: less_eq_prod_simp)
    then have "selectBest tbl skip a (pre @ tier # post) r = Some u"
      by (rule selectBest_first [OF pre keyed])
    then have "ref a = (case claim lib u a of Inl e \<Rightarrow> Some (Inl e) | Inr a' \<Rightarrow> ref a')"
      unfolding ref_def using st by (subst reference_run.simps) simp
    with st(3) found Some show ?thesis
      by (cases "claim lib u a") (simp_all add: fromTier_def Let_def)
  next
    case None
    obtain batch where batch: "FindLargestInsufficientUTXOsForUpdate repo ?q (nat r) insufficientBatchSize = Inr batch"
      using insuff_total [of insufficientBatchSize] by (auto simp: insufficientBatchSize_def)
    note small = suff_none [OF found [unfolded None]]
    have fromT: "fromTier lib repo tier r a = drain_loop lib False batch a"
      using st(3) found None batch by (simp add: fromTier_def Let_def drainBatch_def)
    have bok: "batch_ok tbl skip pre tier batch a"
      unfolding batch_ok_def
      using pre insuff_distinct [OF keyed batch] insuff_sorted [OF batch] insuff_sound [OF batch]
        insuff_greatest [OF batch] small by blast
    note drain = drain_reference [OF keyed bok, where lib = lib and b = False and post = post, folded ref_def]
    show ?thesis
    proof (cases batch)
      case Nil
      have "tier_empty tbl skip a tier"
        using insuff_greatest [OF batch] small by (auto simp: tier_empty_def Nil insufficientBatchSize_def)
      then show ?thesis by (simp add: fromT Nil)
    next
      case (Cons u us)
      have "uu_Satoshis u < nat r" using insuff_sound [OF batch, of u] by (simp add: Cons)
      then have "drain_loop lib False batch a = rbind (claim lib u a) (drain_loop lib True us)"
        using st by (simp add: Cons)
      then have "b'" if "drain_loop lib False batch a = Inr (b', a')" for b' a'
        using that by (cases "claim lib u a") (auto dest!: sym [of "Inr _"] drain_loop_True)
      with drain show ?thesis by (auto simp: fromT split: sum.splits)
    qed
  qed
qed

lemma round_reference:
  fixes lib a r pre ts
  assumes keyed: "keyed tbl" and pre: "\<forall>t \<in> set pre. tier_empty tbl skip a t"
    and st: "IsFunded (ba_collector a) = Inr False" "remaining lib (ba_collector a) = Inr r" "0 < r"
  defines "ref \<equiv> reference_run lib tbl skip (pre @ ts)"
  shows "case round_tiers lib repo ts r a of Inl e \<Rightarrow> ref a = Some (Inl e)
    | Inr (b, a') \<Rightarrow> if b then ref a = ref a' else a' = a \<and> (\<forall>t \<in> set ts. tier_empty tbl skip a t)"
  using pre unfolding ref_def
proof (induction ts arbitrary: pre)
  case (Cons tier ts)
  note tier = fromTier_reference [OF keyed Cons.prems st, of tier ts]
  show ?case
  proof (cases "fromTier lib repo tier r a")
    case (Inr p)
    obtain b a1 where p: "p = (b, a1)" by (cases p)
    show ?thesis
    proof (cases b)
      case False
      with tier Inr p have a1: "a1 = a" "tier_empty tbl skip a tier" by auto
      have "\<forall>t \<in> set (pre @ [tier]). tier_empty tbl skip a t" using Cons.prems a1 by auto
      from Cons.IH [OF this] show ?thesis
        using Inr p False a1 by (auto split: sum.splits)
    qed (use tier Inr p in simp)
  qed (use tier in simp)
qed simp

lemma run_reference:
  assumes "pass_inv lib sz ps forb tbl skip tiers us a" and keyed: "keyed tbl"
  shows "run lib repo tiers a = reference_run lib tbl skip tiers a"
  using assms(1)
proof (induction "card (unclaimed a)" arbitrary: a us rule: less_induct)
  case less
  note unf = run.simps [of lib repo tiers a] and unr = reference_run.simps [of lib tbl skip tiers a]
  show ?case
  proof (cases "\<exists>r. IsFunded (ba_collector a) = Inr False \<and> remaining lib (ba_collector a) = Inr r \<and> 0 < r")
    case True
    then obtain r where st: "IsFunded (ba_collector a) = Inr False"
      "remaining lib (ba_collector a) = Inr r" "0 < r" by blast
    note rnd = round_reference [OF keyed _ st, of "[]" tiers, simplified]
    show ?thesis
    proof (cases "round_tiers lib repo tiers r a")
      case (Inr p)
      obtain b a1 where p: "p = (b, a1)" by (cases p)
      show ?thesis
      proof (cases b)
        case True
        have rt: "round_tiers lib repo tiers r a = Inr (True, a1)" using Inr p True by simp
        obtain vs where "pass_inv lib sz ps forb tbl skip tiers (us @ vs) a1"
          using round_tiers_inv [OF rt less(2) _ keyed] by blast
        moreover have "card (unclaimed a1) < card (unclaimed a)"
          using round_progress [OF rt less(2) _ keyed] by blast
        ultimately have "run lib repo tiers a1 = reference_run lib tbl skip tiers a1"
          by (intro less(1))
        with rnd rt st show ?thesis by (subst unf) simp
      next
        case False
        with rnd Inr p have "selectBest tbl skip a tiers r = None" by (simp add: selectBest_None)
        with st Inr p False show ?thesis by (subst unf, subst unr) simp
      qed
    qed (use rnd st in \<open>subst unf, simp\<close>)
  next
    case False
    then show ?thesis
      by (subst unf, subst unr, cases "IsFunded (ba_collector a)"; cases "remaining lib (ba_collector a)") auto
  qed
qed

end

end
