(* ===== verification/Funder_Correct.thy ===== *)
theory Funder_Correct
  imports Funder_Best_Fit "HOL-Library.Multiset"
begin

text \<open>
  What \<open>FundWithConstraints\<close> returns: the results of the collector, the priority phase, the
  sweep, and the properties of a whole funding call.
\<close>

section \<open>The dust floor\<close>

lemma fl_le_double: "0 \<le> x \<Longrightarrow> fl x \<le> 2 * x"
proof -
  assume x: "0 \<le> x"
  have "x / 2 ^ 53 \<le> x" using x by simp
  with fl_abs_err [OF x] show ?thesis by linarith
qed

lemma float_to_i64_pos: "1 \<le> x \<Longrightarrow> x \<le> 2 ^ 62 \<Longrightarrow> 1 \<le> float_to_i64 x"
proof -
  assume x: "1 \<le> x" "x \<le> 2 ^ 62"
  have "1 \<le> \<lfloor>x\<rfloor>" using x(1) by (simp add: le_floor_iff)
  moreover have "\<lfloor>x\<rfloor> \<le> 2 ^ 62" using x(2) by (simp add: floor_le_iff)
  ultimately show ?thesis using x(1) by (simp add: float_to_i64_def Let_def is_i64_def)
qed

lemma dustFloor_pos:
  assumes "varint_ok lib" and "0 \<le> fc_value fc" and "fc_value fc \<le> 9007199254740992"
  shows "1 \<le> dustFloorOf lib fc"
proof -
  let ?y = "float_mul (float_div (fl 192) 1000) (fc_value fc)"
  have "0 \<le> fl 192" "fl 192 \<le> 384" using fl_nonneg [of 192] fl_le_double [of 192] by simp_all
  then have a: "0 \<le> float_div (fl 192) 1000" "float_div (fl 192) 1000 \<le> 1"
    using fl_nonneg [of "fl 192 / 1000"] fl_le_double [of "fl 192 / 1000"] by (simp_all add: float_div_def)
  then have "0 \<le> float_div (fl 192) 1000 * fc_value fc" "float_div (fl 192) 1000 * fc_value fc \<le> 1 * 9007199254740992"
    using assms(2,3) by (simp, intro mult_mono) auto
  then have y: "0 \<le> ?y" "?y \<le> 2 * 9007199254740992"
    using fl_nonneg fl_le_double [of "float_div (fl 192) 1000 * fc_value fc"] by (simp_all add: float_mul_def)
  let ?c = "of_int \<lceil>?y\<rceil> :: rat"
  have "\<lceil>?y\<rceil> \<le> 2 * 9007199254740992" using y(2) by (simp add: ceiling_le_iff)
  moreover have "0 \<le> \<lceil>?y\<rceil>" using y(1) by linarith
  ultimately have c: "0 \<le> ?c" "?c \<le> 18014398509481984" by simp_all
  have "fl (?c * 2) \<le> 2 * (?c * 2)" using c(1) by (intro fl_le_double) simp
  also have "\<dots> \<le> 2 * (18014398509481984 * 2)" using c by (intro mult_mono) auto
  finally have "fl (?c * 2) \<le> 2 ^ 62" by simp
  then have "1 \<le> float_to_i64 (max 1 (float_mul ?c 2))"
    by (intro float_to_i64_pos) (auto simp: float_mul_def)
  then show ?thesis
    by (simp add: dustFloorOf_def Let_def P2PKH_sizes [OF assms(1)])
qed

lemma NewSQL_ok:
  assumes "NewSQL lib repo model mx = Inr f" and "float_ok lib" and "fm_Value model \<le> 9007199254740992"
  shows "sf_utxoRepository f = repo" "sf_maxChangeOutputsPerTx f = mx"
    and "fc_value (sf_feeCalculator f) = of_int (fm_Value model)" "0 \<le> fm_Value model"
    and "newFeeCalculator lib model = Inr (sf_feeCalculator f)"
  using assms by (auto simp: NewSQL_def result_simps newFeeCalculator_def float_ok_def
      split: if_splits option.splits)

section \<open>Results of the collector\<close>

lemma u64_add_sub: "is_u64 t \<Longrightarrow> u64_add (u64_sub t k) k = t"
proof -
  assume t: "is_u64 t"
  have "u64_sub (u64_add t k) k = u64_add (u64_sub t k) k" by (rule u64_add_sub_swap [OF t])
  with u64_sub_add [OF t] show ?thesis by simp
qed

lemma change_value:
  "change c = Inr ch \<Longrightarrow> ch = c_satsCovered c - (c_txSats c + c_fee c) \<and> valid_sats ch"
  by (auto simp: change_def satsToCover_def result_simps)

lemma IsFunded_value:
  assumes "IsFunded c = Inr True" and "change c = Inr ch"
  shows "if c_outputCount c = 0 then c_dustFloor c \<le> ch \<and> 0 < c_changeOutputsCount c else 0 \<le> ch"
  using assms change_value [OF assms(2)]
  by (auto simp: IsFunded_def satsToCover_def result_simps split: if_splits)

text \<open>A result agrees with the rows \<open>us\<close> that were allocated for it.\<close>

definition result_for :: "go_lib \<Rightarrow> feeCalc \<Rightarrow> int \<Rightarrow> nat \<Rightarrow> user_utxo list \<Rightarrow> fund_result \<Rightarrow> bool" where
  "result_for lib fc target sz us r \<longleftrightarrow>
     fr_AllocatedUTXOs r = map to_utxo us \<and>
     sum_list (map ux_Satoshis (fr_AllocatedUTXOs r)) = target + fr_Fee r + fr_ChangeAmount r \<and>
     (\<exists>n \<ge> fr_ChangeOutputsCount r. Calculate lib fc
        (u64_add (u64_total uu_EstimatedInputSize sz us) (u64_mul n (changeOutputSize lib))) = Inr (fr_Fee r)) \<and>
     (0 < fr_ChangeOutputsCount r \<longrightarrow> fr_DustFloor r \<le> fr_ChangeAmount r)"

lemma sum_to_utxo: "sum_list (map (ux_Satoshis \<circ> to_utxo) us) = int (sum_list (map uu_Satoshis us))"
  by (induction us) (auto simp: to_utxo_def)

lemma prepareResult_ok:
  assumes "prepareResult c = Inr r" and inv: "coll_inv lib sz us c"
  shows "result_for lib (c_feeCalculator c) (c_txSats c) sz us r"
    and "fr_DustFloor r = c_dustFloor c" and "change c = Inr (fr_ChangeAmount r)"
    and "changeInitialValue c = Inr (fr_ChangeInitialValue r)"
    and "fr_ChangeOutputsCount r = (if fr_ChangeAmount r < c_dustFloor c then 0 else c_changeOutputsCount c)"
proof -
  from assms(1) obtain ch iv where ch: "change c = Inr ch" and iv: "changeInitialValue c = Inr iv"
    and r: "r = \<lparr>fr_AllocatedUTXOs = c_allocatedUTXOs c,
            fr_ChangeOutputsCount = (if ch < c_dustFloor c then 0 else c_changeOutputsCount c),
            fr_ChangeAmount = ch, fr_Fee = c_fee c, fr_DustFloor = c_dustFloor c,
            fr_ChangeInitialValue = iv\<rparr>"
    by (auto simp: prepareResult_def result_simps)
  have size: "u64_add (u64_total uu_EstimatedInputSize sz us)
      (u64_mul (c_changeOutputsCount c) (changeOutputSize lib)) = c_txSize c"
    using inv u64_add_sub [of "c_txSize c" "c_changeOutputsSize c"]
    by (auto simp: coll_inv_def change_fits_def fee_current_def base_size_def)
  show "result_for lib (c_feeCalculator c) (c_txSats c) sz us r"
    using inv change_value [OF ch] size unfolding result_for_def
    by (auto simp: r coll_inv_def fee_current_def sum_to_utxo intro!: exI [of _ "c_changeOutputsCount c"])
qed (use assms(1) in \<open>auto simp: prepareResult_def result_simps\<close>)

lemma GetResult_cases:
  "GetResult c = Inr r \<Longrightarrow> prepareResult c = Inr r \<and> (IsFunded c = Inr True \<or> c_isSweep c)"
  by (auto simp: GetResult_def result_simps split: if_splits)

text \<open>The change distribution serves every result.\<close>

definition change_served :: "go_lib \<Rightarrow> fund_result \<Rightarrow> bool" where
  "change_served lib r \<longleftrightarrow>
     (fr_ChangeOutputsCount r = 0 \<longrightarrow> fr_ChangeAmount r < fr_DustFloor r) \<and>
     (\<forall>rnd. 0 < fr_ChangeOutputsCount r \<longrightarrow> (\<forall>k m. rnd k m \<le> m) \<longrightarrow>
        int (fr_ChangeOutputsCount r) * fr_ChangeInitialValue r \<le> MaxSatoshis \<longrightarrow>
        (\<exists>xs. Distribute lib (NewChangeDistribution (fr_ChangeInitialValue r) rnd)
             (fr_ChangeOutputsCount r) (fr_ChangeAmount r) = Inr xs \<and>
           length xs = fr_ChangeOutputsCount r \<and> sum_list xs = fr_ChangeAmount r \<and> (\<forall>x \<in> set xs. 0 < x)))"

lemma CanDistribute_randomizer:
  "CanDistribute (NewChangeDistribution iv f) n x = CanDistribute (NewChangeDistribution iv g) n x"
  by (simp add: CanDistribute_def NewChangeDistribution_def)

lemma changeInitialValue_ge:
  "changeInitialValue c = Inr iv \<Longrightarrow> c_dustFloor c \<le> iv \<and> (valid_sats (c_dustFloor c) \<longrightarrow> valid_sats iv)"
  by (auto simp: changeInitialValue_def result_simps)

lemma changeFits_CanDistribute:
  assumes "changeFitsOutputs c = Inr True" "change c = Inr ch" "changeInitialValue c = Inr iv"
  shows "CanDistribute (NewChangeDistribution iv f) (c_changeOutputsCount c) ch = Inr True" and "0 < ch"
  using assms CanDistribute_randomizer [of iv f _ _ "\<lambda>_ _. 0"]
  by (auto simp: changeFitsOutputs_def result_simps split: if_splits)

lemma prepareResult_served:
  assumes res: "prepareResult c = Inr r" and inv: "coll_inv lib sz us c"
    and allowed: "clamp_ok lib" "change_allowed c" and dust: "1 \<le> c_dustFloor c" and seq: "seq_ok lib"
  shows "change_served lib r"
proof -
  note r = prepareResult_ok [OF res inv]
  let ?n = "c_changeOutputsCount c" and ?ch = "fr_ChangeAmount r" and ?iv = "fr_ChangeInitialValue r"
  have iv: "1 \<le> ?iv" using changeInitialValue_ge [OF r(4)] dust by linarith
  have ch: "valid_sats ?ch" using change_value [OF r(3)] by (rule conjunct2)
  have "?ch < fr_DustFloor r" if "fr_ChangeOutputsCount r = 0"
    using that inv allowed r(2,3,5) dust by (auto simp: coll_inv_def no_change_reason_def split: if_splits)
  moreover have "\<exists>xs. Distribute lib (NewChangeDistribution ?iv rnd) (fr_ChangeOutputsCount r) ?ch = Inr xs \<and>
      length xs = fr_ChangeOutputsCount r \<and> sum_list xs = ?ch \<and> (\<forall>x \<in> set xs. 0 < x)"
    if n: "0 < fr_ChangeOutputsCount r" and rnd: "\<forall>k m. rnd k m \<le> m"
      and sat: "int (fr_ChangeOutputsCount r) * ?iv \<le> MaxSatoshis" for rnd
  proof -
    have eq: "fr_ChangeOutputsCount r = ?n" and pos: "1 \<le> ?ch"
      using r(5) n dust by (auto split: if_splits)
    let ?d = "NewChangeDistribution ?iv rnd"
    show ?thesis
    proof (cases "?n = 1")
      case True
      with pos seq eq show ?thesis by (simp add: Distribute_def seq_ok_def)
    next
      case False
      then have two: "2 \<le> ?n" using n eq by simp
      have "1 * ?iv \<le> int ?n * ?iv" using iv two by (intro mult_right_mono) auto
      then have "?iv \<le> MaxSatoshis" using sat eq by simp
      then have d: "distributable ?d ?n ?ch"
        using rnd iv pos ch sat eq
        by (simp add: distributable_def draws_ok_def NewChangeDistribution_def valid_sats_def)
      have "CanDistribute ?d ?n ?ch = Inr True"
        using inv two changeFits_CanDistribute(1) [OF _ r(3,4)] by (simp add: coll_inv_def change_fits_def)
      then have "(int ?n - 1) * cd_initialValue ?d < ?ch"
        using CanDistribute_iff [OF d two] pos by simp
      with Distribute_splits [OF seq d two] eq show ?thesis by auto
    qed
  qed
  ultimately show ?thesis by (simp add: change_served_def)
qed

section \<open>Priority outputs and sweeps\<close>

lemma priority_row_id: "priority_row lib p = Inr u \<Longrightarrow> uu_OutputID u = po_ID p"
  by (auto simp: priority_row_def result_simps Let_def split: option.splits)

lemma priority_inv:
  assumes "allocatePriorityOutputs lib pos forb sweep c = Inr c'" and "coll_inv lib sz us c"
  shows "\<exists>ps k. coll_inv lib sz (us @ ps) c' \<and> same_config c c' \<and>
    map uu_OutputID ps = take k (filter (\<lambda>i. i \<notin> set forb) (map po_ID pos)) \<and>
    (\<forall>u \<in> set ps. \<exists>p \<in> set pos. priority_row lib p = Inr u)"
  using assms
proof (induction pos arbitrary: c us)
  case (Cons p pos)
  show ?case
  proof (cases "po_ID p \<in> set forb")
    case True
    with Cons show ?thesis by simp blast
  next
    case False
    with Cons.prems(1) obtain u c1 where row: "priority_row lib p = Inr u" and c1: "allocateUTXO lib u c = Inr c1"
      and rest: "c' = c1 \<or> allocatePriorityOutputs lib pos forb sweep c1 = Inr c'"
      by (auto simp: result_simps split: if_splits)
    note u = priority_row_id [OF row]
    have inv1: "coll_inv lib sz (us @ [u]) c1" and conf1: "same_config c c1"
      using allocateUTXO_inv [OF Cons.prems(2) c1] by auto
    from rest show ?thesis
    proof
      assume "c' = c1"
      with inv1 conf1 False u row show ?thesis by (intro exI [of _ "[u]"] exI [of _ 1]) auto
    next
      assume "allocatePriorityOutputs lib pos forb sweep c1 = Inr c'"
      from Cons.IH [OF this inv1] obtain ps k where "coll_inv lib sz ((us @ [u]) @ ps) c'" "same_config c1 c'"
        "map uu_OutputID ps = take k (filter (\<lambda>i. i \<notin> set forb) (map po_ID pos))"
        "\<forall>u \<in> set ps. \<exists>p \<in> set pos. priority_row lib p = Inr u" by blast
      then show ?thesis
        using False u row conf1 same_config_trans by (intro exI [of _ "u # ps"] exI [of _ "Suc k"]) auto
    qed
  qed
qed (auto intro!: exI [of _ "[]"])

lemma allocate_all_inv:
  assumes "allocate_all lib vs c = Inr c'" and "coll_inv lib sz us c"
  shows "coll_inv lib sz (us @ vs) c' \<and> same_config c c'"
  using assms
proof (induction vs arbitrary: c us)
  case (Cons v vs)
  from Cons.prems(1) obtain c1 where c1: "allocateUTXO lib v c = Inr c1" "allocate_all lib vs c1 = Inr c'"
    by (auto simp: result_simps)
  note step = allocateUTXO_inv [OF Cons.prems(2) c1(1)]
  from Cons.IH [OF c1(2)] step show ?case using same_config_trans by fastforce
qed simp

text \<open>All claimable rows, in the order of the pager.\<close>

definition sweep_rows ::
  "user_utxo list \<Rightarrow> (user_utxo \<Rightarrow> bool) \<Rightarrow> int \<Rightarrow> string \<Rightarrow> nat list \<Rightarrow> bool \<Rightarrow> user_utxo list" where
  "sweep_rows tbl skip userID basket forb sending =
     sort_key (\<lambda>u. (status_order (uu_UTXOStatus u), uu_Satoshis u, uu_OutputID u))
       (filter (\<lambda>u. uu_UserID u = userID \<and> uu_BasketName u = basket \<and> uu_ReservedByID u = None \<and>
          uu_OutputID u \<notin> set forb \<and> uu_UTXOStatus u \<in> set (resolveTiers sending None) \<and> \<not> skip u) tbl)"

lemma outputNotIn_iff: "outputNotIn forb u \<longleftrightarrow> uu_OutputID u \<notin> set forb"
  by (simp add: outputNotIn_def)

lemma FindNotReserved_page:
  "0 < pg_Limit page \<Longrightarrow>
   FindNotReservedUTXOs tbl skip userID basket page forb sending =
     Inr (take (nat (pg_Limit page)) (drop (nat (pg_Offset page)) (sweep_rows tbl skip userID basket forb sending)))"
  by (simp add: FindNotReservedUTXOs_def ApplyDefaults_def Let_def sql_page_def sweep_rows_def notReserved_def
      resolveTiers_def outputNotIn_iff)

lemma dedup_loop_fresh:
  "distinct (map uu_OutputID us) \<Longrightarrow> uu_OutputID ` set us \<inter> seen = {} \<Longrightarrow>
   dedup_loop seen acc us = (seen \<union> uu_OutputID ` set us, acc @ us)"
  by (induction us arbitrary: seen acc) auto

lemma sweep_rows_distinct: "keyed tbl \<Longrightarrow> distinct (map uu_OutputID (sweep_rows tbl skip userID basket forb sending))"
  by (auto simp: sweep_rows_def keyed_def distinct_map inj_on_def)

lemma load_loop_all:
  fixes tbl skip userID basket forb sending
  defines "R \<equiv> sweep_rows tbl skip userID basket forb sending"
  assumes keyed: "keyed tbl" and small: "int (length tbl) < 2 ^ 62"
    and page: "pg_Limit page = 1000" "pg_Offset page = int off" "off \<le> length R"
  shows "load_loop (UTXOs_repository tbl skip) userID basket forb sending page
      (uu_OutputID ` set (take off R)) (take off R) = Some (Inr R)"
  using page
proof (induction "length R - off" arbitrary: page off rule: less_induct)
  case less
  let ?P = "take 1000 (drop off R)" and ?page = "Next (ApplyDefaults page)"
  have dist: "distinct (map uu_OutputID R)" unfolding R_def using keyed by (rule sweep_rows_distinct)
  have app: "take off R @ ?P = take (off + 1000) R" by (simp add: take_add)
  have "distinct (map uu_OutputID (take off R @ ?P))" unfolding app
    using dist by (metis distinct_take take_map)
  then have dd: "dedup_loop (uu_OutputID ` set (take off R)) (take off R) ?P =
      (uu_OutputID ` set (take (off + 1000) R), take (off + 1000) R)"
    by (subst dedup_loop_fresh) (auto simp: app [symmetric] simp flip: image_Un set_append)
  have find: "FindNotReservedUTXOsForUpdate (UTXOs_repository tbl skip) userID basket page forb sending = Inr ?P"
    using less(2,3) by (simp add: UTXOs_repository_def FindNotReserved_page R_def)
  note unf = load_loop.simps [of "UTXOs_repository tbl skip" userID basket forb sending page]
  show ?case
  proof (cases "length ?P < utxoBatchSize")
    case True
    then have "take (off + 1000) R = R" using less(4) by (auto simp: utxoBatchSize_def)
    with True find dd show ?thesis by (subst unf) simp
  next
    case False
    then have off: "off + 1000 \<le> length R" using less(4) by (auto simp: utxoBatchSize_def)
    have "length R \<le> length tbl" by (simp add: R_def sweep_rows_def)
    then have "is_i64 (int off + 1000)" using off small by (simp add: is_i64_def)
    then have "pg_Limit ?page = 1000" "pg_Offset ?page = int (off + 1000)"
      using less(2,3) by (simp_all add: Next_def ApplyDefaults_def Let_def)
    moreover have "length R - (off + 1000) < length R - off" using off by simp
    ultimately have "load_loop (UTXOs_repository tbl skip) userID basket forb sending ?page
      (uu_OutputID ` set (take (off + 1000) R)) (take (off + 1000) R) = Some (Inr R)"
      using off by (intro less(1))
    with False find dd show ?thesis by (subst unf) simp
  qed
qed

lemma loadUTXOPool_all:
  assumes "keyed tbl" and "int (length tbl) < 2 ^ 62"
  shows "loadUTXOPool (UTXOs_repository tbl skip) userID basket forb sending =
    Some (Inr (newUTXOPool (sweep_rows tbl skip userID basket forb sending)))"
  using load_loop_all [OF assms, of _ 0] by (simp add: loadUTXOPool_def utxoBatchSize_def)

lemma mset_pool_all: "mset (pool_all (newUTXOPool us)) = mset us"
proof -
  have t: "statusToTier s = 0 \<or> statusToTier s = 1 \<or> statusToTier s = 2" for s
    by (simp add: statusToTier_def split: utxo_status.splits)
  have "mset (tier_of us 0) + (mset (tier_of us 1) + mset (tier_of us 2)) = mset us"
    unfolding tier_of_def mset_sort
  proof (induction us)
    case (Cons u us)
    then show ?case using t [of "uu_UTXOStatus u"] by (elim disjE) simp_all
  qed simp
  then show ?thesis by (simp add: pool_all_def newUTXOPool_def)
qed

section \<open>A whole funding call\<close>

text \<open>A table of the index: primary keys, and a number of rows that any database can hold.\<close>

definition utxo_table :: "user_utxo list \<Rightarrow> bool" where
  "utxo_table tbl \<longleftrightarrow> keyed tbl \<and> int (length tbl) < 2 ^ 62"

definition fund_tiers :: "fund_args \<Rightarrow> utxo_status list" where
  "fund_tiers args = resolveTiers (fa_IncludeSending args)
     (if fa_IsSweep args then None else cs_Tiers (fa_Constraints args))"

text \<open>The allocated rows: a prefix of the priority outputs that are not forbidden, then rows of the
  index that are claimable for this call, none of them twice.\<close>

definition claimable :: "user_utxo list \<Rightarrow> (user_utxo \<Rightarrow> bool) \<Rightarrow> fund_args \<Rightarrow> user_utxo \<Rightarrow> bool" where
  "claimable tbl skip args u \<longleftrightarrow> (\<exists>tier \<in> set (fund_tiers args). eligible tbl skip
     \<lparr>q_UserID = fa_UserID args, q_BasketName = ob_Name (fa_Basket args), q_Status = tier,
      q_ExcludedOutputIDs = fa_ForbiddenOutputIDs args\<rparr> u)"

definition allocation_ok ::
  "go_lib \<Rightarrow> user_utxo list \<Rightarrow> (user_utxo \<Rightarrow> bool) \<Rightarrow> fund_args \<Rightarrow> user_utxo list \<Rightarrow> user_utxo list \<Rightarrow> bool" where
  "allocation_ok lib tbl skip args ps vs \<longleftrightarrow>
     (\<exists>k. map uu_OutputID ps =
        take k (filter (\<lambda>i. i \<notin> set (fa_ForbiddenOutputIDs args)) (map po_ID (fa_PriorityOutputs args)))) \<and>
     (\<forall>u \<in> set ps. \<exists>p \<in> set (fa_PriorityOutputs args). priority_row lib p = Inr u) \<and>
     distinct (map uu_OutputID vs) \<and> (\<forall>v \<in> set vs. claimable tbl skip args v)"

definition max_change :: "sql_funder \<Rightarrow> fund_args \<Rightarrow> nat" where
  "max_change f args = (if cs_MaxChangeOutputs (fa_Constraints args) > 0
     then cs_MaxChangeOutputs (fa_Constraints args) else sf_maxChangeOutputsPerTx f)"

definition call_config :: "go_lib \<Rightarrow> sql_funder \<Rightarrow> fund_args \<Rightarrow> utxo_collector \<Rightarrow> bool" where
  "call_config lib f args = configured lib (fa_TargetSat args) (fa_OutputCount args)
     (wrap_i64 (ob_NumberOfDesiredUTXOs (fa_Basket args) - fa_Existing args))
     (ob_MinimumDesiredUTXOValue (fa_Basket args)) (sf_feeCalculator f) (max_change f args) (fa_IsSweep args)"

lemma start_collector_ok:
  assumes "start_collector lib f args = Inr c" and "is_u64 (fa_CurrentTxSize args)"
  shows "\<exists>ps. coll_inv lib (fa_CurrentTxSize args) ps c \<and> call_config lib f args c \<and>
    allocation_ok lib tbl skip args ps []"
proof -
  from assms(1) obtain c0 where c0: "newCollector lib (fa_TargetSat args) (fa_CurrentTxSize args)
      (fa_OutputCount args) (wrap_i64 (ob_NumberOfDesiredUTXOs (fa_Basket args) - fa_Existing args))
      (ob_MinimumDesiredUTXOValue (fa_Basket args)) (sf_feeCalculator f) (max_change f args)
      (fa_IsSweep args) = Inr c0"
    and prio: "allocatePriorityOutputs lib (fa_PriorityOutputs args) (fa_ForbiddenOutputIDs args)
      (fa_IsSweep args) c0 = Inr c"
    by (auto simp: start_collector_def Let_def result_simps max_change_def)
  note new = newCollector_inv [OF c0 assms(2)]
  from priority_inv [OF prio, of "fa_CurrentTxSize args" "[]"] new obtain ps k where
    "coll_inv lib (fa_CurrentTxSize args) ps c" "same_config c0 c"
    "map uu_OutputID ps = take k (filter (\<lambda>i. i \<notin> set (fa_ForbiddenOutputIDs args)) (map po_ID (fa_PriorityOutputs args)))"
    "\<forall>u \<in> set ps. \<exists>p \<in> set (fa_PriorityOutputs args). priority_row lib p = Inr u" by auto
  with new configured_same show ?thesis
    unfolding call_config_def allocation_ok_def by (intro exI [of _ ps]) auto
qed

lemma run_allocation:
  assumes inv: "coll_inv lib sz ps c" and conf: "call_config lib f args c" and keyed: "keyed tbl"
    and alloc: "allocation_ok lib tbl skip args ps []" and sweep: "\<not> fa_IsSweep args"
  defines "a0 \<equiv> newBoundedAllocator (fa_UserID args) (ob_Name (fa_Basket args)) c (fa_ForbiddenOutputIDs args)"
    and "tiers \<equiv> resolveTiers (fa_IncludeSending args) (cs_Tiers (fa_Constraints args))"
  shows "\<exists>y. run lib (UTXOs_repository tbl skip) tiers a0 = Some y \<and>
      (\<forall>a. y = Inr a \<longrightarrow> (\<exists>vs. coll_inv lib sz (ps @ vs) (ba_collector a) \<and>
         call_config lib f args (ba_collector a) \<and> allocation_ok lib tbl skip args ps vs))"
    and "run lib (UTXOs_repository tbl skip) tiers a0 = reference_run lib tbl skip tiers a0"
proof -
  have start: "pass_inv lib sz ps (fa_ForbiddenOutputIDs args) tbl skip tiers [] a0"
    using inv by (simp add: pass_inv_def a0_def newBoundedAllocator_def)
  show "run lib (UTXOs_repository tbl skip) tiers a0 = reference_run lib tbl skip tiers a0"
    by (rule sql.run_reference [OF start keyed])
  obtain y where y: "run lib (UTXOs_repository tbl skip) tiers a0 = Some y"
    and ok: "\<And>a. y = Inr a \<Longrightarrow>
      (\<exists>vs. pass_inv lib sz ps (fa_ForbiddenOutputIDs args) tbl skip tiers vs a) \<and> same_pass a0 a"
    using sql_sound.run_returns [OF start keyed] by blast
  have "\<exists>vs. coll_inv lib sz (ps @ vs) (ba_collector a) \<and> call_config lib f args (ba_collector a) \<and>
      allocation_ok lib tbl skip args ps vs" if "y = Inr a" for a
  proof -
    from ok [OF that] obtain vs where vs: "pass_inv lib sz ps (fa_ForbiddenOutputIDs args) tbl skip tiers vs a"
      and same: "same_pass a0 a" by blast
    have "call_config lib f args (ba_collector a)"
      using conf same configured_same unfolding call_config_def same_pass_def a0_def
      by (simp add: newBoundedAllocator_def) blast
    moreover have "allocation_ok lib tbl skip args ps vs"
      using vs alloc same sweep unfolding allocation_ok_def claimable_def pass_inv_def same_pass_def a0_def
      by (simp add: newBoundedAllocator_def fund_tiers_def tiers_def)
    ultimately show ?thesis using vs by (auto simp: pass_inv_def)
  qed
  with y show "\<exists>y. run lib (UTXOs_repository tbl skip) tiers a0 = Some y \<and>
      (\<forall>a. y = Inr a \<longrightarrow> (\<exists>vs. coll_inv lib sz (ps @ vs) (ba_collector a) \<and>
         call_config lib f args (ba_collector a) \<and> allocation_ok lib tbl skip args ps vs))" by blast
qed

lemma sweep_allocation:
  assumes "keyed tbl" and "fa_IsSweep args" and "allocation_ok lib tbl skip args ps []"
  defines "rows \<equiv> sweep_rows tbl skip (fa_UserID args) (ob_Name (fa_Basket args))
      (fa_ForbiddenOutputIDs args) (fa_IncludeSending args)"
  shows "allocation_ok lib tbl skip args ps (pool_all (newUTXOPool rows))"
    and "set (pool_all (newUTXOPool rows)) = {u. claimable tbl skip args u}"
proof -
  have "set (pool_all (newUTXOPool rows)) = set rows" by (metis mset_pool_all set_mset_mset)
  also have "set rows = {u. claimable tbl skip args u}"
    using assms(2) by (auto simp: rows_def sweep_rows_def claimable_def fund_tiers_def eligible_def)
  finally show set: "set (pool_all (newUTXOPool rows)) = {u. claimable tbl skip args u}" .
  have "mset (map uu_OutputID (pool_all (newUTXOPool rows))) = mset (map uu_OutputID rows)"
    by (simp add: mset_pool_all)
  then have "distinct (map uu_OutputID (pool_all (newUTXOPool rows)))"
    using sweep_rows_distinct [OF assms(1)] unfolding rows_def by (metis mset_eq_imp_distinct_iff)
  with set assms(3) show "allocation_ok lib tbl skip args ps (pool_all (newUTXOPool rows))"
    by (simp add: allocation_ok_def)
qed

text \<open>Every successful call ends with a collector that satisfies the invariant.\<close>

lemma Fund_final_collector:
  assumes fund: "FundWithConstraints lib f args = Some (Inr r)"
    and repo: "sf_utxoRepository f = UTXOs_repository tbl skip" and tbl: "utxo_table tbl"
    and sz: "is_u64 (fa_CurrentTxSize args)"
  shows "\<exists>c ps vs. coll_inv lib (fa_CurrentTxSize args) (ps @ vs) c \<and> call_config lib f args c \<and>
    allocation_ok lib tbl skip args ps vs \<and> GetResult c = Inr r \<and>
    (fa_IsSweep args \<longrightarrow> set vs = {u. claimable tbl skip args u})"
proof -
  have keyed: "keyed tbl" using tbl by (simp add: utxo_table_def)
  from fund obtain c0 where c0: "start_collector lib f args = Inr c0"
    by (auto simp: FundWithConstraints_def split: sum.splits)
  obtain ps where ps: "coll_inv lib (fa_CurrentTxSize args) ps c0" "call_config lib f args c0"
    "allocation_ok lib tbl skip args ps []" using start_collector_ok [OF c0 sz] by blast
  show ?thesis
  proof (cases "fa_IsSweep args")
    case True
    let ?us = "pool_all (newUTXOPool (sweep_rows tbl skip (fa_UserID args) (ob_Name (fa_Basket args))
      (fa_ForbiddenOutputIDs args) (fa_IncludeSending args)))"
    from fund True c0 repo tbl obtain c where c: "allocate_all lib ?us c0 = Inr c" and r: "GetResult c = Inr r"
      by (auto simp: FundWithConstraints_def utxo_table_def loadUTXOPool_all allocateSweep_def result_simps)
    note inv = allocate_all_inv [OF c ps(1)] and all = sweep_allocation [OF keyed True ps(3)]
    have "call_config lib f args c" using inv ps(2) configured_same unfolding call_config_def by blast
    with inv all r show ?thesis by blast
  next
    case False
    show ?thesis
    proof (cases "IsFunded c0 = Inr True")
      case True
      with fund False c0 have "GetResult c0 = Inr r" by (auto simp: FundWithConstraints_def)
      with ps False show ?thesis by (intro exI [of _ c0] exI [of _ ps] exI [of _ "[]"]) simp
    next
      case nf: False
      from fund False c0 nf repo obtain a where
        "run lib (UTXOs_repository tbl skip)
           (resolveTiers (fa_IncludeSending args) (cs_Tiers (fa_Constraints args)))
           (newBoundedAllocator (fa_UserID args) (ob_Name (fa_Basket args)) c0 (fa_ForbiddenOutputIDs args)) = Some (Inr a)"
        and r: "GetResult (ba_collector a) = Inr r"
        by (auto simp: FundWithConstraints_def result_simps split: sum.splits if_splits)
      then show ?thesis
        using run_allocation(1) [OF ps(1,2) keyed ps(3) False] False by auto
    qed
  qed
qed

text \<open>What a successful call promises, in the form in which the creation of an action uses it.\<close>

lemma Fund_facts:
  assumes fund: "FundWithConstraints lib f args = Some (Inr r)"
    and repo: "sf_utxoRepository f = UTXOs_repository tbl skip" and tbl: "utxo_table tbl"
    and sz: "is_u64 (fa_CurrentTxSize args)" and lib: "clamp_ok lib" "convert_ok lib"
    and dust: "1 \<le> dustFloorOf lib (sf_feeCalculator f)" and mx: "1 \<le> max_change f args"
  obtains ps vs where "fr_AllocatedUTXOs r = map to_utxo (ps @ vs)" and "allocation_ok lib tbl skip args ps vs"
    and "fa_IsSweep args \<Longrightarrow> set vs = {u. claimable tbl skip args u}"
    and "sum_list (map ux_Satoshis (fr_AllocatedUTXOs r)) = fa_TargetSat args + fr_Fee r + fr_ChangeAmount r"
    and "\<exists>size. Calculate lib (sf_feeCalculator f) size = Inr (fr_Fee r)"
    and "\<not> fa_IsSweep args \<Longrightarrow> 0 \<le> fr_ChangeAmount r" and "valid_sats (fr_ChangeAmount r)"
    and "fr_DustFloor r = dustFloorOf lib (sf_feeCalculator f)"
    and "fr_ChangeOutputsCount r = 0 \<longleftrightarrow> fr_ChangeAmount r < fr_DustFloor r"
    and "fr_ChangeOutputsCount r \<le> max_change f args" and "1 \<le> fr_ChangeInitialValue r"
proof -
  obtain c ps vs where c: "coll_inv lib (fa_CurrentTxSize args) (ps @ vs) c" "call_config lib f args c"
    "allocation_ok lib tbl skip args ps vs" "GetResult c = Inr r"
    and sweep: "fa_IsSweep args \<Longrightarrow> set vs = {u. claimable tbl skip args u}"
    using Fund_final_collector [OF fund repo tbl sz] by blast
  note get = GetResult_cases [OF c(4)]
  note res = prepareResult_ok [OF conjunct1 [OF get] c(1)]
  have conf: "c_feeCalculator c = sf_feeCalculator f" "c_txSats c = fa_TargetSat args" "c_isSweep c = fa_IsSweep args"
    "c_dustFloor c = dustFloorOf lib (sf_feeCalculator f)" "c_maxChangeOutputsPerTx c = max_change f args"
    using c(2) by (simp_all add: call_config_def configured_def)
  have "change_allowed c" by (rule configured_allowed(1) [OF c(2) [unfolded call_config_def] lib _ mx]) simp
  then have count: "c_changeOutputsCount c \<le> max_change f args" "c_changeOutputsCount c = 0 \<longrightarrow> fr_ChangeAmount r \<le> 0"
    using c(1) lib(1) res(3) conf(5) by (auto simp: coll_inv_def no_change_reason_def)
  note r = res(1) [unfolded result_for_def conf]
  show thesis
  proof (rule that [of ps vs])
    show "0 \<le> fr_ChangeAmount r" if "\<not> fa_IsSweep args"
      using that get conf(3,4) dust IsFunded_value [OF _ res(3)] by (auto split: if_splits)
    show "1 \<le> fr_ChangeInitialValue r" using changeInitialValue_ge [OF res(4)] dust conf(4) by simp
    show "fr_ChangeOutputsCount r = 0 \<longleftrightarrow> fr_ChangeAmount r < fr_DustFloor r"
      using count(2) dust conf(4) by (auto simp: res(2,5))
    show "fr_ChangeOutputsCount r \<le> max_change f args" using count(1) by (simp add: res(5))
  qed (use r c(3) sweep res(2) conf(4) change_value [OF res(3)] in auto)
qed

text \<open>A distribution that succeeds splits the change without a loss. With no more than four thousand outputs the products
  of the distribution cannot wrap.\<close>

lemma Distribute_sound:
  assumes dis: "Distribute lib (NewChangeDistribution iv rnd) n x = Inr xs" and seq: "seq_ok lib"
    and n: "n \<le> 4000" and iv: "1 \<le> iv" and x: "0 < n \<longrightarrow> 0 < x" "valid_sats x" and rnd: "\<forall>k m. rnd k m \<le> m"
  shows "length xs = n \<and> sum_list xs = (if n = 0 then 0 else x) \<and> (\<forall>y \<in> set xs. valid_sats y)"
proof -
  consider (zero) "n = 0" | (one) "n = 1" | (more) "2 \<le> n" by linarith
  then show ?thesis
  proof cases
    case more
    let ?d = "NewChangeDistribution iv rnd"
    have pos: "0 < x" using x(1) more by simp
    from dis more pos obtain m m' where can: "CanDistribute ?d n x = Inr True"
      and m: "MustMultiply (Unsigned (n - 1)) (Signed iv) = Inr m'" "m' < x"
      and mul: "MustMultiply (Unsigned n) (Signed iv) = Inr m"
      using n by (auto simp: Distribute_def CanDistribute_def result_simps u64_sub_exact is_u64_def NewChangeDistribution_def
          split: if_splits)
    have top: "iv \<le> MaxSatoshis" using mul by (simp add: result_simps valid_sats_def)
    then have "int n * iv \<le> 4000 * MaxSatoshis" using iv n by (intro mult_mono) auto
    moreover have "0 \<le> int n * iv" using iv by simp
    ultimately have "is_i64 (int n * iv)" by (simp only: is_i64_def MaxSatoshis_def) linarith
    with mul have "int n * iv \<le> MaxSatoshis" by (simp add: result_simps valid_sats_def)
    then have d: "distributable ?d n x"
      using rnd iv x pos top by (simp add: distributable_def draws_ok_def NewChangeDistribution_def valid_sats_def)
    have "(int n - 1) * iv < x" using can CanDistribute_iff [OF d more] pos by (simp add: NewChangeDistribution_def)
    from Distribute_splits [OF seq d more] this dis have ys: "length xs = n" "sum_list xs = x" "\<forall>y \<in> set xs. 0 < y"
      by (auto simp: NewChangeDistribution_def)
    moreover have "valid_sats y" if "y \<in> set xs" for y
    proof -
      have "y \<le> sum_list xs" using that ys(3) by (intro member_le_sum_list) auto
      with ys that x(2) show ?thesis by (force simp: valid_sats_def)
    qed
    ultimately show ?thesis using more by simp
  qed (use dis seq x in \<open>auto simp: Distribute_def seq_ok_def split: if_splits\<close>)
qed

end
