(* ===== verification/Funder_Properties.thy ===== *)
theory Funder_Properties
  imports Funder_Correct
begin

text \<open>
  The properties of a funding call, over the repository of \<open>repo/utxos.go\<close>, and a worked example
  in which the change is split into an output below the dust floor.
\<close>

section \<open>The reference funding call\<close>

definition reference_Fund ::
  "go_lib \<Rightarrow> user_utxo list \<Rightarrow> (user_utxo \<Rightarrow> bool) \<Rightarrow> sql_funder \<Rightarrow> fund_args \<Rightarrow> fund_result result option" where
  "reference_Fund lib tbl skip f args =
     (case start_collector lib f args of
        Inl e \<Rightarrow> Some (Inl e)
      | Inr c \<Rightarrow>
          if fa_IsSweep args then
            Some (allocateSweep lib c (newUTXOPool (sweep_rows tbl skip (fa_UserID args)
              (ob_Name (fa_Basket args)) (fa_ForbiddenOutputIDs args) (fa_IncludeSending args))))
          else case IsFunded c of
            Inl e \<Rightarrow> Some (Inl e)
          | Inr funded \<Rightarrow>
              if funded then Some (GetResult c)
              else map_option (\<lambda>r. rbind r (\<lambda>a. GetResult (ba_collector a)))
                (reference_run lib tbl skip
                   (resolveTiers (fa_IncludeSending args) (cs_Tiers (fa_Constraints args)))
                   (newBoundedAllocator (fa_UserID args) (ob_Name (fa_Basket args)) c
                      (fa_ForbiddenOutputIDs args))))"

lemma Fund_unfold_run:
  assumes "start_collector lib f args = Inr c" and "sf_utxoRepository f = UTXOs_repository tbl skip"
    and "utxo_table tbl" and "is_u64 (fa_CurrentTxSize args)"
  shows "FundWithConstraints lib f args = reference_Fund lib tbl skip f args"
    and "\<exists>y. FundWithConstraints lib f args = Some y"
proof -
  obtain ps where ps: "coll_inv lib (fa_CurrentTxSize args) ps c" "call_config lib f args c"
    "allocation_ok lib tbl skip args ps []" using start_collector_ok [OF assms(1,4)] by blast
  have keyed: "keyed tbl" using assms(3) by (simp add: utxo_table_def)
  note run = run_allocation [OF ps(1,2) keyed ps(3)]
  show "FundWithConstraints lib f args = reference_Fund lib tbl skip f args"
    using assms run(2)
    by (cases "fa_IsSweep args") (auto simp: FundWithConstraints_def reference_Fund_def utxo_table_def
        loadUTXOPool_all split: sum.splits)
  show "\<exists>y. FundWithConstraints lib f args = Some y"
    using assms run(1)
    by (cases "fa_IsSweep args") (auto simp: FundWithConstraints_def utxo_table_def loadUTXOPool_all
        split: sum.splits)
qed

section \<open>Properties\<close>

text \<open>The setting of the properties: a funder made by \<open>NewSQL\<close> over the SQL repository of a table.\<close>

definition funder_over ::
  "go_lib \<Rightarrow> user_utxo list \<Rightarrow> (user_utxo \<Rightarrow> bool) \<Rightarrow> fee_model \<Rightarrow> nat \<Rightarrow> sql_funder \<Rightarrow> bool" where
  "funder_over lib tbl skip model mx f \<longleftrightarrow> go_lib_ok lib \<and> utxo_table tbl \<and>
     fm_Value model \<le> 9007199254740992 \<and> NewSQL lib (UTXOs_repository tbl skip) model mx = Inr f"

lemma funder_overD:
  assumes "funder_over lib tbl skip model mx f"
  shows "sf_utxoRepository f = UTXOs_repository tbl skip" "utxo_table tbl" "sf_maxChangeOutputsPerTx f = mx"
    and "1 \<le> dustFloorOf lib (sf_feeCalculator f)"
    and "clamp_ok lib" "convert_ok lib" "seq_ok lib"
proof -
  have lib: "varint_ok lib" "clamp_ok lib" "convert_ok lib" "float_ok lib" "seq_ok lib"
    using assms go_lib_okD by (auto simp: funder_over_def)
  have new: "NewSQL lib (UTXOs_repository tbl skip) model mx = Inr f" "fm_Value model \<le> 9007199254740992"
    using assms by (auto simp: funder_over_def)
  note ok = NewSQL_ok [OF new(1) lib(4) new(2)]
  show "1 \<le> dustFloorOf lib (sf_feeCalculator f)"
    using ok(3,4) new(2) by (intro dustFloor_pos [OF lib(1)]) (simp_all only: of_int_0_le_iff of_int_le_numeral_iff)
qed (use assms NewSQL_ok go_lib_okD in \<open>auto simp: funder_over_def\<close>)


text \<open>
  C4. The change is never lost and always splittable. With at least one change output allowed,
  a successful call creates no change output only when the change is below the dust floor;
  otherwise \<open>Distribute\<close>, called with the result's initial value and any randomizer that respects
  its bound, returns exactly the announced number of positive outputs, adding up to the change,
  as long as that many initial values stay within the money supply.
\<close>

theorem Fund_change_served:
  assumes "funder_over lib tbl skip model mx f" and "is_u64 (fa_CurrentTxSize args)"
    and "FundWithConstraints lib f args = Some (Inr r)" and "1 \<le> mx"
  shows "(fr_ChangeOutputsCount r = 0 \<longrightarrow> fr_ChangeAmount r < fr_DustFloor r) \<and>
     (\<forall>rnd. 0 < fr_ChangeOutputsCount r \<longrightarrow> (\<forall>k m. rnd k m \<le> m) \<longrightarrow>
        int (fr_ChangeOutputsCount r) * fr_ChangeInitialValue r \<le> MaxSatoshis \<longrightarrow>
        (\<exists>xs. Distribute lib (NewChangeDistribution (fr_ChangeInitialValue r) rnd)
             (fr_ChangeOutputsCount r) (fr_ChangeAmount r) = Inr xs \<and>
           length xs = fr_ChangeOutputsCount r \<and> sum_list xs = fr_ChangeAmount r \<and> (\<forall>x \<in> set xs. 0 < x)))"
proof -
  note D = funder_overD [OF assms(1)]
  obtain c us where c: "coll_inv lib (fa_CurrentTxSize args) us c" "call_config lib f args c"
    "GetResult c = Inr r"
    using Fund_final_collector [OF assms(3) D(1,2) assms(2)] by blast
  have "change_allowed c"
  proof (rule configured_allowed(1) [OF c(2) [unfolded call_config_def] D(5,6)])
    show "1 \<le> max_change f args" using D(3) assms(4) by (simp add: max_change_def)
  qed simp
  moreover have "1 \<le> c_dustFloor c" using c(2) D(4) by (simp add: call_config_def configured_def)
  ultimately have "change_served lib r"
    using GetResult_cases [OF c(3)] c(1) D(5,7) by (intro prepareResult_served) auto
  then show ?thesis by (simp add: change_served_def)
qed

text \<open>
  C3. A funding call claims only what it may claim, and nothing twice. The allocated inputs of a
  successful call are a prefix of the priority outputs that are not forbidden, with their amounts, followed by rows
  of the index that belong to the user and the basket, are unreserved, not forbidden, not locked
  by another transaction and in one of the permitted status tiers, with pairwise different
  output ids. A sweep takes every such row.
\<close>

theorem Fund_claims:
  assumes "funder_over lib tbl skip model mx f" and "is_u64 (fa_CurrentTxSize args)"
    and "FundWithConstraints lib f args = Some (Inr r)"
  shows "\<exists>ps vs. fr_AllocatedUTXOs r = map to_utxo (ps @ vs) \<and> allocation_ok lib tbl skip args ps vs \<and>
     (fa_IsSweep args \<longrightarrow> set vs = {u. claimable tbl skip args u})"
proof -
  note D = funder_overD [OF assms(1)]
  obtain c ps vs where c: "coll_inv lib (fa_CurrentTxSize args) (ps @ vs) c" "GetResult c = Inr r"
    "allocation_ok lib tbl skip args ps vs" "fa_IsSweep args \<longrightarrow> set vs = {u. claimable tbl skip args u}"
    using Fund_final_collector [OF assms(3) D(1,2) assms(2)] by blast
  have "fr_AllocatedUTXOs r = map to_utxo (ps @ vs)"
    using prepareResult_ok(1) [OF conjunct1 [OF GetResult_cases [OF c(2)]] c(1)] by (simp add: result_for_def)
  with c(3,4) show ?thesis by blast
qed

text \<open>
  C5. Funding always returns. Although the allocator asks the repository in an open-ended loop,
  every call over the SQL repository of a finite table ends, with a result or an error.
\<close>

theorem Fund_returns:
  assumes "funder_over lib tbl skip model mx f" and "is_u64 (fa_CurrentTxSize args)"
  shows "\<exists>y. FundWithConstraints lib f args = Some y"
proof (cases "start_collector lib f args")
  case (Inl e)
  then show ?thesis by (simp add: FundWithConstraints_def)
next
  case (Inr c)
  with Fund_unfold_run(2) funder_overD(1,2) [OF assms(1)] assms(2) show ?thesis by blast
qed

text \<open>
  C2. The micro-queries change nothing. On every table with its primary key, a call that selects
  inputs by bounded queries (the smallest sufficient row, else a drained batch of the sixteen
  largest insufficient ones) has exactly the outcome of the reference call, which looks at all
  claimable rows before every single claim: the same inputs in the same order, the same fee, the
  same change, or the same error.
\<close>

theorem Fund_best_fit:
  assumes "funder_over lib tbl skip model mx f" and "is_u64 (fa_CurrentTxSize args)"
  shows "FundWithConstraints lib f args = reference_Fund lib tbl skip f args"
proof (cases "start_collector lib f args")
  case (Inl e)
  then show ?thesis by (simp add: FundWithConstraints_def reference_Fund_def)
next
  case (Inr c)
  with Fund_unfold_run(1) funder_overD(1,2) [OF assms(1)] assms(2) show ?thesis by blast
qed


section \<open>Worked examples\<close>

text \<open>A single row of 8522 satoshis, and a call for 1000 satoshis at 1001 sat/kB with the default
  settings of the change basket: 32 outputs wanted, 1000 satoshis each, at most 8 per transaction.\<close>

definition example_row :: user_utxo where
  "example_row = \<lparr>uu_UserID = 1, uu_OutputID = 7, uu_UTXOStatus = UTXOStatusMined, uu_BasketName = ''default'',
     uu_Satoshis = 8522, uu_EstimatedInputSize = 148, uu_CreatedAt = 0, uu_ReservedByID = None\<rparr>"

definition example_args :: fund_args where
  "example_args = \<lparr>fa_TargetSat = 1000, fa_CurrentTxSize = 100, fa_OutputCount = 1,
     fa_Basket = \<lparr>ob_Name = ''default'', ob_NumberOfDesiredUTXOs = 32, ob_MinimumDesiredUTXOValue = 1000\<rparr>,
     fa_UserID = 1, fa_ForbiddenOutputIDs = [], fa_PriorityOutputs = [], fa_IncludeSending = False,
     fa_IsSweep = False, fa_Existing = 0,
     fa_Constraints = \<lparr>cs_Tiers = None, cs_MaxChangeOutputs = 0\<rparr>\<rparr>"

definition example_model :: fee_model where
  "example_model = \<lparr>fm_Type = SatPerKB, fm_Value = 1001\<rparr>"

definition example_fc :: feeCalc where
  "example_fc = \<lparr>fc_bytes = 1000, fc_value = 1001\<rparr>"

definition example_funder :: sql_funder where
  "example_funder = \<lparr>sf_utxoRepository = UTXOs_repository [example_row] (\<lambda>_. False),
     sf_feeCalculator = example_fc, sf_maxChangeOutputsPerTx = 8\<rparr>"

definition example_result :: fund_result where
  "example_result = \<lparr>fr_AllocatedUTXOs = [\<lparr>ux_OutputID = 7, ux_Satoshis = 8522\<rparr>], fr_ChangeOutputsCount = 8,
     fr_ChangeAmount = 7001, fr_Fee = 521, fr_DustFloor = 386, fr_ChangeInitialValue = 1000\<rparr>"

lemma example_new: "newFeeCalculator std_lib example_model = Inr example_fc"
  by (simp add: newFeeCalculator_def example_model_def example_fc_def std_lib_def)

lemma example_funder_over: "funder_over std_lib [example_row] (\<lambda>_. False) example_model 8 example_funder"
  by (simp add: funder_over_def std_lib_ok utxo_table_def keyed_def NewSQL_def example_new example_funder_def)
    (simp add: example_model_def)

lemma example_fee:
  assumes "n \<le> 900"
  shows "Calculate std_lib example_fc n = Inr \<lceil>of_nat n * 1001 / 1000 :: rat\<rceil>"
proof (cases "n = 0")
  case True
  then show ?thesis
    by (simp add: Calculate_def example_fc_def std_lib_def float_mul_def float_div_def fl_def Let_def is_i64_def valid_sats_def MaxSatoshis_def)
next
  case False
  have dom: "fee_domain example_model n" using assms by (simp add: fee_domain_def example_model_def)
  note val = Calculate_value [OF go_lib_okD(4) [OF std_lib_ok] dom example_new]
  have "of_nat n * of_int (fm_Value example_model) / 1000 \<noteq> (of_int k :: rat)" for k
  proof
    assume "of_nat n * of_int (fm_Value example_model) / 1000 = (of_int k :: rat)"
    then have "(of_int (int n * 1001) :: rat) = of_int (k * 1000)" by (simp add: example_model_def)
    then have "int n * 1001 = k * 1000" by (simp only: of_int_eq_iff)
    then have "int n = 1000 * (k - int n)" by presburger
    then have "1000 dvd int n" by (rule dvdI)
    then show False using assms False zdvd_imp_le [of 1000 "int n"] by simp
  qed
  with ceiling_near(3) [OF val(3,2)] val(1) show ?thesis by (simp add: example_model_def)
qed

lemma example_fees:
  "Calculate std_lib example_fc 100 = Inr 101" "Calculate std_lib example_fc 248 = Inr 249"
  "Calculate std_lib example_fc 520 = Inr 521"
  by (simp_all add: example_fee ceiling_eq_iff)

lemma example_dust: "dustFloorOf std_lib example_fc = 386"
proof -
  have size: "TransactionSizeFromScriptLengths std_lib [P2PKHUnlockingScriptLength] [P2PKHLockingScriptLength] = 192"
    by (rule P2PKH_sizes(3) [OF go_lib_okD(1) [OF std_lib_ok]])
  have fl192: "fl 192 = 192"
    using fl_at [of 7 192] round_half_even_int [of "192 * 2 ^ 45"] by (simp add: power_int_def field_simps)
  have fl386: "fl 386 = 386"
    using fl_at [of 8 386] round_half_even_int [of "386 * 2 ^ 44"] by (simp add: power_int_def field_simps)
  have dom: "fee_domain example_model 192" by (simp add: fee_domain_def example_model_def)
  note val = Calculate_value [OF go_lib_okD(4) [OF std_lib_ok] dom example_new]
  have "\<lceil>24024 / 125 :: rat\<rceil> = 193" by (simp add: ceiling_eq_iff)
  then have "\<lceil>float_mul (float_div 192 1000) 1001\<rceil> = 193"
    using val(1) example_fee [of 192] by (simp add: example_model_def)
  then show ?thesis
    by (simp add: dustFloorOf_def size fl192 example_fc_def float_mul_def fl386 float_to_i64_def is_i64_def)
qed

lemma example_sizes: "changeOutputSize std_lib = 34" "P2PKHEstimatedInputSize std_lib = 148"
  using P2PKH_sizes [OF go_lib_okD(1) [OF std_lib_ok]] by (simp_all add: changeOutputSize_def)

lemmas example_arith = u64_add_def u64_sub_def u64_mul_def wrap_u64_def MustAdd_def Add_def MustSubtract_def
  Subtract_def From_def wrap_i64_def validateInt_def MaxSatoshis_def MustUInt64_def UInt64_def MustFrom_def
  validateUint_def u64_to_i64_def

text \<open>The collector before and after the row is allocated.\<close>

definition example_collector :: utxo_collector where
  "example_collector = \<lparr>c_txSats = 1000, c_txSize = 100, c_fee = 101, c_feeCalculator = example_fc,
     c_satsCovered = 0, c_allocatedUTXOs = [], c_outputCount = 1, c_numberOfDesiredUTXOs = 32,
     c_minimumDesiredUTXOValue = 1000, c_maxChangeOutputsPerTx = 8, c_changeOutputsCount = 0,
     c_changeOutputsSize = 0, c_minimumChange = 250, c_dustFloor = 386, c_isSweep = False\<rparr>"

lemma example_start: "start_collector std_lib example_funder example_args = Inr example_collector"
proof -
  have lib: "to_NoLessThan_u64 std_lib = max" "to_NoLessThan_i64 std_lib = max"
    "must_ConvertToUInt64 std_lib 32 = Some 32" by (simp_all add: std_lib_def)
  show ?thesis
    by (simp add: start_collector_def example_args_def example_funder_def newCollector_def increaseSize_def
        calculateMinimumChange_def calculateChangeOutputs_def setChangeOutputsSize_def change_def satsToCover_def
        example_collector_def lib example_dust example_fees example_arith Let_def)
qed

definition example_collector' :: utxo_collector where
  "example_collector' = example_collector\<lparr>c_txSize := 520, c_fee := 521, c_satsCovered := 8522,
     c_allocatedUTXOs := [\<lparr>ux_OutputID = 7, ux_Satoshis = 8522\<rparr>], c_changeOutputsCount := 8,
     c_changeOutputsSize := 272\<rparr>"

lemma example_allocate: "allocateUTXO std_lib example_row example_collector = Inr example_collector'"
proof -
  have lib: "to_ValueBetween_u64 std_lib = (\<lambda>v lo hi. max lo (min hi v))"
    "must_ConvertToUInt64 std_lib 7273 = Some 7273" by (simp_all add: std_lib_def)
  show ?thesis
    by (simp add: allocateUTXO_def addToAllocated_def example_row_def example_collector_def increaseSize_def
        increaseValue_def calculateChangeOutputs_def setChangeOutputsSize_def change_def satsToCover_def
        calculateChangeCount_def lib change_outputs_loop.simps dust_count_loop.simps changeFitsOutputs_def
        changeInitialValue_def CanDistribute_def NewChangeDistribution_def MustMultiply_def Multiply_def
        example_collector'_def example_fees example_sizes example_arith Let_def)
qed

lemma example_fund: "FundWithConstraints std_lib example_funder example_args = Some (Inr example_result)"
proof -
  let ?a = "newBoundedAllocator 1 ''default'' example_collector []"
  let ?a' = "?a\<lparr>ba_collector := example_collector', ba_excluded := [7]\<rparr>"
  let ?repo = "UTXOs_repository [example_row] (\<lambda>_. False)"
  have funded: "IsFunded example_collector = Inr False" "IsFunded example_collector' = Inr True"
    and rem: "remaining std_lib example_collector = Inr 1101"
    by (simp_all add: IsFunded_def remaining_def remaining_default_def example_collector_def
        example_collector'_def satsToCover_def example_arith)
  have ba: "ba_collector ?a = example_collector" by (simp add: newBoundedAllocator_def)
  have claim: "claim std_lib example_row ?a = Inr ?a'"
    by (simp add: claim_def newBoundedAllocator_def example_allocate)
      (simp add: example_row_def)
  have find: "FindSmallestSufficientUTXOForUpdate ?repo (tier_query ?a UTXOStatusMined) 1101 = Inr (Some example_row)"
    by (simp add: UTXOs_repository_def FindSmallestSufficient_cases bounded_rows_def tier_query_def
        newBoundedAllocator_def notReserved_def outputNotIn_def)
      (simp add: example_row_def)
  have "fromTier std_lib ?repo UTXOStatusMined 1101 ?a = Inr (True, ?a')"
    by (simp add: fromTier_def find claim)
  then have round: "round_tiers std_lib ?repo [UTXOStatusMined, UTXOStatusUnproven] 1101 ?a = Inr (True, ?a')"
    by simp
  have "run std_lib ?repo [UTXOStatusMined, UTXOStatusUnproven] ?a' = Some (Inr ?a')"
    by (subst run.simps) (simp add: funded)
  then have run: "run std_lib ?repo [UTXOStatusMined, UTXOStatusUnproven] ?a = Some (Inr ?a')"
    by (subst run.simps) (simp add: ba funded rem round del: round_tiers.simps)
  have "GetResult example_collector' = Inr example_result"
    by (simp add: GetResult_def funded prepareResult_def)
      (simp add: change_def satsToCover_def changeInitialValue_def example_collector'_def example_collector_def
        example_result_def example_arith)
  with run show ?thesis
    by (simp add: FundWithConstraints_def example_start funded)
      (simp add: example_args_def example_funder_def resolveTiers_def)
qed


theorem Fund_change_served_witness:
  "\<exists>xs. Distribute std_lib (NewChangeDistribution 1000 (\<lambda>k m. m)) 8 7001 = Inr xs \<and>
     length xs = 8 \<and> sum_list xs = 7001 \<and> (\<forall>x \<in> set xs. 0 < x)"
proof -
  have "\<forall>rnd. 0 < fr_ChangeOutputsCount example_result \<longrightarrow> (\<forall>k m. rnd k m \<le> m) \<longrightarrow>
        int (fr_ChangeOutputsCount example_result) * fr_ChangeInitialValue example_result \<le> MaxSatoshis \<longrightarrow>
        (\<exists>xs. Distribute std_lib (NewChangeDistribution (fr_ChangeInitialValue example_result) rnd)
             (fr_ChangeOutputsCount example_result) (fr_ChangeAmount example_result) = Inr xs \<and>
           length xs = fr_ChangeOutputsCount example_result \<and>
           sum_list xs = fr_ChangeAmount example_result \<and> (\<forall>x \<in> set xs. 0 < x))"
    using Fund_change_served [OF example_funder_over _ example_fund] by (simp add: example_args_def is_u64_def)
  from spec [OF this, of "\<lambda>k m. m"] show ?thesis by (simp add: example_result_def MaxSatoshis_def)
qed

theorem Fund_claims_witness:
  "\<exists>ps vs. fr_AllocatedUTXOs example_result = map to_utxo (ps @ vs) \<and>
     allocation_ok std_lib [example_row] (\<lambda>_. False) example_args ps vs"
  using Fund_claims [OF example_funder_over _ example_fund] by (auto simp: example_args_def is_u64_def)

theorem Fund_returns_witness: "\<exists>y. FundWithConstraints std_lib example_funder example_args = Some y"
  using Fund_returns [OF example_funder_over, of example_args] by (simp add: example_args_def is_u64_def)

theorem Fund_best_fit_witness:
  "reference_Fund std_lib [example_row] (\<lambda>_. False) example_funder example_args = Some (Inr example_result)"
  using Fund_best_fit [OF example_funder_over, of example_args] example_fund
  by (simp add: example_args_def is_u64_def)

text \<open>
  The dust floor does not hold for every change output. With the default change basket (1000
  satoshis wanted per output, at most 8 outputs) and a fee rate of 1001 sat/kB, a call that
  spends one input of 8522 satoshis for a target of 1000 reports a dust floor of 386 satoshis and
  8 change outputs, and the distribution of its change creates an output of a single satoshi:
  \<open>changeFitsOutputs\<close> compares the floor with the average output, not with the smallest one.
\<close>

theorem change_output_below_dust_floor:
  "\<exists>r. FundWithConstraints std_lib example_funder example_args = Some (Inr r) \<and> fr_DustFloor r = 386 \<and>
     Distribute std_lib (NewChangeDistribution (fr_ChangeInitialValue r) rnd)
       (fr_ChangeOutputsCount r) (fr_ChangeAmount r) = Inr (1 # replicate 7 1000)"
proof -
  have "Distribute std_lib (NewChangeDistribution 1000 rnd) 8 7001 = Inr (1 # replicate 7 1000)"
    by (simp add: Distribute_def CanDistribute_def notSaturatedDistribution_def NewChangeDistribution_def
        MustMultiply_def Multiply_def std_lib_def example_arith Let_def)
  then show ?thesis using example_fund by (simp add: example_result_def)
qed

end
