(* ===== verification/Broadcast_Result.thy ===== *)
theory Broadcast_Result
  imports Tx_Status
begin

text \<open>
  The aggregation of broadcast results, \<open>pkg/wdk/services_post_from_beef.go\<close> and
  \<open>pkg/wdk/services_aggregated_postebeef_result.go\<close>: every broadcaster reports a status per
  transaction id, and one verdict per transaction id is computed from all the reports.
\<close>

section \<open>Definitions\<close>

datatype posted_txid_result_status =
    PostedTxIDResultSuccess
  | PostedTxIDResultError
  | PostedTxIDResultAlreadyKnown
  | PostedTxIDResultDoubleSpend
  | PostedTxIDResultMissingInputs
  | PostedTxIDResultOther string

text \<open>A history note; its attributes are a Go map, kept as an association list with distinct keys.\<close>

datatype note_value = NoteString string | NoteInt int

record history_note =
  hn_UserID :: "int option"
  hn_What :: string
  hn_Attributes :: "(string \<times> note_value) list"

text \<open>
  The fields of \<open>PostedTxID\<close> that carry block information and raw data are copied
  through and never read; \<open>pt_error\<close> is \<open>Error != nil\<close>.
\<close>

record posted_txid =
  pt_result :: posted_txid_result_status
  pt_txid :: string
  pt_double_spend :: bool
  pt_competing_txs :: "string list"
  pt_error :: bool
  pt_notes :: "history_note list"

text \<open>\<open>PostFromBEEFServiceResult\<close>: the posted results (nil or a list) and \<open>Error != nil\<close>.\<close>

record post_service_result =
  ps_name :: string
  ps_posted :: "posted_txid list option"
  ps_error :: bool

definition PostFromBEEFServiceResult_Success :: "post_service_result \<Rightarrow> bool" where
  "PostFromBEEFServiceResult_Success it \<longleftrightarrow> ps_posted it \<noteq> None \<and> \<not> ps_error it"

definition PostFromBeefResult_Success :: "post_service_result list \<Rightarrow> bool" where
  "PostFromBeefResult_Success results \<longleftrightarrow> list_ex PostFromBEEFServiceResult_Success results"

text \<open>The map of \<open>ServiceErrors\<close>: a later result of the same service name overwrites.\<close>

fun ServiceErrors :: "post_service_result list \<Rightarrow> (string \<rightharpoonup> unit)" where
  "ServiceErrors [] = Map.empty"
| "ServiceErrors (r # rs) =
     (if ps_error r then Map.empty(ps_name r \<mapsto> ()) else Map.empty) ++ ServiceErrors rs"

datatype aggregated_status =
    AggregatedPostedTxIDNone
  | AggregatedPostedTxIDSuccess
  | AggregatedPostedTxIDDoubleSpend
  | AggregatedPostedTxIDInvalidTx
  | AggregatedPostedTxIDServiceError

record aggregated_txid =
  ag_results :: "posted_txid list"
  ag_status :: aggregated_status
  ag_success :: nat
  ag_double_spend :: nat
  ag_status_error :: nat
  ag_service_error :: nat
  ag_competing :: "string set"

type_synonym aggregated = "string \<rightharpoonup> aggregated_txid"

definition empty_aggregated_txid :: aggregated_txid where
  "empty_aggregated_txid =
     \<lparr>ag_results = [], ag_status = AggregatedPostedTxIDNone, ag_success = 0, ag_double_spend = 0,
      ag_status_error = 0, ag_service_error = 0, ag_competing = {}\<rparr>"

definition getOrDefault :: "aggregated \<Rightarrow> string \<Rightarrow> aggregated_txid" where
  "getOrDefault a txid = (case a txid of Some agg \<Rightarrow> agg | None \<Rightarrow> empty_aggregated_txid)"

definition summarize :: "aggregated \<Rightarrow> string \<Rightarrow> aggregated" where
  "summarize a txID = (case a txID of
     None \<Rightarrow> a(txID \<mapsto> empty_aggregated_txid\<lparr>ag_status := AggregatedPostedTxIDServiceError\<rparr>)
   | Some agg \<Rightarrow> a(txID \<mapsto> agg\<lparr>ag_status :=
       (if ag_double_spend agg > 0 then AggregatedPostedTxIDDoubleSpend
        else if ag_success agg > 0 then AggregatedPostedTxIDSuccess
        else if ag_service_error agg > 0 then AggregatedPostedTxIDServiceError
        else AggregatedPostedTxIDInvalidTx)\<rparr>))"

text \<open>\<open>mapped[txIDResult.TxID] = &txIDResult\<close>: the last report of a service for a txid wins.\<close>

fun mapped_results :: "posted_txid list \<Rightarrow> (string \<rightharpoonup> posted_txid)" where
  "mapped_results [] = Map.empty"
| "mapped_results (r # rs) = Map.empty(pt_txid r \<mapsto> r) ++ mapped_results rs"

definition count_report :: "posted_txid \<Rightarrow> aggregated_txid \<Rightarrow> aggregated_txid" where
  "count_report r agg =
     (let agg = agg\<lparr>ag_results := ag_results agg @ [r]\<rparr> in
      if pt_result r = PostedTxIDResultSuccess \<or> pt_result r = PostedTxIDResultAlreadyKnown then
        agg\<lparr>ag_success := ag_success agg + 1\<rparr>
      else if pt_double_spend r then
        agg\<lparr>ag_double_spend := ag_double_spend agg + 1,
            ag_competing := ag_competing agg \<union> set (pt_competing_txs r)\<rparr>
      else if pt_error r then agg\<lparr>ag_service_error := ag_service_error agg + 1\<rparr>
      else agg\<lparr>ag_status_error := ag_status_error agg + 1\<rparr>)"

fun count_service :: "(string \<rightharpoonup> posted_txid) \<Rightarrow> string list \<Rightarrow> aggregated \<Rightarrow> aggregated" where
  "count_service mapped [] a = a"
| "count_service mapped (txid # txids) a = (case mapped txid of
     None \<Rightarrow> count_service mapped txids a
   | Some r \<Rightarrow> count_service mapped txids (a(txid \<mapsto> count_report r (getOrDefault a txid))))"

fun count_services :: "post_service_result list \<Rightarrow> string list \<Rightarrow> aggregated \<Rightarrow> aggregated" where
  "count_services [] txids a = a"
| "count_services (result # results) txids a = (case ps_posted result of
     Some posted \<Rightarrow>
       (if ps_error result then count_services results txids a
        else count_services results txids (count_service (mapped_results posted) txids a))
   | None \<Rightarrow> count_services results txids a)"

fun summarize_all :: "string list \<Rightarrow> aggregated \<Rightarrow> aggregated" where
  "summarize_all [] a = a"
| "summarize_all (txid # txids) a = summarize_all txids (summarize a txid)"

definition newAggregatedPostFromBEEF :: "post_service_result list \<Rightarrow> string list \<Rightarrow> aggregated" where
  "newAggregatedPostFromBEEF results txids =
     summarize_all txids (count_services results txids Map.empty)"

section \<open>Specification\<close>

text \<open>The reports on a transaction id, one per successful service that mentions it, in order.\<close>

definition service_report :: "string \<Rightarrow> post_service_result \<Rightarrow> posted_txid list" where
  "service_report txid result = (case ps_posted result of
     None \<Rightarrow> []
   | Some posted \<Rightarrow> (if ps_error result then [] else
       (case mapped_results posted txid of None \<Rightarrow> [] | Some r \<Rightarrow> [r])))"

definition reports :: "post_service_result list \<Rightarrow> string \<Rightarrow> posted_txid list" where
  "reports results txid = concat (map (service_report txid) results)"

definition accepted_report :: "posted_txid \<Rightarrow> bool" where
  "accepted_report r \<longleftrightarrow>
     pt_result r = PostedTxIDResultSuccess \<or> pt_result r = PostedTxIDResultAlreadyKnown"

definition conflict_report :: "posted_txid \<Rightarrow> bool" where
  "conflict_report r \<longleftrightarrow> \<not> accepted_report r \<and> pt_double_spend r"

definition error_report :: "posted_txid \<Rightarrow> bool" where
  "error_report r \<longleftrightarrow> \<not> accepted_report r \<and> \<not> pt_double_spend r \<and> pt_error r"

definition verdict :: "posted_txid list \<Rightarrow> aggregated_status" where
  "verdict rs =
     (if rs = [] then AggregatedPostedTxIDServiceError
      else if list_ex conflict_report rs then AggregatedPostedTxIDDoubleSpend
      else if list_ex accepted_report rs then AggregatedPostedTxIDSuccess
      else if list_ex error_report rs then AggregatedPostedTxIDServiceError
      else AggregatedPostedTxIDInvalidTx)"

section \<open>Correctness\<close>

definition count_reports :: "posted_txid list \<Rightarrow> aggregated_txid \<Rightarrow> aggregated_txid" where
  "count_reports rs agg = fold count_report rs agg"

lemma count_service_lookup:
  "distinct txids \<Longrightarrow> count_service mapped txids a txid =
     (if txid \<in> set txids then
        (case mapped txid of None \<Rightarrow> a txid | Some r \<Rightarrow> Some (count_report r (getOrDefault a txid)))
      else a txid)"
  by (induction txids arbitrary: a) (auto simp: getOrDefault_def split: option.splits)

lemma reports_simps [simp]:
  "reports [] txid = []"
  "reports (r # rs) txid = service_report txid r @ reports rs txid"
  by (simp_all add: reports_def)

lemma count_reports_simps [simp]:
  "count_reports [] agg = agg"
  "count_reports (r # rs) agg = count_reports rs (count_report r agg)"
  by (simp_all add: count_reports_def)

lemma count_services_lookup:
  "distinct txids \<Longrightarrow> txid \<in> set txids \<Longrightarrow>
   count_services results txids a txid =
     (if reports results txid = [] then a txid
      else Some (count_reports (reports results txid) (getOrDefault a txid)))"
proof (induction results arbitrary: a)
  case (Cons r rs)
  then show ?case
    by (auto simp: service_report_def count_service_lookup getOrDefault_def split: option.splits)
qed simp

lemma summarize_all_notin: "txid \<notin> set txids \<Longrightarrow> summarize_all txids a txid = a txid"
  by (induction txids arbitrary: a) (auto simp: summarize_def split: option.splits)

lemma summarize_cong: "a txid = b txid \<Longrightarrow> summarize a txid txid = summarize b txid txid"
  by (auto simp: summarize_def split: option.splits)

lemma summarize_all_lookup:
  "distinct txids \<Longrightarrow> txid \<in> set txids \<Longrightarrow> summarize_all txids a txid = summarize a txid txid"
proof (induction txids arbitrary: a)
  case (Cons x xs)
  show ?case
  proof (cases "x = txid")
    case True
    with Cons.prems show ?thesis by (simp add: summarize_all_notin)
  next
    case False
    then have "summarize a x txid = a txid"
      by (auto simp: summarize_def split: option.splits)
    with False Cons show ?thesis by (auto intro: summarize_cong)
  qed
qed simp

lemma count_reports_counts:
  "ag_double_spend (count_reports rs agg) = ag_double_spend agg + length (filter conflict_report rs) \<and>
   ag_success (count_reports rs agg) = ag_success agg + length (filter accepted_report rs) \<and>
   ag_service_error (count_reports rs agg) = ag_service_error agg + length (filter error_report rs) \<and>
   ag_results (count_reports rs agg) = ag_results agg @ rs \<and>
   ag_competing (count_reports rs agg) =
     ag_competing agg \<union> (\<Union>r \<in> set (filter conflict_report rs). set (pt_competing_txs r))"
proof (induction rs arbitrary: agg)
  case (Cons r rs)
  show ?case
    using Cons [of "count_report r agg"]
    by (auto simp: count_report_def Let_def conflict_report_def
        accepted_report_def error_report_def)
qed simp

text \<open>
  The aggregated verdict on a transaction id depends only on the reports of the successful
  services that mention it: it is a service error when there is none, a double spend as soon as
  one of them reports a conflict, otherwise a success if one of them accepted or already knew
  the transaction, otherwise a service error if one of them failed, and invalid only when every
  report is a plain rejection. The reports and the competing transactions of all conflicts are
  kept.
\<close>

theorem aggregated_verdict:
  assumes "distinct txids" and "txid \<in> set txids"
  shows "\<exists>agg. newAggregatedPostFromBEEF results txids txid = Some agg \<and>
    ag_status agg = verdict (reports results txid) \<and>
    ag_results agg = reports results txid \<and>
    ag_competing agg =
      (\<Union>r \<in> set (filter conflict_report (reports results txid)). set (pt_competing_txs r))"
proof -
  let ?rs = "reports results txid"
  have look: "count_services results txids Map.empty txid =
      (if ?rs = [] then None else Some (count_reports ?rs empty_aggregated_txid))"
    using count_services_lookup [OF assms] by (simp add: getOrDefault_def)
  have counts: "length (filter P ?rs) > 0 \<longleftrightarrow> list_ex P ?rs" for P
    by (auto simp: list_ex_iff filter_empty_conv)
  show ?thesis
    using assms count_reports_counts [of ?rs empty_aggregated_txid]
    by (auto simp: newAggregatedPostFromBEEF_def summarize_all_lookup summarize_def look
        verdict_def counts [symmetric] empty_aggregated_txid_def)
qed

theorem aggregated_verdict_witness:
  "ag_status (the (newAggregatedPostFromBEEF
     [\<lparr>ps_name = ''arc'', ps_posted = Some [\<lparr>pt_result = PostedTxIDResultSuccess, pt_txid = ''t'',
        pt_double_spend = False, pt_competing_txs = [], pt_error = False, pt_notes = []\<rparr>], ps_error = False\<rparr>,
      \<lparr>ps_name = ''woc'', ps_posted = Some [\<lparr>pt_result = PostedTxIDResultDoubleSpend, pt_txid = ''t'',
        pt_double_spend = True, pt_competing_txs = [''u''], pt_error = False, pt_notes = []\<rparr>], ps_error = False\<rparr>]
     [''t''] ''t'')) = AggregatedPostedTxIDDoubleSpend"
proof -
  let ?rs = "[\<lparr>ps_name = ''arc'', ps_posted = Some [\<lparr>pt_result = PostedTxIDResultSuccess, pt_txid = ''t'',
        pt_double_spend = False, pt_competing_txs = [], pt_error = False, pt_notes = []\<rparr>], ps_error = False\<rparr>,
      \<lparr>ps_name = ''woc'', ps_posted = Some [\<lparr>pt_result = PostedTxIDResultDoubleSpend, pt_txid = ''t'',
        pt_double_spend = True, pt_competing_txs = [''u''], pt_error = False, pt_notes = []\<rparr>], ps_error = False\<rparr>]"
  have "verdict (reports ?rs ''t'') = AggregatedPostedTxIDDoubleSpend"
    by (simp add: service_report_def verdict_def conflict_report_def accepted_report_def)
  then show ?thesis
    using aggregated_verdict [of "[''t'']" "''t''" ?rs] by auto
qed

text \<open>
  The verdicts are only meaningful for a list of distinct transaction ids: with a repeated
  id that no service reported, the second summarising pass finds the entry the first one made
  and turns the service error into the permanent verdict \<open>invalidTx\<close>.
\<close>

theorem repeated_txid_becomes_invalid:
  "map_option ag_status (newAggregatedPostFromBEEF [] [t] t) = Some AggregatedPostedTxIDServiceError \<and>
   map_option ag_status (newAggregatedPostFromBEEF [] [t, t] t) = Some AggregatedPostedTxIDInvalidTx"
  by (simp add: newAggregatedPostFromBEEF_def summarize_def empty_aggregated_txid_def)

end
