(* ===== verification/History_Note.thy ===== *)
theory History_Note
  imports Tx_Status Broadcast_Result "HOL-Library.AList"
begin

text \<open>
  The history notes of \<open>pkg/internal/storage/history/history_note.go\<close>: the builder and one
  constructor per kind of event. The attributes of a note are a Go map; the model keeps them as an
  association list that \<open>AList.update\<close> writes to, so a key occurs at most once. The time of the
  event is not modelled: the note stored in the database gets the time of its row.
\<close>

record tx_history_note =
  thn_TxID :: string
  thn_Note :: history_note

text \<open>The strings behind the status constants.\<close>

fun proven_status_string :: "proven_tx_req_status \<Rightarrow> string" where
  "proven_status_string ProvenTxStatusSending = ''sending''"
| "proven_status_string ProvenTxStatusUnsent = ''unsent''"
| "proven_status_string ProvenTxStatusNoSend = ''nosend''"
| "proven_status_string ProvenTxStatusUnknown = ''unknown''"
| "proven_status_string ProvenTxStatusNonFinal = ''nonfinal''"
| "proven_status_string ProvenTxStatusUnprocessed = ''unprocessed''"
| "proven_status_string ProvenTxStatusUnmined = ''unmined''"
| "proven_status_string ProvenTxStatusCallback = ''callback''"
| "proven_status_string ProvenTxStatusUnconfirmed = ''unconfirmed''"
| "proven_status_string ProvenTxStatusCompleted = ''completed''"
| "proven_status_string ProvenTxStatusInvalid = ''invalidTx''"
| "proven_status_string ProvenTxStatusDoubleSpend = ''doubleSpend''"
| "proven_status_string ProvenTxStatusUnfail = ''unfail''"
| "proven_status_string ProvenTxStatusReorg = ''reorg''"
| "proven_status_string (ProvenTxStatusOther s) = s"

fun aggregated_status_string :: "aggregated_status \<Rightarrow> string" where
  "aggregated_status_string AggregatedPostedTxIDNone = ''''"
| "aggregated_status_string AggregatedPostedTxIDSuccess = ''success''"
| "aggregated_status_string AggregatedPostedTxIDDoubleSpend = ''doubleSpend''"
| "aggregated_status_string AggregatedPostedTxIDInvalidTx = ''invalidTx''"
| "aggregated_status_string AggregatedPostedTxIDServiceError = ''serviceError''"

definition NewBuilder :: history_note where
  "NewBuilder = \<lparr>hn_UserID = None, hn_What = '''', hn_Attributes = []\<rparr>"

definition WithWhat :: "string \<Rightarrow> history_note \<Rightarrow> history_note" where
  "WithWhat what b = b\<lparr>hn_What := what\<rparr>"

definition WithUser :: "int \<Rightarrow> history_note \<Rightarrow> history_note" where
  "WithUser userID b = b\<lparr>hn_UserID := Some userID\<rparr>"

definition WithAttribute :: "string \<Rightarrow> note_value \<Rightarrow> history_note \<Rightarrow> history_note" where
  "WithAttribute key v b = b\<lparr>hn_Attributes := AList.update key v (hn_Attributes b)\<rparr>"

definition WithNewStatus :: "string \<Rightarrow> history_note \<Rightarrow> history_note" where
  "WithNewStatus status b = WithAttribute ''status_now'' (NoteString status) b"

definition Note_Entity :: "string \<Rightarrow> history_note \<Rightarrow> tx_history_note" where
  "Note_Entity txID b = \<lparr>thn_TxID = txID, thn_Note = b\<rparr>"

fun http_StatusText :: "int \<Rightarrow> string" where
  "http_StatusText status = (if status = 200 then ''OK'' else if status = 404 then ''Not Found'' else '''')"

definition withHttpAttributes :: "int \<Rightarrow> history_note \<Rightarrow> history_note" where
  "withHttpAttributes status b =
     WithAttribute ''statusText'' (NoteString (http_StatusText status))
       (WithAttribute ''status'' (NoteInt status) b)"

fun strings_Join :: "string list \<Rightarrow> string \<Rightarrow> string" where
  "strings_Join [] sep = []"
| "strings_Join [w] sep = w"
| "strings_Join (w # ws) sep = w @ sep @ strings_Join ws sep"

definition note_InternalizeAction :: "int \<Rightarrow> history_note" where
  "note_InternalizeAction userID = WithUser userID (WithWhat ''internalizeAction'' NewBuilder)"

definition note_ProcessAction :: "int \<Rightarrow> history_note" where
  "note_ProcessAction userID = WithUser userID (WithWhat ''processAction'' NewBuilder)"

definition note_AbortBeforeBroadcast :: "proven_tx_req_status \<Rightarrow> history_note" where
  "note_AbortBeforeBroadcast newStatus =
     WithNewStatus (proven_status_string newStatus) (WithWhat ''abortBeforeBroadcast'' NewBuilder)"

record aggregated_broadcast_result =
  abr_StatusNow :: proven_tx_req_status
  abr_AggStatus :: aggregated_status
  abr_SuccessCount :: int
  abr_DoubleSpendCount :: int
  abr_StatusErrorCount :: int
  abr_ServiceErrorCount :: int

text \<open>\<open>WithAttributesFromObj\<close> of an \<open>AggregatedBroadcastResult\<close>: one attribute per field, under the
  name in the field's \<open>mapstructure\<close> tag.\<close>

definition note_AggregateResults :: "aggregated_broadcast_result \<Rightarrow> history_note" where
  "note_AggregateResults r =
     WithAttribute ''serviceErrorCount'' (NoteInt (abr_ServiceErrorCount r))
     (WithAttribute ''statusErrorCount'' (NoteInt (abr_StatusErrorCount r))
     (WithAttribute ''doubleSpendCount'' (NoteInt (abr_DoubleSpendCount r))
     (WithAttribute ''successCount'' (NoteInt (abr_SuccessCount r))
     (WithAttribute ''aggStatus'' (NoteString (aggregated_status_string (abr_AggStatus r)))
     (WithAttribute ''status_now'' (NoteString (proven_status_string (abr_StatusNow r)))
     (WithWhat ''aggregateResults'' NewBuilder))))))"

definition note_GetMerklePathSuccess :: "string \<Rightarrow> history_note" where
  "note_GetMerklePathSuccess serviceName =
     WithAttribute ''name'' (NoteString serviceName)
       (WithWhat ''getMerklePathSuccess'' (withHttpAttributes 200 NewBuilder))"

definition note_GetMerklePathNotFound :: "string \<Rightarrow> history_note" where
  "note_GetMerklePathNotFound serviceName =
     WithAttribute ''name'' (NoteString serviceName)
       (WithWhat ''getMerklePathNotFound'' (withHttpAttributes 404 NewBuilder))"

definition note_ServiceFetchedWhileGettingBeef :: "string \<Rightarrow> history_note" where
  "note_ServiceFetchedWhileGettingBeef subjectTxID =
     WithAttribute ''subject_txid'' (NoteString subjectTxID)
       (WithWhat ''serviceFetchedWhileGettingBeef'' (withHttpAttributes 200 NewBuilder))"

definition note_PostBeefError :: "string \<Rightarrow> string \<Rightarrow> string list \<Rightarrow> string \<Rightarrow> history_note" where
  "note_PostBeefError serviceName hex txIDs msg =
     WithAttribute ''message'' (NoteString msg)
     (WithAttribute ''txids'' (NoteString (strings_Join txIDs '',''))
     (WithAttribute ''hex'' (NoteString hex)
     (WithAttribute ''name'' (NoteString serviceName)
     (WithWhat ''postBeefError'' NewBuilder))))"

definition note_PostBeefSuccess :: "string \<Rightarrow> string list \<Rightarrow> history_note" where
  "note_PostBeefSuccess serviceName txIDs =
     WithAttribute ''txids'' (NoteString (strings_Join txIDs '',''))
     (WithAttribute ''name'' (NoteString serviceName)
     (WithWhat ''postBeefSuccess'' NewBuilder))"

definition note_ReorgInvalidatedProof :: "string \<Rightarrow> history_note" where
  "note_ReorgInvalidatedProof orhpanedBlockHash =
     WithNewStatus (proven_status_string ProvenTxStatusReorg)
       (WithAttribute ''orhpaned_block_hash'' (NoteString orhpanedBlockHash)
         (WithWhat ''reorgInvalidatedProof'' NewBuilder))"

definition note_NotifyTxOfProof :: "nat \<Rightarrow> history_note" where
  "note_NotifyTxOfProof transactionID =
     WithAttribute ''transactionId'' (NoteInt (int transactionID)) (WithWhat ''notifyTxOfProof'' NewBuilder)"

text \<open>The attribute under which a note records the status it leads to.\<close>

definition note_status_now :: "history_note \<Rightarrow> note_value option" where
  "note_status_now n = map_of (hn_Attributes n) ''status_now''"

lemma proven_status_string_inj:
  "s \<noteq> ProvenTxStatusOther (proven_status_string s) \<Longrightarrow> t \<noteq> ProvenTxStatusOther (proven_status_string t) \<Longrightarrow>
   proven_status_string s = proven_status_string t \<Longrightarrow> s = t"
  by (cases s; cases t; simp)

lemma note_status_now_simps [simp]:
  "note_status_now (note_AbortBeforeBroadcast s) = Some (NoteString (proven_status_string s))"
  "note_status_now (note_AggregateResults r) = Some (NoteString (proven_status_string (abr_StatusNow r)))"
  by (simp_all add: note_status_now_def note_AbortBeforeBroadcast_def note_AggregateResults_def
      WithNewStatus_def WithAttribute_def WithWhat_def NewBuilder_def update_conv')

end
