(* ===== verification/Primitives.thy ===== *)
theory Primitives
  imports Prelude
begin

text \<open>
  The wire primitives of \<open>pkg/wdk/primitives\<close>: length-limited strings, hexadecimal and base64
  strings, outpoint strings and byte arrays, with the parts of \<open>encoding/hex\<close>,
  \<open>encoding/base64\<close>, \<open>strings\<close> and \<open>fmt\<close> they use.

  A Go string is a \<open>string\<close> (one \<open>char\<close> per byte), a \<open>[]byte\<close> the list of its byte values.
  \<open>to.UInt64FromString\<close> and \<open>to.UInt32FromString\<close> are third-party functions: the definitions
  that call them take a record \<open>str_lib\<close>, and \<open>str_lib_ok\<close> says what they do on the decimal
  numerals that \<open>fmt\<close> prints.
\<close>

type_synonym bytes = "nat list"

definition is_bytes :: "bytes \<Rightarrow> bool" where
  "is_bytes bs \<longleftrightarrow> (\<forall>b \<in> set bs. b < 256)"

section \<open>Standard library\<close>

subsection \<open>\<open>encoding/hex\<close>\<close>

definition hex_value :: "char \<Rightarrow> nat option" where
  "hex_value c =
     (let n = (of_char c :: nat) in
      if 48 \<le> n \<and> n \<le> 57 then Some (n - 48)
      else if 97 \<le> n \<and> n \<le> 102 then Some (n - 87)
      else if 65 \<le> n \<and> n \<le> 70 then Some (n - 55)
      else None)"

fun hex_DecodeString :: "string \<Rightarrow> bytes result" where
  "hex_DecodeString [] = Inr []"
| "hex_DecodeString [c] =
     (if hex_value c = None then Inl (GoErr ''hex: invalid byte'') else Inl (GoSentinel ''hex.ErrLength''))"
| "hex_DecodeString (c # d # s) = (case hex_value c of
     None \<Rightarrow> Inl (GoErr ''hex: invalid byte'')
   | Some hi \<Rightarrow> (case hex_value d of
       None \<Rightarrow> Inl (GoErr ''hex: invalid byte'')
     | Some lo \<Rightarrow> rbind (hex_DecodeString s) (\<lambda>bs. Inr ((16 * hi + lo) # bs))))"

definition hex_digit :: "nat \<Rightarrow> char" where
  "hex_digit n = ''0123456789abcdef'' ! n"

definition hex_EncodeToString :: "bytes \<Rightarrow> string" where
  "hex_EncodeToString bs = concat (map (\<lambda>b. [hex_digit (b div 16), hex_digit (b mod 16)]) bs)"

subsection \<open>\<open>base64.StdEncoding\<close>\<close>

definition b64_alphabet :: string where
  "b64_alphabet = ''ABCDEFGHIJKLMNOPQRSTUVWXYZabcdefghijklmnopqrstuvwxyz0123456789+/''"

definition b64_char :: "nat \<Rightarrow> char" where
  "b64_char n = b64_alphabet ! n"

definition b64_value :: "char \<Rightarrow> nat option" where
  "b64_value c =
     (let n = (of_char c :: nat) in
      if 65 \<le> n \<and> n \<le> 90 then Some (n - 65)
      else if 97 \<le> n \<and> n \<le> 122 then Some (n - 71)
      else if 48 \<le> n \<and> n \<le> 57 then Some (n + 4)
      else if n = 43 then Some 62
      else if n = 47 then Some 63
      else None)"

fun b64_EncodeToString :: "bytes \<Rightarrow> string" where
  "b64_EncodeToString [] = []"
| "b64_EncodeToString [a] =
     [b64_char (a div 4), b64_char (a mod 4 * 16), CHR ''='', CHR ''='']"
| "b64_EncodeToString [a, b] =
     [b64_char (a div 4), b64_char (a mod 4 * 16 + b div 16), b64_char (b mod 16 * 4), CHR ''='']"
| "b64_EncodeToString (a # b # c # s) =
     b64_char (a div 4) # b64_char (a mod 4 * 16 + b div 16) #
     b64_char (b mod 16 * 4 + c div 64) # b64_char (c mod 64) # b64_EncodeToString s"

text \<open>The decoder works on quanta of four characters; line breaks are dropped wherever they
  stand, and the unused bits of a padded quantum are ignored (the encoding is not strict).\<close>

definition b64_error :: go_error where
  "b64_error = GoErr ''illegal base64 data''"

fun b64_quanta :: "string \<Rightarrow> bytes result" where
  "b64_quanta [] = Inr []"
| "b64_quanta (p # q # r # t # s) = (case (b64_value p, b64_value q) of
     (Some w, Some x) \<Rightarrow>
       if r = CHR ''='' then
         (if t = CHR ''='' \<and> s = [] then Inr [w * 4 + x div 16] else Inl b64_error)
       else (case b64_value r of
         None \<Rightarrow> Inl b64_error
       | Some y \<Rightarrow>
           if t = CHR ''='' then
             (if s = [] then Inr [w * 4 + x div 16, x mod 16 * 16 + y div 4] else Inl b64_error)
           else (case b64_value t of
             None \<Rightarrow> Inl b64_error
           | Some z \<Rightarrow> rbind (b64_quanta s) (\<lambda>bs.
               Inr ((w * 4 + x div 16) # (x mod 16 * 16 + y div 4) # (y mod 4 * 64 + z) # bs))))
   | _ \<Rightarrow> Inl b64_error)"
| "b64_quanta _ = Inl b64_error"

definition b64_DecodeString :: "string \<Rightarrow> bytes result" where
  "b64_DecodeString s = b64_quanta (filter (\<lambda>c. c \<noteq> CHR 0x0A \<and> c \<noteq> CHR 0x0D) s)"

subsection \<open>\<open>strings.Split\<close> at one character, \<open>%d\<close>\<close>

fun strings_Split :: "char \<Rightarrow> string \<Rightarrow> string list" where
  "strings_Split sep [] = [[]]"
| "strings_Split sep (c # s) =
     (if c = sep then [] # strings_Split sep s
      else (case strings_Split sep s of [] \<Rightarrow> [[c]] | w # ws \<Rightarrow> (c # w) # ws))"

definition digit_char :: "nat \<Rightarrow> char" where
  "digit_char d = char_of (48 + d)"

fun show_nat :: "nat \<Rightarrow> string" where
  "show_nat n = (if n < 10 then [digit_char n] else show_nat (n div 10) @ [digit_char (n mod 10)])"

declare show_nat.simps [simp del]

section \<open>\<open>strings.go\<close>\<close>

definition String5to2000Bytes_Validate :: "string \<Rightarrow> unit result" where
  "String5to2000Bytes_Validate d =
     (if length d < 5 then Inl (GoErr ''at least 5 length'')
      else if 2000 < length d then Inl (GoErr ''no more than 2000 length'')
      else Inr ())"

definition has_suffix :: "string \<Rightarrow> string \<Rightarrow> bool" where
  "has_suffix s suf \<longleftrightarrow> length suf \<le> length s \<and> drop (length s - length suf) s = suf"

definition Base64String_Validate :: "string \<Rightarrow> unit result" where
  "Base64String_Validate s =
     (if length s mod 4 \<noteq> 0 then Inl (GoErr ''base64 string length must be divisible by 4'')
      else if has_suffix s ''==='' then Inl (GoErr ''invalid base64 padding'')
      else (case b64_DecodeString s of
        Inl _ \<Rightarrow> Inl (GoErr ''invalid base64 string'')
      | Inr _ \<Rightarrow> Inr ()))"

definition StringUnder50Bytes_Validate :: "string \<Rightarrow> unit result" where
  "StringUnder50Bytes_Validate s =
     (if length s < 1 then Inl (GoErr ''at least 1 length'')
      else if 50 < length s then Inl (GoErr ''no more than 50 length'')
      else Inr ())"

definition StringUnder300_Validate :: "string \<Rightarrow> unit result" where
  "StringUnder300_Validate b =
     (if 300 < length b then Inl (GoErr ''no more than 300 length'')
      else if length b = 0 then Inl (GoErr ''at least 1 length'')
      else Inr ())"

definition hexRegex_match :: "string \<Rightarrow> bool" where
  "hexRegex_match s \<longleftrightarrow> s \<noteq> [] \<and> list_all (\<lambda>c. hex_value c \<noteq> None) s"

definition HexString_Validate :: "string \<Rightarrow> unit result" where
  "HexString_Validate h =
     (if length h mod 2 \<noteq> 0 then Inl (GoErr ''even length'')
      else if \<not> hexRegex_match h then Inl (GoErr ''hexadecimal string'')
      else Inr ())"

definition HexString_ToBytes :: "string \<Rightarrow> bytes result" where
  "HexString_ToBytes h = rwrap ''failed to decode hex string'' (hex_DecodeString h)"

definition PubKeyHex_Validate :: "string \<Rightarrow> unit result" where
  "PubKeyHex_Validate pkh =
     (let pkhHalfLen = length pkh div 2 in
      if pkhHalfLen \<noteq> 33 \<and> pkhHalfLen \<noteq> 65 then Inl (GoErr ''invalid pubKey hex length'')
      else rwrap ''invalid pubKey hex string'' (HexString_Validate pkh))"

section \<open>\<open>bytes32_base64.go\<close>\<close>

definition trim_right_zeros :: "bytes \<Rightarrow> bytes" where
  "trim_right_zeros bs = rev (dropWhile (\<lambda>b. b = 0) (rev bs))"

definition EncodeBytes32Base64 :: "bytes \<Rightarrow> string" where
  "EncodeBytes32Base64 b =
     (let trimmed = trim_right_zeros b in
      b64_EncodeToString (if trimmed = [] then b else trimmed))"

definition DecodeBytes32Base64 :: "string \<Rightarrow> bytes result" where
  "DecodeBytes32Base64 s = rbind (rwrap ''invalid base64'' (b64_DecodeString s)) (\<lambda>decoded.
     if 32 < length decoded then Inl (GoErr ''decoded length exceeds 32 bytes'')
     else Inr (decoded @ replicate (32 - length decoded) 0))"

section \<open>\<open>outpoint.go\<close>\<close>

record str_lib =
  to_UInt64FromString :: "string \<Rightarrow> nat option"
  to_UInt32FromString :: "string \<Rightarrow> nat option"

definition str_lib_ok :: "str_lib \<Rightarrow> bool" where
  "str_lib_ok slib \<longleftrightarrow>
     (\<forall>n. to_UInt64FromString slib (show_nat n) = (if n < 2 ^ 64 then Some n else None)) \<and>
     (\<forall>n. to_UInt32FromString slib (show_nat n) = (if n < 2 ^ 32 then Some n else None))"

definition OutpointString_Validate :: "str_lib \<Rightarrow> string \<Rightarrow> unit result" where
  "OutpointString_Validate slib s =
     (let split = strings_Split CHR ''.'' s in
      if length split \<noteq> 2 then Inl (GoErr ''txid as hexstring and numeric output index joined with dot'')
      else (case to_UInt64FromString slib (split ! 1) of
        None \<Rightarrow> Inl (GoErr ''txid as hexstring and numeric output index joined with dot'')
      | Some _ \<Rightarrow> Inr ()))"

definition OutpointString_Get :: "str_lib \<Rightarrow> string \<Rightarrow> (string \<times> nat) result" where
  "OutpointString_Get slib s =
     (let split = strings_Split CHR ''.'' s in
      if length split \<noteq> 2 then Inl (GoErr ''invalid outpoint string format'')
      else (case to_UInt32FromString slib (split ! 1) of
        None \<Rightarrow> Inl (GoWrap ''invalid vout index'' (GoErr ''to.UInt32FromString''))
      | Some vout32 \<Rightarrow> Inr (split ! 0, vout32)))"

definition OutpointString_MustGet :: "str_lib \<Rightarrow> string \<Rightarrow> (string \<times> nat) result" where
  "OutpointString_MustGet slib s = must (OutpointString_Get slib s)"

definition OutpointString_MustGetTxID :: "str_lib \<Rightarrow> string \<Rightarrow> string result" where
  "OutpointString_MustGetTxID slib s = rbind (must (OutpointString_Get slib s)) (\<lambda>r. Inr (fst r))"

definition OutpointString_MustGetVout :: "str_lib \<Rightarrow> string \<Rightarrow> nat result" where
  "OutpointString_MustGetVout slib s = rbind (must (OutpointString_Get slib s)) (\<lambda>r. Inr (snd r))"

text \<open>\<open>must.ConvertToUInt32\<close> is applied to a \<open>uint32\<close> at every call of the repository, where it is
  the identity.\<close>

definition NewOutpointString :: "string \<Rightarrow> nat \<Rightarrow> string" where
  "NewOutpointString txid vout = txid @ ''.'' @ show_nat vout"

section \<open>\<open>explicit_byte_array.go\<close>\<close>

definition byte_digits :: "nat \<Rightarrow> string" where
  "byte_digits v =
     (if v < 10 then [char_of (48 + v)]
      else if v < 100 then [char_of (48 + v div 10), char_of (48 + v mod 10)]
      else [char_of (48 + v div 100), char_of (48 + v div 10 mod 10), char_of (48 + v mod 10)])"

fun marshal_loop :: "nat \<Rightarrow> bytes \<Rightarrow> string \<Rightarrow> string" where
  "marshal_loop i [] res = res"
| "marshal_loop i (v # b) res =
     marshal_loop (i + 1) b ((if 0 < i then res @ '','' else res) @ byte_digits v)"

definition ExplicitByteArray_MarshalJSON :: "bytes \<Rightarrow> string" where
  "ExplicitByteArray_MarshalJSON b =
     (if length b = 0 then ''[]'' else marshal_loop 0 b ''['' @ '']'')"

definition ExplicitByteArray_Hex :: "bytes \<Rightarrow> string" where
  "ExplicitByteArray_Hex b = hex_EncodeToString b"

section \<open>Hexadecimal strings\<close>

lemma hex_value_digit: "n < 16 \<Longrightarrow> hex_value (hex_digit n) = Some n"
proof -
  have "\<forall>n \<in> set [0..<16]. hex_value (hex_digit n) = Some n" by code_simp
  then show "n < 16 \<Longrightarrow> hex_value (hex_digit n) = Some n" by simp
qed

lemma hex_decode_encode: "is_bytes bs \<Longrightarrow> hex_DecodeString (hex_EncodeToString bs) = Inr bs"
proof (induction bs)
  case Nil
  then show ?case by (simp add: hex_EncodeToString_def)
next
  case (Cons b bs)
  from Cons.prems have "b div 16 < 16" "b mod 16 < 16" and bs: "is_bytes bs"
    by (auto simp: is_bytes_def)
  moreover have "hex_EncodeToString (b # bs) =
      hex_digit (b div 16) # hex_digit (b mod 16) # hex_EncodeToString bs"
    by (simp add: hex_EncodeToString_def)
  ultimately show ?case using Cons.IH [OF bs] by (simp add: hex_value_digit)
qed

lemma hex_decode_iff:
  "(\<exists>bs. hex_DecodeString s = Inr bs) \<longleftrightarrow> even (length s) \<and> list_all (\<lambda>c. hex_value c \<noteq> None) s"
  by (induction s rule: hex_DecodeString.induct) (auto simp: result_simps split: option.splits)

lemma hex_decode_length: "hex_DecodeString s = Inr bs \<Longrightarrow> length s = 2 * length bs \<and> is_bytes bs"
proof (induction s arbitrary: bs rule: hex_DecodeString.induct)
  case 1
  then show ?case by (simp add: is_bytes_def)
next
  case (2 c)
  then show ?case by (simp split: if_splits)
next
  case (3 c d s)
  have small: "hex_value e = Some n \<Longrightarrow> n < 16" for e n
    by (auto simp: hex_value_def Let_def split: if_splits)
  from 3(2) obtain hi lo cs where h: "hex_value c = Some hi" "hex_value d = Some lo"
    and s: "hex_DecodeString s = Inr cs" "bs = (16 * hi + lo) # cs"
    by (auto simp: result_simps split: option.splits)
  from 3(1) [OF h s(1)] have "length s = 2 * length cs \<and> is_bytes cs" .
  moreover have "16 * hi + lo < 256" using small [OF h(1)] small [OF h(2)] by linarith
  ultimately show ?case using s(2) by (simp add: is_bytes_def)
qed

section \<open>Base64\<close>

lemma b64_value_char: "n < 64 \<Longrightarrow> b64_value (b64_char n) = Some n"
proof -
  have "map b64_value b64_alphabet = map Some [0..<64]" by code_simp
  moreover have "length b64_alphabet = 64" by (simp add: b64_alphabet_def)
  ultimately show "n < 64 \<Longrightarrow> b64_value (b64_char n) = Some n"
    unfolding b64_char_def by (metis add_0 diff_zero length_upt nth_map nth_upt)
qed

lemma b64_char_plain:
  assumes "n < 64"
  shows "b64_char n \<noteq> CHR ''=''" "b64_char n \<noteq> CHR 0x0A" "b64_char n \<noteq> CHR 0x0D"
proof -
  have "b64_value (b64_char n) \<noteq> None" using assms by (simp add: b64_value_char)
  moreover have "b64_value CHR ''='' = None" "b64_value CHR 0x0A = None" "b64_value CHR 0x0D = None"
    by code_simp+
  ultimately show "b64_char n \<noteq> CHR ''=''" "b64_char n \<noteq> CHR 0x0A" "b64_char n \<noteq> CHR 0x0D" by metis+
qed

lemma quantum_range:
  fixes a b c :: nat
  assumes "a < 256" "b < 256" "c < 256"
  shows "a div 4 < 64" "a mod 4 * 16 < 64" "a mod 4 * 16 + b div 16 < 64" "b mod 16 * 4 < 64"
    "b mod 16 * 4 + c div 64 < 64" "c mod 64 < 64"
proof -
  have "a mod 4 < 4" "b mod 16 < 16" "b div 16 < 16" "c div 64 < 4" using assms by simp_all
  then show "a mod 4 * 16 + b div 16 < 64" "b mod 16 * 4 + c div 64 < 64" "a mod 4 * 16 < 64"
    "b mod 16 * 4 < 64" by linarith+
qed (use assms in simp_all)

lemma b64_no_breaks:
  "is_bytes bs \<Longrightarrow> filter (\<lambda>c. c \<noteq> CHR 0x0A \<and> c \<noteq> CHR 0x0D) (b64_EncodeToString bs) = b64_EncodeToString bs"
proof (induction bs rule: b64_EncodeToString.induct)
  case (2 a)
  then have "a < 256" by (simp add: is_bytes_def)
  from quantum_range(1,2) [OF this, of 0 0] show ?case by (simp add: b64_char_plain)
next
  case (3 a b)
  then have "a < 256" "b < 256" by (simp_all add: is_bytes_def)
  from quantum_range [OF this, of 0] show ?case by (simp add: b64_char_plain)
next
  case (4 a b c s)
  then have "a < 256" "b < 256" "c < 256" and s: "is_bytes s" by (simp_all add: is_bytes_def)
  from quantum_range [OF this(1-3)] 4(1) [OF s] show ?case by (simp add: b64_char_plain)
qed simp

lemma quantum_bytes:
  fixes a b c :: nat
  assumes "a < 256" "b < 256" "c < 256"
  shows "a div 4 * 4 + (a mod 4 * 16 + b div 16) div 16 = a"
    and "(a mod 4 * 16 + b div 16) mod 16 * 16 + (b mod 16 * 4 + c div 64) div 4 = b"
    and "(b mod 16 * 4 + c div 64) mod 4 * 64 + c mod 64 = c"
proof -
  have lt: "b div 16 < 16" "c div 64 < 4" using assms by simp_all
  have "(a mod 4 * 16 + b div 16) div 16 = a mod 4" "(a mod 4 * 16 + b div 16) mod 16 = b div 16"
    "(b mod 16 * 4 + c div 64) div 4 = b mod 16" "(b mod 16 * 4 + c div 64) mod 4 = c div 64"
    using lt by (simp_all del: mod_mult_self1 add: div_add1_eq [of "_ * _"] mod_add_eq)
  then show "a div 4 * 4 + (a mod 4 * 16 + b div 16) div 16 = a"
    "(a mod 4 * 16 + b div 16) mod 16 * 16 + (b mod 16 * 4 + c div 64) div 4 = b"
    "(b mod 16 * 4 + c div 64) mod 4 * 64 + c mod 64 = c"
    by simp_all
qed

lemma b64_decode_encode: "is_bytes bs \<Longrightarrow> b64_quanta (b64_EncodeToString bs) = Inr bs"
proof (induction bs rule: b64_EncodeToString.induct)
  case (2 a)
  then have "a < 256" by (simp add: is_bytes_def)
  from quantum_range(1,2) [OF this, of 0 0] show ?case by (simp add: b64_value_char)
next
  case (3 a b)
  then have ab: "a < 256" "b < 256" by (simp_all add: is_bytes_def)
  from quantum_range [OF ab, of 0] quantum_bytes [OF ab, of 0] show ?case
    by (simp add: b64_value_char b64_char_plain)
next
  case (4 a b c s)
  then have abc: "a < 256" "b < 256" "c < 256" and s: "is_bytes s" by (simp_all add: is_bytes_def)
  from quantum_range [OF abc] quantum_bytes [OF abc] 4(1) [OF s] show ?case
    by (simp add: b64_value_char b64_char_plain)
qed simp

lemma trim_right_zeros_pad:
  "trim_right_zeros bs @ replicate (length bs - length (trim_right_zeros bs)) 0 = bs"
proof -
  have "takeWhile (\<lambda>b. b = 0) (rev bs) = replicate (length (takeWhile (\<lambda>b. b = 0) (rev bs))) 0"
    by (rule replicate_length_same [symmetric]) (auto dest: set_takeWhileD)
  moreover have "bs = trim_right_zeros bs @ rev (takeWhile (\<lambda>b. b = 0) (rev bs))"
    unfolding trim_right_zeros_def by (metis rev_append rev_rev_ident takeWhile_dropWhile_id)
  ultimately show ?thesis
    by (metis add_diff_cancel_left' length_append length_rev rev_replicate)
qed

lemma trim_right_zeros_bytes: "is_bytes bs \<Longrightarrow> is_bytes (trim_right_zeros bs)"
  by (auto simp: is_bytes_def trim_right_zeros_def dest!: set_dropWhileD)

lemma trim_right_zeros_length: "length (trim_right_zeros bs) \<le> length bs"
  by (metis length_dropWhile_le length_rev trim_right_zeros_def)

section \<open>Outpoint strings\<close>

lemma strings_Split_plain: "sep \<notin> set s \<Longrightarrow> strings_Split sep s = [s]"
  by (induction s) auto

lemma strings_Split_append:
  "sep \<notin> set s \<Longrightarrow> strings_Split sep (s @ sep # t) = s # strings_Split sep t"
  by (induction s) auto

lemma digit_not_dot: "d < 10 \<Longrightarrow> digit_char d \<noteq> CHR ''.''"
proof -
  have "\<forall>d \<in> set [0..<10]. digit_char d \<noteq> CHR ''.''" by code_simp
  then show "d < 10 \<Longrightarrow> digit_char d \<noteq> CHR ''.''" by simp
qed

lemma show_nat_no_dot: "CHR ''.'' \<notin> set (show_nat n)"
proof (induction n rule: show_nat.induct)
  case (1 n)
  have "CHR ''.'' \<noteq> digit_char (n mod 10)" "n < 10 \<Longrightarrow> CHR ''.'' \<noteq> digit_char n"
    using digit_not_dot [of "n mod 10"] digit_not_dot [of n] by auto
  then show ?case using 1 by (subst show_nat.simps) simp
qed

lemma split_outpoint:
  "CHR ''.'' \<notin> set txid \<Longrightarrow> strings_Split CHR ''.'' (NewOutpointString txid vout) = [txid, show_nat vout]"
  using strings_Split_append [of "CHR ''.''" txid "show_nat vout"]
  by (simp add: NewOutpointString_def strings_Split_plain show_nat_no_dot)

text \<open>A concrete parser of decimal numerals that has the documented behaviour.\<close>

definition digit_value :: "char \<Rightarrow> nat option" where
  "digit_value c = (let n = (of_char c :: nat) in if 48 \<le> n \<and> n \<le> 57 then Some (n - 48) else None)"

fun parse_digits :: "nat \<Rightarrow> string \<Rightarrow> nat option" where
  "parse_digits acc [] = Some acc"
| "parse_digits acc (c # s) = (case digit_value c of None \<Rightarrow> None | Some d \<Rightarrow> parse_digits (10 * acc + d) s)"

definition parse_below :: "nat \<Rightarrow> string \<Rightarrow> nat option" where
  "parse_below bound s = (if s = [] then None
     else case parse_digits 0 s of None \<Rightarrow> None | Some n \<Rightarrow> if n < bound then Some n else None)"

definition std_str_lib :: str_lib where
  "std_str_lib = \<lparr>to_UInt64FromString = parse_below (2 ^ 64), to_UInt32FromString = parse_below (2 ^ 32)\<rparr>"

lemma digit_value_char: "d < 10 \<Longrightarrow> digit_value (digit_char d) = Some d"
  by (simp add: digit_value_def digit_char_def Let_def)

lemma parse_digits_snoc:
  "parse_digits acc (s @ [c]) = (case parse_digits acc s of None \<Rightarrow> None
     | Some n \<Rightarrow> (case digit_value c of None \<Rightarrow> None | Some d \<Rightarrow> Some (10 * n + d)))"
  by (induction s arbitrary: acc) (auto split: option.split)

lemma parse_show_nat: "parse_digits 0 (show_nat n) = Some n"
proof (induction n rule: show_nat.induct)
  case (1 n)
  then show ?case
    by (subst show_nat.simps) (simp add: parse_digits_snoc digit_value_char)
qed

lemma show_nat_nonempty: "show_nat n \<noteq> []"
  by (subst show_nat.simps) simp

lemma std_str_lib_ok: "str_lib_ok std_str_lib"
  by (simp add: str_lib_ok_def std_str_lib_def parse_below_def parse_show_nat show_nat_nonempty)

section \<open>Byte arrays\<close>

lemma byte_digits_show: "v < 256 \<Longrightarrow> byte_digits v = show_nat v"
proof -
  assume v: "v < 256"
  show ?thesis
  proof (cases "v < 100")
    case True
    then have "v div 10 < 10" by simp
    with True show ?thesis
      by (cases "v < 10") (simp_all add: byte_digits_def digit_char_def show_nat.simps [of v] show_nat.simps [of "v div 10"])
  next
    case False
    moreover have "v div 10 div 10 = v div 100" by (simp add: div_mult2_eq [symmetric])
    moreover have "\<not> v div 10 < 10" "v div 100 < 10" using False v by simp_all
    ultimately show ?thesis
      by (simp add: byte_digits_def digit_char_def show_nat.simps [of v] show_nat.simps [of "v div 10"]
          show_nat.simps [of "v div 100"])
  qed
qed

fun join_comma :: "string list \<Rightarrow> string" where
  "join_comma [] = []"
| "join_comma [w] = w"
| "join_comma (w # ws) = w @ '','' @ join_comma ws"

lemma marshal_loop_pos:
  "is_bytes b \<Longrightarrow> 0 < i \<Longrightarrow> marshal_loop i b res = res @ concat (map (\<lambda>v. '','' @ show_nat v) b)"
  by (induction b arbitrary: i res) (auto simp: is_bytes_def byte_digits_show)

lemma join_comma_concat:
  "join_comma (w # ws) = w @ concat (map (\<lambda>v. '','' @ v) ws)"
  by (induction ws arbitrary: w) auto

section \<open>Properties\<close>

text \<open>A \<open>[32]byte\<close> value survives the base64 wire format: encoding drops its trailing zero
  bytes, decoding puts them back.\<close>

theorem Bytes32Base64_roundtrip:
  assumes "length b = 32" and "is_bytes b"
  shows "DecodeBytes32Base64 (EncodeBytes32Base64 b) = Inr b"
proof -
  define t where "t = (if trim_right_zeros b = [] then b else trim_right_zeros b)"
  have "is_bytes t" using assms(2) by (simp add: t_def trim_right_zeros_bytes)
  then have "b64_DecodeString (EncodeBytes32Base64 b) = Inr t"
    by (simp add: EncodeBytes32Base64_def t_def [symmetric] b64_DecodeString_def Let_def b64_no_breaks
        b64_decode_encode del: if_split)
  moreover have "length t \<le> 32" and "t @ replicate (32 - length t) 0 = b"
    using assms(1) trim_right_zeros_length [of b] trim_right_zeros_pad [of b] by (auto simp: t_def)
  ultimately show ?thesis by (simp add: DecodeBytes32Base64_def)
qed

theorem Bytes32Base64_roundtrip_witness:
  "DecodeBytes32Base64 (EncodeBytes32Base64 (7 # replicate 31 0)) = Inr (7 # replicate 31 0)"
  by (rule Bytes32Base64_roundtrip) (simp_all add: is_bytes_def)

text \<open>\<open>HexString.Validate\<close> accepts exactly the non-empty strings that \<open>ToBytes\<close> decodes, the
  decoded value has half the length of the string, and every byte array is decoded from its own
  hexadecimal representation.\<close>

theorem HexString_Validate_ToBytes:
  "(HexString_Validate h = Inr () \<longleftrightarrow> h \<noteq> [] \<and> (\<exists>bs. HexString_ToBytes h = Inr bs)) \<and>
   (HexString_ToBytes h = Inr bs \<longrightarrow> length h = 2 * length bs) \<and>
   (is_bytes bs \<longrightarrow> HexString_ToBytes (ExplicitByteArray_Hex bs) = Inr bs)"
  using hex_decode_iff [of h] hex_decode_length [of h bs] hex_decode_encode [of bs]
  by (auto simp: HexString_Validate_def HexString_ToBytes_def hexRegex_match_def ExplicitByteArray_Hex_def
      even_iff_mod_2_eq_zero split: if_splits)

theorem HexString_Validate_ToBytes_witness:
  "HexString_ToBytes (ExplicitByteArray_Hex [222, 173]) = Inr [222, 173] \<and>
   HexString_Validate ''dead'' = Inr () \<and> length ''dead'' = 2 * length [222, 173 :: nat]"
proof -
  have dec: "HexString_ToBytes ''dead'' = Inr [222, 173]" by code_simp
  have "is_bytes [222, 173]" by (simp add: is_bytes_def)
  with HexString_Validate_ToBytes [of "''dead''" "[222, 173]"] dec show ?thesis by blast
qed

text \<open>Printing an outpoint and parsing it gives the outpoint back, and validation accepts it;
  but validation reads the index as a 64-bit number and parsing as a 32-bit one, so an index from
  $2^{32}$ on is accepted by \<open>Validate\<close> and makes \<open>MustGet\<close> panic.\<close>

theorem Outpoint_roundtrip:
  assumes "str_lib_ok slib" and "CHR ''.'' \<notin> set txid"
  shows "(vout < 2 ^ 32 \<longrightarrow> OutpointString_Get slib (NewOutpointString txid vout) = Inr (txid, vout)) \<and>
    (vout < 2 ^ 64 \<longrightarrow> OutpointString_Validate slib (NewOutpointString txid vout) = Inr ()) \<and>
    (2 ^ 32 \<le> vout \<longrightarrow> OutpointString_MustGet slib (NewOutpointString txid vout) = Inl (GoPanic ''must''))"
  using assms
  by (simp add: str_lib_ok_def OutpointString_Get_def OutpointString_Validate_def
      OutpointString_MustGet_def split_outpoint)

theorem Outpoint_roundtrip_witness:
  "OutpointString_Get std_str_lib (NewOutpointString ''ab'' 7) = Inr (''ab'', 7) \<and>
   OutpointString_Validate std_str_lib (NewOutpointString ''ab'' 4294967296) = Inr () \<and>
   OutpointString_MustGet std_str_lib (NewOutpointString ''ab'' 4294967296) = Inl (GoPanic ''must'')"
  using Outpoint_roundtrip [OF std_str_lib_ok, of "''ab''" 7]
    Outpoint_roundtrip [OF std_str_lib_ok, of "''ab''" 4294967296]
  by simp

text \<open>The JSON form of a byte array is the list of its bytes as decimal numerals, separated by
  commas, in brackets.\<close>

theorem MarshalJSON_decimal:
  assumes "is_bytes b"
  shows "ExplicitByteArray_MarshalJSON b = ''['' @ join_comma (map show_nat b) @ '']''"
proof (cases b)
  case Nil
  then show ?thesis by (simp add: ExplicitByteArray_MarshalJSON_def)
next
  case (Cons v vs)
  with assms have "v < 256" "is_bytes vs" by (auto simp: is_bytes_def)
  with Cons show ?thesis
    by (simp add: ExplicitByteArray_MarshalJSON_def marshal_loop_pos byte_digits_show join_comma_concat
        comp_def)
qed

theorem MarshalJSON_decimal_witness:
  "ExplicitByteArray_MarshalJSON [7, 42, 255] = ''[7,42,255]''"
proof -
  have "ExplicitByteArray_MarshalJSON [7, 42, 255] = ''['' @ join_comma (map show_nat [7, 42, 255]) @ '']''"
    by (rule MarshalJSON_decimal) (simp add: is_bytes_def)
  also have "\<dots> = ''[7,42,255]''" by code_simp
  finally show ?thesis .
qed

end
