(* ===== verification/Storage_DB.thy ===== *)
theory Storage_DB
  imports History_Note Primitives Utxo_Repo Tx_Size
begin

text \<open>
  The tables of the storage (\<open>pkg/internal/storage/database/models\<close>) as lists of rows, and the
  database as the record of its tables.

  \<^item> The rows of a table are listed in the order a query without \<open>ORDER BY\<close> returns them.
  \<^item> Rows of \<open>Transaction\<close> and \<open>Output\<close> are never deleted by the modelled code, so the soft-delete
    column is left out. Of the time columns the model keeps those a query reads.
  \<^item> The many-to-many links to labels and tags are a field of the row.
  \<^item> \<open>db_Now\<close> is the clock of the database, \<open>db_NextTransactionID\<close> and \<open>db_NextOutputID\<close> are the
    sequences of the primary keys.
  \<^item> The engine itself does not fail: an operation reports an error where the code does. An operation
    that runs in one database transaction is a function \<open>database \<Rightarrow> ('a \<times> database) result\<close>; \<open>Inl\<close>
    rolls back. A longer flow is a function \<open>database \<Rightarrow> 'a result \<times> database\<close>: what it committed
    before an error stays.
  \<^item> \<open>RowsAffected\<close> of an update is the number of rows its \<open>WHERE\<close> clause matched.
\<close>

section \<open>Rows\<close>

record transaction_row =
  tr_ID :: nat
  tr_CreatedAt :: int
  tr_UserID :: int
  tr_Status :: tx_status
  tr_Reference :: string
  tr_IsOutgoing :: bool
  tr_Satoshis :: int
  tr_Description :: string
  tr_Version :: nat
  tr_LockTime :: nat
  tr_TxID :: "string option"
  tr_InputBeef :: "bytes option"
  tr_Labels :: "string list"

record output_row =
  or_ID :: nat
  or_CreatedAt :: int
  or_UserID :: int
  or_TransactionID :: nat
  or_SpentBy :: "nat option"
  or_Vout :: nat
  or_Satoshis :: int
  or_LockingScript :: "bytes option"
  or_CustomInstructions :: "string option"
  or_DerivationPrefix :: "string option"
  or_DerivationSuffix :: "string option"
  or_BasketName :: "string option"
  or_Spendable :: bool
  or_Change :: bool
  or_Description :: string
  or_ProvidedBy :: string
  or_Purpose :: string
  or_Type :: output_type
  or_SenderIdentityKey :: "string option"
  or_Tags :: "string list"

record known_tx_row =
  kt_CreatedAt :: int
  kt_UpdatedAt :: int
  kt_TxID :: string
  kt_Status :: proven_tx_req_status
  kt_Attempts :: nat
  kt_RebroadcastAttempts :: nat
  kt_Notified :: bool
  kt_Batch :: "string option"
  kt_Notify :: string
  kt_WasBroadcast :: bool
  kt_RawTx :: "bytes option"
  kt_InputBeef :: "bytes option"
  kt_BlockHeight :: "nat option"
  kt_MerklePath :: bytes
  kt_MerkleRoot :: "string option"
  kt_BlockHash :: "string option"

definition HasMerklePath :: "known_tx_row \<Rightarrow> bool" where
  "HasMerklePath p \<longleftrightarrow> 0 < length (kt_MerklePath p)"

record basket_row =
  br_UserID :: int
  br_Name :: string
  br_NumberOfDesiredUTXOs :: int
  br_MinimumDesiredUTXOValue :: nat

record commission_row =
  cm_UserID :: int
  cm_TransactionID :: nat
  cm_Satoshis :: nat
  cm_KeyOffset :: string
  cm_IsRedeemed :: bool
  cm_LockingScript :: bytes

section \<open>The database\<close>

record database =
  db_Now :: int
  db_NextTransactionID :: nat
  db_NextOutputID :: nat
  db_Transactions :: "transaction_row list"
  db_Outputs :: "output_row list"
  db_UserUTXOs :: "user_utxo list"
  db_KnownTxs :: "known_tx_row list"
  db_TxNotes :: "tx_history_note list"
  db_Baskets :: "basket_row list"
  db_Commissions :: "commission_row list"

type_synonym 'a db_tx = "database \<Rightarrow> ('a \<times> database) result"
type_synonym 'a db_flow = "database \<Rightarrow> 'a result \<times> database"

definition empty_database :: "int \<Rightarrow> database" where
  "empty_database now = \<lparr>db_Now = now, db_NextTransactionID = 1, db_NextOutputID = 1,
     db_Transactions = [], db_Outputs = [], db_UserUTXOs = [], db_KnownTxs = [], db_TxNotes = [],
     db_Baskets = [], db_Commissions = []\<rparr>"

text \<open>\<open>UPDATE ... WHERE\<close> and the number of rows it affects.\<close>

definition update_where :: "('r \<Rightarrow> bool) \<Rightarrow> ('r \<Rightarrow> 'r) \<Rightarrow> 'r list \<Rightarrow> 'r list" where
  "update_where P f rows = map (\<lambda>r. if P r then f r else r) rows"

definition count_where :: "('r \<Rightarrow> bool) \<Rightarrow> 'r list \<Rightarrow> nat" where
  "count_where P rows = length (filter P rows)"

text \<open>\<open>runInTransaction\<close> and \<open>UnitOfWork.Do\<close>: commit on success, roll back on an error.\<close>

definition in_db_tx :: "'a db_tx \<Rightarrow> 'a db_flow" where
  "in_db_tx f db = (case f db of Inl e \<Rightarrow> (Inl e, db) | Inr (x, db') \<Rightarrow> (Inr x, db'))"

definition flow_bind :: "'a db_flow \<Rightarrow> ('a \<Rightarrow> 'b db_flow) \<Rightarrow> 'b db_flow" where
  "flow_bind m k db = (case m db of (Inl e, db') \<Rightarrow> (Inl e, db') | (Inr x, db') \<Rightarrow> k x db')"

definition flow_return :: "'a \<Rightarrow> 'a db_flow" where
  "flow_return x db = (Inr x, db)"

definition flow_error :: "go_error \<Rightarrow> 'a db_flow" where
  "flow_error e db = (Inl e, db)"

definition flow_wrap :: "string \<Rightarrow> 'a db_flow \<Rightarrow> 'a db_flow" where
  "flow_wrap msg m db = (let (r, db') = m db in (rwrap msg r, db'))"

definition flow_read :: "(database \<Rightarrow> 'a result) \<Rightarrow> 'a db_flow" where
  "flow_read f db = (f db, db)"

definition tx_bind :: "'a db_tx \<Rightarrow> ('a \<Rightarrow> 'b db_tx) \<Rightarrow> 'b db_tx" where
  "tx_bind m k db = rbind (m db) (\<lambda>(x, db'). k x db')"

definition tx_wrap :: "string \<Rightarrow> 'a db_tx \<Rightarrow> 'a db_tx" where
  "tx_wrap msg m db = rwrap msg (m db)"

named_theorems flow_simps "rewrite rules for database transactions and flows"

lemma update_where_simps [simp]:
  "update_where P f [] = []"
  "update_where P f (r # rs) = (if P r then f r else r) # update_where P f rs"
  by (simp_all add: update_where_def)

lemma length_update_where [simp]: "length (update_where P f rs) = length rs"
  by (simp add: update_where_def)

lemma in_update_where:
  "r \<in> set (update_where P f rs) \<longleftrightarrow> (\<exists>s \<in> set rs. r = (if P s then f s else s))"
  by (auto simp: update_where_def)

lemma map_update_where [simp]: "(\<And>r. g (f r) = g r) \<Longrightarrow> map g (update_where P f rs) = map g rs"
  by (simp add: update_where_def)

lemma count_where_0 [simp]: "count_where P rs = 0 \<longleftrightarrow> (\<forall>r \<in> set rs. \<not> P r)"
  by (simp add: count_where_def filter_empty_conv)

lemma count_where_pos [simp]: "0 < count_where P rs \<longleftrightarrow> (\<exists>r \<in> set rs. P r)"
  by (simp add: count_where_def filter_empty_conv)

lemma update_where_keeps: "r \<in> set rs \<Longrightarrow> \<not> P r \<Longrightarrow> r \<in> set (update_where P f rs)"
  by (auto simp: in_update_where)

lemma update_where_changes: "r \<in> set rs \<Longrightarrow> P r \<Longrightarrow> f r \<in> set (update_where P f rs)"
  by (auto simp: in_update_where)

lemma update_where_none: "(\<And>r. r \<in> set rs \<Longrightarrow> \<not> P r) \<Longrightarrow> update_where P f rs = rs"
  by (simp add: update_where_def map_idI)

lemma flow_simps_basic [flow_simps]:
  "in_db_tx f db = (case f db of Inl e \<Rightarrow> (Inl e, db) | Inr (x, db') \<Rightarrow> (Inr x, db'))"
  "flow_bind m k db = (case m db of (Inl e, db') \<Rightarrow> (Inl e, db') | (Inr x, db') \<Rightarrow> k x db')"
  "flow_return x db = (Inr x, db)"
  "flow_error e db = (Inl e, db)"
  "flow_wrap msg m db = (let (r, db') = m db in (rwrap msg r, db'))"
  "flow_read g db = (g db, db)"
  "tx_bind m' k' db = rbind (m' db) (\<lambda>(x, db'). k' x db')"
  "tx_wrap msg m' db = rwrap msg (m' db)"
  by (simp_all add: in_db_tx_def flow_bind_def flow_return_def flow_error_def flow_wrap_def
      flow_read_def tx_bind_def tx_wrap_def)

text \<open>A unit of work either commits exactly what its body wrote or leaves the database as it was.\<close>

lemma in_db_tx_cases:
  "in_db_tx f db = (r, db') \<Longrightarrow> (case r of Inl e \<Rightarrow> f db = Inl e \<and> db' = db | Inr x \<Rightarrow> f db = Inr (x, db'))"
  by (auto simp: in_db_tx_def split: sum.splits)

end
