(* ===== verification/Repo_Outputs.thy ===== *)
theory Repo_Outputs
  imports Storage_DB
begin

text \<open>
  The output repository \<open>pkg/internal/storage/repo/outputs.go\<close> and the writers of the spendable-output
  index in \<open>repo/utxos.go\<close> and \<open>repo/user_utxo.go\<close>: releasing the inputs of a transaction, marking
  created outputs, (re)indexing change, unlinking an output from its basket, and the lookups.
\<close>

section \<open>Indexing change outputs\<close>

definition isChangeDaoScope :: "output_row \<Rightarrow> bool" where
  "isChangeDaoScope r \<longleftrightarrow> or_BasketName r \<noteq> None \<and> or_Change r \<and> 0 < or_Satoshis r"

text \<open>The outputs that satisfy a scope, joined with the status of their transaction.\<close>

definition getOutputsWithTxStatus :: "(output_row \<Rightarrow> bool) \<Rightarrow> database \<Rightarrow> (output_row \<times> tx_status) list" where
  "getOutputsWithTxStatus filterScope db =
     concat (map (\<lambda>r. map (\<lambda>t. (r, tr_Status t))
         (filter (\<lambda>t. tr_ID t = or_TransactionID r) (db_Transactions db)))
       (filter filterScope (db_Outputs db)))"

definition newUserUTXO :: "go_lib \<Rightarrow> int \<Rightarrow> output_row \<Rightarrow> utxo_status \<Rightarrow> user_utxo result" where
  "newUserUTXO lib now r utxoStatus = (case or_BasketName r of
     None \<Rightarrow> Inl (GoPanic ''nil pointer dereference'')
   | Some basket \<Rightarrow> (case must_ConvertToUInt64 lib (or_Satoshis r) of
       None \<Rightarrow> Inl (GoPanic ''must.ConvertToUInt64'')
     | Some sats \<Rightarrow> rbind (EstimatedInputSizeByType lib (or_Type r)) (\<lambda>sz.
         Inr \<lparr>uu_UserID = or_UserID r, uu_OutputID = or_ID r, uu_UTXOStatus = utxoStatus,
              uu_BasketName = basket, uu_Satoshis = sats, uu_EstimatedInputSize = sz,
              uu_CreatedAt = now, uu_ReservedByID = None\<rparr>)))"

fun newUTXOs_loop :: "go_lib \<Rightarrow> int \<Rightarrow> (output_row \<times> tx_status) list \<Rightarrow> user_utxo list result" where
  "newUTXOs_loop lib now [] = Inr []"
| "newUTXOs_loop lib now ((r, txStatus) # rs) =
     (let utxoStatus = ToUTXOStatus txStatus in
      if utxoStatus = UTXOStatusUnknown then newUTXOs_loop lib now rs
      else rbind (newUserUTXO lib now r utxoStatus) (\<lambda>u.
        rbind (newUTXOs_loop lib now rs) (\<lambda>us. Inr (u # us))))"

text \<open>\<open>INSERT ... ON CONFLICT DO UPDATE\<close> of all columns but the creation time.\<close>

fun upsert_utxo :: "user_utxo \<Rightarrow> user_utxo list \<Rightarrow> user_utxo list" where
  "upsert_utxo u [] = [u]"
| "upsert_utxo u (v # vs) =
     (if uu_UserID v = uu_UserID u \<and> uu_OutputID v = uu_OutputID u
      then u\<lparr>uu_CreatedAt := uu_CreatedAt v\<rparr> # vs
      else v # upsert_utxo u vs)"

definition createUTXOsFromOutputs :: "go_lib \<Rightarrow> (output_row \<times> tx_status) list \<Rightarrow> unit db_tx" where
  "createUTXOsFromOutputs lib changeOutputs db =
     rbind (newUTXOs_loop lib (db_Now db) changeOutputs) (\<lambda>newUTXOs.
       Inr ((), db\<lparr>db_UserUTXOs := fold upsert_utxo newUTXOs (db_UserUTXOs db)\<rparr>))"

section \<open>Releasing and marking outputs\<close>

definition makeOutputsSpendable :: "(output_row \<Rightarrow> bool) \<Rightarrow> database \<Rightarrow> database" where
  "makeOutputsSpendable filterScope db = db\<lparr>db_Outputs :=
     update_where filterScope (\<lambda>r. r\<lparr>or_Spendable := True, or_SpentBy := None\<rparr>) (db_Outputs db)\<rparr>"

definition recreateSpentOutputs :: "go_lib \<Rightarrow> nat \<Rightarrow> unit db_tx" where
  "recreateSpentOutputs lib spendingTransactionID db =
     (let allSpentScope = (\<lambda>r. or_SpentBy r = Some spendingTransactionID);
          changeSpentScope = (\<lambda>r. or_SpentBy r = Some spendingTransactionID \<and> isChangeDaoScope r);
          changeOutputs = getOutputsWithTxStatus changeSpentScope db;
          db1 = makeOutputsSpendable allSpentScope db
      in createUTXOsFromOutputs lib changeOutputs db1)"

definition RecreateSpentOutputs :: "go_lib \<Rightarrow> nat \<Rightarrow> unit db_tx" where
  "RecreateSpentOutputs lib spendingTransactionID =
     tx_wrap ''failed to restore spent outputs'' (recreateSpentOutputs lib spendingTransactionID)"

definition ShouldTxOutputsBeUnspent :: "nat \<Rightarrow> database \<Rightarrow> unit result" where
  "ShouldTxOutputsBeUnspent transactionID db =
     (if \<exists>r \<in> set (db_Outputs db). or_TransactionID r = transactionID \<and> or_SpentBy r \<noteq> None
      then Inl (GoErr ''transaction has spent outputs'') else Inr ())"

definition MarkCreatedOutputsAsNotSpendable :: "nat \<Rightarrow> database \<Rightarrow> database" where
  "MarkCreatedOutputsAsNotSpendable transactionID db = db\<lparr>db_Outputs :=
     update_where (\<lambda>r. or_TransactionID r = transactionID) (\<lambda>r. r\<lparr>or_Spendable := False\<rparr>) (db_Outputs db)\<rparr>"

text \<open>The ids of the transactions with a given txid: the subquery of several statements.\<close>

definition transaction_ids :: "string \<Rightarrow> database \<Rightarrow> nat list" where
  "transaction_ids txID db = map tr_ID (filter (\<lambda>t. tr_TxID t = Some txID) (db_Transactions db))"

definition MarkCreatedOutputsAsSpendableByTxID :: "string \<Rightarrow> database \<Rightarrow> database" where
  "MarkCreatedOutputsAsSpendableByTxID txID db = db\<lparr>db_Outputs :=
     update_where (\<lambda>r. or_TransactionID r \<in> set (transaction_ids txID db))
       (\<lambda>r. r\<lparr>or_Spendable := True\<rparr>) (db_Outputs db)\<rparr>"

definition UnreserveUTXOs :: "nat \<Rightarrow> database \<Rightarrow> database" where
  "UnreserveUTXOs transactionID db =
     db\<lparr>db_UserUTXOs := UnreserveUTXOsByTransactionID transactionID (db_UserUTXOs db)\<rparr>"

section \<open>Making change claimable\<close>

definition MakeChangeSpendableAndIndexByTxID :: "go_lib \<Rightarrow> string \<Rightarrow> unit db_tx" where
  "MakeChangeSpendableAndIndexByTxID lib txID =
     tx_wrap ''failed to make change spendable'' (\<lambda>db.
       let filterScope = (\<lambda>r. or_TransactionID r \<in> set (transaction_ids txID db) \<and> or_SpentBy r = None \<and>
             isChangeDaoScope r);
           db1 = makeOutputsSpendable filterScope db;
           changeOutputs = getOutputsWithTxStatus filterScope db1
       in createUTXOsFromOutputs lib changeOutputs db1)"

definition createUTXOsForSpendableOutputsByTxID :: "go_lib \<Rightarrow> string \<Rightarrow> unit db_tx" where
  "createUTXOsForSpendableOutputsByTxID lib txID db =
     (let filterScope = (\<lambda>r. or_TransactionID r \<in> set (transaction_ids txID db) \<and> or_Spendable r \<and>
            isChangeDaoScope r);
          changeOutputs = getOutputsWithTxStatus filterScope db
      in createUTXOsFromOutputs lib changeOutputs db)"

definition CreateUTXOForSpendableOutputsByTxID :: "go_lib \<Rightarrow> string \<Rightarrow> unit db_tx" where
  "CreateUTXOForSpendableOutputsByTxID lib txID =
     tx_wrap ''failed to make outputs spendable by txID'' (createUTXOsForSpendableOutputsByTxID lib txID)"

section \<open>Lookups and basket membership\<close>

text \<open>\<open>First\<close> orders by the primary key and takes the first row.\<close>

definition first_by :: "('r \<Rightarrow> nat) \<Rightarrow> ('r \<Rightarrow> bool) \<Rightarrow> 'r list \<Rightarrow> 'r option" where
  "first_by key P rows = (case sort_key key (filter P rows) of [] \<Rightarrow> None | r # _ \<Rightarrow> Some r)"

record out_point =
  op_TxID :: string
  op_Vout :: nat

definition at_outpoint :: "int \<Rightarrow> out_point \<Rightarrow> database \<Rightarrow> output_row \<Rightarrow> bool" where
  "at_outpoint userID outpoint db r \<longleftrightarrow> or_UserID r = userID \<and> or_Vout r = op_Vout outpoint \<and>
     (\<exists>t \<in> set (db_Transactions db). tr_UserID t = userID \<and> tr_TxID t = Some (op_TxID outpoint) \<and>
        tr_ID t = or_TransactionID r)"

definition FindOutput :: "int \<Rightarrow> out_point \<Rightarrow> database \<Rightarrow> output_row option" where
  "FindOutput userID outpoint db = first_by or_ID (at_outpoint userID outpoint db) (db_Outputs db)"

definition ErrOutputNotFound :: string where
  "ErrOutputNotFound = ''wdk.ErrOutputNotFound''"

definition UnlinkOutputFromBasketByOutpoint :: "int \<Rightarrow> string option \<Rightarrow> out_point \<Rightarrow> unit db_tx" where
  "UnlinkOutputFromBasketByOutpoint userID basketName outpoint =
     tx_wrap ''failed to unlink output from basket'' (\<lambda>db.
       case first_by or_ID (\<lambda>r. at_outpoint userID outpoint db r \<and>
           (basketName = None \<or> or_BasketName r = basketName)) (db_Outputs db) of
         None \<Rightarrow> Inl (GoWrap ''no output found'' (GoSentinel ErrOutputNotFound))
       | Some output \<Rightarrow>
           let db1 = db\<lparr>db_Outputs := update_where (\<lambda>r. or_ID r = or_ID output)
                 (\<lambda>r. r\<lparr>or_BasketName := None\<rparr>) (db_Outputs db)\<rparr>
           in Inr ((), db1\<lparr>db_UserUTXOs :=
                filter (\<lambda>u. \<not> (uu_ReservedByID u = None \<and> uu_OutputID u = or_ID output)) (db_UserUTXOs db1)\<rparr>))"

definition FindOutputsByTransactionID :: "nat \<Rightarrow> database \<Rightarrow> output_row list" where
  "FindOutputsByTransactionID transactionID db =
     filter (\<lambda>r. or_TransactionID r = transactionID) (db_Outputs db)"

definition FindOutputsByIDs :: "nat list \<Rightarrow> database \<Rightarrow> output_row list" where
  "FindOutputsByIDs outputIDs db =
     (if outputIDs = [] then [] else filter (\<lambda>r. or_ID r \<in> set outputIDs) (db_Outputs db))"

definition FindTxIDsByOutputIDs :: "nat list \<Rightarrow> database \<Rightarrow> string option list" where
  "FindTxIDsByOutputIDs outputIDs db =
     (if outputIDs = [] then []
      else remdups (concat (map (\<lambda>r. map tr_TxID (filter (\<lambda>t. tr_ID t = or_TransactionID r) (db_Transactions db)))
        (filter (\<lambda>r. or_ID r \<in> set outputIDs) (db_Outputs db)))))"

definition FindOutputsByOutpoints :: "int \<Rightarrow> out_point list \<Rightarrow> database \<Rightarrow> (output_row \<times> string option) list" where
  "FindOutputsByOutpoints userID outpoints db =
     (if outpoints = [] then []
      else concat (map (\<lambda>r. map (\<lambda>t. (r, tr_TxID t))
          (filter (\<lambda>t. tr_ID t = or_TransactionID r \<and>
             (\<exists>op \<in> set outpoints. tr_TxID t = Some (op_TxID op) \<and> or_Vout r = op_Vout op)) (db_Transactions db)))
        (filter (\<lambda>r. or_UserID r = userID) (db_Outputs db))))"

record output_update_spec =
  ous_ID :: nat
  ous_Spendable :: "bool option"
  ous_Description :: "string option"
  ous_LockingScript :: "bytes option"
  ous_CustomInstr :: "string option"

definition UpdateOutput :: "output_update_spec option \<Rightarrow> unit db_tx" where
  "UpdateOutput spec db = (case spec of
     None \<Rightarrow> Inl (GoErr ''update specification cannot be nil'')
   | Some s \<Rightarrow>
       if ous_Spendable s = None \<and> ous_Description s = None \<and> ous_LockingScript s = None \<and>
          ous_CustomInstr s = None
       then Inr ((), db)
       else if count_where (\<lambda>r. or_ID r = ous_ID s) (db_Outputs db) = 0
       then Inl (GoErr ''no rows updated'')
       else Inr ((), db\<lparr>db_Outputs := update_where (\<lambda>r. or_ID r = ous_ID s)
         (\<lambda>r. r\<lparr>or_Spendable := (case ous_Spendable s of None \<Rightarrow> or_Spendable r | Some v \<Rightarrow> v),
                or_Description := (case ous_Description s of None \<Rightarrow> or_Description r | Some v \<Rightarrow> v),
                or_LockingScript := (case ous_LockingScript s of None \<Rightarrow> or_LockingScript r | Some v \<Rightarrow> Some v),
                or_CustomInstructions := (case ous_CustomInstr s of None \<Rightarrow> or_CustomInstructions r | Some v \<Rightarrow> Some v)\<rparr>)
         (db_Outputs db)\<rparr>))"

section \<open>\<open>repo/user_utxo.go\<close>\<close>

definition ErrUTXOContention :: string where
  "ErrUTXOContention = ''wdk.ErrUTXOContention''"

definition ErrUTXONotFound :: string where
  "ErrUTXONotFound = ''repo.ErrUTXONotFound''"

definition UserUTXOs_Add :: "user_utxo option \<Rightarrow> unit db_tx" where
  "UserUTXOs_Add utxo db = (case utxo of
     None \<Rightarrow> Inl (GoErr ''utxo cannot be nil'')
   | Some u \<Rightarrow>
       if \<exists>v \<in> set (db_UserUTXOs db). uu_UserID v = uu_UserID u \<and> uu_OutputID v = uu_OutputID u
       then Inl (GoErr ''unique constraint violation'')
       else Inr ((), db\<lparr>db_UserUTXOs := db_UserUTXOs db @ [u]\<rparr>))"

record user_utxo_update_spec =
  uus_OutputID :: nat
  uus_ReservedByID :: "nat option"
  uus_Status :: "utxo_status option"
  uus_BasketName :: "string option"
  uus_Satoshis :: "nat option"
  uus_EstimatedInputSize :: "nat option"
  uus_UserID :: "int option"

definition apply_utxo_spec :: "user_utxo_update_spec \<Rightarrow> user_utxo \<Rightarrow> user_utxo" where
  "apply_utxo_spec s u = u
     \<lparr>uu_ReservedByID := (case uus_ReservedByID s of None \<Rightarrow> uu_ReservedByID u | Some v \<Rightarrow> Some v),
      uu_UTXOStatus := (case uus_Status s of None \<Rightarrow> uu_UTXOStatus u | Some v \<Rightarrow> v),
      uu_BasketName := (case uus_BasketName s of None \<Rightarrow> uu_BasketName u | Some v \<Rightarrow> v),
      uu_Satoshis := (case uus_Satoshis s of None \<Rightarrow> uu_Satoshis u | Some v \<Rightarrow> v),
      uu_EstimatedInputSize := (case uus_EstimatedInputSize s of None \<Rightarrow> uu_EstimatedInputSize u | Some v \<Rightarrow> v),
      uu_UserID := (case uus_UserID s of None \<Rightarrow> uu_UserID u | Some v \<Rightarrow> v)\<rparr>"

text \<open>The update of an index row; a reservation is a compare-and-swap on \<open>reserved_by_id IS NULL\<close>. A
  new owner may collide with the primary key, which is an error of the engine.\<close>

definition UserUTXOs_Update :: "user_utxo_update_spec \<Rightarrow> unit db_tx" where
  "UserUTXOs_Update s db =
     (if uus_ReservedByID s = None \<and> uus_Status s = None \<and> uus_BasketName s = None \<and>
         uus_Satoshis s = None \<and> uus_EstimatedInputSize s = None \<and> uus_UserID s = None then Inr ((), db)
      else
        let matches = (\<lambda>u. uu_OutputID u = uus_OutputID s \<and>
              (uus_ReservedByID s \<noteq> None \<longrightarrow> uu_ReservedByID u = None));
            rows = update_where matches (apply_utxo_spec s) (db_UserUTXOs db)
        in if \<not> keyed rows then Inl (GoWrap ''failed to update user utxo'' (GoErr ''unique constraint violation''))
           else if uus_ReservedByID s \<noteq> None \<and> count_where matches (db_UserUTXOs db) = 0
           then (if count_where (\<lambda>u. uu_OutputID u = uus_OutputID s) (db_UserUTXOs db) = 0
                 then Inl (GoWrap ''cannot reserve utxo'' (GoSentinel ErrUTXONotFound))
                 else Inl (GoWrap ''cannot reserve utxo'' (GoSentinel ErrUTXOContention)))
           else Inr ((), db\<lparr>db_UserUTXOs := rows\<rparr>))"

end
