(* ===== verification/Repo_Transactions.thy ===== *)
theory Repo_Transactions
  imports Repo_Outputs
begin

text \<open>
  The transaction repository \<open>pkg/internal/storage/repo/transactions.go\<close>: storing a new action with
  its outputs and the reservation of its inputs, recording the signed transaction, status updates with
  a compare-and-swap precondition, and the queries of the abort sweep. The data types are those of
  \<open>pkg/internal/storage/entity\<close>.
\<close>

section \<open>New transactions\<close>

record new_output =
  no_LockingScript :: "string option"
  no_CustomInstructions :: "string option"
  no_Satoshis :: int
  no_BasketName :: "string option"
  no_Spendable :: bool
  no_Change :: bool
  no_ProvidedBy :: string
  no_Purpose :: string
  no_Type :: output_type
  no_DerivationPrefix :: "string option"
  no_DerivationSuffix :: "string option"
  no_Description :: string
  no_Vout :: nat
  no_SenderIdentityKey :: "string option"
  no_Tags :: "string list"

definition IsChangeOutputVout :: "new_output \<Rightarrow> bool" where
  "IsChangeOutputVout o' \<longleftrightarrow> no_Change o' \<and> no_Purpose o' = ''change'' \<and> no_ProvidedBy o' = ''storage''"

record new_commission =
  nc_Satoshis :: nat
  nc_KeyOffset :: string
  nc_IsRedeemed :: bool
  nc_LockingScript :: bytes

record new_tx =
  nt_UserID :: int
  nt_Version :: nat
  nt_LockTime :: nat
  nt_Status :: tx_status
  nt_Reference :: string
  nt_Satoshis :: int
  nt_IsOutgoing :: bool
  nt_InputBeef :: "bytes option"
  nt_Description :: string
  nt_TxID :: "string option"
  nt_ReservedOutputIDs :: "nat list"
  nt_SpentOutputIDs :: "nat list"
  nt_Outputs :: "new_output list"
  nt_UTXOStatus :: utxo_status
  nt_Labels :: "string list"
  nt_Commission :: "new_commission option"

text \<open>A new output as \<open>makeNewOutput\<close> builds it: the row without its keys, and the amount and input
  size of its index row when it gets one.\<close>

definition is_EmptyString :: "string option \<Rightarrow> bool" where
  "is_EmptyString s \<longleftrightarrow> s = None \<or> s = Some ''''"

definition makeNewOutput ::
  "go_lib \<Rightarrow> int \<Rightarrow> new_output \<Rightarrow> utxo_status \<Rightarrow> (output_row \<times> user_utxo option) result" where
  "makeNewOutput lib userID output utxoStatus =
     rbind (case no_LockingScript output of
         None \<Rightarrow> Inr None
       | Some h \<Rightarrow> rbind (rwrap ''failed to convert locking script to bytes'' (HexString_ToBytes h)) (\<lambda>b. Inr (Some b)))
       (\<lambda>lockingScript.
     let out = \<lparr>or_ID = 0, or_CreatedAt = 0, or_UserID = userID, or_TransactionID = 0, or_SpentBy = None,
           or_Vout = no_Vout output, or_Satoshis = no_Satoshis output, or_LockingScript = lockingScript,
           or_CustomInstructions = no_CustomInstructions output, or_DerivationPrefix = no_DerivationPrefix output,
           or_DerivationSuffix = no_DerivationSuffix output, or_BasketName = no_BasketName output,
           or_Spendable = no_Spendable output, or_Change = no_Change output,
           or_Description = no_Description output, or_ProvidedBy = no_ProvidedBy output,
           or_Purpose = no_Purpose output, or_Type = no_Type output,
           or_SenderIdentityKey = no_SenderIdentityKey output, or_Tags = no_Tags output\<rparr>
     in if or_Spendable out \<and> or_Change out then
          (if is_EmptyString (no_BasketName output) then Inl (GoErr ''basket not provided for change output'')
           else if or_Satoshis out = 0 then Inl (GoErr ''change output with zero satoshis'')
           else case to_UInt64 lib (or_Satoshis out) of
             None \<Rightarrow> Inl (GoWrap ''failed to convert satoshis to uint64'' (GoErr ''to.UInt64''))
           | Some sats \<Rightarrow> rbind (EstimatedInputSizeByType lib (no_Type output)) (\<lambda>sz.
               Inr (out, Some \<lparr>uu_UserID = userID, uu_OutputID = 0, uu_UTXOStatus = utxoStatus,
                 uu_BasketName = '''', uu_Satoshis = sats, uu_EstimatedInputSize = sz, uu_CreatedAt = 0,
                 uu_ReservedByID = None\<rparr>)))
        else Inr (out, None))"

fun map_or_error :: "('a \<Rightarrow> 'b result) \<Rightarrow> 'a list \<Rightarrow> 'b list result" where
  "map_or_error f [] = Inr []"
| "map_or_error f (x # xs) = rbind (f x) (\<lambda>y. rbind (map_or_error f xs) (\<lambda>ys. Inr (y # ys)))"

definition toTransactionModel ::
  "go_lib \<Rightarrow> new_tx \<Rightarrow> (transaction_row \<times> (output_row \<times> user_utxo option) list) result" where
  "toTransactionModel lib newTx =
     rbind (rwrap ''failed to create outputs''
       (map_or_error (\<lambda>output. makeNewOutput lib (nt_UserID newTx) output (nt_UTXOStatus newTx)) (nt_Outputs newTx)))
       (\<lambda>outputs. Inr
         (\<lparr>tr_ID = 0, tr_CreatedAt = 0, tr_UserID = nt_UserID newTx, tr_Status = nt_Status newTx,
           tr_Reference = nt_Reference newTx, tr_IsOutgoing = nt_IsOutgoing newTx,
           tr_Satoshis = nt_Satoshis newTx, tr_Description = nt_Description newTx,
           tr_Version = nt_Version newTx, tr_LockTime = nt_LockTime newTx, tr_TxID = nt_TxID newTx,
           tr_InputBeef = nt_InputBeef newTx, tr_Labels = nt_Labels newTx\<rparr>, outputs))"

text \<open>\<open>createIfNotExist\<close> of \<open>repo/cached_basket_maker.go\<close>: \<open>ON CONFLICT DO NOTHING\<close>; the cache of
  checked names only saves statements.\<close>

definition createIfNotExist :: "int \<Rightarrow> string \<Rightarrow> int \<Rightarrow> nat \<Rightarrow> database \<Rightarrow> database" where
  "createIfNotExist userID name numberOfDesiredUTXOs minimumDesiredUTXOValue db =
     (if \<exists>b \<in> set (db_Baskets db). br_UserID b = userID \<and> br_Name b = name then db
      else db\<lparr>db_Baskets := db_Baskets db @ [\<lparr>br_UserID = userID, br_Name = name,
        br_NumberOfDesiredUTXOs = numberOfDesiredUTXOs, br_MinimumDesiredUTXOValue = minimumDesiredUTXOValue\<rparr>]\<rparr>)"

fun connectOutputsWithBaskets ::
  "int \<Rightarrow> (output_row \<times> user_utxo option) list \<Rightarrow> database \<Rightarrow> (output_row \<times> user_utxo option) list \<times> database" where
  "connectOutputsWithBaskets userID [] db = ([], db)"
| "connectOutputsWithBaskets userID ((out, utxo) # outs) db =
     (case or_BasketName out of
        None \<Rightarrow> let (rest, db') = connectOutputsWithBaskets userID outs db in ((out, utxo) # rest, db')
      | Some basket \<Rightarrow>
          if basket = '''' then let (rest, db') = connectOutputsWithBaskets userID outs db in ((out, utxo) # rest, db')
          else let db1 = createIfNotExist userID basket 0 0 db;
                   utxo' = map_option (\<lambda>u. u\<lparr>uu_BasketName := basket\<rparr>) utxo;
                   (rest, db') = connectOutputsWithBaskets userID outs db1
               in ((out, utxo') # rest, db'))"

text \<open>\<open>tx.Create(model)\<close>: the transaction, its outputs, their index rows and its commission get
  their keys and creation times.\<close>

fun insert_outputs :: "nat \<Rightarrow> (output_row \<times> user_utxo option) list \<Rightarrow> database \<Rightarrow> database" where
  "insert_outputs transactionID [] db = db"
| "insert_outputs transactionID ((out, utxo) # outs) db =
     (let i = db_NextOutputID db;
          row = out\<lparr>or_ID := i, or_CreatedAt := db_Now db, or_TransactionID := transactionID\<rparr>;
          us = (case utxo of None \<Rightarrow> [] | Some u \<Rightarrow> [u\<lparr>uu_OutputID := i, uu_CreatedAt := db_Now db\<rparr>])
      in insert_outputs transactionID outs
           (db\<lparr>db_NextOutputID := i + 1, db_Outputs := db_Outputs db @ [row],
               db_UserUTXOs := db_UserUTXOs db @ us\<rparr>))"

definition insert_transaction ::
  "new_tx \<Rightarrow> transaction_row \<Rightarrow> (output_row \<times> user_utxo option) list \<Rightarrow> nat db_tx" where
  "insert_transaction newTx model outs db =
     (if \<exists>t \<in> set (db_Transactions db). tr_Reference t = tr_Reference model
      then Inl (GoErr ''unique constraint violation'')
      else
        let i = db_NextTransactionID db;
            db1 = db\<lparr>db_NextTransactionID := i + 1,
              db_Transactions := db_Transactions db @ [model\<lparr>tr_ID := i, tr_CreatedAt := db_Now db\<rparr>],
              db_Commissions := db_Commissions db @ (case nt_Commission newTx of None \<Rightarrow> []
                | Some c \<Rightarrow> [\<lparr>cm_UserID = nt_UserID newTx, cm_TransactionID = i, cm_Satoshis = nc_Satoshis c,
                    cm_KeyOffset = nc_KeyOffset c, cm_IsRedeemed = nc_IsRedeemed c,
                    cm_LockingScript = nc_LockingScript c\<rparr>])\<rparr>
        in Inr (i, insert_outputs i outs db1))"

section \<open>Reserving inputs\<close>

definition reserveUTXOs :: "nat \<Rightarrow> int \<Rightarrow> nat list \<Rightarrow> unit db_tx" where
  "reserveUTXOs transactionID userID outputIDs db =
     (if outputIDs = [] then Inr ((), db)
      else
        let matches = (\<lambda>u. uu_UserID u = userID \<and> uu_OutputID u \<in> set outputIDs \<and> uu_ReservedByID u = None)
        in if count_where matches (db_UserUTXOs db) \<noteq> length outputIDs
           then Inl (GoWrap ''reserving selected utxos'' (GoSentinel ErrUTXOContention))
           else Inr ((), db\<lparr>db_UserUTXOs :=
                  update_where matches (\<lambda>u. u\<lparr>uu_ReservedByID := Some transactionID\<rparr>) (db_UserUTXOs db)\<rparr>))"

definition staleIndexedOutputs :: "int \<Rightarrow> nat list \<Rightarrow> database \<Rightarrow> nat list" where
  "staleIndexedOutputs userID outputIDs db =
     map uu_OutputID (filter (\<lambda>u. uu_UserID u = userID \<and> uu_OutputID u \<in> set outputIDs \<and>
       (\<exists>r \<in> set (db_Outputs db). or_ID r = uu_OutputID u \<and> or_SpentBy r \<noteq> None)) (db_UserUTXOs db))"

text \<open>The error of a failed claim. \<open>StaleUTXOIndexError\<close> and \<open>ErrProvidedInputConflict\<close> both wrap
  \<open>ErrUTXOContention\<close>; the stale output ids travel in the first.\<close>

datatype claim_error =
    StaleUTXOIndexError "nat list"
  | ProvidedInputConflict
  | OtherError go_error

definition ErrProvidedInputConflict :: string where
  "ErrProvidedInputConflict = ''repo.ErrProvidedInputConflict''"

definition claim_error_Is :: "claim_error \<Rightarrow> string \<Rightarrow> bool" where
  "claim_error_Is e t = (case e of
     StaleUTXOIndexError _ \<Rightarrow> t = ErrUTXOContention
   | ProvidedInputConflict \<Rightarrow> t = ErrProvidedInputConflict \<or> t = ErrUTXOContention
   | OtherError e' \<Rightarrow> errors_Is e' t)"

definition markReservedOutputsAsNotSpendable ::
  "nat \<Rightarrow> int \<Rightarrow> nat list \<Rightarrow> database \<Rightarrow> claim_error + database" where
  "markReservedOutputsAsNotSpendable spendingTransactionID userID outputIDs db =
     (if outputIDs = [] then Inr db
      else
        let matches = (\<lambda>r. or_ID r \<in> set outputIDs \<and> or_UserID r = userID \<and> or_SpentBy r = None);
            db1 = db\<lparr>db_Outputs := update_where matches
              (\<lambda>r. r\<lparr>or_Spendable := False, or_SpentBy := Some spendingTransactionID\<rparr>) (db_Outputs db)\<rparr>
        in if count_where matches (db_Outputs db) \<noteq> length outputIDs
           then (let stale = staleIndexedOutputs userID outputIDs db1 in
                 if stale \<noteq> [] then Inl (StaleUTXOIndexError stale) else Inl ProvidedInputConflict)
           else Inr db1)"

definition createTransactionInTx :: "go_lib \<Rightarrow> new_tx \<Rightarrow> database \<Rightarrow> claim_error + nat \<times> database" where
  "createTransactionInTx lib newTx db = (case toTransactionModel lib newTx of
     Inl e \<Rightarrow> Inl (OtherError e)
   | Inr (model, outputs) \<Rightarrow>
       let (outs, db1) = connectOutputsWithBaskets (nt_UserID newTx) outputs db in
       (case insert_transaction newTx model outs db1 of
          Inl e \<Rightarrow> Inl (OtherError (wrap_error ''failed to create new transaction model'' e))
        | Inr (i, db2) \<Rightarrow>
            (case reserveUTXOs i (nt_UserID newTx) (nt_ReservedOutputIDs newTx) db2 of
               Inl e \<Rightarrow> Inl (OtherError e)
             | Inr (_, db3) \<Rightarrow>
                 (case markReservedOutputsAsNotSpendable i (nt_UserID newTx) (nt_SpentOutputIDs newTx) db3 of
                    Inl e \<Rightarrow> Inl e
                  | Inr db4 \<Rightarrow> Inr (i, db4)))))"

text \<open>\<open>CreateTransaction\<close>: the same in a database transaction of its own.\<close>

definition CreateTransaction :: "go_lib \<Rightarrow> new_tx \<Rightarrow> database \<Rightarrow> (claim_error + nat) \<times> database" where
  "CreateTransaction lib newTx db = (case createTransactionInTx lib newTx db of
     Inl e \<Rightarrow> (Inl e, db) | Inr (i, db') \<Rightarrow> (Inr i, db'))"

text \<open>One attempt of the funding loop of \<open>create.go\<close>, once the new transaction is built: the claim in its
  database transaction and, after it rolled back because of stale index rows, their removal.\<close>

definition DeleteIndexRows :: "int \<Rightarrow> nat list \<Rightarrow> database \<Rightarrow> database" where
  "DeleteIndexRows userID outputIDs db =
     db\<lparr>db_UserUTXOs := DeleteIndexRowsForOutputs userID outputIDs (db_UserUTXOs db)\<rparr>"

definition claim_or_heal :: "go_lib \<Rightarrow> new_tx \<Rightarrow> database \<Rightarrow> (claim_error + nat) \<times> database" where
  "claim_or_heal lib newTx db = (case createTransactionInTx lib newTx db of
     Inr (i, db') \<Rightarrow> (Inr i, db')
   | Inl (StaleUTXOIndexError ids) \<Rightarrow> (Inl (StaleUTXOIndexError ids), DeleteIndexRows (nt_UserID newTx) ids db)
   | Inl e \<Rightarrow> (Inl e, db))"

definition maxFundingAttempts :: nat where
  "maxFundingAttempts = 3"

text \<open>\<open>retryOnContention\<close> without its waits; \<open>cancelled\<close> says after which attempts the context is
  found cancelled, and \<open>meanwhile\<close> what other transactions have done to the database when an attempt begins.\<close>

fun retry_from :: "nat \<Rightarrow> (nat \<Rightarrow> bool) \<Rightarrow> (nat \<Rightarrow> database \<Rightarrow> database) \<Rightarrow>
    (nat \<Rightarrow> database \<Rightarrow> (claim_error + 'a) \<times> database) \<Rightarrow> nat \<Rightarrow> database \<Rightarrow> (claim_error + 'a) \<times> database" where
  "retry_from 0 cancelled meanwhile fn attempt db = fn attempt (meanwhile attempt db)"
| "retry_from (Suc left) cancelled meanwhile fn attempt db =
     (case fn attempt (meanwhile attempt db) of
        (Inr x, db') \<Rightarrow> (Inr x, db')
      | (Inl e, db') \<Rightarrow>
          if \<not> claim_error_Is e ErrUTXOContention \<or> claim_error_Is e ErrProvidedInputConflict
          then (Inl e, db')
          else if cancelled attempt
          then (Inl (OtherError (GoWrap ''funding retry aborted'' (GoSentinel ''context.Canceled''))), db')
          else retry_from left cancelled meanwhile fn (attempt + 1) db')"

definition retryOnContention :: "(nat \<Rightarrow> bool) \<Rightarrow> (nat \<Rightarrow> database \<Rightarrow> database) \<Rightarrow>
    (nat \<Rightarrow> database \<Rightarrow> (claim_error + 'a) \<times> database) \<Rightarrow> database \<Rightarrow> (claim_error + 'a) \<times> database" where
  "retryOnContention cancelled meanwhile fn db = retry_from (maxFundingAttempts - 1) cancelled meanwhile fn 1 db"

section \<open>Lookups\<close>

definition FindTransactionByUserIDAndTxID :: "int \<Rightarrow> string \<Rightarrow> database \<Rightarrow> transaction_row option" where
  "FindTransactionByUserIDAndTxID userID txID db =
     first_by tr_ID (\<lambda>t. tr_UserID t = userID \<and> tr_TxID t = Some txID) (db_Transactions db)"

definition FindTransactionIDsByTxID :: "string \<Rightarrow> database \<Rightarrow> nat list" where
  "FindTransactionIDsByTxID txID db = map tr_ID (filter (\<lambda>t. tr_TxID t = Some txID) (db_Transactions db))"

definition FindReferencesByTxIDs :: "string list \<Rightarrow> database \<Rightarrow> (string \<rightharpoonup> string)" where
  "FindReferencesByTxIDs txIDs db =
     (if txIDs = [] then Map.empty
      else fold (\<lambda>t m. case tr_TxID t of None \<Rightarrow> m | Some txID \<Rightarrow> m(txID \<mapsto> tr_Reference t))
        (filter (\<lambda>t. \<exists>txID \<in> set txIDs. tr_TxID t = Some txID) (db_Transactions db)) Map.empty)"

definition FindTransactionByReference :: "int \<Rightarrow> string \<Rightarrow> database \<Rightarrow> transaction_row option" where
  "FindTransactionByReference userID reference db =
     first_by tr_ID (\<lambda>t. tr_UserID t = userID \<and> tr_Reference t = reference) (db_Transactions db)"

definition FindTransactionIDsByStatuses :: "tx_status list \<Rightarrow> database \<Rightarrow> nat list" where
  "FindTransactionIDsByStatuses txStatus db =
     map tr_ID (filter (\<lambda>t. tr_Status t \<in> set txStatus) (db_Transactions db))"

text \<open>The transactions of the abandoned sweep: unsigned, or unprocessed with a KnownTx that is missing
  or unprocessed too.\<close>

definition known_statuses :: "database \<Rightarrow> string option \<Rightarrow> proven_tx_req_status option list" where
  "known_statuses db txID =
     (case filter (\<lambda>k. Some (kt_TxID k) = txID) (db_KnownTxs db) of
        [] \<Rightarrow> [None] | ks \<Rightarrow> map (\<lambda>k. Some (kt_Status k)) ks)"

definition abandoned :: "database \<Rightarrow> transaction_row \<Rightarrow> bool" where
  "abandoned db t \<longleftrightarrow> tr_Status t = TxStatusUnsigned \<or>
     (tr_Status t = TxStatusUnprocessed \<and>
      (\<exists>s \<in> set (known_statuses db (tr_TxID t)). s = None \<or> s = Some ProvenTxStatusUnprocessed))"

definition FindTransactionIDsForAbort :: "int option \<Rightarrow> paging option \<Rightarrow> database \<Rightarrow> nat list" where
  "FindTransactionIDsForAbort until page db =
     (let rows = sort_key tr_CreatedAt (filter (\<lambda>t. abandoned db t \<and>
            (case until of None \<Rightarrow> True | Some ti \<Rightarrow> tr_CreatedAt t \<le> ti)) (db_Transactions db))
      in map tr_ID (case page of None \<Rightarrow> rows
           | Some p \<Rightarrow> let p' = ApplyDefaults p in sql_page (pg_Offset p') (pg_Limit p') rows))"

section \<open>Status updates\<close>

definition ErrStatusUpdateSkipped :: string where
  "ErrStatusUpdateSkipped = ''repo.ErrStatusUpdateSkipped''"

definition UpdateTransactionStatusByTxID :: "string \<Rightarrow> tx_status \<Rightarrow> tx_status list \<Rightarrow> unit db_tx" where
  "UpdateTransactionStatusByTxID txID txStatus expectedCurrent db =
     (let matches = (\<lambda>t. tr_TxID t = Some txID \<and> (expectedCurrent \<noteq> [] \<longrightarrow> tr_Status t \<in> set expectedCurrent))
      in if count_where matches (db_Transactions db) = 0
         then Inl (GoWrap ''transaction(s) with txID'' (GoSentinel ErrStatusUpdateSkipped))
         else Inr ((), db\<lparr>db_Transactions :=
                update_where matches (\<lambda>t. t\<lparr>tr_Status := txStatus\<rparr>) (db_Transactions db)\<rparr>))"

definition UpdateTransactionStatusByID :: "nat \<Rightarrow> tx_status \<Rightarrow> tx_status list \<Rightarrow> unit db_tx" where
  "UpdateTransactionStatusByID transactionID txStatus expectedCurrent db =
     (let matches = (\<lambda>t. tr_ID t = transactionID \<and> (expectedCurrent \<noteq> [] \<longrightarrow> tr_Status t \<in> set expectedCurrent))
      in if count_where matches (db_Transactions db) = 0
         then Inl (GoWrap ''transaction with ID'' (GoSentinel ErrStatusUpdateSkipped))
         else Inr ((), db\<lparr>db_Transactions :=
                update_where matches (\<lambda>t. t\<lparr>tr_Status := txStatus\<rparr>) (db_Transactions db)\<rparr>))"

record transaction_update_spec =
  tus_ID :: nat
  tus_Status :: "tx_status option"
  tus_Description :: "string option"

definition UpdateTransaction :: "transaction_update_spec \<Rightarrow> unit db_tx" where
  "UpdateTransaction s db =
     (if tus_Status s = None \<and> tus_Description s = None then Inr ((), db)
      else if count_where (\<lambda>t. tr_ID t = tus_ID s) (db_Transactions db) = 0 then Inl (GoErr ''no rows updated'')
      else Inr ((), db\<lparr>db_Transactions := update_where (\<lambda>t. tr_ID t = tus_ID s)
        (\<lambda>t. t\<lparr>tr_Status := (case tus_Status s of None \<Rightarrow> tr_Status t | Some v \<Rightarrow> v),
               tr_Description := (case tus_Description s of None \<Rightarrow> tr_Description t | Some v \<Rightarrow> v)\<rparr>)
        (db_Transactions db)\<rparr>))"

text \<open>\<open>AddLabels\<close>: the association appends the labels that are not linked yet.\<close>

definition AddLabels :: "nat \<Rightarrow> string list \<Rightarrow> unit db_tx" where
  "AddLabels transactionID labels db =
     (if count_where (\<lambda>t. tr_ID t = transactionID) (db_Transactions db) = 0
      then Inl (GoWrap ''failed to replace labels'' (GoWrap ''failed to find transaction'' (GoSentinel ''gorm.ErrRecordNotFound'')))
      else Inr ((), db\<lparr>db_Transactions := update_where (\<lambda>t. tr_ID t = transactionID)
        (\<lambda>t. t\<lparr>tr_Labels := fold (\<lambda>l ls. if l \<in> set ls then ls else ls @ [l]) labels (tr_Labels t)\<rparr>)
        (db_Transactions db)\<rparr>))"

end
