(* ===== verification/Repo_KnownTx.thy ===== *)
theory Repo_KnownTx
  imports Repo_Transactions
begin

text \<open>
  The repository of known transactions \<open>pkg/internal/storage/repo/known_tx.go\<close> (with the notes of
  \<open>repo/tx_notes.go\<close> and \<open>SpendTransaction\<close> of \<open>repo/transactions.go\<close>): the state machine of a
  transaction on its way to the network. Every writer evaluates its guard in the \<open>WHERE\<close> clause of the
  update, which the model expresses by \<open>update_where\<close>. Building BEEF ancestry
  (\<open>known_tx_get_beef.go\<close>) is not modelled.
\<close>

section \<open>Notes\<close>

definition addTxNotes :: "tx_history_note list \<Rightarrow> database \<Rightarrow> database" where
  "addTxNotes txNotes db = (if txNotes = [] then db else db\<lparr>db_TxNotes := db_TxNotes db @ txNotes\<rparr>)"

definition addTxNote :: "tx_history_note \<Rightarrow> database \<Rightarrow> database" where
  "addTxNote txNote db = db\<lparr>db_TxNotes := db_TxNotes db @ [txNote]\<rparr>"

section \<open>Guarded status updates\<close>

text \<open>The columns a status update writes: a status that implies a broadcast also sets the flag.\<close>

definition set_known_status :: "proven_tx_req_status \<Rightarrow> known_tx_row \<Rightarrow> known_tx_row" where
  "set_known_status status k =
     k\<lparr>kt_Status := status, kt_WasBroadcast := (WasBroadcastStatus status \<or> kt_WasBroadcast k)\<rparr>"

definition guarded_row :: "string \<Rightarrow> proven_tx_req_status list \<Rightarrow> known_tx_row \<Rightarrow> bool" where
  "guarded_row txID skipForStatuses k \<longleftrightarrow> kt_TxID k = txID \<and>
     (skipForStatuses \<noteq> [] \<longrightarrow> kt_Status k \<notin> set skipForStatuses)"

definition applyKnownTxStatusGuarded ::
  "string \<Rightarrow> proven_tx_req_status \<Rightarrow> proven_tx_req_status list \<Rightarrow> history_note list \<Rightarrow> bool db_tx" where
  "applyKnownTxStatusGuarded txID status skipForStatuses txNotes db =
     (if count_where (guarded_row txID skipForStatuses) (db_KnownTxs db) = 0 then Inr (False, db)
      else Inr (True, addTxNotes (map (Note_Entity txID) txNotes)
        (db\<lparr>db_KnownTxs := update_where (guarded_row txID skipForStatuses) (set_known_status status) (db_KnownTxs db)\<rparr>)))"

definition updateKnownTxStatus ::
  "string \<Rightarrow> proven_tx_req_status \<Rightarrow> proven_tx_req_status list \<Rightarrow> history_note list \<Rightarrow> unit db_tx" where
  "updateKnownTxStatus txID status skipForStatuses txNotes db =
     (if count_where (guarded_row txID skipForStatuses) (db_KnownTxs db) = 0
      then Inl (GoWrap ''known tx'' (GoSentinel ErrStatusUpdateSkipped))
      else Inr ((), addTxNotes (map (Note_Entity txID) txNotes)
        (db\<lparr>db_KnownTxs := update_where (guarded_row txID skipForStatuses) (set_known_status status) (db_KnownTxs db)\<rparr>)))"

section \<open>Parking and claiming\<close>

definition KnownTxNeverPostedStatuses :: "proven_tx_req_status list" where
  "KnownTxNeverPostedStatuses = [ProvenTxStatusUnprocessed, ProvenTxStatusUnsent, ProvenTxStatusNoSend]"

definition parkable :: "string \<Rightarrow> known_tx_row \<Rightarrow> bool" where
  "parkable txID k \<longleftrightarrow> kt_TxID k = txID \<and> kt_Status k \<in> set KnownTxNeverPostedStatuses \<and>
     \<not> kt_WasBroadcast k \<and> kt_Attempts k = 0"

definition ParkUnbroadcastKnownTx :: "string \<Rightarrow> history_note list \<Rightarrow> bool db_tx" where
  "ParkUnbroadcastKnownTx txID txNotes db =
     (if count_where (parkable txID) (db_KnownTxs db) = 0 then Inr (False, db)
      else Inr (True, addTxNotes (map (Note_Entity txID) txNotes)
        (db\<lparr>db_KnownTxs := update_where (parkable txID)
           (\<lambda>k. k\<lparr>kt_Status := ProvenTxStatusInvalid\<rparr>) (db_KnownTxs db)\<rparr>)))"

definition KnownTxClaimableForBroadcastStatuses :: "proven_tx_req_status list" where
  "KnownTxClaimableForBroadcastStatuses =
     [ProvenTxStatusUnprocessed, ProvenTxStatusUnsent, ProvenTxStatusSending, ProvenTxStatusNoSend,
      ProvenTxStatusNonFinal, ProvenTxStatusUnknown]"

definition ClaimKnownTxsForBroadcast :: "string list \<Rightarrow> (string list) db_tx" where
  "ClaimKnownTxsForBroadcast txIDs db =
     (if txIDs = [] then Inr ([], db)
      else
        let rows = filter (\<lambda>k. kt_TxID k \<in> set txIDs \<and> kt_Status k \<in> set KnownTxClaimableForBroadcastStatuses)
              (db_KnownTxs db);
            claimed = map kt_TxID rows
        in if claimed = [] then Inr ([], db)
           else Inr (claimed, db\<lparr>db_KnownTxs := update_where
             (\<lambda>k. kt_TxID k \<in> set claimed \<and> kt_Status k \<in> set KnownTxClaimableForBroadcastStatuses)
             (\<lambda>k. k\<lparr>kt_Status := ProvenTxStatusSending, kt_WasBroadcast := True\<rparr>) (db_KnownTxs db)\<rparr>))"

section \<open>Recording a transaction\<close>

record upsert_known_tx =
  ukt_InputBeef :: "bytes option"
  ukt_RawTx :: "bytes option"
  ukt_TxID :: string
  ukt_Status :: proven_tx_req_status
  ukt_SkipForStatuses :: "proven_tx_req_status list"

text \<open>The row of a txid that is not in the table: the zero value of the Go struct.\<close>

definition zero_known_tx :: "int \<Rightarrow> known_tx_row" where
  "zero_known_tx now = \<lparr>kt_CreatedAt = now, kt_UpdatedAt = now, kt_TxID = '''', kt_Status = ProvenTxStatusOther '''',
     kt_Attempts = 0, kt_RebroadcastAttempts = 0, kt_Notified = False, kt_Batch = None, kt_Notify = ''{}'',
     kt_WasBroadcast = False, kt_RawTx = None, kt_InputBeef = None, kt_BlockHeight = None, kt_MerklePath = [],
     kt_MerkleRoot = None, kt_BlockHash = None\<rparr>"

definition find_known :: "string \<Rightarrow> database \<Rightarrow> known_tx_row option" where
  "find_known txID db = find (\<lambda>k. kt_TxID k = txID) (db_KnownTxs db)"

definition upsertKnownTx :: "upsert_known_tx \<Rightarrow> history_note \<Rightarrow> unit db_tx" where
  "upsertKnownTx req txNote db =
     (let model = (case find_known (ukt_TxID req) db of None \<Rightarrow> zero_known_tx (db_Now db) | Some k \<Rightarrow> k) in
      if ukt_SkipForStatuses req \<noteq> [] \<and> kt_Status model \<in> set (ukt_SkipForStatuses req) then Inr ((), db)
      else
        let model' = model\<lparr>kt_Status := ukt_Status req, kt_TxID := ukt_TxID req, kt_RawTx := ukt_RawTx req,
              kt_InputBeef := ukt_InputBeef req,
              kt_WasBroadcast := (kt_WasBroadcast model \<or> WasBroadcastStatus (ukt_Status req)),
              kt_UpdatedAt := db_Now db\<rparr>;
            rows = (if find_known (ukt_TxID req) db = None then db_KnownTxs db @ [model']
              else update_where (\<lambda>k. kt_TxID k = ukt_TxID req) (\<lambda>_. model') (db_KnownTxs db))
        in Inr ((), addTxNote (Note_Entity (ukt_TxID req) txNote) (db\<lparr>db_KnownTxs := rows\<rparr>)))"

text \<open>The signed transaction is a third-party object; of it the code reads the locking scripts of
  its outputs.\<close>

record updated_tx =
  upd_UserID :: int
  upd_TransactionID :: nat
  upd_TxID :: string
  upd_TxStatus :: tx_status
  upd_ReqTxStatus :: proven_tx_req_status
  upd_InputBeef :: "bytes option"
  upd_RawTx :: "bytes option"
  upd_Tx :: "bytes list option"

definition GetLockingScriptBytes :: "updated_tx \<Rightarrow> nat \<Rightarrow> bytes result" where
  "GetLockingScriptBytes ut vout = (case upd_Tx ut of
     None \<Rightarrow> Inl (GoErr ''transaction is nil'')
   | Some scripts \<Rightarrow>
       if length scripts \<le> vout then Inl (GoErr ''output index is out of range of provided tx outputs count'')
       else Inr (scripts ! vout))"

fun set_locking_scripts :: "updated_tx \<Rightarrow> output_row list \<Rightarrow> unit db_tx" where
  "set_locking_scripts ut [] db = Inr ((), db)"
| "set_locking_scripts ut (out # outs) db =
     rbind (rwrap ''failed to get locking script'' (GetLockingScriptBytes ut (or_Vout out))) (\<lambda>script.
       set_locking_scripts ut outs (db\<lparr>db_Outputs := update_where (\<lambda>r. or_ID r = or_ID out)
         (\<lambda>r. r\<lparr>or_LockingScript := Some script\<rparr>) (db_Outputs db)\<rparr>))"

definition SpendTransaction :: "updated_tx \<Rightarrow> history_note \<Rightarrow> unit db_tx" where
  "SpendTransaction ut txNote = tx_wrap ''failed to update transaction'' (\<lambda>db.
     let db1 = db\<lparr>db_Transactions := update_where (\<lambda>t. tr_UserID t = upd_UserID ut \<and> tr_ID t = upd_TransactionID ut)
           (\<lambda>t. t\<lparr>tr_TxID := Some (upd_TxID ut), tr_InputBeef := None, tr_Status := upd_TxStatus ut\<rparr>)
           (db_Transactions db)\<rparr>;
         db2 = db1\<lparr>db_UserUTXOs :=
           filter (\<lambda>u. uu_ReservedByID u \<noteq> Some (upd_TransactionID ut)) (db_UserUTXOs db1)\<rparr>;
         changeOutputs = filter (\<lambda>r. or_UserID r = upd_UserID ut \<and> or_TransactionID r = upd_TransactionID ut \<and>
           isChangeDaoScope r \<and> or_SpentBy r = None) (db_Outputs db2)
     in rbind (set_locking_scripts ut changeOutputs db2) (\<lambda>(_, db3).
       upsertKnownTx \<lparr>ukt_InputBeef = upd_InputBeef ut, ukt_RawTx = upd_RawTx ut, ukt_TxID = upd_TxID ut,
         ukt_Status = upd_ReqTxStatus ut, ukt_SkipForStatuses = ProvenTxReqBeyondBroadcastStageStatuses\<rparr> txNote db3))"

section \<open>Composite transitions\<close>

definition set_transactions_status :: "string \<Rightarrow> tx_status \<Rightarrow> database \<Rightarrow> database" where
  "set_transactions_status txID status db = db\<lparr>db_Transactions :=
     update_where (\<lambda>t. tr_TxID t = Some txID) (\<lambda>t. t\<lparr>tr_Status := status\<rparr>) (db_Transactions db)\<rparr>"

definition FailKnownTxAsDoubleSpend :: "string \<Rightarrow> proven_tx_req_status list \<Rightarrow> history_note list \<Rightarrow> bool db_tx" where
  "FailKnownTxAsDoubleSpend txID skipForStatuses txNotes db =
     rbind (applyKnownTxStatusGuarded txID ProvenTxStatusDoubleSpend skipForStatuses txNotes db) (\<lambda>(applied, db1).
       if \<not> applied then Inr (False, db1)
       else Inr (True, set_transactions_status txID TxStatusFailed db1))"

definition AdvanceKnownTxToBroadcasted ::
  "go_lib \<Rightarrow> string \<Rightarrow> proven_tx_req_status list \<Rightarrow> history_note list \<Rightarrow> bool db_tx" where
  "AdvanceKnownTxToBroadcasted lib txID skipForStatuses txNotes db =
     rbind (applyKnownTxStatusGuarded txID ProvenTxStatusUnmined skipForStatuses txNotes db) (\<lambda>(applied, db1).
       if \<not> applied then Inr (False, db1)
       else rbind (rwrap ''failed to make outputs spendable''
           (createUTXOsForSpendableOutputsByTxID lib txID (set_transactions_status txID TxStatusUnproven db1)))
         (\<lambda>(_, db2). Inr (True, db2)))"

record known_tx_as_mined =
  kam_TxID :: string
  kam_BlockHeight :: nat
  kam_MerklePath :: bytes
  kam_MerkleRoot :: string
  kam_BlockHash :: string
  kam_Notes :: "history_note list"

text \<open>\<open>Updates\<close> with a struct writes its non-zero fields: a nil merkle path leaves the column as it is.\<close>

definition UpdateKnownTxAsMined :: "known_tx_as_mined \<Rightarrow> database \<Rightarrow> database" where
  "UpdateKnownTxAsMined m db =
     (let db1 = db\<lparr>db_KnownTxs := update_where (\<lambda>k. kt_TxID k = kam_TxID m)
            (\<lambda>k. k\<lparr>kt_Status := ProvenTxStatusCompleted, kt_WasBroadcast := True,
                   kt_BlockHash := Some (kam_BlockHash m), kt_BlockHeight := Some (kam_BlockHeight m),
                   kt_MerklePath := (if kam_MerklePath m = [] then kt_MerklePath k else kam_MerklePath m),
                   kt_MerkleRoot := Some (kam_MerkleRoot m), kt_Notified := True, kt_UpdatedAt := db_Now db\<rparr>)
            (db_KnownTxs db)\<rparr>;
          db2 = addTxNotes (map (Note_Entity (kam_TxID m)) (kam_Notes m)) db1;
          db3 = set_transactions_status (kam_TxID m) TxStatusCompleted db2
      in db3\<lparr>db_UserUTXOs := update_where
           (\<lambda>u. \<exists>r \<in> set (db_Outputs db3). or_ID r = uu_OutputID u \<and>
              or_TransactionID r \<in> set (transaction_ids (kam_TxID m) db3))
           (\<lambda>u. u\<lparr>uu_UTXOStatus := UTXOStatusMined\<rparr>) (db_UserUTXOs db3)\<rparr>)"

section \<open>Attempts, timeouts and the rebroadcast budget\<close>

definition IncreaseKnownTxAttemptsForTxIDs :: "string list \<Rightarrow> database \<Rightarrow> database" where
  "IncreaseKnownTxAttemptsForTxIDs txIDs db =
     (if txIDs = [] then db
      else db\<lparr>db_KnownTxs := update_where (\<lambda>k. kt_TxID k \<in> set txIDs)
        (\<lambda>k. k\<lparr>kt_Attempts := kt_Attempts k + 1\<rparr>) (db_KnownTxs db)\<rparr>)"

definition SetBatchForKnownTxs :: "string list \<Rightarrow> string \<Rightarrow> database \<Rightarrow> database" where
  "SetBatchForKnownTxs txIDs batch db =
     (if txIDs = [] then db
      else db\<lparr>db_KnownTxs := update_where (\<lambda>k. kt_TxID k \<in> set txIDs)
        (\<lambda>k. k\<lparr>kt_Batch := Some batch\<rparr>) (db_KnownTxs db)\<rparr>)"

definition withReadyForStatusSyncFilter :: "proven_tx_req_status list \<Rightarrow> known_tx_row \<Rightarrow> bool" where
  "withReadyForStatusSyncFilter txStatus k =
     (let statusesWithoutUnsent = filter (\<lambda>s. s \<noteq> ProvenTxStatusUnsent) txStatus in
      if statusesWithoutUnsent = [] then kt_Status k = ProvenTxStatusUnsent \<and> kt_WasBroadcast k
      else kt_Status k \<in> set statusesWithoutUnsent \<or>
        (kt_Status k = ProvenTxStatusUnsent \<and> kt_WasBroadcast k))"

definition proofTimeoutUpdates :: "nat \<Rightarrow> known_tx_row \<Rightarrow> known_tx_row" where
  "proofTimeoutUpdates maxRebroadcastAttempts k =
     (let wasBroadcast = (kt_WasBroadcast k \<or> WasBroadcastStatus (kt_Status k)) in
      if wasBroadcast \<and> (maxRebroadcastAttempts = 0 \<or> kt_RebroadcastAttempts k < maxRebroadcastAttempts)
      then k\<lparr>kt_Status := ProvenTxStatusUnsent, kt_Attempts := 0, kt_WasBroadcast := True,
             kt_RebroadcastAttempts := u64_add (kt_RebroadcastAttempts k) 1\<rparr>
      else k\<lparr>kt_Status := ProvenTxStatusInvalid, kt_WasBroadcast := wasBroadcast\<rparr>)"

definition timed_out :: "nat \<Rightarrow> proven_tx_req_status list \<Rightarrow> known_tx_row \<Rightarrow> bool" where
  "timed_out attempts statuses k \<longleftrightarrow> attempts \<le> kt_Attempts k \<and>
     (statuses \<noteq> [] \<longrightarrow> withReadyForStatusSyncFilter statuses k)"

definition ApplyProofTimeouts ::
  "nat \<Rightarrow> nat \<Rightarrow> proven_tx_req_status list \<Rightarrow> database \<Rightarrow> known_tx_row list \<times> database" where
  "ApplyProofTimeouts attempts maxRebroadcastAttempts statuses db =
     (if attempts = 0 then ([], db)
      else
        let timedOut = filter (timed_out attempts statuses) (db_KnownTxs db) in
        (map (proofTimeoutUpdates maxRebroadcastAttempts) timedOut,
         db\<lparr>db_KnownTxs := fold (\<lambda>knownTx. update_where (\<lambda>k. kt_TxID k = kt_TxID knownTx)
              (\<lambda>k. let upd = proofTimeoutUpdates maxRebroadcastAttempts knownTx in
                   k\<lparr>kt_Status := kt_Status upd, kt_Attempts := kt_Attempts upd,
                     kt_WasBroadcast := kt_WasBroadcast upd,
                     kt_RebroadcastAttempts := kt_RebroadcastAttempts upd\<rparr>)) timedOut (db_KnownTxs db)\<rparr>))"

definition RequeueKnownTxForRebroadcast ::
  "string \<Rightarrow> nat \<Rightarrow> proven_tx_req_status list \<Rightarrow> history_note list \<Rightarrow> (proven_tx_req_status \<times> bool) db_tx" where
  "RequeueKnownTxForRebroadcast txID maxRebroadcastAttempts fromStatuses txNotes db =
     (let matches = (\<lambda>k. kt_TxID k = txID \<and> kt_Status k \<in> set fromStatuses) in
      case filter matches (db_KnownTxs db) of
        [] \<Rightarrow> Inr ((ProvenTxStatusOther '''', False), db)
      | candidate # _ \<Rightarrow>
          let upd = proofTimeoutUpdates maxRebroadcastAttempts candidate in
          Inr ((kt_Status upd, True), addTxNotes (map (Note_Entity txID) txNotes)
            (db\<lparr>db_KnownTxs := update_where matches
               (\<lambda>k. k\<lparr>kt_Status := kt_Status upd, kt_Attempts := kt_Attempts upd,
                      kt_WasBroadcast := kt_WasBroadcast upd,
                      kt_RebroadcastAttempts := kt_RebroadcastAttempts upd\<rparr>) (db_KnownTxs db)\<rparr>)))"

text \<open>A reorganisation: every transaction proven in one of the orphaned blocks loses its proof.\<close>

definition InvalidateMerkleProofsByBlockHash :: "string list \<Rightarrow> database \<Rightarrow> nat \<times> database" where
  "InvalidateMerkleProofsByBlockHash blockHashes db =
     (if blockHashes = [] then (0, db)
      else
        let matches = (\<lambda>k. \<exists>h \<in> set blockHashes. kt_BlockHash k = Some h);
            affectedTxs = filter matches (db_KnownTxs db)
        in if affectedTxs = [] then (0, db)
           else
             let db1 = db\<lparr>db_KnownTxs := update_where matches
                   (\<lambda>k. k\<lparr>kt_MerklePath := [], kt_BlockHeight := None, kt_MerkleRoot := None, kt_BlockHash := None,
                          kt_Attempts := 0, kt_WasBroadcast := True, kt_Status := ProvenTxStatusReorg,
                          kt_UpdatedAt := db_Now db\<rparr>) (db_KnownTxs db)\<rparr>;
                 notes = map (\<lambda>k. Note_Entity (kt_TxID k)
                   (note_ReorgInvalidatedProof (case kt_BlockHash k of None \<Rightarrow> '''' | Some h \<Rightarrow> h))) affectedTxs
             in (length affectedTxs, addTxNotes notes db1))"

section \<open>Lookups\<close>

record known_tx_for_status_sync =
  kts_TxID :: string
  kts_Attempts :: nat
  kts_RebroadcastAttempts :: nat
  kts_Status :: proven_tx_req_status
  kts_WasBroadcast :: bool
  kts_Batch :: "string option"

definition mapKnownTxRowsForStatusSync :: "known_tx_row list \<Rightarrow> known_tx_for_status_sync list" where
  "mapKnownTxRowsForStatusSync rows = map (\<lambda>row.
     \<lparr>kts_TxID = kt_TxID row, kts_Attempts = kt_Attempts row, kts_RebroadcastAttempts = kt_RebroadcastAttempts row,
      kts_Status = kt_Status row, kts_WasBroadcast = (kt_WasBroadcast row \<or> WasBroadcastStatus (kt_Status row)),
      kts_Batch = kt_Batch row\<rparr>) rows"

definition FindKnownTxRawTx :: "string \<Rightarrow> database \<Rightarrow> bytes option" where
  "FindKnownTxRawTx txID db = (case find_known txID db of None \<Rightarrow> None | Some k \<Rightarrow> kt_RawTx k)"

definition FindKnownTxStatuses :: "string list \<Rightarrow> database \<Rightarrow> (string \<rightharpoonup> proven_tx_req_status)" where
  "FindKnownTxStatuses txIDs db =
     map_of (rev (map (\<lambda>k. (kt_TxID k, kt_Status k)) (filter (\<lambda>k. kt_TxID k \<in> set txIDs) (db_KnownTxs db))))"

definition AllKnownTxsExist :: "string list \<Rightarrow> proven_tx_req_status list \<Rightarrow> database \<Rightarrow> bool" where
  "AllKnownTxsExist txIDs sourceTxsStatusFilter db \<longleftrightarrow>
     count_where (\<lambda>k. kt_TxID k \<in> set txIDs \<and> (case kt_RawTx k of None \<Rightarrow> False | Some b \<Rightarrow> 0 < length b) \<and>
        (case kt_InputBeef k of None \<Rightarrow> False | Some b \<Rightarrow> 0 < length b) \<and>
        (sourceTxsStatusFilter \<noteq> [] \<longrightarrow> kt_Status k \<in> set sourceTxsStatusFilter)) (db_KnownTxs db) = length txIDs"

definition FindKnownTxIDsByStatuses ::
  "proven_tx_req_status list \<Rightarrow> (known_tx_row list \<Rightarrow> known_tx_row list) \<Rightarrow> database \<Rightarrow> known_tx_for_status_sync list" where
  "FindKnownTxIDsByStatuses txStatus opts db =
     mapKnownTxRowsForStatusSync (opts (filter (\<lambda>k. kt_Status k \<in> set txStatus) (db_KnownTxs db)))"

definition FindKnownTxIDsReadyForStatusSync ::
  "proven_tx_req_status list \<Rightarrow> int \<Rightarrow> (known_tx_row list \<Rightarrow> known_tx_row list) \<Rightarrow> database \<Rightarrow> known_tx_for_status_sync list" where
  "FindKnownTxIDsReadyForStatusSync txStatus reorgReproveDelay opts db =
     mapKnownTxRowsForStatusSync (opts (filter (\<lambda>k. withReadyForStatusSyncFilter txStatus k \<and>
       (0 < reorgReproveDelay \<longrightarrow>
          \<not> (kt_Status k = ProvenTxStatusReorg \<and> db_Now db - reorgReproveDelay < kt_UpdatedAt k))) (db_KnownTxs db)))"

definition needs_failure_review :: "database \<Rightarrow> known_tx_row \<Rightarrow> bool" where
  "needs_failure_review db k \<longleftrightarrow> (\<exists>t \<in> set (db_Transactions db). tr_TxID t = Some (kt_TxID k) \<and>
     (tr_Status t \<noteq> TxStatusFailed \<or> (\<exists>r \<in> set (db_Outputs db). or_SpentBy r = Some (tr_ID t))))"

definition FindKnownTxIDsByStatusesNeedingFailureReview ::
  "proven_tx_req_status list \<Rightarrow> int \<Rightarrow> database \<Rightarrow> known_tx_for_status_sync list" where
  "FindKnownTxIDsByStatusesNeedingFailureReview txStatus limit db =
     (if txStatus = [] then []
      else
        let limit' = (if limit \<le> 0 then 1000 else limit) in
        mapKnownTxRowsForStatusSync (take (nat limit') (sort_key kt_CreatedAt
          (filter (\<lambda>k. kt_Status k \<in> set txStatus \<and> needs_failure_review db k) (db_KnownTxs db)))))"

end
