(* ===== verification/Abort_Action.thy ===== *)
theory Abort_Action
  imports Repo_KnownTx
begin

text \<open>
  Releasing an action before it is broadcast: \<open>pkg/storage/internal/actions/abort.go\<close>,
  \<open>abort_abandoned.go\<close> and \<open>release.go\<close>.

  An abort first parks the shared KnownTx in a database transaction of its own, then gives the inputs
  back in a unit of work; both are committed separately, as in the code.
\<close>

section \<open>Validation\<close>

definition ErrNotAbortableAction :: string where
  "ErrNotAbortableAction = ''wdk.ErrNotAbortableAction''"

definition txIDLength :: nat where
  "txIDLength = 64"

definition isPotentiallyTxID :: "string \<Rightarrow> bool" where
  "isPotentiallyTxID reference \<longleftrightarrow> length reference = txIDLength"

definition validateTxStatusForAbort :: "tx_status \<Rightarrow> unit result" where
  "validateTxStatusForAbort txStatus =
     (if txStatus \<in> {TxStatusCompleted, TxStatusFailed, TxStatusAborted, TxStatusSending, TxStatusUnproven}
      then Inl (GoWrap ''action with this status cannot be aborted'' (GoSentinel ErrNotAbortableAction))
      else if txStatus \<in> {TxStatusUnprocessed, TxStatusUnsigned, TxStatusNoSend, TxStatusNonFinal, TxStatusUnfail}
      then Inr ()
      else Inl (GoWrap ''unexpected transaction status'' (GoSentinel ErrNotAbortableAction)))"

definition validateTx :: "transaction_row \<Rightarrow> database \<Rightarrow> unit result" where
  "validateTx txEntity db =
     (if \<not> tr_IsOutgoing txEntity
      then Inl (GoWrap ''must be an outgoing transaction'' (GoSentinel ErrNotAbortableAction))
      else rbind (validateTxStatusForAbort (tr_Status txEntity)) (\<lambda>_.
        rwrap ''cannot abort transaction with spent outputs'' (ShouldTxOutputsBeUnspent (tr_ID txEntity) db)))"

definition txStatusesAbortableBeforeBroadcast :: "tx_status list" where
  "txStatusesAbortableBeforeBroadcast =
     [TxStatusUnsigned, TxStatusUnprocessed, TxStatusNoSend, TxStatusNonFinal, TxStatusUnfail]"

fun splitTxsForPreBroadcastAbort :: "transaction_row list \<Rightarrow> int option \<Rightarrow> nat list \<times> bool" where
  "splitTxsForPreBroadcastAbort [] userScope = ([], False)"
| "splitTxsForPreBroadcastAbort (tx # txs) userScope =
     (let inScope = (case userScope of None \<Rightarrow> True | Some u \<Rightarrow> tr_UserID tx = u);
          abortable = tr_Status tx \<in> set txStatusesAbortableBeforeBroadcast;
          (toAbort, othersStillActive) = splitTxsForPreBroadcastAbort txs userScope
      in if inScope \<and> abortable then (tr_ID tx # toAbort, othersStillActive)
         else if tr_Status tx = TxStatusAborted \<or> tr_Status tx = TxStatusFailed then (toAbort, othersStillActive)
         else (toAbort, True))"

section \<open>Aborting one transaction\<close>

definition parkKnownTxForAbort :: "transaction_row \<Rightarrow> string \<Rightarrow> unit db_flow" where
  "parkKnownTxForAbort txEntity txID db =
     (let transactions = filter (\<lambda>t. tr_TxID t = Some txID) (db_Transactions db);
          (_, othersStillActive) = splitTxsForPreBroadcastAbort transactions (Some (tr_UserID txEntity))
      in if othersStillActive
         then (Inl (GoWrap ''transaction is still in flight for another user'' (GoSentinel ErrNotAbortableAction)), db)
         else (case in_db_tx (ParkUnbroadcastKnownTx txID [note_AbortBeforeBroadcast ProvenTxStatusInvalid]) db of
             (Inl e, db') \<Rightarrow> (Inl (wrap_error ''failed to park known tx for abort'' e), db')
           | (Inr parked, db') \<Rightarrow>
               if \<not> parked
               then (Inl (GoWrap ''transaction has broadcast evidence'' (GoSentinel ErrNotAbortableAction)), db')
               else (Inr (), db')))"

text \<open>The unit of work of \<open>abortTx\<close>.\<close>

definition abort_uow :: "go_lib \<Rightarrow> nat \<Rightarrow> unit db_tx" where
  "abort_uow lib i db =
     rbind (rwrap ''failed to recreate spent outputs for transaction''
         (RecreateSpentOutputs lib i (UnreserveUTXOs i db))) (\<lambda>(_, db1).
       rwrap ''failed to update transaction status''
         (UpdateTransactionStatusByID i TxStatusAborted
           [TxStatusUnprocessed, TxStatusUnsigned, TxStatusNoSend, TxStatusNonFinal, TxStatusUnfail]
           (MarkCreatedOutputsAsNotSpendable i db1)))"

definition abortTx :: "go_lib \<Rightarrow> transaction_row \<Rightarrow> unit db_flow" where
  "abortTx lib txEntity db = (case tr_TxID txEntity of
     None \<Rightarrow> in_db_tx (abort_uow lib (tr_ID txEntity)) db
   | Some txID \<Rightarrow> flow_bind (parkKnownTxForAbort txEntity txID) (\<lambda>_. in_db_tx (abort_uow lib (tr_ID txEntity))) db)"

definition findTransactionForAbort :: "int \<Rightarrow> string \<Rightarrow> database \<Rightarrow> transaction_row option" where
  "findTransactionForAbort userID referenceStr db =
     (case FindTransactionByReference userID referenceStr db of
        Some t \<Rightarrow> Some t
      | None \<Rightarrow> if isPotentiallyTxID referenceStr then FindTransactionByUserIDAndTxID userID referenceStr db else None)"

definition AbortAction :: "go_lib \<Rightarrow> int \<Rightarrow> string \<Rightarrow> bool db_flow" where
  "AbortAction lib userID referenceStr db =
     (case findTransactionForAbort userID referenceStr db of
        None \<Rightarrow> (Inl (GoErr ''no transaction found with reference or txid''), db)
      | Some txEntity \<Rightarrow>
          (case validateTx txEntity db of
             Inl e \<Rightarrow> (Inl (wrap_error ''transaction validation failed'' e), db)
           | Inr _ \<Rightarrow>
               (case abortTx lib txEntity db of
                  (Inl e, db') \<Rightarrow> (Inl (wrap_error ''failed to abort transaction'' e), db')
                | (Inr _, db') \<Rightarrow> (Inr True, db'))))"

section \<open>The sweep of abandoned transactions\<close>

definition failAbandonedMaxPages :: nat where "failAbandonedMaxPages = 10"
definition failAbandonedItemsPerPage :: nat where "failAbandonedItemsPerPage = 1000"

fun abandoned_pages :: "nat \<Rightarrow> int \<Rightarrow> paging \<Rightarrow> database \<Rightarrow> nat list" where
  "abandoned_pages 0 until page db = []"
| "abandoned_pages (Suc left) until page db =
     (let transactionIDs = FindTransactionIDsForAbort (Some until) (Some page) db in
      transactionIDs @ (if length transactionIDs < failAbandonedItemsPerPage then []
        else abandoned_pages left until (Next page) db))"

definition findTransactionByID :: "nat \<Rightarrow> database \<Rightarrow> transaction_row result" where
  "findTransactionByID i db = (case filter (\<lambda>t. tr_ID t = i) (db_Transactions db) of
     [] \<Rightarrow> Inl (GoErr ''transaction not found'') | t # _ \<Rightarrow> Inr t)"

definition abort_abandoned_one :: "go_lib \<Rightarrow> nat \<Rightarrow> database \<Rightarrow> database" where
  "abort_abandoned_one lib i db =
     (case ShouldTxOutputsBeUnspent i db of
        Inl _ \<Rightarrow> db
      | Inr _ \<Rightarrow> (case findTransactionByID i db of Inl _ \<Rightarrow> db | Inr txEntity \<Rightarrow> snd (abortTx lib txEntity db)))"

text \<open>The mutex that keeps two sweeps apart is not modelled: a sweep that finds it taken does nothing.\<close>

definition AbortAbandoned :: "go_lib \<Rightarrow> int \<Rightarrow> database \<Rightarrow> database" where
  "AbortAbandoned lib minTransactionAge db =
     (let paging = \<lparr>pg_Limit = int failAbandonedItemsPerPage, pg_Offset = 0, pg_Sort = ''asc'', pg_SortBy = '''', pg_ThenBy = ''''\<rparr>;
          idsToAbort = abandoned_pages failAbandonedMaxPages (db_Now db - minTransactionAge) paging db
      in fold (abort_abandoned_one lib) idsToAbort db)"

section \<open>The compensating release\<close>

text \<open>\<open>release\<close> of \<open>release.go\<close>; \<open>None\<close> is the nil release. The log lines of \<open>onError\<close> are not modelled.\<close>

record release_state =
  rl_userID :: int
  rl_reference :: string
  rl_armed :: bool

definition newRelease :: "int \<Rightarrow> release_state" where
  "newRelease userID = \<lparr>rl_userID = userID, rl_reference = '''', rl_armed = False\<rparr>"

definition arm :: "string \<Rightarrow> release_state option \<Rightarrow> release_state option" where
  "arm reference r = (case r of None \<Rightarrow> None
     | Some s \<Rightarrow> if reference = '''' then Some s else Some (s\<lparr>rl_reference := reference, rl_armed := True\<rparr>))"

definition disarm :: "release_state option \<Rightarrow> release_state option" where
  "disarm r = map_option (\<lambda>s. s\<lparr>rl_armed := False\<rparr>) r"

text \<open>\<open>aborter\<close> is nil or the abort action; \<open>onError\<close> swallows its error.\<close>

definition onError :: "(int \<Rightarrow> string \<Rightarrow> bool db_flow) option \<Rightarrow> go_error option \<Rightarrow>
    release_state option \<Rightarrow> database \<Rightarrow> release_state option \<times> database" where
  "onError aborter cause r db = (case r of None \<Rightarrow> (None, db)
     | Some s \<Rightarrow>
         (case (cause, aborter) of
            (Some _, Some abort) \<Rightarrow>
              if rl_armed s then (Some (s\<lparr>rl_armed := False\<rparr>), snd (abort (rl_userID s) (rl_reference s) db))
              else (Some s, db)
          | _ \<Rightarrow> (Some s, db)))"

end
