(* ===== verification/Parents_First.thy ===== *)
theory Parents_First
  imports Prelude
begin

text \<open>
  The posting order of a batch, \<open>pkg/internal/txutils/parents_first.go\<close>.

  A BEEF is a third-party container of transactions; of it the code looks up transactions by txid and
  reads the source txids of their inputs. The recursive closure \<open>visit\<close> shares its two accumulators between
  all calls; \<open>visits\<close> threads them through the calls of one loop. Whether it returns is not
  evident from the recursion, so it is a partial function, and that it returns is part of the theorem.
\<close>

section \<open>Definitions\<close>

record sdk_tx =
  stx_TxID :: string
  stx_SourceTXIDs :: "string option list"
  stx_LockingScripts :: "nat list list"

type_synonym beef = "string \<rightharpoonup> sdk_tx"

definition BeefTx :: "beef \<Rightarrow> string \<Rightarrow> sdk_tx option" where
  "BeefTx beef txID = beef txID"

definition batchParents :: "beef \<Rightarrow> string \<Rightarrow> string list \<Rightarrow> string list" where
  "batchParents beef txID batch = (case BeefTx beef txID of
     None \<Rightarrow> []
   | Some tx \<Rightarrow> concat (map (\<lambda>src. case src of
       None \<Rightarrow> [] | Some parentID \<Rightarrow> if parentID \<in> set batch then [parentID] else []) (stx_SourceTXIDs tx)))"

partial_function (option) visits ::
  "(string \<Rightarrow> string list) \<Rightarrow> string list \<Rightarrow> string list \<times> string list \<Rightarrow> (string list \<times> string list) option" where
  "visits parents txIDs s = (case txIDs of
     [] \<Rightarrow> Some s
   | txID # rest \<Rightarrow>
       if txID \<in> set (fst s) then visits parents rest s
       else Option.bind (visits parents (parents txID) (txID # fst s, snd s))
              (\<lambda>(visited, ordered). visits parents rest (visited, ordered @ [txID])))"

definition ParentsFirst :: "beef option \<Rightarrow> string list \<Rightarrow> string list option" where
  "ParentsFirst beef txIDs = (case beef of
     None \<Rightarrow> Some txIDs
   | Some b \<Rightarrow>
       if length txIDs < 2 then Some txIDs
       else map_option snd (visits (\<lambda>txID. batchParents b txID txIDs) txIDs ([], [])))"

section \<open>Specification\<close>

text \<open>No transaction comes before a parent of it.\<close>

definition parents_before :: "(string \<Rightarrow> string list) \<Rightarrow> string list \<Rightarrow> bool" where
  "parents_before parents ordered \<longleftrightarrow> (\<forall>ys x zs. ordered = ys @ x # zs \<longrightarrow> set (parents x) \<subseteq> set ys)"

lemma parents_before_Nil [simp]: "parents_before parents []"
  by (simp add: parents_before_def)

lemma parents_before_snoc:
  assumes "parents_before parents xs" and "set (parents x) \<subseteq> set xs"
  shows "parents_before parents (xs @ [x])"
  unfolding parents_before_def
proof (intro allI impI)
  fix ys y zs
  assume eq: "xs @ [x] = ys @ y # zs"
  show "set (parents y) \<subseteq> set ys"
  proof (cases zs rule: rev_cases)
    case Nil
    with eq assms(2) show ?thesis by simp
  next
    case (snoc ws z)
    with eq have "xs = ys @ y # ws" by simp
    with assms(1) show ?thesis by (auto simp: parents_before_def)
  qed
qed

lemma visits_Nil [simp]: "visits parents [] s = Some s"
  by (subst visits.simps) simp

lemma visits_seen: "x \<in> set v \<Longrightarrow> visits parents (x # xs) (v, w) = visits parents xs (v, w)"
  by (subst visits.simps) simp

lemma visits_new:
  "x \<notin> set v \<Longrightarrow> visits parents (x # xs) (v, w) = Option.bind (visits parents (parents x) (x # v, w))
     (\<lambda>(v', w'). visits parents xs (v', w' @ [x]))"
  by (subst visits.simps) simp

lemma visits_all_seen: "set xs \<subseteq> set v \<Longrightarrow> visits parents xs (v, w) = Some (v, w)"
  by (induction xs) (simp_all add: visits_seen)

text \<open>What a loop of visits starts from and what it does to the accumulators: the transactions on the current
  path are visited but not yet in the order. The flag says whether the batch is known to have no cycle.\<close>

definition visit_state :: "bool \<Rightarrow> string set \<Rightarrow> (string \<Rightarrow> string list) \<Rightarrow> string list \<Rightarrow> string list \<Rightarrow> bool" where
  "visit_state cycle_free B parents v w \<longleftrightarrow>
     set w \<subseteq> set v \<and> set v \<subseteq> B \<and> distinct w \<and> (cycle_free \<longrightarrow> parents_before parents w)"

definition visited :: "string list \<Rightarrow> string list \<Rightarrow> string list \<Rightarrow> string list \<Rightarrow> string list \<Rightarrow> bool" where
  "visited xs v w v' w' \<longleftrightarrow>
     set v \<subseteq> set v' \<and> set xs \<subseteq> set v' \<and> set v' - set w' = set v - set w \<and> set w \<subseteq> set w'"

lemma visit_state_snoc:
  assumes "visit_state cycle_free B parents v w" and "x \<in> set v" and "x \<notin> set w" and "cycle_free \<Longrightarrow> set (parents x) \<subseteq> set w"
  shows "visit_state cycle_free B parents v (w @ [x])"
  using assms by (auto simp: visit_state_def intro: parents_before_snoc)

text \<open>Visiting a new transaction: first its parents, then the rest of the loop.\<close>

lemma visited_Cons:
  assumes "x \<notin> set v" and "set w \<subseteq> set v" and "visited ps (x # v) w v1 w1" and "visited ys v1 (w1 @ [x]) v' w'"
  shows "visited (x # ys) v w v' w'"
  using assms unfolding visited_def by auto

lemma visits_spec:
  assumes fin: "finite B" and closed: "\<And>x. x \<in> B \<Longrightarrow> set (parents x) \<subseteq> B"
    and rank: "\<And>x p. cycle_free \<Longrightarrow> x \<in> B \<Longrightarrow> p \<in> set (parents x) \<Longrightarrow> rank p < (rank x :: nat)"
    and "set xs \<subseteq> B" and "visit_state cycle_free B parents v w"
    and "\<forall>g \<in> set v - set w. \<forall>x \<in> set xs. cycle_free \<longrightarrow> rank x < rank g"
  shows "\<exists>v' w'. visits parents xs (v, w) = Some (v', w') \<and> visit_state cycle_free B parents v' w' \<and> visited xs v w v' w'"
  using assms(4-)
proof (induction "(card (B - set v), length xs)" arbitrary: xs v w rule: wf_induct_rule [OF wf_lex_prod [OF wf_less_than wf_less_than]])
  case 1
  note IH = 1(1) and pre = 1(2-)
  show ?case
  proof (cases xs)
    case Nil
    with pre show ?thesis by (auto simp: visited_def)
  next
    case (Cons x ys)
    show ?thesis
    proof (cases "x \<in> set v")
      case True
      have "\<exists>v' w'. visits parents ys (v, w) = Some (v', w') \<and> visit_state cycle_free B parents v' w' \<and> visited ys v w v' w'"
        by (rule IH) (use pre Cons in auto)
      with True Cons show ?thesis by (auto simp: visits_seen visited_def)
    next
      case False
      have x: "x \<in> B" "set ys \<subseteq> B" and state: "set w \<subseteq> set v" "x \<notin> set w"
        using pre Cons False by (auto simp: visit_state_def)
      have smaller: "card (B - set (x # v)) < card (B - set v)"
        using False x fin by (intro psubset_card_mono) auto
      have above: "\<forall>g \<in> set (x # v) - set w. \<forall>p \<in> set (parents x). cycle_free \<longrightarrow> rank p < rank g"
      proof (intro ballI impI)
        fix g p assume ac: cycle_free and g: "g \<in> set (x # v) - set w" and p: "p \<in> set (parents x)"
        have "rank x \<le> rank g" using ac g pre(3) Cons by (cases "g = x") (auto simp: less_imp_le)
        with rank [OF ac x(1) p] show "rank p < rank g" by simp
      qed
      have "\<exists>v1 w1. visits parents (parents x) (x # v, w) = Some (v1, w1) \<and> visit_state cycle_free B parents v1 w1 \<and>
          visited (parents x) (x # v) w v1 w1"
        by (rule IH) (use smaller pre(2) x(1) closed [OF x(1)] above in \<open>auto simp: visit_state_def\<close>)
      then obtain v1 w1 where v1: "visits parents (parents x) (x # v, w) = Some (v1, w1)" "visit_state cycle_free B parents v1 w1"
        "visited (parents x) (x # v) w v1 w1" by blast
      have "x \<in> set v1" and path: "set v1 - set w1 = set (x # v) - set w" and ps: "set (parents x) \<subseteq> set v1"
        using v1(3) unfolding visited_def by auto
      then have fresh: "x \<in> set v1" "x \<notin> set w1" and gray: "set v1 - set (w1 @ [x]) = set v - set w"
        using False state by auto
      have "p \<in> set w1" if cycle_free "p \<in> set (parents x)" for p using that ps path above by blast
      then have fresh': "cycle_free \<Longrightarrow> set (parents x) \<subseteq> set w1" by blast
      have "\<exists>v' w'. visits parents ys (v1, w1 @ [x]) = Some (v', w') \<and> visit_state cycle_free B parents v' w' \<and> visited ys v1 (w1 @ [x]) v' w'"
      proof (rule IH)
        have "card (B - set v1) \<le> card (B - set (x # v))" using v1(3) fin by (intro card_mono) (auto simp: visited_def)
        with smaller show "((card (B - set v1), length ys), card (B - set v), length xs) \<in> less_than <*lex*> less_than" by auto
        show "\<forall>g \<in> set v1 - set (w1 @ [x]). \<forall>y \<in> set ys. cycle_free \<longrightarrow> rank y < rank g" using gray pre(3) Cons by auto
      qed (use x visit_state_snoc [OF v1(2) fresh fresh'] in auto)
      with False Cons v1(1) visited_Cons [OF False state(1) v1(3)] show ?thesis by (fastforce simp: visits_new)
    qed
  qed
qed

lemma visits_sorted:
  "distinct (vs @ xs) \<Longrightarrow> parents_before parents (vs @ xs) \<Longrightarrow> set w = set vs \<Longrightarrow>
   \<exists>v'. visits parents xs (w, vs) = Some (v', vs @ xs)"
proof (induction xs arbitrary: vs w)
  case (Cons x xs)
  from Cons.prems(2) have "set (parents x) \<subseteq> set vs" by (auto simp: parents_before_def)
  then have "visits parents (parents x) (x # w, vs) = Some (x # w, vs)"
    using Cons.prems(3) by (intro visits_all_seen) auto
  then have "visits parents (x # xs) (w, vs) = visits parents xs (x # w, vs @ [x])"
    using Cons.prems(1,3) by (subst visits_new) auto
  then show ?case using Cons.IH [of "vs @ [x]" "x # w"] Cons.prems by auto
qed simp

section \<open>Correctness\<close>

lemma batchParents_subset: "set (batchParents beef x batch) \<subseteq> set batch"
proof (cases "BeefTx beef x")
  case (Some tx)
  have "set (case src of None \<Rightarrow> [] | Some p \<Rightarrow> if p \<in> set batch then [p] else []) \<subseteq> set batch" for src
    by (cases src) auto
  with Some show ?thesis by (auto simp: batchParents_def)
qed (simp add: batchParents_def)

lemma parents_before_single:
  assumes "\<forall>p \<in> set (batchParents beef x [x]). rank p < (rank x :: nat)"
  shows "parents_before (\<lambda>y. batchParents beef y [x]) [x]"
proof -
  have "set (batchParents beef x [x]) \<subseteq> {x}" using batchParents_subset [of beef x "[x]"] by simp
  moreover have "x \<notin> set (batchParents beef x [x])" using assms less_irrefl by metis
  ultimately have "set (batchParents beef x [x]) = {}" using subset_singletonD by fastforce
  then show ?thesis using parents_before_snoc [of "\<lambda>y. batchParents beef y [x]" "[]" x] by simp
qed

lemma visits_return:
  "\<exists>v w. visits (\<lambda>x. batchParents beef x txIDs) txIDs ([], []) = Some (v, w) \<and> set w = set txIDs"
proof -
  let ?ps = "\<lambda>x. batchParents beef x txIDs"
  have "\<exists>v w. visits ?ps txIDs ([], []) = Some (v, w) \<and> visit_state False (set txIDs) ?ps v w \<and> visited txIDs [] [] v w"
    by (rule visits_spec) (use batchParents_subset in \<open>auto simp: visit_state_def\<close>)
  then show ?thesis by (fastforce simp: visit_state_def visited_def)
qed

lemma ParentsFirst_set: "ParentsFirst (Some beef) txIDs = Some ys \<Longrightarrow> set ys = set txIDs"
  using visits_return [of beef txIDs] by (auto simp: ParentsFirst_def split: if_splits)

text \<open>C32. The batch of a post is put into an order in which every transaction comes after the transactions of
  the batch it spends: the function always returns, even if the transactions spend each other in a cycle, the
  result has exactly the requested transactions, each once when there are at least two, and if there is no cycle (a
  rank witnesses that) no child precedes a parent. A batch that is already in such an order is left as it is.\<close>

theorem ParentsFirst_correct:
  "\<exists>ys. ParentsFirst (Some beef) txIDs = Some ys \<and> set ys = set txIDs \<and> (2 \<le> length txIDs \<longrightarrow> distinct ys) \<and>
    ((\<exists>rank. \<forall>x \<in> set txIDs. \<forall>p \<in> set (batchParents beef x txIDs). rank p < (rank x :: nat)) \<longrightarrow>
      parents_before (\<lambda>x. batchParents beef x txIDs) ys) \<and>
    (distinct txIDs \<longrightarrow> parents_before (\<lambda>x. batchParents beef x txIDs) txIDs \<longrightarrow> ys = txIDs)"
proof (cases "length txIDs < 2")
  case True
  then consider "txIDs = []" | x where "txIDs = [x]"
    by (cases txIDs) (auto simp: less_Suc_eq length_Suc_conv numeral_2_eq_2)
  then show ?thesis by cases (auto simp: ParentsFirst_def intro: parents_before_single)
next
  case False
  let ?ps = "\<lambda>x. batchParents beef x txIDs"
  let ?cycle_free = "\<exists>rank. \<forall>x \<in> set txIDs. \<forall>p \<in> set (?ps x). rank p < (rank x :: nat)"
  define rank where "rank = (SOME rank. \<forall>x \<in> set txIDs. \<forall>p \<in> set (?ps x). rank p < (rank x :: nat))"
  have rank: "\<forall>x \<in> set txIDs. \<forall>p \<in> set (?ps x). rank p < rank x" if ?cycle_free
    unfolding rank_def by (rule someI_ex [OF that])
  have closed: "set (?ps x) \<subseteq> set txIDs" for x by (rule batchParents_subset)
  have "\<exists>v w. visits ?ps txIDs ([], []) = Some (v, w) \<and> visit_state ?cycle_free (set txIDs) ?ps v w \<and> visited txIDs [] [] v w"
    by (rule visits_spec [where rank = rank]) (use rank closed in \<open>auto simp: visit_state_def\<close>)
  then obtain v w where v: "visits ?ps txIDs ([], []) = Some (v, w)" "visit_state ?cycle_free (set txIDs) ?ps v w"
    "visited txIDs [] [] v w" by blast
  moreover have "w = txIDs" if "distinct txIDs" "parents_before ?ps txIDs"
    using visits_sorted [of "[]" txIDs ?ps "[]"] that v(1) by auto
  ultimately show ?thesis using False by (auto simp: ParentsFirst_def visit_state_def visited_def)
qed

definition ex_beef :: beef where
  "ex_beef = [''child'' \<mapsto> \<lparr>stx_TxID = ''child'', stx_SourceTXIDs = [Some ''old'', Some ''parent''], stx_LockingScripts = []\<rparr>,
     ''parent'' \<mapsto> \<lparr>stx_TxID = ''parent'', stx_SourceTXIDs = [None], stx_LockingScripts = []\<rparr>]"

theorem ParentsFirst_correct_witness:
  "\<exists>ys. ParentsFirst (Some ex_beef) [''child'', ''parent''] = Some ys \<and> distinct ys \<and>
     parents_before (\<lambda>x. batchParents ex_beef x [''child'', ''parent'']) ys \<and> ys = [''parent'', ''child'']"
proof -
  let ?ids = "[''child'', ''parent'']"
  have rank: "\<exists>rank. \<forall>x \<in> set ?ids. \<forall>p \<in> set (batchParents ex_beef x ?ids). rank p < (rank x :: nat)"
    by (rule exI [of _ "\<lambda>x. if x = ''child'' then 1 else 0"]) (simp add: ex_beef_def batchParents_def BeefTx_def)
  have two: "2 \<le> length ?ids" by simp
  from ParentsFirst_correct [of ex_beef ?ids] obtain ys where "ParentsFirst (Some ex_beef) ?ids = Some ys" "distinct ys"
    "parents_before (\<lambda>x. batchParents ex_beef x ?ids) ys" using rank two by blast
  moreover have "ParentsFirst (Some ex_beef) ?ids = Some [''parent'', ''child'']"
    by (simp add: ParentsFirst_def ex_beef_def batchParents_def BeefTx_def visits_new visits_seen)
  ultimately show ?thesis by simp
qed

end
