(* ===== verification/Process_World.thy ===== *)
theory Process_World
  imports Abort_Action Parents_First "HOL-Library.Char_ord" "HOL-Library.List_Lexorder"
begin

text \<open>
  The setting of the actions that broadcast: the interfaces they call and the state they work on.

  \<^item> \<open>process_env\<close> collects the interfaces whose implementation is a network service or a third-party library
    (\<open>wdk.Services\<close>, the verifiers, the randomizer, the SDK's transaction parser) and the BEEF builder, together with the
    configuration of \<open>process\<close>. A call that is repeated gets the number of the attempt, so that its answers
    may change over time.
  \<^item> \<open>world\<close> is the database, the release of the running call, the record of all posts that were made, and the key-value repository.

  An action is a step function on worlds. Database transactions are committed one by one, as in the code, and
  nothing is undone when a later part fails.
\<close>

section \<open>Interfaces\<close>

record txid_status =
  ts_TxID :: string
  ts_Status :: string
  ts_Depth :: "int option"

record get_status_result =
  gs_Success :: bool
  gs_Results :: "txid_status list"

record merkle_header =
  mh_Height :: nat
  mh_MerkleRoot :: string
  mh_Hash :: string

record merkle_path =
  mp_BlockHeight :: nat
  mp_Bytes :: bytes

record merkle_path_result =
  mr_MerklePath :: "merkle_path option"
  mr_BlockHeader :: "merkle_header option"

record process_env =
  pe_lib :: go_lib
  pe_NewTransactionFromBytes :: "bytes \<Rightarrow> sdk_tx result"
  pe_NLockTimeIsFinal :: "sdk_tx \<Rightarrow> bool result"
  pe_GetBEEFForTxIDs :: "string list \<Rightarrow> database \<Rightarrow> beef result"
  pe_VerifyScripts :: "beef \<Rightarrow> sdk_tx \<Rightarrow> bool result"
  pe_PostFromBEEF :: "beef \<Rightarrow> string list \<Rightarrow> post_service_result list result"
  pe_GetStatusForTxIDs :: "nat \<Rightarrow> string list \<Rightarrow> get_status_result option result"
  pe_MerklePath :: "string \<Rightarrow> merkle_path_result option result"
  pe_NewMerklePathFromHex :: "string \<Rightarrow> merkle_path result"
  pe_ComputeRootHex :: "merkle_path \<Rightarrow> string \<Rightarrow> string result"
  pe_NewHashFromHex :: "string \<Rightarrow> string result"
  pe_IsValidRootForHeight :: "string \<Rightarrow> nat \<Rightarrow> bool result"
  pe_Base64 :: "nat \<Rightarrow> string result"
  pe_Enqueue :: "beef \<Rightarrow> string list \<Rightarrow> bool"
  pe_Done :: "nat \<Rightarrow> bool"
  pe_commissionSatoshis :: nat
  pe_maxRebroadcastAttempts :: nat

section \<open>Worlds and steps\<close>

text \<open>The values of the key-value repository, as what their bytes decode to: the last checked block (JSON), a point in
  time (RFC 3339), or bytes that do not parse.\<close>

record last_block_value =
  lb_BlockHeight :: nat
  lb_BlockHash :: string

datatype kv_value = KvLastBlock last_block_value | KvTime int | KvBytes string

record world =
  w_db :: database
  w_release :: "release_state option"
  w_posts :: "string list list"
  w_KeyValues :: "string \<rightharpoonup> kv_value"

type_synonym 'a step = "world \<Rightarrow> 'a result \<times> world"

definition wreturn :: "'a \<Rightarrow> 'a step" where
  "wreturn x w = (Inr x, w)"

definition wfail :: "go_error \<Rightarrow> 'a step" where
  "wfail e w = (Inl e, w)"

definition wbind :: "'a step \<Rightarrow> ('a \<Rightarrow> 'b step) \<Rightarrow> 'b step" where
  "wbind m k w = (case m w of (Inl e, w') \<Rightarrow> (Inl e, w') | (Inr x, w') \<Rightarrow> k x w')"

definition wwrap :: "string \<Rightarrow> 'a step \<Rightarrow> 'a step" where
  "wwrap msg m w = (case m w of (r, w') \<Rightarrow> (rwrap msg r, w'))"

definition wresult :: "'a result \<Rightarrow> 'a step" where
  "wresult r w = (r, w)"

definition wread :: "(database \<Rightarrow> 'a result) \<Rightarrow> 'a step" where
  "wread f w = (f (w_db w), w)"

definition wtx :: "'a db_tx \<Rightarrow> 'a step" where
  "wtx f w = (case in_db_tx f (w_db w) of (r, db) \<Rightarrow> (r, w\<lparr>w_db := db\<rparr>))"

definition wupdate :: "(database \<Rightarrow> database) \<Rightarrow> unit step" where
  "wupdate f w = (Inr (), w\<lparr>w_db := f (w_db w)\<rparr>)"

definition wdisarm :: "unit step" where
  "wdisarm w = (Inr (), w\<lparr>w_release := disarm (w_release w)\<rparr>)"

text \<open>The post of a batch, recorded whatever its outcome.\<close>

definition wpost :: "process_env \<Rightarrow> beef \<Rightarrow> string list \<Rightarrow> post_service_result list step" where
  "wpost env beef txIDs w = (pe_PostFromBEEF env beef txIDs, w\<lparr>w_posts := w_posts w @ [txIDs]\<rparr>)"

fun wfor :: "('a \<Rightarrow> 'b step) \<Rightarrow> 'a list \<Rightarrow> 'b list step" where
  "wfor f [] = wreturn []"
| "wfor f (x # xs) = wbind (f x) (\<lambda>y. wbind (wfor f xs) (\<lambda>ys. wreturn (y # ys)))"

lemmas step_defs = wreturn_def wfail_def wbind_def wwrap_def wresult_def wread_def wtx_def wupdate_def wdisarm_def wpost_def

section \<open>What steps keep\<close>

text \<open>A relation between worlds that every basic step respects holds for the whole action.\<close>

definition step_within :: "(world \<Rightarrow> world \<Rightarrow> bool) \<Rightarrow> 'a step \<Rightarrow> bool" where
  "step_within R m \<longleftrightarrow> (\<forall>w. R w (snd (m w)))"

locale step_relation =
  fixes R :: "world \<Rightarrow> world \<Rightarrow> bool"
  assumes R_refl: "R w w" and R_trans: "R w w' \<Longrightarrow> R w' w'' \<Longrightarrow> R w w''"
begin

lemma within_pure: "step_within R (wreturn x)" "step_within R (wfail e)" "step_within R (wresult r)" "step_within R (wread f)"
  by (simp_all add: step_within_def step_defs R_refl)

text \<open>The same for one world, when the continuation relies on what the first step has done.\<close>

lemma bind_at: "R w (snd (m w)) \<Longrightarrow> (\<And>x w'. m w = (Inr x, w') \<Longrightarrow> R w' (snd (k x w'))) \<Longrightarrow> R w (snd (wbind m k w))"
  by (cases "m w") (auto simp: wbind_def split: sum.splits intro: R_trans)

lemma within_at: "step_within R m \<Longrightarrow> R w (snd (m w))"
  by (simp add: step_within_def)

lemma within_bind: "step_within R m \<Longrightarrow> (\<And>x. step_within R (k x)) \<Longrightarrow> step_within R (wbind m k)"
  by (auto simp: step_within_def intro!: bind_at)

lemma within_wrap: "step_within R m \<Longrightarrow> step_within R (wwrap msg m)"
  by (auto simp: step_within_def wwrap_def split: prod.splits) (metis snd_conv)

lemma within_for: "(\<And>x. step_within R (f x)) \<Longrightarrow> step_within R (wfor f xs)"
  by (induction xs) (auto intro!: within_pure within_bind)

lemma within_if: "(b \<Longrightarrow> step_within R m) \<Longrightarrow> (\<not> b \<Longrightarrow> step_within R m') \<Longrightarrow> step_within R (if b then m else m')"
  by simp

lemma within_option: "(x = None \<Longrightarrow> step_within R m) \<Longrightarrow> (\<And>y. x = Some y \<Longrightarrow> step_within R (k y)) \<Longrightarrow>
    step_within R (case x of None \<Rightarrow> m | Some y \<Rightarrow> k y)"
  by (cases x) auto

lemma within_sum: "(\<And>e. x = Inl e \<Longrightarrow> step_within R (k e)) \<Longrightarrow> (\<And>y. x = Inr y \<Longrightarrow> step_within R (l y)) \<Longrightarrow>
    step_within R (case x of Inl e \<Rightarrow> k e | Inr y \<Rightarrow> l y)"
  by (cases x) auto

lemma within_prod: "(\<And>a b. x = (a, b) \<Longrightarrow> step_within R (k a b)) \<Longrightarrow> step_within R (case x of (a, b) \<Rightarrow> k a b)"
  by (cases x) auto

lemmas within = within_pure within_bind within_wrap within_for within_if within_option within_sum within_prod

end

end
