(* ===== verification/Process_Action.thy ===== *)
theory Process_Action
  imports Process_World Satoshi
begin

text \<open>
  Processing an action: \<open>pkg/storage/internal/actions/process.go\<close> and
  \<open>process_confirm_double_spends.go\<close>.

  Log lines, tracing, metrics and the throttle of the queue-full warning are not modelled. The background broadcaster is
  the interface \<open>pe_Enqueue\<close>, which says whether the queue accepted a batch.
\<close>

section \<open>Arguments and results\<close>

record process_args =
  pa_IsNewTx :: bool
  pa_IsSendWith :: bool
  pa_IsNoSend :: bool
  pa_IsDelayed :: bool
  pa_Reference :: "string option"
  pa_TxID :: "string option"
  pa_RawTx :: bytes
  pa_SendWith :: "string list"

record send_with_result =
  sw_TxID :: string
  sw_Status :: send_with_result_status

record review_action_result =
  ra_TxID :: string
  ra_Status :: review_action_result_status
  ra_CompetingTxs :: "string set"
  ra_Reference :: string
  ra_Labels :: "string list"
  ra_Errors :: "string \<rightharpoonup> unit"

record process_result =
  pr_SendWithResults :: "send_with_result list"
  pr_NotDelayedResults :: "review_action_result list"

section \<open>Validating a new transaction\<close>

definition validateStateOfTableTx :: "transaction_row option \<Rightarrow> transaction_row result" where
  "validateStateOfTableTx tableTx = (case tableTx of
     None \<Rightarrow> Inl (GoErr ''transaction with reference not found in the database'')
   | Some t \<Rightarrow>
       if \<not> tr_IsOutgoing t then Inl (GoErr ''transaction with reference is not outgoing'')
       else if tr_InputBeef t = None \<or> tr_InputBeef t = Some []
       then Inl (GoErr ''transaction with reference has no inputBEEF'')
       else if tr_Status t \<noteq> TxStatusUnsigned \<and> tr_Status t \<noteq> TxStatusUnprocessed
       then Inl (GoErr ''transaction with reference is not in a valid status for processing'')
       else Inr t)"

fun validateNewTxOutputs :: "sdk_tx \<Rightarrow> output_row list \<Rightarrow> unit result" where
  "validateNewTxOutputs tx [] = Inr ()"
| "validateNewTxOutputs tx (out # outs) =
     (if or_Change out then validateNewTxOutputs tx outs
      else (case or_LockingScript out of
         None \<Rightarrow> Inl (GoErr ''locking script is nil for output'')
       | Some fromDB \<Rightarrow>
           if length (stx_LockingScripts tx) \<le> or_Vout out
           then Inl (GoErr ''output index is out of range of provided tx outputs count'')
           else if stx_LockingScripts tx ! or_Vout out \<noteq> fromDB
           then Inl (GoErr ''locking script mismatch at vout'')
           else validateNewTxOutputs tx outs))"

definition FindCommission :: "int \<Rightarrow> nat \<Rightarrow> database \<Rightarrow> commission_row option" where
  "FindCommission userID transactionID db =
     find (\<lambda>c. cm_UserID c = userID \<and> cm_TransactionID c = transactionID) (db_Commissions db)"

fun includesCommissionOutput :: "commission_row \<Rightarrow> output_row list \<Rightarrow> bool result" where
  "includesCommissionOutput c [] = Inr False"
| "includesCommissionOutput c (out # outs) =
     rbind (MustEqual (Signed (or_Satoshis out)) (Unsigned (cm_Satoshis c))) (\<lambda>eq.
       if eq \<and> or_LockingScript out = Some (cm_LockingScript c) then Inr True
       else includesCommissionOutput c outs)"

definition validateCommission :: "int \<Rightarrow> nat \<Rightarrow> output_row list \<Rightarrow> database \<Rightarrow> unit result" where
  "validateCommission userID transactionID outputs db =
     (case FindCommission userID transactionID db of
        None \<Rightarrow> Inl (GoErr ''commission not found'')
      | Some c \<Rightarrow>
          if cm_LockingScript c = [] then Inl (GoErr ''commission locking script is empty'')
          else rbind (includesCommissionOutput c outputs) (\<lambda>found.
            if \<not> found then Inl (GoErr ''transaction did not include an output to cover service fee'') else Inr ()))"

definition newStatuses :: "process_args \<Rightarrow> tx_status \<times> proven_tx_req_status" where
  "newStatuses args =
     (if pa_IsNoSend args then (TxStatusNoSend, ProvenTxStatusNoSend)
      else if pa_IsDelayed args then (TxStatusUnprocessed, ProvenTxStatusUnsent)
      else (TxStatusUnprocessed, ProvenTxStatusUnprocessed))"

text \<open>\<open>processNewTx\<close>; a missing txid or reference is a nil dereference.\<close>

definition processNewTx :: "process_env \<Rightarrow> int \<Rightarrow> process_args \<Rightarrow> unit step" where
  "processNewTx env userID args =
     wbind (wwrap ''failed to build transaction object from raw tx bytes''
         (wresult (pe_NewTransactionFromBytes env (pa_RawTx args)))) (\<lambda>tx.
     case pa_TxID args of
       None \<Rightarrow> wfail (GoPanic ''nil pointer dereference'')
     | Some txID \<Rightarrow>
         if stx_TxID tx \<noteq> txID then wfail (GoErr ''txID mismatch'')
         else
           wbind (wwrap ''failed to check nLockTime finality'' (wresult (pe_NLockTimeIsFinal env tx))) (\<lambda>isFinal.
           if \<not> isFinal then wfail (GoErr ''transaction nLockTime is not final'')
           else (case pa_Reference args of
             None \<Rightarrow> wfail (GoPanic ''nil pointer dereference'')
           | Some reference \<Rightarrow>
               wbind (wread (\<lambda>db. Inr (FindTransactionByReference userID reference db))) (\<lambda>found.
               case validateStateOfTableTx found of
                 Inl e \<Rightarrow> wbind wdisarm (\<lambda>_. wfail e)
               | Inr t \<Rightarrow>
                   wbind (wread (\<lambda>db. Inr (FindOutputsByTransactionID (tr_ID t) db))) (\<lambda>outputs.
                   wbind (wresult (validateNewTxOutputs tx outputs)) (\<lambda>_.
                   wbind (if 0 < pe_commissionSatoshis env
                       then wwrap ''commission validation failed'' (wread (validateCommission userID (tr_ID t) outputs))
                       else wreturn ()) (\<lambda>_.
                   wwrap ''failed to update transaction'' (wtx (SpendTransaction
                     \<lparr>upd_UserID = userID, upd_TransactionID = tr_ID t, upd_TxID = txID,
                      upd_TxStatus = fst (newStatuses args), upd_ReqTxStatus = snd (newStatuses args),
                      upd_InputBeef = tr_InputBeef t, upd_RawTx = Some (pa_RawTx args),
                      upd_Tx = Some (stx_LockingScripts tx)\<rparr> (note_ProcessAction userID))))))))))"

section \<open>Double-spend reports are confirmed first\<close>

definition confirmDoubleSpendAttempts :: nat where
  "confirmDoubleSpendAttempts = 3"

definition ResultStatusForTxIDNotFound :: string where
  "ResultStatusForTxIDNotFound = ''unknown''"

definition hasDoubleSpendEvidence :: "aggregated_txid \<Rightarrow> bool" where
  "hasDoubleSpendEvidence agg \<longleftrightarrow> (\<exists>r \<in> set (ag_results agg). pt_double_spend r \<and>
     (pt_result r \<noteq> PostedTxIDResultMissingInputs \<or> pt_competing_txs r \<noteq> []))"

fun known_attempts :: "process_env \<Rightarrow> nat \<Rightarrow> nat \<Rightarrow> string list \<Rightarrow> string set \<Rightarrow> string set" where
  "known_attempts env 0 attempt remaining knownTxs = knownTxs"
| "known_attempts env (Suc left) attempt remaining knownTxs =
     (if 0 < attempt \<and> pe_Done env attempt then knownTxs
      else (case pe_GetStatusForTxIDs env attempt remaining of
         Inl _ \<Rightarrow> known_attempts env left (attempt + 1) remaining knownTxs
       | Inr None \<Rightarrow> known_attempts env left (attempt + 1) remaining knownTxs
       | Inr (Some statusResult) \<Rightarrow>
           if \<not> gs_Success statusResult then known_attempts env left (attempt + 1) remaining knownTxs
           else
             let knownTxs' = knownTxs \<union> set (map ts_TxID (filter (\<lambda>d. ts_Status d \<noteq> ResultStatusForTxIDNotFound)
                   (gs_Results statusResult)));
                 remaining' = filter (\<lambda>txID. txID \<notin> knownTxs') remaining
             in if remaining' = [] then knownTxs' else known_attempts env left (attempt + 1) remaining' knownTxs'))"

definition checkTxsKnownToNetwork :: "process_env \<Rightarrow> string list \<Rightarrow> string set" where
  "checkTxsKnownToNetwork env txIDs = known_attempts env confirmDoubleSpendAttempts 0 txIDs {}"

text \<open>The verdicts are a map; \<open>txIDs\<close> lists its keys.\<close>

definition confirmDoubleSpends :: "process_env \<Rightarrow> string list \<Rightarrow> aggregated \<Rightarrow> aggregated" where
  "confirmDoubleSpends env txIDs aggregated =
     (let doubtful = sort (filter (\<lambda>txID. map_option ag_status (aggregated txID) = Some AggregatedPostedTxIDDoubleSpend)
            (remdups txIDs))
      in if doubtful = [] then aggregated
         else
           let knownTxs = checkTxsKnownToNetwork env doubtful in
           (\<lambda>txID. if txID \<notin> set doubtful then aggregated txID
              else map_option (\<lambda>agg.
                if txID \<in> knownTxs then agg\<lparr>ag_status := AggregatedPostedTxIDSuccess\<rparr>
                else if 0 < ag_success agg then agg\<lparr>ag_status := AggregatedPostedTxIDServiceError\<rparr>
                else if \<not> hasDoubleSpendEvidence agg then agg\<lparr>ag_status := AggregatedPostedTxIDServiceError\<rparr>
                else agg) (aggregated txID)))"

section \<open>Applying the outcome of a post\<close>

record broadcast_outcome =
  bo_reqStatus :: proven_tx_req_status
  bo_txStatus :: tx_status
  bo_spendable :: bool
  bo_review :: review_action_result
  bo_sendWith :: send_with_result

definition singleTxBroadcastResult ::
  "aggregated_txid \<Rightarrow> string \<Rightarrow> (string \<rightharpoonup> unit) \<Rightarrow> string \<Rightarrow> string list \<Rightarrow> broadcast_outcome result" where
  "singleTxBroadcastResult agg txID serviceErrors reference labels =
     (let review = (\<lambda>st competing. \<lparr>ra_TxID = txID, ra_Status = st, ra_CompetingTxs = competing,
            ra_Reference = reference, ra_Labels = labels, ra_Errors = serviceErrors\<rparr>);
          sent = (\<lambda>st. \<lparr>sw_TxID = txID, sw_Status = st\<rparr>)
      in case ag_status agg of
           AggregatedPostedTxIDSuccess \<Rightarrow> Inr
             \<lparr>bo_reqStatus = ProvenTxStatusUnmined, bo_txStatus = TxStatusUnproven, bo_spendable = True,
              bo_review = review ReviewActionResultStatusSuccess {}, bo_sendWith = sent SendWithResultStatusUnproven\<rparr>
         | AggregatedPostedTxIDDoubleSpend \<Rightarrow> Inr
             \<lparr>bo_reqStatus = ProvenTxStatusDoubleSpend, bo_txStatus = TxStatusFailed, bo_spendable = False,
              bo_review = review ReviewActionResultStatusDoubleSpend (ag_competing agg),
              bo_sendWith = sent SendWithResultStatusFailed\<rparr>
         | AggregatedPostedTxIDInvalidTx \<Rightarrow> Inr
             \<lparr>bo_reqStatus = ProvenTxStatusInvalid, bo_txStatus = TxStatusFailed, bo_spendable = False,
              bo_review = review ReviewActionResultStatusInvalidTx {}, bo_sendWith = sent SendWithResultStatusFailed\<rparr>
         | AggregatedPostedTxIDServiceError \<Rightarrow> Inr
             \<lparr>bo_reqStatus = ProvenTxStatusSending, bo_txStatus = TxStatusSending, bo_spendable = False,
              bo_review = review ReviewActionResultStatusServiceError {}, bo_sendWith = sent SendWithResultStatusSending\<rparr>
         | AggregatedPostedTxIDNone \<Rightarrow> Inl (GoErr ''unknown AggregatedPostedTxIDStatus''))"

text \<open>The notes of the service errors are computed but discarded (the result of \<open>slices.AppendSeq\<close> is
  dropped), so the service errors leave no note.\<close>

definition notesForPostBEEF :: "proven_tx_req_status \<Rightarrow> aggregated_txid \<Rightarrow> history_note list" where
  "notesForPostBEEF provenTxReqStatus agg =
     concat (map pt_notes (ag_results agg)) @
     [note_AggregateResults \<lparr>abr_StatusNow = provenTxReqStatus, abr_AggStatus = ag_status agg,
        abr_SuccessCount = int (ag_success agg), abr_DoubleSpendCount = int (ag_double_spend agg),
        abr_StatusErrorCount = int (ag_status_error agg), abr_ServiceErrorCount = int (ag_service_error agg)\<rparr>]"

definition broadcastResultSkipStatuses :: "proven_tx_req_status list" where
  "broadcastResultSkipStatuses =
     ProvenTxReqBeyondBroadcastStageStatuses @ [ProvenTxStatusInvalid, ProvenTxStatusDoubleSpend]"

text \<open>The unit of work of \<open>updateSingleTx\<close>.\<close>

definition apply_broadcast_result :: "go_lib \<Rightarrow> string \<Rightarrow> broadcast_outcome \<Rightarrow> history_note list \<Rightarrow> unit db_tx" where
  "apply_broadcast_result lib txID outcome notes db =
     (case updateKnownTxStatus txID (bo_reqStatus outcome) broadcastResultSkipStatuses notes db of
        Inl e \<Rightarrow> if errors_Is e ErrStatusUpdateSkipped then Inr ((), db)
          else Inl (wrap_error ''failed to update known tx status after broadcast'' e)
      | Inr (_, db1) \<Rightarrow>
          (case UpdateTransactionStatusByTxID txID (bo_txStatus outcome)
              [TxStatusUnprocessed, TxStatusSending, TxStatusNoSend, TxStatusUnproven] db1 of
             Inl e \<Rightarrow> if errors_Is e ErrStatusUpdateSkipped then Inr ((), db1)
               else Inl (wrap_error ''failed to update transaction status after broadcast'' e)
           | Inr (_, db2) \<Rightarrow>
               let db3 = (if bo_txStatus outcome = TxStatusFailed
                     then fold MarkCreatedOutputsAsNotSpendable (FindTransactionIDsByTxID txID db2) db2 else db2)
               in if bo_spendable outcome
                  then rwrap ''failed to make outputs spendable after broadcast''
                    (CreateUTXOForSpendableOutputsByTxID lib txID db3)
                  else Inr ((), db3)))"

definition updateSingleTx :: "process_env \<Rightarrow> string \<Rightarrow> aggregated_txid \<Rightarrow> (string \<rightharpoonup> unit) \<Rightarrow> string \<Rightarrow> string list \<Rightarrow>
    (send_with_result \<times> review_action_result) step" where
  "updateSingleTx env txID agg serviceErrors reference labels =
     wbind (wresult (singleTxBroadcastResult agg txID serviceErrors reference labels)) (\<lambda>outcome.
     wbind (wtx (apply_broadcast_result (pe_lib env) txID outcome (notesForPostBEEF (bo_reqStatus outcome) agg))) (\<lambda>_.
     wreturn (bo_sendWith outcome, bo_review outcome)))"

definition failedResultForTxID :: "string \<Rightarrow> send_with_result \<times> review_action_result" where
  "failedResultForTxID txID =
     (\<lparr>sw_TxID = txID, sw_Status = SendWithResultStatusFailed\<rparr>,
      \<lparr>ra_TxID = txID, ra_Status = ReviewActionResultStatusServiceError, ra_CompetingTxs = {}, ra_Reference = '''',
       ra_Labels = [], ra_Errors = Map.empty\<rparr>)"

definition GetLabelsForTxIDs :: "string list \<Rightarrow> database \<Rightarrow> string \<Rightarrow> string list" where
  "GetLabelsForTxIDs txIDs db = (\<lambda>txID. if txID \<in> set txIDs
     then concat (map tr_Labels (filter (\<lambda>t. tr_TxID t = Some txID) (db_Transactions db))) else [])"

text \<open>The error of \<open>updateSingleTx\<close> is replaced by one that names the transaction.\<close>

definition resultForPostedTx :: "process_env \<Rightarrow> aggregated \<Rightarrow> (string \<rightharpoonup> unit) \<Rightarrow> (string \<rightharpoonup> string) \<Rightarrow>
    (string \<Rightarrow> string list) \<Rightarrow> string \<Rightarrow> (send_with_result \<times> review_action_result) step" where
  "resultForPostedTx env aggregated serviceErrors references labels txID =
     (case aggregated txID of
        None \<Rightarrow> wreturn (failedResultForTxID txID)
      | Some agg \<Rightarrow> (\<lambda>w.
          (case updateSingleTx env txID agg serviceErrors (case references txID of None \<Rightarrow> '''' | Some r \<Rightarrow> r) (labels txID) w of
             (Inl _, w') \<Rightarrow> (Inl (GoErr ''cannot update single tx after broadcast''), w')
           | (Inr r, w') \<Rightarrow> (Inr r, w'))))"

section \<open>Broadcasting\<close>

definition getKnownTxStatuses :: "string list \<Rightarrow> database \<Rightarrow> (string \<Rightarrow> proven_tx_req_status) result" where
  "getKnownTxStatuses txIDs db =
     (let statuses = FindKnownTxStatuses txIDs db in
      case find (\<lambda>txID. statuses txID = None \<or> statuses txID = Some ProvenTxStatusUnfail) txIDs of
        Some txID \<Rightarrow> (if statuses txID = None then Inl (GoErr ''known tx status for txID not found'')
          else Inl (GoErr ''wrong statuses to proceed with broadcast''))
      | None \<Rightarrow> Inr (\<lambda>txID. the (statuses txID)))"

text \<open>The loop of \<open>partitionBroadcastTxIDs\<close>: the transactions still to send, and the results of the ones
  already sent, whose outputs are indexed.\<close>

fun partitionBroadcastTxIDs :: "process_env \<Rightarrow> (string \<Rightarrow> proven_tx_req_status) \<Rightarrow> string list \<Rightarrow>
    (string list \<times> send_with_result list) step" where
  "partitionBroadcastTxIDs env statuses [] = wreturn ([], [])"
| "partitionBroadcastTxIDs env statuses (txID # txIDs) =
     (if \<not> AlreadySent (statuses txID)
      then wbind (partitionBroadcastTxIDs env statuses txIDs) (\<lambda>(ready, sent). wreturn (txID # ready, sent))
      else wbind (wwrap ''failed to make outputs spendable'' (wtx (CreateUTXOForSpendableOutputsByTxID (pe_lib env) txID))) (\<lambda>_.
        wbind (partitionBroadcastTxIDs env statuses txIDs) (\<lambda>(ready, sent).
          wreturn (ready, \<lparr>sw_TxID = txID, sw_Status = SendWithResultStatus (statuses txID)\<rparr> # sent))))"

definition HydrateBEEFSubjects :: "beef \<Rightarrow> string list \<Rightarrow> unit result" where
  "HydrateBEEFSubjects beef txIDs =
     (if \<forall>txID \<in> set txIDs. (case beef txID of None \<Rightarrow> False
          | Some tx \<Rightarrow> \<forall>src \<in> set (stx_SourceTXIDs tx). case src of None \<Rightarrow> True | Some p \<Rightarrow> beef p \<noteq> None)
      then Inr () else Inl (GoErr ''could not find transaction in beef''))"

fun verifyScriptsForReadyTxs :: "process_env \<Rightarrow> beef \<Rightarrow> string list \<Rightarrow> unit result" where
  "verifyScriptsForReadyTxs env beef [] = Inr ()"
| "verifyScriptsForReadyTxs env beef (txID # txIDs) = (case beef txID of
     None \<Rightarrow> Inl (GoErr ''transaction not found in beef'')
   | Some tx \<Rightarrow> rbind (rwrap ''failed to verify scripts for tx'' (pe_VerifyScripts env beef tx)) (\<lambda>ok.
       if \<not> ok then Inl (GoErr ''scripts validation failed for tx'') else verifyScriptsForReadyTxs env beef txIDs))"

definition retainClaimed :: "string list \<Rightarrow> string list \<Rightarrow> string list" where
  "retainClaimed txIDs claimedTxIDs =
     (if length claimedTxIDs = length txIDs then txIDs else filter (\<lambda>txID. txID \<in> set claimedTxIDs) txIDs)"

text \<open>An update that is skipped because the row has moved on is not an error.\<close>

definition unless_skipped :: "string \<Rightarrow> unit db_tx \<Rightarrow> unit step" where
  "unless_skipped msg f w = (case wtx f w of
     (Inl e, w') \<Rightarrow> (if errors_Is e ErrStatusUpdateSkipped then (Inr (), w') else (Inl (wrap_error msg e), w'))
   | (Inr x, w') \<Rightarrow> (Inr x, w'))"

definition queueTxForDelayedBroadcast :: "process_env \<Rightarrow> string \<Rightarrow> unit step" where
  "queueTxForDelayedBroadcast env txID =
     wbind (unless_skipped ''failed to update known tx status''
       (updateKnownTxStatus txID ProvenTxStatusUnsent ProvenTxReqBeyondBroadcastStageStatuses [])) (\<lambda>_.
     wbind (unless_skipped ''failed to update transaction status''
       (UpdateTransactionStatusByTxID txID TxStatusSending [TxStatusUnprocessed])) (\<lambda>_.
     wwrap ''failed to make outputs spendable for delayed txID'' (wtx (MakeChangeSpendableAndIndexByTxID (pe_lib env) txID))))"

definition processDelayedTransactions :: "process_env \<Rightarrow> string list \<Rightarrow> beef \<Rightarrow> send_with_result list step" where
  "processDelayedTransactions env txIDs beef =
     wbind (wfor (queueTxForDelayedBroadcast env) txIDs) (\<lambda>_.
     wreturn (let added = pe_Enqueue env beef txIDs in
       map (\<lambda>txID. \<lparr>sw_TxID = txID, sw_Status = SendWithResultStatusSending\<rparr>) txIDs))"

text \<open>The part of \<open>broadcastTxs\<close> after the claim: order the batch, count the attempts, post, and apply the verdicts.\<close>

definition post_claimed :: "process_env \<Rightarrow> string list \<Rightarrow> beef \<Rightarrow> string list \<Rightarrow> send_with_result list \<Rightarrow>
    (string \<rightharpoonup> string) \<Rightarrow> (string \<Rightarrow> string list) \<Rightarrow> process_result step" where
  "post_claimed env txIDs beef ready sent references labels =
     (case ParentsFirst (Some beef) ready of
        None \<Rightarrow> wfail (GoPanic ''stack overflow'')
      | Some ordered \<Rightarrow>
          wbind (wupdate (IncreaseKnownTxAttemptsForTxIDs ordered)) (\<lambda>_.
          wbind (wwrap ''failed to post BEEF'' (wpost env beef ordered)) (\<lambda>results.
          let aggregated = confirmDoubleSpends env txIDs (newAggregatedPostFromBEEF results txIDs) in
          wbind (wfor (resultForPostedTx env aggregated (ServiceErrors results) references labels) ordered) (\<lambda>rs.
          wreturn \<lparr>pr_SendWithResults = sent @ map fst rs, pr_NotDelayedResults = map snd rs\<rparr>))))"

definition broadcastTxs :: "process_env \<Rightarrow> string list \<Rightarrow> bool \<Rightarrow> process_result step" where
  "broadcastTxs env txIDs isDelayed =
     wbind (wread (getKnownTxStatuses txIDs)) (\<lambda>statuses.
     wbind (wread (\<lambda>db. Inr (FindReferencesByTxIDs txIDs db, GetLabelsForTxIDs txIDs db))) (\<lambda>(references, labels).
     wbind (partitionBroadcastTxIDs env statuses txIDs) (\<lambda>(ready, sent).
     if length sent = length txIDs then wreturn \<lparr>pr_SendWithResults = sent, pr_NotDelayedResults = []\<rparr>
     else if ready = [] then wfail (GoErr ''unsupported broadcast status for all txs'')
     else
       wbind (wwrap ''failed to build valid BEEF'' (wread (pe_GetBEEFForTxIDs env ready))) (\<lambda>beef.
       wbind (wwrap ''failed to hydrate beef for script verification'' (wresult (HydrateBEEFSubjects beef ready))) (\<lambda>_.
       wbind (wresult (verifyScriptsForReadyTxs env beef ready)) (\<lambda>_.
       if isDelayed
       then
         wbind wdisarm (\<lambda>_.
         wbind (wwrap ''failed to process delayed transactions'' (processDelayedTransactions env ready beef)) (\<lambda>rs.
         wreturn \<lparr>pr_SendWithResults = sent @ rs, pr_NotDelayedResults = []\<rparr>))
       else
         wbind wdisarm (\<lambda>_.
         wbind (wwrap ''failed to claim txs for broadcast'' (wtx (ClaimKnownTxsForBroadcast ready))) (\<lambda>claimed.
         if claimed = [] then wreturn \<lparr>pr_SendWithResults = sent, pr_NotDelayedResults = []\<rparr>
         else post_claimed env txIDs beef (retainClaimed ready claimed) sent references labels))))))))"

definition BackgroundBroadcast :: "process_env \<Rightarrow> beef \<Rightarrow> string list \<Rightarrow> review_action_result list step" where
  "BackgroundBroadcast env beef txIDs =
     wbind (wwrap ''failed to claim txs for background broadcast'' (wtx (ClaimKnownTxsForBroadcast txIDs))) (\<lambda>claimed.
     if claimed = [] then wreturn []
     else
       let retained = retainClaimed txIDs claimed in
       wbind (wwrap ''failed to post BEEF in background'' (wpost env beef retained)) (\<lambda>results.
       wbind (wread (\<lambda>db. Inr (FindReferencesByTxIDs retained db, GetLabelsForTxIDs retained db))) (\<lambda>(references, labels).
       let aggregated = confirmDoubleSpends env retained (newAggregatedPostFromBEEF results retained) in
       wbind (wfor (\<lambda>txID. case aggregated txID of
           None \<Rightarrow> wfail (GoErr ''no broadcast result found for txID'')
         | Some agg \<Rightarrow> wwrap ''failed to update single tx after background broadcast''
             (updateSingleTx env txID agg (ServiceErrors results)
               (case references txID of None \<Rightarrow> '''' | Some r \<Rightarrow> r) (labels txID))) retained) (\<lambda>rs.
       wbind (wupdate (IncreaseKnownTxAttemptsForTxIDs retained)) (\<lambda>_. wreturn (map snd rs))))))"

section \<open>The action\<close>

definition transactionBatchLength :: nat where
  "transactionBatchLength = 16"

definition setBatchForTxs :: "process_env \<Rightarrow> string list \<Rightarrow> unit step" where
  "setBatchForTxs env txIDs =
     wbind (wwrap ''failed to generate random batch'' (wresult (pe_Base64 env transactionBatchLength))) (\<lambda>batch.
     wupdate (SetBatchForKnownTxs txIDs batch))"

definition txIDsToBroadcast :: "process_args \<Rightarrow> string list" where
  "txIDsToBroadcast args = pa_SendWith args @ (case pa_TxID args of None \<Rightarrow> [] | Some txID \<Rightarrow> [txID])"

definition process_newRelease :: "int \<Rightarrow> process_args \<Rightarrow> release_state option" where
  "process_newRelease userID args =
     (let release = Some (newRelease userID) in
      if pa_IsNewTx args then (case pa_Reference args of None \<Rightarrow> release | Some reference \<Rightarrow> arm reference release) else release)"

definition process_body :: "process_env \<Rightarrow> int \<Rightarrow> process_args \<Rightarrow> process_result step" where
  "process_body env userID args =
     wbind (if pa_IsNewTx args then processNewTx env userID args else wreturn ()) (\<lambda>_.
     if pa_IsNoSend args \<and> pa_SendWith args = [] then wreturn \<lparr>pr_SendWithResults = [], pr_NotDelayedResults = []\<rparr>
     else
       let txIDs = txIDsToBroadcast args in
       wbind (if 1 < length txIDs then wwrap ''failed to set batch for transactions'' (setBatchForTxs env txIDs) else wreturn ()) (\<lambda>_.
       broadcastTxs env txIDs (pa_IsDelayed args)))"

text \<open>\<open>Process\<close>: the deferred \<open>release.onError\<close> runs when the body has returned; while a panic unwinds, the
  returned error is still nil.\<close>

definition Process :: "process_env \<Rightarrow> int \<Rightarrow> process_args \<Rightarrow> process_result step" where
  "Process env userID args w0 =
     (case process_body env userID args (w0\<lparr>w_release := process_newRelease userID args\<rparr>) of
        (Inl e, w) \<Rightarrow>
          (let (r, db) = onError (Some (AbortAction (pe_lib env))) (if is_panic e then None else Some e) (w_release w) (w_db w)
           in (Inl e, w\<lparr>w_release := r, w_db := db\<rparr>))
      | (Inr x, w) \<Rightarrow> (Inr x, w))"

definition ReleaseUnprocessedAction :: "go_lib \<Rightarrow> int \<Rightarrow> process_args \<Rightarrow> go_error \<Rightarrow> database \<Rightarrow> database" where
  "ReleaseUnprocessedAction lib userID args cause db =
     snd (onError (Some (AbortAction lib)) (Some cause) (process_newRelease userID args) db)"

end
