(* ===== verification/Storage_Inv.thy ===== *)
theory Storage_Inv
  imports Abort_Action
begin

text \<open>
  The invariant of the storage and its preservation by every operation of the repositories.

  \<^item> \<open>txs_ok\<close>, \<open>outs_ok\<close>: the keys of the schema, and the references between transactions and outputs
    stay within one user;
  \<^item> \<open>index_ok\<close>: a row of the spendable-output index has the owner and the amount of its output, and a
    reserved row belongs to an output that is spent by the reserving transaction, which is not signed yet;
  \<^item> \<open>known_ok\<close>: a KnownTx whose status is evidence of a broadcast carries the broadcast flag.
\<close>

section \<open>The invariant\<close>

definition txs_ok :: "nat \<Rightarrow> transaction_row list \<Rightarrow> bool" where
  "txs_ok nT txs \<longleftrightarrow> distinct (map tr_ID txs) \<and> distinct (map tr_Reference txs) \<and> (\<forall>t \<in> set txs. tr_ID t < nT)"

definition owned_tx :: "transaction_row list \<Rightarrow> nat \<Rightarrow> int \<Rightarrow> bool" where
  "owned_tx txs i user \<longleftrightarrow> (\<exists>t \<in> set txs. tr_ID t = i \<and> tr_UserID t = user)"

definition out_ok :: "nat \<Rightarrow> transaction_row list \<Rightarrow> output_row \<Rightarrow> bool" where
  "out_ok nO txs r \<longleftrightarrow> or_ID r < nO \<and> is_i64 (or_Satoshis r) \<and> owned_tx txs (or_TransactionID r) (or_UserID r) \<and>
     (case or_SpentBy r of None \<Rightarrow> True | Some i \<Rightarrow> owned_tx txs i (or_UserID r))"

definition outs_ok :: "nat \<Rightarrow> transaction_row list \<Rightarrow> output_row list \<Rightarrow> bool" where
  "outs_ok nO txs outs \<longleftrightarrow> distinct (map or_ID outs) \<and> (\<forall>r \<in> set outs. out_ok nO txs r)"

definition unsigned_tx :: "transaction_row list \<Rightarrow> nat \<Rightarrow> bool" where
  "unsigned_tx txs i \<longleftrightarrow> (\<forall>t \<in> set txs. tr_ID t = i \<longrightarrow> tr_TxID t = None)"

definition row_fits :: "transaction_row list \<Rightarrow> user_utxo \<Rightarrow> output_row \<Rightarrow> bool" where
  "row_fits txs u r \<longleftrightarrow> or_ID r = uu_OutputID u \<and> or_UserID r = uu_UserID u \<and> or_Satoshis r = int (uu_Satoshis u) \<and>
     (case uu_ReservedByID u of None \<Rightarrow> True | Some i \<Rightarrow> or_SpentBy r = Some i \<and> unsigned_tx txs i)"

definition index_ok :: "transaction_row list \<Rightarrow> output_row list \<Rightarrow> user_utxo list \<Rightarrow> bool" where
  "index_ok txs outs utxos \<longleftrightarrow> keyed utxos \<and> (\<forall>u \<in> set utxos. \<exists>r \<in> set outs. row_fits txs u r)"

definition known_ok :: "known_tx_row list \<Rightarrow> bool" where
  "known_ok ks \<longleftrightarrow> distinct (map kt_TxID ks) \<and>
     (\<forall>k \<in> set ks. WasBroadcastStatus (kt_Status k) \<longrightarrow> kt_WasBroadcast k)"

definition db_inv :: "database \<Rightarrow> bool" where
  "db_inv db \<longleftrightarrow> txs_ok (db_NextTransactionID db) (db_Transactions db) \<and>
     outs_ok (db_NextOutputID db) (db_Transactions db) (db_Outputs db) \<and>
     index_ok (db_Transactions db) (db_Outputs db) (db_UserUTXOs db) \<and> known_ok (db_KnownTxs db)"

lemma out_ok_mono:
  "out_ok nO txs r \<Longrightarrow> nO \<le> nO' \<Longrightarrow> (\<And>i u. owned_tx txs i u \<Longrightarrow> owned_tx txs' i u) \<Longrightarrow> out_ok nO' txs' r"
  by (auto simp: out_ok_def split: option.splits)

lemma db_invD:
  assumes "db_inv db"
  shows "txs_ok (db_NextTransactionID db) (db_Transactions db)"
    and "outs_ok (db_NextOutputID db) (db_Transactions db) (db_Outputs db)"
    and "index_ok (db_Transactions db) (db_Outputs db) (db_UserUTXOs db)"
    and "known_ok (db_KnownTxs db)"
  using assms by (simp_all add: db_inv_def)

lemma empty_database_inv: "db_inv (empty_database now)"
  by (simp add: db_inv_def empty_database_def txs_ok_def outs_ok_def index_ok_def known_ok_def keyed_def)

section \<open>Updates that keep the key columns\<close>

text \<open>The columns of a row that the invariant reads.\<close>

definition tx_cols :: "transaction_row \<Rightarrow> nat \<times> int \<times> string \<times> string option" where
  "tx_cols t = (tr_ID t, tr_UserID t, tr_Reference t, tr_TxID t)"

definition out_cols :: "output_row \<Rightarrow> nat \<times> int \<times> nat \<times> nat option \<times> int" where
  "out_cols r = (or_ID r, or_UserID r, or_TransactionID r, or_SpentBy r, or_Satoshis r)"

definition utxo_cols :: "user_utxo \<Rightarrow> int \<times> nat \<times> nat \<times> nat option" where
  "utxo_cols u = (uu_UserID u, uu_OutputID u, uu_Satoshis u, uu_ReservedByID u)"

lemma map_cols_memD:
  assumes "map f xs = map f ys" and "x \<in> set xs"
  obtains y where "y \<in> set ys" and "f y = f x"
proof -
  from assms(2) have "f x \<in> set (map f xs)" by simp
  then have "f x \<in> set (map f ys)" by (simp only: assms(1))
  then show thesis using that by (auto simp: image_iff)
qed

lemma map_cols_proj: "map f xs = map f ys \<Longrightarrow> map (\<lambda>x. g (f x)) xs = map (\<lambda>y. g (f y)) ys"
  by (metis (no_types, lifting) list.map_comp comp_def map_eq_conv)

lemma owned_tx_iff: "owned_tx xs i u \<longleftrightarrow> (i, u) \<in> set (map (\<lambda>t. (tr_ID t, tr_UserID t)) xs)"
  by (auto simp: owned_tx_def image_iff)

lemma tx_cols_same:
  assumes "map tx_cols txs = map tx_cols txs'"
  shows "map tr_ID txs = map tr_ID txs'" and "map tr_Reference txs = map tr_Reference txs'"
    and "owned_tx txs = owned_tx txs'" and "unsigned_tx txs = unsigned_tx txs'"
proof -
  show "map tr_ID txs = map tr_ID txs'" "map tr_Reference txs = map tr_Reference txs'"
    using map_cols_proj [OF assms, of fst] map_cols_proj [OF assms, of "\<lambda>c. fst (snd (snd c))"]
    by (simp_all add: tx_cols_def)
  show "owned_tx txs = owned_tx txs'"
    using map_cols_proj [OF assms, of "\<lambda>c. (fst c, fst (snd c))"] owned_tx_iff by (simp add: tx_cols_def fun_eq_iff del: set_map)
  have "unsigned_tx xs i \<longleftrightarrow> (\<forall>(j, x) \<in> set (map (\<lambda>t. (tr_ID t, tr_TxID t)) xs). j = i \<longrightarrow> x = None)" for xs i
    by (auto simp: unsigned_tx_def)
  then show "unsigned_tx txs = unsigned_tx txs'"
    using map_cols_proj [OF assms, of "\<lambda>c. (fst c, snd (snd (snd c)))"] by (simp add: tx_cols_def fun_eq_iff del: set_map)
qed

lemma row_fits_cols:
  "out_cols r = out_cols r' \<Longrightarrow> utxo_cols u = utxo_cols u' \<Longrightarrow> unsigned_tx txs = unsigned_tx txs' \<Longrightarrow>
   row_fits txs u r = row_fits txs' u' r'"
  by (simp add: row_fits_def out_cols_def utxo_cols_def split: option.splits)

lemma db_inv_cols:
  assumes inv: "db_inv db" and txs: "map tx_cols (db_Transactions db') = map tx_cols (db_Transactions db)"
    and outs: "map out_cols (db_Outputs db') = map out_cols (db_Outputs db)"
    and utxos: "map utxo_cols (db_UserUTXOs db') = map utxo_cols (db_UserUTXOs db)"
    and known: "known_ok (db_KnownTxs db')"
    and nxt: "db_NextTransactionID db' = db_NextTransactionID db" "db_NextOutputID db' = db_NextOutputID db"
  shows "db_inv db'"
proof -
  note t = tx_cols_same [OF txs]
  have "txs_ok (db_NextTransactionID db') (db_Transactions db')"
    using db_invD(1) [OF inv] t(1,2) nxt(1) unfolding txs_ok_def
    by (metis (no_types, lifting) image_iff list.set_map)
  moreover have "outs_ok (db_NextOutputID db') (db_Transactions db') (db_Outputs db')"
  proof -
    have "map or_ID (db_Outputs db') = map or_ID (db_Outputs db)"
      using map_cols_proj [OF outs, of fst] by (simp add: out_cols_def)
    moreover have "out_ok (db_NextOutputID db') (db_Transactions db') r" if r: "r \<in> set (db_Outputs db')" for r
    proof -
      from map_cols_memD [OF outs r] obtain s where "s \<in> set (db_Outputs db)" "out_cols s = out_cols r" .
      with db_invD(2) [OF inv] show ?thesis by (auto simp: outs_ok_def out_ok_def out_cols_def t(3) nxt split: option.splits)
    qed
    ultimately show ?thesis using db_invD(2) [OF inv] by (simp add: outs_ok_def)
  qed
  moreover have "index_ok (db_Transactions db') (db_Outputs db') (db_UserUTXOs db')"
  proof -
    have "map (\<lambda>u. (uu_UserID u, uu_OutputID u)) (db_UserUTXOs db') =
        map (\<lambda>u. (uu_UserID u, uu_OutputID u)) (db_UserUTXOs db)"
      using map_cols_proj [OF utxos, of "\<lambda>c. (fst c, fst (snd c))"] by (simp add: utxo_cols_def)
    then have "keyed (db_UserUTXOs db')" using db_invD(3) [OF inv] by (simp add: index_ok_def keyed_def)
    moreover have "\<exists>r \<in> set (db_Outputs db'). row_fits (db_Transactions db') u r" if u: "u \<in> set (db_UserUTXOs db')" for u
    proof -
      from map_cols_memD [OF utxos u] obtain v where v: "v \<in> set (db_UserUTXOs db)" "utxo_cols v = utxo_cols u" .
      with db_invD(3) [OF inv] obtain s where s: "s \<in> set (db_Outputs db)" "row_fits (db_Transactions db) v s"
        by (auto simp: index_ok_def)
      from map_cols_memD [OF outs [symmetric] s(1)] obtain r where "r \<in> set (db_Outputs db')" "out_cols r = out_cols s" .
      with s(2) v(2) t(4) show ?thesis by (metis row_fits_cols)
    qed
    ultimately show ?thesis by (simp add: index_ok_def)
  qed
  ultimately show ?thesis using known by (simp add: db_inv_def)
qed

lemma db_inv_update:
  assumes "db_inv db"
  shows "known_ok ks \<Longrightarrow> db_inv (db\<lparr>db_KnownTxs := ks\<rparr>)"
    and "db_inv (db\<lparr>db_TxNotes := ns\<rparr>)"
    and "db_inv (db\<lparr>db_Baskets := bs\<rparr>)"
    and "db_inv (db\<lparr>db_Commissions := cs\<rparr>)"
    and "db_inv (db\<lparr>db_Now := now\<rparr>)"
    and "map tx_cols txs = map tx_cols (db_Transactions db) \<Longrightarrow> db_inv (db\<lparr>db_Transactions := txs\<rparr>)"
    and "map out_cols outs = map out_cols (db_Outputs db) \<Longrightarrow> db_inv (db\<lparr>db_Outputs := outs\<rparr>)"
    and "map utxo_cols utxos = map utxo_cols (db_UserUTXOs db) \<Longrightarrow> db_inv (db\<lparr>db_UserUTXOs := utxos\<rparr>)"
  using db_inv_cols [OF assms] db_invD(4) [OF assms] by simp_all

lemma db_inv_subset:
  assumes "db_inv db"
  shows "db_inv (db\<lparr>db_UserUTXOs := filter P (db_UserUTXOs db)\<rparr>)"
  using assms by (auto simp: db_inv_def index_ok_def keyed_def distinct_map_filter)

lemma known_ok_update:
  assumes "known_ok ks" and "\<And>k. kt_TxID (f k) = kt_TxID k"
    and "\<And>k. k \<in> set ks \<Longrightarrow> P k \<Longrightarrow> WasBroadcastStatus (kt_Status (f k)) \<Longrightarrow> kt_WasBroadcast (f k)"
  shows "known_ok (update_where P f ks)"
  using assms by (auto simp: known_ok_def in_update_where)

lemma addTxNotes_inv: "db_inv db \<Longrightarrow> db_inv (addTxNotes ns db)"
  by (simp add: addTxNotes_def db_inv_update(2))

lemma addTxNote_inv: "db_inv db \<Longrightarrow> db_inv (addTxNote n db)"
  by (simp add: addTxNote_def db_inv_update(2))

section \<open>Known transactions\<close>

lemma applyKnownTxStatusGuarded_inv:
  "db_inv db \<Longrightarrow> applyKnownTxStatusGuarded txID st skip ns db = Inr (b, db') \<Longrightarrow> db_inv db'"
  by (auto simp: applyKnownTxStatusGuarded_def set_known_status_def split: if_splits
      intro!: addTxNotes_inv db_inv_update(1) known_ok_update dest: db_invD(4))

lemma updateKnownTxStatus_inv:
  "db_inv db \<Longrightarrow> updateKnownTxStatus txID st skip ns db = Inr (u, db') \<Longrightarrow> db_inv db'"
  by (auto simp: updateKnownTxStatus_def set_known_status_def split: if_splits
      intro!: addTxNotes_inv db_inv_update(1) known_ok_update dest: db_invD(4))

lemma ParkUnbroadcastKnownTx_inv:
  "db_inv db \<Longrightarrow> ParkUnbroadcastKnownTx txID ns db = Inr (b, db') \<Longrightarrow> db_inv db'"
  by (auto simp: ParkUnbroadcastKnownTx_def WasBroadcastStatus_def split: if_splits
      intro!: addTxNotes_inv db_inv_update(1) known_ok_update dest: db_invD(4))

lemma ClaimKnownTxsForBroadcast_inv:
  "db_inv db \<Longrightarrow> ClaimKnownTxsForBroadcast txIDs db = Inr (cs, db') \<Longrightarrow> db_inv db'"
  by (auto simp: ClaimKnownTxsForBroadcast_def Let_def split: if_splits
      intro!: db_inv_update(1) known_ok_update dest: db_invD(4))

lemma find_known_None: "find_known txID db = None \<longleftrightarrow> (\<forall>k \<in> set (db_KnownTxs db). kt_TxID k \<noteq> txID)"
  by (auto simp: find_known_def find_None_iff)

lemma find_known_SomeD: "find_known txID db = Some k \<Longrightarrow> k \<in> set (db_KnownTxs db) \<and> kt_TxID k = txID"
  by (auto simp: find_known_def find_Some_iff)

lemma upsertKnownTx_inv:
  assumes inv: "db_inv db" and op: "upsertKnownTx req n db = Inr (u, db')"
  shows "db_inv db'"
proof (cases "find_known (ukt_TxID req) db")
  case None
  then have "ukt_TxID req \<notin> set (map kt_TxID (db_KnownTxs db))" by (auto simp: find_known_None)
  then have ok: "known_ok (db_KnownTxs db @ [k])" if "kt_TxID k = ukt_TxID req"
    "WasBroadcastStatus (kt_Status k) \<Longrightarrow> kt_WasBroadcast k" for k
    using db_invD(4) [OF inv] that by (auto simp: known_ok_def)
  from None inv op show ?thesis
    by (auto simp: upsertKnownTx_def Let_def split: if_splits intro!: addTxNote_inv db_inv_update(1) ok)
next
  case (Some k)
  have keys: "map kt_TxID (update_where (\<lambda>k. kt_TxID k = i) (\<lambda>_. m) ks) = map kt_TxID ks"
    if "kt_TxID m = i" for i m and ks :: "known_tx_row list"
    using that by (simp add: update_where_def)
  have ok: "known_ok (update_where (\<lambda>k. kt_TxID k = ukt_TxID req) (\<lambda>_. m) (db_KnownTxs db))"
    if "kt_TxID m = ukt_TxID req" "WasBroadcastStatus (kt_Status m) \<Longrightarrow> kt_WasBroadcast m" for m
    using db_invD(4) [OF inv] that unfolding known_ok_def keys [OF that(1)] by (auto simp: in_update_where)
  from Some inv op show ?thesis
    by (auto simp: upsertKnownTx_def Let_def split: if_splits intro!: addTxNote_inv db_inv_update(1) ok)
qed

lemma set_transactions_status_inv: "db_inv db \<Longrightarrow> db_inv (set_transactions_status txID st db)"
  unfolding set_transactions_status_def by (rule db_inv_update(6)) (simp_all add: tx_cols_def)

lemma FailKnownTxAsDoubleSpend_inv:
  "db_inv db \<Longrightarrow> FailKnownTxAsDoubleSpend txID skip ns db = Inr (b, db') \<Longrightarrow> db_inv db'"
  by (auto simp: FailKnownTxAsDoubleSpend_def result_simps split: if_splits
      intro!: set_transactions_status_inv dest: applyKnownTxStatusGuarded_inv)

lemma UpdateKnownTxAsMined_inv: "db_inv db \<Longrightarrow> db_inv (UpdateKnownTxAsMined m db)"
  unfolding UpdateKnownTxAsMined_def Let_def
  by (intro db_inv_update(8) set_transactions_status_inv addTxNotes_inv db_inv_update(1) known_ok_update)
    (simp_all add: utxo_cols_def db_invD(4))

lemma IncreaseKnownTxAttempts_inv: "db_inv db \<Longrightarrow> db_inv (IncreaseKnownTxAttemptsForTxIDs ids db)"
  by (auto simp: IncreaseKnownTxAttemptsForTxIDs_def known_ok_def dest: db_invD(4)
      intro!: db_inv_update(1) known_ok_update)

lemma SetBatch_inv: "db_inv db \<Longrightarrow> db_inv (SetBatchForKnownTxs ids b db)"
  by (auto simp: SetBatchForKnownTxs_def known_ok_def dest: db_invD(4)
      intro!: db_inv_update(1) known_ok_update)

lemma proofTimeoutUpdates_evidence:
  "WasBroadcastStatus (kt_Status (proofTimeoutUpdates m k)) \<Longrightarrow> kt_WasBroadcast (proofTimeoutUpdates m k)"
  by (simp add: proofTimeoutUpdates_def Let_def WasBroadcastStatus_def split: if_splits)

lemma ApplyProofTimeouts_inv:
  assumes "db_inv db"
  shows "db_inv (snd (ApplyProofTimeouts a m sts db))"
proof -
  have "known_ok (fold (\<lambda>knownTx. update_where (\<lambda>k. kt_TxID k = kt_TxID knownTx)
      (\<lambda>k. let upd = proofTimeoutUpdates m knownTx in
        k\<lparr>kt_Status := kt_Status upd, kt_Attempts := kt_Attempts upd,
          kt_WasBroadcast := kt_WasBroadcast upd, kt_RebroadcastAttempts := kt_RebroadcastAttempts upd\<rparr>)) xs ks)"
    if "known_ok ks" for xs ks
    by (rule fold_invariant [where Q = "\<lambda>_. True"])
      (auto simp: that Let_def proofTimeoutUpdates_evidence intro!: known_ok_update)
  with assms show ?thesis
    by (auto simp: ApplyProofTimeouts_def Let_def db_invD(4) intro!: db_inv_update(1))
qed

lemma Requeue_inv:
  "db_inv db \<Longrightarrow> RequeueKnownTxForRebroadcast txID m sts ns db = Inr (x, db') \<Longrightarrow> db_inv db'"
  by (auto simp: RequeueKnownTxForRebroadcast_def Let_def proofTimeoutUpdates_evidence split: list.splits
      intro!: addTxNotes_inv db_inv_update(1) known_ok_update dest: db_invD(4))

lemma InvalidateMerkleProofs_inv: "db_inv db \<Longrightarrow> db_inv (snd (InvalidateMerkleProofsByBlockHash hs db))"
  by (auto simp: InvalidateMerkleProofsByBlockHash_def Let_def
      intro!: addTxNotes_inv db_inv_update(1) known_ok_update dest: db_invD(4))

section \<open>Transaction and output columns outside the keys\<close>

lemma UpdateTransactionStatus_inv:
  "db_inv db \<Longrightarrow> UpdateTransactionStatusByTxID txID st ex db = Inr (u, db') \<Longrightarrow> db_inv db'"
  "db_inv db \<Longrightarrow> UpdateTransactionStatusByID i st ex db = Inr (u, db') \<Longrightarrow> db_inv db'"
  by (auto simp: UpdateTransactionStatusByTxID_def UpdateTransactionStatusByID_def Let_def tx_cols_def
      split: if_splits intro!: db_inv_update(6))

lemma UpdateTransaction_inv: "db_inv db \<Longrightarrow> UpdateTransaction s db = Inr (u, db') \<Longrightarrow> db_inv db'"
  by (auto simp: UpdateTransaction_def tx_cols_def split: if_splits intro!: db_inv_update(6))

lemma AddLabels_inv: "db_inv db \<Longrightarrow> AddLabels i ls db = Inr (u, db') \<Longrightarrow> db_inv db'"
  by (auto simp: AddLabels_def tx_cols_def split: if_splits intro!: db_inv_update(6))

lemma MarkCreatedOutputs_inv:
  "db_inv db \<Longrightarrow> db_inv (MarkCreatedOutputsAsNotSpendable i db)"
  "db_inv db \<Longrightarrow> db_inv (MarkCreatedOutputsAsSpendableByTxID txID db)"
  by (auto simp: MarkCreatedOutputsAsNotSpendable_def MarkCreatedOutputsAsSpendableByTxID_def out_cols_def
      intro!: db_inv_update(7))

lemma UpdateOutput_inv: "db_inv db \<Longrightarrow> UpdateOutput s db = Inr (u, db') \<Longrightarrow> db_inv db'"
  by (auto simp: UpdateOutput_def out_cols_def split: option.splits if_splits intro!: db_inv_update(7))

lemma Unlink_inv: "db_inv db \<Longrightarrow> UnlinkOutputFromBasketByOutpoint uid b op db = Inr (u, db') \<Longrightarrow> db_inv db'"
  by (auto simp: UnlinkOutputFromBasketByOutpoint_def flow_simps Let_def out_cols_def split: option.splits
      intro!: db_inv_subset [of "_\<lparr>db_Outputs := _\<rparr>", simplified] db_inv_update(7))

lemma DeleteIndexRows_inv: "db_inv db \<Longrightarrow> db_inv (DeleteIndexRows uid ids db)"
  using db_inv_update(8) [of db "db_UserUTXOs db"] db_inv_subset [of db]
  by (auto simp: DeleteIndexRows_def DeleteIndexRowsForOutputs_def)

section \<open>The spendable-output index\<close>

lemma set_keys_upsert:
  "set (map (\<lambda>v. (uu_UserID v, uu_OutputID v)) (upsert_utxo u vs)) =
   insert (uu_UserID u, uu_OutputID u) (set (map (\<lambda>v. (uu_UserID v, uu_OutputID v)) vs))"
  by (induction vs) auto

lemma keyed_upsert: "keyed vs \<Longrightarrow> keyed (upsert_utxo u vs)"
proof (induction vs)
  case (Cons v vs)
  have "keyed vs" "(uu_UserID v, uu_OutputID v) \<notin> set (map (\<lambda>v. (uu_UserID v, uu_OutputID v)) vs)"
    using Cons.prems by (auto simp: keyed_def)
  with Cons.IH set_keys_upsert [of u vs] show ?case by (auto simp: keyed_def)
qed (simp add: keyed_def)

lemma upsert_memD:
  "v \<in> set (upsert_utxo u vs) \<Longrightarrow> v \<in> set vs \<or> (\<exists>c. v = u\<lparr>uu_CreatedAt := c\<rparr>)"
  by (induction vs) (auto split: if_splits intro: exI [of _ "uu_CreatedAt u"])

lemma row_fits_created [simp]: "row_fits txs (u\<lparr>uu_CreatedAt := c\<rparr>) r = row_fits txs u r"
  by (simp add: row_fits_def)

lemma index_ok_upsert:
  assumes "index_ok txs outs utxos" and "\<exists>r \<in> set outs. row_fits txs u r"
  shows "index_ok txs outs (upsert_utxo u utxos)"
  using assms keyed_upsert [of utxos u] by (auto simp: index_ok_def dest!: upsert_memD)

lemma newUTXOs_loop_mem:
  assumes "newUTXOs_loop lib now rs = Inr us" and "u \<in> set us"
  obtains r st where "(r, st) \<in> set rs" and "ToUTXOStatus st \<noteq> UTXOStatusUnknown"
    and "newUserUTXO lib now r (ToUTXOStatus st) = Inr u"
proof -
  have "\<exists>(r, st) \<in> set rs. ToUTXOStatus st \<noteq> UTXOStatusUnknown \<and> newUserUTXO lib now r (ToUTXOStatus st) = Inr u"
    using assms
    by (induction lib now rs arbitrary: us rule: newUTXOs_loop.induct)
      (fastforce simp: Let_def result_simps split: if_splits)+
  with that show thesis by auto
qed

lemma newUserUTXO_fits:
  assumes "convert_ok lib" and "newUserUTXO lib now r st = Inr u" and "is_i64 (or_Satoshis r)"
    and "or_ID r' = or_ID r" "or_UserID r' = or_UserID r" "or_Satoshis r' = or_Satoshis r"
  shows "row_fits txs u r'"
  using assms by (auto simp: newUserUTXO_def convert_ok_def row_fits_def result_simps split: option.splits if_splits)

text \<open>Rows that stand for the same output as a row of the table.\<close>

definition in_outputs :: "output_row list \<Rightarrow> output_row \<Rightarrow> bool" where
  "in_outputs outs r \<longleftrightarrow> (\<exists>r' \<in> set outs. or_ID r' = or_ID r \<and> or_UserID r' = or_UserID r \<and> or_Satoshis r' = or_Satoshis r)"

lemma createUTXOsFromOutputs_inv:
  assumes inv: "db_inv db" and lib: "convert_ok lib"
    and rs: "\<And>r st. (r, st) \<in> set rs \<Longrightarrow> in_outputs (db_Outputs db) r"
    and op: "createUTXOsFromOutputs lib rs db = Inr (x, db')"
  shows "db_inv db'"
proof -
  from op obtain us where us: "newUTXOs_loop lib (db_Now db) rs = Inr us"
    and db': "db' = db\<lparr>db_UserUTXOs := fold upsert_utxo us (db_UserUTXOs db)\<rparr>"
    by (auto simp: createUTXOsFromOutputs_def result_simps)
  have fits: "\<exists>r \<in> set (db_Outputs db). row_fits (db_Transactions db) u r" if u: "u \<in> set us" for u
  proof -
    from newUTXOs_loop_mem [OF us u] obtain r st where "(r, st) \<in> set rs"
      and new: "newUserUTXO lib (db_Now db) r (ToUTXOStatus st) = Inr u" by blast
    from rs [OF this(1)] obtain r' where r': "r' \<in> set (db_Outputs db)"
      "or_ID r' = or_ID r" "or_UserID r' = or_UserID r" "or_Satoshis r' = or_Satoshis r"
      by (auto simp: in_outputs_def)
    from r'(1,4) db_invD(2) [OF inv] have "is_i64 (or_Satoshis r)" by (auto simp: outs_ok_def out_ok_def)
    from newUserUTXO_fits [OF lib new this r'(2-4)] r'(1) show ?thesis by blast
  qed
  have "index_ok (db_Transactions db) (db_Outputs db) (fold upsert_utxo us (db_UserUTXOs db))"
    by (rule fold_invariant [where Q = "\<lambda>u. u \<in> set us"])
      (auto simp: db_invD(3) [OF inv] index_ok_upsert fits)
  with inv show ?thesis by (simp add: db' db_inv_def)
qed

lemma getOutputsWithTxStatus_mem:
  "(r, st) \<in> set (getOutputsWithTxStatus P db) \<longleftrightarrow> r \<in> set (db_Outputs db) \<and> P r \<and>
     (\<exists>t \<in> set (db_Transactions db). tr_ID t = or_TransactionID r \<and> tr_Status t = st)"
  by (auto simp: getOutputsWithTxStatus_def)

lemma createUTXOsForSpendable_inv:
  assumes "db_inv db" "convert_ok lib" and "createUTXOsForSpendableOutputsByTxID lib txID db = Inr (x, db')"
  shows "db_inv db'"
  by (rule createUTXOsFromOutputs_inv [OF assms(1,2) _ assms(3) [unfolded createUTXOsForSpendableOutputsByTxID_def Let_def]])
    (auto simp: getOutputsWithTxStatus_mem in_outputs_def)

lemma CreateUTXOForSpendable_inv:
  "db_inv db \<Longrightarrow> convert_ok lib \<Longrightarrow> CreateUTXOForSpendableOutputsByTxID lib txID db = Inr (x, db') \<Longrightarrow> db_inv db'"
  by (auto simp: CreateUTXOForSpendableOutputsByTxID_def flow_simps intro: createUTXOsForSpendable_inv)

lemma AdvanceKnownTx_inv:
  assumes "db_inv db" "convert_ok lib" and "AdvanceKnownTxToBroadcasted lib txID skip ns db = Inr (b, db')"
  shows "db_inv db'"
  using assms(1,3) createUTXOsForSpendable_inv [OF set_transactions_status_inv assms(2)]
  by (auto simp: AdvanceKnownTxToBroadcasted_def result_simps split: if_splits
      dest: applyKnownTxStatusGuarded_inv)

section \<open>Releasing inputs\<close>

definition unreserved :: "nat \<Rightarrow> database \<Rightarrow> bool" where
  "unreserved i db \<longleftrightarrow> (\<forall>u \<in> set (db_UserUTXOs db). uu_ReservedByID u \<noteq> Some i)"

lemma UnreserveUTXOs_inv:
  assumes "db_inv db"
  shows "db_inv (UnreserveUTXOs i db)" and "unreserved i (UnreserveUTXOs i db)"
proof -
  let ?f = "\<lambda>u. if uu_ReservedByID u = Some i then u\<lparr>uu_ReservedByID := None\<rparr> else u"
  have "keyed (map ?f us) = keyed us" for us
  proof -
    have "map ((\<lambda>u. (uu_UserID u, uu_OutputID u)) \<circ> ?f) us = map (\<lambda>u. (uu_UserID u, uu_OutputID u)) us" by simp
    then show ?thesis unfolding keyed_def by (simp only: map_map)
  qed
  moreover have "row_fits txs u r \<Longrightarrow> row_fits txs (?f u) r" for txs u r
    by (auto simp: row_fits_def split: option.splits)
  ultimately show "db_inv (UnreserveUTXOs i db)"
    using assms by (fastforce simp: db_inv_def index_ok_def UnreserveUTXOs_def UnreserveUTXOsByTransactionID_def)
  show "unreserved i (UnreserveUTXOs i db)"
    by (auto simp: unreserved_def UnreserveUTXOs_def UnreserveUTXOsByTransactionID_def)
qed

lemma makeOutputsSpendable_inv:
  assumes inv: "db_inv db"
    and free: "\<And>r i. r \<in> set (db_Outputs db) \<Longrightarrow> P r \<Longrightarrow> or_SpentBy r = Some i \<Longrightarrow> unreserved i db"
  shows "db_inv (makeOutputsSpendable P db)"
proof -
  define f where "f r = (if P r then r\<lparr>or_Spendable := True, or_SpentBy := None\<rparr> else r)" for r :: output_row
  have outs: "db_Outputs (makeOutputsSpendable P db) = map f (db_Outputs db)"
    by (simp add: makeOutputsSpendable_def update_where_def f_def)
  have f_id: "or_ID (f r) = or_ID r" for r by (simp add: f_def)
  have f_ok: "out_ok nO txs r \<Longrightarrow> out_ok nO txs (f r)" for nO txs r
    by (auto simp: out_ok_def f_def)
  have f_fits: "row_fits txs u (f r)" if "row_fits txs u r" "r \<in> set (db_Outputs db)" "u \<in> set (db_UserUTXOs db)" for txs u r
    using that free [of r] by (auto simp: row_fits_def unreserved_def f_def split: option.splits)
  have "outs_ok (db_NextOutputID db) (db_Transactions db) (map f (db_Outputs db))"
    using db_invD(2) [OF inv] by (auto simp: outs_ok_def comp_def f_id f_ok)
  moreover have "index_ok (db_Transactions db) (map f (db_Outputs db)) (db_UserUTXOs db)"
    using db_invD(3) [OF inv] f_fits by (fastforce simp: index_ok_def)
  ultimately show ?thesis
    using inv unfolding db_inv_def outs by (simp add: makeOutputsSpendable_def)
qed

lemma in_outputs_makeSpendable:
  assumes "r \<in> set (db_Outputs db)"
  shows "in_outputs (db_Outputs (makeOutputsSpendable P db)) r"
proof -
  let ?r = "if P r then r\<lparr>or_Spendable := True, or_SpentBy := None\<rparr> else r"
  have "?r \<in> set (db_Outputs (makeOutputsSpendable P db))"
    using assms by (auto simp: makeOutputsSpendable_def update_where_def)
  then show ?thesis unfolding in_outputs_def by (intro bexI [of _ ?r]) simp_all
qed

lemma recreateSpentOutputs_inv:
  assumes "db_inv db" "convert_ok lib" "unreserved i db" and op: "recreateSpentOutputs lib i db = Inr (x, db')"
  shows "db_inv db'"
proof (rule createUTXOsFromOutputs_inv [OF _ assms(2) _ op [unfolded recreateSpentOutputs_def Let_def]])
  show "db_inv (makeOutputsSpendable (\<lambda>r. or_SpentBy r = Some i) db)"
    using assms(1,3) by (intro makeOutputsSpendable_inv) auto
qed (auto simp: getOutputsWithTxStatus_mem in_outputs_makeSpendable)

lemma RecreateSpentOutputs_inv:
  "db_inv db \<Longrightarrow> convert_ok lib \<Longrightarrow> unreserved i db \<Longrightarrow> RecreateSpentOutputs lib i db = Inr (x, db') \<Longrightarrow> db_inv db'"
  by (auto simp: RecreateSpentOutputs_def flow_simps intro: recreateSpentOutputs_inv)

lemma MakeChangeSpendable_inv:
  assumes "db_inv db" "convert_ok lib" and op: "MakeChangeSpendableAndIndexByTxID lib txID db = Inr (x, db')"
  shows "db_inv db'"
proof -
  let ?P = "\<lambda>r. or_TransactionID r \<in> set (transaction_ids txID db) \<and> or_SpentBy r = None \<and> isChangeDaoScope r"
  from op have op': "createUTXOsFromOutputs lib (getOutputsWithTxStatus ?P (makeOutputsSpendable ?P db))
      (makeOutputsSpendable ?P db) = Inr (x, db')"
    by (simp add: MakeChangeSpendableAndIndexByTxID_def flow_simps Let_def)
  have "db_inv (makeOutputsSpendable ?P db)" using assms(1) by (intro makeOutputsSpendable_inv) auto
  from createUTXOsFromOutputs_inv [OF this assms(2) _ op'] show ?thesis
    by (auto simp: getOutputsWithTxStatus_mem in_outputs_def)
qed

lemma abort_uow_inv:
  assumes "db_inv db" "convert_ok lib" and "abort_uow lib i db = Inr (x, db')"
  shows "db_inv db'"
proof -
  from assms(3) obtain db1 where "RecreateSpentOutputs lib i (UnreserveUTXOs i db) = Inr ((), db1)"
    and st: "UpdateTransactionStatusByID i TxStatusAborted
       [TxStatusUnprocessed, TxStatusUnsigned, TxStatusNoSend, TxStatusNonFinal, TxStatusUnfail]
       (MarkCreatedOutputsAsNotSpendable i db1) = Inr (x, db')"
    by (auto simp: abort_uow_def result_simps)
  with UnreserveUTXOs_inv [OF assms(1)] assms(2) have "db_inv db1" by (auto intro: RecreateSpentOutputs_inv)
  with st show ?thesis by (auto intro: UpdateTransactionStatus_inv(2) MarkCreatedOutputs_inv(1))
qed

section \<open>Recording the signed transaction\<close>

lemma set_locking_scripts_inv:
  "db_inv db \<Longrightarrow> set_locking_scripts ut outs db = Inr (x, db') \<Longrightarrow> db_inv db'"
proof (induction outs arbitrary: db)
  case (Cons out outs)
  from Cons.prems(2) obtain script where
    "set_locking_scripts ut outs (db\<lparr>db_Outputs := update_where (\<lambda>r. or_ID r = or_ID out)
       (\<lambda>r. r\<lparr>or_LockingScript := Some script\<rparr>) (db_Outputs db)\<rparr>) = Inr (x, db')"
    by (auto simp: result_simps)
  moreover have "db_inv (db\<lparr>db_Outputs := update_where (\<lambda>r. or_ID r = or_ID out)
       (\<lambda>r. r\<lparr>or_LockingScript := Some script\<rparr>) (db_Outputs db)\<rparr>)"
    using Cons.prems(1) by (rule db_inv_update(7)) (simp add: out_cols_def)
  ultimately show ?case by (intro Cons.IH)
qed simp

text \<open>The first two statements of \<open>SpendTransaction\<close>: the txid is set and the reservations are gone.\<close>

lemma spend_transaction_inv:
  assumes inv: "db_inv db"
    and f: "\<And>t. tr_ID (f t) = tr_ID t" "\<And>t. tr_UserID (f t) = tr_UserID t" "\<And>t. tr_Reference (f t) = tr_Reference t"
    and P: "\<And>t. P t \<Longrightarrow> tr_ID t = i"
  shows "db_inv (db\<lparr>db_Transactions := update_where P f (db_Transactions db),
    db_UserUTXOs := filter (\<lambda>u. uu_ReservedByID u \<noteq> Some i) (db_UserUTXOs db)\<rparr>)"
proof -
  let ?txs = "update_where P f (db_Transactions db)"
  have owned: "owned_tx ?txs j u = owned_tx (db_Transactions db) j u" for j u
    unfolding owned_tx_iff by (subst map_update_where) (simp_all add: f)
  have unsig: "unsigned_tx (db_Transactions db) j \<Longrightarrow> unsigned_tx ?txs j" if "j \<noteq> i" for j
    using that P by (auto simp: unsigned_tx_def in_update_where f split: if_splits)
  have "txs_ok (db_NextTransactionID db) ?txs"
    using db_invD(1) [OF inv] by (auto simp: txs_ok_def in_update_where f)
  moreover have "outs_ok (db_NextOutputID db) ?txs (db_Outputs db)"
    using db_invD(2) [OF inv] by (auto simp: outs_ok_def owned intro: out_ok_mono)
  moreover have "row_fits (db_Transactions db) u r \<Longrightarrow> uu_ReservedByID u \<noteq> Some i \<Longrightarrow> row_fits ?txs u r" for u r
    using unsig by (auto simp: row_fits_def split: option.splits)
  then have "index_ok ?txs (db_Outputs db) (filter (\<lambda>u. uu_ReservedByID u \<noteq> Some i) (db_UserUTXOs db))"
    using db_invD(3) [OF inv] by (auto simp: index_ok_def keyed_def distinct_map_filter) blast
  ultimately show ?thesis using inv by (simp add: db_inv_def)
qed

lemma SpendTransaction_inv:
  assumes inv: "db_inv db" and op: "SpendTransaction ut n db = Inr (x, db')"
  shows "db_inv db'"
proof -
  let ?i = "upd_TransactionID ut"
  let ?P = "\<lambda>t. tr_UserID t = upd_UserID ut \<and> tr_ID t = ?i"
  let ?f = "\<lambda>t. t\<lparr>tr_TxID := Some (upd_TxID ut), tr_InputBeef := None, tr_Status := upd_TxStatus ut\<rparr>"
  let ?db2 = "db\<lparr>db_Transactions := update_where ?P ?f (db_Transactions db),
    db_UserUTXOs := filter (\<lambda>u. uu_ReservedByID u \<noteq> Some ?i) (db_UserUTXOs db)\<rparr>"
  from op obtain outs db3 y req where scripts: "set_locking_scripts ut outs ?db2 = Inr (y, db3)"
    and ups: "upsertKnownTx req n db3 = Inr (x, db')"
    by (auto simp: SpendTransaction_def flow_simps Let_def rbind_eq_Inr)
  have "db_inv ?db2" by (rule spend_transaction_inv [OF inv]) simp_all
  from upsertKnownTx_inv [OF set_locking_scripts_inv [OF this scripts] ups] show ?thesis .
qed

section \<open>New transactions\<close>

text \<open>What a prepared output and its index row have in common.\<close>

definition prepared :: "int \<Rightarrow> output_row \<times> user_utxo option \<Rightarrow> bool" where
  "prepared user p \<longleftrightarrow> or_UserID (fst p) = user \<and> or_SpentBy (fst p) = None \<and> is_i64 (or_Satoshis (fst p)) \<and>
     (case snd p of None \<Rightarrow> True | Some u \<Rightarrow> uu_UserID u = user \<and> or_Satoshis (fst p) = int (uu_Satoshis u) \<and>
        uu_ReservedByID u = None)"

lemma makeNewOutput_prepared:
  "convert_ok lib \<Longrightarrow> is_i64 (no_Satoshis o') \<Longrightarrow> makeNewOutput lib user o' st = Inr p \<Longrightarrow> prepared user p"
  by (auto simp: makeNewOutput_def prepared_def convert_ok_def result_simps Let_def
      split: option.splits if_splits)

lemma map_or_error_mem:
  "map_or_error f xs = Inr ys \<Longrightarrow> y \<in> set ys \<Longrightarrow> \<exists>x \<in> set xs. f x = Inr y"
  by (induction xs arbitrary: ys) (auto simp: result_simps)

definition new_tx_ok :: "new_tx \<Rightarrow> database \<Rightarrow> bool" where
  "new_tx_ok nt db \<longleftrightarrow> (\<forall>o' \<in> set (nt_Outputs nt). is_i64 (no_Satoshis o')) \<and>
     set (nt_ReservedOutputIDs nt) \<subseteq> set (nt_SpentOutputIDs nt) \<and>
     (nt_ReservedOutputIDs nt \<noteq> [] \<longrightarrow> nt_TxID nt = None)"

lemma toTransactionModel_prepared:
  assumes "convert_ok lib" "new_tx_ok nt db" and "toTransactionModel lib nt = Inr (model, outs)"
  shows "tr_UserID model = nt_UserID nt" "tr_TxID model = nt_TxID nt"
    and "\<And>p. p \<in> set outs \<Longrightarrow> prepared (nt_UserID nt) p"
proof -
  from assms(3) have m: "map_or_error (\<lambda>output. makeNewOutput lib (nt_UserID nt) output (nt_UTXOStatus nt)) (nt_Outputs nt) = Inr outs"
    and model: "tr_UserID model = nt_UserID nt" "tr_TxID model = nt_TxID nt"
    by (auto simp: toTransactionModel_def result_simps)
  show "tr_UserID model = nt_UserID nt" "tr_TxID model = nt_TxID nt" by (rule model)+
  fix p assume "p \<in> set outs"
  from map_or_error_mem [OF m this] assms(1,2) show "prepared (nt_UserID nt) p"
    by (auto simp: new_tx_ok_def intro: makeNewOutput_prepared)
qed

lemma createIfNotExist_eq: "\<exists>bs. createIfNotExist uid b n m db = db\<lparr>db_Baskets := bs\<rparr>"
proof (cases "\<exists>b' \<in> set (db_Baskets db). br_UserID b' = uid \<and> br_Name b' = b")
  case True
  then show ?thesis by (intro exI [of _ "db_Baskets db"]) (auto simp: createIfNotExist_def)
qed (auto simp: createIfNotExist_def)

lemma connectOutputs_eq:
  "connectOutputsWithBaskets uid outs db = (outs', db') \<Longrightarrow>
   (\<exists>bs. db' = db\<lparr>db_Baskets := bs\<rparr>) \<and> ((\<forall>p \<in> set outs. prepared user p) \<longrightarrow> (\<forall>p \<in> set outs'. prepared user p))"
proof (induction uid outs db arbitrary: outs' rule: connectOutputsWithBaskets.induct)
  case (1 uid db)
  then show ?case by (auto intro: exI [of _ "db_Baskets db"])
next
  case (2 uid out utxo outs db)
  show ?case
  proof (cases "or_BasketName out = None \<or> or_BasketName out = Some ''''")
    case True
    with 2(4) obtain rest where "connectOutputsWithBaskets uid outs db = (rest, db')" "outs' = (out, utxo) # rest"
      by (auto split: option.splits prod.splits)
    with True 2(1,2) show ?thesis by auto
  next
    case False
    then obtain b where b: "or_BasketName out = Some b" "b \<noteq> ''''" by auto
    with 2(4) obtain rest where
      rest: "connectOutputsWithBaskets uid outs (createIfNotExist uid b 0 0 db) = (rest, db')"
      and outs': "outs' = (out, map_option (\<lambda>u. u\<lparr>uu_BasketName := b\<rparr>) utxo) # rest"
      by (auto simp: Let_def split: prod.splits)
    from 2(3) [OF b(1) b(2) _ _ rest] obtain bs where "db' = (createIfNotExist uid b 0 0 db)\<lparr>db_Baskets := bs\<rparr>"
      and "(\<forall>p \<in> set outs. prepared user p) \<longrightarrow> (\<forall>p \<in> set rest. prepared user p)" by auto
    moreover obtain bs' where "createIfNotExist uid b 0 0 db = db\<lparr>db_Baskets := bs'\<rparr>"
      using createIfNotExist_eq by blast
    moreover have "prepared user (out, map_option (\<lambda>u. u\<lparr>uu_BasketName := b\<rparr>) utxo) = prepared user (out, utxo)"
      by (simp add: prepared_def split: option.splits)
    ultimately show ?thesis by (auto simp: outs')
  qed
qed

lemma insert_outputs_frame:
  "db_Transactions (insert_outputs i outs db) = db_Transactions db \<and>
   db_NextTransactionID (insert_outputs i outs db) = db_NextTransactionID db \<and>
   db_KnownTxs (insert_outputs i outs db) = db_KnownTxs db \<and>
   db_TxNotes (insert_outputs i outs db) = db_TxNotes db \<and>
   db_Now (insert_outputs i outs db) = db_Now db"
  by (induction i outs db rule: insert_outputs.induct) (simp_all add: Let_def)

lemma insert_output_inv:
  assumes inv: "db_inv db" and p: "prepared user (out, utxo)" and tx: "owned_tx (db_Transactions db) i user"
  shows "db_inv (db\<lparr>db_NextOutputID := db_NextOutputID db + 1,
    db_Outputs := db_Outputs db @ [out\<lparr>or_ID := db_NextOutputID db, or_CreatedAt := now, or_TransactionID := i\<rparr>],
    db_UserUTXOs := db_UserUTXOs db @
      (case utxo of None \<Rightarrow> [] | Some u \<Rightarrow> [u\<lparr>uu_OutputID := db_NextOutputID db, uu_CreatedAt := now\<rparr>])\<rparr>)"
proof -
  let ?n = "db_NextOutputID db"
  let ?row = "out\<lparr>or_ID := ?n, or_CreatedAt := now, or_TransactionID := i\<rparr>"
  let ?us = "case utxo of None \<Rightarrow> [] | Some u \<Rightarrow> [u\<lparr>uu_OutputID := ?n, uu_CreatedAt := now\<rparr>]"
  have lt: "or_ID r < ?n" if "r \<in> set (db_Outputs db)" for r
    using db_invD(2) [OF inv] that by (auto simp: outs_ok_def out_ok_def)
  have "out_ok (?n + 1) (db_Transactions db) ?row"
    using p tx by (simp add: out_ok_def prepared_def)
  moreover have "out_ok (?n + 1) (db_Transactions db) r" if "r \<in> set (db_Outputs db)" for r
    using db_invD(2) [OF inv] that by (auto simp: outs_ok_def intro: out_ok_mono)
  ultimately have "outs_ok (?n + 1) (db_Transactions db) (db_Outputs db @ [?row])"
    using db_invD(2) [OF inv] lt by (fastforce simp: outs_ok_def)
  moreover have "uu_OutputID u < ?n" if "u \<in> set (db_UserUTXOs db)" for u
    using db_invD(3) [OF inv] that lt by (force simp: index_ok_def row_fits_def)
  then have "keyed (db_UserUTXOs db @ ?us)"
    using db_invD(3) [OF inv] by (fastforce simp: index_ok_def keyed_def split: option.splits)
  moreover have "row_fits (db_Transactions db) u ?row" if "u \<in> set ?us" for u
    using p that by (auto simp: prepared_def row_fits_def split: option.splits)
  ultimately show ?thesis
    using inv by (auto simp: db_inv_def index_ok_def)
qed

lemma insert_outputs_inv:
  "db_inv db \<Longrightarrow> (\<And>p. p \<in> set outs \<Longrightarrow> prepared user p) \<Longrightarrow> owned_tx (db_Transactions db) i user \<Longrightarrow>
   db_inv (insert_outputs i outs db)"
proof (induction i outs db rule: insert_outputs.induct)
  case (2 i out utxo outs db)
  show ?case
    unfolding insert_outputs.simps Let_def
    by (rule "2.IH" [OF refl refl refl insert_output_inv])
      (use "2.prems" in \<open>auto intro: insert_output_inv\<close>)
qed simp

lemma insert_transaction_eq:
  assumes "insert_transaction nt model outs db = Inr (i, db')"
  obtains cs where "i = db_NextTransactionID db" and "tr_Reference model \<notin> set (map tr_Reference (db_Transactions db))"
    and "db' = insert_outputs i outs (db\<lparr>db_NextTransactionID := i + 1,
      db_Transactions := db_Transactions db @ [model\<lparr>tr_ID := i, tr_CreatedAt := db_Now db\<rparr>], db_Commissions := cs\<rparr>)"
proof -
  from assms have ref: "\<forall>t \<in> set (db_Transactions db). tr_Reference t \<noteq> tr_Reference model"
    by (auto simp: insert_transaction_def split: if_splits)
  with assms show thesis
    by (intro that) (auto simp: insert_transaction_def Let_def)
qed

lemma insert_transaction_inv:
  assumes inv: "db_inv db" and p: "\<And>p. p \<in> set outs \<Longrightarrow> prepared (tr_UserID model) p"
    and op: "insert_transaction nt model outs db = Inr (i, db')"
  shows "db_inv db'" and "i = db_NextTransactionID db"
    and "db_Transactions db' = db_Transactions db @ [model\<lparr>tr_ID := i, tr_CreatedAt := db_Now db\<rparr>]"
proof -
  from insert_transaction_eq [OF op] obtain cs where i: "i = db_NextTransactionID db"
    and ref: "tr_Reference model \<notin> set (map tr_Reference (db_Transactions db))"
    and db': "db' = insert_outputs i outs (db\<lparr>db_NextTransactionID := i + 1,
      db_Transactions := db_Transactions db @ [model\<lparr>tr_ID := i, tr_CreatedAt := db_Now db\<rparr>], db_Commissions := cs\<rparr>)"
    (is "_ = insert_outputs i outs ?db1") by blast
  let ?txs = "db_Transactions db @ [model\<lparr>tr_ID := i, tr_CreatedAt := db_Now db\<rparr>]"
  have lt: "tr_ID t < i" if "t \<in> set (db_Transactions db)" for t
    using db_invD(1) [OF inv] that by (simp add: txs_ok_def i)
  have owned: "owned_tx (db_Transactions db) j u \<Longrightarrow> owned_tx ?txs j u" for j u
    by (auto simp: owned_tx_def)
  have "txs_ok (i + 1) ?txs"
    using db_invD(1) [OF inv] ref lt by (fastforce simp: txs_ok_def)
  moreover have "outs_ok (db_NextOutputID db) ?txs (db_Outputs db)"
    using db_invD(2) [OF inv] owned by (auto simp: outs_ok_def intro: out_ok_mono)
  moreover have "row_fits ?txs u r" if r: "r \<in> set (db_Outputs db)" and fits: "row_fits (db_Transactions db) u r" for u r
  proof (cases "uu_ReservedByID u")
    case (Some j)
    with fits have "or_SpentBy r = Some j" by (simp add: row_fits_def)
    with db_invD(2) [OF inv] r have "owned_tx (db_Transactions db) j (or_UserID r)"
      by (auto simp: outs_ok_def out_ok_def)
    then have "j \<noteq> i" using lt by (auto simp: owned_tx_def)
    with fits Some show ?thesis by (auto simp: row_fits_def unsigned_tx_def)
  qed (use fits in \<open>simp add: row_fits_def\<close>)
  then have "index_ok ?txs (db_Outputs db) (db_UserUTXOs db)"
    using db_invD(3) [OF inv] by (fastforce simp: index_ok_def)
  ultimately have "db_inv ?db1" using db_invD(4) [OF inv] by (simp add: db_inv_def)
  then show "db_inv db'" unfolding db'
    by (rule insert_outputs_inv [OF _ p]) (simp_all add: owned_tx_def)
  show "i = db_NextTransactionID db" by (rule i)
  show "db_Transactions db' = ?txs" by (simp add: db' insert_outputs_frame)
qed

lemma count_all_matched:
  assumes dist: "distinct (map key rows)"
    and count: "count_where (\<lambda>r. key r \<in> set ids \<and> Q r) rows = length ids"
  shows "distinct ids" and "\<And>x. x \<in> set ids \<Longrightarrow> \<exists>r \<in> set rows. key r = x \<and> Q r"
proof -
  let ?ks = "map key (filter (\<lambda>r. key r \<in> set ids \<and> Q r) rows)"
  have ks: "distinct ?ks" using dist by (simp add: distinct_map_filter)
  have sub: "set ?ks \<subseteq> set ids" by auto
  have "card (set ?ks) = length ids" using distinct_card [OF ks] count by (simp add: count_where_def)
  moreover have "card (set ?ks) \<le> card (set ids)" using sub by (simp add: card_mono)
  moreover have "card (set ids) \<le> length ids" by (rule card_length)
  ultimately have "card (set ids) = length ids" and eq: "set ?ks = set ids"
    using sub by (auto simp: card_subset_eq)
  then show "distinct ids" by (simp add: card_distinct)
  show "\<exists>r \<in> set rows. key r = x \<and> Q r" if "x \<in> set ids" for x
  proof -
    from that have "x \<in> set ?ks" by (simp only: eq)
    then show ?thesis by auto
  qed
qed

text \<open>What a successful claim did: the index rows are reserved, the outputs were unspent and are
  spent now.\<close>

lemma markReserved_Inr:
  assumes "markReservedOutputsAsNotSpendable i user ids db = Inr db'"
  shows "db' = db\<lparr>db_Outputs := update_where (\<lambda>r. or_ID r \<in> set ids \<and> or_UserID r = user \<and> or_SpentBy r = None)
    (\<lambda>r. r\<lparr>or_Spendable := False, or_SpentBy := Some i\<rparr>) (db_Outputs db)\<rparr>"
    and "count_where (\<lambda>r. or_ID r \<in> set ids \<and> or_UserID r = user \<and> or_SpentBy r = None) (db_Outputs db) = length ids"
  using assms
  by (auto simp: markReservedOutputsAsNotSpendable_def Let_def count_where_def update_where_def split: if_splits)

lemma reserveUTXOs_Inr:
  assumes "reserveUTXOs i user ids db = Inr (x, db')"
  shows "db' = db\<lparr>db_UserUTXOs := update_where (\<lambda>u. uu_UserID u = user \<and> uu_OutputID u \<in> set ids \<and> uu_ReservedByID u = None)
    (\<lambda>u. u\<lparr>uu_ReservedByID := Some i\<rparr>) (db_UserUTXOs db)\<rparr>"
  using assms by (auto simp: reserveUTXOs_def Let_def update_where_def split: if_splits)

lemma claim_outputs_inv:
  assumes inv: "db_inv db" and res: "reserveUTXOs i user rids db = Inr (x, db1)"
    and mark: "markReservedOutputsAsNotSpendable i user sids db1 = Inr db'"
    and sub: "set rids \<subseteq> set sids" and own: "owned_tx (db_Transactions db) i user"
    and unsig: "rids \<noteq> [] \<Longrightarrow> unsigned_tx (db_Transactions db) i"
  shows "db_inv db'"
proof -
  define m where "m r \<longleftrightarrow> or_ID r \<in> set sids \<and> or_UserID r = user \<and> or_SpentBy r = None" for r :: output_row
  define g where "g r = (if m r then r\<lparr>or_Spendable := False, or_SpentBy := Some i\<rparr> else r)" for r :: output_row
  define h where "h u = (if uu_UserID u = user \<and> uu_OutputID u \<in> set rids \<and> uu_ReservedByID u = None
    then u\<lparr>uu_ReservedByID := Some i\<rparr> else u)" for u :: user_utxo
  note db1 = reserveUTXOs_Inr [OF res]
  have db': "db' = db\<lparr>db_Outputs := map g (db_Outputs db), db_UserUTXOs := map h (db_UserUTXOs db)\<rparr>"
    using markReserved_Inr(1) [OF mark] by (simp add: db1 update_where_def g_def m_def h_def)
  have count: "count_where (\<lambda>r. or_ID r \<in> set sids \<and> (or_UserID r = user \<and> or_SpentBy r = None)) (db_Outputs db) = length sids"
    using markReserved_Inr(2) [OF mark] by (simp add: db1)
  have dist: "distinct (map or_ID (db_Outputs db))" using db_invD(2) [OF inv] by (simp add: outs_ok_def)
  have free: "or_SpentBy r = None" if "r \<in> set (db_Outputs db)" "or_ID r \<in> set sids" for r
    using count_all_matched(2) [OF dist count that(2)] dist that(1) by (auto simp: distinct_map inj_on_def)
  have g_id: "or_ID (g r) = or_ID r" for r by (simp add: g_def)
  have g_ok: "out_ok nO (db_Transactions db) r \<Longrightarrow> out_ok nO (db_Transactions db) (g r)" for nO r
    using own by (auto simp: g_def m_def out_ok_def)
  have outs: "outs_ok (db_NextOutputID db) (db_Transactions db) (map g (db_Outputs db))"
    using db_invD(2) [OF inv] by (auto simp: outs_ok_def comp_def g_id g_ok)
  have "row_fits (db_Transactions db) (h u) (g r)"
    if r: "r \<in> set (db_Outputs db)" and fits: "row_fits (db_Transactions db) u r" for u r
  proof (cases "uu_UserID u = user \<and> uu_OutputID u \<in> set rids \<and> uu_ReservedByID u = None")
    case True
    with sub fits have "m r" using free [OF r] by (auto simp: row_fits_def m_def)
    moreover from True have "rids \<noteq> []" by auto
    then have "unsigned_tx (db_Transactions db) i" by (rule unsig)
    ultimately show ?thesis using fits True by (simp add: row_fits_def h_def g_def)
  next
    case False
    then show ?thesis using fits by (auto simp: row_fits_def h_def g_def m_def split: option.splits)
  qed
  moreover have "map (\<lambda>u. (uu_UserID u, uu_OutputID u)) (map h us) = map (\<lambda>u. (uu_UserID u, uu_OutputID u)) us" for us
    by (simp add: h_def)
  ultimately have "index_ok (db_Transactions db) (map g (db_Outputs db)) (map h (db_UserUTXOs db))"
    using db_invD(3) [OF inv] unfolding index_ok_def keyed_def by (fastforce simp del: map_map)
  with outs inv show ?thesis by (simp add: db' db_inv_def)
qed

lemma createTransactionInTx_Inr:
  assumes "createTransactionInTx lib nt db = Inr (i, db')"
  obtains model outputs outs db1 db2 db3 where "toTransactionModel lib nt = Inr (model, outputs)"
    and "connectOutputsWithBaskets (nt_UserID nt) outputs db = (outs, db1)"
    and "insert_transaction nt model outs db1 = Inr (i, db2)"
    and "reserveUTXOs i (nt_UserID nt) (nt_ReservedOutputIDs nt) db2 = Inr ((), db3)"
    and "markReservedOutputsAsNotSpendable i (nt_UserID nt) (nt_SpentOutputIDs nt) db3 = Inr db'"
  using assms by (auto simp: createTransactionInTx_def split: sum.splits prod.splits)

lemma createTransactionInTx_inv:
  assumes inv: "db_inv db" and lib: "convert_ok lib" and nt: "new_tx_ok nt db"
    and op: "createTransactionInTx lib nt db = Inr (i, db')"
  shows "db_inv db'"
proof -
  from createTransactionInTx_Inr [OF op] obtain model outputs outs db1 db2 db3 where
    tm: "toTransactionModel lib nt = Inr (model, outputs)"
    and con: "connectOutputsWithBaskets (nt_UserID nt) outputs db = (outs, db1)"
    and ins: "insert_transaction nt model outs db1 = Inr (i, db2)"
    and res: "reserveUTXOs i (nt_UserID nt) (nt_ReservedOutputIDs nt) db2 = Inr ((), db3)"
    and mark: "markReservedOutputsAsNotSpendable i (nt_UserID nt) (nt_SpentOutputIDs nt) db3 = Inr db'" .
  note model = toTransactionModel_prepared [OF lib nt tm]
  from connectOutputs_eq [OF con, of "nt_UserID nt"] model(3) obtain bs where db1: "db1 = db\<lparr>db_Baskets := bs\<rparr>"
    and prep: "\<And>p. p \<in> set outs \<Longrightarrow> prepared (tr_UserID model) p" by (auto simp: model(1))
  from inv have inv1: "db_inv db1" by (simp add: db1 db_inv_update(3))
  note ins' = insert_transaction_inv [OF inv1 prep ins]
  have lt: "tr_ID t < i" if "t \<in> set (db_Transactions db)" for t
    using db_invD(1) [OF inv] that ins'(2) by (simp add: txs_ok_def db1)
  have "owned_tx (db_Transactions db2) i (nt_UserID nt)"
    by (simp add: ins'(3) owned_tx_def model(1))
  moreover have "unsigned_tx (db_Transactions db2) i" if "nt_ReservedOutputIDs nt \<noteq> []"
    using that nt lt by (auto simp: ins'(3) unsigned_tx_def model(2) new_tx_ok_def db1)
  ultimately show ?thesis
    using claim_outputs_inv [OF ins'(1) res mark] nt by (simp add: new_tx_ok_def)
qed

end
