(* ===== verification/Storage_Steps.thy ===== *)
theory Storage_Steps
  imports Storage_Inv State_Machine
begin

text \<open>
  The storage as a state machine. A step is one committed database transaction of the repositories,
  so every interleaving of the actions, of the background tasks and of the event handlers is a sequence of
  steps. Administrative writes of the CRUD interface are not steps. The theorems hold for every reachable state:
  the invariant, and that evidence of a broadcast is never lost.
\<close>

section \<open>The steps of the storage\<close>

inductive storage_step :: "go_lib \<Rightarrow> database \<Rightarrow> database \<Rightarrow> bool" for lib :: go_lib where
  create: "createTransactionInTx lib nt db = Inr (i, db') \<Longrightarrow> new_tx_ok nt db \<Longrightarrow> storage_step lib db db'"
| heal: "storage_step lib db (DeleteIndexRows user ids db)"
| spend: "SpendTransaction ut n db = Inr (x, db') \<Longrightarrow> storage_step lib db db'"
| upsert: "upsertKnownTx req n db = Inr (x, db') \<Longrightarrow> storage_step lib db db'"
| status_by_txid: "UpdateTransactionStatusByTxID txID st ex db = Inr (x, db') \<Longrightarrow> storage_step lib db db'"
| status_by_id: "UpdateTransactionStatusByID j st ex db = Inr (x, db') \<Longrightarrow> storage_step lib db db'"
| update_transaction: "UpdateTransaction ts db = Inr (x, db') \<Longrightarrow> storage_step lib db db'"
| add_labels: "AddLabels j ls db = Inr (x, db') \<Longrightarrow> storage_step lib db db'"
| known_status: "updateKnownTxStatus txID ps skip ns db = Inr (x, db') \<Longrightarrow> storage_step lib db db'"
| park: "ParkUnbroadcastKnownTx txID ns db = Inr (b, db') \<Longrightarrow> storage_step lib db db'"
| claim: "ClaimKnownTxsForBroadcast ids db = Inr (cs, db') \<Longrightarrow> storage_step lib db db'"
| fail_double_spend: "FailKnownTxAsDoubleSpend txID skip ns db = Inr (b, db') \<Longrightarrow> storage_step lib db db'"
| advance: "AdvanceKnownTxToBroadcasted lib txID skip ns db = Inr (b, db') \<Longrightarrow> storage_step lib db db'"
| mined: "storage_step lib db (UpdateKnownTxAsMined m db)"
| attempts: "storage_step lib db (IncreaseKnownTxAttemptsForTxIDs ids db)"
| batch: "storage_step lib db (SetBatchForKnownTxs ids bt db)"
| timeouts: "storage_step lib db (snd (ApplyProofTimeouts a mx sts db))"
| requeue: "RequeueKnownTxForRebroadcast txID mx sts ns db = Inr (y, db') \<Longrightarrow> storage_step lib db db'"
| reorg: "storage_step lib db (snd (InvalidateMerkleProofsByBlockHash hs db))"
| mark_not_spendable: "storage_step lib db (MarkCreatedOutputsAsNotSpendable i db)"
| mark_spendable: "storage_step lib db (MarkCreatedOutputsAsSpendableByTxID txID db)"
| index_spendable: "CreateUTXOForSpendableOutputsByTxID lib txID db = Inr (x, db') \<Longrightarrow> storage_step lib db db'"
| make_change: "MakeChangeSpendableAndIndexByTxID lib txID db = Inr (x, db') \<Longrightarrow> storage_step lib db db'"
| restore_inputs: "i \<in> set (transaction_ids txID db) \<Longrightarrow> RecreateSpentOutputs lib i db = Inr (x, db') \<Longrightarrow>
    storage_step lib db db'"
| abort: "abort_uow lib i db = Inr (x, db') \<Longrightarrow> storage_step lib db db'"
| unlink: "UnlinkOutputFromBasketByOutpoint user bsk op db = Inr (x, db') \<Longrightarrow> storage_step lib db db'"
| update_output: "UpdateOutput os db = Inr (x, db') \<Longrightarrow> storage_step lib db db'"
| basket: "storage_step lib db (createIfNotExist user name n m db)"
| tick: "db_Now db \<le> now \<Longrightarrow> storage_step lib db (db\<lparr>db_Now := now\<rparr>)"

lemma createIfNotExist_frame:
  "db_inv db \<Longrightarrow> db_inv (createIfNotExist user name n m db)"
  "db_KnownTxs (createIfNotExist user name n m db) = db_KnownTxs db"
  "db_Outputs (createIfNotExist user name n m db) = db_Outputs db"
  "db_UserUTXOs (createIfNotExist user name n m db) = db_UserUTXOs db"
  "db_Transactions (createIfNotExist user name n m db) = db_Transactions db"
  using createIfNotExist_eq [of user name n m db] by (auto intro: db_inv_update(3))

text \<open>A transaction that has a txid holds no reservation: it was deleted when the txid was recorded.\<close>

lemma signed_unreserved:
  assumes "db_inv db" and "i \<in> set (transaction_ids txID db)"
  shows "unreserved i db"
proof -
  from assms(2) obtain t where "t \<in> set (db_Transactions db)" "tr_ID t = i" "tr_TxID t \<noteq> None"
    by (auto simp: transaction_ids_def)
  with db_invD(3) [OF assms(1)] show ?thesis
    by (fastforce simp: unreserved_def index_ok_def row_fits_def unsigned_tx_def)
qed

lemma storage_step_inv:
  assumes "storage_step lib db db'" and "convert_ok lib" and "db_inv db"
  shows "db_inv db'"
  using assms(1)
proof cases
  case (create nt i)
  then show ?thesis using assms(2,3) by (auto intro: createTransactionInTx_inv)
next
  case (restore_inputs i txID x)
  then show ?thesis using assms(2,3) by (auto intro: RecreateSpentOutputs_inv signed_unreserved)
qed (use assms(2,3) in \<open>auto intro: DeleteIndexRows_inv SpendTransaction_inv upsertKnownTx_inv UpdateTransactionStatus_inv
    UpdateTransaction_inv AddLabels_inv updateKnownTxStatus_inv ParkUnbroadcastKnownTx_inv ClaimKnownTxsForBroadcast_inv
    FailKnownTxAsDoubleSpend_inv AdvanceKnownTx_inv UpdateKnownTxAsMined_inv IncreaseKnownTxAttempts_inv SetBatch_inv
    ApplyProofTimeouts_inv Requeue_inv InvalidateMerkleProofs_inv MarkCreatedOutputs_inv CreateUTXOForSpendable_inv
    MakeChangeSpendable_inv abort_uow_inv Unlink_inv UpdateOutput_inv db_inv_update(5)
    createIfNotExist_frame(1)\<close>)

section \<open>Evidence of a broadcast is never lost\<close>

definition known_later :: "known_tx_row list \<Rightarrow> known_tx_row list \<Rightarrow> bool" where
  "known_later ks ks' \<longleftrightarrow>
     (\<forall>k \<in> set ks. \<exists>k' \<in> set ks'. kt_TxID k' = kt_TxID k \<and> (kt_WasBroadcast k \<longrightarrow> kt_WasBroadcast k'))"

definition db_later :: "database \<Rightarrow> database \<Rightarrow> bool" where
  "db_later db db' \<longleftrightarrow> known_later (db_KnownTxs db) (db_KnownTxs db')"

lemma known_later_refl [simp]: "known_later ks ks"
  by (auto simp: known_later_def)

lemma known_later_trans: "known_later ks ks' \<Longrightarrow> known_later ks' ks'' \<Longrightarrow> known_later ks ks''"
  by (fastforce simp: known_later_def)

lemma known_later_update:
  assumes "\<And>k. k \<in> set ks \<Longrightarrow> P k \<Longrightarrow> kt_TxID (f k) = kt_TxID k \<and> (kt_WasBroadcast k \<longrightarrow> kt_WasBroadcast (f k))"
  shows "known_later ks (update_where P f ks)"
  unfolding known_later_def
proof
  fix k assume "k \<in> set ks"
  then show "\<exists>k' \<in> set (update_where P f ks). kt_TxID k' = kt_TxID k \<and> (kt_WasBroadcast k \<longrightarrow> kt_WasBroadcast k')"
    using assms by (intro bexI [of _ "if P k then f k else k"]) (auto simp: in_update_where)
qed

text \<open>The updates of a proof timeout, written one transaction at a time, are one update of the rows
  that timed out.\<close>

lemma fold_update_by_key:
  assumes "distinct (map key xs)" and g: "\<And>x k. key (g x k) = key k"
  shows "fold (\<lambda>x. update_where (\<lambda>k. key k = key x) (g x)) xs ks =
    map (\<lambda>k. case find (\<lambda>x. key x = key k) xs of None \<Rightarrow> k | Some x \<Rightarrow> g x k) ks"
  using assms(1)
proof (induction xs arbitrary: ks)
  case (Cons x xs)
  have "find (\<lambda>y. key y = key x) xs = None" using Cons.prems by (fastforce simp: find_None_iff image_iff)
  with Cons show ?case by (auto simp: update_where_def g)
qed simp

lemma fold_update_filter:
  assumes dist: "distinct (map key ks)" and g: "\<And>x k. key (g x k) = key k"
  shows "fold (\<lambda>x. update_where (\<lambda>k. key k = key x) (g x)) (filter P ks) ks = update_where P (\<lambda>k. g k k) ks"
proof -
  have "find (\<lambda>x. key x = key k) (filter P ks) = (if P k then Some k else None)" if k: "k \<in> set ks" for k
  proof (cases "find (\<lambda>x. key x = key k) (filter P ks)")
    case None
    with k show ?thesis by (auto simp: find_None_iff)
  next
    case (Some x)
    then have "x \<in> set ks" "P x" "key x = key k" by (auto simp: find_Some_iff dest!: nth_mem)
    with k dist Some show ?thesis by (auto simp: distinct_map inj_on_def)
  qed
  then show ?thesis
    using dist by (subst fold_update_by_key) (auto simp: g update_where_def distinct_map_filter)
qed

lemma ApplyProofTimeouts_eq:
  assumes "distinct (map kt_TxID (db_KnownTxs db))" and "0 < a"
  shows "snd (ApplyProofTimeouts a m sts db) =
    db\<lparr>db_KnownTxs := update_where (timed_out a sts) (proofTimeoutUpdates m) (db_KnownTxs db)\<rparr>"
proof -
  let ?g = "\<lambda>x k. let upd = proofTimeoutUpdates m x in k\<lparr>kt_Status := kt_Status upd, kt_Attempts := kt_Attempts upd,
    kt_WasBroadcast := kt_WasBroadcast upd, kt_RebroadcastAttempts := kt_RebroadcastAttempts upd\<rparr>"
  have "?g k k = proofTimeoutUpdates m k" for k :: known_tx_row
    by (cases k) (simp add: proofTimeoutUpdates_def Let_def)
  then show ?thesis
    using assms fold_update_filter [of kt_TxID "db_KnownTxs db" ?g "timed_out a sts"]
    by (simp add: ApplyProofTimeouts_def Let_def)
qed

lemma proofTimeoutUpdates_later:
  "kt_TxID (proofTimeoutUpdates m k) = kt_TxID k \<and>
   (kt_WasBroadcast k \<longrightarrow> kt_WasBroadcast (proofTimeoutUpdates m k))"
  by (simp add: proofTimeoutUpdates_def Let_def)

lemma frame_known [simp]:
  "db_KnownTxs (makeOutputsSpendable P db) = db_KnownTxs db"
  "db_KnownTxs (UnreserveUTXOs i db) = db_KnownTxs db"
  "db_KnownTxs (MarkCreatedOutputsAsNotSpendable i db) = db_KnownTxs db"
  "db_KnownTxs (MarkCreatedOutputsAsSpendableByTxID txID db) = db_KnownTxs db"
  "db_KnownTxs (set_transactions_status txID st db) = db_KnownTxs db"
  "db_KnownTxs (addTxNotes ns db) = db_KnownTxs db"
  "db_KnownTxs (addTxNote n db) = db_KnownTxs db"
  "db_KnownTxs (DeleteIndexRows user ids db) = db_KnownTxs db"
  by (simp_all add: makeOutputsSpendable_def UnreserveUTXOs_def MarkCreatedOutputsAsNotSpendable_def
      MarkCreatedOutputsAsSpendableByTxID_def set_transactions_status_def addTxNotes_def addTxNote_def DeleteIndexRows_def)

lemma frame_known_ops:
  "createUTXOsFromOutputs lib rs db = Inr (x, db') \<Longrightarrow> db_KnownTxs db' = db_KnownTxs db"
  "set_locking_scripts ut outs db = Inr (y, db'') \<Longrightarrow> db_KnownTxs db'' = db_KnownTxs db"
  "UpdateTransactionStatusByTxID txID st ex db = Inr (x1, db1) \<Longrightarrow> db_KnownTxs db1 = db_KnownTxs db"
  "UpdateTransactionStatusByID j st ex db = Inr (x2, db2) \<Longrightarrow> db_KnownTxs db2 = db_KnownTxs db"
proof -
  show "set_locking_scripts ut outs db = Inr (y, db'') \<Longrightarrow> db_KnownTxs db'' = db_KnownTxs db"
    by (induction outs arbitrary: db) (fastforce simp: result_simps)+
qed (auto simp: createUTXOsFromOutputs_def UpdateTransactionStatusByTxID_def UpdateTransactionStatusByID_def
    Let_def result_simps split: if_splits)

lemma frame_known_create:
  assumes "createTransactionInTx lib nt db = Inr (i, db')"
  shows "db_KnownTxs db' = db_KnownTxs db"
proof -
  from createTransactionInTx_Inr [OF assms] obtain model outputs outs db1 db2 db3 where
    con: "connectOutputsWithBaskets (nt_UserID nt) outputs db = (outs, db1)"
    and ins: "insert_transaction nt model outs db1 = Inr (i, db2)"
    and res: "reserveUTXOs i (nt_UserID nt) (nt_ReservedOutputIDs nt) db2 = Inr ((), db3)"
    and mark: "markReservedOutputsAsNotSpendable i (nt_UserID nt) (nt_SpentOutputIDs nt) db3 = Inr db'" by metis
  from connectOutputs_eq [OF con, of 0] have "db_KnownTxs db1 = db_KnownTxs db" by auto
  moreover obtain cs where "db2 = insert_outputs i outs (db1\<lparr>db_NextTransactionID := i + 1, db_Transactions :=
      db_Transactions db1 @ [model\<lparr>tr_ID := i, tr_CreatedAt := db_Now db1\<rparr>], db_Commissions := cs\<rparr>)"
    using insert_transaction_eq [OF ins] .
  then have "db_KnownTxs db2 = db_KnownTxs db1"
    by (auto simp: insert_outputs_frame)
  ultimately show ?thesis
    using reserveUTXOs_Inr [OF res] markReserved_Inr(1) [OF mark] by simp
qed

lemma frame_known_abort:
  "RecreateSpentOutputs lib i db = Inr (x, db') \<Longrightarrow> db_KnownTxs db' = db_KnownTxs db"
  "abort_uow lib i db = Inr (y, db'') \<Longrightarrow> db_KnownTxs db'' = db_KnownTxs db"
proof -
  show rec: "RecreateSpentOutputs lib i db = Inr (x, db') \<Longrightarrow> db_KnownTxs db' = db_KnownTxs db" for x db db'
    by (auto simp: RecreateSpentOutputs_def recreateSpentOutputs_def flow_simps Let_def dest!: frame_known_ops(1))
  show "abort_uow lib i db = Inr (y, db'') \<Longrightarrow> db_KnownTxs db'' = db_KnownTxs db"
    by (auto simp: abort_uow_def result_simps dest!: rec frame_known_ops(4))
qed

lemma upsertKnownTx_later:
  assumes "upsertKnownTx req n db = Inr (x, db')" and "known_ok (db_KnownTxs db)"
  shows "known_later (db_KnownTxs db) (db_KnownTxs db')"
proof (cases "find_known (ukt_TxID req) db")
  case None
  have "known_later ks (ks @ [k])" for ks k by (auto simp: known_later_def)
  with None assms(1) show ?thesis by (auto simp: upsertKnownTx_def Let_def split: if_splits)
next
  case (Some m)
  note m = find_known_SomeD [OF Some]
  have "k = m" if "k \<in> set (db_KnownTxs db)" "kt_TxID k = ukt_TxID req" for k
    using that m assms(2) by (auto simp: known_ok_def distinct_map inj_on_def)
  with Some assms(1) show ?thesis
    by (auto simp: upsertKnownTx_def Let_def split: if_splits intro!: known_later_update)
qed

lemma guarded_later:
  "applyKnownTxStatusGuarded txID ps skip ns db = Inr (b, db') \<Longrightarrow> known_later (db_KnownTxs db) (db_KnownTxs db')"
  "updateKnownTxStatus txID ps skip ns db = Inr (x, db'') \<Longrightarrow> known_later (db_KnownTxs db) (db_KnownTxs db'')"
  by (auto simp: applyKnownTxStatusGuarded_def updateKnownTxStatus_def set_known_status_def split: if_splits
      intro!: known_later_update)

lemma storage_step_later:
  assumes "storage_step lib db db'" and inv: "db_inv db"
  shows "known_later (db_KnownTxs db) (db_KnownTxs db')"
  using assms(1)
proof cases
  case (create nt i)
  then show ?thesis using frame_known_create by simp
next
  case (spend ut n x)
  then obtain outs db2 db3 y req where "set_locking_scripts ut outs db2 = Inr (y, db3)"
    and same: "db_KnownTxs db2 = db_KnownTxs db" and ups: "upsertKnownTx req n db3 = Inr (x, db')"
    by (fastforce simp: SpendTransaction_def flow_simps Let_def rbind_eq_Inr)
  then have "db_KnownTxs db3 = db_KnownTxs db" by (auto dest: frame_known_ops(2))
  with upsertKnownTx_later [OF ups] db_invD(4) [OF inv] show ?thesis by simp
next
  case (upsert req n x)
  then show ?thesis using db_invD(4) [OF inv] by (rule_tac upsertKnownTx_later)
next
  case (known_status txID ps skip ns x)
  then show ?thesis by (rule_tac guarded_later(2))
next
  case (fail_double_spend txID skip ns b)
  then show ?thesis
    by (auto simp: FailKnownTxAsDoubleSpend_def result_simps dest: guarded_later(1) split: if_splits)
next
  case (advance txID skip ns b)
  then show ?thesis
    by (auto simp: AdvanceKnownTxToBroadcasted_def createUTXOsForSpendableOutputsByTxID_def Let_def result_simps
        dest!: guarded_later(1) frame_known_ops(1) split: if_splits)
next
  case (requeue txID mx sts ns y)
  have "distinct (map kt_TxID (db_KnownTxs db))" using db_invD(4) [OF inv] by (simp add: known_ok_def)
  then have same: "k = c" if "k \<in> set (db_KnownTxs db)" "c \<in> set (db_KnownTxs db)" "kt_TxID k = kt_TxID c" for k c
    using that by (auto simp: distinct_map inj_on_def)
  show ?thesis
  proof (cases "filter (\<lambda>k. kt_TxID k = txID \<and> kt_Status k \<in> set sts) (db_KnownTxs db)")
    case Nil
    with requeue show ?thesis by (simp add: RequeueKnownTxForRebroadcast_def)
  next
    case (Cons c cs)
    then have "c \<in> set (db_KnownTxs db)" "kt_TxID c = txID" by (auto dest!: filter_eq_ConsD)
    moreover from this have "kt_WasBroadcast (proofTimeoutUpdates mx c)"
      if "k \<in> set (db_KnownTxs db)" "kt_TxID k = txID" "kt_WasBroadcast k" for k
      using same [of k c] that proofTimeoutUpdates_later [of mx c] by auto
    ultimately show ?thesis using Cons requeue
      by (auto simp: RequeueKnownTxForRebroadcast_def Let_def proofTimeoutUpdates_later intro!: known_later_update)
  qed
next
  case (timeouts a mx sts)
  have "distinct (map kt_TxID (db_KnownTxs db))" using db_invD(4) [OF inv] by (simp add: known_ok_def)
  with timeouts show ?thesis
  proof (cases "a = 0")
    case True
    with timeouts show ?thesis by (simp add: ApplyProofTimeouts_def)
  qed (auto simp: ApplyProofTimeouts_eq proofTimeoutUpdates_later intro!: known_later_update)
qed (auto simp: UpdateTransaction_def AddLabels_def ParkUnbroadcastKnownTx_def ClaimKnownTxsForBroadcast_def UpdateKnownTxAsMined_def
    IncreaseKnownTxAttemptsForTxIDs_def SetBatchForKnownTxs_def InvalidateMerkleProofsByBlockHash_def
    CreateUTXOForSpendableOutputsByTxID_def createUTXOsForSpendableOutputsByTxID_def MakeChangeSpendableAndIndexByTxID_def
    UnlinkOutputFromBasketByOutpoint_def UpdateOutput_def createIfNotExist_frame flow_simps Let_def
    split: if_splits option.splits list.splits intro!: known_later_update
    dest!: frame_known_ops frame_known_abort)

lemma known_laterD:
  assumes "known_later ks ks'" and "k \<in> set ks" and "kt_WasBroadcast k"
  obtains k' where "k' \<in> set ks'" and "kt_TxID k' = kt_TxID k" and "kt_WasBroadcast k'"
  using assms by (auto simp: known_later_def)

interpretation storage: state_machine "storage_step lib" "\<lambda>db. convert_ok lib \<and> db_inv db" db_later for lib
proof (unfold_locales, goal_cases)
  case (1 s t)
  then show ?case by (auto intro: storage_step_inv)
next
  case (4 s t)
  then show ?case by (auto simp: db_later_def intro: storage_step_later)
qed (auto simp: db_later_def intro: known_later_trans)

end
