(* ===== verification/Abort_Correct.thy ===== *)
theory Abort_Correct
  imports Storage_Steps
begin

text \<open>
  What an abort does to the storage, and when it is refused: the lemmas behind the properties of
  \<open>AbortAction\<close>, and the compensating release as a client of the interface \<open>actionAborter\<close>.
\<close>

section \<open>Indexing released change\<close>

lemma newUTXOs_loop_ids:
  "newUTXOs_loop lib now rs = Inr us \<Longrightarrow>
   map uu_OutputID us = map (\<lambda>(r, st). or_ID r) (filter (\<lambda>(r, st). ToUTXOStatus st \<noteq> UTXOStatusUnknown) rs)"
  by (induction lib now rs arbitrary: us rule: newUTXOs_loop.induct)
    (auto simp: Let_def result_simps newUserUTXO_def split: if_splits option.splits)

lemma newUTXOs_loop_has:
  "newUTXOs_loop lib now rs = Inr us \<Longrightarrow> (r, st) \<in> set rs \<Longrightarrow> ToUTXOStatus st \<noteq> UTXOStatusUnknown \<Longrightarrow>
   \<exists>u \<in> set us. newUserUTXO lib now r (ToUTXOStatus st) = Inr u"
  by (induction lib now rs arbitrary: us rule: newUTXOs_loop.induct)
    (auto simp: Let_def result_simps split: if_splits)

lemma newUserUTXO_fields:
  "newUserUTXO lib now r st = Inr u \<Longrightarrow> uu_UserID u = or_UserID r \<and> uu_OutputID u = or_ID r \<and>
     uu_ReservedByID u = None \<and> uu_UTXOStatus u = st \<and> Some (uu_BasketName u) = or_BasketName r"
  by (auto simp: newUserUTXO_def result_simps split: option.splits)

lemma upsert_has: "\<exists>c. u\<lparr>uu_CreatedAt := c\<rparr> \<in> set (upsert_utxo u vs)"
proof (induction vs)
  case Nil
  have "u\<lparr>uu_CreatedAt := uu_CreatedAt u\<rparr> = u" by simp
  then show ?case by (auto intro!: exI [of _ "uu_CreatedAt u"])
qed auto

lemma upsert_keeps: "v \<in> set vs \<Longrightarrow> uu_OutputID v \<noteq> uu_OutputID u \<Longrightarrow> v \<in> set (upsert_utxo u vs)"
  by (induction vs) auto

lemma fold_upsert_keeps:
  "v \<in> set vs \<Longrightarrow> uu_OutputID v \<notin> set (map uu_OutputID us) \<Longrightarrow> v \<in> set (fold upsert_utxo us vs)"
  by (induction us arbitrary: vs) (auto simp: upsert_keeps)

lemma fold_upsert_has:
  "distinct (map uu_OutputID us) \<Longrightarrow> u \<in> set us \<Longrightarrow> \<exists>c. u\<lparr>uu_CreatedAt := c\<rparr> \<in> set (fold upsert_utxo us vs)"
proof (induction us arbitrary: vs)
  case (Cons w us)
  show ?case
  proof (cases "u = w")
    case True
    from upsert_has [of w vs] obtain c where "w\<lparr>uu_CreatedAt := c\<rparr> \<in> set (upsert_utxo w vs)" ..
    with Cons.prems(1) have "w\<lparr>uu_CreatedAt := c\<rparr> \<in> set (fold upsert_utxo us (upsert_utxo w vs))"
      by (intro fold_upsert_keeps) auto
    with True show ?thesis by auto
  next
    case False
    with Cons show ?thesis by auto
  qed
qed simp

lemma getOutputs_distinct:
  assumes "distinct (map or_ID (db_Outputs db))" and "distinct (map tr_ID (db_Transactions db))"
  shows "distinct (map (\<lambda>(r, st). or_ID r) (filter Q (getOutputsWithTxStatus P db)))"
proof -
  let ?join = "\<lambda>r. map (\<lambda>t. (r, tr_Status t)) (filter (\<lambda>t. tr_ID t = or_TransactionID r) (db_Transactions db))"
  have one: "distinct (map (\<lambda>(r, st). or_ID r) (?join r))" for r
  proof -
    have "length (filter (\<lambda>t. tr_ID t = i) ts) \<le> 1" if "distinct (map tr_ID ts)" for i and ts :: "transaction_row list"
      using that by (induction ts) (force simp: filter_empty_conv image_iff)+
    from this [OF assms(2), of "or_TransactionID r"] show ?thesis
      by (cases "filter (\<lambda>t. tr_ID t = or_TransactionID r) (db_Transactions db)") auto
  qed
  have "distinct (map (\<lambda>(r, st). or_ID r) (concat (map ?join rs)))" if "distinct (map or_ID rs)" for rs
    using that one by (induction rs) (auto simp del: map_map)
  then have "distinct (map (\<lambda>(r, st). or_ID r) (getOutputsWithTxStatus P db))"
    unfolding getOutputsWithTxStatus_def using distinct_map_filter [OF assms(1)] by blast
  then show ?thesis by (rule distinct_map_filter)
qed

section \<open>The unit of work of an abort\<close>

text \<open>What happens to one output: an input of the transaction is released, an output it created is withdrawn.\<close>

definition released :: "nat \<Rightarrow> output_row \<Rightarrow> output_row" where
  "released i r = (if or_SpentBy r = Some i then r\<lparr>or_Spendable := True, or_SpentBy := None\<rparr>
     else if or_TransactionID r = i then r\<lparr>or_Spendable := False\<rparr> else r)"

lemma createUTXOs_only_index:
  "createUTXOsFromOutputs lib rs db = Inr (x, db') \<Longrightarrow>
   \<exists>us. newUTXOs_loop lib (db_Now db) rs = Inr us \<and> db' = db\<lparr>db_UserUTXOs := fold upsert_utxo us (db_UserUTXOs db)\<rparr>"
  by (auto simp: createUTXOsFromOutputs_def result_simps)

lemma abort_uow_cases:
  assumes op: "abort_uow lib i db = Inr (x, db')"
  obtains us where
    "newUTXOs_loop lib (db_Now db) (getOutputsWithTxStatus (\<lambda>r. or_SpentBy r = Some i \<and> isChangeDaoScope r) db) = Inr us"
    and "db_UserUTXOs db' = fold upsert_utxo us (db_UserUTXOs (UnreserveUTXOs i db))"
    and "db_Outputs db' = update_where (\<lambda>r. or_TransactionID r = i) (\<lambda>r. r\<lparr>or_Spendable := False\<rparr>)
      (db_Outputs (makeOutputsSpendable (\<lambda>r. or_SpentBy r = Some i) db))"
    and "\<exists>t \<in> set (db_Transactions db). tr_ID t = i \<and> tr_Status t \<in> set txStatusesAbortableBeforeBroadcast"
    and "db_Transactions db' = update_where (\<lambda>t. tr_ID t = i \<and> tr_Status t \<in> set txStatusesAbortableBeforeBroadcast)
      (\<lambda>t. t\<lparr>tr_Status := TxStatusAborted\<rparr>) (db_Transactions db)"
    and "db_KnownTxs db' = db_KnownTxs db"
proof -
  have sts: "s \<in> set txStatusesAbortableBeforeBroadcast \<longleftrightarrow>
      s \<in> set [TxStatusUnprocessed, TxStatusUnsigned, TxStatusNoSend, TxStatusNonFinal, TxStatusUnfail]" for s
    by (auto simp: txStatusesAbortableBeforeBroadcast_def)
  let ?db0 = "UnreserveUTXOs i db"
  from op obtain db1 where rec: "recreateSpentOutputs lib i ?db0 = Inr ((), db1)"
    and st: "UpdateTransactionStatusByID i TxStatusAborted
       [TxStatusUnprocessed, TxStatusUnsigned, TxStatusNoSend, TxStatusNonFinal, TxStatusUnfail]
       (MarkCreatedOutputsAsNotSpendable i db1) = Inr (x, db')"
    by (auto simp: abort_uow_def RecreateSpentOutputs_def flow_simps result_simps)
  have same: "getOutputsWithTxStatus P ?db0 = getOutputsWithTxStatus P db" for P
    by (simp add: getOutputsWithTxStatus_def UnreserveUTXOs_def)
  have now: "db_Now (makeOutputsSpendable P ?db0) = db_Now db"
    and idx: "db_UserUTXOs (makeOutputsSpendable P ?db0) = db_UserUTXOs ?db0" for P
    by (simp_all add: makeOutputsSpendable_def UnreserveUTXOs_def)
  from createUTXOs_only_index [OF rec [unfolded recreateSpentOutputs_def Let_def]] obtain us where
    us: "newUTXOs_loop lib (db_Now db) (getOutputsWithTxStatus (\<lambda>r. or_SpentBy r = Some i \<and> isChangeDaoScope r) db) = Inr us"
    and db1: "db1 = (makeOutputsSpendable (\<lambda>r. or_SpentBy r = Some i) ?db0)
      \<lparr>db_UserUTXOs := fold upsert_utxo us (db_UserUTXOs ?db0)\<rparr>"
    unfolding same now idx by blast
  from st have ex: "\<exists>t \<in> set (db_Transactions db). tr_ID t = i \<and> tr_Status t \<in> set txStatusesAbortableBeforeBroadcast"
    and db': "db' = (MarkCreatedOutputsAsNotSpendable i db1)\<lparr>db_Transactions :=
      update_where (\<lambda>t. tr_ID t = i \<and> tr_Status t \<in> set txStatusesAbortableBeforeBroadcast)
        (\<lambda>t. t\<lparr>tr_Status := TxStatusAborted\<rparr>) (db_Transactions db)\<rparr>"
    unfolding sts
    by (auto simp: UpdateTransactionStatusByID_def Let_def db1 MarkCreatedOutputsAsNotSpendable_def
        makeOutputsSpendable_def UnreserveUTXOs_def split: if_splits)
  show thesis
    by (rule that [OF us _ _ ex]) (simp_all add: db' db1 MarkCreatedOutputsAsNotSpendable_def
        makeOutputsSpendable_def UnreserveUTXOs_def)
qed

lemma abort_uow_outputs:
  assumes op: "abort_uow lib i db = Inr (x, db')" and free: "ShouldTxOutputsBeUnspent i db = Inr ()"
  shows "db_Outputs db' = map (released i) (db_Outputs db)"
proof -
  have "or_SpentBy r = None" if "r \<in> set (db_Outputs db)" "or_TransactionID r = i" for r
    using free that by (auto simp: ShouldTxOutputsBeUnspent_def split: if_splits)
  moreover have "db_Outputs db' = update_where (\<lambda>r. or_TransactionID r = i) (\<lambda>r. r\<lparr>or_Spendable := False\<rparr>)
      (db_Outputs (makeOutputsSpendable (\<lambda>r. or_SpentBy r = Some i) db))"
    using abort_uow_cases [OF op] by blast
  ultimately show ?thesis by (auto simp: released_def makeOutputsSpendable_def update_where_def)
qed

lemma abort_uow_index:
  assumes inv: "db_inv db" and op: "abort_uow lib i db = Inr (x, db')"
    and r: "r \<in> set (db_Outputs db)" "or_SpentBy r = Some i" "isChangeDaoScope r"
    and t: "t \<in> set (db_Transactions db)" "tr_ID t = or_TransactionID r" "ToUTXOStatus (tr_Status t) \<noteq> UTXOStatusUnknown"
  shows "\<exists>u \<in> set (db_UserUTXOs db'). uu_UserID u = or_UserID r \<and> uu_OutputID u = or_ID r \<and>
    uu_ReservedByID u = None \<and> uu_UTXOStatus u = ToUTXOStatus (tr_Status t)"
proof -
  let ?scope = "\<lambda>r. or_SpentBy r = Some i \<and> isChangeDaoScope r"
  obtain us where us: "newUTXOs_loop lib (db_Now db) (getOutputsWithTxStatus ?scope db) = Inr us"
    and idx: "db_UserUTXOs db' = fold upsert_utxo us (db_UserUTXOs (UnreserveUTXOs i db))"
    using abort_uow_cases [OF op] by metis
  have "(r, tr_Status t) \<in> set (getOutputsWithTxStatus ?scope db)"
    using r t by (auto simp: getOutputsWithTxStatus_mem)
  from newUTXOs_loop_has [OF us this t(3)] obtain u where u: "u \<in> set us"
    and new: "newUserUTXO lib (db_Now db) r (ToUTXOStatus (tr_Status t)) = Inr u" ..
  have "distinct (map uu_OutputID us)"
    unfolding newUTXOs_loop_ids [OF us]
    by (rule getOutputs_distinct) (use db_invD(1,2) [OF inv] in \<open>auto simp: txs_ok_def outs_ok_def\<close>)
  from fold_upsert_has [OF this u] obtain c where "u\<lparr>uu_CreatedAt := c\<rparr> \<in> set (db_UserUTXOs db')"
    unfolding idx by blast
  with newUserUTXO_fields [OF new] show ?thesis by (intro bexI [of _ "u\<lparr>uu_CreatedAt := c\<rparr>"]) auto
qed

lemma abort_uow_unreserved:
  assumes inv: "db_inv db" and lib: "convert_ok lib" and op: "abort_uow lib i db = Inr (x, db')"
  shows "unreserved i db'"
proof -
  obtain us where us: "newUTXOs_loop lib (db_Now db) (getOutputsWithTxStatus (\<lambda>r. or_SpentBy r = Some i \<and> isChangeDaoScope r) db) = Inr us"
    and idx: "db_UserUTXOs db' = fold upsert_utxo us (db_UserUTXOs (UnreserveUTXOs i db))"
    using abort_uow_cases [OF op] by metis
  have fresh: "uu_ReservedByID u = None" if "u \<in> set us" for u
    using newUTXOs_loop_mem [OF us that] newUserUTXO_fields by metis
  have "\<forall>u \<in> set (fold upsert_utxo us (db_UserUTXOs (UnreserveUTXOs i db))). uu_ReservedByID u \<noteq> Some i"
    by (rule fold_invariant [where Q = "\<lambda>u. u \<in> set us"])
      (use UnreserveUTXOs_inv(2) [OF inv] fresh in \<open>auto simp: unreserved_def dest!: upsert_memD\<close>)
  then show ?thesis by (simp add: unreserved_def idx)
qed

section \<open>Parking\<close>

lemma Park_total: "\<exists>b db'. ParkUnbroadcastKnownTx txID ns db = Inr (b, db')"
  by (auto simp: ParkUnbroadcastKnownTx_def)

lemma Park_result:
  assumes "ParkUnbroadcastKnownTx txID ns db = Inr (b, db')"
  shows "b \<longleftrightarrow> (\<exists>k \<in> set (db_KnownTxs db). parkable txID k)" and "\<not> b \<Longrightarrow> db' = db"
    and "db_KnownTxs db' = update_where (parkable txID) (\<lambda>k. k\<lparr>kt_Status := ProvenTxStatusInvalid\<rparr>) (db_KnownTxs db)"
    and "db_Transactions db' = db_Transactions db" and "db_Outputs db' = db_Outputs db"
    and "db_UserUTXOs db' = db_UserUTXOs db" and "db_Now db' = db_Now db"
proof -
  have u: "(\<And>k. k \<in> set (db_KnownTxs db) \<Longrightarrow> \<not> parkable txID k) \<Longrightarrow>
      update_where (parkable txID) (\<lambda>k. k\<lparr>kt_Status := ProvenTxStatusInvalid\<rparr>) (db_KnownTxs db) = db_KnownTxs db"
    by (rule update_where_none)
  show "b \<longleftrightarrow> (\<exists>k \<in> set (db_KnownTxs db). parkable txID k)" "\<not> b \<Longrightarrow> db' = db"
    "db_KnownTxs db' = update_where (parkable txID) (\<lambda>k. k\<lparr>kt_Status := ProvenTxStatusInvalid\<rparr>) (db_KnownTxs db)"
    "db_Transactions db' = db_Transactions db" "db_Outputs db' = db_Outputs db"
    "db_UserUTXOs db' = db_UserUTXOs db" "db_Now db' = db_Now db"
    using assms u by (auto simp: ParkUnbroadcastKnownTx_def addTxNotes_def split: if_splits)
qed

text \<open>A park that is refused writes nothing.\<close>

lemma parkKnownTxForAbort_cases:
  assumes "parkKnownTxForAbort t txID db = (res, db')"
  obtains (refused) e where "res = Inl e" and "db' = db" and "errors_Is e ErrNotAbortableAction"
    | (parked) ns where "res = Inr ()" and "ParkUnbroadcastKnownTx txID ns db = Inr (True, db')"
proof -
  let ?ns = "[note_AbortBeforeBroadcast ProvenTxStatusInvalid]"
  obtain b db1 where park: "ParkUnbroadcastKnownTx txID ?ns db = Inr (b, db1)" using Park_total by blast
  show thesis
  proof (cases b)
    case True
    with park assms show thesis
      by (auto simp: parkKnownTxForAbort_def Let_def flow_simps split: if_splits prod.splits intro: refused parked)
  next
    case False
    with Park_result(2) [OF park] park assms show thesis
      by (auto simp: parkKnownTxForAbort_def Let_def flow_simps split: if_splits prod.splits intro: refused)
  qed
qed

lemma parked_not_claimable:
  assumes known: "known_ok ks" and k: "k \<in> set ks" "parkable txID k"
    and ks': "ks' = update_where (parkable txID) (\<lambda>k. k\<lparr>kt_Status := ProvenTxStatusInvalid\<rparr>) ks"
    and k': "k' \<in> set ks'" "kt_TxID k' = txID"
  shows "kt_Status k' = ProvenTxStatusInvalid"
proof -
  from k' ks' obtain l where l: "l \<in> set ks" "kt_TxID l = txID"
    and k'l: "k' = (if parkable txID l then l\<lparr>kt_Status := ProvenTxStatusInvalid\<rparr> else l)"
    by (auto simp: in_update_where split: if_splits)
  from l k known have "l = k" by (auto simp: parkable_def known_ok_def distinct_map inj_on_def)
  with k(2) k'l show ?thesis by simp
qed

lemma Claim_mem:
  "ClaimKnownTxsForBroadcast ids db = Inr (cs, db') \<Longrightarrow>
   x \<in> set cs \<longleftrightarrow> x \<in> set ids \<and>
     (\<exists>k \<in> set (db_KnownTxs db). kt_TxID k = x \<and> kt_Status k \<in> set KnownTxClaimableForBroadcastStatuses)"
  by (auto simp: ClaimKnownTxsForBroadcast_def Let_def filter_empty_conv split: if_splits)

section \<open>The whole abort\<close>

lemma first_by_Some: "first_by key P rs = Some r \<Longrightarrow> r \<in> set rs \<and> P r"
proof -
  assume "first_by key P rs = Some r"
  then have "\<exists>ws. sort_key key (filter P rs) = r # ws"
    by (auto simp: first_by_def split: list.splits)
  then have "r \<in> set (sort_key key (filter P rs))" by (metis list.set_intros(1))
  then show "r \<in> set rs \<and> P r" by simp
qed

lemma findTransactionForAbort_mem:
  "findTransactionForAbort user ref db = Some t \<Longrightarrow> t \<in> set (db_Transactions db) \<and> tr_UserID t = user"
  by (auto simp: findTransactionForAbort_def FindTransactionByReference_def FindTransactionByUserIDAndTxID_def
      split: option.splits if_splits dest: first_by_Some)

lemma AbortAction_Inr:
  assumes "AbortAction lib user ref db = (Inr b, db')"
  obtains t where "findTransactionForAbort user ref db = Some t" and "tr_IsOutgoing t"
    and "tr_Status t \<in> set txStatusesAbortableBeforeBroadcast" and "ShouldTxOutputsBeUnspent (tr_ID t) db = Inr ()"
    and "abortTx lib t db = (Inr (), db')"
proof -
  from assms obtain t where t: "findTransactionForAbort user ref db = Some t" and v: "validateTx t db = Inr ()"
    and a: "abortTx lib t db = (Inr (), db')"
    by (auto simp: AbortAction_def split: option.splits sum.splits prod.splits)
  from v have "tr_IsOutgoing t" "tr_Status t \<in> set txStatusesAbortableBeforeBroadcast"
    "ShouldTxOutputsBeUnspent (tr_ID t) db = Inr ()"
    by (auto simp: validateTx_def validateTxStatusForAbort_def txStatusesAbortableBeforeBroadcast_def result_simps
        split: if_splits)
  with t a show thesis by (intro that)
qed

text \<open>A successful abort: the KnownTx was parked, or there is none, and then the unit of work committed.\<close>

lemma abortTx_Inr:
  assumes "abortTx lib t db = (Inr x, db')"
  obtains (unsigned) "tr_TxID t = None" and "abort_uow lib (tr_ID t) db = Inr ((), db')"
    | (parked) txID ns db1 where "tr_TxID t = Some txID" and "ParkUnbroadcastKnownTx txID ns db = Inr (True, db1)"
      and "abort_uow lib (tr_ID t) db1 = Inr ((), db')"
proof (cases "tr_TxID t")
  case None
  with assms unsigned show thesis by (auto simp: abortTx_def flow_simps split: sum.splits)
next
  case (Some txID)
  obtain res db1 where p: "parkKnownTxForAbort t txID db = (res, db1)" by (metis surj_pair)
  from p show thesis
  proof (cases rule: parkKnownTxForAbort_cases)
    case (refused e)
    with p Some assms show thesis by (simp add: abortTx_def flow_simps)
  next
    case (parked ns)
    with p Some assms show thesis
      by (auto simp: abortTx_def flow_simps split: sum.splits intro: that(2))
  qed
qed

text \<open>Whether it succeeds or not, an abort keeps the invariant.\<close>

lemma in_db_tx_abort_inv:
  "db_inv db \<Longrightarrow> convert_ok lib \<Longrightarrow> db_inv (snd (in_db_tx (abort_uow lib i) db))"
  by (auto simp: in_db_tx_def split: sum.splits intro: abort_uow_inv)

lemma abortTx_inv: "db_inv db \<Longrightarrow> convert_ok lib \<Longrightarrow> db_inv (snd (abortTx lib t db))"
proof (cases "tr_TxID t")
  case None
  assume "db_inv db" "convert_ok lib"
  with None show ?thesis by (simp add: abortTx_def in_db_tx_abort_inv)
next
  case (Some txID)
  assume inv: "db_inv db" "convert_ok lib"
  obtain res db1 where p: "parkKnownTxForAbort t txID db = (res, db1)" by (metis surj_pair)
  from p show ?thesis
  proof (cases rule: parkKnownTxForAbort_cases)
    case (refused e)
    with p Some inv show ?thesis by (simp add: abortTx_def flow_bind_def)
  next
    case (parked ns)
    with inv have "db_inv db1" by (auto intro: ParkUnbroadcastKnownTx_inv)
    with p parked Some inv show ?thesis by (simp add: abortTx_def flow_bind_def in_db_tx_abort_inv)
  qed
qed

lemma AbortAction_inv: "db_inv db \<Longrightarrow> convert_ok lib \<Longrightarrow> db_inv (snd (AbortAction lib user ref db))"
proof -
  assume "db_inv db" "convert_ok lib"
  then have "db_inv (snd (abortTx lib t db))" for t by (rule abortTx_inv)
  then have "db_inv db'" if "abortTx lib t db = (r, db')" for t r db' using that by (metis snd_conv)
  with \<open>db_inv db\<close> show ?thesis
    by (auto simp: AbortAction_def split: option.splits sum.splits prod.splits)
qed

section \<open>The release and its aborter\<close>

text \<open>What the release relies on: aborting an action keeps the storage in order, whatever the outcome.\<close>

locale action_aborter =
  fixes abort :: "int \<Rightarrow> string \<Rightarrow> bool db_flow" and good :: "database \<Rightarrow> bool"
  assumes abort_good: "good db \<Longrightarrow> good (snd (abort user ref db))"
begin

lemma onError_good: "good db \<Longrightarrow> good (snd (onError (Some abort) cause r db))"
  by (auto simp: onError_def abort_good split: option.splits)

end

interpretation abort_action: action_aborter "AbortAction lib" "\<lambda>db. convert_ok lib \<and> db_inv db" for lib
  by unfold_locales (auto intro: AbortAction_inv)

text \<open>The life of a release: a sequence of calls.\<close>

datatype release_call = Arm string | Disarm | OnError go_error

fun release_run ::
  "(int \<Rightarrow> string \<Rightarrow> bool db_flow) option \<Rightarrow> release_call list \<Rightarrow> release_state option \<times> database \<Rightarrow>
   release_state option \<times> database" where
  "release_run aborter [] s = s"
| "release_run aborter (Arm ref # calls) (r, db) = release_run aborter calls (arm ref r, db)"
| "release_run aborter (Disarm # calls) (r, db) = release_run aborter calls (disarm r, db)"
| "release_run aborter (OnError e # calls) (r, db) = release_run aborter calls (onError aborter (Some e) r db)"

definition disarmed :: "release_state option \<Rightarrow> bool" where
  "disarmed r \<longleftrightarrow> (case r of None \<Rightarrow> True | Some s \<Rightarrow> \<not> rl_armed s)"

lemma disarmed_run:
  "disarmed r \<Longrightarrow> (\<And>ref. Arm ref \<notin> set calls) \<Longrightarrow> snd (release_run aborter calls (r, db)) = db"
proof (induction calls arbitrary: r)
  case (Cons c calls)
  have step: "snd (release_run aborter calls (r', db)) = db" if "disarmed r'" for r'
    using that Cons.prems(2) by (intro Cons.IH) auto
  have stays: "onError aborter cause r db = (r, db)" for cause
    using Cons.prems(1) by (cases r) (auto simp: onError_def disarmed_def split: option.splits)
  show ?case
  proof (cases c)
    case (Arm ref)
    with Cons.prems(2) [of ref] show ?thesis by simp
  next
    case Disarm
    have "disarmed (disarm r)" by (cases r) (simp_all add: disarmed_def disarm_def)
    with Disarm show ?thesis by (simp add: step)
  next
    case (OnError e)
    with Cons.prems(1) show ?thesis by (simp add: stays step)
  qed
qed simp

lemma disarmed_after:
  "disarmed (disarm r)" "aborter \<noteq> None \<Longrightarrow> disarmed (fst (onError aborter (Some e) r db))"
  by (auto simp: disarmed_def disarm_def onError_def split: option.splits)

end
