(* ===== verification/Storage_Properties.thy ===== *)
theory Storage_Properties
  imports Abort_Correct
begin

text \<open>
  The properties of the storage core: reachable states, exclusive claims of inputs, aborts, the claim of
  transactions for broadcast, guarded status transitions, and the rebroadcast budget. A worked example
  database serves the witnesses.
\<close>

section \<open>Worked example\<close>

definition ex_out :: "nat \<Rightarrow> nat \<Rightarrow> nat option \<Rightarrow> int \<Rightarrow> output_row" where
  "ex_out i txn spent sats = \<lparr>or_ID = i, or_CreatedAt = 0, or_UserID = 1, or_TransactionID = txn, or_SpentBy = spent,
     or_Vout = i, or_Satoshis = sats, or_LockingScript = None, or_CustomInstructions = None,
     or_DerivationPrefix = None, or_DerivationSuffix = None, or_BasketName = Some ''default'',
     or_Spendable = (spent = None), or_Change = True, or_Description = '''', or_ProvidedBy = ''storage'',
     or_Purpose = ''change'', or_Type = OutputTypeP2PKH, or_SenderIdentityKey = None, or_Tags = []\<rparr>"

definition ex_tx :: "nat \<Rightarrow> tx_status \<Rightarrow> string \<Rightarrow> string option \<Rightarrow> transaction_row" where
  "ex_tx i st ref txid = \<lparr>tr_ID = i, tr_CreatedAt = 0, tr_UserID = 1, tr_Status = st, tr_Reference = ref,
     tr_IsOutgoing = True, tr_Satoshis = 0, tr_Description = '''', tr_Version = 1, tr_LockTime = 0,
     tr_TxID = txid, tr_InputBeef = None, tr_Labels = []\<rparr>"

definition ex_row :: "nat \<Rightarrow> nat option \<Rightarrow> nat \<Rightarrow> user_utxo" where
  "ex_row i res sats = \<lparr>uu_UserID = 1, uu_OutputID = i, uu_UTXOStatus = UTXOStatusMined, uu_BasketName = ''default'',
     uu_Satoshis = sats, uu_EstimatedInputSize = 148, uu_CreatedAt = 0, uu_ReservedByID = res\<rparr>"

definition ex_known :: "string \<Rightarrow> proven_tx_req_status \<Rightarrow> bool \<Rightarrow> known_tx_row" where
  "ex_known txid st posted = (zero_known_tx 0)\<lparr>kt_TxID := txid, kt_Status := st, kt_WasBroadcast := posted\<rparr>"

text \<open>Transaction 1 is mined and created the outputs 1 and 2; transaction 2 is signed but was never
  broadcast and spends output 2.\<close>

definition ex_db :: database where
  "ex_db = (empty_database 10)\<lparr>db_NextTransactionID := 3, db_NextOutputID := 3,
     db_Transactions := [ex_tx 1 TxStatusCompleted ''r1'' (Some ''aa''), ex_tx 2 TxStatusUnprocessed ''r2'' (Some ''bb'')],
     db_Outputs := [ex_out 1 1 None 1000, ex_out 2 1 (Some 2) 500],
     db_UserUTXOs := [ex_row 1 None 1000],
     db_KnownTxs := [ex_known ''aa'' ProvenTxStatusCompleted True, ex_known ''bb'' ProvenTxStatusUnprocessed False]\<rparr>"

definition ex_new :: "nat list \<Rightarrow> nat list \<Rightarrow> new_tx" where
  "ex_new reserved spent = \<lparr>nt_UserID = 1, nt_Version = 1, nt_LockTime = 0, nt_Status = TxStatusUnsigned,
     nt_Reference = ''r3'', nt_Satoshis = 0, nt_IsOutgoing = True, nt_InputBeef = None, nt_Description = '''',
     nt_TxID = None, nt_ReservedOutputIDs = reserved, nt_SpentOutputIDs = spent, nt_Outputs = [],
     nt_UTXOStatus = UTXOStatusUnknown, nt_Labels = [], nt_Commission = None\<rparr>"

lemmas ex_defs = ex_db_def ex_out_def ex_tx_def ex_row_def ex_known_def ex_new_def empty_database_def zero_known_tx_def

lemma ex_db_inv: "db_inv ex_db"
  by (simp add: ex_defs db_inv_def txs_ok_def outs_ok_def out_ok_def owned_tx_def index_ok_def row_fits_def
      known_ok_def keyed_def is_i64_def WasBroadcastStatus_def)

text \<open>The same storage with an unsigned transaction 3.\<close>

definition ex_db3 :: database where
  "ex_db3 = ex_db\<lparr>db_NextTransactionID := 4, db_Transactions := db_Transactions ex_db @ [ex_tx 3 TxStatusUnsigned ''r3'' None]\<rparr>"

lemma ex_db3_inv: "db_inv ex_db3"
  by (simp add: ex_db3_def ex_defs db_inv_def txs_ok_def outs_ok_def out_ok_def owned_tx_def index_ok_def row_fits_def
      known_ok_def keyed_def is_i64_def WasBroadcastStatus_def)

lemma std_convert_ok: "convert_ok std_lib"
  using std_lib_ok by (simp add: go_lib_ok_def)

section \<open>Reachable states\<close>



section \<open>Claiming inputs\<close>

lemma insert_outputs_prefix:
  "\<exists>os us. db_Outputs (insert_outputs i outs db) = db_Outputs db @ os \<and>
     db_UserUTXOs (insert_outputs i outs db) = db_UserUTXOs db @ us \<and>
     (\<forall>r \<in> set os. db_NextOutputID db \<le> or_ID r) \<and> (\<forall>u \<in> set us. db_NextOutputID db \<le> uu_OutputID u)"
proof (induction i outs db rule: insert_outputs.induct)
  case (2 i out utxo outs db)
  let ?row = "out\<lparr>or_ID := db_NextOutputID db, or_CreatedAt := db_Now db, or_TransactionID := i\<rparr>"
  let ?us = "case utxo of None \<Rightarrow> [] | Some u \<Rightarrow> [u\<lparr>uu_OutputID := db_NextOutputID db, uu_CreatedAt := db_Now db\<rparr>]"
  from "2.IH" [OF refl refl refl] obtain os us where
    "db_Outputs (insert_outputs i ((out, utxo) # outs) db) = db_Outputs db @ ?row # os"
    "db_UserUTXOs (insert_outputs i ((out, utxo) # outs) db) = db_UserUTXOs db @ ?us @ us"
    "\<forall>r \<in> set os. db_NextOutputID db + 1 \<le> or_ID r" "\<forall>u \<in> set us. db_NextOutputID db + 1 \<le> uu_OutputID u"
    by (auto simp: Let_def)
  then show ?case
    by (intro exI [of _ "?row # os"] exI [of _ "?us @ us"]) (auto split: option.splits)
qed simp

text \<open>Everything up to the claims: the database in which they are made extends the old one with fresh rows.\<close>

lemma create_before_claims:
  assumes inv: "db_inv db" and lib: "convert_ok lib" and nt: "new_tx_ok nt db"
    and tm: "toTransactionModel lib nt = Inr (model, outputs)"
    and con: "connectOutputsWithBaskets (nt_UserID nt) outputs db = (outs, db1)"
    and ins: "insert_transaction nt model outs db1 = Inr (i, db2)"
  shows "db_inv db2" and "i = db_NextTransactionID db"
    and "\<exists>os us. db_Outputs db2 = db_Outputs db @ os \<and> db_UserUTXOs db2 = db_UserUTXOs db @ us \<and>
      (\<forall>r \<in> set os. db_NextOutputID db \<le> or_ID r) \<and> (\<forall>u \<in> set us. db_NextOutputID db \<le> uu_OutputID u)"
proof -
  note model = toTransactionModel_prepared [OF lib nt tm]
  from connectOutputs_eq [OF con, of "nt_UserID nt"] model(3) obtain bs where db1: "db1 = db\<lparr>db_Baskets := bs\<rparr>"
    and prep: "\<And>p. p \<in> set outs \<Longrightarrow> prepared (tr_UserID model) p" by (auto simp: model(1))
  from inv have inv1: "db_inv db1" by (simp add: db1 db_inv_update(3))
  note ins' = insert_transaction_inv [OF inv1 prep ins]
  show "db_inv db2" "i = db_NextTransactionID db" using ins'(1,2) by (simp_all add: db1)
  obtain cs where "db2 = insert_outputs i outs (db1\<lparr>db_NextTransactionID := i + 1, db_Transactions :=
      db_Transactions db1 @ [model\<lparr>tr_ID := i, tr_CreatedAt := db_Now db1\<rparr>], db_Commissions := cs\<rparr>)"
    using insert_transaction_eq [OF ins] .
  then show "\<exists>os us. db_Outputs db2 = db_Outputs db @ os \<and> db_UserUTXOs db2 = db_UserUTXOs db @ us \<and>
      (\<forall>r \<in> set os. db_NextOutputID db \<le> or_ID r) \<and> (\<forall>u \<in> set us. db_NextOutputID db \<le> uu_OutputID u)"
    using insert_outputs_prefix [of i outs "db1\<lparr>db_NextTransactionID := i + 1, db_Transactions :=
      db_Transactions db1 @ [model\<lparr>tr_ID := i, tr_CreatedAt := db_Now db1\<rparr>], db_Commissions := cs\<rparr>"]
    by (simp add: db1)
qed

text \<open>The effect of a successful creation on the outputs that existed before.\<close>

definition claimed :: "nat \<Rightarrow> nat list \<Rightarrow> output_row \<Rightarrow> output_row" where
  "claimed i ids r = (if or_ID r \<in> set ids then r\<lparr>or_Spendable := False, or_SpentBy := Some i\<rparr> else r)"

lemma create_effect:
  assumes inv: "db_inv db" and lib: "convert_ok lib" and nt: "new_tx_ok nt db"
    and old: "\<forall>x \<in> set (nt_SpentOutputIDs nt). x < db_NextOutputID db"
    and op: "createTransactionInTx lib nt db = Inr (i, db')"
  shows "i = db_NextTransactionID db \<and> distinct (nt_SpentOutputIDs nt) \<and>
    (\<forall>x \<in> set (nt_SpentOutputIDs nt). \<exists>r \<in> set (db_Outputs db). or_ID r = x \<and> or_UserID r = nt_UserID nt \<and>
       or_SpentBy r = None) \<and>
    (\<exists>os. db_Outputs db' = map (claimed i (nt_SpentOutputIDs nt)) (db_Outputs db) @ os \<and>
       (\<forall>r \<in> set os. db_NextOutputID db \<le> or_ID r))"
proof -
  from createTransactionInTx_Inr [OF op] obtain model outputs outs db1 db2 db3 where
    tm: "toTransactionModel lib nt = Inr (model, outputs)"
    and con: "connectOutputsWithBaskets (nt_UserID nt) outputs db = (outs, db1)"
    and ins: "insert_transaction nt model outs db1 = Inr (i, db2)"
    and res: "reserveUTXOs i (nt_UserID nt) (nt_ReservedOutputIDs nt) db2 = Inr ((), db3)"
    and mark: "markReservedOutputsAsNotSpendable i (nt_UserID nt) (nt_SpentOutputIDs nt) db3 = Inr db'" .
  note pre = create_before_claims [OF inv lib nt tm con ins]
  from pre(3) obtain os us where os: "db_Outputs db2 = db_Outputs db @ os" "\<forall>r \<in> set os. db_NextOutputID db \<le> or_ID r"
    by blast
  let ?ids = "nt_SpentOutputIDs nt" and ?u = "nt_UserID nt"
  have outs3: "db_Outputs db3 = db_Outputs db @ os" using reserveUTXOs_Inr [OF res] os(1) by simp
  have dist: "distinct (map or_ID (db_Outputs db3))"
    using db_invD(2) [OF pre(1)] by (simp add: outs3 os(1) outs_ok_def)
  note all = count_all_matched [OF dist markReserved_Inr(2) [OF mark]]
  have found: "\<exists>r \<in> set (db_Outputs db). or_ID r = x \<and> or_UserID r = ?u \<and> or_SpentBy r = None" if "x \<in> set ?ids" for x
  proof -
    from all(2) [OF that] obtain r where r: "r \<in> set (db_Outputs db) \<union> set os"
      "or_ID r = x" "or_UserID r = ?u" "or_SpentBy r = None" by (auto simp: outs3)
    moreover have "r \<notin> set os" using old os(2) that r(2) by (metis leD)
    ultimately show ?thesis by blast
  qed
  have "(or_ID r \<in> set ?ids \<and> or_UserID r = ?u \<and> or_SpentBy r = None) = (or_ID r \<in> set ?ids)"
    if r: "r \<in> set (db_Outputs db)" for r
    using found [of "or_ID r"] dist r by (auto simp: outs3 distinct_map inj_on_def)
  then have "map (\<lambda>r. if or_ID r \<in> set ?ids \<and> or_UserID r = ?u \<and> or_SpentBy r = None
      then r\<lparr>or_Spendable := False, or_SpentBy := Some i\<rparr> else r) (db_Outputs db) = map (claimed i ?ids) (db_Outputs db)"
    by (auto simp: claimed_def)
  moreover have "map (\<lambda>r. if or_ID r \<in> set ?ids \<and> or_UserID r = ?u \<and> or_SpentBy r = None
      then r\<lparr>or_Spendable := False, or_SpentBy := Some i\<rparr> else r) os = os"
    using old os(2) by (intro map_idI) fastforce
  ultimately have "db_Outputs db' = map (claimed i ?ids) (db_Outputs db) @ os"
    using markReserved_Inr(1) [OF mark] by (simp add: outs3 update_where_def)
  with pre(2) all(1) found os(2) show ?thesis by blast
qed

text \<open>C15. A created action owns its inputs exclusively: creation succeeds only if every requested input
  belongs to the user and is unspent, no input is named twice, and afterwards exactly these inputs are
  spent by the new transaction, while every other output is as before.\<close>

theorem create_claims_exclusively:
  assumes inv: "db_inv db" and lib: "convert_ok lib" and nt: "new_tx_ok nt db"
    and old: "\<forall>x \<in> set (nt_SpentOutputIDs nt). x < db_NextOutputID db"
    and op: "createTransactionInTx lib nt db = Inr (i, db')"
  shows "i = db_NextTransactionID db \<and> distinct (nt_SpentOutputIDs nt) \<and>
    (\<forall>x \<in> set (nt_SpentOutputIDs nt). \<exists>r \<in> set (db_Outputs db). or_ID r = x \<and> or_UserID r = nt_UserID nt \<and>
       or_SpentBy r = None) \<and>
    (\<exists>os. db_Outputs db' = map (claimed i (nt_SpentOutputIDs nt)) (db_Outputs db) @ os \<and>
       (\<forall>r \<in> set os. db_NextOutputID db \<le> or_ID r))"
  using create_effect [OF assms] .

theorem create_claims_exclusively_witness:
  "\<exists>db' os. createTransactionInTx std_lib (ex_new [1] [1]) ex_db = Inr (3, db') \<and>
     db_Outputs db' = map (claimed 3 [1]) (db_Outputs ex_db) @ os"
proof -
  let ?nt = "ex_new [1] [1]"
  have "\<exists>db'. createTransactionInTx std_lib ?nt ex_db = Inr (3, db')"
    by (simp add: ex_defs createTransactionInTx_def toTransactionModel_def insert_transaction_def reserveUTXOs_def
        markReservedOutputsAsNotSpendable_def count_where_def)
  then obtain db' where op: "createTransactionInTx std_lib ?nt ex_db = Inr (3, db')" ..
  have "new_tx_ok ?nt ex_db" "\<forall>x \<in> set (nt_SpentOutputIDs ?nt). x < db_NextOutputID ex_db"
    by (simp_all add: ex_defs new_tx_ok_def)
  from create_claims_exclusively [OF ex_db_inv std_convert_ok this op] op show ?thesis
    by (auto simp: ex_new_def)
qed

text \<open>The outputs a failed claim reports as stale.\<close>

lemma markReserved_stale:
  assumes mark: "markReservedOutputsAsNotSpendable i user ids db = Inl (StaleUTXOIndexError stale)"
    and index: "\<And>u. u \<in> set (db_UserUTXOs db) \<Longrightarrow>
      \<exists>r \<in> set (db_Outputs db). or_ID r = uu_OutputID u \<and> or_UserID r = uu_UserID u"
  shows "set stale = {x \<in> set ids. \<exists>u \<in> set (db_UserUTXOs db). uu_UserID u = user \<and> uu_OutputID u = x}"
proof -
  define db1 where "db1 = db\<lparr>db_Outputs := update_where (\<lambda>r. or_ID r \<in> set ids \<and> or_UserID r = user \<and> or_SpentBy r = None)
    (\<lambda>r. r\<lparr>or_Spendable := False, or_SpentBy := Some i\<rparr>) (db_Outputs db)\<rparr>"
  have stale: "stale = staleIndexedOutputs user ids db1"
    using mark by (simp add: markReservedOutputsAsNotSpendable_def db1_def Let_def split: if_splits)
  have spent: "\<exists>r \<in> set (db_Outputs db1). or_ID r = uu_OutputID u \<and> or_SpentBy r \<noteq> None"
    if u: "u \<in> set (db_UserUTXOs db)" "uu_UserID u = user" "uu_OutputID u \<in> set ids" for u
  proof -
    from index [OF u(1)] obtain r where r: "r \<in> set (db_Outputs db)" "or_ID r = uu_OutputID u" "or_UserID r = user"
      using u(2) by auto
    show ?thesis
    proof (cases "or_SpentBy r")
      case None
      with r u(3) have "r\<lparr>or_Spendable := False, or_SpentBy := Some i\<rparr> \<in> set (db_Outputs db1)"
        by (auto simp: db1_def in_update_where intro!: bexI [of _ r])
      with r(2) show ?thesis by (intro bexI) auto
    next
      case (Some s)
      with r(1) have "r \<in> set (db_Outputs db1)" by (auto simp: db1_def in_update_where intro!: bexI [of _ r])
      with r(2) Some show ?thesis by (intro bexI) auto
    qed
  qed
  have "db_UserUTXOs db1 = db_UserUTXOs db" by (simp add: db1_def)
  with spent show ?thesis unfolding stale staleIndexedOutputs_def by (auto simp: image_iff)
qed

text \<open>When a claim fails because some requested output is already spent, the outputs reported as stale
  are all requested outputs that have an index row, the healthy ones included: the check runs after the
  claim has marked them as spent in the same database transaction. The healing step then removes their
  index rows, although the rolled-back outputs are still unspent.\<close>

theorem stale_report_covers_healthy_outputs:
  assumes inv: "db_inv db" and lib: "convert_ok lib" and nt: "new_tx_ok nt db"
    and old: "\<forall>x \<in> set (nt_SpentOutputIDs nt). x < db_NextOutputID db"
    and op: "createTransactionInTx lib nt db = Inl (StaleUTXOIndexError stale)"
  shows "set stale = {x \<in> set (nt_SpentOutputIDs nt). \<exists>u \<in> set (db_UserUTXOs db).
      uu_UserID u = nt_UserID nt \<and> uu_OutputID u = x} \<and>
    claim_or_heal lib nt db = (Inl (StaleUTXOIndexError stale), DeleteIndexRows (nt_UserID nt) stale db)"
proof -
  let ?ids = "nt_SpentOutputIDs nt" and ?user = "nt_UserID nt"
  from op obtain model outputs outs db1 i db2 db3 where
    tm: "toTransactionModel lib nt = Inr (model, outputs)"
    and con: "connectOutputsWithBaskets ?user outputs db = (outs, db1)"
    and ins: "insert_transaction nt model outs db1 = Inr (i, db2)"
    and res: "reserveUTXOs i ?user (nt_ReservedOutputIDs nt) db2 = Inr ((), db3)"
    and mark: "markReservedOutputsAsNotSpendable i ?user ?ids db3 = Inl (StaleUTXOIndexError stale)"
    by (auto simp: createTransactionInTx_def split: sum.splits prod.splits)
  note pre = create_before_claims [OF inv lib nt tm con ins]
  from pre(3) obtain us where us: "db_UserUTXOs db2 = db_UserUTXOs db @ us"
    "\<forall>u \<in> set us. db_NextOutputID db \<le> uu_OutputID u" by blast
  have outs3: "db_Outputs db3 = db_Outputs db2"
    and keys3: "map (\<lambda>u. (uu_UserID u, uu_OutputID u)) (db_UserUTXOs db3) =
      map (\<lambda>u. (uu_UserID u, uu_OutputID u)) (db_UserUTXOs db2)"
    using reserveUTXOs_Inr [OF res] by (auto simp: update_where_def)
  have row3: "(\<exists>u \<in> set (db_UserUTXOs db3). uu_UserID u = user \<and> uu_OutputID u = x) \<longleftrightarrow>
      (\<exists>u \<in> set (db_UserUTXOs db2). uu_UserID u = user \<and> uu_OutputID u = x)" for user x
    using arg_cong [OF keys3, of "\<lambda>xs. (user, x) \<in> set xs"] by (auto simp: image_iff)
  have "\<exists>r \<in> set (db_Outputs db3). or_ID r = uu_OutputID u \<and> or_UserID r = uu_UserID u"
    if "u \<in> set (db_UserUTXOs db3)" for u
  proof -
    from that row3 obtain v where "v \<in> set (db_UserUTXOs db2)" "uu_UserID v = uu_UserID u" "uu_OutputID v = uu_OutputID u"
      by blast
    with db_invD(3) [OF pre(1)] show ?thesis by (fastforce simp: outs3 index_ok_def row_fits_def)
  qed
  then have stale: "set stale = {x \<in> set ?ids. \<exists>u \<in> set (db_UserUTXOs db3). uu_UserID u = ?user \<and> uu_OutputID u = x}"
    by (rule markReserved_stale [OF mark])
  have "x \<in> set stale \<longleftrightarrow> x \<in> set ?ids \<and> (\<exists>u \<in> set (db_UserUTXOs db). uu_UserID u = ?user \<and> uu_OutputID u = x)" for x
    unfolding stale mem_Collect_eq row3 using old us by fastforce
  then show ?thesis by (auto simp: claim_or_heal_def op)
qed

theorem stale_report_covers_healthy_outputs_witness:
  "\<exists>stale. createTransactionInTx std_lib (ex_new [1] [1, 2]) ex_db = Inl (StaleUTXOIndexError stale) \<and> 1 \<in> set stale"
proof -
  let ?nt = "ex_new [1] [1, 2]"
  have "\<exists>stale. createTransactionInTx std_lib ?nt ex_db = Inl (StaleUTXOIndexError stale)"
    by (simp add: ex_defs createTransactionInTx_def toTransactionModel_def insert_transaction_def reserveUTXOs_def
        markReservedOutputsAsNotSpendable_def staleIndexedOutputs_def update_where_def count_where_def)
  then obtain stale where op: "createTransactionInTx std_lib ?nt ex_db = Inl (StaleUTXOIndexError stale)" ..
  have "new_tx_ok ?nt ex_db" "\<forall>x \<in> set (nt_SpentOutputIDs ?nt). x < db_NextOutputID ex_db"
    by (simp_all add: ex_defs new_tx_ok_def)
  from stale_report_covers_healthy_outputs [OF ex_db_inv std_convert_ok this op] op show ?thesis
    by (auto simp: ex_defs)
qed

end
