(* ===== verification/Abort_Properties.thy ===== *)
theory Abort_Properties
  imports Storage_Properties
begin

text \<open>
  The properties of aborting, broadcasting and giving up: what an abort gives back, that it is refused for
  good once there is evidence of a broadcast, that claiming for broadcast and parking exclude each other,
  the budget of rebroadcasts, and that a release fires at most once.
\<close>

section \<open>Aborting\<close>

lemmas ex_abort_defs = ex_defs AbortAction_def findTransactionForAbort_def FindTransactionByReference_def first_by_def
  validateTx_def validateTxStatusForAbort_def ShouldTxOutputsBeUnspent_def abortTx_def parkKnownTxForAbort_def
  flow_bind_def in_db_tx_def ParkUnbroadcastKnownTx_def parkable_def KnownTxNeverPostedStatuses_def addTxNotes_def
  abort_uow_def RecreateSpentOutputs_def tx_wrap_def recreateSpentOutputs_def getOutputsWithTxStatus_def isChangeDaoScope_def
  makeOutputsSpendable_def createUTXOsFromOutputs_def newUserUTXO_def UnreserveUTXOs_def UnreserveUTXOsByTransactionID_def
  MarkCreatedOutputsAsNotSpendable_def UpdateTransactionStatusByID_def count_where_def update_where_def
  txStatusesAbortableBeforeBroadcast_def Let_def ToUTXOStatus_def EstimatedInputSizeByType_def

lemma std_convert_500: "must_ConvertToUInt64 std_lib 500 = Some 500"
  by (simp add: std_lib_def)

text \<open>The rows a claim for broadcast changes.\<close>

lemma Claim_updates:
  assumes "ClaimKnownTxsForBroadcast ids db = Inr (cs, db')"
  shows "db_KnownTxs db' = update_where
    (\<lambda>k. kt_TxID k \<in> set ids \<and> kt_Status k \<in> set KnownTxClaimableForBroadcastStatuses)
    (\<lambda>k. k\<lparr>kt_Status := ProvenTxStatusSending, kt_WasBroadcast := True\<rparr>) (db_KnownTxs db)"
proof (cases "\<exists>k \<in> set (db_KnownTxs db). kt_TxID k \<in> set ids \<and> kt_Status k \<in> set KnownTxClaimableForBroadcastStatuses")
  case True
  with assms show ?thesis
    by (auto simp: ClaimKnownTxsForBroadcast_def Let_def update_where_def filter_empty_conv split: if_splits)
next
  case False
  with assms have "db' = db"
    by (auto simp: ClaimKnownTxsForBroadcast_def Let_def filter_empty_conv split: if_splits)
  with False show ?thesis by (subst update_where_none) auto
qed

lemma Claim_flags:
  assumes cl: "ClaimKnownTxsForBroadcast ids db = Inr (cs, db')" and "x \<in> set cs"
  obtains k where "k \<in> set (db_KnownTxs db')" and "kt_TxID k = x" and "kt_WasBroadcast k"
proof -
  from assms Claim_mem [OF cl, of x] obtain l where l: "l \<in> set (db_KnownTxs db)" "kt_TxID l = x"
    "kt_Status l \<in> set KnownTxClaimableForBroadcastStatuses" "x \<in> set ids" by blast
  then have "l\<lparr>kt_Status := ProvenTxStatusSending, kt_WasBroadcast := True\<rparr> \<in> set (db_KnownTxs db')"
    unfolding Claim_updates [OF cl] in_update_where by (intro bexI [of _ l]) auto
  from that [OF this] l(2) show thesis by simp
qed

text \<open>A successful abort runs its unit of work after the KnownTx of a signed transaction was parked.\<close>

lemma abort_prepared:
  assumes inv: "db_inv db" and ab: "abortTx lib t db = (Inr x, db')"
  obtains db1 where "abort_uow lib (tr_ID t) db1 = Inr ((), db')" and "db_inv db1"
    and "db_Transactions db1 = db_Transactions db" and "db_Outputs db1 = db_Outputs db"
    and "\<forall>k \<in> set (db_KnownTxs db1). tr_TxID t = Some (kt_TxID k) \<longrightarrow> kt_Status k = ProvenTxStatusInvalid"
  using ab
proof (cases rule: abortTx_Inr)
  case unsigned
  then show thesis using that [of db] inv by simp
next
  case (parked txID ns db1)
  note p = Park_result [OF parked(2)]
  from p(1) obtain k where k: "k \<in> set (db_KnownTxs db)" "parkable txID k" by blast
  have "kt_Status k' = ProvenTxStatusInvalid" if "k' \<in> set (db_KnownTxs db1)" "kt_TxID k' = txID" for k'
    by (rule parked_not_claimable [OF db_invD(4) [OF inv] k p(3) that])
  then have "\<forall>k \<in> set (db_KnownTxs db1). tr_TxID t = Some (kt_TxID k) \<longrightarrow> kt_Status k = ProvenTxStatusInvalid"
    using parked(1) by auto
  then show thesis using that [OF parked(3) ParkUnbroadcastKnownTx_inv [OF inv parked(2)] p(4,5)] by blast
qed

text \<open>A failed abort may have parked the KnownTx, but leaves transactions and outputs alone.\<close>

lemma abortTx_Inl_frame:
  assumes "abortTx lib t db = (res, db')" and "res = Inl e"
  shows "db_Outputs db' = db_Outputs db \<and> db_Transactions db' = db_Transactions db"
proof (cases "tr_TxID t")
  case None
  with assms show ?thesis by (auto simp: abortTx_def in_db_tx_def split: sum.splits)
next
  case (Some txID)
  obtain res1 db1 where p: "parkKnownTxForAbort t txID db = (res1, db1)" by (metis surj_pair)
  from p show ?thesis
  proof (cases rule: parkKnownTxForAbort_cases)
    case (refused e')
    with assms Some p show ?thesis by (auto simp: abortTx_def flow_bind_def)
  next
    case (parked ns)
    with assms Some p Park_result(4,5) [OF parked(2)] show ?thesis
      by (auto simp: abortTx_def flow_bind_def in_db_tx_def split: sum.splits)
  qed
qed

text \<open>What a successful abort does to the transaction it found.\<close>

lemma abort_action_effect:
  assumes inv: "db_inv db" and lib: "convert_ok lib" and op: "AbortAction lib user ref db = (Inr b, db')"
    and found: "findTransactionForAbort user ref db = Some t"
  shows "db_Outputs db' = map (released (tr_ID t)) (db_Outputs db)"
    and "db_Transactions db' = update_where (\<lambda>s. tr_ID s = tr_ID t) (\<lambda>s. s\<lparr>tr_Status := TxStatusAborted\<rparr>) (db_Transactions db)"
    and "\<forall>u \<in> set (db_UserUTXOs db'). uu_ReservedByID u \<noteq> Some (tr_ID t)"
proof -
  from AbortAction_Inr [OF op] found have st: "tr_Status t \<in> set txStatusesAbortableBeforeBroadcast"
    and free: "ShouldTxOutputsBeUnspent (tr_ID t) db = Inr ()" and ab: "abortTx lib t db = (Inr (), db')" by fastforce+
  note mem = findTransactionForAbort_mem [OF found]
  from abort_prepared [OF inv ab] obtain db1 where uow: "abort_uow lib (tr_ID t) db1 = Inr ((), db')" and inv1: "db_inv db1"
    and same: "db_Transactions db1 = db_Transactions db" "db_Outputs db1 = db_Outputs db" .
  show "db_Outputs db' = map (released (tr_ID t)) (db_Outputs db)"
    using abort_uow_outputs [OF uow] free same by (simp add: ShouldTxOutputsBeUnspent_def)
  have "update_where (\<lambda>s. tr_ID s = tr_ID t \<and> tr_Status s \<in> set txStatusesAbortableBeforeBroadcast) f (db_Transactions db) =
      update_where (\<lambda>s. tr_ID s = tr_ID t) f (db_Transactions db)" for f
    using mem st db_invD(1) [OF inv] by (auto simp: update_where_def txs_ok_def distinct_map inj_on_def)
  then show "db_Transactions db' = update_where (\<lambda>s. tr_ID s = tr_ID t) (\<lambda>s. s\<lparr>tr_Status := TxStatusAborted\<rparr>) (db_Transactions db)"
    using abort_uow_cases [OF uow] same by metis
  show "\<forall>u \<in> set (db_UserUTXOs db'). uu_ReservedByID u \<noteq> Some (tr_ID t)"
    using abort_uow_unreserved [OF inv1 lib uow] by (simp add: unreserved_def)
qed

text \<open>C16. A successful abort finds an outgoing transaction of the user that is not broadcast yet and whose
  outputs are unspent; it gives back exactly the outputs that transaction had claimed, withdraws the
  outputs it had created, leaves every other output alone, releases all its reservations, puts the
  change among the released outputs back into the spendable index, and moves the transaction to the
  status aborted. If the transaction was signed, its KnownTx is parked as invalid, so that a claim for
  broadcast does not obtain it.\<close>

theorem AbortAction_effect:
  assumes inv: "db_inv db" and lib: "convert_ok lib" and op: "AbortAction lib user ref db = (Inr b, db')"
  shows "\<exists>t \<in> set (db_Transactions db). tr_UserID t = user \<and> tr_IsOutgoing t \<and>
    tr_Status t \<in> set txStatusesAbortableBeforeBroadcast \<and>
    db_Outputs db' = map (released (tr_ID t)) (db_Outputs db) \<and>
    db_Transactions db' = update_where (\<lambda>s. tr_ID s = tr_ID t) (\<lambda>s. s\<lparr>tr_Status := TxStatusAborted\<rparr>) (db_Transactions db) \<and>
    (\<forall>u \<in> set (db_UserUTXOs db'). uu_ReservedByID u \<noteq> Some (tr_ID t)) \<and>
    (\<forall>r \<in> set (db_Outputs db). \<forall>s \<in> set (db_Transactions db). or_SpentBy r = Some (tr_ID t) \<longrightarrow> isChangeDaoScope r \<longrightarrow>
       tr_ID s = or_TransactionID r \<longrightarrow> ToUTXOStatus (tr_Status s) \<noteq> UTXOStatusUnknown \<longrightarrow>
       (\<exists>u \<in> set (db_UserUTXOs db'). uu_UserID u = or_UserID r \<and> uu_OutputID u = or_ID r \<and> uu_ReservedByID u = None)) \<and>
    (\<forall>txID. tr_TxID t = Some txID \<longrightarrow> (\<forall>ids cs db''. ClaimKnownTxsForBroadcast ids db' = Inr (cs, db'') \<longrightarrow> txID \<notin> set cs))"
proof -
  from AbortAction_Inr [OF op] obtain t where find: "findTransactionForAbort user ref db = Some t" and out: "tr_IsOutgoing t"
    and st: "tr_Status t \<in> set txStatusesAbortableBeforeBroadcast" and free: "ShouldTxOutputsBeUnspent (tr_ID t) db = Inr ()"
    and ab: "abortTx lib t db = (Inr (), db')" .
  note mem = findTransactionForAbort_mem [OF find]
  from abort_prepared [OF inv ab] obtain db1 where uow: "abort_uow lib (tr_ID t) db1 = Inr ((), db')" and inv1: "db_inv db1"
    and same: "db_Transactions db1 = db_Transactions db" "db_Outputs db1 = db_Outputs db"
    and invalid: "\<forall>k \<in> set (db_KnownTxs db1). tr_TxID t = Some (kt_TxID k) \<longrightarrow> kt_Status k = ProvenTxStatusInvalid" .
  note abort_action_effect [OF inv lib op find]
  moreover have "txID \<notin> set cs" if "tr_TxID t = Some txID" and cl: "ClaimKnownTxsForBroadcast ids db' = Inr (cs, db'')" for txID ids cs db''
  proof -
    have "kt_Status k' = ProvenTxStatusInvalid" if "k' \<in> set (db_KnownTxs db')" "kt_TxID k' = txID" for k'
      using invalid \<open>tr_TxID t = Some txID\<close> frame_known_abort(2) [OF uow] that by simp
    then show ?thesis using Claim_mem [OF cl] by (auto simp: KnownTxClaimableForBroadcastStatuses_def)
  qed
  moreover have "\<exists>u \<in> set (db_UserUTXOs db'). uu_UserID u = or_UserID r \<and> uu_OutputID u = or_ID r \<and> uu_ReservedByID u = None"
    if "r \<in> set (db_Outputs db)" "s \<in> set (db_Transactions db)" "or_SpentBy r = Some (tr_ID t)" "isChangeDaoScope r"
      "tr_ID s = or_TransactionID r" "ToUTXOStatus (tr_Status s) \<noteq> UTXOStatusUnknown" for r s
    using abort_uow_index [OF inv1 uow _ that(3,4) _ that(5,6)] that(1,2) same by auto
  ultimately show ?thesis using mem out st by (intro bexI [of _ t]) blast+
qed

theorem AbortAction_effect_witness:
  "\<exists>db'. AbortAction std_lib 1 ''r2'' ex_db = (Inr True, db') \<and>
     db_Outputs db' = map (released 2) (db_Outputs ex_db)"
proof -
  have "\<exists>db'. AbortAction std_lib 1 ''r2'' ex_db = (Inr True, db')"
    using std_convert_ok
    by (simp add: ex_abort_defs P2PKH_sizes [OF go_lib_okD(1) [OF std_lib_ok]] std_convert_500)
  then obtain db' where op: "AbortAction std_lib 1 ''r2'' ex_db = (Inr True, db')" ..
  from AbortAction_effect [OF ex_db_inv std_convert_ok op] obtain t where t: "t \<in> set (db_Transactions ex_db)"
    "tr_Status t \<in> set txStatusesAbortableBeforeBroadcast" "db_Outputs db' = map (released (tr_ID t)) (db_Outputs ex_db)" by blast
  then have "tr_ID t = 2" by (auto simp: ex_defs txStatusesAbortableBeforeBroadcast_def)
  with t(3) op show ?thesis by auto
qed

lemma evidence_blocks_abort:
  assumes inv: "db_inv db" and k: "k \<in> set (db_KnownTxs db)" "kt_WasBroadcast k"
    and find: "findTransactionForAbort user ref db = Some t" "tr_TxID t = Some (kt_TxID k)"
  shows "\<exists>e. AbortAction lib user ref db = (Inl e, db)"
proof -
  let ?x = "kt_TxID k"
  have none: "\<not> parkable ?x l" if "l \<in> set (db_KnownTxs db)" for l
    using that k db_invD(4) [OF inv] by (auto simp: parkable_def known_ok_def distinct_map inj_on_def)
  obtain res db1 where p: "parkKnownTxForAbort t ?x db = (res, db1)" by (metis surj_pair)
  from p obtain e where "res = Inl e" "db1 = db"
  proof (cases rule: parkKnownTxForAbort_cases)
    case (parked ns)
    with Park_result(1) [OF parked(2)] none show thesis by blast
  qed (use that in blast)
  with p find show ?thesis
    by (auto simp: AbortAction_def abortTx_def flow_bind_def split: sum.splits)
qed

text \<open>C17. Once a KnownTx carries the broadcast flag, no abort of a transaction with its txid succeeds, in no
  state the storage reaches from there by any interleaving of steps; a refused abort changes nothing.\<close>

theorem broadcast_evidence_blocks_abort:
  assumes inv: "db_inv db" and lib: "convert_ok lib" and k: "k \<in> set (db_KnownTxs db)" "kt_WasBroadcast k"
    and run: "(storage_step lib)\<^sup>*\<^sup>* db db'"
    and find: "findTransactionForAbort user ref db' = Some t" "tr_TxID t = Some (kt_TxID k)"
  shows "\<exists>e. AbortAction lib user ref db' = (Inl e, db')"
proof -
  have "db_inv db'" and later: "known_later (db_KnownTxs db) (db_KnownTxs db')"
    using storage.run_good [OF run] storage.run_later [OF run] inv lib by (auto simp: db_later_def)
  moreover from known_laterD [OF later k] obtain k' where
    "k' \<in> set (db_KnownTxs db')" "kt_TxID k' = kt_TxID k" "kt_WasBroadcast k'" .
  ultimately show ?thesis using evidence_blocks_abort [of db' k' user ref t] find by simp
qed

theorem broadcast_evidence_blocks_abort_witness:
  "\<exists>e. AbortAction std_lib 1 ''r1'' ex_db = (Inl e, ex_db)"
proof (rule broadcast_evidence_blocks_abort [OF ex_db_inv std_convert_ok _ _ rtranclp.rtrancl_refl])
  show "ex_known ''aa'' ProvenTxStatusCompleted True \<in> set (db_KnownTxs ex_db)" by (simp add: ex_defs)
  show "kt_WasBroadcast (ex_known ''aa'' ProvenTxStatusCompleted True)" by (simp add: ex_defs)
  show "findTransactionForAbort 1 ''r1'' ex_db = Some (ex_tx 1 TxStatusCompleted ''r1'' (Some ''aa''))"
    by (simp add: ex_defs findTransactionForAbort_def FindTransactionByReference_def first_by_def)
  show "tr_TxID (ex_tx 1 TxStatusCompleted ''r1'' (Some ''aa'')) = Some (kt_TxID (ex_known ''aa'' ProvenTxStatusCompleted True))"
    by (simp add: ex_defs)
qed

section \<open>Claiming for broadcast against parking\<close>



section \<open>Unsigned actions can always be released\<close>

definition change_is_P2PKH :: "output_row list \<Rightarrow> bool" where
  "change_is_P2PKH outs \<longleftrightarrow> (\<forall>r \<in> set outs. isChangeDaoScope r \<longrightarrow> or_Type r = OutputTypeP2PKH)"

lemma change_is_P2PKH_released: "change_is_P2PKH outs \<Longrightarrow> change_is_P2PKH (map (released i) outs)"
  by (auto simp: change_is_P2PKH_def released_def isChangeDaoScope_def)

lemma newUTXOs_loop_succeeds:
  assumes lib: "convert_ok lib"
    and rs: "\<forall>(r, st) \<in> set rs. isChangeDaoScope r \<and> or_Type r = OutputTypeP2PKH \<and> is_i64 (or_Satoshis r)"
  shows "\<exists>us. newUTXOs_loop lib now rs = Inr us"
  using rs
proof (induction rs)
  case (Cons p rs)
  obtain r st where p: "p = (r, st)" by (cases p)
  have "isChangeDaoScope r" "or_Type r = OutputTypeP2PKH" "is_i64 (or_Satoshis r)" using Cons.prems p by auto
  then obtain u where "newUserUTXO lib now r (ToUTXOStatus st) = Inr u"
    using lib by (auto simp: newUserUTXO_def isChangeDaoScope_def EstimatedInputSizeByType_def convert_ok_def)
  moreover from Cons obtain us where "newUTXOs_loop lib now rs = Inr us" by auto
  ultimately show ?case by (simp add: p Let_def)
qed simp

lemma abort_uow_succeeds:
  assumes inv: "db_inv db" and lib: "convert_ok lib" and p2pkh: "change_is_P2PKH (db_Outputs db)"
    and t: "t \<in> set (db_Transactions db)" "tr_Status t \<in> set txStatusesAbortableBeforeBroadcast"
  shows "\<exists>db'. abort_uow lib (tr_ID t) db = Inr ((), db')"
proof -
  let ?i = "tr_ID t"
  define db0 where "db0 = UnreserveUTXOs ?i db"
  have db0: "db_Outputs db0 = db_Outputs db" "db_Transactions db0 = db_Transactions db" "db_Now db0 = db_Now db"
    by (simp_all add: db0_def UnreserveUTXOs_def)
  have sound: "\<forall>(r, st) \<in> set (getOutputsWithTxStatus (\<lambda>r. or_SpentBy r = Some ?i \<and> isChangeDaoScope r) db0).
      isChangeDaoScope r \<and> or_Type r = OutputTypeP2PKH \<and> is_i64 (or_Satoshis r)"
    using p2pkh db_invD(2) [OF inv]
    by (auto simp: getOutputsWithTxStatus_def db0 change_is_P2PKH_def outs_ok_def out_ok_def)
  have "\<exists>db1. RecreateSpentOutputs lib ?i db0 = Inr ((), db1) \<and> db_Transactions db1 = db_Transactions db"
    using newUTXOs_loop_succeeds [OF lib sound, of "db_Now db"]
    by (auto simp: RecreateSpentOutputs_def recreateSpentOutputs_def createUTXOsFromOutputs_def makeOutputsSpendable_def
        tx_wrap_def db0 Let_def)
  then obtain db1 where rec: "RecreateSpentOutputs lib ?i db0 = Inr ((), db1)" "db_Transactions db1 = db_Transactions db" by blast
  have "count_where (\<lambda>s. tr_ID s = ?i \<and> tr_Status s \<in> set [TxStatusUnprocessed, TxStatusUnsigned, TxStatusNoSend,
      TxStatusNonFinal, TxStatusUnfail]) (db_Transactions db) \<noteq> 0"
    using t by (auto simp: count_where_0 txStatusesAbortableBeforeBroadcast_def)
  then show ?thesis
    using rec by (simp add: abort_uow_def db0_def UpdateTransactionStatusByID_def MarkCreatedOutputsAsNotSpendable_def)
qed

lemma abort_succeeds:
  assumes inv: "db_inv db" and lib: "convert_ok lib" and p2pkh: "change_is_P2PKH (db_Outputs db)"
    and find: "findTransactionForAbort user ref db = Some t"
    and t: "tr_IsOutgoing t" "tr_TxID t = None" "tr_Status t \<in> set txStatusesAbortableBeforeBroadcast"
    and free: "\<forall>r \<in> set (db_Outputs db). or_TransactionID r = tr_ID t \<longrightarrow> or_SpentBy r = None"
  shows "\<exists>db'. AbortAction lib user ref db = (Inr True, db')"
proof -
  from abort_uow_succeeds [OF inv lib p2pkh _ t(3)] findTransactionForAbort_mem [OF find] obtain db' where
    "abort_uow lib (tr_ID t) db = Inr ((), db')" by blast
  moreover have "validateTx t db = Inr ()"
    using t free by (auto simp: validateTx_def validateTxStatusForAbort_def ShouldTxOutputsBeUnspent_def
        txStatusesAbortableBeforeBroadcast_def)
  ultimately show ?thesis using find t(2) by (simp add: AbortAction_def abortTx_def in_db_tx_def)
qed

text \<open>An outgoing action of the user that was never signed and whose outputs are unspent can always be aborted:
  nothing in the database can make the release of its inputs fail.\<close>

theorem unsigned_action_can_be_aborted:
  assumes inv: "db_inv db" and lib: "convert_ok lib" and p2pkh: "change_is_P2PKH (db_Outputs db)"
    and find: "findTransactionForAbort user ref db = Some t"
    and t: "tr_IsOutgoing t" "tr_TxID t = None" "tr_Status t \<in> set txStatusesAbortableBeforeBroadcast"
    and free: "\<forall>r \<in> set (db_Outputs db). or_TransactionID r = tr_ID t \<longrightarrow> or_SpentBy r = None"
  shows "\<exists>db'. AbortAction lib user ref db = (Inr True, db')"
  using abort_succeeds [OF assms] .

lemma ex_db3_abortable:
  "findTransactionForAbort 1 ''r3'' ex_db3 = Some (ex_tx 3 TxStatusUnsigned ''r3'' None)"
  "change_is_P2PKH (db_Outputs ex_db3)"
  "\<forall>r \<in> set (db_Outputs ex_db3). or_TransactionID r = 3 \<longrightarrow> or_SpentBy r = None"
  "ex_tx 3 TxStatusUnsigned ''r3'' None \<in> set (db_Transactions ex_db3)"
  by (simp_all add: ex_db3_def ex_defs findTransactionForAbort_def FindTransactionByReference_def first_by_def change_is_P2PKH_def)

theorem unsigned_action_can_be_aborted_witness:
  "\<exists>db'. AbortAction std_lib 1 ''r3'' ex_db3 = (Inr True, db')"
  by (rule unsigned_action_can_be_aborted [OF ex_db3_inv std_convert_ok ex_db3_abortable(2,1)])
    (use ex_db3_abortable(3) in \<open>simp_all add: ex_tx_def txStatusesAbortableBeforeBroadcast_def\<close>)

section \<open>The sweep of abandoned actions\<close>

text \<open>What one abort of the sweep may change.\<close>

lemma abort_abandoned_one_frame:
  fixes j :: nat
  assumes inv: "db_inv db" and lib: "convert_ok lib"
  defines "db' \<equiv> abort_abandoned_one lib j db"
  shows "db_inv db'" and "db_Outputs db' = db_Outputs db \<or> db_Outputs db' = map (released j) (db_Outputs db)"
    and "db_Transactions db' = db_Transactions db \<or>
      db_Transactions db' = update_where (\<lambda>s. tr_ID s = j \<and> tr_Status s \<in> set txStatusesAbortableBeforeBroadcast)
        (\<lambda>s. s\<lparr>tr_Status := TxStatusAborted\<rparr>) (db_Transactions db)"
proof -
  have "db_inv db' \<and> (db_Outputs db' = db_Outputs db \<or> db_Outputs db' = map (released j) (db_Outputs db)) \<and>
    (db_Transactions db' = db_Transactions db \<or>
      db_Transactions db' = update_where (\<lambda>s. tr_ID s = j \<and> tr_Status s \<in> set txStatusesAbortableBeforeBroadcast)
        (\<lambda>s. s\<lparr>tr_Status := TxStatusAborted\<rparr>) (db_Transactions db))"
  proof (cases "ShouldTxOutputsBeUnspent j db = Inr () \<and> (\<exists>t. findTransactionByID j db = Inr t)")
    case False
    then show ?thesis using inv by (auto simp: db'_def abort_abandoned_one_def split: sum.splits)
  next
    case True
    then obtain t where free: "ShouldTxOutputsBeUnspent j db = Inr ()" and t: "findTransactionByID j db = Inr t" by blast
    have j: "tr_ID t = j" using t
      by (auto simp: findTransactionByID_def split: list.splits dest!: filter_ConsD)
    obtain res db1 where ab: "abortTx lib t db = (res, db1)" by (metis surj_pair)
    have db': "db' = db1" using free t ab by (simp add: db'_def abort_abandoned_one_def)
    have inv1: "db_inv db1" using abortTx_inv [OF inv lib, of t] ab by simp
    show ?thesis
    proof (cases res)
      case (Inl e)
      with ab have "db_Outputs db1 = db_Outputs db \<and> db_Transactions db1 = db_Transactions db"
        by (rule abortTx_Inl_frame)
      with inv1 db' show ?thesis by simp
    next
      case (Inr x)
      with ab have ok: "abortTx lib t db = (Inr x, db1)" by simp
      from abort_prepared [OF inv ok] obtain db2 where uow: "abort_uow lib j db2 = Inr ((), db1)"
        and same: "db_Transactions db2 = db_Transactions db" "db_Outputs db2 = db_Outputs db" by (metis j)
      have "db_Outputs db1 = map (released j) (db_Outputs db)"
        using abort_uow_outputs [OF uow] free same by (simp add: ShouldTxOutputsBeUnspent_def)
      with abort_uow_cases [OF uow] same inv1 db' show ?thesis by metis
    qed
  qed
  then show "db_inv db'" "db_Outputs db' = db_Outputs db \<or> db_Outputs db' = map (released j) (db_Outputs db)"
    "db_Transactions db' = db_Transactions db \<or>
      db_Transactions db' = update_where (\<lambda>s. tr_ID s = j \<and> tr_Status s \<in> set txStatusesAbortableBeforeBroadcast)
        (\<lambda>s. s\<lparr>tr_Status := TxStatusAborted\<rparr>) (db_Transactions db)" by blast+
qed

text \<open>An action the sweep can release, and one it has released.\<close>

definition pending :: "nat \<Rightarrow> database \<Rightarrow> bool" where
  "pending i db \<longleftrightarrow> db_inv db \<and> change_is_P2PKH (db_Outputs db) \<and>
     (\<exists>t \<in> set (db_Transactions db). tr_ID t = i \<and> tr_TxID t = None \<and> tr_Status t \<in> set txStatusesAbortableBeforeBroadcast) \<and>
     (\<forall>r \<in> set (db_Outputs db). or_TransactionID r = i \<longrightarrow> or_SpentBy r = None)"

definition aborted :: "nat \<Rightarrow> database \<Rightarrow> bool" where
  "aborted i db \<longleftrightarrow> db_inv db \<and> (\<exists>t \<in> set (db_Transactions db). tr_ID t = i \<and> tr_Status t = TxStatusAborted)"

lemma sweep_other: "convert_ok lib \<Longrightarrow> pending i db \<Longrightarrow> j \<noteq> i \<Longrightarrow> pending i (abort_abandoned_one lib j db)"
  using abort_abandoned_one_frame [of db lib j]
  by (auto simp: pending_def change_is_P2PKH_released released_def split: if_splits intro!: update_where_keeps bexI)

lemma sweep_hit:
  assumes lib: "convert_ok lib" and pend: "pending i db"
  shows "aborted i (abort_abandoned_one lib i db)"
proof -
  from pend obtain t where inv: "db_inv db" and t: "t \<in> set (db_Transactions db)" "tr_ID t = i" "tr_TxID t = None"
    "tr_Status t \<in> set txStatusesAbortableBeforeBroadcast" and free: "ShouldTxOutputsBeUnspent i db = Inr ()"
    and p2pkh: "change_is_P2PKH (db_Outputs db)"
    by (auto simp: pending_def ShouldTxOutputsBeUnspent_def)
  have "filter (\<lambda>s. tr_ID s = i) (db_Transactions db) \<noteq> []" using t by (auto simp: filter_empty_conv)
  then obtain s ss where f: "filter (\<lambda>s. tr_ID s = i) (db_Transactions db) = s # ss" by (cases "filter (\<lambda>s. tr_ID s = i) (db_Transactions db)") auto
  have "s \<in> set (db_Transactions db)" "tr_ID s = i" using filter_ConsD [OF f] by simp_all
  with t db_invD(1) [OF inv] have "s = t" by (auto simp: txs_ok_def distinct_map inj_on_def)
  with f have find: "findTransactionByID i db = Inr t" by (simp add: findTransactionByID_def)
  from abort_uow_succeeds [OF inv lib p2pkh t(1,4)] obtain db' where uow: "abort_uow lib i db = Inr ((), db')" by (auto simp: t(2))
  then have "abort_abandoned_one lib i db = db'"
    using free find t by (simp add: abort_abandoned_one_def abortTx_def in_db_tx_def)
  moreover have "t\<lparr>tr_Status := TxStatusAborted\<rparr> \<in> set (db_Transactions db')"
  proof (rule abort_uow_cases [OF uow])
    assume "db_Transactions db' = update_where (\<lambda>t. tr_ID t = i \<and> tr_Status t \<in> set txStatusesAbortableBeforeBroadcast)
      (\<lambda>t. t\<lparr>tr_Status := TxStatusAborted\<rparr>) (db_Transactions db)"
    then show ?thesis using update_where_changes [OF t(1), where f = "\<lambda>t. t\<lparr>tr_Status := TxStatusAborted\<rparr>"] t(2,4) by simp
  qed
  ultimately show ?thesis
    using abort_abandoned_one_frame(1) [OF inv lib, of i] t(2)
    by (auto simp: aborted_def intro!: bexI [of _ "t\<lparr>tr_Status := TxStatusAborted\<rparr>"])
qed

lemma sweep_stays: "convert_ok lib \<Longrightarrow> aborted i db \<Longrightarrow> aborted i (abort_abandoned_one lib j db)"
  using abort_abandoned_one_frame [of db lib j]
  by (auto simp: aborted_def txStatusesAbortableBeforeBroadcast_def intro!: update_where_keeps bexI)

lemma sweep_all:
  assumes lib: "convert_ok lib" and "i \<in> set ids" and "pending i db"
  shows "aborted i (fold (abort_abandoned_one lib) ids db)"
proof -
  have stays: "aborted i (fold (abort_abandoned_one lib) js db')" if "aborted i db'" for js db'
    using that by (induction js arbitrary: db') (auto intro: sweep_stays [OF lib])
  from assms(2,3) show ?thesis
  proof (induction ids arbitrary: db)
    case (Cons j js)
    then show ?case by (cases "j = i") (auto intro: stays sweep_hit sweep_other lib)
  qed simp
qed

text \<open>The pages the sweep reads are the first ten thousand abandoned transactions.\<close>

definition abandoned_ids :: "int \<Rightarrow> database \<Rightarrow> nat list" where
  "abandoned_ids until db = FindTransactionIDsForAbort (Some until) None db"

lemma abandoned_page:
  assumes "pg_Limit p = 1000" and "0 \<le> pg_Offset p"
  shows "FindTransactionIDsForAbort (Some until) (Some p) db = take 1000 (drop (nat (pg_Offset p)) (abandoned_ids until db))"
  using assms by (simp add: FindTransactionIDsForAbort_def abandoned_ids_def ApplyDefaults_def sql_page_def Let_def
      take_map drop_map)

lemma abandoned_pages_eq:
  assumes "pg_Limit p = 1000" and "0 \<le> pg_Offset p" and "pg_Offset p + 1000 * int n < 2 ^ 63"
  shows "abandoned_pages n until p db = take (1000 * n) (drop (nat (pg_Offset p)) (abandoned_ids until db))"
  using assms
proof (induction n arbitrary: p)
  case (Suc n)
  let ?rows = "drop (nat (pg_Offset p)) (abandoned_ids until db)"
  have off: "pg_Offset (Next p) = pg_Offset p + 1000" "pg_Limit (Next p) = 1000"
    using Suc.prems by (simp_all add: Next_def wrap_i64_id is_i64_def)
  then have rest: "abandoned_pages n until (Next p) db = take (1000 * n) (drop 1000 ?rows)"
    using Suc.IH [of "Next p"] Suc.prems by (simp add: nat_add_distrib add.commute)
  have "take (1000 * Suc n) ?rows = take 1000 ?rows @ take (1000 * n) (drop 1000 ?rows)"
    using take_add [of 1000 "1000 * n" ?rows] by simp
  with rest show ?case
    using abandoned_page [OF Suc.prems(1,2)] by (auto simp: Let_def failAbandonedItemsPerPage_def)
qed simp

text \<open>C19. The sweep of abandoned actions releases what it finds: every action among the first ten thousand
  abandoned ones that was never signed and whose outputs are unspent is aborted when the sweep returns,
  however many other aborts of the sweep fail or succeed before it.\<close>

theorem AbortAbandoned_releases:
  assumes inv: "db_inv db" and lib: "convert_ok lib" and p2pkh: "change_is_P2PKH (db_Outputs db)"
    and listed: "i \<in> set (take 10000 (FindTransactionIDsForAbort (Some (db_Now db - age)) None db))"
    and t: "t \<in> set (db_Transactions db)" "tr_ID t = i" "tr_TxID t = None"
    and free: "\<forall>r \<in> set (db_Outputs db). or_TransactionID r = i \<longrightarrow> or_SpentBy r = None"
  shows "\<exists>s \<in> set (db_Transactions (AbortAbandoned lib age db)). tr_ID s = i \<and> tr_Status s = TxStatusAborted"
proof -
  let ?until = "db_Now db - age"
  have "tr_Status s \<in> {TxStatusUnsigned, TxStatusUnprocessed}" if "s \<in> set (db_Transactions db)" "tr_ID s = i" for s
  proof -
    from in_set_takeD [OF listed] obtain u where "u \<in> set (db_Transactions db)" "tr_ID u = i" "abandoned db u"
      by (auto simp: FindTransactionIDsForAbort_def)
    with that db_invD(1) [OF inv] have "abandoned db s" by (auto simp: txs_ok_def distinct_map inj_on_def)
    then show ?thesis by (auto simp: abandoned_def)
  qed
  then have "tr_Status t \<in> set txStatusesAbortableBeforeBroadcast" using t by (auto simp: txStatusesAbortableBeforeBroadcast_def)
  with inv p2pkh t free have pend: "pending i db" by (auto simp: pending_def)
  have "i \<in> set (abandoned_pages failAbandonedMaxPages ?until
      \<lparr>pg_Limit = int failAbandonedItemsPerPage, pg_Offset = 0, pg_Sort = ''asc'', pg_SortBy = '''', pg_ThenBy = ''''\<rparr> db)"
    using listed by (subst abandoned_pages_eq) (simp_all add: failAbandonedItemsPerPage_def failAbandonedMaxPages_def abandoned_ids_def)
  from sweep_all [OF lib this pend] show ?thesis by (simp add: AbortAbandoned_def Let_def aborted_def)
qed

theorem AbortAbandoned_releases_witness:
  "\<exists>s \<in> set (db_Transactions (AbortAbandoned std_lib 5 ex_db3)). tr_ID s = 3 \<and> tr_Status s = TxStatusAborted"
proof (rule AbortAbandoned_releases [OF ex_db3_inv std_convert_ok ex_db3_abortable(2) _ ex_db3_abortable(4)])
  show "3 \<in> set (take 10000 (FindTransactionIDsForAbort (Some (db_Now ex_db3 - 5)) None ex_db3))"
    by (simp add: ex_db3_def ex_defs FindTransactionIDsForAbort_def abandoned_def known_statuses_def)
qed (use ex_db3_abortable(3) in \<open>simp_all add: ex_tx_def\<close>)

section \<open>Creating and aborting\<close>

text \<open>An abort right after the creation.\<close>

lemma create_abort_restores:
  assumes inv: "db_inv db" and lib: "convert_ok lib" and nt: "new_tx_ok nt db"
    and old: "\<forall>x \<in> set (nt_SpentOutputIDs nt). x < db_NextOutputID db"
    and create: "createTransactionInTx lib nt db = Inr (i, db1)"
    and find: "findTransactionForAbort user ref db1 = Some t" "tr_ID t = i"
    and abort: "AbortAction lib user ref db1 = (Inr b, db2)"
  shows "\<exists>os. db_Outputs db2 = map (\<lambda>r. if or_ID r \<in> set (nt_SpentOutputIDs nt) then r\<lparr>or_Spendable := True\<rparr> else r)
      (db_Outputs db) @ os \<and> (\<forall>r \<in> set os. db_NextOutputID db \<le> or_ID r)"
proof -
  let ?ids = "nt_SpentOutputIDs nt"
  note eff = create_effect [OF inv lib nt old create]
  from eff obtain os where outs1: "db_Outputs db1 = map (claimed i ?ids) (db_Outputs db) @ os"
    and fresh: "\<forall>r \<in> set os. db_NextOutputID db \<le> or_ID r" by blast
  from AbortAction_Inr [OF abort] obtain t' where t': "findTransactionForAbort user ref db1 = Some t'"
    and free: "ShouldTxOutputsBeUnspent (tr_ID t') db1 = Inr ()" and ab: "abortTx lib t' db1 = (Inr (), db2)" .
  have i: "tr_ID t' = i" using t' find by simp
  from abort_prepared [OF createTransactionInTx_inv [OF inv lib nt create] ab] obtain db3 where
    uow: "abort_uow lib i db3 = Inr ((), db2)" and same: "db_Outputs db3 = db_Outputs db1" unfolding i .
  have outs2: "db_Outputs db2 = map (released i) (db_Outputs db1)"
    using abort_uow_outputs [OF uow] free same by (simp add: ShouldTxOutputsBeUnspent_def i)
  have "released i (claimed i ?ids r) = (if or_ID r \<in> set ?ids then r\<lparr>or_Spendable := True\<rparr> else r)"
    if r: "r \<in> set (db_Outputs db)" for r
  proof -
    have "tr_ID s \<noteq> i" if "s \<in> set (db_Transactions db)" for s
      using eff that db_invD(1) [OF inv] by (auto simp: txs_ok_def)
    then have "or_SpentBy r \<noteq> Some i" "or_TransactionID r \<noteq> i"
      using db_invD(2) [OF inv] r by (auto simp: outs_ok_def out_ok_def owned_tx_def split: option.splits)
    moreover have "or_SpentBy r = None" if ids: "or_ID r \<in> set ?ids"
    proof -
      from eff ids obtain r' where "r' \<in> set (db_Outputs db)" "or_ID r' = or_ID r" "or_SpentBy r' = None" by blast
      with r db_invD(2) [OF inv] show ?thesis by (auto simp: outs_ok_def distinct_map inj_on_def)
    qed
    ultimately show ?thesis by (auto simp: released_def claimed_def)
  qed
  then have "db_Outputs db2 = map (\<lambda>r. if or_ID r \<in> set ?ids then r\<lparr>or_Spendable := True\<rparr> else r) (db_Outputs db) @
      map (released i) os" by (simp add: outs2 outs1)
  moreover have "\<forall>r \<in> set (map (released i) os). db_NextOutputID db \<le> or_ID r"
    using fresh by (auto simp: released_def)
  ultimately show ?thesis by blast
qed



section \<open>Proof timeouts and the rebroadcast budget\<close>

text \<open>Applying the proof timeouts row by row, as the code does, is one update of exactly the rows that
  timed out, and the returned rows are the timed-out rows as they are afterwards.\<close>

theorem ApplyProofTimeouts_pointwise:
  assumes inv: "db_inv db" and "0 < attempts"
  shows "ApplyProofTimeouts attempts m sts db =
    (map (proofTimeoutUpdates m) (filter (timed_out attempts sts) (db_KnownTxs db)),
     db\<lparr>db_KnownTxs := update_where (timed_out attempts sts) (proofTimeoutUpdates m) (db_KnownTxs db)\<rparr>)"
proof (rule prod_eqI)
  have "distinct (map kt_TxID (db_KnownTxs db))" using db_invD(4) [OF inv] by (simp add: known_ok_def)
  then show "snd (ApplyProofTimeouts attempts m sts db) = snd (map (proofTimeoutUpdates m) (filter (timed_out attempts sts)
      (db_KnownTxs db)), db\<lparr>db_KnownTxs := update_where (timed_out attempts sts) (proofTimeoutUpdates m) (db_KnownTxs db)\<rparr>)"
    using ApplyProofTimeouts_eq assms(2) by simp
qed (use assms(2) in \<open>simp add: ApplyProofTimeouts_def Let_def\<close>)

theorem ApplyProofTimeouts_pointwise_witness:
  "db_inv ex_db \<and> (0::nat) < 1 \<and> snd (ApplyProofTimeouts 1 3 [] ex_db) = ex_db"
  using ApplyProofTimeouts_pointwise [OF ex_db_inv, of 1 3 "[]"] ex_db_inv
  by (simp add: ex_defs timed_out_def)

text \<open>The rebroadcast budget: a transaction that was broadcast and times out again and again is sent to
  rebroadcast until its budget of \<open>m\<close> is used up, the counter never exceeds \<open>m\<close>, and from then on it is
  invalid. A transaction that was never broadcast is invalid after the first timeout.\<close>

theorem rebroadcast_budget:
  assumes "0 < n" and "0 < m" and "m < 2 ^ 64" and "kt_RebroadcastAttempts k \<le> m"
  shows "let k' = (proofTimeoutUpdates m ^^ n) k; posted = (kt_WasBroadcast k \<or> WasBroadcastStatus (kt_Status k)) in
    kt_WasBroadcast k' = posted \<and>
    kt_RebroadcastAttempts k' = (if posted then min m (kt_RebroadcastAttempts k + n) else kt_RebroadcastAttempts k) \<and>
    kt_Status k' = (if posted \<and> kt_RebroadcastAttempts k + n \<le> m then ProvenTxStatusUnsent else ProvenTxStatusInvalid)"
  using assms(1)
proof (induction n rule: nat_induct_non_zero)
  case 1
  then show ?case using assms(2-4) by (auto simp: proofTimeoutUpdates_def Let_def u64_add_def wrap_u64_def)
next
  case (Suc n)
  then show ?case
    using assms(2-4) by (auto simp: proofTimeoutUpdates_def [of m "(proofTimeoutUpdates m ^^ n) k"] Let_def u64_add_def wrap_u64_def
        WasBroadcastStatus_def min_def)
qed

theorem rebroadcast_budget_witness:
  "kt_Status ((proofTimeoutUpdates 2 ^^ 3) (ex_known ''aa'' ProvenTxStatusUnmined True)) = ProvenTxStatusInvalid \<and>
   kt_Status ((proofTimeoutUpdates 2 ^^ 2) (ex_known ''aa'' ProvenTxStatusUnmined True)) = ProvenTxStatusUnsent"
  using rebroadcast_budget [of 3 2 "ex_known ''aa'' ProvenTxStatusUnmined True"]
    rebroadcast_budget [of 2 2 "ex_known ''aa'' ProvenTxStatusUnmined True"]
  by (simp add: ex_known_def zero_known_tx_def Let_def)

section \<open>The release fires at most once\<close>

text \<open>A release acts at most once: after it was disarmed, and after it has fired, no sequence of calls
  that does not arm it again touches the storage, however many errors are reported.\<close>

theorem release_fires_at_most_once:
  assumes "\<And>ref. Arm ref \<notin> set calls" and "aborter \<noteq> None"
  shows "snd (release_run aborter calls (disarm r, db)) = db \<and>
    snd (release_run aborter calls (onError aborter (Some e) r db)) = snd (onError aborter (Some e) r db)"
proof -
  obtain r' db' where o: "onError aborter (Some e) r db = (r', db')" by (metis surj_pair)
  with disarmed_after(2) [OF assms(2), of e r db] have "disarmed r'" by simp
  with o disarmed_run [of r' calls aborter db'] disarmed_run [OF disarmed_after(1) assms(1)] assms(1) show ?thesis by simp
qed

theorem release_fires_at_most_once_witness:
  "snd (release_run (Some (AbortAction std_lib)) [OnError (GoErr ''again''), Disarm]
     (onError (Some (AbortAction std_lib)) (Some (GoErr ''x'')) (arm ''r2'' (Some (newRelease 1))) ex_db)) =
   snd (onError (Some (AbortAction std_lib)) (Some (GoErr ''x'')) (arm ''r2'' (Some (newRelease 1))) ex_db)"
  by (rule release_fires_at_most_once [THEN conjunct2]) simp_all

end
