(* ===== verification/Process_Correct.thy ===== *)
theory Process_Correct
  imports Process_Action Abort_Properties
begin

text \<open>
  What the processing of actions keeps: it is a run of storage steps, it posts only transactions that it
  has claimed, and once it posts, its release is disarmed.
\<close>

section \<open>Actions are runs of storage steps\<close>

definition runs :: "go_lib \<Rightarrow> world \<Rightarrow> world \<Rightarrow> bool" where
  "runs lib w w' \<longleftrightarrow> (storage_step lib)\<^sup>*\<^sup>* (w_db w) (w_db w')"

interpretation runs: step_relation "runs lib" for lib
  by unfold_locales (auto simp: runs_def)

definition tx_runs :: "go_lib \<Rightarrow> 'a db_tx \<Rightarrow> bool" where
  "tx_runs lib f \<longleftrightarrow> (\<forall>db x db'. f db = Inr (x, db') \<longrightarrow> (storage_step lib)\<^sup>*\<^sup>* db db')"

lemma tx_runsI: "(\<And>db x db'. f db = Inr (x, db') \<Longrightarrow> storage_step lib db db') \<Longrightarrow> tx_runs lib f"
  by (auto simp: tx_runs_def intro: r_into_rtranclp)

lemma tx_runs_ops:
  "tx_runs lib (SpendTransaction ut n)" "tx_runs lib (ClaimKnownTxsForBroadcast ids)"
  "tx_runs lib (CreateUTXOForSpendableOutputsByTxID lib txID)" "tx_runs lib (MakeChangeSpendableAndIndexByTxID lib txID)"
  "tx_runs lib (updateKnownTxStatus txID st skip ns)" "tx_runs lib (UpdateTransactionStatusByTxID txID ts ex)"
  "tx_runs lib (UpdateTransactionStatusByID i ts ex)" "tx_runs lib (ParkUnbroadcastKnownTx txID ns)" "tx_runs lib (abort_uow lib i)"
  "tx_runs lib (AdvanceKnownTxToBroadcasted lib txID skip ns)" "tx_runs lib (FailKnownTxAsDoubleSpend txID skip ns)"
  "tx_runs lib (RequeueKnownTxForRebroadcast txID mx sts ns)"
  by (rule tx_runsI, erule storage_step.intros)+

lemma within_wtx: "tx_runs lib f \<Longrightarrow> step_within (runs lib) (wtx f)"
  by (auto simp: step_within_def runs_def wtx_def in_db_tx_def tx_runs_def split: sum.splits prod.splits)

lemma within_wupdate: "(\<And>db. storage_step lib db (f db)) \<Longrightarrow> step_within (runs lib) (wupdate f)"
  by (auto simp: step_within_def runs_def wupdate_def intro: r_into_rtranclp)

lemma within_ghost: "step_within (runs lib) wdisarm" "step_within (runs lib) (wpost env beef ids)"
  by (auto simp: step_within_def runs_def wdisarm_def wpost_def)

lemma within_skipped: "tx_runs lib f \<Longrightarrow> step_within (runs lib) (unless_skipped msg f)"
  using within_wtx [of lib f]
  by (auto simp: step_within_def unless_skipped_def split: sum.splits prod.splits if_splits) (metis snd_conv)+

lemmas within_basic = runs.within within_wtx tx_runs_ops within_wupdate within_ghost within_skipped
  storage_step.batch storage_step.attempts storage_step.mined

lemma fold_not_spendable_runs: "(storage_step lib)\<^sup>*\<^sup>* db (fold MarkCreatedOutputsAsNotSpendable ids db)"
  by (induction ids arbitrary: db) (auto intro: converse_rtranclp_into_rtranclp storage_step.mark_not_spendable)

lemma apply_broadcast_result_runs: "tx_runs lib (apply_broadcast_result lib txID outcome notes)"
proof -
  have "(storage_step lib)\<^sup>*\<^sup>* db db'" if "apply_broadcast_result lib txID outcome notes db = Inr (x, db')" for db x db'
  proof (cases "updateKnownTxStatus txID (bo_reqStatus outcome) broadcastResultSkipStatuses notes db")
    case (Inl e)
    with that show ?thesis by (auto simp: apply_broadcast_result_def split: if_splits)
  next
    case (Inr y)
    obtain db1 where y: "y = ((), db1)" by (cases y) auto
    have 1: "storage_step lib db db1" using Inr y by (auto intro: storage_step.known_status)
    show ?thesis
    proof (cases "UpdateTransactionStatusByTxID txID (bo_txStatus outcome)
        [TxStatusUnprocessed, TxStatusSending, TxStatusNoSend, TxStatusUnproven] db1")
      case (Inl e)
      with that Inr y 1 show ?thesis by (auto simp: apply_broadcast_result_def split: if_splits)
    next
      case (Inr z)
      obtain db2 where z: "z = ((), db2)" by (cases z) auto
      have 2: "storage_step lib db1 db2" using Inr z by (auto intro: storage_step.status_by_txid)
      let ?db3 = "if bo_txStatus outcome = TxStatusFailed
        then fold MarkCreatedOutputsAsNotSpendable (FindTransactionIDsByTxID txID db2) db2 else db2"
      have 3: "(storage_step lib)\<^sup>*\<^sup>* db2 ?db3" using fold_not_spendable_runs by simp
      have "(storage_step lib)\<^sup>*\<^sup>* ?db3 db'"
        using that \<open>updateKnownTxStatus _ _ _ _ _ = _\<close> y Inr z
        by (auto simp: apply_broadcast_result_def Let_def result_simps split: if_splits intro: storage_step.index_spendable)
      with 1 2 3 show ?thesis by (meson converse_rtranclp_into_rtranclp rtranclp_trans)
    qed
  qed
  then show ?thesis by (auto simp: tx_runs_def)
qed

lemma within_updateSingleTx: "step_within (runs (pe_lib env)) (updateSingleTx env txID agg errs ref labels)"
  unfolding updateSingleTx_def by (intro within_basic apply_broadcast_result_runs)

lemma within_resultForPostedTx:
  "step_within (runs (pe_lib env)) (resultForPostedTx env agg errs refs labels txID)"
proof (cases "agg txID")
  case (Some a)
  have "runs (pe_lib env) w (snd (updateSingleTx env txID a errs ref (labels txID) w))" for ref w
    using within_updateSingleTx by (auto simp: step_within_def)
  with Some show ?thesis
    by (auto simp: resultForPostedTx_def step_within_def split: sum.splits prod.splits) (metis snd_conv)+
qed (simp add: resultForPostedTx_def runs.within)

lemma within_post_claimed:
  "step_within (runs (pe_lib env)) (post_claimed env txIDs beef ready sent refs labels)"
  unfolding post_claimed_def Let_def by (intro within_basic within_resultForPostedTx)

lemma within_partition: "step_within (runs (pe_lib env)) (partitionBroadcastTxIDs env statuses txIDs)"
  by (induction txIDs) (auto intro!: within_basic)

lemma within_delayed: "step_within (runs (pe_lib env)) (processDelayedTransactions env txIDs beef)"
  unfolding processDelayedTransactions_def queueTxForDelayedBroadcast_def by (intro within_basic)

lemma within_broadcastTxs: "step_within (runs (pe_lib env)) (broadcastTxs env txIDs isDelayed)"
  unfolding broadcastTxs_def by (intro within_basic within_partition within_delayed within_post_claimed)

lemma within_process_body: "step_within (runs (pe_lib env)) (process_body env userID args)"
  unfolding process_body_def processNewTx_def setBatchForTxs_def Let_def
  by (intro within_basic within_broadcastTxs)

lemma within_BackgroundBroadcast: "step_within (runs (pe_lib env)) (BackgroundBroadcast env beef txIDs)"
  unfolding BackgroundBroadcast_def Let_def by (intro within_basic within_updateSingleTx)

lemma AbortAction_runs: "(storage_step lib)\<^sup>*\<^sup>* db (snd (AbortAction lib user ref db))"
proof -
  have uow: "(storage_step lib)\<^sup>*\<^sup>* db (snd (in_db_tx (abort_uow lib i) db))" for i db
    using tx_runs_ops(9) [of lib i] by (auto simp: in_db_tx_def tx_runs_def split: sum.splits)
  have "(storage_step lib)\<^sup>*\<^sup>* db (snd (abortTx lib t db))" for t
  proof (cases "tr_TxID t")
    case None
    then show ?thesis by (simp add: abortTx_def uow)
  next
    case (Some txID)
    obtain res db1 where p: "parkKnownTxForAbort t txID db = (res, db1)" by (metis surj_pair)
    from p have "(storage_step lib)\<^sup>*\<^sup>* db db1"
    proof (cases rule: parkKnownTxForAbort_cases)
      case (parked ns)
      then show ?thesis by (auto intro: storage_step.park)
    qed simp
    with Some p uow [of db1] show ?thesis
      by (auto simp: abortTx_def flow_bind_def split: sum.splits intro: rtranclp_trans)
  qed
  then have "(storage_step lib)\<^sup>*\<^sup>* db db'" if "abortTx lib t db = (r, db')" for t r db' using that by (metis snd_conv)
  then show ?thesis by (auto simp: AbortAction_def split: option.splits sum.splits prod.splits)
qed

lemma onError_runs: "(storage_step lib)\<^sup>*\<^sup>* db (snd (onError (Some (AbortAction lib)) cause r db))"
  by (auto simp: onError_def AbortAction_runs split: option.splits)

lemma Process_runs: "runs (pe_lib env) w (snd (Process env userID args w))"
proof -
  obtain r w1 where b: "process_body env userID args (w\<lparr>w_release := process_newRelease userID args\<rparr>) = (r, w1)"
    by (metis surj_pair)
  have 1: "(storage_step (pe_lib env))\<^sup>*\<^sup>* (w_db w) (w_db w1)"
    using within_process_body [of env userID args] b unfolding step_within_def runs_def
    by (metis snd_conv world.select_convs(1) world.surjective world.update_convs(2))
  show ?thesis
  proof (cases r)
    case (Inl e)
    with b 1 onError_runs show ?thesis
      by (auto simp: Process_def runs_def split: prod.splits intro: rtranclp_trans) (metis rtranclp_trans snd_conv)+
  qed (use b 1 in \<open>auto simp: Process_def runs_def\<close>)
qed

section \<open>Posts are claimed, and a posting action is never released\<close>

definition flagged :: "database \<Rightarrow> string \<Rightarrow> bool" where
  "flagged db x \<longleftrightarrow> (\<exists>k \<in> set (db_KnownTxs db). kt_TxID k = x \<and> kt_WasBroadcast k)"

lemma flagged_run:
  "(storage_step lib)\<^sup>*\<^sup>* db db' \<Longrightarrow> convert_ok lib \<Longrightarrow> db_inv db \<Longrightarrow> flagged db x \<Longrightarrow> flagged db' x"
  using storage.run_later [of lib db db'] unfolding flagged_def db_later_def known_later_def by metis

definition safe :: "go_lib \<Rightarrow> world \<Rightarrow> world \<Rightarrow> bool" where
  "safe lib w w' \<longleftrightarrow> runs lib w w' \<and> (disarmed (w_release w) \<longrightarrow> disarmed (w_release w')) \<and>
     (\<exists>ps. w_posts w' = w_posts w @ ps \<and> (ps \<noteq> [] \<longrightarrow> disarmed (w_release w')) \<and>
        (convert_ok lib \<longrightarrow> db_inv (w_db w) \<longrightarrow> (\<forall>b \<in> set ps. \<forall>x \<in> set b. flagged (w_db w') x)))"

lemma safe_trans:
  assumes "safe lib w w'" and "safe lib w' w''"
  shows "safe lib w w''"
proof -
  from assms obtain ps ps' where p: "runs lib w w'" "disarmed (w_release w) \<longrightarrow> disarmed (w_release w')"
    "w_posts w' = w_posts w @ ps" "ps \<noteq> [] \<longrightarrow> disarmed (w_release w')"
    "convert_ok lib \<longrightarrow> db_inv (w_db w) \<longrightarrow> (\<forall>b \<in> set ps. \<forall>x \<in> set b. flagged (w_db w') x)"
    and p': "runs lib w' w''" "disarmed (w_release w') \<longrightarrow> disarmed (w_release w'')"
    "w_posts w'' = w_posts w' @ ps'" "ps' \<noteq> [] \<longrightarrow> disarmed (w_release w'')"
    "convert_ok lib \<longrightarrow> db_inv (w_db w') \<longrightarrow> (\<forall>b \<in> set ps'. \<forall>x \<in> set b. flagged (w_db w'') x)"
    unfolding safe_def by blast
  have "\<forall>b \<in> set (ps @ ps'). \<forall>x \<in> set b. flagged (w_db w'') x" if "convert_ok lib" "db_inv (w_db w)"
  proof -
    have "db_inv (w_db w')" using p(1) that storage.run_good unfolding runs_def by blast
    with that p(5) p'(5) p'(1) show ?thesis by (auto simp: runs_def intro: flagged_run)
  qed
  moreover have "w_posts w'' = w_posts w @ ps @ ps'" by (simp add: p(3) p'(3))
  moreover have "ps @ ps' \<noteq> [] \<longrightarrow> disarmed (w_release w'')" using p(4) p'(2,4) by auto
  moreover have "runs lib w w''" using runs.R_trans [OF p(1) p'(1)] .
  ultimately show ?thesis using p(2) p'(2) unfolding safe_def by blast
qed

lemma safe_refl: "safe lib w w"
  by (simp add: safe_def runs_def)

interpretation safe: step_relation "safe lib" for lib
  by unfold_locales (rule safe_refl, rule safe_trans)

lemma safe_wtx: "tx_runs lib f \<Longrightarrow> step_within (safe lib) (wtx f)"
  using within_wtx [of lib f]
  by (auto simp: step_within_def safe_def wtx_def split: sum.splits prod.splits)

lemma safe_wupdate: "(\<And>db. storage_step lib db (f db)) \<Longrightarrow> step_within (safe lib) (wupdate f)"
  using within_wupdate [of lib f] by (auto simp: step_within_def safe_def wupdate_def)

lemma safe_wdisarm: "step_within (safe lib) wdisarm"
  by (auto simp: step_within_def safe_def wdisarm_def runs_def disarmed_after)

lemma safe_skipped: "tx_runs lib f \<Longrightarrow> step_within (safe lib) (unless_skipped msg f)"
  using safe_wtx [of lib f]
  by (auto simp: step_within_def unless_skipped_def split: sum.splits prod.splits if_splits) (metis snd_conv)+

lemmas safe_basic = safe.within safe_wtx tx_runs_ops safe_wupdate safe_wdisarm safe_skipped
  storage_step.batch storage_step.attempts storage_step.mined

lemma safe_updateSingleTx: "step_within (safe (pe_lib env)) (updateSingleTx env txID agg errs ref labels)"
  unfolding updateSingleTx_def by (intro safe_basic apply_broadcast_result_runs)

lemma safe_resultForPostedTx:
  "step_within (safe (pe_lib env)) (resultForPostedTx env agg errs refs labels txID)"
proof (cases "agg txID")
  case (Some a)
  have "safe (pe_lib env) w (snd (updateSingleTx env txID a errs ref (labels txID) w))" for ref w
    using safe_updateSingleTx by (auto simp: step_within_def)
  with Some show ?thesis
    by (auto simp: resultForPostedTx_def step_within_def split: sum.splits prod.splits) (metis snd_conv)+
qed (simp add: resultForPostedTx_def safe.within)

text \<open>Counting attempts changes neither the flags nor what the invariant says.\<close>

lemma attempts_rows:
  "map (\<lambda>k. (kt_TxID k, kt_WasBroadcast k, kt_Status k)) (db_KnownTxs (IncreaseKnownTxAttemptsForTxIDs ids db)) =
   map (\<lambda>k. (kt_TxID k, kt_WasBroadcast k, kt_Status k)) (db_KnownTxs db)"
  by (auto simp: IncreaseKnownTxAttemptsForTxIDs_def update_where_def)

lemma known_flags_iff:
  "flagged db x \<longleftrightarrow> (\<exists>st. (x, True, st) \<in> set (map (\<lambda>k. (kt_TxID k, kt_WasBroadcast k, kt_Status k)) (db_KnownTxs db)))"
  "known_ok ks \<longleftrightarrow> distinct (map fst (map (\<lambda>k. (kt_TxID k, kt_WasBroadcast k, kt_Status k)) ks)) \<and>
     (\<forall>(x, b, st) \<in> set (map (\<lambda>k. (kt_TxID k, kt_WasBroadcast k, kt_Status k)) ks). WasBroadcastStatus st \<longrightarrow> b)"
  by (auto simp: flagged_def known_ok_def image_iff comp_def)

lemma attempts_flagged: "flagged (IncreaseKnownTxAttemptsForTxIDs ids db) x \<longleftrightarrow> flagged db x"
  unfolding known_flags_iff attempts_rows ..

lemma attempts_inv_iff: "db_inv (IncreaseKnownTxAttemptsForTxIDs ids db) \<longleftrightarrow> db_inv db"
proof -
  have "known_ok (db_KnownTxs (IncreaseKnownTxAttemptsForTxIDs ids db)) \<longleftrightarrow> known_ok (db_KnownTxs db)"
    unfolding known_flags_iff attempts_rows ..
  then show ?thesis by (simp add: db_inv_def IncreaseKnownTxAttemptsForTxIDs_def)
qed

text \<open>A post by a disarmed action of transactions that carry the broadcast flag.\<close>

lemma safe_wpost:
  assumes "disarmed (w_release w)" and "convert_ok lib \<longrightarrow> db_inv (w_db w) \<longrightarrow> (\<forall>x \<in> set ids. flagged (w_db w) x)"
  shows "safe lib w (snd (wwrap msg (wpost env beef ids) w))"
  using assms by (auto simp: safe_def wwrap_def wpost_def runs_def)

lemma safe_post_claimed:
  assumes dis: "disarmed (w_release w)"
    and flag: "convert_ok (pe_lib env) \<longrightarrow> db_inv (w_db w) \<longrightarrow> (\<forall>x \<in> set ready. flagged (w_db w) x)"
  shows "safe (pe_lib env) w (snd (post_claimed env txIDs beef ready sent refs labels w))"
proof (cases "ParentsFirst (Some beef) ready")
  case None
  then show ?thesis by (simp add: post_claimed_def wfail_def safe.R_refl)
next
  case (Some ordered)
  have same: "set ordered = set ready" by (rule ParentsFirst_set [OF Some])
  have rest: "step_within (safe (pe_lib env)) (wbind (wfor (resultForPostedTx env agg errs refs labels) ordered) (\<lambda>rs. wreturn (g rs)))"
    for agg errs g by (intro safe_basic safe_resultForPostedTx)
  show ?thesis unfolding post_claimed_def Some option.case Let_def
  proof (rule safe.bind_at)
    let ?incr = "wupdate (IncreaseKnownTxAttemptsForTxIDs ordered)"
    show "safe (pe_lib env) w (snd (?incr w))" by (intro safe.within_at safe_basic)
    fix x w' assume w': "?incr w = (Inr x, w')"
    have dis': "disarmed (w_release w')" using w' dis by (auto simp: wupdate_def)
    have flag': "convert_ok (pe_lib env) \<longrightarrow> db_inv (w_db w') \<longrightarrow> (\<forall>x \<in> set ordered. flagged (w_db w') x)"
      using w' flag by (auto simp: same wupdate_def attempts_flagged attempts_inv_iff)
    show "safe (pe_lib env) w' (snd (wbind (wwrap ''failed to post BEEF'' (wpost env beef ordered))
        (\<lambda>results. wbind (wfor (resultForPostedTx env (confirmDoubleSpends env txIDs (newAggregatedPostFromBEEF results txIDs))
          (ServiceErrors results) refs labels) ordered)
          (\<lambda>rs. wreturn \<lparr>pr_SendWithResults = sent @ map fst rs, pr_NotDelayedResults = map snd rs\<rparr>)) w'))"
      by (rule safe.bind_at) (rule safe_wpost [OF dis' flag'], rule safe.within_at [OF rest])
  qed
qed

lemma safe_partition: "step_within (safe (pe_lib env)) (partitionBroadcastTxIDs env statuses txIDs)"
  by (induction txIDs) (auto intro!: safe_basic)

lemma safe_delayed: "step_within (safe (pe_lib env)) (processDelayedTransactions env txIDs beef)"
  unfolding processDelayedTransactions_def queueTxForDelayedBroadcast_def by (intro safe_basic)

text \<open>After a claim, the retained transactions carry the broadcast flag.\<close>

lemma retainClaimed_flagged:
  assumes cl: "ClaimKnownTxsForBroadcast ready db = Inr (cs, db')" and inv: "db_inv db'"
    and x: "x \<in> set (retainClaimed ready cs)"
  shows "flagged db' x"
proof -
  have sub: "set cs \<subseteq> set ready" using Claim_mem [OF cl] by auto
  have "map kt_TxID (db_KnownTxs db') = map kt_TxID (db_KnownTxs db)"
    unfolding Claim_updates [OF cl] by (simp add: update_where_def)
  then have dist: "distinct cs"
    using cl db_invD(4) [OF inv]
    by (auto simp: ClaimKnownTxsForBroadcast_def Let_def known_ok_def distinct_map_filter split: if_splits)
  have "x \<in> set cs"
  proof (cases "length cs = length ready")
    case True
    then have "card (set ready) \<le> card (set cs)" using dist by (simp add: distinct_card card_length)
    then have "set cs = set ready" using sub by (simp add: card_seteq)
    with x True show ?thesis by (simp add: retainClaimed_def)
  qed (use x in \<open>simp add: retainClaimed_def\<close>)
  from Claim_flags [OF cl this] show ?thesis by (auto simp: flagged_def)
qed

text \<open>Claim, then post: the tail of both broadcasting actions.\<close>

lemma claim_then_post:
  assumes dis: "disarmed (w_release w)"
    and k: "\<And>cs w'. disarmed (w_release w') \<Longrightarrow>
      (convert_ok lib \<longrightarrow> db_inv (w_db w') \<longrightarrow> (\<forall>x \<in> set (retainClaimed ready cs). flagged (w_db w') x)) \<Longrightarrow>
      safe lib w' (snd (k cs w'))"
  shows "safe lib w (snd (wbind (wwrap msg (wtx (ClaimKnownTxsForBroadcast ready))) k w))"
proof (rule safe.bind_at)
  show "safe lib w (snd (wwrap msg (wtx (ClaimKnownTxsForBroadcast ready)) w))" by (intro safe.within_at safe_basic)
  fix cs w' assume "wwrap msg (wtx (ClaimKnownTxsForBroadcast ready)) w = (Inr cs, w')"
  then obtain db' where "ClaimKnownTxsForBroadcast ready (w_db w) = Inr (cs, db')" "w' = w\<lparr>w_db := db'\<rparr>"
    by (auto simp: wwrap_def wtx_def in_db_tx_def split: sum.splits prod.splits)
  with retainClaimed_flagged dis show "safe lib w' (snd (k cs w'))" by (intro k) auto
qed

lemma safe_after_disarm:
  assumes "\<And>w. disarmed (w_release w) \<Longrightarrow> safe lib w (snd (k w))"
  shows "step_within (safe lib) (wbind wdisarm (\<lambda>_. k))"
  unfolding step_within_def
proof
  fix w
  show "safe lib w (snd (wbind wdisarm (\<lambda>_. k) w))"
    by (rule safe.bind_at, rule safe.within_at [OF safe_wdisarm])
      (auto intro!: assms simp: wdisarm_def disarmed_after)
qed

lemma safe_claim_branch:
  "step_within (safe (pe_lib env)) (wbind wdisarm (\<lambda>_.
     wbind (wwrap msg (wtx (ClaimKnownTxsForBroadcast ready))) (\<lambda>cs.
     if cs = [] then wreturn r0 else post_claimed env txIDs beef (retainClaimed ready cs) sent refs labels)))"
proof (rule safe_after_disarm)
  fix w :: world assume dis: "disarmed (w_release w)"
  show "safe (pe_lib env) w (snd (wbind (wwrap msg (wtx (ClaimKnownTxsForBroadcast ready))) (\<lambda>cs.
     if cs = [] then wreturn r0 else post_claimed env txIDs beef (retainClaimed ready cs) sent refs labels) w))"
  proof (rule claim_then_post [OF dis])
    fix cs and w' :: world
    assume "disarmed (w_release w')"
      "convert_ok (pe_lib env) \<longrightarrow> db_inv (w_db w') \<longrightarrow> (\<forall>x \<in> set (retainClaimed ready cs). flagged (w_db w') x)"
    from safe_post_claimed [OF this]
    show "safe (pe_lib env) w' (snd ((if cs = [] then wreturn r0
        else post_claimed env txIDs beef (retainClaimed ready cs) sent refs labels) w'))"
      by (simp add: wreturn_def safe_refl)
  qed
qed

lemma safe_broadcastTxs: "step_within (safe (pe_lib env)) (broadcastTxs env txIDs isDelayed)"
  unfolding broadcastTxs_def by (intro safe_claim_branch safe_basic safe_partition safe_delayed)

lemma safe_process_body: "step_within (safe (pe_lib env)) (process_body env userID args)"
  unfolding process_body_def processNewTx_def setBatchForTxs_def Let_def
  by (intro safe_basic safe_broadcastTxs)

lemma safe_BackgroundBroadcast:
  assumes dis: "disarmed (w_release w)"
  shows "safe (pe_lib env) w (snd (BackgroundBroadcast env beef txIDs w))"
  unfolding BackgroundBroadcast_def Let_def
proof (rule claim_then_post [OF dis])
  fix cs and w' :: world
  assume d: "disarmed (w_release w')"
    and f: "convert_ok (pe_lib env) \<longrightarrow> db_inv (w_db w') \<longrightarrow> (\<forall>x \<in> set (retainClaimed txIDs cs). flagged (w_db w') x)"
  let ?rest = "\<lambda>results. wbind (wread (\<lambda>db. Inr (FindReferencesByTxIDs (retainClaimed txIDs cs) db, GetLabelsForTxIDs (retainClaimed txIDs cs) db)))
    (\<lambda>(references, labels). wbind (wfor (\<lambda>txID. case confirmDoubleSpends env (retainClaimed txIDs cs)
        (newAggregatedPostFromBEEF results (retainClaimed txIDs cs)) txID of
           None \<Rightarrow> wfail (GoErr ''no broadcast result found for txID'')
         | Some agg \<Rightarrow> wwrap ''failed to update single tx after background broadcast''
             (updateSingleTx env txID agg (ServiceErrors results)
               (case references txID of None \<Rightarrow> [] | Some r \<Rightarrow> r) (labels txID))) (retainClaimed txIDs cs)) (\<lambda>rs.
       wbind (wupdate (IncreaseKnownTxAttemptsForTxIDs (retainClaimed txIDs cs))) (\<lambda>_. wreturn (map snd rs))))"
  have rest: "step_within (safe (pe_lib env)) (?rest results)" for results by (intro safe_basic safe_updateSingleTx)
  have "safe (pe_lib env) w' (snd (wbind (wwrap ''failed to post BEEF in background'' (wpost env beef (retainClaimed txIDs cs))) ?rest w'))"
    by (rule safe.bind_at) (rule safe_wpost [OF d f], rule safe.within_at [OF rest])
  then show "safe (pe_lib env) w' (snd ((if cs = [] then wreturn [] else
      wbind (wwrap ''failed to post BEEF in background'' (wpost env beef (retainClaimed txIDs cs))) ?rest) w'))"
    by (simp add: wreturn_def safe_refl)
qed

end
