(* ===== verification/Send_Waiting.thy ===== *)
theory Send_Waiting
  imports Process_Action
begin

text \<open>
  The sweep over waiting transactions, \<open>pkg/storage/internal/actions/process_send_waiting.go\<close>, with the query
  options it passes (\<open>queryopts\<close>, \<open>database/scopes\<close>).

  The clock, the context and the failures of the page queries are parameters. The environment may change from batch to batch.
  Times are nanoseconds.
\<close>

section \<open>Query options\<close>

record query_options =
  qo_Page :: "paging option"
  qo_Since :: "int option"
  qo_Until :: "int option"

definition no_options :: query_options where
  "no_options = \<lparr>qo_Page = None, qo_Since = None, qo_Until = None\<rparr>"

definition WithPage :: "paging \<Rightarrow> query_options" where
  "WithPage page = no_options\<lparr>qo_Page := Some page\<rparr>"

definition WithUntil :: "int \<Rightarrow> query_options" where
  "WithUntil until = no_options\<lparr>qo_Until := Some until\<rparr>"

definition WithSince :: "int \<Rightarrow> query_options" where
  "WithSince since = no_options\<lparr>qo_Since := Some since\<rparr>"

definition merge_option :: "query_options \<Rightarrow> query_options \<Rightarrow> query_options" where
  "merge_option opt acc =
     (let r1 = (case qo_Page opt of None \<Rightarrow> acc | Some p \<Rightarrow> acc\<lparr>qo_Page := Some p\<rparr>);
          r2 = (case qo_Since opt of None \<Rightarrow> r1 | Some s \<Rightarrow> r1\<lparr>qo_Since := Some s\<rparr>)
      in case qo_Until opt of None \<Rightarrow> r2 | Some u \<Rightarrow> r2\<lparr>qo_Until := Some u\<rparr>)"

definition MergeOptions :: "query_options list \<Rightarrow> query_options" where
  "MergeOptions opts = fold merge_option opts no_options"

text \<open>The order of a page of KnownTx rows: by creation time, then by the txid when \<open>ThenBy\<close> asks for it. The callers here
  sort by no other column. Rows that compare equal keep the order of the table.\<close>

definition known_order :: "paging \<Rightarrow> known_tx_row list \<Rightarrow> known_tx_row list" where
  "known_order p rows =
     (let sorted = (if pg_ThenBy p = ''tx_id'' then sort_key (\<lambda>k. (kt_CreatedAt k, kt_TxID k)) rows
           else sort_key kt_CreatedAt rows)
      in if IsDesc p then rev sorted else sorted)"

definition FromQueryOpts :: "query_options list \<Rightarrow> known_tx_row list \<Rightarrow> known_tx_row list" where
  "FromQueryOpts opts rows =
     (let options = MergeOptions opts;
          since = (case qo_Since options of None \<Rightarrow> rows | Some s \<Rightarrow> filter (\<lambda>k. s \<le> kt_CreatedAt k) rows);
          until = (case qo_Until options of None \<Rightarrow> since | Some u \<Rightarrow> filter (\<lambda>k. kt_CreatedAt k \<le> u) since)
      in case qo_Page options of None \<Rightarrow> until
         | Some page \<Rightarrow> let p = ApplyDefaults page in sql_page (pg_Offset p) (pg_Limit p) (known_order p until))"

section \<open>Collecting the batches\<close>

definition sendWaitingMaxPages :: nat where
  "sendWaitingMaxPages = 10"

definition sendWaitingItemsPerPage :: nat where
  "sendWaitingItemsPerPage = 1000"

definition statusesOfWaitingTxs :: "proven_tx_req_status list" where
  "statusesOfWaitingTxs = [ProvenTxStatusUnsent, ProvenTxStatusSending]"

record waiting_batch =
  wb_name :: string
  wb_txIDs :: "string list"

definition batch_name :: "known_tx_for_status_sync \<Rightarrow> string" where
  "batch_name item = (case kts_Batch item of None \<Rightarrow> kts_TxID item | Some b \<Rightarrow> b)"

text \<open>The inner loop, over the batches and the position of each name in them.\<close>

definition collect_item :: "known_tx_for_status_sync \<Rightarrow> waiting_batch list \<times> (string \<rightharpoonup> nat) \<Rightarrow>
    waiting_batch list \<times> (string \<rightharpoonup> nat)" where
  "collect_item item = (\<lambda>(batches, positionOf).
     case positionOf (batch_name item) of
       Some position \<Rightarrow>
         (batches[position := (batches ! position)\<lparr>wb_txIDs := wb_txIDs (batches ! position) @ [kts_TxID item]\<rparr>], positionOf)
     | None \<Rightarrow>
         (batches @ [\<lparr>wb_name = batch_name item, wb_txIDs = [kts_TxID item]\<rparr>],
          positionOf(batch_name item \<mapsto> length batches)))"

definition isContextErr :: "go_error \<Rightarrow> bool" where
  "isContextErr e \<longleftrightarrow> errors_Is e ''context.Canceled'' \<or> errors_Is e ''context.DeadlineExceeded''"

text \<open>The outer loop; \<open>done n\<close> and \<open>fault n\<close> tell whether the context is done and whether the query fails at page \<open>n\<close>.\<close>

fun collect_pages :: "(nat \<Rightarrow> bool) \<Rightarrow> (nat \<Rightarrow> go_error option) \<Rightarrow> int \<Rightarrow> database \<Rightarrow> nat \<Rightarrow> nat \<Rightarrow> paging \<Rightarrow>
    waiting_batch list \<times> (string \<rightharpoonup> nat) \<Rightarrow> waiting_batch list result" where
  "collect_pages done fault until db 0 n paging st = Inr (fst st)"
| "collect_pages done fault until db (Suc left) n paging st =
     (if done n then Inr (fst st)
      else (case fault n of
         Some pageErr \<Rightarrow>
           if isContextErr pageErr \<or> fst st \<noteq> [] then Inr (fst st)
           else Inl (wrap_error ''failed to find known txs by statuses'' pageErr)
       | None \<Rightarrow>
           let txIDsPage = FindKnownTxIDsByStatuses statusesOfWaitingTxs
                 (FromQueryOpts [WithUntil until, WithPage paging]) db;
               st' = fold collect_item txIDsPage st
           in if length txIDsPage < sendWaitingItemsPerPage then Inr (fst st')
              else collect_pages done fault until db left (n + 1) (Next paging) st'))"

definition collectWaitingBatches :: "(nat \<Rightarrow> bool) \<Rightarrow> (nat \<Rightarrow> go_error option) \<Rightarrow> int \<Rightarrow> database \<Rightarrow> waiting_batch list result" where
  "collectWaitingBatches done fault until db =
     collect_pages done fault until db sendWaitingMaxPages 0
       \<lparr>pg_Limit = int sendWaitingItemsPerPage, pg_Offset = 0, pg_Sort = ''asc'', pg_SortBy = [], pg_ThenBy = ''tx_id''\<rparr>
       ([], Map.empty)"

section \<open>The budget of the sweep\<close>

definition sweepBatchDurationSeed :: int where
  "sweepBatchDurationSeed = 1000000000"

definition sweepMinReserve :: int where
  "sweepMinReserve = 2000000000"

text \<open>The constants 0.3 and 1 - 0.3 as \<open>float64\<close> values.\<close>

definition sweepEWMAWeight :: rat where
  "sweepEWMAWeight = fl (3 / 10)"

definition sweepEWMARest :: rat where
  "sweepEWMARest = fl (7 / 10)"

record sweep_budget =
  sb_deadline :: "int option"
  sb_avgBatch :: int

definition newSweepBudget :: "int option \<Rightarrow> sweep_budget" where
  "newSweepBudget deadline = \<lparr>sb_deadline = deadline, sb_avgBatch = sweepBatchDurationSeed\<rparr>"

definition reserve :: "sweep_budget \<Rightarrow> int" where
  "reserve b = max (wrap_i64 (2 * sb_avgBatch b)) sweepMinReserve"

definition allows :: "bool \<Rightarrow> int \<Rightarrow> sweep_budget \<Rightarrow> bool" where
  "allows ctxErr now b \<longleftrightarrow> (if ctxErr then False
     else case sb_deadline b of None \<Rightarrow> True | Some deadline \<Rightarrow> reserve b \<le> deadline - now)"

text \<open>The conversion of a \<open>float64\<close> to a duration truncates; durations are far below \<open>2^62\<close> nanoseconds.\<close>

definition float_trunc :: "rat \<Rightarrow> int" where
  "float_trunc x = (if 0 \<le> x then \<lfloor>x\<rfloor> else \<lceil>x\<rceil>)"

definition observe :: "int \<Rightarrow> sweep_budget \<Rightarrow> sweep_budget" where
  "observe batchDuration b = b\<lparr>sb_avgBatch := float_trunc (float_add
     (float_mul sweepEWMAWeight (fl (of_int batchDuration))) (float_mul sweepEWMARest (fl (of_int (sb_avgBatch b)))))\<rparr>"

section \<open>The sweep\<close>

text \<open>What the clock and the context show while the sweep runs: the deadline, whether the context is done before batch
  \<open>n\<close>, the time then, and the duration of the batch.\<close>

record sweep_clock =
  sc_Deadline :: "int option"
  sc_CtxErr :: "nat \<Rightarrow> bool"
  sc_Now :: "nat \<Rightarrow> int"
  sc_Duration :: "nat \<Rightarrow> int"

text \<open>\<open>broadcastDelayedTransaction\<close> passes no release.\<close>

definition broadcastDelayedTransaction :: "process_env \<Rightarrow> string list \<Rightarrow> process_result step" where
  "broadcastDelayedTransaction env txIDs w =
     wwrap ''broadcast of waiting batch failed'' (broadcastTxs env txIDs False) (w\<lparr>w_release := None\<rparr>)"

text \<open>The loop over the batches: the results, the hard errors and the number of processed batches.\<close>

fun sweep_batches :: "(nat \<Rightarrow> process_env) \<Rightarrow> sweep_clock \<Rightarrow> nat \<Rightarrow> sweep_budget \<Rightarrow> waiting_batch list \<Rightarrow>
    process_result \<times> go_error list \<Rightarrow> world \<Rightarrow> (process_result \<times> go_error list) \<times> world" where
  "sweep_batches envs clock n budget [] acc w = (acc, w)"
| "sweep_batches envs clock n budget (batch # batches) (results, batchErrs) w =
     (if \<not> allows (sc_CtxErr clock n) (sc_Now clock n) budget then ((results, batchErrs), w)
      else
        let (r, w') = broadcastDelayedTransaction (envs n) (wb_txIDs batch) w;
            budget' = observe (sc_Duration clock n) budget
        in (case r of
              Inl batchErr \<Rightarrow>
                if is_panic batchErr then ((results, batchErrs @ [batchErr]), w')
                else if isContextErr batchErr then sweep_batches envs clock (n + 1) budget' batches (results, batchErrs) w'
                else sweep_batches envs clock (n + 1) budget' batches (results, batchErrs @ [batchErr]) w'
            | Inr res \<Rightarrow> sweep_batches envs clock (n + 1) budget' batches
                (\<lparr>pr_SendWithResults = pr_SendWithResults results @ pr_SendWithResults res,
                  pr_NotDelayedResults = pr_NotDelayedResults results @ pr_NotDelayedResults res\<rparr>, batchErrs) w'))"

text \<open>\<open>SendWaitingTransactions\<close>: nothing when another run holds the lock; otherwise the results together with the joined errors of the
  batches (an empty list is the nil error).\<close>

definition SendWaitingTransactions :: "(nat \<Rightarrow> process_env) \<Rightarrow> sweep_clock \<Rightarrow> (nat \<Rightarrow> bool) \<Rightarrow> (nat \<Rightarrow> go_error option) \<Rightarrow>
    bool \<Rightarrow> int \<Rightarrow> world \<Rightarrow> (process_result option \<times> go_error list) \<times> world" where
  "SendWaitingTransactions envs clock done fault locked minTransactionAge w =
     (if locked then ((None, []), w)
      else (case collectWaitingBatches done fault (db_Now (w_db w) - minTransactionAge) (w_db w) of
         Inl e \<Rightarrow> ((None, [e]), w)
       | Inr [] \<Rightarrow> ((None, []), w)
       | Inr batches \<Rightarrow>
           (case sweep_batches envs clock 0 (newSweepBudget (sc_Deadline clock)) batches
              (\<lparr>pr_SendWithResults = [], pr_NotDelayedResults = []\<rparr>, []) w of
              ((results, batchErrs), w') \<Rightarrow> ((Some results, batchErrs), w'))))"

end
