(* ===== verification/Unfail.thy ===== *)
theory Unfail
  imports Send_Waiting
begin

text \<open>
  Recovering failed transactions, \<open>pkg/storage/internal/actions/process_unfail.go\<close>. The errors of a single transaction are
  logged and dropped by the code.
\<close>

definition ErrNotFoundError :: string where
  "ErrNotFoundError = ''wdk.ErrNotFoundError''"

definition unfailMaxPages :: nat where
  "unfailMaxPages = 10"

definition unfailItemsPerPage :: nat where
  "unfailItemsPerPage = 1000"

definition statusesOfUnfailTxs :: "proven_tx_req_status list" where
  "statusesOfUnfailTxs = [ProvenTxStatusUnfail]"

fun recreate_all :: "go_lib \<Rightarrow> nat list \<Rightarrow> unit db_tx" where
  "recreate_all lib [] db = Inr ((), db)"
| "recreate_all lib (i # ids) db =
     rbind (rwrap ''failed to recreate spent outputs for transaction'' (RecreateSpentOutputs lib i db)) (\<lambda>(_, db1).
       recreate_all lib ids (MarkCreatedOutputsAsNotSpendable i db1))"

text \<open>The unit of work of \<open>markAsInvalid\<close>.\<close>

definition invalid_uow :: "go_lib \<Rightarrow> string \<Rightarrow> unit db_tx" where
  "invalid_uow lib txID db =
     rbind (rwrap ''failed to set known tx to invalid'' (updateKnownTxStatus txID ProvenTxStatusInvalid []
         [note_GetMerklePathNotFound (proven_status_string ProvenTxStatusUnfail)] db)) (\<lambda>(_, db1).
     rbind (rwrap ''failed to set user transactions to failed''
         (UpdateTransactionStatusByTxID txID TxStatusFailed [TxStatusFailed] db1)) (\<lambda>(_, db2).
     recreate_all lib (FindTransactionIDsByTxID txID db2) db2))"

definition markAsInvalid :: "go_lib \<Rightarrow> string \<Rightarrow> unit step" where
  "markAsInvalid lib txID = wtx (invalid_uow lib txID)"

text \<open>The unit of work of \<open>markAsUnminedAndUnproven\<close>.\<close>

definition recovered_uow :: "go_lib \<Rightarrow> string \<Rightarrow> unit db_tx" where
  "recovered_uow lib txID db =
     rbind (rwrap ''failed to set known tx to unmined'' (updateKnownTxStatus txID ProvenTxStatusUnmined []
         [note_GetMerklePathSuccess (proven_status_string ProvenTxStatusUnfail)] db)) (\<lambda>(_, db1).
     rbind (rwrap ''failed to set tx to unproven''
         (UpdateTransactionStatusByTxID txID TxStatusUnproven [TxStatusFailed] db1)) (\<lambda>(_, db2).
     rwrap ''failed to create UTXOs for spendable outputs''
       (CreateUTXOForSpendableOutputsByTxID lib txID (MarkCreatedOutputsAsSpendableByTxID txID db2))))"

definition markAsUnminedAndUnproven :: "go_lib \<Rightarrow> string \<Rightarrow> unit step" where
  "markAsUnminedAndUnproven lib txID = wtx (recovered_uow lib txID)"

text \<open>An error is logged and dropped; a panic is not recovered.\<close>

definition wlogged :: "unit step \<Rightarrow> unit step" where
  "wlogged m w = (case m w of (Inl e, w') \<Rightarrow> (if is_panic e then Inl e else Inr (), w') | (Inr _, w') \<Rightarrow> (Inr (), w'))"

definition has_merkle_path :: "merkle_path_result option \<Rightarrow> bool" where
  "has_merkle_path mp \<longleftrightarrow> (case mp of None \<Rightarrow> False | Some r \<Rightarrow> mr_MerklePath r \<noteq> None)"

definition unfailSingle :: "process_env \<Rightarrow> string \<Rightarrow> unit step" where
  "unfailSingle env txID =
     (case pe_MerklePath env txID of
        Inl e \<Rightarrow> if errors_Is e ErrNotFoundError then wlogged (markAsInvalid (pe_lib env) txID) else wreturn ()
      | Inr mp \<Rightarrow> if has_merkle_path mp then wlogged (markAsUnminedAndUnproven (pe_lib env) txID)
          else wlogged (markAsInvalid (pe_lib env) txID))"

text \<open>A page of the query, read from the current state.\<close>

definition unfail_page :: "int \<Rightarrow> paging \<Rightarrow> database \<Rightarrow> known_tx_for_status_sync list" where
  "unfail_page startTime paging =
     FindKnownTxIDsByStatuses statusesOfUnfailTxs (FromQueryOpts [WithPage paging, WithUntil startTime])"

fun unfail_pages :: "process_env \<Rightarrow> int \<Rightarrow> nat \<Rightarrow> paging \<Rightarrow> unit step" where
  "unfail_pages env startTime 0 paging = wreturn ()"
| "unfail_pages env startTime (Suc left) paging =
     wbind (wread (\<lambda>db. Inr (unfail_page startTime paging db))) (\<lambda>itemsPage.
     if itemsPage = [] then wreturn ()
     else wbind (wfor (\<lambda>item. unfailSingle env (kts_TxID item)) itemsPage) (\<lambda>_.
       if length itemsPage < unfailItemsPerPage then wreturn ()
       else unfail_pages env startTime left (Next paging)))"

definition UnFail :: "process_env \<Rightarrow> unit step" where
  "UnFail env w = unfail_pages env (db_Now (w_db w)) unfailMaxPages
     \<lparr>pg_Limit = int unfailItemsPerPage, pg_Offset = 0, pg_Sort = ''asc'', pg_SortBy = [], pg_ThenBy = []\<rparr> w"

end
