(* ===== verification/External_Status.thy ===== *)
theory External_Status
  imports Unfail
begin

text \<open>
  Status events pushed by a broadcaster, \<open>pkg/storage/internal/actions/process_external_status.go\<close>.
\<close>

section \<open>Events\<close>

record broadcast_status_event =
  ev_EventID :: string
  ev_TxID :: string
  ev_Status :: string
  ev_BlockHash :: string
  ev_BlockHeight :: nat
  ev_MerklePath :: string
  ev_ExtraInfo :: string
  ev_CompetingTxs :: "string list"

record tx_synchronized_status =
  tss_TxID :: string
  tss_Reference :: string
  tss_Status :: proven_tx_req_status
  tss_MerkleRoot :: string
  tss_MerklePath :: "merkle_path option"
  tss_BlockHeight :: nat
  tss_BlockHash :: string
  tss_Labels :: "string list"

definition isExternalBroadcastedStatus :: "string \<Rightarrow> bool" where
  "isExternalBroadcastedStatus status \<longleftrightarrow> status \<in> {''RECEIVED'', ''SENT_TO_NETWORK'', ''ACCEPTED_BY_NETWORK'',
     ''SEEN_ON_NETWORK'', ''SEEN_MULTIPLE_NODES'', ''SEEN_ON_MULTIPLE_NODES'', ''STUMP_PROCESSING'',
     ''ANNOUNCED_TO_NETWORK'', ''STORED''}"

definition isExternalRejectedStatus :: "string \<Rightarrow> bool" where
  "isExternalRejectedStatus status \<longleftrightarrow> status = ''REJECTED'' \<or> status = ''DOUBLE_SPEND_ATTEMPTED''"

definition isTerminalProvenTxStatus :: "proven_tx_req_status \<Rightarrow> bool" where
  "isTerminalProvenTxStatus status \<longleftrightarrow>
     status \<in> {ProvenTxStatusCompleted, ProvenTxStatusInvalid, ProvenTxStatusDoubleSpend}"

definition externalStatusNote :: "broadcast_status_event \<Rightarrow> history_note" where
  "externalStatusNote ev =
     (let n0 = WithAttribute ''status'' (NoteString (ev_Status ev)) (WithWhat ''externalBroadcastStatus'' NewBuilder);
          n1 = (if ev_EventID ev \<noteq> [] then WithAttribute ''eventId'' (NoteString (ev_EventID ev)) n0 else n0);
          n2 = (if ev_ExtraInfo ev \<noteq> [] then WithAttribute ''info'' (NoteString (ev_ExtraInfo ev)) n1 else n1)
      in if ev_CompetingTxs ev \<noteq> []
         then WithAttribute ''competingTxs'' (NoteString (strings_Join (ev_CompetingTxs ev) '','')) n2 else n2)"

definition referenceAndLabelsForTxID :: "string \<Rightarrow> database \<Rightarrow> string \<times> string list" where
  "referenceAndLabelsForTxID txID db =
     (case FindReferencesByTxIDs [txID] db txID of None \<Rightarrow> [] | Some r \<Rightarrow> r, GetLabelsForTxIDs [txID] db txID)"

text \<open>The synchronized status of a transaction without block information.\<close>

definition status_only :: "string \<Rightarrow> proven_tx_req_status \<Rightarrow> string \<times> string list \<Rightarrow> tx_synchronized_status" where
  "status_only txID status rl = \<lparr>tss_TxID = txID, tss_Reference = fst rl, tss_Status = status, tss_MerkleRoot = [],
     tss_MerklePath = None, tss_BlockHeight = 0, tss_BlockHash = [], tss_Labels = snd rl\<rparr>"

definition report_status :: "string \<Rightarrow> proven_tx_req_status \<Rightarrow> tx_synchronized_status list step" where
  "report_status txID status =
     wbind (wread (\<lambda>db. Inr (referenceAndLabelsForTxID txID db))) (\<lambda>rl. wreturn [status_only txID status rl])"

section \<open>Mined\<close>

definition merklePathFromServices :: "process_env \<Rightarrow> string \<Rightarrow> (merkle_path \<times> merkle_header) option result" where
  "merklePathFromServices env txID =
     (case pe_MerklePath env txID of
        Inl e \<Rightarrow> if errors_Is e ErrNotFoundError then Inr None
          else Inl (wrap_error ''failed to fetch merkle path for externally mined tx'' e)
      | Inr None \<Rightarrow> Inl (GoPanic ''nil pointer dereference'')
      | Inr (Some r) \<Rightarrow>
          (case (mr_MerklePath r, mr_BlockHeader r) of (Some p, Some h) \<Rightarrow> Inr (Some (p, h)) | _ \<Rightarrow> Inr None))"

definition resolveExternalMerklePath :: "process_env \<Rightarrow> broadcast_status_event \<Rightarrow> (merkle_path \<times> merkle_header) option result" where
  "resolveExternalMerklePath env ev =
     (if ev_MerklePath ev = [] then merklePathFromServices env (ev_TxID ev)
      else if ev_BlockHash ev = [] then merklePathFromServices env (ev_TxID ev)
      else
        rbind (rwrap ''failed to parse merkle path from external status event'' (pe_NewMerklePathFromHex env (ev_MerklePath ev))) (\<lambda>path.
        if ev_BlockHeight ev \<noteq> 0 \<and> mp_BlockHeight path \<noteq> ev_BlockHeight ev
        then Inl (GoErr ''merkle path block height does not match event block height'')
        else
          rbind (rwrap ''failed to compute merkle root from external merkle path'' (pe_ComputeRootHex env path (ev_TxID ev))) (\<lambda>root.
          rbind (rwrap ''failed to parse computed merkle root'' (pe_NewHashFromHex env root)) (\<lambda>rootHash.
          rbind (rwrap ''failed to validate merkle root for height'' (pe_IsValidRootForHeight env rootHash (mp_BlockHeight path))) (\<lambda>valid.
          if \<not> valid then Inl (GoErr ''merkle root from external status event is not valid for height'')
          else Inr (Some (path, \<lparr>mh_Height = mp_BlockHeight path, mh_MerkleRoot = root, mh_Hash = ev_BlockHash ev\<rparr>)))))))"

definition applyExternalMined :: "process_env \<Rightarrow> broadcast_status_event \<Rightarrow> tx_synchronized_status list step" where
  "applyExternalMined env ev =
     wbind (wresult (resolveExternalMerklePath env ev)) (\<lambda>resolved.
     case resolved of
       None \<Rightarrow> wreturn []
     | Some (path, header) \<Rightarrow>
         wbind (wread (\<lambda>db. Inr (FindTransactionIDsByTxID (ev_TxID ev) db))) (\<lambda>transactionIDs.
         wbind (wupdate (UpdateKnownTxAsMined
           \<lparr>kam_TxID = ev_TxID ev, kam_BlockHeight = mh_Height header, kam_MerklePath = mp_Bytes path,
            kam_MerkleRoot = mh_MerkleRoot header, kam_BlockHash = mh_Hash header,
            kam_Notes = map note_NotifyTxOfProof transactionIDs @
              [WithNewStatus (proven_status_string ProvenTxStatusCompleted) (externalStatusNote ev)]\<rparr>)) (\<lambda>_.
         wbind (wread (\<lambda>db. Inr (referenceAndLabelsForTxID (ev_TxID ev) db))) (\<lambda>rl.
         wreturn [\<lparr>tss_TxID = ev_TxID ev, tss_Reference = fst rl, tss_Status = ProvenTxStatusCompleted,
           tss_MerkleRoot = mh_MerkleRoot header, tss_MerklePath = Some path, tss_BlockHeight = mh_Height header,
           tss_BlockHash = mh_Hash header, tss_Labels = snd rl\<rparr>]))))"

section \<open>Accepted\<close>

definition advanceToBroadcastedFromExternalEvent ::
  "process_env \<Rightarrow> broadcast_status_event \<Rightarrow> proven_tx_req_status \<Rightarrow> tx_synchronized_status list step" where
  "advanceToBroadcastedFromExternalEvent env ev current =
     (if current \<noteq> ProvenTxStatusUnsent \<and> current \<noteq> ProvenTxStatusSending then wreturn []
      else
        wbind (wwrap ''failed to advance tx to the post-broadcast state'' (wtx (AdvanceKnownTxToBroadcasted (pe_lib env) (ev_TxID ev)
          ProvenTxReqBeyondBroadcastStageStatuses
          [WithNewStatus (proven_status_string ProvenTxStatusUnmined) (externalStatusNote ev)]))) (\<lambda>applied.
        if \<not> applied then wreturn [] else report_status (ev_TxID ev) ProvenTxStatusUnmined))"

section \<open>Rejected\<close>

definition synthesizeRejectedVerdict :: "broadcast_status_event \<Rightarrow> aggregated" where
  "synthesizeRejectedVerdict ev =
     [ev_TxID ev \<mapsto>
       \<lparr>ag_results = [\<lparr>pt_result = (if ev_CompetingTxs ev \<noteq> [] then PostedTxIDResultDoubleSpend else PostedTxIDResultMissingInputs),
          pt_txid = ev_TxID ev, pt_double_spend = True, pt_competing_txs = ev_CompetingTxs ev, pt_error = False,
          pt_notes = [externalStatusNote ev]\<rparr>],
        ag_status = AggregatedPostedTxIDDoubleSpend, ag_success = 0, ag_double_spend = 1, ag_status_error = 0,
        ag_service_error = 0, ag_competing = set (ev_CompetingTxs ev)\<rparr>]"

definition requeueableStatuses :: "proven_tx_req_status list" where
  "requeueableStatuses = [ProvenTxStatusUnmined, ProvenTxStatusCallback, ProvenTxStatusUnknown]"

definition requeueExternallyRejectedTx ::
  "process_env \<Rightarrow> broadcast_status_event \<Rightarrow> aggregated_txid \<Rightarrow> tx_synchronized_status list step" where
  "requeueExternallyRejectedTx env ev agg =
     wbind (wwrap ''failed to requeue externally rejected tx for rebroadcast'' (wtx (RequeueKnownTxForRebroadcast (ev_TxID ev)
       (pe_maxRebroadcastAttempts env) requeueableStatuses (notesForPostBEEF ProvenTxStatusUnsent agg)))) (\<lambda>(newStatus, applied).
     if \<not> applied then wreturn [] else report_status (ev_TxID ev) newStatus)"

definition failExternallyRejectedTx ::
  "process_env \<Rightarrow> broadcast_status_event \<Rightarrow> aggregated_txid \<Rightarrow> tx_synchronized_status list step" where
  "failExternallyRejectedTx env ev agg =
     wbind (wwrap ''failed to apply terminal double-spend failure for externally rejected tx'' (wtx (FailKnownTxAsDoubleSpend (ev_TxID ev)
       [ProvenTxStatusCompleted, ProvenTxStatusDoubleSpend] (notesForPostBEEF ProvenTxStatusDoubleSpend agg)))) (\<lambda>applied.
     if \<not> applied then wreturn [] else report_status (ev_TxID ev) ProvenTxStatusDoubleSpend)"

definition applyExternalRejected ::
  "process_env \<Rightarrow> broadcast_status_event \<Rightarrow> proven_tx_req_status \<Rightarrow> tx_synchronized_status list step" where
  "applyExternalRejected env ev current =
     (case confirmDoubleSpends env [ev_TxID ev] (synthesizeRejectedVerdict ev) (ev_TxID ev) of
        None \<Rightarrow> wfail (GoPanic ''nil pointer dereference'')
      | Some agg \<Rightarrow>
          (case ag_status agg of
             AggregatedPostedTxIDSuccess \<Rightarrow> advanceToBroadcastedFromExternalEvent env ev current
           | AggregatedPostedTxIDServiceError \<Rightarrow> requeueExternallyRejectedTx env ev agg
           | AggregatedPostedTxIDDoubleSpend \<Rightarrow> failExternallyRejectedTx env ev agg
           | _ \<Rightarrow> wfail (GoErr ''unexpected verdict status while processing external REJECTED event'')))"

section \<open>The handler\<close>

definition ProcessExternalTxStatusUpdate :: "process_env \<Rightarrow> broadcast_status_event \<Rightarrow> tx_synchronized_status list step" where
  "ProcessExternalTxStatusUpdate env ev =
     wbind (wread (\<lambda>db. Inr (FindKnownTxStatuses [ev_TxID ev] db (ev_TxID ev)))) (\<lambda>found.
     case found of
       None \<Rightarrow> wreturn []
     | Some current \<Rightarrow>
         if isTerminalProvenTxStatus current then wreturn []
         else if ev_Status ev = ''MINED'' \<or> ev_Status ev = ''IMMUTABLE'' then applyExternalMined env ev
         else if isExternalBroadcastedStatus (ev_Status ev) then advanceToBroadcastedFromExternalEvent env ev current
         else if isExternalRejectedStatus (ev_Status ev) then applyExternalRejected env ev current
         else wreturn [])"

end
