(* ===== verification/Sync_Statuses.thy ===== *)
theory Sync_Statuses
  imports External_Status
begin

text \<open>
  The periodic synchronisation of transaction statuses, \<open>pkg/storage/internal/actions/synchronize_tx_statuses.go\<close>.

  The services, the configuration and the moments at which the context is done are parameters. A run returns the statuses
  it has committed together with an error, if any, so that the results of a failed run are not lost.
\<close>

section \<open>Configuration and services\<close>

record sync_env =
  sy_lib :: go_lib
  sy_FindChainTipHeader :: "(nat \<times> string) result"
  sy_GetStatusForTxIDs :: "string list \<Rightarrow> get_status_result option result"
  sy_MerklePath :: "string \<Rightarrow> merkle_path_result option result"
  sy_Done :: "nat \<Rightarrow> go_error option"
  sy_BlocksDelay :: nat
  sy_MaxAttempts :: nat
  sy_MaxRebroadcastAttempts :: nat
  sy_checkNoSendDuration :: int
  sy_reorgReproveDelay :: int

definition syncTxStatusMaxPages :: nat where
  "syncTxStatusMaxPages = 10"

definition syncTxStatusesPerPage :: nat where
  "syncTxStatusesPerPage = 1000"

definition reviewKnownTxStatusesMaxPages :: nat where
  "reviewKnownTxStatusesMaxPages = 10"

definition reviewKnownTxStatusesPerPage :: nat where
  "reviewKnownTxStatusesPerPage = 1000"

definition lastBlockKey :: string where
  "lastBlockKey = ''synchronize_tx_statuses_last_block''"

definition noSendLastCheck :: string where
  "noSendLastCheck = ''synchronize_tx_statuses_last_check_no_send''"

definition statusesReadyToSync :: "proven_tx_req_status list" where
  "statusesReadyToSync = [ProvenTxStatusCallback, ProvenTxStatusUnmined, ProvenTxStatusSending, ProvenTxStatusUnknown,
     ProvenTxStatusUnconfirmed, ProvenTxStatusReorg]"

section \<open>The remembered block and the no-send check\<close>

definition wset :: "string \<Rightarrow> kv_value \<Rightarrow> unit step" where
  "wset key v w = (Inr (), w\<lparr>w_KeyValues := (w_KeyValues w)(key \<mapsto> v)\<rparr>)"

text \<open>The timestamp is written with a resolution of seconds.\<close>

definition setCurrentTimeAsLastCheckNoSend :: "unit step" where
  "setCurrentTimeAsLastCheckNoSend w =
     wset noSendLastCheck (KvTime (db_Now (w_db w) div 1000000000 * 1000000000)) w"

definition statusesWithNoSend :: "proven_tx_req_status list step" where
  "statusesWithNoSend = wbind setCurrentTimeAsLastCheckNoSend (\<lambda>_. wreturn (statusesReadyToSync @ [ProvenTxStatusNoSend]))"

definition getStatusesReadyToSync :: "sync_env \<Rightarrow> proven_tx_req_status list step" where
  "getStatusesReadyToSync s w =
     (case w_KeyValues w noSendLastCheck of
        None \<Rightarrow> statusesWithNoSend w
      | Some (KvTime tim) \<Rightarrow>
          if sy_checkNoSendDuration s < db_Now (w_db w) - tim then statusesWithNoSend w else (Inr statusesReadyToSync, w)
      | Some _ \<Rightarrow> wbind setCurrentTimeAsLastCheckNoSend (\<lambda>_. wreturn statusesReadyToSync) w)"

definition getLastBlock :: "world \<Rightarrow> last_block_value option result" where
  "getLastBlock w =
     (case w_KeyValues w lastBlockKey of
        None \<Rightarrow> Inr None
      | Some (KvLastBlock b) \<Rightarrow>
          if lb_BlockHeight b = 0 then Inl (GoErr ''last block height is zero, this should not happen'') else Inr (Some b)
      | Some _ \<Rightarrow> Inl (GoErr ''failed to unmarshal last block height''))"

definition setLastBlock :: "nat \<Rightarrow> string \<Rightarrow> unit step" where
  "setLastBlock height h = wset lastBlockKey (KvLastBlock \<lparr>lb_BlockHeight = height, lb_BlockHash = h\<rparr>)"

section \<open>Filtering by confirmation depth\<close>

text \<open>The last report about a txid with a depth decides.\<close>

definition depthByTxID :: "txid_status list \<Rightarrow> (string \<rightharpoonup> int)" where
  "depthByTxID results = fold (\<lambda>r m. if ts_Status r = ResultStatusForTxIDNotFound then m
     else case ts_Depth r of None \<Rightarrow> m | Some d \<Rightarrow> m(ts_TxID r \<mapsto> d)) results Map.empty"

definition absentTxIDs :: "txid_status list \<Rightarrow> string list" where
  "absentTxIDs results = map ts_TxID (filter (\<lambda>r. ts_Status r = ResultStatusForTxIDNotFound) results)"

definition filterTxsByConfirmationDepth :: "sync_env \<Rightarrow> known_tx_for_status_sync list \<Rightarrow>
    (known_tx_for_status_sync list \<times> string list) result" where
  "filterTxsByConfirmationDepth s txs =
     (if txs = [] then Inr (txs, [])
      else (case sy_GetStatusForTxIDs s (map kts_TxID txs) of
         Inl _ \<Rightarrow> Inr ([], [])
       | Inr None \<Rightarrow> Inl (GoPanic ''nil pointer dereference'')
       | Inr (Some statusResult) \<Rightarrow>
           Inr (filter (\<lambda>tx. case depthByTxID (gs_Results statusResult) (kts_TxID tx) of
                  None \<Rightarrow> False | Some depth \<Rightarrow> 0 \<le> depth \<and> int (sy_BlocksDelay s) \<le> depth) txs,
                absentTxIDs (gs_Results statusResult))))"

section \<open>Reviewing failed transactions\<close>

definition terminalFailureStatuses :: "proven_tx_req_status list" where
  "terminalFailureStatuses = [ProvenTxStatusInvalid, ProvenTxStatusDoubleSpend]"

fun fail_transactions :: "nat list \<Rightarrow> unit db_tx" where
  "fail_transactions [] db = Inr ((), db)"
| "fail_transactions (i # ids) db =
     rbind (rwrap ''failed to set failed transaction status'' (UpdateTransactionStatusByID i TxStatusFailed [] db)) (\<lambda>(_, db1).
       fail_transactions ids (MarkCreatedOutputsAsNotSpendable i db1))"

definition review_one :: "string \<Rightarrow> unit db_tx" where
  "review_one txID db = fail_transactions (FindTransactionIDsByTxID txID db) db"

fun review_pages :: "nat \<Rightarrow> unit step" where
  "review_pages 0 = wreturn ()"
| "review_pages (Suc left) =
     wbind (wread (\<lambda>db. Inr (FindKnownTxIDsByStatusesNeedingFailureReview terminalFailureStatuses
       (int reviewKnownTxStatusesPerPage) db))) (\<lambda>failedKnownTxs.
     if failedKnownTxs = [] then wreturn ()
     else wbind (wfor (\<lambda>failedTx. wtx (review_one (kts_TxID failedTx))) failedKnownTxs) (\<lambda>_.
       if length failedKnownTxs < reviewKnownTxStatusesPerPage then wreturn () else review_pages left))"

definition reviewKnownTxStatuses :: "unit step" where
  "reviewKnownTxStatuses = review_pages reviewKnownTxStatusesMaxPages"

section \<open>Synchronising\<close>

fun sync_pages :: "sync_env \<Rightarrow> proven_tx_req_status list \<Rightarrow> nat \<Rightarrow> paging \<Rightarrow> database \<Rightarrow> known_tx_for_status_sync list" where
  "sync_pages s statuses 0 paging db = []"
| "sync_pages s statuses (Suc left) paging db =
     (let txsPage = FindKnownTxIDsReadyForStatusSync statuses (sy_reorgReproveDelay s) (FromQueryOpts [WithPage paging]) db in
      txsPage @ (if length txsPage < syncTxStatusesPerPage then [] else sync_pages s statuses left (Next paging) db))"

text \<open>One transaction: \<open>Inl\<close> of its txid when no proof is available, \<open>Inr\<close> of the committed status otherwise.\<close>

definition sync_one :: "sync_env \<Rightarrow> (string \<rightharpoonup> string) \<Rightarrow> (string \<Rightarrow> string list) \<Rightarrow> string \<Rightarrow> (string + tx_synchronized_status) step" where
  "sync_one s references labels txID =
     (case sy_MerklePath s txID of
        Inl e \<Rightarrow> if is_panic e then wfail e else wreturn (Inl txID)
      | Inr None \<Rightarrow> wfail (GoPanic ''nil pointer dereference'')
      | Inr (Some r) \<Rightarrow>
          (case (mr_BlockHeader r, mr_MerklePath r) of
             (Some header, Some path) \<Rightarrow>
               wbind (wread (\<lambda>db. Inr (FindTransactionIDsByTxID txID db))) (\<lambda>transactionIDs.
               wbind (wupdate (UpdateKnownTxAsMined
                 \<lparr>kam_TxID = txID, kam_BlockHeight = mh_Height header, kam_MerklePath = mp_Bytes path,
                  kam_MerkleRoot = mh_MerkleRoot header, kam_BlockHash = mh_Hash header,
                  kam_Notes = map note_NotifyTxOfProof transactionIDs\<rparr>)) (\<lambda>_.
               wreturn (Inr \<lparr>tss_TxID = txID, tss_Reference = (case references txID of None \<Rightarrow> [] | Some x \<Rightarrow> x),
                 tss_Status = ProvenTxStatusCompleted, tss_MerkleRoot = mh_MerkleRoot header, tss_MerklePath = Some path,
                 tss_BlockHeight = mh_Height header, tss_BlockHash = mh_Hash header, tss_Labels = labels txID\<rparr>)))
           | _ \<Rightarrow> wreturn (Inl txID)))"

text \<open>The loop over the transactions: the committed statuses, the failed attempts and the error that stopped it.\<close>

fun sync_loop :: "sync_env \<Rightarrow> (string \<rightharpoonup> string) \<Rightarrow> (string \<Rightarrow> string list) \<Rightarrow> nat \<Rightarrow> string list \<Rightarrow>
    tx_synchronized_status list \<times> string list \<Rightarrow> world \<Rightarrow>
    (tx_synchronized_status list \<times> string list \<times> go_error option) \<times> world" where
  "sync_loop s references labels n [] (txStatuses, failedAttempts) w = ((txStatuses, failedAttempts, None), w)"
| "sync_loop s references labels n (txID # txIDs) (txStatuses, failedAttempts) w =
     (case sy_Done s n of
        Some e \<Rightarrow> ((txStatuses, failedAttempts, Some (wrap_error ''context canceled, aborting synchronizeTxStatuses'' e)), w)
      | None \<Rightarrow>
          (case sync_one s references labels txID w of
             (Inl e, w') \<Rightarrow> ((txStatuses, failedAttempts, Some e), w')
           | (Inr (Inl failed), w') \<Rightarrow> sync_loop s references labels (n + 1) txIDs (txStatuses, failedAttempts @ [failed]) w'
           | (Inr (Inr st), w') \<Rightarrow> sync_loop s references labels (n + 1) txIDs (txStatuses @ [st], failedAttempts) w'))"

text \<open>The statuses of a run together with the error of the failure review.\<close>

definition with_review :: "tx_synchronized_status list \<Rightarrow> world \<Rightarrow> (tx_synchronized_status list \<times> go_error option) \<times> world" where
  "with_review txStatuses w =
     (case reviewKnownTxStatuses w of
        (Inl e, w') \<Rightarrow> ((txStatuses, Some (wrap_error ''failed to review known tx statuses'' e)), w')
      | (Inr _, w') \<Rightarrow> ((txStatuses, None), w'))"

text \<open>The part of \<open>doSynchronizeTxStatuses\<close> after the loop: attempts, timeouts, review.\<close>

definition finish_sync :: "sync_env \<Rightarrow> proven_tx_req_status list \<Rightarrow> (string \<rightharpoonup> string) \<Rightarrow> (string \<Rightarrow> string list) \<Rightarrow>
    tx_synchronized_status list \<Rightarrow> string list \<Rightarrow> world \<Rightarrow> (tx_synchronized_status list \<times> go_error option) \<times> world" where
  "finish_sync s statuses references labels txStatuses failedAttempts w =
     (let db1 = IncreaseKnownTxAttemptsForTxIDs failedAttempts (w_db w);
          (updatedTxs, db2) = ApplyProofTimeouts (sy_MaxAttempts s) (sy_MaxRebroadcastAttempts s) statuses db1
      in with_review (txStatuses @ map (\<lambda>k. status_only (kt_TxID k) (kt_Status k)
           (case references (kt_TxID k) of None \<Rightarrow> [] | Some x \<Rightarrow> x, labels (kt_TxID k))) updatedTxs) (w\<lparr>w_db := db2\<rparr>))"

definition doSynchronizeTxStatuses :: "sync_env \<Rightarrow> world \<Rightarrow> (tx_synchronized_status list \<times> go_error option) \<times> world" where
  "doSynchronizeTxStatuses s w0 =
     (case getStatusesReadyToSync s w0 of
        (Inl e, w) \<Rightarrow> (([], Some (wrap_error ''failed to get statuses ready to sync'' e)), w)
      | (Inr statuses, w) \<Rightarrow>
          let txsToSync = sync_pages s statuses syncTxStatusMaxPages
                \<lparr>pg_Limit = int syncTxStatusesPerPage, pg_Offset = 0, pg_Sort = ''asc'', pg_SortBy = [], pg_ThenBy = []\<rparr> (w_db w)
          in if txsToSync = [] then with_review [] w
             else (case filterTxsByConfirmationDepth s txsToSync of
                Inl e \<Rightarrow> (([], Some e), w)
              | Inr (txs, absent) \<Rightarrow>
                  if txs = [] \<and> absent = [] then with_review [] w
                  else
                    let txIDs = map kts_TxID txs;
                        references = FindReferencesByTxIDs (txIDs @ absent) (w_db w);
                        labels = GetLabelsForTxIDs (txIDs @ absent) (w_db w)
                    in (case sync_loop s references labels 0 txIDs ([], []) w of
                          ((txStatuses, failedAttempts, Some e), w') \<Rightarrow> ((txStatuses, Some e), w')
                        | ((txStatuses, failedAttempts, None), w') \<Rightarrow>
                            finish_sync s statuses references labels txStatuses (failedAttempts @ absent) w')))"

text \<open>\<open>synchronizeTxStatusesInternal\<close>, after the lock was taken or not.\<close>

definition synchronizeTxStatusesInternal :: "sync_env \<Rightarrow> bool \<Rightarrow> nat \<Rightarrow> string \<Rightarrow> world \<Rightarrow>
    (tx_synchronized_status list \<times> go_error option) \<times> world" where
  "synchronizeTxStatusesInternal s locked heightForCheck hashForCheck w =
     (if locked then (([], None), w)
      else if getLastBlock w = Inr (Some \<lparr>lb_BlockHeight = heightForCheck, lb_BlockHash = hashForCheck\<rparr>) then (([], None), w)
      else (case doSynchronizeTxStatuses s w of
         ((txStatuses, Some e), w') \<Rightarrow> ((txStatuses, Some e), w')
       | ((txStatuses, None), w') \<Rightarrow>
           if 0 < heightForCheck \<and> hashForCheck \<noteq> []
           then ((txStatuses, None), snd (setLastBlock heightForCheck hashForCheck w'))
           else ((txStatuses, None), w')))"

text \<open>The height to check is an unsigned difference: it wraps when the tip is below the delay.\<close>

definition height_for_check :: "sync_env \<Rightarrow> nat \<Rightarrow> nat" where
  "height_for_check s height = nat ((int height - int (sy_BlocksDelay s)) mod 2 ^ 64)"

definition SynchronizeTxStatuses :: "sync_env \<Rightarrow> bool \<Rightarrow> world \<Rightarrow> (tx_synchronized_status list \<times> go_error option) \<times> world" where
  "SynchronizeTxStatuses s locked w =
     (case sy_FindChainTipHeader s of
        Inl _ \<Rightarrow> synchronizeTxStatusesInternal s locked 0 [] w
      | Inr (height, h) \<Rightarrow> synchronizeTxStatusesInternal s locked (height_for_check s height) h w)"

definition SynchronizeTxStatusesForTip :: "sync_env \<Rightarrow> bool \<Rightarrow> nat \<Rightarrow> string \<Rightarrow> world \<Rightarrow>
    (tx_synchronized_status list \<times> go_error option) \<times> world" where
  "SynchronizeTxStatusesForTip s locked tipHeight tipHash w =
     synchronizeTxStatusesInternal s locked (height_for_check s tipHeight) tipHash w"

end
