(* ===== verification/Background_Correct.thy ===== *)
theory Background_Correct
  imports Process_Correct Sync_Statuses
begin

text \<open>
  The background tasks are runs of storage steps as well: the sweep over waiting transactions, the recovery of failed
  ones, the handler of external status events and the synchronisation of statuses.
\<close>

section \<open>Recovery of failed transactions\<close>

lemma tx_runs_trans:
  assumes "tx_runs lib f" and "\<And>x. tx_runs lib (g x)"
  shows "tx_runs lib (\<lambda>db. rbind (rwrap msg (f db)) (\<lambda>(x, db1). g x db1))"
  using assms unfolding tx_runs_def by (fastforce simp: result_simps intro: rtranclp_trans)

lemma tx_runs_wrap: "tx_runs lib f \<Longrightarrow> tx_runs lib (\<lambda>db. rwrap msg (f db))"
  by (auto simp: tx_runs_def result_simps)

lemma Recreate_transactions: "RecreateSpentOutputs lib i db = Inr (x, db') \<Longrightarrow> db_Transactions db' = db_Transactions db"
  by (auto simp: RecreateSpentOutputs_def recreateSpentOutputs_def createUTXOsFromOutputs_def makeOutputsSpendable_def flow_simps
      Let_def result_simps)

lemma recreate_all_runs:
  "recreate_all lib ids db = Inr (x, db') \<Longrightarrow> set ids \<subseteq> set (transaction_ids txID db) \<Longrightarrow> (storage_step lib)\<^sup>*\<^sup>* db db'"
proof (induction ids arbitrary: db)
  case (Cons i ids)
  from Cons.prems(1) obtain y db1 where r: "RecreateSpentOutputs lib i db = Inr (y, db1)"
    and rest: "recreate_all lib ids (MarkCreatedOutputsAsNotSpendable i db1) = Inr (x, db')"
    by (auto simp: result_simps)
  have "transaction_ids txID (MarkCreatedOutputsAsNotSpendable i db1) = transaction_ids txID db"
    using Recreate_transactions [OF r] by (simp add: transaction_ids_def MarkCreatedOutputsAsNotSpendable_def)
  then have "(storage_step lib)\<^sup>*\<^sup>* (MarkCreatedOutputsAsNotSpendable i db1) db'"
    using Cons.IH [OF rest] Cons.prems(2) by simp
  moreover have "storage_step lib db db1" using r Cons.prems(2) by (auto intro: storage_step.restore_inputs)
  ultimately show ?case
    by (meson converse_rtranclp_into_rtranclp storage_step.mark_not_spendable)
qed simp

lemma invalid_uow_runs: "tx_runs lib (invalid_uow lib txID)"
proof -
  have "tx_runs lib (\<lambda>db. recreate_all lib (FindTransactionIDsByTxID txID db) db)"
    using recreate_all_runs by (fastforce simp: tx_runs_def FindTransactionIDsByTxID_def transaction_ids_def)
  then show ?thesis unfolding invalid_uow_def by (intro tx_runs_trans tx_runs_ops)
qed

lemma recovered_uow_runs: "tx_runs lib (recovered_uow lib txID)"
proof -
  have "tx_runs lib (\<lambda>db. CreateUTXOForSpendableOutputsByTxID lib txID (MarkCreatedOutputsAsSpendableByTxID txID db))"
    unfolding tx_runs_def
    by (meson converse_rtranclp_into_rtranclp r_into_rtranclp storage_step.index_spendable storage_step.mark_spendable)
  from tx_runs_wrap [OF this] show ?thesis unfolding recovered_uow_def by (intro tx_runs_trans tx_runs_ops)
qed

lemma within_logged: "step_within (runs lib) m \<Longrightarrow> step_within (runs lib) (wlogged m)"
  by (auto simp: step_within_def wlogged_def split: prod.splits sum.splits) (metis snd_conv)+

lemma within_unfailSingle: "step_within (runs (pe_lib env)) (unfailSingle env txID)"
  unfolding unfailSingle_def markAsInvalid_def markAsUnminedAndUnproven_def
  by (intro within_basic within_logged invalid_uow_runs recovered_uow_runs)

lemma within_unfail_pages: "step_within (runs (pe_lib env)) (unfail_pages env startTime left paging)"
  by (induction left arbitrary: paging) (auto intro!: within_basic within_unfailSingle)

lemma UnFail_runs: "runs (pe_lib env) w (snd (UnFail env w))"
  unfolding UnFail_def by (rule runs.within_at [OF within_unfail_pages])

section \<open>External events\<close>

lemma within_report_status: "step_within (runs lib) (report_status txID status)"
  unfolding report_status_def by (intro within_basic)

lemma within_advance: "step_within (runs (pe_lib env)) (advanceToBroadcastedFromExternalEvent env ev current)"
  unfolding advanceToBroadcastedFromExternalEvent_def by (intro within_basic within_report_status)

lemma within_requeue: "step_within (runs (pe_lib env)) (requeueExternallyRejectedTx env ev agg)"
  unfolding requeueExternallyRejectedTx_def by (intro within_basic within_report_status)

lemma within_fail: "step_within (runs (pe_lib env)) (failExternallyRejectedTx env ev agg)"
  unfolding failExternallyRejectedTx_def by (intro within_basic within_report_status)

lemma within_rejected: "step_within (runs (pe_lib env)) (applyExternalRejected env ev current)"
proof (cases "confirmDoubleSpends env [ev_TxID ev] (synthesizeRejectedVerdict ev) (ev_TxID ev)")
  case None
  then show ?thesis by (simp add: applyExternalRejected_def within_basic)
next
  case (Some agg)
  then show ?thesis
    by (cases "ag_status agg") (simp_all add: applyExternalRejected_def within_basic within_advance within_requeue within_fail)
qed

lemma within_mined: "step_within (runs (pe_lib env)) (applyExternalMined env ev)"
  unfolding applyExternalMined_def by (intro within_basic)

lemma within_external: "step_within (runs (pe_lib env)) (ProcessExternalTxStatusUpdate env ev)"
  unfolding ProcessExternalTxStatusUpdate_def by (intro within_basic within_mined within_advance within_rejected)

section \<open>The sweep\<close>

text \<open>The sweep broadcasts with the guarantees of processing: everything it posts was claimed.\<close>

lemma broadcastDelayed_safe: "safe (pe_lib env) w (snd (broadcastDelayedTransaction env txIDs w))"
proof -
  have "safe (pe_lib env) (w\<lparr>w_release := None\<rparr>)
      (snd (wwrap ''broadcast of waiting batch failed'' (broadcastTxs env txIDs False) (w\<lparr>w_release := None\<rparr>)))"
    by (intro safe.within_at safe.within_wrap safe_broadcastTxs)
  then show ?thesis
    unfolding broadcastDelayedTransaction_def by (auto simp: safe_def runs_def disarmed_def)
qed

lemma sweep_batches_safe:
  assumes lib: "\<And>n. pe_lib (envs n) = lib"
  shows "safe lib w (snd (sweep_batches envs clock n budget batches acc w))"
proof (induction batches arbitrary: n budget acc w)
  case (Cons batch batches)
  obtain results errs where acc: "acc = (results, errs)" by (cases acc)
  obtain r w' where b: "broadcastDelayedTransaction (envs n) (wb_txIDs batch) w = (r, w')" by (metis surj_pair)
  have "safe lib w w'" using broadcastDelayed_safe [of "envs n" w "wb_txIDs batch"] b lib by simp
  moreover have "safe lib w' (snd (sweep_batches envs clock m budget' batches acc' w'))" for m budget' acc' by (rule Cons.IH)
  ultimately have "safe lib w (snd (sweep_batches envs clock m budget' batches acc' w'))" for m budget' acc'
    by (rule safe_trans)
  then show ?case using \<open>safe lib w w'\<close> b by (auto simp: acc safe_refl Let_def split: sum.splits)
qed (simp add: safe_refl)

lemma SendWaiting_safe:
  assumes "\<And>n. pe_lib (envs n) = lib"
  shows "safe lib w (snd (SendWaitingTransactions envs clock done fault locked age w))"
proof -
  have "safe lib w w'" if "sweep_batches envs clock 0 budget batches acc w = (x, w')" for budget batches acc x w'
    using sweep_batches_safe [where envs = envs and lib = lib and w = w and clock = clock and n = 0 and budget = budget and
      batches = batches and acc = acc] assms that by simp
  then show ?thesis
    by (auto simp: SendWaitingTransactions_def safe_refl simp del: sweep_batches.simps split: sum.splits list.splits prod.splits)
qed

section \<open>Synchronisation\<close>

lemma tx_runs_fail: "tx_runs lib (fail_transactions ids)"
proof (induction ids)
  case (Cons i ids)
  then have "tx_runs lib (\<lambda>db. fail_transactions ids (MarkCreatedOutputsAsNotSpendable i db))"
    unfolding tx_runs_def by (meson converse_rtranclp_into_rtranclp storage_step.mark_not_spendable)
  then have "tx_runs lib (\<lambda>db. rbind (rwrap msg (UpdateTransactionStatusByID i TxStatusFailed [] db))
      (\<lambda>(x, db1). fail_transactions ids (MarkCreatedOutputsAsNotSpendable i db1)))" for msg
    by (intro tx_runs_trans tx_runs_ops)
  then show ?case unfolding fail_transactions.simps by simp
qed (simp add: tx_runs_def)

lemma within_review: "step_within (runs lib) (review_pages left)"
proof -
  have "tx_runs lib (review_one txID)" for txID
    using tx_runs_fail unfolding review_one_def tx_runs_def by blast
  then show ?thesis by (induction left) (auto intro!: within_basic)
qed

lemma with_review_runs: "runs lib w (snd (with_review sts w))"
  using runs.within_at [OF within_review [of lib reviewKnownTxStatusesMaxPages], of w]
  by (auto simp: with_review_def reviewKnownTxStatuses_def split: sum.splits prod.splits)

lemma within_sync_one: "step_within (runs lib) (sync_one s refs labels txID)"
  unfolding sync_one_def by (intro within_basic)

lemma sync_loop_runs: "runs lib w (snd (sync_loop s refs labels n txIDs acc w))"
proof (induction txIDs arbitrary: n acc w)
  case (Cons txID txIDs)
  obtain sts failed where acc: "acc = (sts, failed)" by (cases acc)
  obtain r w' where b: "sync_one s refs labels txID w = (r, w')" by (metis surj_pair)
  have "runs lib w w'" using runs.within_at [OF within_sync_one [of lib s refs labels txID], of w] b by simp
  with Cons.IH [of w'] have "runs lib w (snd (sync_loop s refs labels m txIDs acc' w'))" for m acc'
    using runs.R_trans by blast
  with \<open>runs lib w w'\<close> b show ?case by (auto simp: acc runs.R_refl split: option.splits sum.splits)
qed (auto simp: runs.R_refl)

lemma finish_sync_runs: "runs (sy_lib s) w (snd (finish_sync s statuses refs labels sts failed w))"
proof -
  let ?db1 = "IncreaseKnownTxAttemptsForTxIDs failed (w_db w)"
  let ?db2 = "snd (ApplyProofTimeouts (sy_MaxAttempts s) (sy_MaxRebroadcastAttempts s) statuses ?db1)"
  have "storage_step (sy_lib s) (w_db w) ?db1" "storage_step (sy_lib s) ?db1 ?db2"
    by (rule storage_step.attempts) (rule storage_step.timeouts)
  then have "runs (sy_lib s) w (w\<lparr>w_db := ?db2\<rparr>)" by (auto simp: runs_def)
  from runs.R_trans [OF this with_review_runs] show ?thesis
    by (auto simp: finish_sync_def Let_def split: prod.splits)
qed

lemma getStatusesReadyToSync_db: "w_db (snd (getStatusesReadyToSync s w)) = w_db w"
  by (simp add: getStatusesReadyToSync_def statusesWithNoSend_def setCurrentTimeAsLastCheckNoSend_def wset_def step_defs
      split: option.splits kv_value.splits)

lemma doSynchronize_runs: "runs (sy_lib s) w (snd (doSynchronizeTxStatuses s w))"
proof -
  obtain r w1 where g: "getStatusesReadyToSync s w = (r, w1)" by (metis surj_pair)
  have 1: "runs (sy_lib s) w w1" using getStatusesReadyToSync_db [of s w] g by (simp add: runs_def)
  have rev: "runs (sy_lib s) w (snd (with_review sts w1))" for sts using 1 with_review_runs runs.R_trans by blast
  have loop: "runs (sy_lib s) w w'" if "sync_loop s refs labels 0 ids ([], []) w1 = (x, w')" for refs labels ids x w'
    using sync_loop_runs [of "sy_lib s" w1 s refs labels 0 ids "([], [])"] that runs.R_trans [OF 1] by simp
  have fin: "runs (sy_lib s) w (snd (finish_sync s sts refs labels st failed w'))"
    if "sync_loop s refs labels 0 ids ([], []) w1 = (x, w')" for sts refs labels st failed ids x w'
    using loop [OF that] finish_sync_runs runs.R_trans by blast
  show ?thesis
    using g 1 rev loop fin by (auto simp: doSynchronizeTxStatuses_def Let_def split: sum.splits prod.splits option.splits)
qed

lemma synchronize_runs: "runs (sy_lib s) w (snd (synchronizeTxStatusesInternal s locked height h w))"
proof -
  obtain r w1 where d: "doSynchronizeTxStatuses s w = (r, w1)" by (metis surj_pair)
  then have "runs (sy_lib s) w w1" using doSynchronize_runs [of s w] by simp
  with d show ?thesis
    by (auto simp: synchronizeTxStatusesInternal_def runs_def setLastBlock_def wset_def split: option.splits prod.splits)
qed

end
