(* ===== verification/Beef.thy ===== *)
theory Beef
  imports Repo_KnownTx
begin

text \<open>
  BEEF data: transactions with their ancestry, as \<open>pkg/internal/storage/repo/known_tx_get_beef.go\<close> builds them out of the
  KnownTx table, and as \<open>pkg/internal/txutils\<close> links them.

  The container is the \<open>transaction.Beef\<close> of the Go SDK: a map from txids to entries, listed in the order of one
  iteration, and the merkle paths (BUMPs). Its operations are third-party code and a parameter, the record
  \<open>beef_sdk\<close>. Hashes are written as their hexadecimal strings, and an input records whether it is linked to its source transaction.
\<close>

section \<open>The container\<close>

datatype data_format = RawTx | RawTxAndBumpIndex | TxIDOnly

record bump_leaf =
  lf_Hash :: "string option"
  lf_Txid :: "bool option"

record merkle_bump =
  mb_Path :: "bump_leaf list list"

record tx_input =
  in_SourceTXID :: "string option"
  in_Linked :: bool

record tx_output =
  out_Satoshis :: nat
  out_LockingScript :: bytes

record full_tx =
  ft_TxID :: string
  ft_Inputs :: "tx_input list"
  ft_Outputs :: "tx_output list"
  ft_MerklePath :: "merkle_bump option"

record beef_tx =
  bt_DataFormat :: data_format
  bt_BumpIndex :: int
  bt_Transaction :: "full_tx option"

record sdk_beef =
  sb_Transactions :: "(string \<times> beef_tx) list"
  sb_BUMPs :: "merkle_bump list"

record beef_sdk =
  bs_NewHashFromHex :: "string \<Rightarrow> string result"
  bs_NewTransactionFromBytes :: "bytes \<Rightarrow> full_tx result"
  bs_NewMerklePathFromBinary :: "bytes \<Rightarrow> merkle_bump result"
  bs_MerklePath_Bytes :: "merkle_bump \<Rightarrow> bytes"
  bs_AddMerkleProof :: "merkle_bump \<Rightarrow> full_tx \<Rightarrow> full_tx result"
  bs_FindTransaction :: "sdk_beef \<Rightarrow> string \<Rightarrow> full_tx option"
  bs_MergeTxidOnly :: "string \<Rightarrow> sdk_beef \<Rightarrow> sdk_beef"
  bs_MergeRawTx :: "bytes \<Rightarrow> sdk_beef \<Rightarrow> sdk_beef result"
  bs_MergeTransaction :: "full_tx \<Rightarrow> sdk_beef \<Rightarrow> sdk_beef result"
  bs_MergeBeefBytes :: "bytes \<Rightarrow> sdk_beef \<Rightarrow> sdk_beef result"
  bs_MergeBeefTx :: "beef_tx \<Rightarrow> sdk_beef \<Rightarrow> sdk_beef result"
  bs_Bytes :: "sdk_beef \<Rightarrow> bytes result"

definition NewBeefV2 :: sdk_beef where
  "NewBeefV2 = \<lparr>sb_Transactions = [], sb_BUMPs = []\<rparr>"

abbreviation beef_entry :: "sdk_beef \<Rightarrow> string \<Rightarrow> beef_tx option" where
  "beef_entry b \<equiv> map_of (sb_Transactions b)"

section \<open>Options\<close>

record get_beef_options =
  gb_StatusesToFilterOut :: "proven_tx_req_status list"
  gb_TxGetterFcn :: "(string \<Rightarrow> (bytes option \<times> merkle_bump option) result) option"
  gb_MergeToBEEF :: "sdk_beef option"
  gb_KnownTxIDsSet :: "string list option"
  gb_TrustSelf :: string
  gb_MinProofLevel :: int
  gb_DirectSourcesOnly :: bool
  gb_AnchoredParents :: bool

definition default_options :: get_beef_options where
  "default_options = \<lparr>gb_StatusesToFilterOut = [], gb_TxGetterFcn = None, gb_MergeToBEEF = None, gb_KnownTxIDsSet = None,
     gb_TrustSelf = [], gb_MinProofLevel = 0, gb_DirectSourcesOnly = False, gb_AnchoredParents = False\<rparr>"

definition WithStatusesToFilterOut :: "proven_tx_req_status list \<Rightarrow> get_beef_options \<Rightarrow> get_beef_options" where
  "WithStatusesToFilterOut statuses o' = o'\<lparr>gb_StatusesToFilterOut := statuses\<rparr>"

definition WithMergeToBEEF :: "sdk_beef option \<Rightarrow> get_beef_options \<Rightarrow> get_beef_options" where
  "WithMergeToBEEF b o' = o'\<lparr>gb_MergeToBEEF := b\<rparr>"

definition WithTxGetterFcn ::
  "(string \<Rightarrow> (bytes option \<times> merkle_bump option) result) \<Rightarrow> get_beef_options \<Rightarrow> get_beef_options" where
  "WithTxGetterFcn f o' = o'\<lparr>gb_TxGetterFcn := Some f\<rparr>"

definition WithKnownTxIDs :: "string list \<Rightarrow> get_beef_options \<Rightarrow> get_beef_options" where
  "WithKnownTxIDs txIDs o' =
     o'\<lparr>gb_KnownTxIDsSet := Some ((case gb_KnownTxIDsSet o' of None \<Rightarrow> [] | Some xs \<Rightarrow> xs) @ txIDs)\<rparr>"

definition WithTrustSelf :: "string \<Rightarrow> get_beef_options \<Rightarrow> get_beef_options" where
  "WithTrustSelf t o' = o'\<lparr>gb_TrustSelf := t\<rparr>"

definition WithDirectSourcesOnly :: "get_beef_options \<Rightarrow> get_beef_options" where
  "WithDirectSourcesOnly o' = o'\<lparr>gb_DirectSourcesOnly := True\<rparr>"

definition WithAnchoredParents :: "get_beef_options \<Rightarrow> get_beef_options" where
  "WithAnchoredParents o' = o'\<lparr>gb_AnchoredParents := True\<rparr>"

definition WithMinProofLevel :: "int \<Rightarrow> get_beef_options \<Rightarrow> get_beef_options" where
  "WithMinProofLevel level o' = o'\<lparr>gb_MinProofLevel := level\<rparr>"

definition IsKnownTxID :: "get_beef_options \<Rightarrow> string \<Rightarrow> bool" where
  "IsKnownTxID o' txID = (case gb_KnownTxIDsSet o' of None \<Rightarrow> False | Some xs \<Rightarrow> txID \<in> set xs)"

definition TrustSelfKnown :: string where
  "TrustSelfKnown = ''known''"

definition TrustsSelfAsKnown :: "get_beef_options \<Rightarrow> bool" where
  "TrustsSelfAsKnown o' \<longleftrightarrow> gb_TrustSelf o' = TrustSelfKnown"

section \<open>Reading rows ahead\<close>

definition maxDepthOfRecursion :: nat where
  "maxDepthOfRecursion = 1000"

definition visible :: "get_beef_options \<Rightarrow> known_tx_row \<Rightarrow> bool" where
  "visible o' k \<longleftrightarrow> gb_StatusesToFilterOut o' = [] \<or> kt_Status k \<notin> set (gb_StatusesToFilterOut o')"

definition preFetchInto :: "database \<Rightarrow> get_beef_options \<Rightarrow> string list \<Rightarrow> (string \<rightharpoonup> known_tx_row) \<Rightarrow>
    known_tx_row list \<times> (string \<rightharpoonup> known_tx_row)" where
  "preFetchInto db o' txIDs dst =
     (let wanted = filter (\<lambda>txID. dst txID = None) txIDs in
      if wanted = [] then ([], dst)
      else let batch = filter (\<lambda>k. visible o' k \<and> kt_TxID k \<in> set wanted) (db_KnownTxs db)
           in (batch, fold (\<lambda>m d. d(kt_TxID m \<mapsto> m)) batch dst))"

text \<open>A row of which only the txid was read.\<close>

definition bare_row :: "string \<Rightarrow> known_tx_row" where
  "bare_row txID = \<lparr>kt_CreatedAt = 0, kt_UpdatedAt = 0, kt_TxID = txID, kt_Status = ProvenTxStatusUnknown, kt_Attempts = 0,
     kt_RebroadcastAttempts = 0, kt_Notified = False, kt_Batch = None, kt_Notify = [], kt_WasBroadcast = False,
     kt_RawTx = None, kt_InputBeef = None, kt_BlockHeight = None, kt_MerklePath = [], kt_MerkleRoot = None,
     kt_BlockHash = None\<rparr>"

definition preFetchExistence :: "database \<Rightarrow> get_beef_options \<Rightarrow> string list \<Rightarrow> (string \<rightharpoonup> known_tx_row) \<Rightarrow>
    (string \<rightharpoonup> known_tx_row)" where
  "preFetchExistence db o' txIDs dst =
     (let wanted = filter (\<lambda>txID. dst txID = None) txIDs in
      if wanted = [] then dst
      else fold (\<lambda>k d. d(kt_TxID k \<mapsto> bare_row (kt_TxID k)))
        (filter (\<lambda>k. visible o' k \<and> kt_TxID k \<in> set wanted) (db_KnownTxs db)) dst)"

definition withoutKnownTxIDs :: "get_beef_options \<Rightarrow> string list \<Rightarrow> string list" where
  "withoutKnownTxIDs o' txIDs =
     (if gb_KnownTxIDsSet o' = None then txIDs else filter (\<lambda>txID. \<not> IsKnownTxID o' txID) txIDs)"

fun new_parents :: "(string \<rightharpoonup> known_tx_row) \<Rightarrow> tx_input list \<Rightarrow> string list \<Rightarrow> string list" where
  "new_parents fetched [] parents = parents"
| "new_parents fetched (input # inputs) parents = new_parents fetched inputs
     (case in_SourceTXID input of
        None \<Rightarrow> parents
      | Some sourceID \<Rightarrow> if fetched sourceID \<noteq> None \<or> sourceID \<in> set parents then parents else parents @ [sourceID])"

definition parentIDsOf ::
  "beef_sdk \<Rightarrow> get_beef_options \<Rightarrow> known_tx_row list \<Rightarrow> (string \<rightharpoonup> known_tx_row) \<Rightarrow> string list" where
  "parentIDsOf sdk o' generation fetched = fold (\<lambda>model parents. case kt_RawTx model of
     None \<Rightarrow> parents
   | Some raw \<Rightarrow>
       if gb_MinProofLevel o' = 0 \<and> HasMerklePath model then parents
       else (case bs_NewTransactionFromBytes sdk raw of
          Inl _ \<Rightarrow> parents | Inr tx \<Rightarrow> new_parents fetched (ft_Inputs tx) parents)) generation []"

text \<open>The loop of \<open>preFetchAncestry\<close>; \<open>left\<close> counts the generations that remain.\<close>

fun generations :: "nat \<Rightarrow> beef_sdk \<Rightarrow> database \<Rightarrow> get_beef_options \<Rightarrow> nat \<Rightarrow> string list \<Rightarrow> (string \<rightharpoonup> known_tx_row) \<Rightarrow>
    (string \<rightharpoonup> known_tx_row)" where
  "generations 0 sdk db o' depth frontier dst = dst"
| "generations (Suc left) sdk db o' depth frontier dst =
     (if frontier = [] then dst
      else let (added, dst') = preFetchInto db o' frontier dst in
        if added = [] \<or> (gb_DirectSourcesOnly o' \<and> 1 \<le> depth) then dst'
        else generations left sdk db o' (depth + 1) (withoutKnownTxIDs o' (parentIDsOf sdk o' added dst')) dst')"

definition preFetchAncestry :: "beef_sdk \<Rightarrow> database \<Rightarrow> get_beef_options \<Rightarrow> string list \<Rightarrow> (string \<rightharpoonup> known_tx_row) \<Rightarrow>
    (string \<rightharpoonup> known_tx_row)" where
  "preFetchAncestry sdk db o' seedIDs dst =
     (let frontier = withoutKnownTxIDs o' seedIDs in
      if TrustsSelfAsKnown o' then preFetchExistence db o' frontier dst
      else generations maxDepthOfRecursion sdk db o' 0 frontier dst)"

section \<open>Building\<close>

definition needsInputBEEF :: "get_beef_options \<Rightarrow> (string \<rightharpoonup> known_tx_row) \<Rightarrow> full_tx \<Rightarrow> bool" where
  "needsInputBEEF o' preFetched tx \<longleftrightarrow> \<not> gb_DirectSourcesOnly o' \<or>
     (\<exists>input \<in> set (ft_Inputs tx). case in_SourceTXID input of None \<Rightarrow> True | Some s \<Rightarrow> preFetched s = None)"

definition FindKnownTx :: "database \<Rightarrow> get_beef_options \<Rightarrow> string \<Rightarrow> known_tx_row option" where
  "FindKnownTx db o' txID = find (\<lambda>k. kt_TxID k = txID \<and> visible o' k) (db_KnownTxs db)"

text \<open>The row of a transaction: read ahead, from the table, or made from what the services return. The
  flag says whether storage holds it.\<close>

definition find_model :: "beef_sdk \<Rightarrow> database \<Rightarrow> get_beef_options \<Rightarrow> (string \<rightharpoonup> known_tx_row) \<Rightarrow> string \<Rightarrow>
    (known_tx_row \<times> bool) result" where
  "find_model sdk db o' preFetched txID = (case preFetched txID of
     Some m \<Rightarrow> Inr (m, True)
   | None \<Rightarrow> (case FindKnownTx db o' txID of
       Some m \<Rightarrow> Inr (m, True)
     | None \<Rightarrow> (case gb_TxGetterFcn o' of
         None \<Rightarrow> Inl (GoWrap ''transaction is not known to storage'' (GoSentinel ''wdk.ErrNotFoundError''))
       | Some getter \<Rightarrow>
           rbind (rwrap ''failed to get raw tx and merkle path using services'' (getter txID)) (\<lambda>(rawTx, merklePath).
             Inr ((bare_row txID)\<lparr>kt_RawTx := rawTx,
               kt_MerklePath := (case merklePath of None \<Rightarrow> [] | Some p \<Rightarrow> bs_MerklePath_Bytes sdk p),
               kt_InputBeef := (case bs_Bytes sdk NewBeefV2 of Inl _ \<Rightarrow> None | Inr bs \<Rightarrow> Some bs)\<rparr>, False)))))"

definition merge_stub :: "beef_sdk \<Rightarrow> string \<Rightarrow> sdk_beef \<Rightarrow> sdk_beef result" where
  "merge_stub sdk txID b =
     rbind (rwrap ''failed to parse txid'' (bs_NewHashFromHex sdk txID)) (\<lambda>h. Inr (bs_MergeTxidOnly sdk h b))"

definition merge_proven :: "beef_sdk \<Rightarrow> known_tx_row \<Rightarrow> full_tx \<Rightarrow> sdk_beef \<Rightarrow> sdk_beef result" where
  "merge_proven sdk model tx b =
     rbind (rwrap ''failed to build merkle path from binary'' (bs_NewMerklePathFromBinary sdk (kt_MerklePath model))) (\<lambda>merklePath.
     rbind (rwrap ''failed to add merkle proof'' (bs_AddMerkleProof sdk merklePath tx)) (\<lambda>tx'.
       rwrap ''failed to merge transaction into BEEF object'' (bs_MergeTransaction sdk tx' b)))"

definition merge_input_beef :: "beef_sdk \<Rightarrow> known_tx_row \<Rightarrow> sdk_beef \<Rightarrow> sdk_beef result" where
  "merge_input_beef sdk model b = (case kt_InputBeef model of
     None \<Rightarrow> Inr b
   | Some bs \<Rightarrow> if bs = [] then Inr b else rwrap ''failed to merge input beef'' (bs_MergeBeefBytes sdk bs b))"

definition merge_terminal :: "beef_sdk \<Rightarrow> get_beef_options \<Rightarrow> known_tx_row \<Rightarrow> bytes \<Rightarrow> full_tx \<Rightarrow> sdk_beef \<Rightarrow> sdk_beef result" where
  "merge_terminal sdk o' model raw tx b =
     (if \<not> gb_AnchoredParents o' then rwrap ''failed to merge raw source tx'' (bs_MergeRawTx sdk raw b)
      else if HasMerklePath model then merge_proven sdk model tx b
      else rbind (rwrap ''failed to merge raw source tx'' (bs_MergeRawTx sdk raw b)) (merge_input_beef sdk model))"

text \<open>\<open>recursiveBuildValidBEEF\<close> and its loop over the inputs. The state is the BEEF that grows and the txids
  that were fetched from the services. The length of a non-nil array pointer is never zero, so the
  check for an empty \<open>SourceTXID\<close> never fires: a missing one is a nil dereference.\<close>

function recursiveBuildValidBEEF :: "beef_sdk \<Rightarrow> database \<Rightarrow> get_beef_options \<Rightarrow> (string \<rightharpoonup> known_tx_row) \<Rightarrow> nat \<Rightarrow> string \<Rightarrow>
      sdk_beef \<times> string list \<Rightarrow> (sdk_beef \<times> string list) result"
  and build_inputs :: "beef_sdk \<Rightarrow> database \<Rightarrow> get_beef_options \<Rightarrow> (string \<rightharpoonup> known_tx_row) \<Rightarrow> nat \<Rightarrow> tx_input list \<Rightarrow>
      sdk_beef \<times> string list \<Rightarrow> (sdk_beef \<times> string list) result"
where
  "recursiveBuildValidBEEF sdk db o' pre depth txID s =
     (if maxDepthOfRecursion < depth then Inl (GoErr ''max depth of recursion reached'')
      else if IsKnownTxID o' txID then rbind (merge_stub sdk txID (fst s)) (\<lambda>b. Inr (b, snd s))
      else rbind (find_model sdk db o' pre txID) (\<lambda>(model, stored).
        if stored \<and> TrustsSelfAsKnown o' then rbind (merge_stub sdk txID (fst s)) (\<lambda>b. Inr (b, snd s))
        else
          let fetched = (if stored then snd s else snd s @ [txID]) in
          case kt_RawTx model of
            None \<Rightarrow> Inl (GoErr ''raw tx is nil in transaction'')
          | Some raw \<Rightarrow>
              rbind (rwrap ''failed to build transaction object from raw tx'' (bs_NewTransactionFromBytes sdk raw)) (\<lambda>tx.
                if gb_DirectSourcesOnly o' \<and> 1 \<le> depth
                then rbind (merge_terminal sdk o' model raw tx (fst s)) (\<lambda>b. Inr (b, fetched))
                else if HasMerklePath model \<and> \<not> (0 < gb_MinProofLevel o' \<and> int depth < gb_MinProofLevel o')
                then rbind (merge_proven sdk model tx (fst s)) (\<lambda>b. Inr (b, fetched))
                else
                  rbind (rwrap ''failed to merge raw tx into BEEF object'' (bs_MergeRawTx sdk raw (fst s))) (\<lambda>b1.
                  rbind (if needsInputBEEF o' pre tx then merge_input_beef sdk model b1 else Inr b1) (\<lambda>b2.
                    case bs_FindTransaction sdk b2 txID of
                      None \<Rightarrow> Inl (GoErr ''transaction has not been merged into BEEF object'')
                    | Some subjectTx \<Rightarrow>
                        if ft_MerklePath subjectTx \<noteq> None then Inr (b2, fetched)
                        else build_inputs sdk db o' pre (depth + 1) (ft_Inputs tx) (b2, fetched))))))"
| "build_inputs sdk db o' pre depth inputs s = (case inputs of
     [] \<Rightarrow> Inr s
   | input # rest \<Rightarrow>
       (case in_SourceTXID input of
          None \<Rightarrow> Inl (GoPanic ''nil pointer dereference'')
        | Some source \<Rightarrow>
            if (case beef_entry (fst s) source of None \<Rightarrow> True | Some e \<Rightarrow> bt_DataFormat e = TxIDOnly)
            then rbind (rwrap ''failed to recursively find known tx and merge into BEEF''
                   (recursiveBuildValidBEEF sdk db o' pre depth source s)) (build_inputs sdk db o' pre depth rest)
            else build_inputs sdk db o' pre depth rest s))"
  by pat_completeness auto
termination
  by (relation "measures [\<lambda>x. case x of Inl (_, _, _, _, d, _, _) \<Rightarrow> maxDepthOfRecursion + 2 - d | Inr (_, _, _, _, d, _, _) \<Rightarrow> maxDepthOfRecursion + 2 - d,
       \<lambda>x. case x of Inl _ \<Rightarrow> 0 | Inr (_, _, _, _, _, inputs, _) \<Rightarrow> length inputs]") auto

declare recursiveBuildValidBEEF.simps [simp del] build_inputs.simps [simp del]

definition start_beef :: "get_beef_options \<Rightarrow> sdk_beef" where
  "start_beef o' = (case gb_MergeToBEEF o' of None \<Rightarrow> NewBeefV2 | Some b \<Rightarrow> b)"

definition GetBEEFForTxID :: "beef_sdk \<Rightarrow> database \<Rightarrow> get_beef_options \<Rightarrow> string \<Rightarrow> (sdk_beef \<times> string list) result" where
  "GetBEEFForTxID sdk db o' txID = rwrap ''failed to build valid BEEF''
     (recursiveBuildValidBEEF sdk db o' Map.empty 0 txID (start_beef o', []))"

fun build_all :: "beef_sdk \<Rightarrow> database \<Rightarrow> get_beef_options \<Rightarrow> (string \<rightharpoonup> known_tx_row) \<Rightarrow> string list \<Rightarrow>
    sdk_beef \<times> string list \<Rightarrow> (sdk_beef \<times> string list) result" where
  "build_all sdk db o' pre [] s = Inr s"
| "build_all sdk db o' pre (txID # txIDs) s =
     rbind (rwrap ''failed for txid'' (recursiveBuildValidBEEF sdk db o' pre 0 txID s)) (build_all sdk db o' pre txIDs)"

definition GetBEEFForTxIDs :: "beef_sdk \<Rightarrow> database \<Rightarrow> get_beef_options \<Rightarrow> string list \<Rightarrow> (sdk_beef \<times> string list) result" where
  "GetBEEFForTxIDs sdk db o' txIDs =
     (let missing = filter (\<lambda>txID. bs_FindTransaction sdk (start_beef o') txID = None) txIDs;
          preFetched = (if missing = [] then Map.empty else preFetchAncestry sdk db o' missing Map.empty)
      in build_all sdk db o' preFetched missing (start_beef o', []))"

end
