(* ===== verification/Background_Broadcaster.thy ===== *)
theory Background_Broadcaster
  imports Parents_First Beef "HOL-Library.Multiset"
begin

text \<open>
  The background broadcaster, \<open>pkg/storage/internal/service/background_broadcaster.go\<close>: a pool of workers that post queued
  items, holding a child back until its unconfirmed parents have been posted.

  The state holds the channel, the parked items, the requeue queue and the remembered txids, and also what the goroutines have in their
  local variables between two critical sections: the items a worker has taken or is posting, the items on
  their way to the requeue queue, and the batch of the dispatcher. A step is one critical section or one
  channel operation of one goroutine, so every interleaving of the workers, the sweeper, the dispatcher and the callers of \<open>Add\<close> is
  a sequence of steps. The outcome of a post is not determined. Stopping the pool is not modelled. Times are nanoseconds.
\<close>

section \<open>Sizing\<close>

record sizing =
  sz_Workers :: int
  sz_ChannelSize :: int
  sz_MaxParentWait :: int
  sz_UnknownParentWait :: int
  sz_PostedRetention :: int
  sz_SweepInterval :: int

definition sizing_workers :: "sizing \<Rightarrow> int" where
  "sizing_workers s = (if sz_Workers s \<le> 0 then 10 else sz_Workers s)"

definition sizing_channelSize :: "sizing \<Rightarrow> int" where
  "sizing_channelSize s = (if sz_ChannelSize s \<le> 0 then 1000 else sz_ChannelSize s)"

definition sizing_maxParentWait :: "sizing \<Rightarrow> int" where
  "sizing_maxParentWait s = (if sz_MaxParentWait s \<le> 0 then 30 * 1000000000 else sz_MaxParentWait s)"

definition sizing_unknownParentWait :: "sizing \<Rightarrow> int" where
  "sizing_unknownParentWait s = (if sz_UnknownParentWait s \<le> 0 then 500 * 1000000 else sz_UnknownParentWait s)"

definition sizing_postedRetention :: "sizing \<Rightarrow> int" where
  "sizing_postedRetention s = (if sz_PostedRetention s \<le> 0 then 2 * 3600 * 1000000000 else sz_PostedRetention s)"

definition sizing_sweepInterval :: "sizing \<Rightarrow> int" where
  "sizing_sweepInterval s = (if sz_SweepInterval s \<le> 0 then 250 * 1000000 else sz_SweepInterval s)"

section \<open>Remembered txids\<close>

record txid_set =
  si_at :: "string \<rightharpoonup> int"
  si_order :: "(string \<times> int) list"

definition newTxidSet :: txid_set where
  "newTxidSet = \<lparr>si_at = Map.empty, si_order = []\<rparr>"

definition set_add :: "string \<Rightarrow> int \<Rightarrow> txid_set \<Rightarrow> txid_set" where
  "set_add txID now s = \<lparr>si_at = (si_at s)(txID \<mapsto> now), si_order = si_order s @ [(txID, now)]\<rparr>"

definition set_has :: "txid_set \<Rightarrow> string \<Rightarrow> bool" where
  "set_has s txID \<longleftrightarrow> si_at s txID \<noteq> None"

fun prune_loop :: "int \<Rightarrow> (string \<times> int) list \<Rightarrow> (string \<rightharpoonup> int) \<Rightarrow> (string \<rightharpoonup> int) \<times> (string \<times> int) list" where
  "prune_loop cutoff [] recent = (recent, [])"
| "prune_loop cutoff ((txID, t) # entries) recent =
     (if cutoff < t then (recent, (txID, t) # entries)
      else prune_loop cutoff entries (case recent txID of
        None \<Rightarrow> recent | Some newest \<Rightarrow> if newest \<le> t then recent(txID := None) else recent))"

definition prune :: "int \<Rightarrow> txid_set \<Rightarrow> txid_set" where
  "prune cutoff s = (case prune_loop cutoff (si_order s) (si_at s) of (recent, order) \<Rightarrow> \<lparr>si_at = recent, si_order = order\<rparr>)"

section \<open>Items and the state of the pool\<close>

record broadcast_beef =
  bb_txs :: beef
  bb_DataFormat :: "string \<rightharpoonup> data_format"

record broadcast_item =
  bi_beef :: "broadcast_beef option"
  bi_txIDs :: "string list"
  bi_parkedAt :: "int option"
  bi_force :: bool

record pool =
  bp_channel :: "broadcast_item list"
  bp_marking :: "string list list"
  bp_taken :: "broadcast_item list"
  bp_posting :: "broadcast_item list"
  bp_waiting :: "(string \<times> broadcast_item list) list"
  bp_handing :: "broadcast_item list"
  bp_requeueQueue :: "broadcast_item list"
  bp_signals :: nat
  bp_wake :: bool
  bp_dispatch :: "broadcast_item list option"
  bp_enqueued :: txid_set
  bp_posted :: txid_set
  bp_now :: int
  bp_accepted :: "broadcast_item list"
  bp_finished :: "broadcast_item list"
  bp_succeeded :: "string list"

text \<open>The last three fields record the history: the items accepted by \<open>Add\<close>, the items whose post has returned, and the txids
  whose post succeeded.\<close>

definition NewBackgroundBroadcaster :: "int \<Rightarrow> pool" where
  "NewBackgroundBroadcaster now = \<lparr>bp_channel = [], bp_marking = [], bp_taken = [], bp_posting = [], bp_waiting = [],
     bp_handing = [], bp_requeueQueue = [], bp_signals = 0, bp_wake = False, bp_dispatch = None, bp_enqueued = newTxidSet,
     bp_posted = newTxidSet, bp_now = now, bp_accepted = [], bp_finished = [], bp_succeeded = []\<rparr>"

section \<open>Adding an item\<close>

definition new_item :: "broadcast_beef option \<Rightarrow> string list \<Rightarrow> broadcast_item" where
  "new_item beef txIDs = \<lparr>bi_beef = beef, bi_txIDs = txIDs, bi_parkedAt = None, bi_force = False\<rparr>"

text \<open>\<open>Add\<close>: the send to the channel succeeds only while there is room; the txids are remembered afterwards.\<close>

definition Add_item :: "sizing \<Rightarrow> broadcast_beef option \<Rightarrow> string list \<Rightarrow> pool \<Rightarrow> bool \<times> pool" where
  "Add_item sz beef txIDs s =
     (case ParentsFirst (map_option bb_txs beef) txIDs of
        None \<Rightarrow> (False, s)
      | Some ordered \<Rightarrow>
          if int (length (bp_channel s)) < sizing_channelSize sz
          then (True, s\<lparr>bp_channel := bp_channel s @ [new_item beef ordered], bp_marking := bp_marking s @ [ordered],
            bp_accepted := bp_accepted s @ [new_item beef ordered]\<rparr>)
          else (False, s))"

definition markEnqueued :: "string list \<Rightarrow> int \<Rightarrow> pool \<Rightarrow> pool" where
  "markEnqueued txIDs now s = s\<lparr>bp_enqueued := fold (\<lambda>txID. set_add txID now) txIDs (bp_enqueued s)\<rparr>"

section \<open>Gating a child\<close>

definition gate_worthy :: "broadcast_beef \<Rightarrow> txid_set \<Rightarrow> string list \<Rightarrow> string option \<Rightarrow> bool" where
  "gate_worthy beef posted subjects src = (case src of
     None \<Rightarrow> False
   | Some parentID \<Rightarrow> parentID \<notin> set subjects \<and> \<not> set_has posted parentID \<and> bb_DataFormat beef parentID = Some RawTx)"

definition firstUnpostedParentOf :: "broadcast_beef \<Rightarrow> txid_set \<Rightarrow> string \<Rightarrow> string list \<Rightarrow> string option" where
  "firstUnpostedParentOf beef posted txID subjects = (case BeefTx (bb_txs beef) txID of
     None \<Rightarrow> None
   | Some tx \<Rightarrow> (case find (gate_worthy beef posted subjects) (stx_SourceTXIDs tx) of None \<Rightarrow> None | Some src \<Rightarrow> src))"

definition firstUnpostedParent :: "txid_set \<Rightarrow> broadcast_item \<Rightarrow> string option" where
  "firstUnpostedParent posted item = (case bi_beef item of
     None \<Rightarrow> None
   | Some beef \<Rightarrow>
       (case find (\<lambda>txID. firstUnpostedParentOf beef posted txID (bi_txIDs item) \<noteq> None) (bi_txIDs item) of
          None \<Rightarrow> None
        | Some txID \<Rightarrow> firstUnpostedParentOf beef posted txID (bi_txIDs item)))"

fun wait_under :: "string \<Rightarrow> broadcast_item \<Rightarrow> (string \<times> broadcast_item list) list \<Rightarrow> (string \<times> broadcast_item list) list" where
  "wait_under parent item [] = [(parent, [item])]"
| "wait_under parent item ((p, items) # ws) =
     (if p = parent then (p, items @ [item]) # ws else (p, items) # wait_under parent item ws)"

definition parked :: "int \<Rightarrow> broadcast_item \<Rightarrow> broadcast_item" where
  "parked now item = item\<lparr>bi_parkedAt := (case bi_parkedAt item of None \<Rightarrow> Some now | Some t \<Rightarrow> Some t)\<rparr>"

definition park :: "broadcast_item \<Rightarrow> pool \<Rightarrow> pool option" where
  "park item s = (case firstUnpostedParent (bp_posted s) item of
     None \<Rightarrow> None
   | Some parent \<Rightarrow> Some (s\<lparr>bp_waiting := wait_under parent (parked (bp_now s) item) (bp_waiting s)\<rparr>))"

section \<open>Releasing children\<close>

definition take_waiting :: "string \<Rightarrow> pool \<Rightarrow> pool" where
  "take_waiting txID s = s\<lparr>bp_handing := bp_handing s @ concat (map snd (filter (\<lambda>(p, _). p = txID) (bp_waiting s))),
     bp_waiting := filter (\<lambda>(p, _). p \<noteq> txID) (bp_waiting s)\<rparr>"

definition post_one :: "int \<Rightarrow> string \<Rightarrow> pool \<Rightarrow> pool" where
  "post_one now txID s = take_waiting txID (s\<lparr>bp_posted := set_add txID now (bp_posted s)\<rparr>)"

definition markPostedAndRelease :: "string list \<Rightarrow> int \<Rightarrow> pool \<Rightarrow> pool" where
  "markPostedAndRelease txIDs now s = fold (post_one now) txIDs s"

section \<open>The sweeper\<close>

definition parentWait :: "sizing \<Rightarrow> txid_set \<Rightarrow> string \<Rightarrow> int" where
  "parentWait sz enqueued parentID =
     (if set_has enqueued parentID then sizing_maxParentWait sz else sizing_unknownParentWait sz)"

definition wait_expired :: "sizing \<Rightarrow> txid_set \<Rightarrow> int \<Rightarrow> string \<Rightarrow> broadcast_item \<Rightarrow> bool" where
  "wait_expired sz enqueued now parent item \<longleftrightarrow>
     (case bi_parkedAt item of None \<Rightarrow> True | Some t \<Rightarrow> parentWait sz enqueued parent < now - t)"

text \<open>The expired items, flagged to skip the gate, and the ones that stay parked.\<close>

fun takeExpired :: "sizing \<Rightarrow> txid_set \<Rightarrow> int \<Rightarrow> (string \<times> broadcast_item list) list \<Rightarrow>
    broadcast_item list \<times> (string \<times> broadcast_item list) list" where
  "takeExpired sz enqueued now [] = ([], [])"
| "takeExpired sz enqueued now ((parent, children) # ws) =
     (let expired = map (\<lambda>item. item\<lparr>bi_force := True\<rparr>) (filter (wait_expired sz enqueued now parent) children);
          kept = filter (\<lambda>item. \<not> wait_expired sz enqueued now parent item) children;
          (expired', ws') = takeExpired sz enqueued now ws
      in (expired @ expired', if kept = [] then ws' else (parent, kept) # ws'))"

definition sweep :: "sizing \<Rightarrow> int \<Rightarrow> pool \<Rightarrow> pool" where
  "sweep sz now s =
     (let (expired, ws) = takeExpired sz (bp_enqueued s) now (bp_waiting s);
          cutoff = now - sizing_postedRetention sz
      in s\<lparr>bp_waiting := ws, bp_handing := bp_handing s @ expired, bp_enqueued := prune cutoff (bp_enqueued s),
           bp_posted := prune cutoff (bp_posted s)\<rparr>)"

section \<open>Steps\<close>

text \<open>The rules name the goroutine: a caller of \<open>Add\<close>, a worker (\<open>worker\<close>, \<open>process\<close>), the sweeper, the dispatcher
  (\<open>requeueDispatcher\<close>, \<open>drainRequeue\<close>) and whoever hands items over (\<open>requeue\<close>). The order in which the sweeper
  visits the parked items is the iteration order of a Go map, hence any.\<close>

inductive pool_step :: "sizing \<Rightarrow> pool \<Rightarrow> pool \<Rightarrow> bool" for sz :: sizing where
  add: "Add_item sz beef txIDs s = (True, s') \<Longrightarrow> pool_step sz s s'"
| mark_enqueued: "bp_marking s = xs @ txIDs # ys \<Longrightarrow> t \<le> bp_now s \<Longrightarrow>
    pool_step sz s (markEnqueued txIDs t (s\<lparr>bp_marking := xs @ ys\<rparr>))"
| worker_take: "bp_channel s = item # rest \<Longrightarrow> int (length (bp_taken s) + length (bp_posting s)) < sizing_workers sz \<Longrightarrow>
    pool_step sz s (s\<lparr>bp_channel := rest, bp_taken := bp_taken s @ [item]\<rparr>)"
| worker_park: "bp_taken s = xs @ item # ys \<Longrightarrow> \<not> bi_force item \<Longrightarrow> park item (s\<lparr>bp_taken := xs @ ys\<rparr>) = Some s' \<Longrightarrow>
    pool_step sz s s'"
| worker_post: "bp_taken s = xs @ item # ys \<Longrightarrow> bi_force item \<or> park item (s\<lparr>bp_taken := xs @ ys\<rparr>) = None \<Longrightarrow>
    pool_step sz s (s\<lparr>bp_taken := xs @ ys, bp_posting := bp_posting s @ [item]\<rparr>)"
| post_failed: "bp_posting s = xs @ item # ys \<Longrightarrow>
    pool_step sz s (s\<lparr>bp_posting := xs @ ys, bp_finished := bp_finished s @ [item]\<rparr>)"
| post_succeeded: "bp_posting s = xs @ item # ys \<Longrightarrow> t \<le> bp_now s \<Longrightarrow>
    pool_step sz s (markPostedAndRelease (bi_txIDs item) t (s\<lparr>bp_posting := xs @ ys, bp_finished := bp_finished s @ [item],
      bp_succeeded := bp_succeeded s @ bi_txIDs item\<rparr>))"
| hand_over: "bp_handing s = xs @ items @ ys \<Longrightarrow> items \<noteq> [] \<Longrightarrow>
    pool_step sz s (s\<lparr>bp_handing := xs @ ys, bp_requeueQueue := bp_requeueQueue s @ items, bp_signals := bp_signals s + 1\<rparr>)"
| signal: "bp_signals s = Suc n \<Longrightarrow> pool_step sz s (s\<lparr>bp_signals := n, bp_wake := True\<rparr>)"
| dispatcher_wake: "bp_wake s \<Longrightarrow> bp_dispatch s = None \<Longrightarrow> pool_step sz s (s\<lparr>bp_wake := False, bp_dispatch := Some []\<rparr>)"
| dispatcher_grab: "bp_dispatch s = Some [] \<Longrightarrow> bp_requeueQueue s \<noteq> [] \<Longrightarrow>
    pool_step sz s (s\<lparr>bp_dispatch := Some (bp_requeueQueue s), bp_requeueQueue := []\<rparr>)"
| dispatcher_sleep: "bp_dispatch s = Some [] \<Longrightarrow> bp_requeueQueue s = [] \<Longrightarrow> pool_step sz s (s\<lparr>bp_dispatch := None\<rparr>)"
| dispatcher_put: "bp_dispatch s = Some (item # rest) \<Longrightarrow> int (length (bp_channel s)) < sizing_channelSize sz \<Longrightarrow>
    pool_step sz s (s\<lparr>bp_dispatch := Some rest, bp_channel := bp_channel s @ [item]\<rparr>)"
| sweeper: "mset ws = mset (bp_waiting s) \<Longrightarrow> t \<le> bp_now s \<Longrightarrow> pool_step sz s (sweep sz t (s\<lparr>bp_waiting := ws\<rparr>))"
| tick: "bp_now s \<le> now \<Longrightarrow> pool_step sz s (s\<lparr>bp_now := now\<rparr>)"

end
