(* ===== verification/Broadcaster_Correct.thy ===== *)
theory Broadcaster_Correct
  imports Background_Broadcaster State_Machine
begin

text \<open>
  Correctness of the background broadcaster: no accepted item is lost, a child that is not forced is posted after its
  unconfirmed parents, a forced one has waited, no wake-up is lost, and the pool can always be drained.
\<close>

section \<open>Remembered txids\<close>

lemma prune_loop_keeps:
  "fst (prune_loop cutoff es recent) x = (if \<exists>t t'. (x, t) \<in> set (takeWhile (\<lambda>e. snd e \<le> cutoff) es) \<and> recent x = Some t' \<and> t' \<le> t
     then None else recent x)"
proof (induction cutoff es recent rule: prune_loop.induct)
  case (2 cutoff txID t es recent)
  show ?case
  proof (cases "cutoff < t")
    case False
    let ?recent = "case recent txID of None \<Rightarrow> recent | Some newest \<Rightarrow> if newest \<le> t then recent(txID := None) else recent"
    have "?recent x = (if x = txID \<and> (\<exists>t'. recent x = Some t' \<and> t' \<le> t) then None else recent x)"
      by (auto split: option.splits)
    then show ?thesis using False 2 [OF False] by (auto split: if_splits)
  qed auto
qed simp

lemma prune_has: "set_has (prune cutoff s) x \<Longrightarrow> set_has s x"
  using prune_loop_keeps [of cutoff "si_order s" "si_at s" x]
  by (auto simp: set_has_def prune_def split: prod.splits if_splits)

lemma add_has: "set_has (set_add x t s) y \<longleftrightarrow> y = x \<or> set_has s y"
  by (auto simp: set_has_def set_add_def)

lemma fold_add_has: "set_has (fold (\<lambda>x. set_add x t) xs s) y \<longleftrightarrow> y \<in> set xs \<or> set_has s y"
  by (induction xs arbitrary: s) (auto simp: add_has)

section \<open>No item is lost\<close>

definition item_key :: "broadcast_item \<Rightarrow> broadcast_beef option \<times> string list" where
  "item_key item = (bi_beef item, bi_txIDs item)"

definition dispatching :: "pool \<Rightarrow> broadcast_item list" where
  "dispatching s = (case bp_dispatch s of None \<Rightarrow> [] | Some batch \<Rightarrow> batch)"

definition waiting_items :: "pool \<Rightarrow> broadcast_item list" where
  "waiting_items s = concat (map snd (bp_waiting s))"

definition unfinished :: "pool \<Rightarrow> broadcast_item list" where
  "unfinished s = bp_channel s @ bp_taken s @ bp_posting s @ waiting_items s @ bp_handing s @ bp_requeueQueue s @ dispatching s"

definition conserved :: "pool \<Rightarrow> bool" where
  "conserved s \<longleftrightarrow> mset (map item_key (unfinished s @ bp_finished s)) = mset (map item_key (bp_accepted s))"

lemma mset_concat_waiting: "mset (concat (map snd ws)) = (\<Sum>\<^sub># (image_mset (\<lambda>w. mset (snd w)) (mset ws)))"
  by (induction ws) simp_all

lemma wait_under_items: "mset (concat (map snd (wait_under p item ws))) = add_mset item (mset (concat (map snd ws)))"
  by (induction p item ws rule: wait_under.induct) (simp_all add: ac_simps)

lemma item_key_force [simp]: "item_key (item\<lparr>bi_force := b\<rparr>) = item_key item"
  by (simp add: item_key_def)

lemma takeExpired_keys:
  "takeExpired sz enq now ws = (expired, ws') \<Longrightarrow>
   mset (map item_key (concat (map snd ws))) = mset (map item_key expired) + mset (map item_key (concat (map snd ws')))"
proof (induction ws arbitrary: expired ws')
  case (Cons w ws)
  obtain p children where w: "w = (p, children)" by (cases w)
  obtain e ws'' where t: "takeExpired sz enq now ws = (e, ws'')" by (metis surj_pair)
  let ?P = "wait_expired sz enq now p"
  have "mset (map item_key children) =
      mset (map item_key (filter ?P children)) + mset (map item_key (filter (\<lambda>i. \<not> ?P i) children))"
    by (induction children) simp_all
  then show ?case using Cons.IH [OF t] Cons.prems t w
    by (auto simp: Let_def image_mset.compositionality comp_def simp del: mset_filter split: if_splits)
qed simp

lemma take_waiting_items:
  "mset (waiting_items (take_waiting x s)) + mset (bp_handing (take_waiting x s)) = mset (waiting_items s) + mset (bp_handing s)"
proof -
  have "mset (concat (map snd ws)) = mset (concat (map snd (filter (\<lambda>(p, _). p = x) ws))) +
      mset (concat (map snd (filter (\<lambda>(p, _). p \<noteq> x) ws)))" for ws :: "(string \<times> broadcast_item list) list"
    by (induction ws) (auto simp: ac_simps)
  from this [of "bp_waiting s"] show ?thesis by (simp add: take_waiting_def waiting_items_def)
qed

text \<open>Marking txids as posted touches nothing but the parked items, the items handed over and the remembered txids.\<close>

lemma post_one_frame:
  "bp_channel (post_one t x s) = bp_channel s" "bp_taken (post_one t x s) = bp_taken s" "bp_posting (post_one t x s) = bp_posting s"
  "bp_requeueQueue (post_one t x s) = bp_requeueQueue s" "bp_dispatch (post_one t x s) = bp_dispatch s"
  "bp_finished (post_one t x s) = bp_finished s" "bp_accepted (post_one t x s) = bp_accepted s"
  "bp_succeeded (post_one t x s) = bp_succeeded s" "bp_now (post_one t x s) = bp_now s" "bp_wake (post_one t x s) = bp_wake s"
  "bp_signals (post_one t x s) = bp_signals s" "bp_enqueued (post_one t x s) = bp_enqueued s" "bp_marking (post_one t x s) = bp_marking s"
  "bp_posted (post_one t x s) = set_add x t (bp_posted s)"
  by (simp_all add: post_one_def take_waiting_def)

lemma release_frame:
  defines "r \<equiv> markPostedAndRelease"
  shows "bp_channel (r xs t s) = bp_channel s" "bp_taken (r xs t s) = bp_taken s" "bp_posting (r xs t s) = bp_posting s"
  "bp_requeueQueue (r xs t s) = bp_requeueQueue s" "bp_dispatch (r xs t s) = bp_dispatch s"
  "bp_finished (r xs t s) = bp_finished s" "bp_accepted (r xs t s) = bp_accepted s"
  "bp_succeeded (r xs t s) = bp_succeeded s" "bp_now (r xs t s) = bp_now s" "bp_wake (r xs t s) = bp_wake s"
  "bp_signals (r xs t s) = bp_signals s" "bp_enqueued (r xs t s) = bp_enqueued s"
  "mset (waiting_items (r xs t s)) + mset (bp_handing (r xs t s)) = mset (waiting_items s) + mset (bp_handing s)"
  "set_has (bp_posted (r xs t s)) y \<longleftrightarrow> y \<in> set xs \<or> set_has (bp_posted s) y"
proof -
  have items: "mset (waiting_items (post_one t x s)) + mset (bp_handing (post_one t x s)) = mset (waiting_items s) + mset (bp_handing s)"
    for x s using take_waiting_items [of x "s\<lparr>bp_posted := set_add x t (bp_posted s)\<rparr>"] by (simp add: post_one_def waiting_items_def)
  show "bp_channel (r xs t s) = bp_channel s" "bp_taken (r xs t s) = bp_taken s" "bp_posting (r xs t s) = bp_posting s"
    "bp_requeueQueue (r xs t s) = bp_requeueQueue s" "bp_dispatch (r xs t s) = bp_dispatch s"
    "bp_finished (r xs t s) = bp_finished s" "bp_accepted (r xs t s) = bp_accepted s"
    "bp_succeeded (r xs t s) = bp_succeeded s" "bp_now (r xs t s) = bp_now s" "bp_wake (r xs t s) = bp_wake s"
    "bp_signals (r xs t s) = bp_signals s" "bp_enqueued (r xs t s) = bp_enqueued s"
    "mset (waiting_items (r xs t s)) + mset (bp_handing (r xs t s)) = mset (waiting_items s) + mset (bp_handing s)"
    "set_has (bp_posted (r xs t s)) y \<longleftrightarrow> y \<in> set xs \<or> set_has (bp_posted s) y"
    unfolding r_def markPostedAndRelease_def
    by (induction xs arbitrary: s) (auto simp: post_one_frame items add_has)
qed

lemmas place_defs = unfinished_def dispatching_def waiting_items_def

lemma Add_item_eq:
  assumes "Add_item sz beef txIDs s = (True, s')"
  obtains ordered where "s' = s\<lparr>bp_channel := bp_channel s @ [new_item beef ordered], bp_marking := bp_marking s @ [ordered],
    bp_accepted := bp_accepted s @ [new_item beef ordered]\<rparr>"
  using assms by (auto simp: Add_item_def split: option.splits if_splits)

lemma markEnqueued_eq:
  obtains e where "markEnqueued txIDs t s = s\<lparr>bp_enqueued := e\<rparr>"
  by (simp add: markEnqueued_def)

lemma sweep_eq:
  obtains expired ws where "takeExpired sz (bp_enqueued s) t (bp_waiting s) = (expired, ws)"
    and "sweep sz t s = s\<lparr>bp_waiting := ws, bp_handing := bp_handing s @ expired,
      bp_enqueued := prune (t - sizing_postedRetention sz) (bp_enqueued s),
      bp_posted := prune (t - sizing_postedRetention sz) (bp_posted s)\<rparr>"
  by (cases "takeExpired sz (bp_enqueued s) t (bp_waiting s)") (simp add: sweep_def Let_def)

lemma park_eq:
  assumes "park item s = Some s'"
  obtains parent where "firstUnpostedParent (bp_posted s) item = Some parent"
    and "s' = s\<lparr>bp_waiting := wait_under parent (parked (bp_now s) item) (bp_waiting s)\<rparr>"
  using assms by (auto simp: park_def split: option.splits)

lemma item_key_parked [simp]: "item_key (parked now item) = item_key item"
  by (simp add: item_key_def parked_def)

lemma sweep_frame:
  "bp_posted (sweep sz t s) = prune (t - sizing_postedRetention sz) (bp_posted s)" "bp_succeeded (sweep sz t s) = bp_succeeded s"
  "bp_dispatch (sweep sz t s) = bp_dispatch s" "bp_requeueQueue (sweep sz t s) = bp_requeueQueue s"
  "bp_wake (sweep sz t s) = bp_wake s" "bp_signals (sweep sz t s) = bp_signals s" "bp_posting (sweep sz t s) = bp_posting s"
  by (simp_all add: sweep_def Let_def split: prod.splits)

lemma sweep_keys:
  "mset (map item_key (unfinished (sweep sz t s))) = mset (map item_key (unfinished s))"
  "bp_finished (sweep sz t s) = bp_finished s" "bp_accepted (sweep sz t s) = bp_accepted s"
proof -
  obtain expired ws where t: "takeExpired sz (bp_enqueued s) t (bp_waiting s) = (expired, ws)"
    and eq: "sweep sz t s = s\<lparr>bp_waiting := ws, bp_handing := bp_handing s @ expired,
      bp_enqueued := prune (t - sizing_postedRetention sz) (bp_enqueued s),
      bp_posted := prune (t - sizing_postedRetention sz) (bp_posted s)\<rparr>" by (rule sweep_eq)
  from takeExpired_keys [OF t] eq show "mset (map item_key (unfinished (sweep sz t s))) = mset (map item_key (unfinished s))"
    "bp_finished (sweep sz t s) = bp_finished s" "bp_accepted (sweep sz t s) = bp_accepted s"
    by (simp_all add: place_defs ac_simps)
qed

lemma waiting_perm: "mset ws = mset (bp_waiting s) \<Longrightarrow> mset (unfinished (s\<lparr>bp_waiting := ws\<rparr>)) = mset (unfinished s)"
  by (simp add: place_defs mset_concat_waiting)

lemma conserved_step:
  assumes "pool_step sz s s'" and c: "conserved s"
  shows "conserved s'"
  using assms(1)
proof cases
  case (add beef txIDs)
  then show ?thesis using c by (elim Add_item_eq) (simp add: conserved_def place_defs)
next
  case (mark_enqueued xs txIDs ys t)
  obtain e where "markEnqueued txIDs t (s\<lparr>bp_marking := xs @ ys\<rparr>) = s\<lparr>bp_marking := xs @ ys, bp_enqueued := e\<rparr>"
    by (rule markEnqueued_eq)
  with mark_enqueued c show ?thesis by (simp add: conserved_def place_defs)
next
  case (worker_park xs item ys)
  from worker_park(3) obtain parent where "s' = s\<lparr>bp_taken := xs @ ys, bp_waiting := wait_under parent (parked (bp_now s) item) (bp_waiting s)\<rparr>"
    by (elim park_eq) simp
  with c worker_park(1) show ?thesis by (simp add: conserved_def place_defs wait_under_items)
next
  case (post_succeeded xs item ys t)
  let ?s = "s\<lparr>bp_posting := xs @ ys, bp_finished := bp_finished s @ [item], bp_succeeded := bp_succeeded s @ bi_txIDs item\<rparr>"
  have "mset (map item_key (unfinished (markPostedAndRelease (bi_txIDs item) t ?s))) = mset (map item_key (unfinished ?s))"
    using arg_cong [OF release_frame(13) [of "bi_txIDs item" t ?s], of "image_mset item_key"]
    by (simp add: unfinished_def dispatching_def release_frame ac_simps)
  with c post_succeeded show ?thesis by (simp add: conserved_def release_frame) (simp add: place_defs)
next
  case (sweeper ws t)
  from sweep_keys [of sz t "s\<lparr>bp_waiting := ws\<rparr>"] arg_cong [OF waiting_perm [OF sweeper(2)], of "image_mset item_key"] sweeper(1) c
  show ?thesis by (simp add: conserved_def)
qed (use c in \<open>simp_all add: conserved_def place_defs ac_simps split: option.splits\<close>)

section \<open>Posted txids\<close>

definition posted_sound :: "pool \<Rightarrow> bool" where
  "posted_sound s \<longleftrightarrow> (\<forall>x. set_has (bp_posted s) x \<longrightarrow> x \<in> set (bp_succeeded s))"

lemma posted_sound_step:
  assumes "pool_step sz s s'" and p: "posted_sound s"
  shows "posted_sound s'"
  using assms(1)
proof cases
  case (add beef txIDs)
  then show ?thesis using p by (elim Add_item_eq) (simp add: posted_sound_def)
next
  case (worker_park xs item ys)
  from worker_park(3) p show ?thesis by (elim park_eq) (simp add: posted_sound_def)
next
  case (post_succeeded xs item ys t)
  with p show ?thesis by (simp add: posted_sound_def release_frame)
next
  case (sweeper ws t)
  then show ?thesis using p prune_has
    by (auto simp: posted_sound_def sweep_frame)
qed (use p in \<open>simp_all add: posted_sound_def markEnqueued_def\<close>)

section \<open>Wake-ups\<close>

definition awake :: "pool \<Rightarrow> bool" where
  "awake s \<longleftrightarrow> bp_dispatch s = None \<longrightarrow> bp_requeueQueue s \<noteq> [] \<longrightarrow> bp_wake s \<or> 0 < bp_signals s"

lemma awake_step:
  assumes "pool_step sz s s'" and a: "awake s"
  shows "awake s'"
  using assms(1)
proof cases
  case (add beef txIDs)
  then show ?thesis using a by (elim Add_item_eq) (simp add: awake_def)
next
  case (worker_park xs item ys)
  from worker_park(3) a show ?thesis by (elim park_eq) (simp add: awake_def)
next
  case (post_succeeded xs item ys t)
  with a show ?thesis by (simp add: awake_def release_frame)
next
  case (sweeper ws t)
  with a show ?thesis by (simp add: awake_def sweep_frame)
qed (use a in \<open>simp_all add: awake_def markEnqueued_def\<close>)

section \<open>Forced items have waited\<close>

definition waited :: "sizing \<Rightarrow> pool \<Rightarrow> broadcast_item \<Rightarrow> bool" where
  "waited sz s item \<longleftrightarrow> (\<exists>t. bi_parkedAt item = Some t \<and>
     min (sizing_maxParentWait sz) (sizing_unknownParentWait sz) < bp_now s - t)"

definition waits :: "sizing \<Rightarrow> pool \<Rightarrow> bool" where
  "waits sz s \<longleftrightarrow> (\<forall>i \<in> set (unfinished s). bi_force i \<longrightarrow> waited sz s i) \<and>
     (\<forall>i \<in> set (waiting_items s). bi_parkedAt i \<noteq> None)"

lemma wait_under_set: "set (concat (map snd (wait_under p item ws))) = insert item (set (concat (map snd ws)))"
  by (metis wait_under_items set_mset_add_mset_insert set_mset_mset)

lemma takeExpired_forced:
  "takeExpired sz enq now ws = (expired, ws') \<Longrightarrow> i \<in> set expired \<Longrightarrow>
   \<exists>j p. j \<in> set (concat (map snd ws)) \<and> wait_expired sz enq now p j \<and> bi_parkedAt i = bi_parkedAt j"
proof (induction ws arbitrary: expired ws')
  case (Cons w ws)
  obtain p children where w: "w = (p, children)" by (cases w)
  obtain e ws'' where t: "takeExpired sz enq now ws = (e, ws'')" by (metis surj_pair)
  from Cons.prems t w consider (here) j where "j \<in> set children" "wait_expired sz enq now p j" "i = j\<lparr>bi_force := True\<rparr>"
    | (there) "i \<in> set e" by (auto simp: Let_def)
  then show ?case
  proof cases
    case here
    then show ?thesis using w by auto
  next
    case there
    from Cons.IH [OF t this] show ?thesis by auto
  qed
qed simp

lemma takeExpired_kept: "takeExpired sz enq now ws = (expired, ws') \<Longrightarrow> set (concat (map snd ws')) \<subseteq> set (concat (map snd ws))"
proof (induction ws arbitrary: expired ws')
  case (Cons w ws)
  obtain p children where w: "w = (p, children)" by (cases w)
  obtain e ws'' where t: "takeExpired sz enq now ws = (e, ws'')" by (metis surj_pair)
  from Cons.prems Cons.IH [OF t] t w show ?case by (auto simp: Let_def simp del: set_concat split: if_splits)
qed simp

lemma release_waiting: "set (waiting_items (markPostedAndRelease xs t s)) \<subseteq> set (waiting_items s)"
proof -
  have "set (waiting_items (post_one t x s)) \<subseteq> set (waiting_items s)" for x s
    by (auto simp: post_one_def take_waiting_def waiting_items_def)
  then show ?thesis unfolding markPostedAndRelease_def by (induction xs arbitrary: s) fastforce+
qed

lemma release_items:
  "set (unfinished (markPostedAndRelease xs t s)) = set (unfinished s)"
proof -
  have "set_mset (mset (waiting_items (markPostedAndRelease xs t s)) + mset (bp_handing (markPostedAndRelease xs t s))) =
      set_mset (mset (waiting_items s) + mset (bp_handing s))" unfolding release_frame(13) ..
  then have "set (waiting_items (markPostedAndRelease xs t s)) \<union> set (bp_handing (markPostedAndRelease xs t s)) =
      set (waiting_items s) \<union> set (bp_handing s)" by simp
  then show ?thesis unfolding unfinished_def dispatching_def set_append release_frame(1-5) by blast
qed

lemma waitsI:
  assumes "waits sz s" and "bp_now s \<le> bp_now s'"
    and "\<And>i. i \<in> set (unfinished s') \<Longrightarrow> bi_force i \<Longrightarrow> i \<in> set (unfinished s) \<or> waited sz s' i"
    and "\<And>i. i \<in> set (waiting_items s') \<Longrightarrow> i \<in> set (waiting_items s) \<or> bi_parkedAt i \<noteq> None"
  shows "waits sz s'"
proof -
  have "waited sz s i \<Longrightarrow> waited sz s' i" for i using assms(2) by (auto simp: waited_def)
  with assms show ?thesis unfolding waits_def by blast
qed

lemma sweep_waits:
  assumes w: "waits sz s" and t: "t \<le> bp_now s"
  shows "waits sz (sweep sz t s)"
proof -
  obtain expired ws where e: "takeExpired sz (bp_enqueued s) t (bp_waiting s) = (expired, ws)"
    and eq: "sweep sz t s = s\<lparr>bp_waiting := ws, bp_handing := bp_handing s @ expired,
      bp_enqueued := prune (t - sizing_postedRetention sz) (bp_enqueued s),
      bp_posted := prune (t - sizing_postedRetention sz) (bp_posted s)\<rparr>" by (rule sweep_eq)
  note sub = takeExpired_kept [OF e]
  have exp: "waited sz s i" if i: "i \<in> set expired" for i
  proof -
    from takeExpired_forced [OF e i] obtain j p where j: "j \<in> set (waiting_items s)" "wait_expired sz (bp_enqueued s) t p j"
      "bi_parkedAt i = bi_parkedAt j" by (auto simp: waiting_items_def)
    with w obtain u where "bi_parkedAt j = Some u" by (auto simp: waits_def)
    with j t show ?thesis by (auto simp: waited_def wait_expired_def parentWait_def split: if_splits)
  qed
  show ?thesis
  proof (rule waitsI [OF w])
    show "i \<in> set (unfinished s) \<or> waited sz (sweep sz t s) i" if "i \<in> set (unfinished (sweep sz t s))" for i
      using that sub exp unfolding eq by (auto simp: place_defs waited_def simp del: set_concat)
    show "i \<in> set (waiting_items s) \<or> bi_parkedAt i \<noteq> None" if "i \<in> set (waiting_items (sweep sz t s))" for i
      using that sub unfolding eq by (auto simp: waiting_items_def)
  qed (simp add: eq)
qed

lemma waits_step:
  assumes "pool_step sz s s'" and w: "waits sz s"
  shows "waits sz s'"
  using assms(1)
proof cases
  case (add beef txIDs)
  then show ?thesis
    by (intro waitsI [OF w]) (auto simp: Add_item_def place_defs new_item_def split: option.splits if_splits)
next
  case (worker_park xs item ys)
  from worker_park(3) obtain parent where "s' = s\<lparr>bp_taken := xs @ ys, bp_waiting := wait_under parent (parked (bp_now s) item) (bp_waiting s)\<rparr>"
    by (elim park_eq) simp
  with worker_park(1,2) show ?thesis
    by (intro waitsI [OF w])
      (auto simp: unfinished_def dispatching_def waiting_items_def wait_under_set parked_def simp del: set_concat split: option.splits)
next
  case (post_succeeded xs item ys t)
  let ?s = "s\<lparr>bp_posting := xs @ ys, bp_finished := bp_finished s @ [item], bp_succeeded := bp_succeeded s @ bi_txIDs item\<rparr>"
  from release_waiting [of "bi_txIDs item" t ?s] release_items [of "bi_txIDs item" t ?s] post_succeeded show ?thesis
    by (intro waitsI [OF w]) (auto simp: release_frame place_defs)
next
  case (sweeper ws t)
  have "set (waiting_items (s\<lparr>bp_waiting := ws\<rparr>)) = set (waiting_items s)"
    using arg_cong [OF sweeper(2), of set_mset] by (simp add: waiting_items_def)
  moreover have "set (unfinished (s\<lparr>bp_waiting := ws\<rparr>)) = set (unfinished s)"
    using arg_cong [OF waiting_perm [OF sweeper(2)], of set_mset] by simp
  ultimately have "waits sz (s\<lparr>bp_waiting := ws\<rparr>)" by (intro waitsI [OF w]) auto
  from sweep_waits [OF this] sweeper show ?thesis by simp
qed (rule waitsI [OF w]; auto simp: place_defs markEnqueued_def split: option.splits)+

section \<open>The invariant of the pool\<close>

definition pool_inv :: "sizing \<Rightarrow> pool \<Rightarrow> bool" where
  "pool_inv sz s \<longleftrightarrow> conserved s \<and> posted_sound s \<and> awake s \<and> waits sz s"

definition pool_later :: "pool \<Rightarrow> pool \<Rightarrow> bool" where
  "pool_later s s' \<longleftrightarrow> (\<exists>xs. bp_accepted s' = bp_accepted s @ xs) \<and> (\<exists>ys. bp_finished s' = bp_finished s @ ys) \<and>
     (\<exists>zs. bp_succeeded s' = bp_succeeded s @ zs) \<and> bp_now s \<le> bp_now s'"

lemma pool_later_trans: "pool_later s t \<Longrightarrow> pool_later t u \<Longrightarrow> pool_later s u"
  unfolding pool_later_def by (auto intro: append_assoc [symmetric])

lemma pool_later_step:
  assumes "pool_step sz s s'"
  shows "pool_later s s'"
  using assms
proof cases
  case (add beef txIDs)
  then show ?thesis by (elim Add_item_eq) (simp add: pool_later_def)
next
  case (worker_park xs item ys)
  from worker_park(3) show ?thesis by (elim park_eq) (simp add: pool_later_def)
next
  case (post_succeeded xs item ys t)
  then show ?thesis by (simp add: pool_later_def release_frame)
qed (simp_all add: pool_later_def markEnqueued_def sweep_def Let_def split: prod.splits)

interpretation pool: state_machine "pool_step sz" "pool_inv sz" pool_later for sz
proof (unfold_locales, goal_cases)
  case (1 s t)
  then show ?case by (auto simp: pool_inv_def intro: conserved_step posted_sound_step awake_step waits_step)
next
  case (3 s t u)
  then show ?case by (rule pool_later_trans)
next
  case (4 s t)
  then show ?case by (auto intro: pool_later_step)
qed (simp add: pool_later_def)

lemma new_pool_inv: "pool_inv sz (NewBackgroundBroadcaster now)"
  by (simp add: pool_inv_def NewBackgroundBroadcaster_def conserved_def posted_sound_def awake_def waits_def place_defs set_has_def
      newTxidSet_def)

section \<open>The gate\<close>

text \<open>An item passes the gate only if it is forced or every unconfirmed parent outside of it was posted successfully.\<close>

lemma gate_closed:
  assumes "firstUnpostedParent posted item = None" and "bi_beef item = Some beef" and "x \<in> set (bi_txIDs item)"
    and "BeefTx (bb_txs beef) x = Some tx" and "Some p \<in> set (stx_SourceTXIDs tx)" and "p \<notin> set (bi_txIDs item)"
    and "bb_DataFormat beef p = Some RawTx"
  shows "set_has posted p"
proof (rule ccontr)
  assume "\<not> set_has posted p"
  with assms have "gate_worthy beef posted (bi_txIDs item) (Some p)" by (simp add: gate_worthy_def)
  moreover have "gate_worthy beef posted (bi_txIDs item) src \<Longrightarrow> src \<noteq> None" for src by (cases src) (auto simp: gate_worthy_def)
  ultimately have some: "firstUnpostedParentOf beef posted x (bi_txIDs item) \<noteq> None"
    using assms(4,5) by (auto simp: firstUnpostedParentOf_def find_None_iff find_Some_iff split: option.splits dest!: nth_mem)
  show False
  proof (cases "find (\<lambda>txID. firstUnpostedParentOf beef posted txID (bi_txIDs item) \<noteq> None) (bi_txIDs item)")
    case None
    with some assms(3) show ?thesis by (auto simp: find_None_iff)
  next
    case (Some y)
    then have "firstUnpostedParentOf beef posted y (bi_txIDs item) \<noteq> None" by (auto simp: find_Some_iff)
    with Some assms(1,2) show ?thesis by (auto simp: firstUnpostedParent_def)
  qed
qed

text \<open>The only step that starts a post is a worker's.\<close>

lemma post_startedE:
  assumes "pool_step sz s s'" and "bp_posting s' = bp_posting s @ [item]"
  obtains xs ys where "bp_taken s = xs @ item # ys" and "bi_force item \<or> firstUnpostedParent (bp_posted s) item = None"
  using assms(1)
proof cases
  case (worker_post xs item' ys)
  with assms(2) that show ?thesis by (auto simp: park_def split: option.splits)
next
  case (add beef txIDs)
  then show ?thesis using assms(2) by (elim Add_item_eq) simp
next
  case (worker_park xs item' ys)
  from worker_park(3) assms(2) show ?thesis by (elim park_eq) simp
next
  case (post_failed xs i ys)
  then show ?thesis using arg_cong [OF assms(2), of length] by simp
next
  case (post_succeeded xs i ys t)
  then show ?thesis using arg_cong [OF assms(2), of length] by (simp add: release_frame)
qed (use assms(2) in \<open>simp_all add: markEnqueued_def sweep_frame\<close>)

section \<open>The pool can always be drained\<close>

text \<open>How far an item is from being finished when no new parent is posted: an item that is not forced may still be parked once,
  a forced one goes straight to its post.\<close>

definition item_weight :: "nat \<Rightarrow> broadcast_item \<Rightarrow> nat" where
  "item_weight n item = (if bi_force item then n else n + 10)"

definition weights :: "nat \<Rightarrow> broadcast_item list \<Rightarrow> nat" where
  "weights n items = sum_list (map (item_weight n) items)"

definition pool_weight :: "pool \<Rightarrow> nat" where
  "pool_weight s = weights 6 (bp_handing s) + weights 5 (bp_requeueQueue s) + weights 4 (dispatching s) + weights 3 (bp_channel s) +
     weights 2 (bp_taken s) + length (bp_posting s) + 10 * length (waiting_items s)"

definition control_weight :: "pool \<Rightarrow> nat" where
  "control_weight s = 3 * bp_signals s + (if bp_wake s then 2 else 0) + (if bp_dispatch s = None then 0 else 1)"

lemma weights_simps [simp]: "weights n [] = 0" "weights n (i # xs) = item_weight n i + weights n xs"
  "weights n (xs @ ys) = weights n xs + weights n ys"
  by (simp_all add: weights_def)

lemma weights_mono: "m < n \<Longrightarrow> xs \<noteq> [] \<Longrightarrow> weights m xs < weights n xs"
proof (induction xs)
  case (Cons i xs)
  then show ?case by (cases "xs = []") (auto simp: item_weight_def)
qed simp

lemmas weight_defs = pool_weight_def control_weight_def dispatching_def waiting_items_def item_weight_def

abbreviation lighter :: "(pool \<times> pool) set" where
  "lighter \<equiv> measures [pool_weight, control_weight]"

lemma proceedsI: "pool_step sz s s' \<Longrightarrow> (s', s) \<in> lighter \<Longrightarrow> \<exists>s'. (pool_step sz)\<^sup>*\<^sup>* s s' \<and> (s', s) \<in> lighter"
  by (blast intro: r_into_rtranclp)

text \<open>A worker with an item in hand can always proceed.\<close>

lemma worker_proceeds:
  assumes "bp_posting s \<noteq> [] \<or> bp_taken s \<noteq> []"
  shows "\<exists>s'. (pool_step sz)\<^sup>*\<^sup>* s s' \<and> (s', s) \<in> lighter"
proof (cases "bp_posting s")
  case (Cons item rest)
  then have "pool_step sz s (s\<lparr>bp_posting := rest, bp_finished := bp_finished s @ [item]\<rparr>)"
    using post_failed [of s "[]" item rest] by simp
  then show ?thesis by (rule proceedsI) (simp add: Cons weight_defs)
next
  case Nil
  with assms obtain item rest where t: "bp_taken s = item # rest" by (cases "bp_taken s") auto
  show ?thesis
  proof (cases "bi_force item \<or> park item (s\<lparr>bp_taken := rest\<rparr>) = None")
    case True
    then have "pool_step sz s (s\<lparr>bp_taken := rest, bp_posting := bp_posting s @ [item]\<rparr>)"
      using worker_post [of s "[]" item rest sz] t by simp
    then show ?thesis by (rule proceedsI) (simp add: t weight_defs)
  next
    case False
    then obtain s' where p: "park item (s\<lparr>bp_taken := rest\<rparr>) = Some s'" by auto
    with False t have step: "pool_step sz s s'" using worker_park [of s "[]" item rest] by simp
    from p obtain parent where "s' = s\<lparr>bp_taken := rest, bp_waiting := wait_under parent (parked (bp_now s) item) (bp_waiting s)\<rparr>"
      by (elim park_eq) simp
    moreover have "length (concat (map snd (wait_under parent i ws))) = Suc (length (concat (map snd ws)))" for parent i ws
      by (metis wait_under_items size_add_mset size_mset)
    ultimately have "(s', s) \<in> lighter" using t False by (simp add: weight_defs)
    with step show ?thesis by (rule proceedsI)
  qed
qed

text \<open>The dispatcher moves requeued items on, unless the channel is full.\<close>

lemma dispatcher_proceeds:
  assumes "awake s" and "bp_channel s = []" and "dispatching s \<noteq> [] \<or> bp_requeueQueue s \<noteq> []"
  shows "\<exists>s'. (pool_step sz)\<^sup>*\<^sup>* s s' \<and> (s', s) \<in> lighter"
proof -
  have room: "int (length (bp_channel s)) < sizing_channelSize sz" using assms(2) by (simp add: sizing_channelSize_def)
  consider (put) item rest where "bp_dispatch s = Some (item # rest)" | (grab) "bp_dispatch s = Some []" "bp_requeueQueue s \<noteq> []"
    | (wake) "bp_dispatch s = None" "bp_wake s" | (sig) n where "bp_dispatch s = None" "\<not> bp_wake s" "bp_signals s = Suc n"
    using assms(1,3) by (cases "bp_dispatch s"; cases "the (bp_dispatch s)"; cases "bp_signals s") (auto simp: awake_def dispatching_def)
  then show ?thesis
  proof cases
    case put
    from dispatcher_put [OF put room] show ?thesis by (rule proceedsI) (simp add: put weight_defs)
  next
    case grab
    from dispatcher_grab [OF grab] show ?thesis
      by (rule proceedsI) (use grab weights_mono [of 4 5 "bp_requeueQueue s"] in \<open>simp add: weight_defs\<close>)
  next
    case wake
    from dispatcher_wake [OF wake(2,1)] show ?thesis by (rule proceedsI) (simp add: wake weight_defs)
  next
    case sig
    from signal [OF sig(3)] show ?thesis by (rule proceedsI) (simp add: sig weight_defs)
  qed
qed

text \<open>When only parked items are left, waiting long enough frees them all.\<close>

lemma all_expired:
  assumes "\<forall>i \<in> set (concat (map snd ws)). \<forall>p. wait_expired sz enq now p i"
  shows "takeExpired sz enq now ws = (map (\<lambda>i. i\<lparr>bi_force := True\<rparr>) (concat (map snd ws)), [])"
  using assms
proof (induction ws)
  case (Cons w ws)
  obtain p children where w: "w = (p, children)" by (cases w)
  with Cons.prems have "filter (wait_expired sz enq now p) children = children"
    "filter (\<lambda>i. \<not> wait_expired sz enq now p i) children = []" by (auto simp: filter_id_conv filter_empty_conv)
  with Cons w show ?case by simp
qed simp

lemma expiry_exists: "\<exists>now \<ge> t0. \<forall>i \<in> set (items :: broadcast_item list). \<forall>p. wait_expired sz enq now p i"
proof (induction items)
  case (Cons i items)
  then obtain now where now: "t0 \<le> now" "\<forall>i \<in> set items. \<forall>p. wait_expired sz enq now p i" by auto
  let ?w = "max (sizing_maxParentWait sz) (sizing_unknownParentWait sz)"
  let ?now = "case bi_parkedAt i of None \<Rightarrow> now | Some t \<Rightarrow> max now (t + ?w + 1)"
  have "now \<le> ?now" by (simp split: option.splits)
  moreover have "wait_expired sz enq ?now p i" for p
    by (auto simp: wait_expired_def parentWait_def split: option.splits)
  moreover have "wait_expired sz enq now p j \<Longrightarrow> now \<le> n \<Longrightarrow> wait_expired sz enq n p j" for p j n
    by (auto simp: wait_expired_def split: option.splits)
  ultimately show ?case using now by (intro exI [of _ ?now]) auto
qed auto

lemma sweeper_proceeds:
  assumes "waiting_items s \<noteq> []"
  shows "\<exists>s'. (pool_step sz)\<^sup>*\<^sup>* s s' \<and> (s', s) \<in> lighter"
proof -
  obtain now where now: "bp_now s \<le> now" "\<forall>i \<in> set (waiting_items s). \<forall>p. wait_expired sz (bp_enqueued s) now p i"
    using expiry_exists by blast
  let ?t = "s\<lparr>bp_now := now\<rparr>"
  have "pool_step sz s ?t" using now(1) by (rule tick)
  moreover have "pool_step sz ?t (sweep sz now ?t)"
    using sweeper [of "bp_waiting s" ?t now sz] by simp
  moreover have "sweep sz now ?t = ?t\<lparr>bp_waiting := [], bp_handing := bp_handing s @ map (\<lambda>i. i\<lparr>bi_force := True\<rparr>) (waiting_items s),
      bp_enqueued := prune (now - sizing_postedRetention sz) (bp_enqueued s),
      bp_posted := prune (now - sizing_postedRetention sz) (bp_posted s)\<rparr>"
    using all_expired [of "bp_waiting s" sz "bp_enqueued s" now] now(2) by (simp add: sweep_def waiting_items_def Let_def)
  moreover have "weights 6 (map (\<lambda>i. i\<lparr>bi_force := True\<rparr>) xs) = 6 * length xs" for xs
    by (induction xs) (simp_all add: item_weight_def)
  ultimately show ?thesis
    using assms by (intro exI [of _ "sweep sz now ?t"]) (auto simp: weight_defs intro: converse_rtranclp_into_rtranclp)
qed

lemma pool_proceeds:
  assumes "awake s" and "unfinished s \<noteq> []"
  shows "\<exists>s'. (pool_step sz)\<^sup>*\<^sup>* s s' \<and> (s', s) \<in> lighter"
proof (cases "bp_posting s \<noteq> [] \<or> bp_taken s \<noteq> []")
  case True
  then show ?thesis by (rule worker_proceeds)
next
  case idle: False
  show ?thesis
  proof (cases "bp_channel s")
    case (Cons item rest)
    then have "pool_step sz s (s\<lparr>bp_channel := rest, bp_taken := bp_taken s @ [item]\<rparr>)"
      using idle by (intro worker_take) (auto simp: sizing_workers_def)
    then show ?thesis by (rule proceedsI) (simp add: Cons weight_defs)
  next
    case Nil
    consider "dispatching s \<noteq> [] \<or> bp_requeueQueue s \<noteq> []" | "bp_handing s \<noteq> []" | "waiting_items s \<noteq> []"
      using assms(2) idle Nil by (auto simp: unfinished_def)
    then show ?thesis
    proof cases
      case 1
      with assms(1) Nil show ?thesis by (rule dispatcher_proceeds)
    next
      case 2
      from hand_over [of s "[]" "bp_handing s" "[]" sz] 2
      have "pool_step sz s (s\<lparr>bp_handing := [], bp_requeueQueue := bp_requeueQueue s @ bp_handing s, bp_signals := bp_signals s + 1\<rparr>)"
        by simp
      then show ?thesis by (rule proceedsI) (use weights_mono [OF _ 2, of 5 6] in \<open>simp add: weight_defs\<close>)
    next
      case 3
      from sweeper_proceeds [OF this] show ?thesis by blast
    qed
  qed
qed

lemma pool_drains:
  assumes "pool_inv sz s"
  shows "\<exists>s'. (pool_step sz)\<^sup>*\<^sup>* s s' \<and> unfinished s' = []"
proof -
  have "wf lighter" by simp
  then show ?thesis using assms
  proof (induction s rule: wf_induct_rule)
    case (less s)
    show ?case
    proof (cases "unfinished s = []")
      case False
      with less.prems obtain t where t: "(pool_step sz)\<^sup>*\<^sup>* s t" "(t, s) \<in> lighter"
        using pool_proceeds [of s sz] by (auto simp: pool_inv_def)
      from less.IH [OF t(2) pool.run_good [OF t(1) less.prems]] t(1) show ?thesis by (meson rtranclp_trans)
    qed auto
  qed
qed

end
