(* ===== verification/Process_Properties.thy ===== *)
theory Process_Properties
  imports Process_Correct
begin

text \<open>
  The properties of processing and broadcasting actions, with a worked environment for the witnesses.
\<close>

section \<open>Worked environment\<close>

text \<open>All services accept everything; the raw transaction of the example action parses to \<open>bb\<close>.\<close>

definition ex_tx_bb :: sdk_tx where
  "ex_tx_bb = \<lparr>stx_TxID = ''bb'', stx_SourceTXIDs = [None], stx_LockingScripts = []\<rparr>"

definition ex_accept :: "string \<Rightarrow> posted_txid" where
  "ex_accept x = \<lparr>pt_result = PostedTxIDResultSuccess, pt_txid = x, pt_double_spend = False, pt_competing_txs = [],
     pt_error = False, pt_notes = []\<rparr>"

definition ex_env :: process_env where
  "ex_env = \<lparr>pe_lib = std_lib, pe_NewTransactionFromBytes = (\<lambda>raw. if raw = [] then Inl (GoErr ''empty'') else Inr ex_tx_bb),
     pe_NLockTimeIsFinal = (\<lambda>_. Inr True), pe_GetBEEFForTxIDs = (\<lambda>_ _. Inr [''bb'' \<mapsto> ex_tx_bb]),
     pe_VerifyScripts = (\<lambda>_ _. Inr True),
     pe_PostFromBEEF = (\<lambda>_ ids. Inr [\<lparr>ps_name = ''svc'', ps_posted = Some (map ex_accept ids), ps_error = False\<rparr>]),
     pe_GetStatusForTxIDs = (\<lambda>_ _. Inr None), pe_MerklePath = (\<lambda>_. Inr None),
     pe_NewMerklePathFromHex = (\<lambda>_. Inl (GoErr ''none'')), pe_ComputeRootHex = (\<lambda>_ _. Inl (GoErr ''none'')), pe_NewHashFromHex = Inr,
     pe_IsValidRootForHeight = (\<lambda>_ _. Inr False), pe_Base64 = (\<lambda>_. Inr ''batch''), pe_Enqueue = (\<lambda>_ _. True),
     pe_Done = (\<lambda>_. False), pe_commissionSatoshis = 0, pe_maxRebroadcastAttempts = 3\<rparr>"

definition ex_env_down :: process_env where
  "ex_env_down = ex_env\<lparr>pe_PostFromBEEF := (\<lambda>_ _. Inl (GoErr ''timeout''))\<rparr>"

definition ex_world :: world where
  "ex_world = \<lparr>w_db = ex_db, w_release = None, w_posts = [], w_KeyValues = Map.empty\<rparr>"

definition ex_send :: process_args where
  "ex_send = \<lparr>pa_IsNewTx = False, pa_IsSendWith = True, pa_IsNoSend = False, pa_IsDelayed = False, pa_Reference = None,
     pa_TxID = None, pa_RawTx = [], pa_SendWith = [''bb'']\<rparr>"

lemmas ex_process_defs = ex_defs ex_env_def ex_world_def ex_send_def ex_tx_bb_def ex_accept_def step_defs Process_def process_body_def
  process_newRelease_def newRelease_def txIDsToBroadcast_def broadcastTxs_def getKnownTxStatuses_def FindKnownTxStatuses_def
  AlreadySent_def HydrateBEEFSubjects_def in_db_tx_def ClaimKnownTxsForBroadcast_def KnownTxClaimableForBroadcastStatuses_def
  retainClaimed_def post_claimed_def ParentsFirst_def Let_def

section \<open>What is posted stays spent\<close>

text \<open>C21. Every transaction that a processing call posts to the network was claimed before, so that its KnownTx carries
  the broadcast flag when the call returns, and no abort of it succeeds in any later state of the storage. A call that posts anything
  does not release its action, even if it fails afterwards.\<close>

theorem posted_transactions_stay_spent:
  assumes inv: "db_inv (w_db w)" and lib: "convert_ok (pe_lib env)" and op: "Process env userID args w = (r, w')"
  shows "\<exists>ps. w_posts w' = w_posts w @ ps \<and>
    (\<forall>b \<in> set ps. \<forall>x \<in> set b. flagged (w_db w') x \<and>
       (\<forall>db user ref t. (storage_step (pe_lib env))\<^sup>*\<^sup>* (w_db w') db \<longrightarrow> findTransactionForAbort user ref db = Some t \<longrightarrow>
          tr_TxID t = Some x \<longrightarrow> (\<exists>e. AbortAction (pe_lib env) user ref db = (Inl e, db)))) \<and>
    (ps \<noteq> [] \<longrightarrow> w_db w' = w_db (snd (process_body env userID args (w\<lparr>w_release := process_newRelease userID args\<rparr>))))"
proof -
  let ?w0 = "w\<lparr>w_release := process_newRelease userID args\<rparr>"
  obtain q w1 where b: "process_body env userID args ?w0 = (q, w1)" by (metis surj_pair)
  have safe: "safe (pe_lib env) ?w0 w1" using safe.within_at [OF safe_process_body, of env ?w0 userID args] b by simp
  then obtain ps where ps: "w_posts w1 = w_posts w @ ps" "ps \<noteq> [] \<longrightarrow> disarmed (w_release w1)"
    "\<forall>b \<in> set ps. \<forall>x \<in> set b. flagged (w_db w1) x" using inv lib by (auto simp: safe_def)
  have posts: "w_posts w' = w_posts w1" using op b by (auto simp: Process_def split: sum.splits prod.splits)
  have same: "w_db w' = w_db w1" if "ps \<noteq> []"
    using that ps(2) op b by (auto simp: Process_def onError_def disarmed_def split: sum.splits prod.splits option.splits if_splits)
  have "runs (pe_lib env) w w'" using Process_runs [of env w userID args] op by simp
  then have inv': "db_inv (w_db w')" using inv lib storage.run_good unfolding runs_def by blast
  have blocked: "\<exists>e. AbortAction (pe_lib env) user ref db = (Inl e, db)"
    if "flagged (w_db w') x" "(storage_step (pe_lib env))\<^sup>*\<^sup>* (w_db w') db" "findTransactionForAbort user ref db = Some t"
      "tr_TxID t = Some x" for x db user ref t
  proof -
    have "flagged db x" "db_inv db"
      using flagged_run [OF that(2) lib inv' that(1)] storage.run_good [OF that(2)] inv' lib by blast+
    with that(3,4) evidence_blocks_abort [of db _ user ref t] show ?thesis by (auto simp: flagged_def)
  qed
  have flag: "flagged (w_db w') x" if "b \<in> set ps" "x \<in> set b" for b x
    using that ps(3) same by (cases "ps = []") auto
  show ?thesis
    by (rule exI [of _ ps], intro conjI ballI allI impI)
      (use posts ps(1) same b flag blocked in \<open>simp_all, blast+\<close>)
qed

text \<open>The services fail after the transaction was handed to them.\<close>

theorem posted_transactions_stay_spent_witness:
  "w_posts (snd (Process ex_env_down 1 ex_send ex_world)) = [[''bb'']] \<and>
     flagged (w_db (snd (Process ex_env_down 1 ex_send ex_world))) ''bb''"
proof -
  obtain r w' where op: "Process ex_env_down 1 ex_send ex_world = (r, w')" by (metis surj_pair)
  have "w_posts (snd (Process ex_env_down 1 ex_send ex_world)) = [[''bb'']]"
    by (simp add: ex_process_defs ex_env_down_def onError_def disarm_def)
  with op have posts: "w_posts w' = [[''bb'']]" by simp
  have "db_inv (w_db ex_world)" "convert_ok (pe_lib ex_env_down)"
    using ex_db_inv std_convert_ok by (simp_all add: ex_world_def ex_env_def ex_env_down_def)
  from posted_transactions_stay_spent [OF this op] posts op show ?thesis by (auto simp: ex_world_def)
qed

section \<open>A failing call gives its inputs back\<close>

text \<open>C28. When a processing call fails with an error while its release is still armed, nothing was posted, and the
  call aborts its action; if the action was never signed, is outgoing and has no spent outputs, the abort succeeds
  and the transaction ends up aborted.\<close>

theorem failed_call_releases_action:
  assumes inv: "db_inv (w_db w)" and lib: "convert_ok (pe_lib env)"
    and body: "process_body env userID args (w\<lparr>w_release := process_newRelease userID args\<rparr>) = (Inl e, w1)"
    and e: "\<not> is_panic e" and armed: "w_release w1 = Some s" "rl_armed s"
  shows "w_posts w1 = w_posts w \<and>
    Process env userID args w = (Inl e, w1\<lparr>w_release := Some (s\<lparr>rl_armed := False\<rparr>),
      w_db := snd (AbortAction (pe_lib env) (rl_userID s) (rl_reference s) (w_db w1))\<rparr>) \<and>
    (\<forall>t. change_is_P2PKH (db_Outputs (w_db w1)) \<longrightarrow>
       findTransactionForAbort (rl_userID s) (rl_reference s) (w_db w1) = Some t \<longrightarrow> tr_IsOutgoing t \<longrightarrow> tr_TxID t = None \<longrightarrow>
       tr_Status t \<in> set txStatusesAbortableBeforeBroadcast \<longrightarrow>
       (\<forall>r \<in> set (db_Outputs (w_db w1)). or_TransactionID r = tr_ID t \<longrightarrow> or_SpentBy r = None) \<longrightarrow>
       (\<exists>db'. AbortAction (pe_lib env) (rl_userID s) (rl_reference s) (w_db w1) = (Inr True, db')))"
proof -
  let ?w0 = "w\<lparr>w_release := process_newRelease userID args\<rparr>"
  have safe: "safe (pe_lib env) ?w0 w1" using safe.within_at [OF safe_process_body, of env ?w0 userID args] body by simp
  then have "w_posts w1 = w_posts w" using armed by (auto simp: safe_def disarmed_def)
  moreover have "db_inv (w_db w1)"
    using safe inv lib storage.run_good [of "pe_lib env" "w_db w" "w_db w1"] by (auto simp: safe_def runs_def)
  moreover have "Process env userID args w = (Inl e, w1\<lparr>w_release := Some (s\<lparr>rl_armed := False\<rparr>),
      w_db := snd (AbortAction (pe_lib env) (rl_userID s) (rl_reference s) (w_db w1))\<rparr>)"
    using body e armed by (simp add: Process_def onError_def Let_def)
  ultimately show ?thesis using abort_succeeds lib by blast
qed

text \<open>The raw transaction of the unsigned action 3 cannot be parsed.\<close>

definition ex_new_tx :: process_args where
  "ex_new_tx = \<lparr>pa_IsNewTx = True, pa_IsSendWith = False, pa_IsNoSend = False, pa_IsDelayed = False,
     pa_Reference = Some ''r3'', pa_TxID = Some ''cc'', pa_RawTx = [], pa_SendWith = []\<rparr>"

theorem failed_call_releases_action_witness:
  "\<exists>e w'. Process ex_env 1 ex_new_tx (ex_world\<lparr>w_db := ex_db3\<rparr>) = (Inl e, w') \<and>
     (\<exists>db'. AbortAction std_lib 1 ''r3'' ex_db3 = (Inr True, db') \<and> w_db w' = db')"
proof -
  let ?w = "ex_world\<lparr>w_db := ex_db3\<rparr>" and ?s = "\<lparr>rl_userID = 1, rl_reference = ''r3'', rl_armed = True\<rparr>"
  have body: "process_body ex_env 1 ex_new_tx (?w\<lparr>w_release := process_newRelease 1 ex_new_tx\<rparr>) =
      (Inl (GoWrap ''failed to build transaction object from raw tx bytes'' (GoErr ''empty'')), ?w\<lparr>w_release := Some ?s\<rparr>)"
    by (simp add: process_body_def processNewTx_def step_defs ex_env_def ex_new_tx_def process_newRelease_def newRelease_def arm_def
        rwrap_def)
  have good: "db_inv (w_db ?w)" "convert_ok (pe_lib ex_env)" using ex_db3_inv std_convert_ok by (simp_all add: ex_env_def)
  from failed_call_releases_action [OF good body, of ?s] ex_db3_abortable show ?thesis
    by (auto simp: ex_env_def ex_tx_def txStatusesAbortableBeforeBroadcast_def)
qed

section \<open>Applying a broadcast verdict\<close>

text \<open>Applying the outcome of a broadcast never gives an input back, whatever the verdict, and a late outcome for a transaction that
  is beyond the broadcast stage or has failed for good changes nothing.\<close>

theorem broadcast_verdict_keeps_inputs:
  assumes op: "apply_broadcast_result lib txID outcome notes db = Inr (x, db')"
  shows "map or_SpentBy (db_Outputs db') = map or_SpentBy (db_Outputs db) \<and>
    ((\<forall>k \<in> set (db_KnownTxs db). kt_TxID k = txID \<longrightarrow> kt_Status k \<in> set broadcastResultSkipStatuses) \<longrightarrow> db' = db)"
proof -
  have fold: "map or_SpentBy (db_Outputs (fold MarkCreatedOutputsAsNotSpendable ids d)) = map or_SpentBy (db_Outputs d)" for ids d
    by (induction ids arbitrary: d) (auto simp: MarkCreatedOutputsAsNotSpendable_def update_where_def)
  have utxo: "db_Outputs d' = db_Outputs d" if "CreateUTXOForSpendableOutputsByTxID lib txID d = Inr (y, d')" for d y d'
    using that by (auto simp: CreateUTXOForSpendableOutputsByTxID_def createUTXOsForSpendableOutputsByTxID_def
        createUTXOsFromOutputs_def flow_simps Let_def result_simps)
  have known: "db_Outputs d' = db_Outputs d" if "updateKnownTxStatus txID st skip ns d = Inr (y, d')" for st skip ns d y d'
    using that by (auto simp: updateKnownTxStatus_def addTxNotes_def split: if_splits)
  have status: "db_Outputs d' = db_Outputs d" if "UpdateTransactionStatusByTxID txID st ex d = Inr (y, d')" for st ex d y d'
    using that by (auto simp: UpdateTransactionStatusByTxID_def Let_def split: if_splits)
  have "map or_SpentBy (db_Outputs db') = map or_SpentBy (db_Outputs db)"
    using op by (auto simp: apply_broadcast_result_def Let_def result_simps fold split: sum.splits if_splits dest!: known status utxo)
  moreover have "db' = db" if "\<forall>k \<in> set (db_KnownTxs db). kt_TxID k = txID \<longrightarrow> kt_Status k \<in> set broadcastResultSkipStatuses"
  proof -
    have "count_where (guarded_row txID broadcastResultSkipStatuses) (db_KnownTxs db) = 0"
      using that by (auto simp: count_where_0 guarded_row_def broadcastResultSkipStatuses_def)
    then show ?thesis using op by (simp add: apply_broadcast_result_def updateKnownTxStatus_def)
  qed
  ultimately show ?thesis by blast
qed

text \<open>A double-spend verdict arrives for a transaction that was mined in the meantime, and for one that was not.\<close>

definition ex_rejected :: broadcast_outcome where
  "ex_rejected = \<lparr>bo_reqStatus = ProvenTxStatusDoubleSpend, bo_txStatus = TxStatusFailed, bo_spendable = False,
     bo_review = \<lparr>ra_TxID = ''bb'', ra_Status = ReviewActionResultStatusDoubleSpend, ra_CompetingTxs = {''cc''},
       ra_Reference = [], ra_Labels = [], ra_Errors = Map.empty\<rparr>,
     bo_sendWith = \<lparr>sw_TxID = ''bb'', sw_Status = SendWithResultStatusFailed\<rparr>\<rparr>"

theorem broadcast_verdict_keeps_inputs_witness:
  "\<exists>db'. apply_broadcast_result std_lib ''bb'' ex_rejected [] ex_db = Inr ((), db') \<and> db' \<noteq> ex_db \<and>
     map or_SpentBy (db_Outputs db') = map or_SpentBy (db_Outputs ex_db)"
proof -
  obtain db' where op: "apply_broadcast_result std_lib ''bb'' ex_rejected [] ex_db = Inr ((), db')" and "db' \<noteq> ex_db"
    by (simp add: apply_broadcast_result_def ex_defs ex_rejected_def updateKnownTxStatus_def UpdateTransactionStatusByTxID_def
        broadcastResultSkipStatuses_def ProvenTxReqBeyondBroadcastStageStatuses_def count_where_def guarded_row_def
        addTxNotes_def update_where_def FindTransactionIDsByTxID_def MarkCreatedOutputsAsNotSpendable_def)
  with broadcast_verdict_keeps_inputs [OF op] show ?thesis by blast
qed

section \<open>Confirming a double spend\<close>

text \<open>A transaction counts as known to the network only if an attempt within the budget was answered successfully and
  reported it with a status other than not found.\<close>

definition reported_known :: "process_env \<Rightarrow> nat \<Rightarrow> string \<Rightarrow> bool" where
  "reported_known env attempt txID \<longleftrightarrow> (\<exists>asked st. pe_GetStatusForTxIDs env attempt asked = Inr (Some st) \<and> gs_Success st \<and>
     (\<exists>d \<in> set (gs_Results st). ts_TxID d = txID \<and> ts_Status d \<noteq> ResultStatusForTxIDNotFound))"

lemma known_attempts_sound:
  "x \<in> known_attempts env left attempt remaining known \<Longrightarrow> x \<in> known \<or> (\<exists>i. attempt \<le> i \<and> i < attempt + left \<and> reported_known env i x)"
proof (induction env left attempt remaining known rule: known_attempts.induct)
  case (2 env left attempt remaining known)
  show ?case
  proof (cases "0 < attempt \<and> pe_Done env attempt")
    case False
    show ?thesis
    proof (cases "\<exists>st. pe_GetStatusForTxIDs env attempt remaining = Inr (Some st) \<and> gs_Success st")
      case True
      then obtain st where st: "pe_GetStatusForTxIDs env attempt remaining = Inr (Some st)" "gs_Success st" by blast
      let ?known = "known \<union> set (map ts_TxID (filter (\<lambda>d. ts_Status d \<noteq> ResultStatusForTxIDNotFound) (gs_Results st)))"
      have here: "reported_known env attempt y" if "y \<in> ?known" "y \<notin> known" for y
        using that st by (auto simp: reported_known_def)
      have "x \<in> ?known \<or> (\<exists>i. attempt + 1 \<le> i \<and> i < attempt + 1 + left \<and> reported_known env i x)"
        using 2(4) [OF False st(1)] 2(5) False st by (auto simp: Let_def split: if_splits)
      then show ?thesis using here [of x] by (metis add_lessD1 add.commute add_Suc less_add_Suc1 le_refl Suc_eq_plus1 Suc_leD add_Suc_right)
    next
      case noanswer: False
      then have "x \<in> known_attempts env left (attempt + 1) remaining known"
        using 2(5) False by (auto split: sum.splits option.splits)
      then have "x \<in> known \<or> (\<exists>i. attempt + 1 \<le> i \<and> i < attempt + 1 + left \<and> reported_known env i x)"
        using 2(1-3) False noanswer
        by (cases "pe_GetStatusForTxIDs env attempt remaining") (auto split: option.splits)
      then show ?thesis by auto
    qed
  qed (use 2(5) in simp)
qed simp


definition ex_double_spend :: aggregated_txid where
  "ex_double_spend = \<lparr>ag_results = [\<lparr>pt_result = PostedTxIDResultDoubleSpend, pt_txid = ''bb'', pt_double_spend = True,
       pt_competing_txs = [''cc''], pt_error = True, pt_notes = []\<rparr>], ag_status = AggregatedPostedTxIDDoubleSpend,
     ag_success = 0, ag_double_spend = 1, ag_status_error = 0, ag_service_error = 0, ag_competing = {''cc''}\<rparr>"


end
