(* ===== verification/Create_Inputs.thy ===== *)
theory Create_Inputs
  imports Beef Satoshi
begin

text \<open>
  The inputs a caller provides for a new action, \<open>create_process_inputs.go\<close>, with the linking of BEEF data of
  \<open>pkg/internal/txutils/hydrate_from_beef.go\<close>.

  The verifiers of BEEF data and of scripts are third-party code and a parameter. A Go map is iterated in any order; the model
  iterates a BEEF in the order its entries are listed.
\<close>

section \<open>Data\<close>

record create_input =
  ci_Outpoint :: out_point
  ci_InputDescription :: string
  ci_SequenceNumber :: nat
  ci_UnlockingScript :: "string option"
  ci_UnlockingScriptLength :: "nat option"

definition ValidCreateActionInput_ScriptLength :: "go_lib \<Rightarrow> create_input \<Rightarrow> nat result" where
  "ValidCreateActionInput_ScriptLength lib i = (case ci_UnlockingScript i of
     Some s \<Rightarrow> (case to_UInt64 lib (int (length s div 2)) of
       None \<Rightarrow> Inl (GoWrap ''failed to convert unlockingScript length'' (GoErr ''to.UInt64'')) | Some n \<Rightarrow> Inr n)
   | None \<Rightarrow> (case ci_UnlockingScriptLength i of
       Some n \<Rightarrow> Inr n
     | None \<Rightarrow> Inl (GoErr ''unlockingScript and unlockingScriptLength are both nil'')))"

record xinput_definition =
  xi_Input :: create_input
  xi_Satoshis :: int
  xi_LockingScript :: bytes
  xi_knownOutput :: "output_row option"

record processed_inputs =
  pi_Inputs :: "xinput_definition list"
  pi_Beef :: sdk_beef
  pi_ChangeOutputIDs :: "nat list"
  pi_KnownOutputIDs :: "nat list"

record verifiers =
  vf_VerifyBeef :: "sdk_beef \<Rightarrow> bool result"
  vf_VerifyScripts :: "sdk_beef \<Rightarrow> full_tx \<Rightarrow> bool result"

section \<open>Linking inputs to their sources\<close>

definition upd_tx :: "string \<Rightarrow> (full_tx \<Rightarrow> full_tx) \<Rightarrow> sdk_beef \<Rightarrow> sdk_beef" where
  "upd_tx x f b = b\<lparr>sb_Transactions := map (\<lambda>(y, e). (y, if y = x then e\<lparr>bt_Transaction := map_option f (bt_Transaction e)\<rparr> else e))
     (sb_Transactions b)\<rparr>"

definition link_input :: "string \<Rightarrow> nat \<Rightarrow> sdk_beef \<Rightarrow> sdk_beef" where
  "link_input owner i b = upd_tx owner (\<lambda>tx. tx\<lparr>ft_Inputs := (ft_Inputs tx)[i := (ft_Inputs tx ! i)\<lparr>in_Linked := True\<rparr>]\<rparr>) b"

definition input_at :: "sdk_beef \<Rightarrow> string \<Rightarrow> nat \<Rightarrow> tx_input option" where
  "input_at b owner i = (case Option.bind (beef_entry b owner) bt_Transaction of
     None \<Rightarrow> None | Some tx \<Rightarrow> if i < length (ft_Inputs tx) then Some (ft_Inputs tx ! i) else None)"

text \<open>\<open>hydrateInput\<close> for the \<open>i\<close>-th input of the transaction \<open>owner\<close>; \<open>left\<close> is 101 minus the depth.\<close>

function hydrateInput :: "nat \<Rightarrow> string \<Rightarrow> nat \<Rightarrow> sdk_beef \<Rightarrow> sdk_beef result"
  and hydrate_sources :: "nat \<Rightarrow> string \<Rightarrow> nat list \<Rightarrow> sdk_beef \<Rightarrow> sdk_beef result"
where
  "hydrateInput left owner i b = (case input_at b owner i of
     None \<Rightarrow> Inr b
   | Some input \<Rightarrow> (case in_SourceTXID input of
       None \<Rightarrow> Inl (GoPanic ''nil pointer dereference'')
     | Some txID \<Rightarrow>
         if left = 0 then Inl (GoErr ''could not hydrate the input: too many recursions'')
         else if in_Linked input then Inr b
         else (case beef_entry b txID of
           None \<Rightarrow> Inl (GoErr ''could not find transaction in beef'')
         | Some e \<Rightarrow> (case bt_Transaction e of
             None \<Rightarrow> Inr b
           | Some tx \<Rightarrow>
               let b1 = link_input owner i b in
               if bt_DataFormat e = RawTxAndBumpIndex
               then (if 0 \<le> bt_BumpIndex e \<and> bt_BumpIndex e \<le> int (length (sb_BUMPs b)) - 1
                     then Inr (upd_tx txID (\<lambda>t. t\<lparr>ft_MerklePath := Some (sb_BUMPs b ! nat (bt_BumpIndex e))\<rparr>) b1)
                     else Inl (GoErr ''cannot find bump with index''))
               else hydrate_sources (left - 1) txID [0..<length (ft_Inputs tx)] b1))))"
| "hydrate_sources left owner is b = (case is of
     [] \<Rightarrow> Inr b
   | i # rest \<Rightarrow> rbind (hydrateInput left owner i b) (hydrate_sources left owner rest))"
  by pat_completeness auto
termination
  by (relation "measures [\<lambda>x. case x of Inl (l, _, _, _) \<Rightarrow> l | Inr (l, _, _, _) \<Rightarrow> l,
       \<lambda>x. case x of Inl _ \<Rightarrow> 0 | Inr (_, _, is, _) \<Rightarrow> length is]") auto

declare hydrateInput.simps [simp del] hydrate_sources.simps [simp del]

fun hydrate_tx_inputs :: "string \<Rightarrow> nat list \<Rightarrow> sdk_beef \<Rightarrow> sdk_beef result" where
  "hydrate_tx_inputs txID [] b = Inr b"
| "hydrate_tx_inputs txID (i # is) b =
     (if Option.bind (input_at b txID i) in_SourceTXID = None then hydrate_tx_inputs txID is b
      else rbind (rwrap ''failed to hydrate input'' (hydrateInput 101 txID i b)) (hydrate_tx_inputs txID is))"

fun hydrate_entries :: "string list \<Rightarrow> sdk_beef \<Rightarrow> sdk_beef result" where
  "hydrate_entries [] b = Inr b"
| "hydrate_entries (txID # txIDs) b = (case Option.bind (beef_entry b txID) bt_Transaction of
     None \<Rightarrow> hydrate_entries txIDs b
   | Some tx \<Rightarrow>
       if ft_MerklePath tx \<noteq> None then hydrate_entries txIDs b
       else rbind (hydrate_tx_inputs txID [0..<length (ft_Inputs tx)] b) (hydrate_entries txIDs))"

definition HydrateBEEF :: "sdk_beef \<Rightarrow> sdk_beef result" where
  "HydrateBEEF b = hydrate_entries (map fst (sb_Transactions b)) b"

section \<open>Ancestry that the BEEF does not anchor\<close>

definition readyToBeInputProvenTxStatuses :: "proven_tx_req_status list" where
  "readyToBeInputProvenTxStatuses = [ProvenTxStatusUnsent, ProvenTxStatusUnmined, ProvenTxStatusUnconfirmed, ProvenTxStatusSending,
     ProvenTxStatusNoSend, ProvenTxStatusCompleted]"

fun join_with :: "string \<Rightarrow> string list \<Rightarrow> string" where
  "join_with sep [] = []"
| "join_with sep [x] = x"
| "join_with sep (x # xs) = x @ sep @ join_with sep xs"

definition missingProofError :: "string list \<Rightarrow> string list \<Rightarrow> go_error" where
  "missingProofError txIDs msgParts =
     (if txIDs = [] then GoErr (join_with ''; '' msgParts)
      else
        let subject = (if 1 < length txIDs then ''transactions'' else ''transaction'');
            txMsgPart = ''valid and contain complete proof data for '' @ subject @ '': '' @ join_with '', '' txIDs
        in GoErr (if msgParts \<noteq> [] then join_with ''; '' msgParts @ ''; '' @ txMsgPart else txMsgPart))"

definition provenInBEEF :: "sdk_beef \<Rightarrow> string list" where
  "provenInBEEF b =
     concat (map (\<lambda>bump. case mb_Path bump of
        [] \<Rightarrow> []
      | level0 # _ \<Rightarrow> concat (map (\<lambda>leaf. case lf_Hash leaf of
          None \<Rightarrow> [] | Some h \<Rightarrow> if lf_Txid leaf = Some True then [h] else []) level0)) (sb_BUMPs b)) @
     map fst (filter (\<lambda>(x, e). case bt_Transaction e of None \<Rightarrow> False | Some tx \<Rightarrow> ft_MerklePath tx \<noteq> None) (sb_Transactions b))"

definition unanchored_source :: "sdk_beef \<Rightarrow> string \<Rightarrow> bool" where
  "unanchored_source b s \<longleftrightarrow> (case beef_entry b s of None \<Rightarrow> True | Some e \<Rightarrow> bt_Transaction e = None)"

definition unanchorableSources :: "sdk_beef \<Rightarrow> string list" where
  "unanchorableSources b =
     rev (remdups (rev (concat (map (\<lambda>(x, e). case bt_Transaction e of
         None \<Rightarrow> []
       | Some tx \<Rightarrow> if x \<in> set (provenInBEEF b) then []
           else filter (unanchored_source b) (concat (map (\<lambda>i. case in_SourceTXID i of None \<Rightarrow> [] | Some s \<Rightarrow> [s]) (ft_Inputs tx))))
       (sb_Transactions b)))))"

definition maxAncestryHydrationRounds :: nat where
  "maxAncestryHydrationRounds = 8"

definition ancestry_options :: "sdk_beef \<Rightarrow> get_beef_options" where
  "ancestry_options b = WithStatusesToFilterOut ProvenTxReqProblematicStatuses
     (WithAnchoredParents (WithDirectSourcesOnly (WithMergeToBEEF (Some b) default_options)))"

text \<open>The rounds of \<open>hydrateAncestryFromStorage\<close>; \<open>onMissing\<close> gives the error of the caller, or \<open>None\<close> if it accepts the gap.\<close>

fun hydrate_rounds :: "nat \<Rightarrow> beef_sdk \<Rightarrow> (string list \<Rightarrow> go_error option) \<Rightarrow> database \<Rightarrow> sdk_beef \<Rightarrow> sdk_beef result" where
  "hydrate_rounds 0 sdk onMissing db b = Inl (GoErr ''BEEF ancestry still incomplete after hydration rounds'')"
| "hydrate_rounds (Suc left) sdk onMissing db b =
     (let needed = unanchorableSources b in
      if needed = [] then Inr b
      else if \<not> AllKnownTxsExist needed readyToBeInputProvenTxStatuses db
      then (case onMissing needed of None \<Rightarrow> Inr b | Some e \<Rightarrow> Inl e)
      else rbind (rwrap ''failed to merge storage ancestry'' (GetBEEFForTxIDs sdk db (ancestry_options b) needed))
             (\<lambda>(b', _). hydrate_rounds left sdk onMissing db b'))"

definition hydrateAncestryFromStorage ::
  "beef_sdk \<Rightarrow> (string list \<Rightarrow> go_error option) \<Rightarrow> database \<Rightarrow> sdk_beef \<Rightarrow> sdk_beef result" where
  "hydrateAncestryFromStorage sdk onMissing db b = hydrate_rounds maxAncestryHydrationRounds sdk onMissing db b"

section \<open>Processing the provided inputs\<close>

definition txid_only_ids :: "sdk_beef \<Rightarrow> string list" where
  "txid_only_ids b = map fst (filter (\<lambda>(_, e). bt_DataFormat e = TxIDOnly) (sb_Transactions b))"

definition processInputBEEF ::
  "beef_sdk \<Rightarrow> bool \<Rightarrow> string list \<Rightarrow> bytes \<Rightarrow> database \<Rightarrow> sdk_beef \<Rightarrow> sdk_beef result" where
  "processInputBEEF sdk trustSelf txIDsLookup inputBEEF db b0 =
     rbind (rwrap ''failed to merge input beef'' (bs_MergeBeefBytes sdk inputBEEF b0)) (\<lambda>b.
       let txIDOnlyIDs = txid_only_ids b;
           notProvided = filter (\<lambda>x. x \<notin> set txIDsLookup) txIDOnlyIDs
       in if \<not> trustSelf \<and> txIDOnlyIDs \<noteq> []
          then Inl (missingProofError txIDOnlyIDs [''inputBEEF contains transactions with TxIDOnly that causes error if trustSelf not set''])
          else if notProvided = [] then Inr b
          else if \<not> AllKnownTxsExist notProvided readyToBeInputProvenTxStatuses db
          then Inl (missingProofError notProvided [''some tx in the inputBEEF is not known to storage''])
          else Inr b)"

definition checkInputsAndMergeTxIDsToBEEF :: "beef_sdk \<Rightarrow> bool \<Rightarrow> string list \<Rightarrow> database \<Rightarrow> sdk_beef \<Rightarrow> sdk_beef result" where
  "checkInputsAndMergeTxIDsToBEEF sdk trustSelf txIDsLookup db b =
     (let missing = filter (\<lambda>x. case beef_entry b x of None \<Rightarrow> True | Some e \<Rightarrow> bt_DataFormat e = TxIDOnly) txIDsLookup in
      if missing = [] then Inr b
      else if \<not> trustSelf
      then Inl (missingProofError missing [''provided inputs contain transactions that are missing full proof in the inputBEEF''])
      else if \<not> AllKnownTxsExist missing readyToBeInputProvenTxStatuses db
      then Inl (missingProofError missing [''some tx used in provided input is not known to storage''])
      else Inr (fold (bs_MergeTxidOnly sdk) missing b))"

definition hydrateUnanchoredAncestry :: "beef_sdk \<Rightarrow> bool \<Rightarrow> database \<Rightarrow> sdk_beef \<Rightarrow> sdk_beef result" where
  "hydrateUnanchoredAncestry sdk trustSelf db b =
     (if \<not> trustSelf then Inr b
      else hydrateAncestryFromStorage sdk (\<lambda>needed. Some (missingProofError needed
        [''inputBEEF spends transactions whose proof is neither provided nor known to storage''])) db b)"

fun verify_scripts :: "verifiers \<Rightarrow> sdk_beef \<Rightarrow> (string \<times> beef_tx) list \<Rightarrow> unit result" where
  "verify_scripts v b [] = Inr ()"
| "verify_scripts v b ((x, e) # es) = (case bt_Transaction e of
     None \<Rightarrow> verify_scripts v b es
   | Some tx \<Rightarrow>
       if ft_MerklePath tx \<noteq> None then verify_scripts v b es
       else rbind (rwrap ''script verification failed'' (vf_VerifyScripts v b tx)) (\<lambda>ok.
         if ok then verify_scripts v b es else Inl (GoErr ''scripts are not valid for tx'')))"

definition xinputDefOnKnownUTXO :: "create_input \<Rightarrow> output_row \<Rightarrow> xinput_definition result" where
  "xinputDefOnKnownUTXO xinput output =
     (if (case or_LockingScript output of None \<Rightarrow> True | Some s \<Rightarrow> s = []) \<or> or_Satoshis output \<le> 0
      then Inl (GoErr ''output has no locking script or positive satoshis'')
      else if \<not> or_Spendable output then Inl (GoErr ''output is not spendable'')
      else rbind (MustFrom (Signed (or_Satoshis output))) (\<lambda>sats.
        Inr \<lparr>xi_Input = xinput, xi_Satoshis = sats, xi_LockingScript = the (or_LockingScript output), xi_knownOutput = Some output\<rparr>))"

text \<open>A bare txid is read back from storage and merged, so the BEEF may grow.\<close>

definition unknown_source :: "beef_sdk \<Rightarrow> string \<Rightarrow> string \<Rightarrow> beef_tx \<Rightarrow> database \<Rightarrow> sdk_beef \<Rightarrow> (beef_tx \<times> sdk_beef) result" where
  "unknown_source sdk txID hash btx db b =
     (if bt_DataFormat btx = TxIDOnly then
        rbind (rwrap ''failed to build beef for tx''
            (GetBEEFForTxID sdk db (WithStatusesToFilterOut ProvenTxReqProblematicStatuses default_options) txID)) (\<lambda>(beefForTx, _).
          case beef_entry beefForTx hash of
            None \<Rightarrow> Inl (GoErr ''tx not found in beef'')
          | Some btx' \<Rightarrow> rbind (rwrap ''failed to merge beef for tx'' (bs_MergeBeefTx sdk btx' b)) (\<lambda>b'. Inr (btx', b')))
      else Inr (btx, b))"

definition xinputDefOnUnknownUTXO :: "beef_sdk \<Rightarrow> create_input \<Rightarrow> database \<Rightarrow> sdk_beef \<Rightarrow> (xinput_definition \<times> sdk_beef) result" where
  "xinputDefOnUnknownUTXO sdk xinput db b =
     (let txID = op_TxID (ci_Outpoint xinput); vout = op_Vout (ci_Outpoint xinput) in
      rbind (rwrap ''failed to parse txID'' (bs_NewHashFromHex sdk txID)) (\<lambda>hash.
        case beef_entry b hash of
          None \<Rightarrow> Inl (GoErr ''input not found in beef or outputs'')
        | Some btx \<Rightarrow> rbind (unknown_source sdk txID hash btx db b) (\<lambda>(btx', b').
            case bt_Transaction btx' of
              None \<Rightarrow> Inl (GoPanic ''nil pointer dereference'')
            | Some tx \<Rightarrow>
                if length (ft_Outputs tx) \<le> vout then Inl (GoErr ''input has invalid vout'')
                else let out = ft_Outputs tx ! vout in
                  rbind (MustFrom (Unsigned (out_Satoshis out))) (\<lambda>sats.
                    Inr (\<lparr>xi_Input = xinput, xi_Satoshis = sats, xi_LockingScript = out_LockingScript out, xi_knownOutput = None\<rparr>, b')))))"

fun buildInputsDefinition :: "beef_sdk \<Rightarrow> int \<Rightarrow> database \<Rightarrow> create_input list \<Rightarrow> processed_inputs \<Rightarrow> processed_inputs result" where
  "buildInputsDefinition sdk userID db [] acc = Inr acc"
| "buildInputsDefinition sdk userID db (xinput # xinputs) acc = (case FindOutput userID (ci_Outpoint xinput) db of
     Some output \<Rightarrow>
       rbind (rwrap ''failed to process input'' (xinputDefOnKnownUTXO xinput output)) (\<lambda>x.
         buildInputsDefinition sdk userID db xinputs
           (if or_Change output
            then acc\<lparr>pi_Inputs := pi_Inputs acc @ [x], pi_ChangeOutputIDs := pi_ChangeOutputIDs acc @ [or_ID output]\<rparr>
            else acc\<lparr>pi_Inputs := pi_Inputs acc @ [x], pi_KnownOutputIDs := pi_KnownOutputIDs acc @ [or_ID output]\<rparr>))
   | None \<Rightarrow>
       rbind (rwrap ''failed to process input'' (xinputDefOnUnknownUTXO sdk xinput db (pi_Beef acc))) (\<lambda>(x, b).
         buildInputsDefinition sdk userID db xinputs (acc\<lparr>pi_Inputs := pi_Inputs acc @ [x], pi_Beef := b\<rparr>)))"

definition newInputsProcessor :: "beef_sdk \<Rightarrow> create_input list \<Rightarrow> string list result" where
  "newInputsProcessor sdk inputs = rbind
     (map_or_error (\<lambda>i. rwrap ''failed to parse txID'' (bs_NewHashFromHex sdk (op_TxID (ci_Outpoint i)))) inputs) (\<lambda>hs. Inr (remdups hs))"

definition processInputs :: "beef_sdk \<Rightarrow> verifiers \<Rightarrow> int \<Rightarrow> create_input list \<Rightarrow> bytes option \<Rightarrow> bool \<Rightarrow> string list \<Rightarrow> database \<Rightarrow>
    processed_inputs result" where
  "processInputs sdk v userID inputs inputBEEF trustSelf txIDsLookup db =
     (let result = (\<lambda>b. \<lparr>pi_Inputs = [], pi_Beef = b, pi_ChangeOutputIDs = [], pi_KnownOutputIDs = []\<rparr>) in
      if inputs = [] then Inr (result NewBeefV2)
      else
        rbind (case inputBEEF of
            None \<Rightarrow> Inr NewBeefV2
          | Some bs \<Rightarrow> if bs = [] then Inr NewBeefV2
              else rwrap ''failed to process inputBEEF'' (processInputBEEF sdk trustSelf txIDsLookup bs db NewBeefV2)) (\<lambda>b1.
        rbind (rwrap ''failed to get beef for inputs'' (checkInputsAndMergeTxIDsToBEEF sdk trustSelf txIDsLookup db b1)) (\<lambda>b2.
        rbind (if inputBEEF = None then Inr b2
               else rbind (rwrap ''failed to complete beef ancestry from storage'' (hydrateUnanchoredAncestry sdk trustSelf db b2)) (\<lambda>b3.
                 rbind (rwrap ''failed to verify beef'' (vf_VerifyBeef v b3)) (\<lambda>ok.
                   if ok then Inr b3 else Inl (GoErr ''provided beef is not valid'')))) (\<lambda>b3.
        rbind (rwrap ''failed to hydrate beef for script verification'' (HydrateBEEF b3)) (\<lambda>b4.
        rbind (verify_scripts v b4 (sb_Transactions b4)) (\<lambda>_.
          buildInputsDefinition sdk userID db inputs (result b4)))))))"

end
