(* ===== verification/Create_Action.thy ===== *)
theory Create_Action
  imports Create_Inputs Process_World Funder
begin

text \<open>
  The creation of an action, \<open>create.go\<close>: the provided inputs and outputs, the commission, funding from the user's baskets,
  the outputs of the new transaction, and its storage with the claims on the inputs, retried under contention.

  The randomizer, the generator of commission scripts, the verifiers and the SDK are parameters (\<open>create_env\<close>). A random draw gets the number of the
  attempt it belongs to. \<open>ce_meanwhile\<close> is what other calls do to the database between the reads of this call and its attempts,
  and \<open>ce_locked\<close> the index rows they hold locked.
\<close>

section \<open>Data\<close>

record throughput_config =
  tc_Enabled :: bool
  tc_Denomination :: nat
  tc_SpendPolicy :: spend_policy
  tc_PoolBasket :: string
  tc_ReserveBasket :: string
  tc_FanoutOutputsPerTx :: nat

record shaped_change =
  sh_Count :: nat
  sh_Satoshis :: nat
  sh_Basket :: string

record create_output =
  co_LockingScript :: string
  co_Satoshis :: nat
  co_OutputDescription :: string
  co_Basket :: "string option"
  co_CustomInstructions :: "string option"
  co_Tags :: "string list"

record create_params =
  cp_Version :: nat
  cp_LockTime :: nat
  cp_Description :: string
  cp_KnownTxIDs :: "string list"
  cp_Labels :: "string list"
  cp_Outputs :: "create_output list"
  cp_Inputs :: "create_input list"
  cp_NoSendChange :: "out_point list"
  cp_InputBEEF :: "bytes option"
  cp_RandomizeOutputs :: bool
  cp_IncludeInputSourceRawTxs :: bool
  cp_TrustSelf :: bool
  cp_IsNoSend :: bool
  cp_IsDelayed :: bool
  cp_FuelShape :: "shaped_change option"
  cp_ReturnTXIDOnly :: bool

record service_charge =
  sc_Output :: create_output
  sc_KeyOffset :: string
  sc_LockingScriptBytes :: bytes

record create_env =
  ce_lib :: go_lib
  ce_sdk :: beef_sdk
  ce_verifiers :: verifiers
  ce_feeCalculator :: feeCalc
  ce_maxChangeOutputsPerTx :: nat
  ce_commissionSatoshis :: nat
  ce_Generate :: "(string \<times> bytes \<times> string) result"
  ce_throughput :: throughput_config
  ce_Base64 :: "nat \<Rightarrow> nat \<Rightarrow> string result"
  ce_Uint64 :: "nat \<Rightarrow> nat \<Rightarrow> nat \<Rightarrow> nat"
  ce_Shuffle :: "nat \<Rightarrow> new_output list \<Rightarrow> new_output list"
  ce_locked :: "nat \<Rightarrow> user_utxo \<Rightarrow> bool"
  ce_cancelled :: "nat \<Rightarrow> bool"
  ce_meanwhile :: "nat \<Rightarrow> database \<Rightarrow> database"

definition BasketNameForChange :: string where
  "BasketNameForChange = ''default''"

definition ValidCreateActionOutput_ScriptLength :: "go_lib \<Rightarrow> create_output \<Rightarrow> nat result" where
  "ValidCreateActionOutput_ScriptLength lib o' = (case to_UInt64 lib (int (length (co_LockingScript o') div 2)) of
     None \<Rightarrow> Inl (GoWrap ''failed to convert lockingScript length'' (GoErr ''to.UInt64'')) | Some n \<Rightarrow> Inr n)"

section \<open>Checks\<close>

text \<open>The scan for a sweep output, whose amount is hidden from the target.\<close>

fun scan_sweep :: "nat \<Rightarrow> nat option \<Rightarrow> create_output list \<Rightarrow> (nat option \<times> create_output list) result" where
  "scan_sweep i found [] = Inr (found, [])"
| "scan_sweep i found (out # outs) =
     (if int (co_Satoshis out) = SweepMaxSatoshis then
        (if found \<noteq> None then Inl (GoErr ''only one SweepMaxSatoshis output allowed'')
         else rbind (scan_sweep (i + 1) (Some i) outs) (\<lambda>(f, outs'). Inr (f, out\<lparr>co_Satoshis := 0\<rparr> # outs')))
      else rbind (scan_sweep (i + 1) found outs) (\<lambda>(f, outs'). Inr (f, out # outs')))"

definition validateFuelShape :: "throughput_config \<Rightarrow> shaped_change option \<Rightarrow> bool \<Rightarrow> unit result" where
  "validateFuelShape tc shape isSweep = (case shape of
     None \<Rightarrow> Inr ()
   | Some s \<Rightarrow>
       if \<not> tc_Enabled tc then Inl (GoErr ''fuelShape requires the throughput UTXO management strategy'')
       else if isSweep then Inl (GoErr ''fuelShape cannot be combined with a sweep output'')
       else if sh_Count s = 0 \<or> tc_FanoutOutputsPerTx tc < sh_Count s then Inl (GoErr ''fuelShape count out of range'')
       else if sh_Basket s = tc_PoolBasket tc then
         (if sh_Satoshis s \<noteq> tc_Denomination tc then Inl (GoErr ''fuelShape satoshis must equal the active denomination'') else Inr ())
       else if sh_Basket s = tc_ReserveBasket tc then
         (if sh_Satoshis s < u64_mul (tc_FanoutOutputsPerTx tc) (tc_Denomination tc)
          then Inl (GoErr ''fuelShape satoshis too small for reserve-basket shapes'') else Inr ())
       else Inl (GoErr ''fuelShape basket must be the pool or reserve basket''))"

definition validateReservedBaskets :: "throughput_config \<Rightarrow> create_output list \<Rightarrow> unit result" where
  "validateReservedBaskets tc outputs =
     (if \<not> tc_Enabled tc then Inr ()
      else if \<exists>output \<in> set outputs. case co_Basket output of None \<Rightarrow> False
          | Some name \<Rightarrow> name = tc_PoolBasket tc \<or> name = tc_ReserveBasket tc
      then Inl (GoErr ''output basket is reserved for the throughput UTXO management strategy'')
      else Inr ())"

definition NoSendChangeOutputs :: "output_row list \<Rightarrow> unit result" where
  "NoSendChangeOutputs outputs =
     (case find (\<lambda>r. or_ProvidedBy r \<noteq> ''storage'' \<or> or_Purpose r \<noteq> ''change'' \<or> or_BasketName r \<noteq> Some BasketNameForChange) outputs of
        None \<Rightarrow> Inr () | Some _ \<Rightarrow> Inl (GoErr ''not a change output of the default basket''))"

section \<open>Baskets\<close>

definition FindBasketByName :: "int \<Rightarrow> string \<Rightarrow> database \<Rightarrow> output_basket option" where
  "FindBasketByName userID name db =
     map_option (\<lambda>b. \<lparr>ob_Name = br_Name b, ob_NumberOfDesiredUTXOs = br_NumberOfDesiredUTXOs b,
         ob_MinimumDesiredUTXOValue = br_MinimumDesiredUTXOValue b\<rparr>)
       (find (\<lambda>b. br_UserID b = userID \<and> br_Name b = name) (db_Baskets db))"

definition FindOrCreateBasket :: "int \<Rightarrow> string \<Rightarrow> database \<Rightarrow> database" where
  "FindOrCreateBasket userID name db = createIfNotExist userID name 0 0 db"

definition ensureBasket :: "int \<Rightarrow> string \<Rightarrow> output_basket step" where
  "ensureBasket userID name =
     wbind (wread (\<lambda>db. Inr (FindBasketByName userID name db))) (\<lambda>found. case found of
       Some b \<Rightarrow> wreturn b
     | None \<Rightarrow> wbind (wupdate (FindOrCreateBasket userID name)) (\<lambda>_.
         wread (\<lambda>db. case FindBasketByName userID name db of
           Some b \<Rightarrow> Inr b | None \<Rightarrow> Inl (GoErr ''basket not found after creation''))))"

definition choose_funding_basket ::
  "throughput_config \<Rightarrow> int \<Rightarrow> bool \<Rightarrow> shaped_change option \<Rightarrow> create_output list \<Rightarrow> output_basket \<Rightarrow> output_basket step" where
  "choose_funding_basket tc userID useThroughput shape outputs basket =
     (if \<not> useThroughput then wreturn basket
      else case shape of
        Some s \<Rightarrow> if sh_Basket s = tc_PoolBasket tc then ensureBasket userID (tc_ReserveBasket tc) else wreturn basket
      | None \<Rightarrow> if outputs = [] then wreturn basket else ensureBasket userID (tc_PoolBasket tc))"

definition priority_of :: "output_row \<Rightarrow> priority_output" where
  "priority_of r = \<lparr>po_ID = or_ID r, po_UserID = or_UserID r, po_Satoshis = or_Satoshis r, po_BasketName = or_BasketName r,
     po_Type = or_Type r, po_CreatedAt = or_CreatedAt r\<rparr>"

definition getNoSendOutputs :: "int \<Rightarrow> bool \<Rightarrow> out_point list \<Rightarrow> database \<Rightarrow> priority_output list result" where
  "getNoSendOutputs userID isNoSend noSendChange db =
     (if isNoSend \<and> noSendChange = [] then Inr []
      else
        let outputs = map fst (FindOutputsByOutpoints userID noSendChange db) in
        if length noSendChange \<noteq> length outputs
        then Inl (GoErr ''failed to validate outputs: the number of outputs does not match the number of outpoints'')
        else rbind (rwrap ''failed to validate no send change outputs'' (NoSendChangeOutputs outputs)) (\<lambda>_.
          Inr (map priority_of outputs)))"

section \<open>Amounts and sizes\<close>

definition createCommissionOutput :: "create_env \<Rightarrow> service_charge option result" where
  "createCommissionOutput env =
     (if ce_commissionSatoshis env = 0 then Inr None
      else rbind (rwrap ''failed to collect outputs'' (rwrap ''failed to generate commission script'' (ce_Generate env)))
        (\<lambda>(lockingScript, scriptBytes, keyOffset).
          Inr (Some \<lparr>sc_Output = \<lparr>co_LockingScript = lockingScript, co_Satoshis = ce_commissionSatoshis env,
              co_OutputDescription = ''Storage Service Charge'', co_Basket = None, co_CustomInstructions = None, co_Tags = []\<rparr>,
            sc_KeyOffset = keyOffset, sc_LockingScriptBytes = scriptBytes\<rparr>)))"

definition createCommissionEntity :: "create_env \<Rightarrow> service_charge option \<Rightarrow> new_commission option" where
  "createCommissionEntity env commOut = map_option (\<lambda>c. \<lparr>nc_Satoshis = ce_commissionSatoshis env, nc_KeyOffset = sc_KeyOffset c,
     nc_IsRedeemed = False, nc_LockingScript = sc_LockingScriptBytes c\<rparr>) commOut"

definition targetSat :: "xinput_definition list \<Rightarrow> create_output list \<Rightarrow> int result" where
  "targetSat xinputs xoutputs =
     rbind (rwrap ''failed to sum provided inputs satoshis'' (Sum_sats (map (Signed \<circ> xi_Satoshis) xinputs))) (\<lambda>providedInputs.
     rbind (rwrap ''failed to sum provided outputs satoshis'' (Sum_sats (map (Unsigned \<circ> co_Satoshis) xoutputs))) (\<lambda>providedOutputs.
       rwrap ''failed to subtract commission from provided outputs'' (Subtract (Signed providedOutputs) (Signed providedInputs))))"

definition create_txSize :: "go_lib \<Rightarrow> xinput_definition list \<Rightarrow> create_output list \<Rightarrow> nat result" where
  "create_txSize lib xinputs xoutputs = rwrap ''failed to calculate transaction size''
     (TransactionSize lib (map (ValidCreateActionInput_ScriptLength lib \<circ> xi_Input) xinputs)
        (map (ValidCreateActionOutput_ScriptLength lib) xoutputs))"

section \<open>The outputs of the new transaction\<close>

definition provided_output :: "create_output \<Rightarrow> new_output result" where
  "provided_output output = rbind (MustFrom (Unsigned (co_Satoshis output))) (\<lambda>sats.
     Inr \<lparr>no_LockingScript = Some (co_LockingScript output), no_CustomInstructions = co_CustomInstructions output, no_Satoshis = sats,
       no_BasketName = co_Basket output, no_Spendable = True, no_Change = False, no_ProvidedBy = ''you'', no_Purpose = [],
       no_Type = OutputTypeCustom, no_DerivationPrefix = None, no_DerivationSuffix = None,
       no_Description = co_OutputDescription output, no_Vout = 0, no_SenderIdentityKey = None, no_Tags = co_Tags output\<rparr>)"

definition commission_output :: "service_charge \<Rightarrow> new_output result" where
  "commission_output c = rbind (MustFrom (Unsigned (co_Satoshis (sc_Output c)))) (\<lambda>sats.
     Inr \<lparr>no_LockingScript = Some (co_LockingScript (sc_Output c)), no_CustomInstructions = None, no_Satoshis = sats,
       no_BasketName = None, no_Spendable = False, no_Change = False, no_ProvidedBy = ''storage'', no_Purpose = ''storage-commission'',
       no_Type = OutputTypeCustom, no_DerivationPrefix = None, no_DerivationSuffix = None, no_Description = [],
       no_Vout = 0, no_SenderIdentityKey = None, no_Tags = []\<rparr>)"

definition change_output :: "string \<Rightarrow> string \<Rightarrow> string \<Rightarrow> int \<Rightarrow> new_output" where
  "change_output basket prefix suffix sats = \<lparr>no_LockingScript = None, no_CustomInstructions = None, no_Satoshis = sats,
     no_BasketName = Some basket, no_Spendable = True, no_Change = True, no_ProvidedBy = ''storage'', no_Purpose = ''change'',
     no_Type = OutputTypeP2PKH, no_DerivationPrefix = Some prefix, no_DerivationSuffix = Some suffix, no_Description = [],
     no_Vout = 0, no_SenderIdentityKey = None, no_Tags = []\<rparr>"

definition derivationLength :: nat where "derivationLength = 16"
definition referenceLength :: nat where "referenceLength = 12"

text \<open>The random strings of an attempt are numbered: the prefix has number 0, the suffixes follow.\<close>

definition randomDerivation :: "create_env \<Rightarrow> nat \<Rightarrow> nat \<Rightarrow> string result" where
  "randomDerivation env attempt k = rwrap ''failed to generate random derivation'' (ce_Base64 env attempt k)"

fun change_outputs :: "create_env \<Rightarrow> nat \<Rightarrow> nat \<Rightarrow> string \<Rightarrow> string \<Rightarrow> int list \<Rightarrow> new_output list result" where
  "change_outputs env attempt k basket prefix [] = Inr []"
| "change_outputs env attempt k basket prefix (sats # rest) =
     rbind (rwrap ''failed to generate random derivation suffix'' (randomDerivation env attempt k)) (\<lambda>suffix.
     rbind (change_outputs env attempt (k + 1) basket prefix rest) (\<lambda>outs. Inr (change_output basket prefix suffix sats # outs)))"

definition number_outputs :: "nat \<Rightarrow> new_output list \<Rightarrow> new_output list result" where
  "number_outputs len32 outs =
     (if length outs < len32 then Inl (GoPanic ''index out of range'')
      else Inr (map (\<lambda>(i, o'). if i < len32 then o'\<lparr>no_Vout := i\<rparr> else o') (enumerate 0 outs)))"

definition newOutputs :: "create_env \<Rightarrow> nat \<Rightarrow> int list \<Rightarrow> nat \<Rightarrow> string \<Rightarrow> create_output list \<Rightarrow> service_charge option \<Rightarrow> bool \<Rightarrow>
    shaped_change option \<Rightarrow> new_output list result" where
  "newOutputs env attempt changeDistribution changeCount derivationPrefix providedOutputs commOut randomizeOutputs fuelShape =
     (let len = changeCount + length providedOutputs + (case commOut of None \<Rightarrow> 0 | Some _ \<Rightarrow> 1) +
            (case fuelShape of None \<Rightarrow> 0 | Some s \<Rightarrow> sh_Count s)
      in if 9223372036854775807 < changeCount \<or> 4294967295 < len then Inl (GoPanic ''must.ConvertToUInt32'')
      else
        rbind (map_or_error provided_output providedOutputs) (\<lambda>provided.
        rbind (case commOut of None \<Rightarrow> Inr [] | Some c \<Rightarrow> rbind (commission_output c) (\<lambda>o'. Inr [o'])) (\<lambda>comm.
        rbind (change_outputs env attempt 1 BasketNameForChange derivationPrefix changeDistribution) (\<lambda>change.
        rbind (case fuelShape of None \<Rightarrow> Inr []
               | Some s \<Rightarrow> rbind (MustFrom (Unsigned (sh_Satoshis s))) (\<lambda>sats.
                   change_outputs env attempt (1 + length changeDistribution) (sh_Basket s) derivationPrefix (replicate (sh_Count s) sats))) (\<lambda>shaped.
          let all = provided @ comm @ change @ shaped in
          number_outputs len (if randomizeOutputs then ce_Shuffle env attempt all else all))))))"

section \<open>One attempt\<close>

text \<open>What the attempts share: everything that was computed before the database transaction.\<close>

record create_plan =
  cl_userID :: int
  cl_reference :: string
  cl_params :: create_params
  cl_sweep :: "nat option"
  cl_useThroughput :: bool
  cl_basket :: output_basket
  cl_fundingBasket :: output_basket
  cl_priority :: "priority_output list"
  cl_inputs :: processed_inputs
  cl_commOut :: "service_charge option"
  cl_targetSat :: int
  cl_txSize :: nat
  cl_outputCount :: nat
  cl_shapeValue :: int
  cl_existing :: int
  cl_constraints :: constraints

record create_built =
  cb_funding :: fund_result
  cb_outputs :: "new_output list"
  cb_prefix :: string
  cb_fallback :: bool

definition fund_args_for :: "create_plan \<Rightarrow> output_basket \<Rightarrow> int \<Rightarrow> constraints \<Rightarrow> fund_args" where
  "fund_args_for pl basket existing cs = \<lparr>fa_TargetSat = cl_targetSat pl, fa_CurrentTxSize = cl_txSize pl,
     fa_OutputCount = cl_outputCount pl, fa_Basket = basket, fa_UserID = cl_userID pl,
     fa_ForbiddenOutputIDs = pi_ChangeOutputIDs (cl_inputs pl), fa_PriorityOutputs = cl_priority pl,
     fa_IncludeSending = cp_IsDelayed (cl_params pl), fa_IsSweep = (cl_sweep pl \<noteq> None), fa_Existing = existing,
     fa_Constraints = cs\<rparr>"

definition sql_funder_on :: "create_env \<Rightarrow> nat \<Rightarrow> database \<Rightarrow> sql_funder" where
  "sql_funder_on env attempt db = \<lparr>sf_utxoRepository = UTXOs_repository (db_UserUTXOs db) (ce_locked env attempt),
     sf_feeCalculator = ce_feeCalculator env, sf_maxChangeOutputsPerTx = ce_maxChangeOutputsPerTx env\<rparr>"

text \<open>A funding call that does not return is written as a panic of its own; it never happens.\<close>

definition fund_call :: "create_env \<Rightarrow> nat \<Rightarrow> database \<Rightarrow> fund_args \<Rightarrow> fund_result result" where
  "fund_call env attempt db args = (case FundWithConstraints (ce_lib env) (sql_funder_on env attempt db) args of
     None \<Rightarrow> Inl (GoPanic ''does not return'') | Some r \<Rightarrow> r)"

definition fund_action :: "create_env \<Rightarrow> create_plan \<Rightarrow> nat \<Rightarrow> database \<Rightarrow> (fund_result \<times> bool) result" where
  "fund_action env pl attempt db =
     (case fund_call env attempt db (fund_args_for pl (cl_fundingBasket pl) (cl_existing pl) (cl_constraints pl)) of
        Inr funding \<Rightarrow> Inr (funding, False)
      | Inl e \<Rightarrow>
          if cl_useThroughput pl \<and> ob_Name (cl_fundingBasket pl) \<noteq> ob_Name (cl_basket pl) \<and> errors_Is e ErrNotEnoughFunds
          then rbind (rwrap ''funding failed'' (fund_call env attempt db (fund_args_for pl (cl_basket pl)
                 (ob_NumberOfDesiredUTXOs (cl_basket pl)) \<lparr>cs_Tiers = None, cs_MaxChangeOutputs = 1\<rparr>)))
               (\<lambda>funding. Inr (funding, True))
          else Inl (wrap_error ''funding failed'' e))"

text \<open>The sweep output takes what the change would be.\<close>

definition settle_sweep :: "nat option \<Rightarrow> create_output list \<Rightarrow> fund_result \<Rightarrow> (create_output list \<times> fund_result) result" where
  "settle_sweep sweep outputs funding = (case sweep of
     None \<Rightarrow> Inr (outputs, funding)
   | Some i \<Rightarrow>
       if fr_ChangeAmount funding < 0 then Inl (GoSentinel ErrNotEnoughFunds)
       else Inr (outputs[i := (outputs ! i)\<lparr>co_Satoshis := nat (fr_ChangeAmount funding)\<rparr>],
                 funding\<lparr>fr_ChangeAmount := 0, fr_ChangeOutputsCount := 0\<rparr>))"

definition mapReservedOutputIDs :: "utxo list \<Rightarrow> nat list \<Rightarrow> nat list" where
  "mapReservedOutputIDs allocated providedOutputsIDs = providedOutputsIDs @ map ux_OutputID allocated"

definition build_action :: "create_env \<Rightarrow> create_plan \<Rightarrow> nat \<Rightarrow> database \<Rightarrow> (create_built \<times> new_tx) result" where
  "build_action env pl attempt db =
     (let params = cl_params pl; inputs = cl_inputs pl in
      rbind (fund_action env pl attempt db) (\<lambda>(funding0, fallback).
      rbind (settle_sweep (cl_sweep pl) (cp_Outputs params) funding0) (\<lambda>(outputs, funding).
      rbind (rwrap ''failed to distribute change'' (Distribute (ce_lib env)
          (NewChangeDistribution (fr_ChangeInitialValue funding) (ce_Uint64 env attempt))
          (fr_ChangeOutputsCount funding) (fr_ChangeAmount funding))) (\<lambda>changeDistribution.
      rbind (randomDerivation env attempt 0) (\<lambda>derivationPrefix.
      rbind (rwrap ''failed to create new outputs'' (newOutputs env attempt changeDistribution (fr_ChangeOutputsCount funding)
          derivationPrefix outputs (cl_commOut pl) (cp_RandomizeOutputs params) (cp_FuelShape params))) (\<lambda>new.
      rbind (rwrap ''failed to get total allocated inputs'' (TotalAllocated funding)) (\<lambda>totalAllocated.
      rbind (rwrap ''failed to serialize beef'' (bs_Bytes (ce_sdk env) (pi_Beef inputs))) (\<lambda>inputBeef.
      rbind (MustSubtract (Signed (fr_ChangeAmount funding)) (Signed totalAllocated)) (\<lambda>net0.
      rbind (if cp_FuelShape params = None then Inr net0 else MustAdd (Signed net0) (Signed (cl_shapeValue pl))) (\<lambda>net.
        Inr (\<lparr>cb_funding = funding, cb_outputs = new, cb_prefix = derivationPrefix, cb_fallback = fallback\<rparr>,
          \<lparr>nt_UserID = cl_userID pl, nt_Version = cp_Version params, nt_LockTime = cp_LockTime params, nt_Status = TxStatusUnsigned,
           nt_Reference = cl_reference pl, nt_Satoshis = net, nt_IsOutgoing = True, nt_InputBeef = Some inputBeef,
           nt_Description = cp_Description params, nt_TxID = None,
           nt_ReservedOutputIDs = mapReservedOutputIDs (fr_AllocatedUTXOs funding) (pi_ChangeOutputIDs inputs),
           nt_SpentOutputIDs = mapReservedOutputIDs (fr_AllocatedUTXOs funding) (pi_ChangeOutputIDs inputs @ pi_KnownOutputIDs inputs),
           nt_Outputs = new, nt_UTXOStatus = UTXOStatusUnknown, nt_Labels = cp_Labels params,
           nt_Commission = createCommissionEntity env (cl_commOut pl)\<rparr>)))))))))))"

definition attempt_action :: "create_env \<Rightarrow> create_plan \<Rightarrow> nat \<Rightarrow> database \<Rightarrow> (claim_error + create_built) \<times> database" where
  "attempt_action env pl attempt db = (case build_action env pl attempt db of
     Inl e \<Rightarrow> (Inl (OtherError e), db)
   | Inr (built, newTx) \<Rightarrow> (case claim_or_heal (ce_lib env) newTx db of
       (Inl e, db') \<Rightarrow> (Inl e, db') | (Inr _, db') \<Rightarrow> (Inr built, db')))"

section \<open>The result\<close>

record sdk_input =
  ri_Vin :: nat
  ri_SourceTxID :: string
  ri_SourceVout :: nat
  ri_SourceSatoshis :: int
  ri_SourceLockingScript :: string
  ri_SourceTransaction :: "bytes option"
  ri_UnlockingScriptLength :: "nat option"
  ri_ProvidedBy :: string
  ri_Type :: output_type
  ri_DerivationPrefix :: "string option"
  ri_DerivationSuffix :: "string option"
  ri_SenderIdentityKey :: "string option"

record sdk_output =
  ro_Output :: create_output
  ro_Vout :: nat
  ro_ProvidedBy :: string
  ro_Purpose :: string
  ro_DerivationSuffix :: "string option"

record create_result =
  cr_InputBeef :: bytes
  cr_Inputs :: "sdk_input list"
  cr_Outputs :: "sdk_output list"
  cr_NoSendChangeOutputVouts :: "nat list"
  cr_DerivationPrefix :: string
  cr_Version :: nat
  cr_LockTime :: nat
  cr_Reference :: string

definition output_txid :: "database \<Rightarrow> output_row \<Rightarrow> string option" where
  "output_txid db r = Option.bind (find (\<lambda>t. tr_ID t = or_TransactionID r) (db_Transactions db)) tr_TxID"

definition resultInputForKnownUTXO :: "nat \<Rightarrow> output_row \<Rightarrow> bool \<Rightarrow> string \<Rightarrow> database \<Rightarrow> sdk_input result" where
  "resultInputForKnownUTXO vin utxo includeRawTxs providedBy db = (case output_txid db utxo of
     None \<Rightarrow> Inl (GoErr ''missing txid for outputID'')
   | Some txID \<Rightarrow> (case or_LockingScript utxo of
       None \<Rightarrow> Inl (GoErr ''missing locking script for outputID'')
     | Some script \<Rightarrow>
         rbind (if \<not> includeRawTxs then Inr None
                else case FindKnownTxRawTx txID db of
                  None \<Rightarrow> Inl (GoErr ''source transaction is empty'')
                | Some raw \<Rightarrow> if raw = [] then Inl (GoErr ''source transaction is empty'') else Inr (Some raw)) (\<lambda>sourceTx.
           Inr \<lparr>ri_Vin = vin, ri_SourceTxID = txID, ri_SourceVout = or_Vout utxo, ri_SourceSatoshis = or_Satoshis utxo,
             ri_SourceLockingScript = hex_EncodeToString script, ri_SourceTransaction = sourceTx,
             ri_UnlockingScriptLength = Some P2PKHUnlockingScriptLength, ri_ProvidedBy = providedBy, ri_Type = or_Type utxo,
             ri_DerivationPrefix = or_DerivationPrefix utxo, ri_DerivationSuffix = or_DerivationSuffix utxo,
             ri_SenderIdentityKey = or_SenderIdentityKey utxo\<rparr>)))"

definition resultInputForProvided :: "nat \<Rightarrow> xinput_definition \<Rightarrow> bool \<Rightarrow> database \<Rightarrow> sdk_input result" where
  "resultInputForProvided vin x includeRawTxs db = (case xi_knownOutput x of
     Some utxo \<Rightarrow> rwrap ''failed to create result input for provided-by-user and known UTXO''
       (resultInputForKnownUTXO vin utxo includeRawTxs ''you-and-storage'' db)
   | None \<Rightarrow> Inr \<lparr>ri_Vin = vin, ri_SourceTxID = op_TxID (ci_Outpoint (xi_Input x)), ri_SourceVout = op_Vout (ci_Outpoint (xi_Input x)),
       ri_SourceSatoshis = xi_Satoshis x, ri_SourceLockingScript = hex_EncodeToString (xi_LockingScript x),
       ri_SourceTransaction = None, ri_UnlockingScriptLength = ci_UnlockingScriptLength (xi_Input x), ri_ProvidedBy = ''you'',
       ri_Type = OutputTypeCustom, ri_DerivationPrefix = None, ri_DerivationSuffix = None, ri_SenderIdentityKey = None\<rparr>)"

definition resultInputs :: "utxo list \<Rightarrow> bool \<Rightarrow> xinput_definition list \<Rightarrow> database \<Rightarrow> sdk_input list result" where
  "resultInputs allocatedUTXOs includeRawTxs xinputs db =
     (let utxos = FindOutputsByIDs (map ux_OutputID allocatedUTXOs) db in
      if length utxos \<noteq> length allocatedUTXOs then Inl (GoErr ''expected outputs'')
      else
        rbind (map_or_error (\<lambda>(vin, x). resultInputForProvided vin x includeRawTxs db) (enumerate 0 xinputs)) (\<lambda>provided.
        rbind (map_or_error (\<lambda>(vin, utxo). rwrap ''failed to create result input for known UTXO''
            (resultInputForKnownUTXO vin utxo includeRawTxs ''storage'' db)) (enumerate (length xinputs) utxos)) (\<lambda>allocated.
          Inr (provided @ allocated))))"

definition resultOutput :: "go_lib \<Rightarrow> new_output \<Rightarrow> sdk_output result" where
  "resultOutput lib output = (case must_ConvertToUInt64 lib (no_Satoshis output) of
     None \<Rightarrow> Inl (GoPanic ''must.ConvertToUInt64'')
   | Some sats \<Rightarrow> Inr \<lparr>ro_Output = \<lparr>co_LockingScript = (case no_LockingScript output of None \<Rightarrow> [] | Some s \<Rightarrow> s), co_Satoshis = sats,
       co_OutputDescription = no_Description output, co_Basket = no_BasketName output,
       co_CustomInstructions = no_CustomInstructions output, co_Tags = no_Tags output\<rparr>,
     ro_Vout = no_Vout output, ro_ProvidedBy = no_ProvidedBy output, ro_Purpose = no_Purpose output,
     ro_DerivationSuffix = no_DerivationSuffix output\<rparr>)"

definition resultOutputs :: "go_lib \<Rightarrow> new_output list \<Rightarrow> sdk_output list result" where
  "resultOutputs lib outs = map_or_error (resultOutput lib) outs"

definition changeOutputVoutsResult :: "bool \<Rightarrow> new_output list \<Rightarrow> nat list" where
  "changeOutputVoutsResult isNoSend outs =
     (if \<not> isNoSend then []
      else map no_Vout (filter (\<lambda>o'. IsChangeOutputVout o' \<and> no_BasketName o' = Some BasketNameForChange) outs))"

definition mergeAllocatedUTXOs :: "beef_sdk \<Rightarrow> sdk_beef \<Rightarrow> utxo list \<Rightarrow> string list \<Rightarrow> bool \<Rightarrow> database \<Rightarrow> bytes result" where
  "mergeAllocatedUTXOs sdk inputBeef allocatedUTXOs knownTxIDs trimSelfKnown db =
     (let txIDs = map (\<lambda>x. case x of None \<Rightarrow> [] | Some s \<Rightarrow> s) (FindTxIDsByOutputIDs (map ux_OutputID allocatedUTXOs) db);
          opts = WithKnownTxIDs knownTxIDs (WithMergeToBEEF (Some inputBeef) default_options);
          opts' = (if trimSelfKnown then WithTrustSelf TrustSelfKnown opts else opts)
      in rbind (rwrap ''failed to get BEEF for allocated UTXOs'' (GetBEEFForTxIDs sdk db opts' txIDs)) (\<lambda>(b, _).
           rwrap ''failed to return the BEEF as a byte slice'' (bs_Bytes sdk b)))"

section \<open>The action\<close>

definition warm :: "string \<Rightarrow> unit step" where
  "warm reference w = (Inr (), w\<lparr>w_release := arm reference (w_release w)\<rparr>)"

definition claim_go_error :: "claim_error \<Rightarrow> go_error" where
  "claim_go_error e = (case e of
     StaleUTXOIndexError _ \<Rightarrow> GoWrap ''stale utxo index'' (GoSentinel ErrUTXOContention)
   | ProvidedInputConflict \<Rightarrow> GoWrap ''provided input conflict'' (GoSentinel ErrUTXOContention)
   | OtherError e' \<Rightarrow> e')"

definition wattempts :: "create_env \<Rightarrow> create_plan \<Rightarrow> create_built step" where
  "wattempts env pl w = (case retryOnContention (ce_cancelled env) (ce_meanwhile env) (attempt_action env pl) (w_db w) of
     (Inl e, db) \<Rightarrow> (Inl (wrap_error ''failed to create transaction'' (claim_go_error e)), w\<lparr>w_db := db\<rparr>)
   | (Inr built, db) \<Rightarrow> (Inr built, w\<lparr>w_db := db\<rparr>))"

text \<open>How a throughput-mode request was funded.\<close>

datatype funding_outcome = FundingOutcomeExactMatch | FundingOutcomeMultiClaim | FundingOutcomeFallback

definition classifyThroughputOutcome :: "throughput_config \<Rightarrow> fund_result \<Rightarrow> bool \<Rightarrow> funding_outcome result" where
  "classifyThroughputOutcome tc funding fundedViaFallback =
     (if fundedViaFallback then Inr FundingOutcomeFallback
      else case fr_AllocatedUTXOs funding of
        [u] \<Rightarrow> rbind (MustFrom (Unsigned (tc_Denomination tc))) (\<lambda>d.
          Inr (if ux_Satoshis u = d then FundingOutcomeExactMatch else FundingOutcomeMultiClaim))
      | _ \<Rightarrow> Inr FundingOutcomeMultiClaim)"

text \<open>Target, size and number of outputs, with the shaped outputs of a fan-out.\<close>

definition plan_amounts :: "create_env \<Rightarrow> shaped_change option \<Rightarrow> xinput_definition list \<Rightarrow> create_output list \<Rightarrow>
    service_charge option \<Rightarrow> (int \<times> nat \<times> nat \<times> int) result" where
  "plan_amounts env shape xinputs outputs commOut =
     (let xoutputs = outputs @ (case commOut of None \<Rightarrow> [] | Some c \<Rightarrow> [sc_Output c]);
          count = length outputs + (case commOut of None \<Rightarrow> 0 | Some _ \<Rightarrow> 1)
      in rbind (create_txSize (ce_lib env) xinputs xoutputs) (\<lambda>size.
         rbind (rwrap ''failed to calculate target satoshis'' (targetSat xinputs xoutputs)) (\<lambda>target.
           case shape of
             None \<Rightarrow> Inr (target, size, count, 0)
           | Some s \<Rightarrow>
               rbind (rwrap ''invalid fuel shape value'' (Multiply (Unsigned (sh_Count s)) (Unsigned (sh_Satoshis s)))) (\<lambda>shapeValue.
               rbind (rwrap ''fuel shape value overflows the transaction target'' (Add (Signed target) (Signed shapeValue))) (\<lambda>target'.
                 Inr (target', u64_add size (u64_mul (sh_Count s) (P2PKHOutputSize (ce_lib env))), u64_add count (sh_Count s), shapeValue))))))"

definition plan_constraints :: "create_env \<Rightarrow> shaped_change option \<Rightarrow> bool \<Rightarrow> constraints" where
  "plan_constraints env shape useThroughput =
     (if useThroughput
      then \<lparr>cs_Tiers = Some (SpendTiers (case shape of None \<Rightarrow> tc_SpendPolicy (ce_throughput env) | Some _ \<Rightarrow> SpendPolicyAny)),
            cs_MaxChangeOutputs = 1\<rparr>
      else \<lparr>cs_Tiers = None, cs_MaxChangeOutputs = 0\<rparr>)"

definition plan_action :: "create_env \<Rightarrow> int \<Rightarrow> create_params \<Rightarrow> create_plan step" where
  "plan_action env userID params0 =
     wbind (wresult (rwrap ''failed to generate reference number'' (ce_Base64 env 0 0))) (\<lambda>reference.
     wbind (wresult (scan_sweep 0 None (cp_Outputs params0))) (\<lambda>(sweep, outputs).
     let params = params0\<lparr>cp_Outputs := outputs\<rparr>; tc = ce_throughput env; shape = cp_FuelShape params0 in
     wbind (wread (\<lambda>db. case FindBasketByName userID BasketNameForChange db of
         None \<Rightarrow> Inl (GoErr ''basket for change not found'') | Some b \<Rightarrow> Inr b)) (\<lambda>basket.
     wbind (wresult (validateFuelShape tc shape (sweep \<noteq> None))) (\<lambda>_.
     wbind (wresult (validateReservedBaskets tc outputs)) (\<lambda>_.
     let useThroughput = (tc_Enabled tc \<and> sweep = None) in
     wbind (choose_funding_basket tc userID useThroughput shape outputs basket) (\<lambda>fundingBasket.
     wbind (wwrap ''failed to create priority outputs'' (wread (getNoSendOutputs userID (cp_IsNoSend params) (cp_NoSendChange params)))) (\<lambda>priority.
     wbind (wresult (rwrap ''failed to create inputs processor'' (newInputsProcessor (ce_sdk env) (cp_Inputs params)))) (\<lambda>lookup.
     wbind (wwrap ''failed to process inputs'' (wread (processInputs (ce_sdk env) (ce_verifiers env) userID (cp_Inputs params)
         (cp_InputBEEF params) (cp_TrustSelf params) lookup))) (\<lambda>inputs.
     wbind (wresult (createCommissionOutput env)) (\<lambda>commOut.
     wbind (wresult (plan_amounts env shape (pi_Inputs inputs) outputs commOut)) (\<lambda>(target, size, count, shapeValue).
     wbind (wread (\<lambda>db. Inr (if useThroughput then ob_NumberOfDesiredUTXOs fundingBasket
         else CountUTXOs (db_UserUTXOs db) userID (ob_Name basket)))) (\<lambda>existing.
     wreturn \<lparr>cl_userID = userID, cl_reference = reference, cl_params = params, cl_sweep = sweep, cl_useThroughput = useThroughput,
       cl_basket = basket, cl_fundingBasket = fundingBasket, cl_priority = priority, cl_inputs = inputs, cl_commOut = commOut,
       cl_targetSat = target, cl_txSize = size, cl_outputCount = count, cl_shapeValue = shapeValue, cl_existing = existing,
       cl_constraints = plan_constraints env shape useThroughput\<rparr>))))))))))))"

definition create_body :: "create_env \<Rightarrow> int \<Rightarrow> create_params \<Rightarrow> create_result step" where
  "create_body env userID params0 =
     wbind (plan_action env userID params0) (\<lambda>pl.
     wbind (wattempts env pl) (\<lambda>built.
     let params = cl_params pl; allocated = fr_AllocatedUTXOs (cb_funding built) in
     wbind (warm (cl_reference pl)) (\<lambda>_.
     wbind (wresult (if cl_useThroughput pl
         then rbind (classifyThroughputOutcome (ce_throughput env) (cb_funding built) (cb_fallback built)) (\<lambda>_. Inr ()) else Inr ())) (\<lambda>_.
     wbind (wread (resultInputs allocated (cp_IncludeInputSourceRawTxs params) (pi_Inputs (cl_inputs pl)))) (\<lambda>inputs.
     wbind (wwrap ''failed to create BEEF with allocated UTXOs'' (wread (mergeAllocatedUTXOs (ce_sdk env) (pi_Beef (cl_inputs pl)) allocated
         (cp_KnownTxIDs params) (cp_TrustSelf params \<and> cp_ReturnTXIDOnly params)))) (\<lambda>beef.
     wbind (wresult (resultOutputs (ce_lib env) (cb_outputs built))) (\<lambda>outputs.
     wreturn \<lparr>cr_InputBeef = beef, cr_Inputs = inputs, cr_Outputs = outputs,
       cr_NoSendChangeOutputVouts = changeOutputVoutsResult (cp_IsNoSend params) (cb_outputs built),
       cr_DerivationPrefix = cb_prefix built, cr_Version = cp_Version params, cr_LockTime = cp_LockTime params,
       cr_Reference = cl_reference pl\<rparr>)))))))"

text \<open>\<open>Create\<close>: the deferred \<open>release.onError\<close> runs when the body has returned an error.\<close>

definition Create :: "create_env \<Rightarrow> int \<Rightarrow> create_params \<Rightarrow> create_result step" where
  "Create env userID params w0 =
     (case create_body env userID params (w0\<lparr>w_release := Some (newRelease userID)\<rparr>) of
        (Inl e, w) \<Rightarrow>
          (let (r, db) = onError (Some (AbortAction (ce_lib env))) (if is_panic e then None else Some e) (w_release w) (w_db w)
           in (Inl e, w\<lparr>w_release := r, w_db := db\<rparr>))
      | (Inr x, w) \<Rightarrow> (Inr x, w))"

end
