(* ===== verification/Storage_Outputs.thy ===== *)
theory Storage_Outputs
  imports Storage_Properties "HOL-Library.Sublist"
begin

text \<open>
  Outputs are permanent: no step of the storage removes an output or changes its owner, its position or its amount.
  What an action has read about its inputs is therefore still true when it is stored.
\<close>

definition out_identity :: "output_row \<Rightarrow> nat \<times> int \<times> nat \<times> nat \<times> int" where
  "out_identity r = (or_ID r, or_UserID r, or_TransactionID r, or_Vout r, or_Satoshis r)"

definition outputs_kept :: "database \<Rightarrow> database \<Rightarrow> bool" where
  "outputs_kept db db' \<longleftrightarrow> prefix (map out_identity (db_Outputs db)) (map out_identity (db_Outputs db'))"

lemma outputs_kept_update:
  assumes "\<And>r. out_identity (f r) = out_identity r"
  shows "prefix (map out_identity rs) (map out_identity (update_where P f rs))"
  using assms by (auto simp: update_where_def comp_def if_distrib cong: if_cong)

lemma outputs_kept_create:
  assumes "createTransactionInTx lib nt db = Inr (i, db')"
  shows "outputs_kept db db'"
proof -
  from createTransactionInTx_Inr [OF assms] obtain model outputs outs db1 db2 db3 where
    con: "connectOutputsWithBaskets (nt_UserID nt) outputs db = (outs, db1)"
    and ins: "insert_transaction nt model outs db1 = Inr (i, db2)"
    and res: "reserveUTXOs i (nt_UserID nt) (nt_ReservedOutputIDs nt) db2 = Inr ((), db3)"
    and mark: "markReservedOutputsAsNotSpendable i (nt_UserID nt) (nt_SpentOutputIDs nt) db3 = Inr db'" by metis
  from connectOutputs_eq [OF con, of 0] have "db_Outputs db1 = db_Outputs db" by auto
  moreover obtain cs where "db2 = insert_outputs i outs (db1\<lparr>db_NextTransactionID := i + 1, db_Transactions :=
      db_Transactions db1 @ [model\<lparr>tr_ID := i, tr_CreatedAt := db_Now db1\<rparr>], db_Commissions := cs\<rparr>)"
    using insert_transaction_eq [OF ins] .
  then obtain os where "db_Outputs db2 = db_Outputs db1 @ os"
    using insert_outputs_prefix [of i outs "db1\<lparr>db_NextTransactionID := i + 1, db_Transactions :=
      db_Transactions db1 @ [model\<lparr>tr_ID := i, tr_CreatedAt := db_Now db1\<rparr>], db_Commissions := cs\<rparr>"] by auto
  moreover have "prefix (map out_identity (db_Outputs db3)) (map out_identity (db_Outputs db'))"
    using markReserved_Inr(1) [OF mark] by (simp, intro outputs_kept_update) (simp add: out_identity_def)
  ultimately show ?thesis
    using reserveUTXOs_Inr [OF res] by (auto simp: outputs_kept_def intro: append_prefixD)
qed

lemma scripts_kept:
  "set_locking_scripts ut outs db = Inr (x, db') \<Longrightarrow> prefix (map out_identity (db_Outputs db)) (map out_identity (db_Outputs db'))"
proof (induction outs arbitrary: db)
  case (Cons out outs)
  then obtain script where "prefix (map out_identity (update_where (\<lambda>r. or_ID r = or_ID out)
      (\<lambda>r. r\<lparr>or_LockingScript := Some script\<rparr>) (db_Outputs db))) (map out_identity (db_Outputs db'))"
    by (fastforce simp: result_simps)
  then show ?case
    by (rule prefix_order.trans [rotated]) (rule outputs_kept_update, simp add: out_identity_def)
qed simp

lemma frame_outputs [simp]:
  "db_Outputs (UnreserveUTXOs i db) = db_Outputs db"
  "db_Outputs (set_transactions_status txID st db) = db_Outputs db"
  "db_Outputs (addTxNotes ns db) = db_Outputs db"
  "db_Outputs (addTxNote n db) = db_Outputs db"
  "db_Outputs (DeleteIndexRows user ids db) = db_Outputs db"
  by (simp_all add: UnreserveUTXOs_def set_transactions_status_def addTxNotes_def addTxNote_def DeleteIndexRows_def)

lemma outputs_kept_marks:
  "outputs_kept db (makeOutputsSpendable P db)"
  "outputs_kept db (MarkCreatedOutputsAsNotSpendable i db)"
  "outputs_kept db (MarkCreatedOutputsAsSpendableByTxID txID db)"
  by (auto simp: outputs_kept_def makeOutputsSpendable_def MarkCreatedOutputsAsNotSpendable_def
      MarkCreatedOutputsAsSpendableByTxID_def intro!: outputs_kept_update) (simp_all add: out_identity_def)

lemma frame_outputs_ops:
  "createUTXOsFromOutputs lib rs db = Inr (x, db1) \<Longrightarrow> db_Outputs db1 = db_Outputs db"
  "upsertKnownTx req n db = Inr (x, db2) \<Longrightarrow> db_Outputs db2 = db_Outputs db"
  "applyKnownTxStatusGuarded txID ps skip ns db = Inr (b, db3) \<Longrightarrow> db_Outputs db3 = db_Outputs db"
  "updateKnownTxStatus txID ps skip ns db = Inr (x, db4) \<Longrightarrow> db_Outputs db4 = db_Outputs db"
  "UpdateTransactionStatusByTxID txID st ex db = Inr (x, db5) \<Longrightarrow> db_Outputs db5 = db_Outputs db"
  "UpdateTransactionStatusByID j st ex db = Inr (x, db6) \<Longrightarrow> db_Outputs db6 = db_Outputs db"
  by (auto simp: createUTXOsFromOutputs_def upsertKnownTx_def applyKnownTxStatusGuarded_def updateKnownTxStatus_def
      set_known_status_def UpdateTransactionStatusByTxID_def UpdateTransactionStatusByID_def Let_def result_simps
      split: if_splits option.splits)

lemma outputs_kept_recreate:
  "RecreateSpentOutputs lib i db = Inr (x, db') \<Longrightarrow> outputs_kept db db'"
  using outputs_kept_marks(1) [of db]
  by (auto simp: RecreateSpentOutputs_def recreateSpentOutputs_def flow_simps Let_def outputs_kept_def dest!: frame_outputs_ops(1))

lemma outputs_kept_refl [simp]: "outputs_kept db db"
  by (simp add: outputs_kept_def)

lemma outputs_kept_trans: "outputs_kept a b \<Longrightarrow> outputs_kept b c \<Longrightarrow> outputs_kept a c"
  unfolding outputs_kept_def by (rule prefix_order.trans)

lemma outputs_kept_same: "db_Outputs db' = db_Outputs db \<Longrightarrow> outputs_kept db db'"
  by (simp add: outputs_kept_def)

lemma outputs_kept_abort:
  assumes "abort_uow lib i db = Inr (x, db')"
  shows "outputs_kept db db'"
proof -
  from assms obtain y db1 where rec: "RecreateSpentOutputs lib i (UnreserveUTXOs i db) = Inr (y, db1)"
    and upd: "db_Outputs db' = db_Outputs (MarkCreatedOutputsAsNotSpendable i db1)"
    by (auto simp: abort_uow_def result_simps dest!: frame_outputs_ops(6))
  have "outputs_kept db db1" using outputs_kept_recreate [OF rec] by (simp add: outputs_kept_def)
  from outputs_kept_trans [OF this outputs_kept_marks(2)] upd show ?thesis by (simp add: outputs_kept_def)
qed

lemma storage_step_outputs:
  assumes "storage_step lib db db'"
  shows "outputs_kept db db'"
  using assms
proof cases
  case (create nt i)
  then show ?thesis by (auto intro: outputs_kept_create)
next
  case (spend ut n x)
  then obtain outs db2 db3 y req where "set_locking_scripts ut outs db2 = Inr (y, db3)"
    and same: "db_Outputs db2 = db_Outputs db" and ups: "upsertKnownTx req n db3 = Inr (x, db')"
    by (fastforce simp: SpendTransaction_def flow_simps Let_def rbind_eq_Inr)
  then show ?thesis by (auto simp: outputs_kept_def dest!: scripts_kept frame_outputs_ops(2))
next
  case (restore_inputs i txID x)
  then show ?thesis by (auto intro: outputs_kept_recreate)
next
  case (abort i x)
  then show ?thesis by (auto intro: outputs_kept_abort)
next
  case (unlink user bsk op x)
  then show ?thesis
    by (auto simp: UnlinkOutputFromBasketByOutpoint_def flow_simps Let_def outputs_kept_def split: option.splits
        intro!: outputs_kept_update) (simp add: out_identity_def)
next
  case (update_output os x)
  then show ?thesis
    by (auto simp: UpdateOutput_def outputs_kept_def split: option.splits if_splits intro!: outputs_kept_update)
      (simp_all add: out_identity_def)
next
  case (make_change txID x)
  then show ?thesis
    by (auto simp: MakeChangeSpendableAndIndexByTxID_def flow_simps Let_def outputs_kept_def makeOutputsSpendable_def
        dest!: frame_outputs_ops(1) intro!: outputs_kept_update) (simp_all add: out_identity_def)
next
  case (timeouts a mx sts)
  have "db_Outputs (snd (ApplyProofTimeouts a mx sts db)) = db_Outputs db" by (simp add: ApplyProofTimeouts_def Let_def)
  with timeouts show ?thesis by (simp add: outputs_kept_def)
next
  case (requeue txID mx sts ns y)
  then show ?thesis
    by (auto simp: RequeueKnownTxForRebroadcast_def Let_def outputs_kept_def split: list.splits)
qed (auto simp: UpdateTransaction_def AddLabels_def ParkUnbroadcastKnownTx_def ClaimKnownTxsForBroadcast_def UpdateKnownTxAsMined_def
    IncreaseKnownTxAttemptsForTxIDs_def SetBatchForKnownTxs_def InvalidateMerkleProofsByBlockHash_def
    CreateUTXOForSpendableOutputsByTxID_def createUTXOsForSpendableOutputsByTxID_def FailKnownTxAsDoubleSpend_def
    AdvanceKnownTxToBroadcasted_def createIfNotExist_frame flow_simps result_simps Let_def
    split: if_splits option.splits list.splits intro!: outputs_kept_marks outputs_kept_same dest!: frame_outputs_ops)

interpretation outputs: state_machine "storage_step lib" "\<lambda>db. convert_ok lib \<and> db_inv db" outputs_kept for lib
  by unfold_locales (auto intro: storage_step_inv storage_step_outputs outputs_kept_trans)

lemma outputs_keptD:
  assumes "outputs_kept db db'" and "r \<in> set (db_Outputs db)"
  obtains r' where "r' \<in> set (db_Outputs db')" and "out_identity r' = out_identity r"
proof -
  have "out_identity r \<in> set (map out_identity (db_Outputs db'))"
    using assms set_mono_prefix by (fastforce simp: outputs_kept_def)
  then show thesis using that by auto
qed

end
