(* ===== verification/Create_Correct.thy ===== *)
theory Create_Correct
  imports Create_Action Storage_Outputs Process_Correct Funder_Correct
begin

text \<open>
  What a created action consists of: its outputs, the balance of its amounts, and its effect on the storage.
\<close>

section \<open>The outputs\<close>

lemma map_or_error_map:
  assumes "map_or_error f xs = Inr ys" and "\<And>x y. f x = Inr y \<Longrightarrow> g y = h x"
  shows "map g ys = map h xs"
  using assms(1) by (induction xs arbitrary: ys) (auto simp: result_simps assms(2))

lemma map_or_error_map_on:
  assumes "map_or_error f xs = Inr ys" and "\<And>x y. x \<in> set xs \<Longrightarrow> f x = Inr y \<Longrightarrow> g y = h x"
  shows "map g ys = map h xs"
  using assms by (induction xs arbitrary: ys) (auto simp: result_simps)

lemma map_or_error_length: "map_or_error f xs = Inr ys \<Longrightarrow> length ys = length xs"
  by (induction xs arbitrary: ys) (auto simp: result_simps)

lemma map_or_error_all: "map_or_error f xs = Inr ys \<Longrightarrow> \<forall>x \<in> set xs. \<exists>y. f x = Inr y"
  by (induction xs arbitrary: ys) (auto simp: result_simps)

definition unnumbered :: "new_output \<Rightarrow> new_output" where
  "unnumbered o' = o'\<lparr>no_Vout := 0\<rparr>"

lemma unnumbered_fields: "no_BasketName (unnumbered o') = no_BasketName o'" "no_Satoshis (unnumbered o') = no_Satoshis o'"
  by (simp_all add: unnumbered_def)

lemma number_outputs_ok:
  assumes "number_outputs (length outs) outs = Inr new"
  shows "map no_Vout new = [0..<length outs]" and "map unnumbered new = map unnumbered outs"
  using assms by (auto simp: number_outputs_def unnumbered_def enumerate_eq_zip intro!: nth_equalityI)

lemma change_outputs_ok:
  assumes "change_outputs env attempt k basket pre amounts = Inr outs"
  shows "map no_Satoshis outs = amounts" and "length outs = length amounts"
    and "o' \<in> set outs \<Longrightarrow> \<exists>suffix sats. o' = change_output basket pre suffix sats"
  using assms by (induction amounts arbitrary: k outs) (auto simp: result_simps change_output_def)

text \<open>What the outputs are made of. The randomizer only reorders them, so they are compared without their numbers.\<close>

definition shaped_sats :: "shaped_change option \<Rightarrow> int list" where
  "shaped_sats shape = (case shape of None \<Rightarrow> [] | Some s \<Rightarrow> replicate (sh_Count s) (int (sh_Satoshis s)))"

definition charge_sats :: "service_charge option \<Rightarrow> int list" where
  "charge_sats c = (case c of None \<Rightarrow> [] | Some c' \<Rightarrow> [int (co_Satoshis (sc_Output c'))])"

definition made_of :: "new_output list \<Rightarrow> create_output list \<Rightarrow> service_charge option \<Rightarrow> string \<Rightarrow> int list \<Rightarrow> shaped_change option \<Rightarrow>
    new_output list \<Rightarrow> bool" where
  "made_of new provided charge pre amounts shape plain \<longleftrightarrow> (\<exists>ps cs ds ss. plain = ps @ cs @ ds @ ss \<and>
     map_or_error provided_output provided = Inr ps \<and>
     map_or_error commission_output (case charge of None \<Rightarrow> [] | Some c \<Rightarrow> [c]) = Inr cs \<and>
     map no_Satoshis ds = amounts \<and> (\<forall>o' \<in> set ds. \<exists>suffix sats. o' = change_output BasketNameForChange pre suffix sats) \<and>
     map no_Satoshis ss = shaped_sats shape \<and> (\<forall>x \<in> set (shaped_sats shape). valid_sats x) \<and>
     (\<forall>o' \<in> set ss. \<exists>s suffix sats. shape = Some s \<and> o' = change_output (sh_Basket s) pre suffix sats) \<and>
     map no_Vout new = [0..<length plain] \<and> mset (map unnumbered new) = mset (map unnumbered plain))"

lemma newOutputs_made_of:
  assumes "newOutputs env attempt amounts n pre provided charge rand shape = Inr new"
    and shuffle: "\<And>xs. mset (ce_Shuffle env attempt xs) = mset xs" and n: "length amounts = n"
  shows "\<exists>plain. made_of new provided charge pre amounts shape plain"
proof -
  from assms(1) obtain ps cs ds ss where ps: "map_or_error provided_output provided = Inr ps"
    and cs: "map_or_error commission_output (case charge of None \<Rightarrow> [] | Some c \<Rightarrow> [c]) = Inr cs"
    and ds: "change_outputs env attempt 1 BasketNameForChange pre amounts = Inr ds"
    and ss: "(case shape of None \<Rightarrow> Inr [] | Some s \<Rightarrow> rbind (MustFrom (Unsigned (sh_Satoshis s))) (\<lambda>sats.
        change_outputs env attempt (1 + length amounts) (sh_Basket s) pre (replicate (sh_Count s) sats))) = Inr ss"
    and num: "number_outputs (n + length provided + (case charge of None \<Rightarrow> 0 | Some _ \<Rightarrow> 1) +
        (case shape of None \<Rightarrow> 0 | Some s \<Rightarrow> sh_Count s))
      (if rand then ce_Shuffle env attempt (ps @ cs @ ds @ ss) else ps @ cs @ ds @ ss) = Inr new"
    by (cases charge) (auto simp: newOutputs_def Let_def result_simps split: if_splits)
  let ?plain = "ps @ cs @ ds @ ss"
  let ?order = "if rand then ce_Shuffle env attempt ?plain else ?plain"
  have shaped: "map no_Satoshis ss = shaped_sats shape" "\<forall>x \<in> set (shaped_sats shape). valid_sats x"
    "\<forall>o' \<in> set ss. \<exists>s suffix sats. shape = Some s \<and> o' = change_output (sh_Basket s) pre suffix sats"
    using ss change_outputs_ok(1,3) by (auto simp: shaped_sats_def result_simps split: option.splits)
  have ord: "mset ?order = mset ?plain" using shuffle by simp
  have "length cs = (case charge of None \<Rightarrow> 0 | Some _ \<Rightarrow> 1)" using map_or_error_length [OF cs] by (simp split: option.splits)
  moreover have "length ss = (case shape of None \<Rightarrow> 0 | Some s \<Rightarrow> sh_Count s)"
    using arg_cong [OF shaped(1), of length] by (simp add: shaped_sats_def split: option.splits)
  ultimately have len: "length ?order = length ?plain" and "length ?plain =
      n + length provided + (case charge of None \<Rightarrow> 0 | Some _ \<Rightarrow> 1) + (case shape of None \<Rightarrow> 0 | Some s \<Rightarrow> sh_Count s)"
    using mset_eq_length [OF ord] map_or_error_length [OF ps] change_outputs_ok(2) [OF ds] n by simp_all
  with num have "number_outputs (length ?order) ?order = Inr new" by simp
  note number_outputs_ok [OF this]
  then have "map no_Vout new = [0..<length ?plain]" "mset (map unnumbered new) = mset (map unnumbered ?plain)"
    using len ord by (simp_all only: mset_map)
  with ps cs change_outputs_ok [OF ds] shaped show ?thesis unfolding made_of_def by blast
qed

lemma made_of_sats:
  assumes "made_of new provided charge pre amounts shape plain"
  shows "mset (map no_Satoshis new) =
    mset (map (int \<circ> co_Satoshis) provided @ charge_sats charge @ amounts @ shaped_sats shape)"
proof -
  from assms obtain ps cs ds ss where p: "plain = ps @ cs @ ds @ ss" "map_or_error provided_output provided = Inr ps"
    "map_or_error commission_output (case charge of None \<Rightarrow> [] | Some c \<Rightarrow> [c]) = Inr cs"
    "map no_Satoshis ds = amounts" "map no_Satoshis ss = shaped_sats shape"
    and same: "mset (map unnumbered new) = mset (map unnumbered plain)" unfolding made_of_def by blast
  have sats: "map no_Satoshis xs = map no_Satoshis (map unnumbered xs)" for xs by (simp add: unnumbered_def)
  have "mset (map no_Satoshis new) = mset (map no_Satoshis plain)"
    unfolding sats [of new] sats [of plain] using same by (simp only: mset_map)
  moreover have "map no_Satoshis ps = map (int \<circ> co_Satoshis) provided"
    using p(2) by (rule map_or_error_map) (auto simp: provided_output_def result_simps)
  moreover have "map no_Satoshis cs = charge_sats charge"
    using p(3) by (auto simp: charge_sats_def commission_output_def result_simps split: option.splits)
  ultimately show ?thesis by (simp add: p)
qed

text \<open>Where an output comes from: its basket and amount are those of a provided output, of the charge, of the change or of the shape.\<close>

lemma made_of_basket:
  assumes "made_of new provided charge pre amounts shape plain" and "o' \<in> set new"
  shows "no_BasketName o' \<in> set (map co_Basket provided) \<union> {None, Some BasketNameForChange} \<or>
    (\<exists>s. shape = Some s \<and> no_BasketName o' = Some (sh_Basket s) \<and> no_Satoshis o' = int (sh_Satoshis s))"
proof -
  from assms(1) obtain ps cs ds ss where p: "plain = ps @ cs @ ds @ ss" "map_or_error provided_output provided = Inr ps"
    "map_or_error commission_output (case charge of None \<Rightarrow> [] | Some c \<Rightarrow> [c]) = Inr cs"
    "\<forall>o' \<in> set ds. \<exists>suffix sats. o' = change_output BasketNameForChange pre suffix sats" "map no_Satoshis ss = shaped_sats shape"
    "\<forall>o' \<in> set ss. \<exists>s suffix sats. shape = Some s \<and> o' = change_output (sh_Basket s) pre suffix sats"
    and same: "mset (map unnumbered new) = mset (map unnumbered plain)" unfolding made_of_def by blast
  from same assms(2) have "unnumbered o' \<in> set (map unnumbered plain)" by (metis image_eqI list.set_map mset_eq_setD)
  then obtain q where q: "q \<in> set plain" "unnumbered o' = unnumbered q" by auto
  then have eq: "no_BasketName o' = no_BasketName q" "no_Satoshis o' = no_Satoshis q"
    by (metis unnumbered_fields)+
  have "map no_BasketName ps = map co_Basket provided"
    using p(2) by (rule map_or_error_map) (auto simp: provided_output_def result_simps)
  then have "no_BasketName q \<in> set (map co_Basket provided)" if "q \<in> set ps" using that by (metis image_eqI list.set_map)
  moreover have "no_BasketName q = None" if "q \<in> set cs"
  proof -
    from map_or_error_mem [OF p(3) that] obtain c where "commission_output c = Inr q" by blast
    then show ?thesis by (auto simp: commission_output_def result_simps)
  qed
  moreover have "no_BasketName q = Some BasketNameForChange" if "q \<in> set ds"
  proof -
    from p(4) that obtain suffix sats where "q = change_output BasketNameForChange pre suffix sats" by blast
    then show ?thesis by (simp add: change_output_def)
  qed
  moreover have "\<exists>s. shape = Some s \<and> no_BasketName q = Some (sh_Basket s) \<and> no_Satoshis q = int (sh_Satoshis s)" if ss: "q \<in> set ss"
  proof -
    from ss p(6) obtain s suffix sats where s: "shape = Some s" and "q = change_output (sh_Basket s) pre suffix sats" by blast
    then have "no_BasketName q = Some (sh_Basket s)" by (simp add: change_output_def)
    note s = s this
    have "no_Satoshis q \<in> set (map no_Satoshis ss)" using ss by simp
    then have "no_Satoshis q = int (sh_Satoshis s)" unfolding p(5) by (auto simp: shaped_sats_def s(1) split: if_splits)
    with s show ?thesis by blast
  qed
  ultimately show ?thesis using q(1) by (auto simp: p(1) eq)
qed

lemma made_of_valid:
  assumes "made_of new provided charge pre amounts shape plain" and "\<forall>x \<in> set amounts. valid_sats x" and "o' \<in> set new"
  shows "valid_sats (no_Satoshis o')"
proof -
  from assms(1) obtain ps cs where "map_or_error provided_output provided = Inr ps"
    "map_or_error commission_output (case charge of None \<Rightarrow> [] | Some c \<Rightarrow> [c]) = Inr cs"
    and shaped: "\<forall>x \<in> set (shaped_sats shape). valid_sats x" unfolding made_of_def by blast
  then have "\<forall>x \<in> int ` co_Satoshis ` set provided \<union> set (charge_sats charge). valid_sats x"
    by (auto simp: charge_sats_def provided_output_def commission_output_def result_simps split: option.splits dest!: map_or_error_all)
  moreover have "no_Satoshis o' \<in># mset (map no_Satoshis new)" using assms(3) by simp
  ultimately show ?thesis using shaped assms(2) unfolding made_of_sats [OF assms(1)] by auto
qed

section \<open>The amounts\<close>

definition create_env_ok :: "create_env \<Rightarrow> fee_model \<Rightarrow> bool" where
  "create_env_ok env model \<longleftrightarrow> go_lib_ok (ce_lib env) \<and> newFeeCalculator (ce_lib env) model = Inr (ce_feeCalculator env) \<and>
     fm_Value model \<le> 9007199254740992 \<and> 1 \<le> ce_maxChangeOutputsPerTx env \<and> ce_maxChangeOutputsPerTx env \<le> 4000 \<and>
     tc_FanoutOutputsPerTx (ce_throughput env) \<le> 4000 \<and>
     (\<forall>a k m. ce_Uint64 env a k m \<le> m) \<and> (\<forall>a xs. mset (ce_Shuffle env a xs) = mset xs)"

lemma create_env_okD:
  assumes "create_env_ok env model"
  shows "1 \<le> dustFloorOf (ce_lib env) (ce_feeCalculator env)"
    and "clamp_ok (ce_lib env)" "convert_ok (ce_lib env)" "seq_ok (ce_lib env)"
proof -
  have lib: "varint_ok (ce_lib env)" "clamp_ok (ce_lib env)" "convert_ok (ce_lib env)" "float_ok (ce_lib env)" "seq_ok (ce_lib env)"
    using assms go_lib_okD by (auto simp: create_env_ok_def)
  then show "clamp_ok (ce_lib env)" "convert_ok (ce_lib env)" "seq_ok (ce_lib env)" by blast+
  have model: "NewSQL (ce_lib env) undefined model 1 =
      Inr \<lparr>sf_utxoRepository = undefined, sf_feeCalculator = ce_feeCalculator env, sf_maxChangeOutputsPerTx = 1\<rparr>"
    "fm_Value model \<le> 9007199254740992"
    using assms by (simp_all add: create_env_ok_def NewSQL_def)
  note ok = NewSQL_ok [OF model(1) lib(4) model(2)]
  show "1 \<le> dustFloorOf (ce_lib env) (ce_feeCalculator env)"
    using ok(3,4) model(2) by (intro dustFloor_pos [OF lib(1)]) auto
qed

section \<open>The plan\<close>

text \<open>What the reads before the attempts establish; \<open>outs\<close> are the outputs of the database they were made on.\<close>

definition input_known :: "output_row list \<Rightarrow> nat list \<Rightarrow> xinput_definition \<Rightarrow> bool" where
  "input_known outs ids x \<longleftrightarrow> (case xi_knownOutput x of None \<Rightarrow> True
     | Some r \<Rightarrow> r \<in> set outs \<and> or_ID r \<in> set ids \<and> xi_Satoshis x = or_Satoshis r)"

definition plan_ok :: "output_row list \<Rightarrow> create_plan \<Rightarrow> bool" where
  "plan_ok outs pl \<longleftrightarrow> is_u64 (cl_txSize pl) \<and>
     cl_targetSat pl + sum_list (map xi_Satoshis (pi_Inputs (cl_inputs pl))) =
       sum_list (map (int \<circ> co_Satoshis) (cp_Outputs (cl_params pl))) + sum_list (charge_sats (cl_commOut pl)) +
       sum_list (shaped_sats (cp_FuelShape (cl_params pl))) \<and>
     (\<forall>i. cl_sweep pl = Some i \<longrightarrow> i < length (cp_Outputs (cl_params pl)) \<and> co_Satoshis (cp_Outputs (cl_params pl) ! i) = 0) \<and>
     cs_MaxChangeOutputs (cl_constraints pl) \<le> 1 \<and>
     (\<forall>x \<in> set (pi_Inputs (cl_inputs pl)).
        input_known outs (pi_ChangeOutputIDs (cl_inputs pl) @ pi_KnownOutputIDs (cl_inputs pl)) x) \<and>
     set (pi_ChangeOutputIDs (cl_inputs pl)) \<union> set (pi_KnownOutputIDs (cl_inputs pl)) \<subseteq> or_ID ` set outs \<and>
     (\<forall>p \<in> set (cl_priority pl). \<exists>r \<in> set outs. p = priority_of r)"

lemma wbind_eq_Inr:
  "wbind m k w = (Inr y, w'') \<longleftrightarrow> (\<exists>x w'. m w = (Inr x, w') \<and> k x w' = (Inr y, w''))"
  by (auto simp: wbind_def split: prod.splits sum.splits)

lemma wresult_eq_Inr: "wresult r w = (Inr x, w') \<longleftrightarrow> r = Inr x \<and> w' = w"
  by (auto simp: wresult_def)

lemma wread_eq_Inr: "wread f w = (Inr x, w') \<longleftrightarrow> f (w_db w) = Inr x \<and> w' = w"
  by (auto simp: wread_def)

lemma wwrap_eq_Inr: "wwrap msg m w = (Inr x, w') \<longleftrightarrow> m w = (Inr x, w')"
  by (auto simp: wwrap_def rwrap_eq_Inr split: prod.splits)

lemma wreturn_eq_Inr: "wreturn y w = (Inr x, w') \<longleftrightarrow> x = y \<and> w' = w"
  by (auto simp: wreturn_def)

lemmas step_Inr = wbind_eq_Inr wresult_eq_Inr wread_eq_Inr wwrap_eq_Inr wreturn_eq_Inr

lemma scan_sweep_ok:
  assumes "scan_sweep i found outs = Inr (f, outs')"
  shows "length outs' = length outs \<and> (\<forall>j. f = Some j \<longrightarrow> found = Some j \<or> i \<le> j \<and> j < i + length outs \<and> co_Satoshis (outs' ! (j - i)) = 0) \<and>
    (found \<noteq> None \<longrightarrow> f = found) \<and> (f = None \<longrightarrow> outs' = outs \<and> (\<forall>out \<in> set outs. int (co_Satoshis out) \<noteq> SweepMaxSatoshis))"
  using assms
proof (induction i found outs arbitrary: f outs' rule: scan_sweep.induct)
  case (2 i found out outs)
  show ?case
  proof (cases "int (co_Satoshis out) = SweepMaxSatoshis")
    case True
    with 2(3) obtain rest where found: "found = None" and rest: "scan_sweep (i + 1) (Some i) outs = Inr (f, rest)"
      and outs': "outs' = out\<lparr>co_Satoshis := 0\<rparr> # rest" by (auto simp: result_simps split: if_splits)
    have "f = Some i" "length rest = length outs" using 2(1) [OF True _ rest] found by auto
    with found show ?thesis by (simp add: outs')
  next
    case False
    with 2(3) obtain rest where rest: "scan_sweep (i + 1) found outs = Inr (f, rest)"
      and outs': "outs' = out # rest" by (auto simp: result_simps)
    note IH = 2(2) [OF False rest]
    have "\<forall>j. f = Some j \<longrightarrow> found = Some j \<or> i \<le> j \<and> j < i + length (out # outs) \<and> co_Satoshis (outs' ! (j - i)) = 0"
    proof (intro allI impI disjCI)
      fix j assume f: "f = Some j" "\<not> (i \<le> j \<and> j < i + length (out # outs) \<and> co_Satoshis (outs' ! (j - i)) = 0)"
      from IH have "f = Some j \<longrightarrow> found = Some j \<or> i + 1 \<le> j \<and> j < i + 1 + length outs \<and> co_Satoshis (rest ! (j - (i + 1))) = 0"
        by (elim conjE allE)
      moreover have "j - i = Suc (j - (i + 1))" if "i + 1 \<le> j" using that by simp
      ultimately show "found = Some j" using f by (auto simp: outs')
    qed
    moreover have "length outs' = length (out # outs) \<and> (found \<noteq> None \<longrightarrow> f = found) \<and>
      (f = None \<longrightarrow> outs' = out # outs \<and> (\<forall>o' \<in> set (out # outs). int (co_Satoshis o') \<noteq> SweepMaxSatoshis))"
      using IH False by (simp add: outs')
    ultimately show ?thesis by (elim conjE) (intro conjI)
  qed
qed simp

lemma input_known_mono: "input_known outs ids x \<Longrightarrow> set ids \<subseteq> set ids' \<Longrightarrow> input_known outs ids' x"
  by (auto simp: input_known_def split: option.splits)

lemma build_inputs_ok:
  assumes "buildInputsDefinition sdk userID db xs acc = Inr res"
    and "\<forall>x \<in> set (pi_Inputs acc). input_known (db_Outputs db) (pi_ChangeOutputIDs acc @ pi_KnownOutputIDs acc) x"
    and "set (pi_ChangeOutputIDs acc) \<union> set (pi_KnownOutputIDs acc) \<subseteq> or_ID ` set (db_Outputs db)"
  shows "(\<forall>x \<in> set (pi_Inputs res). input_known (db_Outputs db) (pi_ChangeOutputIDs res @ pi_KnownOutputIDs res) x) \<and>
    set (pi_ChangeOutputIDs res) \<union> set (pi_KnownOutputIDs res) \<subseteq> or_ID ` set (db_Outputs db)"
  using assms
proof (induction xs arbitrary: acc)
  case (Cons xinput xs)
  show ?case
  proof (cases "FindOutput userID (ci_Outpoint xinput) db")
    case None
    with Cons.prems(1) obtain x b where x: "xinputDefOnUnknownUTXO sdk xinput db (pi_Beef acc) = Inr (x, b)"
      and rest: "buildInputsDefinition sdk userID db xs (acc\<lparr>pi_Inputs := pi_Inputs acc @ [x], pi_Beef := b\<rparr>) = Inr res"
      by (auto simp: result_simps)
    have "xi_knownOutput x = None" using x by (auto simp: xinputDefOnUnknownUTXO_def Let_def result_simps split: option.splits if_splits)
    then show ?thesis using Cons.prems(2,3) by (intro Cons.IH [OF rest]) (auto simp: input_known_def)
  next
    case (Some r)
    have mem: "r \<in> set (db_Outputs db)" using Some first_by_Some [of or_ID] by (metis FindOutput_def)
    from Some Cons.prems(1) obtain x where x: "xinputDefOnKnownUTXO xinput r = Inr x" by (auto simp: result_simps)
    then have "xi_knownOutput x = Some r" "xi_Satoshis x = or_Satoshis r"
      by (auto simp: xinputDefOnKnownUTXO_def result_simps split: if_splits)
    note new = this mem
    let ?acc = "if or_Change r
      then acc\<lparr>pi_Inputs := pi_Inputs acc @ [x], pi_ChangeOutputIDs := pi_ChangeOutputIDs acc @ [or_ID r]\<rparr>
      else acc\<lparr>pi_Inputs := pi_Inputs acc @ [x], pi_KnownOutputIDs := pi_KnownOutputIDs acc @ [or_ID r]\<rparr>"
    have "buildInputsDefinition sdk userID db xs ?acc = Inr res" using Some Cons.prems(1) x by simp
    then show ?thesis
    proof (rule Cons.IH)
      show "\<forall>y \<in> set (pi_Inputs ?acc). input_known (db_Outputs db) (pi_ChangeOutputIDs ?acc @ pi_KnownOutputIDs ?acc) y"
      proof
        fix y assume y: "y \<in> set (pi_Inputs ?acc)"
        show "input_known (db_Outputs db) (pi_ChangeOutputIDs ?acc @ pi_KnownOutputIDs ?acc) y"
        proof (cases "y = x")
          case True
          with new show ?thesis by (simp add: input_known_def)
        next
          case False
          with y have "y \<in> set (pi_Inputs acc)" by (auto split: if_splits)
          with Cons.prems(2) have "input_known (db_Outputs db) (pi_ChangeOutputIDs acc @ pi_KnownOutputIDs acc) y" by simp
          then show ?thesis by (rule input_known_mono) auto
        qed
      qed
      show "set (pi_ChangeOutputIDs ?acc) \<union> set (pi_KnownOutputIDs ?acc) \<subseteq> or_ID ` set (db_Outputs db)"
        using Cons.prems(3) mem by (cases "or_Change r") simp_all
    qed
  qed
qed simp

lemma processInputs_ok:
  assumes "processInputs sdk v userID inputs inputBEEF trustSelf lookup db = Inr res"
  shows "(\<forall>x \<in> set (pi_Inputs res). input_known (db_Outputs db) (pi_ChangeOutputIDs res @ pi_KnownOutputIDs res) x) \<and>
    set (pi_ChangeOutputIDs res) \<union> set (pi_KnownOutputIDs res) \<subseteq> or_ID ` set (db_Outputs db)"
proof (cases "inputs = []")
  case False
  with assms obtain b where "buildInputsDefinition sdk userID db inputs
      \<lparr>pi_Inputs = [], pi_Beef = b, pi_ChangeOutputIDs = [], pi_KnownOutputIDs = []\<rparr> = Inr res"
    by (auto simp: processInputs_def Let_def result_simps)
  then show ?thesis by (rule build_inputs_ok) auto
qed (use assms in \<open>auto simp: processInputs_def\<close>)

lemma targetSat_ok:
  assumes "targetSat xinputs xoutputs = Inr target"
  shows "target + sum_list (map xi_Satoshis xinputs) = sum_list (map (int \<circ> co_Satoshis) xoutputs)"
  using assms by (auto simp: targetSat_def result_simps comp_def dest!: Sum_sats_sound)

lemma small_product:
  assumes "valid_sats (int m)" and "n \<le> 4000"
  shows "wrap_i64 (int n * int m) = int n * int m"
proof -
  have "int m \<le> MaxSatoshis" using assms(1) by (simp add: valid_sats_def)
  then have "int n * int m \<le> 4000 * MaxSatoshis" using assms(2) by (intro mult_mono) auto
  moreover have "0 \<le> int n * int m" by simp
  ultimately have "is_i64 (int n * int m)" by (simp only: is_i64_def MaxSatoshis_def) linarith
  then show ?thesis by simp
qed

lemma plan_amounts_ok:
  assumes "plan_amounts env shape xinputs outputs commOut = Inr (target, txSize, n, shapeValue)"
    and "\<forall>s. shape = Some s \<longrightarrow> sh_Count s \<le> 4000"
  shows "is_u64 txSize" and "target + sum_list (map xi_Satoshis xinputs) =
    sum_list (map (int \<circ> co_Satoshis) outputs) + sum_list (charge_sats commOut) + sum_list (shaped_sats shape)"
    and "shapeValue = sum_list (shaped_sats shape)"
proof -
  let ?x = "outputs @ (case commOut of None \<Rightarrow> [] | Some c \<Rightarrow> [sc_Output c])"
  from assms(1) obtain sz t where sz: "create_txSize (ce_lib env) xinputs ?x = Inr sz" and t: "targetSat xinputs ?x = Inr t"
    and rest: "(case shape of None \<Rightarrow> Inr (t, sz, length outputs + (case commOut of None \<Rightarrow> 0 | Some _ \<Rightarrow> 1), 0)
      | Some s \<Rightarrow> rbind (Multiply (Unsigned (sh_Count s)) (Unsigned (sh_Satoshis s))) (\<lambda>v.
          rbind (Add (Signed t) (Signed v)) (\<lambda>t'. Inr (t', u64_add sz (u64_mul (sh_Count s) (P2PKHOutputSize (ce_lib env))),
            u64_add (length outputs + (case commOut of None \<Rightarrow> 0 | Some _ \<Rightarrow> 1)) (sh_Count s), v)))) = Inr (target, txSize, n, shapeValue)"
    by (auto simp: plan_amounts_def Let_def result_simps split: option.splits)
  have "is_u64 sz" using sz by (auto simp: create_txSize_def TransactionSize_def result_simps)
  with rest show "is_u64 txSize" by (auto simp: result_simps split: option.splits)
  have shaped: "target = t + shapeValue \<and> shapeValue = sum_list (shaped_sats shape)"
    using rest assms(2) by (auto simp: shaped_sats_def result_simps sum_list_replicate small_product split: option.splits)
  then show "shapeValue = sum_list (shaped_sats shape)" by simp
  have "sum_list (map (int \<circ> co_Satoshis) ?x) = sum_list (map (int \<circ> co_Satoshis) outputs) + sum_list (charge_sats commOut)"
    by (simp add: charge_sats_def split: option.splits)
  with targetSat_ok [OF t] shaped show "target + sum_list (map xi_Satoshis xinputs) =
    sum_list (map (int \<circ> co_Satoshis) outputs) + sum_list (charge_sats commOut) + sum_list (shaped_sats shape)" by simp
qed

lemma ensureBasket_frame:
  assumes "ensureBasket userID name w = (r, w')"
  shows "db_Outputs (w_db w') = db_Outputs (w_db w)" and "w' = w\<lparr>w_db := w_db w'\<rparr>"
  using assms
  by (auto simp: ensureBasket_def step_defs FindOrCreateBasket_def createIfNotExist_frame split: option.splits)

lemma choose_basket_frame:
  assumes "choose_funding_basket tc userID use shape outputs basket w = (r, w')"
  shows "db_Outputs (w_db w') = db_Outputs (w_db w)" and "w' = w\<lparr>w_db := w_db w'\<rparr>"
  using assms ensureBasket_frame
  by (auto simp: choose_funding_basket_def wreturn_def split: if_splits option.splits)

lemma getNoSendOutputs_ok:
  assumes "getNoSendOutputs userID isNoSend ops db = Inr ps" and "p \<in> set ps"
  shows "\<exists>r \<in> set (db_Outputs db). p = priority_of r"
  using assms
  by (auto simp: getNoSendOutputs_def FindOutputsByOutpoints_def Let_def result_simps split: if_splits) blast

lemma validateFuelShape_ok:
  "validateFuelShape tc shape sweep = Inr u \<Longrightarrow> shape = Some s \<Longrightarrow> sh_Count s \<le> tc_FanoutOutputsPerTx tc \<and> \<not> sweep"
  by (auto simp: validateFuelShape_def split: if_splits)

text \<open>A successful plan, taken apart.\<close>

lemma plan_actionE:
  assumes "plan_action env userID params w = (Inr pl, w')"
  obtains reference sweep outputs basket fundingBasket priority lookup inputs commOut target txSize n shapeValue existing where
    "ce_Base64 env 0 0 = Inr reference" "scan_sweep 0 None (cp_Outputs params) = Inr (sweep, outputs)"
    "validateFuelShape (ce_throughput env) (cp_FuelShape params) (sweep \<noteq> None) = Inr ()"
    "validateReservedBaskets (ce_throughput env) outputs = Inr ()"
    "FindBasketByName userID BasketNameForChange (w_db w) = Some basket"
    "choose_funding_basket (ce_throughput env) userID (tc_Enabled (ce_throughput env) \<and> sweep = None) (cp_FuelShape params) outputs
       basket w = (Inr fundingBasket, w')"
    "getNoSendOutputs userID (cp_IsNoSend params) (cp_NoSendChange params) (w_db w') = Inr priority"
    "processInputs (ce_sdk env) (ce_verifiers env) userID (cp_Inputs params) (cp_InputBEEF params) (cp_TrustSelf params) lookup
       (w_db w') = Inr inputs"
    "createCommissionOutput env = Inr commOut"
    "plan_amounts env (cp_FuelShape params) (pi_Inputs inputs) outputs commOut = Inr (target, txSize, n, shapeValue)"
    "pl = \<lparr>cl_userID = userID, cl_reference = reference, cl_params = params\<lparr>cp_Outputs := outputs\<rparr>, cl_sweep = sweep,
       cl_useThroughput = (tc_Enabled (ce_throughput env) \<and> sweep = None), cl_basket = basket, cl_fundingBasket = fundingBasket,
       cl_priority = priority, cl_inputs = inputs, cl_commOut = commOut, cl_targetSat = target, cl_txSize = txSize,
       cl_outputCount = n, cl_shapeValue = shapeValue, cl_existing = existing,
       cl_constraints = plan_constraints env (cp_FuelShape params) (tc_Enabled (ce_throughput env) \<and> sweep = None)\<rparr>"
  using assms
  by (fastforce simp: plan_action_def step_Inr Let_def result_simps split: option.splits prod.splits)

lemma plan_action_ok:
  assumes plan: "plan_action env userID params w = (Inr pl, w')" and env: "create_env_ok env model"
  shows "plan_ok (db_Outputs (w_db w)) pl" and "cl_userID pl = userID" and "ce_Base64 env 0 0 = Inr (cl_reference pl)"
    and "db_Outputs (w_db w') = db_Outputs (w_db w)" and "w' = w\<lparr>w_db := w_db w'\<rparr>"
proof -
  from plan_actionE [OF plan] obtain reference sweep outputs basket fundingBasket priority lookup inputs commOut target txSize n
      shapeValue existing where
    p: "ce_Base64 env 0 0 = Inr reference" "scan_sweep 0 None (cp_Outputs params) = Inr (sweep, outputs)"
    "validateFuelShape (ce_throughput env) (cp_FuelShape params) (sweep \<noteq> None) = Inr ()"
    "choose_funding_basket (ce_throughput env) userID (tc_Enabled (ce_throughput env) \<and> sweep = None) (cp_FuelShape params) outputs
       basket w = (Inr fundingBasket, w')"
    "getNoSendOutputs userID (cp_IsNoSend params) (cp_NoSendChange params) (w_db w') = Inr priority"
    "processInputs (ce_sdk env) (ce_verifiers env) userID (cp_Inputs params) (cp_InputBEEF params) (cp_TrustSelf params) lookup
       (w_db w') = Inr inputs"
    "plan_amounts env (cp_FuelShape params) (pi_Inputs inputs) outputs commOut = Inr (target, txSize, n, shapeValue)"
    and pl: "pl = \<lparr>cl_userID = userID, cl_reference = reference, cl_params = params\<lparr>cp_Outputs := outputs\<rparr>, cl_sweep = sweep,
       cl_useThroughput = (tc_Enabled (ce_throughput env) \<and> sweep = None), cl_basket = basket, cl_fundingBasket = fundingBasket,
       cl_priority = priority, cl_inputs = inputs, cl_commOut = commOut, cl_targetSat = target, cl_txSize = txSize,
       cl_outputCount = n, cl_shapeValue = shapeValue, cl_existing = existing,
       cl_constraints = plan_constraints env (cp_FuelShape params) (tc_Enabled (ce_throughput env) \<and> sweep = None)\<rparr>" .
  show same: "db_Outputs (w_db w') = db_Outputs (w_db w)" and "w' = w\<lparr>w_db := w_db w'\<rparr>"
    using choose_basket_frame [OF p(4)] by blast+
  have "\<forall>s. cp_FuelShape params = Some s \<longrightarrow> sh_Count s \<le> 4000"
    using validateFuelShape_ok [OF p(3)] env by (force simp: create_env_ok_def)
  note amounts = plan_amounts_ok [OF p(7) this]
  have sweep: "\<forall>i. sweep = Some i \<longrightarrow> i < length outputs \<and> co_Satoshis (outputs ! i) = 0"
    using scan_sweep_ok [OF p(2)] by simp
  show "plan_ok (db_Outputs (w_db w)) pl"
    using amounts sweep processInputs_ok [OF p(6)] getNoSendOutputs_ok [OF p(5)]
    by (simp add: plan_ok_def pl same plan_constraints_def)
  show "cl_userID pl = userID" "ce_Base64 env 0 0 = Inr (cl_reference pl)" by (simp_all add: pl p(1))
qed

section \<open>Building the transaction\<close>

lemma fund_call_facts:
  assumes call: "fund_call env attempt db args = Inr r" and env: "create_env_ok env model"
    and tbl: "utxo_table (db_UserUTXOs db)" and size: "is_u64 (fa_CurrentTxSize args)"
    and few: "cs_MaxChangeOutputs (fa_Constraints args) \<le> 1"
  obtains ps vs where "fr_AllocatedUTXOs r = map to_utxo (ps @ vs)"
    and "allocation_ok (ce_lib env) (db_UserUTXOs db) (ce_locked env attempt) args ps vs"
    and "sum_list (map ux_Satoshis (fr_AllocatedUTXOs r)) = fa_TargetSat args + fr_Fee r + fr_ChangeAmount r"
    and "\<exists>sz. Calculate (ce_lib env) (ce_feeCalculator env) sz = Inr (fr_Fee r)"
    and "\<not> fa_IsSweep args \<Longrightarrow> 0 \<le> fr_ChangeAmount r" and "valid_sats (fr_ChangeAmount r)"
    and "fr_ChangeOutputsCount r = 0 \<longleftrightarrow> fr_ChangeAmount r < dustFloorOf (ce_lib env) (ce_feeCalculator env)"
    and "fr_ChangeOutputsCount r \<le> 4000" and "1 \<le> fr_ChangeInitialValue r"
proof -
  let ?f = "sql_funder_on env attempt db"
  have fund: "FundWithConstraints (ce_lib env) ?f args = Some (Inr r)"
    using call by (auto simp: fund_call_def split: option.splits)
  have mx: "1 \<le> max_change ?f args" "max_change ?f args \<le> 4000"
    using env few by (auto simp: max_change_def sql_funder_on_def create_env_ok_def)
  note D = create_env_okD [OF env]
  have "sf_feeCalculator ?f = ce_feeCalculator env" "sf_utxoRepository ?f = UTXOs_repository (db_UserUTXOs db) (ce_locked env attempt)"
    by (simp_all add: sql_funder_on_def)
  note f = this
  show thesis
    by (rule Fund_facts [OF fund f(2) tbl size D(2,3) _ mx(1)]) (use D(1) mx(2) in \<open>auto simp: f intro!: that\<close>)
qed

lemma fund_actionE:
  assumes "fund_action env pl attempt db = Inr (funding, fallback)" and "plan_ok outs pl"
  obtains basket existing cs where "fund_call env attempt db (fund_args_for pl basket existing cs) = Inr funding"
    and "cs_MaxChangeOutputs cs \<le> 1"
    and "basket = (if fallback then cl_basket pl else cl_fundingBasket pl)"
  using assms by (auto simp: fund_action_def plan_ok_def result_simps split: sum.splits if_splits)

text \<open>The sweep output takes the whole change.\<close>

lemma sum_list_set_zero: "i < length xs \<Longrightarrow> xs ! i = 0 \<Longrightarrow> sum_list (xs[i := x]) = sum_list xs + (x :: int)"
proof (induction xs arbitrary: i)
  case (Cons y xs)
  then show ?case by (cases i) auto
qed simp

lemma settle_sweep_sats:
  assumes "settle_sweep sweep outs funding = Inr (outs', funding')"
    and "\<forall>i. sweep = Some i \<longrightarrow> i < length outs \<and> co_Satoshis (outs ! i) = 0"
  shows "fr_AllocatedUTXOs funding' = fr_AllocatedUTXOs funding" "fr_ChangeInitialValue funding' = fr_ChangeInitialValue funding"
    and "sum_list (map (int \<circ> co_Satoshis) outs') + (if fr_ChangeOutputsCount funding' = 0 then 0 else fr_ChangeAmount funding') =
      sum_list (map (int \<circ> co_Satoshis) outs) +
      (if sweep = None \<and> fr_ChangeOutputsCount funding = 0 then 0 else fr_ChangeAmount funding)"
    and "sweep \<noteq> None \<Longrightarrow> fr_ChangeOutputsCount funding' = 0 \<and> fr_ChangeAmount funding' = 0"
    and "sweep = None \<Longrightarrow> funding' = funding"
proof -
  show "sum_list (map (int \<circ> co_Satoshis) outs') + (if fr_ChangeOutputsCount funding' = 0 then 0 else fr_ChangeAmount funding') =
      sum_list (map (int \<circ> co_Satoshis) outs) +
      (if sweep = None \<and> fr_ChangeOutputsCount funding = 0 then 0 else fr_ChangeAmount funding)"
  proof (cases sweep)
    case (Some i)
    with assms have i: "i < length outs" "co_Satoshis (outs ! i) = 0" and c: "0 \<le> fr_ChangeAmount funding"
      and outs': "outs' = outs[i := (outs ! i)\<lparr>co_Satoshis := nat (fr_ChangeAmount funding)\<rparr>]"
      and f: "funding' = funding\<lparr>fr_ChangeAmount := 0, fr_ChangeOutputsCount := 0\<rparr>"
      by (auto simp: settle_sweep_def split: if_splits)
    have "map (int \<circ> co_Satoshis) outs' = (map (int \<circ> co_Satoshis) outs)[i := fr_ChangeAmount funding]"
      using c by (simp add: outs' map_update)
    moreover have "sum_list ((map (int \<circ> co_Satoshis) outs)[i := x]) = sum_list (map (int \<circ> co_Satoshis) outs) + x" for x
      using i by (intro sum_list_set_zero) auto
    ultimately show ?thesis using Some by (simp add: f)
  qed (use assms in \<open>auto simp: settle_sweep_def\<close>)
qed (use assms in \<open>auto simp: settle_sweep_def split: option.splits if_splits\<close>)

lemma build_actionE:
  assumes "build_action env pl attempt db = Inr (built, nt)"
  obtains funding0 fallback outs amounts inputBeef net where
    "fund_action env pl attempt db = Inr (funding0, fallback)"
    "settle_sweep (cl_sweep pl) (cp_Outputs (cl_params pl)) funding0 = Inr (outs, cb_funding built)"
    "Distribute (ce_lib env) (NewChangeDistribution (fr_ChangeInitialValue (cb_funding built)) (ce_Uint64 env attempt))
       (fr_ChangeOutputsCount (cb_funding built)) (fr_ChangeAmount (cb_funding built)) = Inr amounts"
    "newOutputs env attempt amounts (fr_ChangeOutputsCount (cb_funding built)) (cb_prefix built) outs (cl_commOut pl)
       (cp_RandomizeOutputs (cl_params pl)) (cp_FuelShape (cl_params pl)) = Inr (cb_outputs built)"
    "cb_fallback built = fallback"
    "nt = \<lparr>nt_UserID = cl_userID pl, nt_Version = cp_Version (cl_params pl), nt_LockTime = cp_LockTime (cl_params pl),
       nt_Status = TxStatusUnsigned, nt_Reference = cl_reference pl, nt_Satoshis = net, nt_IsOutgoing = True,
       nt_InputBeef = Some inputBeef, nt_Description = cp_Description (cl_params pl), nt_TxID = None,
       nt_ReservedOutputIDs = mapReservedOutputIDs (fr_AllocatedUTXOs (cb_funding built)) (pi_ChangeOutputIDs (cl_inputs pl)),
       nt_SpentOutputIDs = mapReservedOutputIDs (fr_AllocatedUTXOs (cb_funding built))
         (pi_ChangeOutputIDs (cl_inputs pl) @ pi_KnownOutputIDs (cl_inputs pl)),
       nt_Outputs = cb_outputs built, nt_UTXOStatus = UTXOStatusUnknown, nt_Labels = cp_Labels (cl_params pl),
       nt_Commission = createCommissionEntity env (cl_commOut pl)\<rparr>"
  using assms by (auto simp: build_action_def Let_def rbind_eq_Inr rwrap_eq_Inr split: prod.splits)

text \<open>The balance of what is built: provided and allocated inputs pay for the outputs and the fee, and what is left is less than
  the dust floor.\<close>

definition balanced :: "create_env \<Rightarrow> int \<Rightarrow> int \<Rightarrow> bool" where
  "balanced env paid received \<longleftrightarrow> (\<exists>fee sz dropped. Calculate (ce_lib env) (ce_feeCalculator env) sz = Inr fee \<and>
     paid = received + fee + dropped \<and> 0 \<le> dropped \<and> dropped < dustFloorOf (ce_lib env) (ce_feeCalculator env))"

lemma build_action_ok:
  assumes build: "build_action env pl attempt db = Inr (built, nt)" and env: "create_env_ok env model"
    and plan: "plan_ok outs pl" and tbl: "utxo_table (db_UserUTXOs db)"
  obtains ps vs basket existing cs final amounts plain where
    "balanced env (sum_list (map xi_Satoshis (pi_Inputs (cl_inputs pl))) +
       sum_list (map ux_Satoshis (fr_AllocatedUTXOs (cb_funding built)))) (sum_list (map no_Satoshis (cb_outputs built)))"
    "fr_AllocatedUTXOs (cb_funding built) = map to_utxo (ps @ vs)"
    "allocation_ok (ce_lib env) (db_UserUTXOs db) (ce_locked env attempt) (fund_args_for pl basket existing cs) ps vs"
    "basket = (if cb_fallback built then cl_basket pl else cl_fundingBasket pl)"
    "made_of (cb_outputs built) final (cl_commOut pl) (cb_prefix built) amounts (cp_FuelShape (cl_params pl)) plain"
    "map co_Basket final = map co_Basket (cp_Outputs (cl_params pl))"
    "\<forall>x \<in> set amounts. valid_sats x"
proof -
  from build_actionE [OF build] obtain funding0 fallback final amounts where
    f: "fund_action env pl attempt db = Inr (funding0, fallback)"
    and sw: "settle_sweep (cl_sweep pl) (cp_Outputs (cl_params pl)) funding0 = Inr (final, cb_funding built)"
    and dis: "Distribute (ce_lib env) (NewChangeDistribution (fr_ChangeInitialValue (cb_funding built)) (ce_Uint64 env attempt))
       (fr_ChangeOutputsCount (cb_funding built)) (fr_ChangeAmount (cb_funding built)) = Inr amounts"
    and new: "newOutputs env attempt amounts (fr_ChangeOutputsCount (cb_funding built)) (cb_prefix built) final (cl_commOut pl)
       (cp_RandomizeOutputs (cl_params pl)) (cp_FuelShape (cl_params pl)) = Inr (cb_outputs built)"
    and fb: "cb_fallback built = fallback" by metis
  obtain basket existing cs where call: "fund_call env attempt db (fund_args_for pl basket existing cs) = Inr funding0"
    and cs: "cs_MaxChangeOutputs cs \<le> 1" and basket: "basket = (if fallback then cl_basket pl else cl_fundingBasket pl)"
    using fund_actionE [OF f plan] by blast
  let ?args = "fund_args_for pl basket existing cs" and ?dust = "dustFloorOf (ce_lib env) (ce_feeCalculator env)"
  have args: "is_u64 (fa_CurrentTxSize ?args)" "cs_MaxChangeOutputs (fa_Constraints ?args) \<le> 1" "fa_TargetSat ?args = cl_targetSat pl"
    "fa_IsSweep ?args \<longleftrightarrow> cl_sweep pl \<noteq> None"
    using plan cs by (simp_all add: fund_args_for_def plan_ok_def)
  from fund_call_facts [OF call env tbl args(1,2)] obtain ps vs where
    alloc: "fr_AllocatedUTXOs funding0 = map to_utxo (ps @ vs)"
    "allocation_ok (ce_lib env) (db_UserUTXOs db) (ce_locked env attempt) ?args ps vs"
    and sum: "sum_list (map ux_Satoshis (fr_AllocatedUTXOs funding0)) = fa_TargetSat ?args + fr_Fee funding0 + fr_ChangeAmount funding0"
    and fee: "\<exists>sz. Calculate (ce_lib env) (ce_feeCalculator env) sz = Inr (fr_Fee funding0)"
    and ch: "\<not> fa_IsSweep ?args \<Longrightarrow> 0 \<le> fr_ChangeAmount funding0" "valid_sats (fr_ChangeAmount funding0)"
    and n: "fr_ChangeOutputsCount funding0 = 0 \<longleftrightarrow> fr_ChangeAmount funding0 < ?dust" "fr_ChangeOutputsCount funding0 \<le> 4000"
    and iv: "1 \<le> fr_ChangeInitialValue funding0" by metis
  have zero: "\<forall>i. cl_sweep pl = Some i \<longrightarrow> i < length (cp_Outputs (cl_params pl)) \<and> co_Satoshis (cp_Outputs (cl_params pl) ! i) = 0"
    using plan by (simp add: plan_ok_def)
  note sweep = settle_sweep_sats [OF sw zero]
  note D = create_env_okD [OF env]
  let ?b = "cb_funding built"
  have "length amounts = fr_ChangeOutputsCount ?b \<and> sum_list amounts = (if fr_ChangeOutputsCount ?b = 0 then 0 else fr_ChangeAmount ?b) \<and>
    (\<forall>y \<in> set amounts. valid_sats y)"
  proof (rule Distribute_sound [OF dis D(4)])
    show "fr_ChangeOutputsCount ?b \<le> 4000" "1 \<le> fr_ChangeInitialValue ?b" "valid_sats (fr_ChangeAmount ?b)"
      using sweep(2,4,5) n(2) iv ch(2) by (cases "cl_sweep pl"; simp)+
    show "0 < fr_ChangeOutputsCount ?b \<longrightarrow> 0 < fr_ChangeAmount ?b"
      using sweep(4,5) n(1) D(1) by (cases "cl_sweep pl") auto
    show "\<forall>k m. ce_Uint64 env attempt k m \<le> m" using env by (simp add: create_env_ok_def)
  qed
  then have am: "length amounts = fr_ChangeOutputsCount ?b" "sum_list amounts = (if fr_ChangeOutputsCount ?b = 0 then 0 else fr_ChangeAmount ?b)"
    "\<forall>y \<in> set amounts. valid_sats y" by blast+
  obtain plain where made: "made_of (cb_outputs built) final (cl_commOut pl) (cb_prefix built) amounts (cp_FuelShape (cl_params pl)) plain"
    using newOutputs_made_of [OF new _ am(1)] env by (auto simp: create_env_ok_def)
  have out: "sum_list (map no_Satoshis (cb_outputs built)) = sum_list (map (int \<circ> co_Satoshis) final) + sum_list (charge_sats (cl_commOut pl)) +
      sum_list amounts + sum_list (shaped_sats (cp_FuelShape (cl_params pl)))"
    using arg_cong [OF made_of_sats [OF made], of sum_mset] by (simp only: sum_mset_sum_list sum_list_append add.assoc)
  let ?dropped = "if cl_sweep pl = None \<and> fr_ChangeOutputsCount funding0 = 0 then fr_ChangeAmount funding0 else 0"
  have "sum_list (map xi_Satoshis (pi_Inputs (cl_inputs pl))) + sum_list (map ux_Satoshis (fr_AllocatedUTXOs ?b)) =
      sum_list (map no_Satoshis (cb_outputs built)) + fr_Fee funding0 + ?dropped"
    using plan sum sweep(1,3) args(3) out am(2) by (auto simp: plan_ok_def)
  moreover have "0 \<le> ?dropped" "?dropped < ?dust" using ch(1) args(4) n(1) D(1) by auto
  ultimately have "balanced env (sum_list (map xi_Satoshis (pi_Inputs (cl_inputs pl))) + sum_list (map ux_Satoshis (fr_AllocatedUTXOs ?b)))
      (sum_list (map no_Satoshis (cb_outputs built)))"
    using fee unfolding balanced_def by blast
  moreover have "map co_Basket final = map co_Basket (cp_Outputs (cl_params pl))"
    using sw zero by (auto simp: settle_sweep_def map_update split: option.splits if_splits intro!: nth_equalityI simp: nth_list_update)
  ultimately show thesis
    using that alloc sweep(1) basket fb made am(3) by metis
qed

section \<open>Attempts\<close>

lemma attempt_action_Inr:
  assumes "attempt_action env pl attempt db = (Inr built, db')"
  obtains nt i where "build_action env pl attempt db = Inr (built, nt)" and "createTransactionInTx (ce_lib env) nt db = Inr (i, db')"
  using assms by (auto simp: attempt_action_def claim_or_heal_def split: sum.splits prod.splits claim_error.splits)

lemma attempt_action_Inl:
  assumes "attempt_action env pl attempt db = (Inl e, db')"
  shows "db' = db \<or> (\<exists>ids. db' = DeleteIndexRows (cl_userID pl) ids db)"
proof (cases "build_action env pl attempt db")
  case (Inr b)
  then obtain built nt where b: "build_action env pl attempt db = Inr (built, nt)" by (cases b) simp
  have "nt_UserID nt = cl_userID pl" by (rule build_actionE [OF b]) simp
  with assms b show ?thesis
    by (auto simp: attempt_action_def claim_or_heal_def split: sum.splits prod.splits claim_error.splits)
qed (use assms in \<open>auto simp: attempt_action_def\<close>)

text \<open>Retries: an invariant of the database that failed attempts and the other calls keep holds for the attempt that succeeds.\<close>

lemma retry_from_ok:
  assumes "retry_from left cancelled meanwhile fn attempt db = (r, db')" and "I db"
    and meanwhile: "\<And>k db. I db \<Longrightarrow> I (meanwhile k db)"
    and failed: "\<And>k e db db'. I db \<Longrightarrow> fn k db = (Inl e, db') \<Longrightarrow> I db'"
  shows "case r of Inl e \<Rightarrow> I db' | Inr x \<Rightarrow> (\<exists>k db1. attempt \<le> k \<and> k \<le> attempt + left \<and> I db1 \<and> fn k db1 = (Inr x, db'))"
  using assms(1,2)
proof (induction left arbitrary: attempt db)
  case 0
  have "I (meanwhile attempt db)" using 0(2) by (rule meanwhile)
  with 0(1) failed [OF this] show ?case by (auto split: sum.splits)
next
  case (Suc left)
  let ?db = "meanwhile attempt db"
  have I: "I ?db" using Suc.prems(2) by (rule meanwhile)
  obtain r1 db1 where fn: "fn attempt ?db = (r1, db1)" by (cases "fn attempt ?db")
  show ?case
  proof (cases r1)
    case (Inr x)
    with fn Suc.prems(1) have "r = Inr x" "fn attempt ?db = (Inr x, db')" by auto
    with I show ?thesis by (auto intro!: exI [of _ attempt] exI [of _ ?db])
  next
    case (Inl e)
    have I1: "I db1" using failed [OF I] fn Inl by blast
    show ?thesis
    proof (cases "\<not> claim_error_Is e ErrUTXOContention \<or> claim_error_Is e ErrProvidedInputConflict \<or> cancelled attempt")
      case True
      with fn Inl Suc.prems(1) I1 show ?thesis by (auto split: if_splits)
    next
      case False
      with fn Inl Suc.prems(1) have "retry_from left cancelled meanwhile fn (attempt + 1) db1 = (r, db')" by simp
      from Suc.IH [OF this I1] show ?thesis by (auto split: sum.splits) (metis Suc_leD add_Suc_right)
    qed
  qed
qed

section \<open>The stored action\<close>

text \<open>What other calls do between the reads and the attempts is a run of storage steps, on tables a database can hold.\<close>

definition table_fits :: "database \<Rightarrow> bool" where
  "table_fits db \<longleftrightarrow> int (length (db_UserUTXOs db)) < 2 ^ 62"

definition meanwhile_ok :: "create_env \<Rightarrow> bool" where
  "meanwhile_ok env \<longleftrightarrow> (\<forall>k db. (storage_step (ce_lib env))\<^sup>*\<^sup>* db (ce_meanwhile env k db) \<and>
     (table_fits db \<longrightarrow> table_fits (ce_meanwhile env k db)))"

text \<open>The state in which an attempt runs, seen from the state \<open>db0\<close> of the reads.\<close>

definition attempt_state :: "create_env \<Rightarrow> database \<Rightarrow> database \<Rightarrow> bool" where
  "attempt_state env db0 db \<longleftrightarrow> (storage_step (ce_lib env))\<^sup>*\<^sup>* db0 db \<and> db_inv db \<and> table_fits db \<and> outputs_kept db0 db"

lemma attempt_state_run:
  assumes "attempt_state env db0 db" and "convert_ok (ce_lib env)" and run: "(storage_step (ce_lib env))\<^sup>*\<^sup>* db db'" and "table_fits db'"
  shows "attempt_state env db0 db'"
  using assms storage.run_good [OF run] outputs.run_later [OF run]
  by (auto simp: attempt_state_def intro: rtranclp_trans outputs_kept_trans)

lemma table_utxo: "db_inv db \<Longrightarrow> table_fits db \<Longrightarrow> utxo_table (db_UserUTXOs db)"
  using db_invD(3) by (auto simp: utxo_table_def table_fits_def index_ok_def)

lemma built_tx_ok:
  assumes build: "build_action env pl attempt db = Inr (built, nt)" and env: "create_env_ok env model"
    and plan: "plan_ok outs pl" and tbl: "utxo_table (db_UserUTXOs db)"
  shows "new_tx_ok nt db"
proof -
  from build_action_ok [OF assms] obtain final amounts plain where
    made: "made_of (cb_outputs built) final (cl_commOut pl) (cb_prefix built) amounts (cp_FuelShape (cl_params pl)) plain"
    and am: "\<forall>x \<in> set amounts. valid_sats x" .
  show ?thesis
    by (rule build_actionE [OF build]) (use made_of_valid [OF made am] in
        \<open>auto simp: new_tx_ok_def mapReservedOutputIDs_def intro: valid_sats_i64\<close>)
qed

text \<open>Every allocated amount is the amount of an output of the user.\<close>

lemma priority_row_sats:
  "priority_row lib (priority_of r) = Inr u \<Longrightarrow> convert_ok lib \<Longrightarrow> is_i64 (or_Satoshis r) \<Longrightarrow>
   uu_OutputID u = or_ID r \<and> int (uu_Satoshis u) = or_Satoshis r"
  by (auto simp: priority_row_def priority_of_def convert_ok_def result_simps Let_def split: option.splits if_splits)

lemma allocated_amounts:
  assumes alloc: "allocation_ok lib (db_UserUTXOs db) skip (fund_args_for pl basket existing cs) ps vs"
    and plan: "plan_ok (db_Outputs db0) pl" and inv: "db_inv db0" "db_inv db" and kept: "outputs_kept db0 db" and lib: "convert_ok lib"
    and u: "u \<in> set (ps @ vs)"
  shows "\<exists>r \<in> set (db_Outputs db). or_ID r = uu_OutputID u \<and> or_Satoshis r = int (uu_Satoshis u)"
proof (cases "u \<in> set vs")
  case True
  with alloc have "u \<in> set (db_UserUTXOs db)" by (auto simp: allocation_ok_def claimable_def eligible_def)
  with db_invD(3) [OF inv(2)] show ?thesis by (fastforce simp: index_ok_def row_fits_def)
next
  case False
  with u alloc plan obtain r where r: "r \<in> set (db_Outputs db0)" "priority_row lib (priority_of r) = Inr u"
    by (auto simp: allocation_ok_def fund_args_for_def plan_ok_def) metis
  have "is_i64 (or_Satoshis r)" using db_invD(2) [OF inv(1)] r(1) by (simp add: outs_ok_def out_ok_def)
  with priority_row_sats [OF r(2) lib] have u': "uu_OutputID u = or_ID r" "int (uu_Satoshis u) = or_Satoshis r" by blast+
  from outputs_keptD [OF kept r(1)] obtain r' where "r' \<in> set (db_Outputs db)" "out_identity r' = out_identity r" .
  with u' show ?thesis by (auto simp: out_identity_def)
qed

lemma sum_by_id:
  fixes ps :: "(nat \<times> int) list"
  assumes "distinct (map or_ID rs)" and "distinct (map fst ps)"
    and ps: "\<And>p. p \<in> set ps \<Longrightarrow> \<exists>r \<in> set rs. or_ID r = fst p \<and> or_Satoshis r = snd p"
  shows "sum_list (map or_Satoshis (filter (\<lambda>r. or_ID r \<in> fst ` set ps) rs)) = sum_list (map snd ps)"
proof -
  let ?R = "{r \<in> set rs. or_ID r \<in> fst ` set ps}" and ?key = "\<lambda>r. (or_ID r, or_Satoshis r)"
  have same: "r = r'" if "r \<in> set rs" "r' \<in> set rs" "or_ID r = or_ID r'" for r r'
    using that assms(1) by (auto simp: distinct_map inj_on_def)
  have inj: "inj_on ?key ?R" using same by (auto simp: inj_on_def)
  have img: "?key ` ?R = set ps"
  proof
    show "?key ` ?R \<subseteq> set ps"
    proof (rule image_subsetI)
      fix r assume "r \<in> ?R"
      then obtain p where p: "r \<in> set rs" "p \<in> set ps" "or_ID r = fst p" by auto
      from ps [OF p(2)] obtain r' where r': "r' \<in> set rs" "or_ID r' = fst p" "or_Satoshis r' = snd p" by blast
      have "r = r'" by (rule same [OF p(1) r'(1)]) (simp add: p(3) r'(2))
      with p r' show "?key r \<in> set ps" by simp
    qed
    show "set ps \<subseteq> ?key ` ?R" using ps by (force simp: image_iff)
  qed
  have "distinct rs" "distinct ps" using assms(1,2) by (simp_all add: distinct_map)
  then have "sum_list (map or_Satoshis (filter (\<lambda>r. or_ID r \<in> fst ` set ps) rs)) = (\<Sum>r \<in> ?R. or_Satoshis r)"
    by (subst sum_list_distinct_conv_sum_set) auto
  also have "\<dots> = (\<Sum>r \<in> ?R. snd (?key r))" by simp
  also have "\<dots> = (\<Sum>p \<in> ?key ` ?R. snd p)" by (rule sum.reindex [OF inj, symmetric, unfolded comp_def])
  also have "\<dots> = sum_list (map snd ps)"
    unfolding img using \<open>distinct ps\<close> by (simp add: sum_list_distinct_conv_sum_set)
  finally show ?thesis .
qed

lemma wattempts_ok:
  assumes w: "wattempts env pl w = (r, w')" and env: "create_env_ok env model" "meanwhile_ok env"
    and plan: "plan_ok (db_Outputs db0) pl" and start: "attempt_state env db0 (w_db w)" "J (w_db w)"
    and keeps: "\<And>k db. J db \<Longrightarrow> J (ce_meanwhile env k db)" "\<And>ids db. J db \<Longrightarrow> J (DeleteIndexRows (cl_userID pl) ids db)"
  shows "w' = w\<lparr>w_db := w_db w'\<rparr>" and "(storage_step (ce_lib env))\<^sup>*\<^sup>* db0 (w_db w')"
    and "r = Inl e \<Longrightarrow> attempt_state env db0 (w_db w') \<and> J (w_db w')"
    and "r = Inr built \<Longrightarrow> \<exists>k db1 nt i. 1 \<le> k \<and> k \<le> 3 \<and> attempt_state env db0 db1 \<and> J db1 \<and> build_action env pl k db1 = Inr (built, nt) \<and>
      createTransactionInTx (ce_lib env) nt db1 = Inr (i, w_db w')"
proof -
  let ?I = "\<lambda>db. attempt_state env db0 db \<and> J db"
  note lib = create_env_okD(3) [OF env(1)]
  obtain r1 db' where tries: "retry_from 2 (ce_cancelled env) (ce_meanwhile env) (attempt_action env pl) 1 (w_db w) = (r1, db')"
    by (cases "retry_from 2 (ce_cancelled env) (ce_meanwhile env) (attempt_action env pl) 1 (w_db w)")
  have w': "w' = w\<lparr>w_db := db'\<rparr>" and r: "r = Inr built \<Longrightarrow> r1 = Inr built" "r = Inl e \<Longrightarrow> \<exists>e'. r1 = Inl e'" for built
    using w tries by (auto simp: wattempts_def retryOnContention_def maxFundingAttempts_def split: sum.splits)
  have res: "case r1 of Inl e \<Rightarrow> ?I db'
      | Inr x \<Rightarrow> (\<exists>k db1. 1 \<le> k \<and> k \<le> 1 + 2 \<and> ?I db1 \<and> attempt_action env pl k db1 = (Inr x, db'))"
  proof (rule retry_from_ok [where I = ?I, OF tries conjI [OF start]])
    show "?I (ce_meanwhile env k db)" if I: "?I db" for k db
    proof (rule conjI [OF attempt_state_run [OF conjunct1 [OF I] lib] keeps(1) [OF conjunct2 [OF I]]])
      note other = env(2) [unfolded meanwhile_ok_def, rule_format, of db k]
      show "(storage_step (ce_lib env))\<^sup>*\<^sup>* db (ce_meanwhile env k db)" using other by (rule conjunct1)
      show "table_fits (ce_meanwhile env k db)" using other I by (simp add: attempt_state_def)
    qed
    show "?I db2" if I: "?I db1" and fn: "attempt_action env pl k db1 = (Inl e, db2)" for k e db1 db2
    proof (rule conjI [OF attempt_state_run [OF conjunct1 [OF I] lib]])
      show "J db2" using attempt_action_Inl [OF fn] I keeps(2) by auto
      show "(storage_step (ce_lib env))\<^sup>*\<^sup>* db1 db2"
        using attempt_action_Inl [OF fn] by (auto intro: storage_step.heal r_into_rtranclp)
      have "length (db_UserUTXOs db2) \<le> length (db_UserUTXOs db1)"
        using attempt_action_Inl [OF fn] by (auto simp: DeleteIndexRows_def DeleteIndexRowsForOutputs_def)
      then show "table_fits db2" using I by (simp add: table_fits_def attempt_state_def)
    qed
  qed
  show "w' = w\<lparr>w_db := w_db w'\<rparr>" by (simp add: w')
  have ok: "\<exists>k db1 nt i. 1 \<le> k \<and> k \<le> 3 \<and> ?I db1 \<and> build_action env pl k db1 = Inr (x, nt) \<and>
      createTransactionInTx (ce_lib env) nt db1 = Inr (i, db')" if "r1 = Inr x" for x
  proof -
    from res that obtain k db1 where k: "1 \<le> k" "k \<le> 3" "?I db1" and fn: "attempt_action env pl k db1 = (Inr x, db')" by auto
    from attempt_action_Inr [OF fn] obtain nt i where "build_action env pl k db1 = Inr (x, nt)"
      "createTransactionInTx (ce_lib env) nt db1 = Inr (i, db')" .
    with k show ?thesis by blast
  qed
  show "(storage_step (ce_lib env))\<^sup>*\<^sup>* db0 (w_db w')"
  proof (cases r1)
    case (Inr x)
    from ok [OF this] obtain k db1 nt i where I: "?I db1" and b: "build_action env pl k db1 = Inr (x, nt)"
      and c: "createTransactionInTx (ce_lib env) nt db1 = Inr (i, db')" by blast
    have "new_tx_ok nt db1"
      using built_tx_ok [OF b env(1) plan] I table_utxo by (simp add: attempt_state_def)
    from storage_step.create [OF c this] I show ?thesis by (auto simp: w' attempt_state_def intro: rtranclp.rtrancl_into_rtrancl)
  qed (use res in \<open>simp add: w' attempt_state_def\<close>)
  show "r = Inr built \<Longrightarrow> \<exists>k db1 nt i. 1 \<le> k \<and> k \<le> 3 \<and> attempt_state env db0 db1 \<and> J db1 \<and> build_action env pl k db1 = Inr (built, nt) \<and>
      createTransactionInTx (ce_lib env) nt db1 = Inr (i, w_db w')"
    using r(1) ok by (simp add: w')
  show "r = Inl e \<Longrightarrow> attempt_state env db0 (w_db w') \<and> J (w_db w')" using r(2) res by (auto simp: w')
qed

lemma known_input_sats:
  "resultInputForKnownUTXO vin utxo raw by' db = Inr i \<Longrightarrow> ri_SourceSatoshis i = or_Satoshis utxo"
  by (auto simp: resultInputForKnownUTXO_def result_simps split: option.splits if_splits)

lemma result_inputs_sum:
  assumes "resultInputs allocated raw xinputs db = Inr ins" and known: "\<And>x. x \<in> set xinputs \<Longrightarrow> input_known outs ids x"
  shows "sum_list (map ri_SourceSatoshis ins) = sum_list (map xi_Satoshis xinputs) +
    sum_list (map or_Satoshis (FindOutputsByIDs (map ux_OutputID allocated) db))"
proof -
  let ?utxos = "FindOutputsByIDs (map ux_OutputID allocated) db"
  from assms(1) obtain ps as where ins: "ins = ps @ as"
    and p: "map_or_error (\<lambda>(vin, x). resultInputForProvided vin x raw db) (enumerate 0 xinputs) = Inr ps"
    and a: "map_or_error (\<lambda>(vin, utxo). rwrap ''failed to create result input for known UTXO''
      (resultInputForKnownUTXO vin utxo raw ''storage'' db)) (enumerate (length xinputs) ?utxos) = Inr as"
    by (auto simp: resultInputs_def Let_def result_simps split: if_splits)
  have prov: "map ri_SourceSatoshis ps = map (xi_Satoshis \<circ> snd) (enumerate 0 xinputs)"
    using p
  proof (rule map_or_error_map_on)
    fix x y assume "x \<in> set (enumerate 0 xinputs)" and y: "(case x of (vin, x) \<Rightarrow> resultInputForProvided vin x raw db) = Inr y"
    then have "snd x \<in> set xinputs" by (auto simp: in_set_enumerate_eq) (metis nth_mem)
    from known [OF this] y show "ri_SourceSatoshis y = (xi_Satoshis \<circ> snd) x"
      by (auto simp: resultInputForProvided_def input_known_def split: prod.splits option.splits dest!: known_input_sats)
  qed
  have "map ri_SourceSatoshis as = map (or_Satoshis \<circ> snd) (enumerate (length xinputs) ?utxos)"
    using a by (rule map_or_error_map) (auto split: prod.splits dest!: known_input_sats)
  with prov show ?thesis by (simp add: ins flip: map_map)
qed

lemma result_outputs_sum:
  assumes "resultOutputs lib outs = Inr res" and lib: "convert_ok lib" and "\<And>o'. o' \<in> set outs \<Longrightarrow> is_i64 (no_Satoshis o')"
  shows "map (int \<circ> co_Satoshis \<circ> ro_Output) res = map no_Satoshis outs" and "map ro_Vout res = map no_Vout outs"
    and "map (\<lambda>o'. (co_Basket (ro_Output o'), int (co_Satoshis (ro_Output o')))) res = map (\<lambda>o'. (no_BasketName o', no_Satoshis o')) outs"
  using assms(1) unfolding resultOutputs_def
  by (rule map_or_error_map_on, use lib assms(3) in \<open>auto simp: resultOutput_def convert_ok_def split: option.splits if_splits\<close>)+

text \<open>The inputs of a built transaction are outputs of the database.\<close>

lemma built_inputs_old:
  assumes env: "create_env_ok env model" and plan: "plan_ok (db_Outputs db0) pl" and inv: "db_inv db0" and state: "attempt_state env db0 db1"
    and build: "build_action env pl k db1 = Inr (built, nt)"
  shows "\<forall>x \<in> set (nt_SpentOutputIDs nt). x < db_NextOutputID db1"
proof -
  let ?al = "fr_AllocatedUTXOs (cb_funding built)"
  note lib = create_env_okD(3) [OF env]
  have st: "db_inv db1" "outputs_kept db0 db1" "utxo_table (db_UserUTXOs db1)" using state table_utxo by (auto simp: attempt_state_def)
  obtain ps vs basket existing cs where al: "?al = map to_utxo (ps @ vs)"
    and alloc: "allocation_ok (ce_lib env) (db_UserUTXOs db1) (ce_locked env k) (fund_args_for pl basket existing cs) ps vs"
    by (rule build_action_ok [OF build env plan st(3)])
  have found: "\<exists>r \<in> set (db_Outputs db1). or_ID r = ux_OutputID u \<and> or_Satoshis r = ux_Satoshis u" if "u \<in> set ?al" for u
    using that allocated_amounts [OF alloc plan inv st(1,2) lib] by (auto simp: al to_utxo_def)
  have spent: "nt_SpentOutputIDs nt = (pi_ChangeOutputIDs (cl_inputs pl) @ pi_KnownOutputIDs (cl_inputs pl)) @ map ux_OutputID ?al"
    by (rule build_actionE [OF build]) (simp add: mapReservedOutputIDs_def)
  have "x \<in> or_ID ` set (db_Outputs db1)" if "x \<in> set (nt_SpentOutputIDs nt)" for x
  proof (cases "x \<in> ux_OutputID ` set ?al")
    case True
    with found show ?thesis by (auto simp: image_iff) metis
  next
    case False
    with that plan have "x \<in> or_ID ` set (db_Outputs db0)" by (auto simp: spent plan_ok_def)
    then obtain r where "r \<in> set (db_Outputs db0)" "or_ID r = x" by auto
    with outputs_keptD [OF st(2)] show ?thesis by (metis (no_types, lifting) fst_conv imageI out_identity_def)
  qed
  then show "\<forall>x \<in> set (nt_SpentOutputIDs nt). x < db_NextOutputID db1"
    using db_invD(2) [OF st(1)] by (fastforce simp: outs_ok_def out_ok_def)
qed

text \<open>The amounts of the inputs of the result: those of the provided inputs and of the allocated outputs.\<close>

lemma committed_inputs_sum:
  assumes env: "create_env_ok env model" and plan: "plan_ok (db_Outputs db0) pl" and inv: "db_inv db0" and state: "attempt_state env db0 db1"
    and build: "build_action env pl k db1 = Inr (built, nt)" and create: "createTransactionInTx (ce_lib env) nt db1 = Inr (i, db2)"
    and ins: "resultInputs (fr_AllocatedUTXOs (cb_funding built)) raw (pi_Inputs (cl_inputs pl)) db2 = Inr ins"
  shows "sum_list (map ri_SourceSatoshis ins) = sum_list (map xi_Satoshis (pi_Inputs (cl_inputs pl))) +
    sum_list (map ux_Satoshis (fr_AllocatedUTXOs (cb_funding built)))"
proof -
  let ?al = "fr_AllocatedUTXOs (cb_funding built)" and ?key = "\<lambda>u. (ux_OutputID u, ux_Satoshis u)"
  note lib = create_env_okD(3) [OF env]
  have st: "db_inv db1" "outputs_kept db0 db1" "utxo_table (db_UserUTXOs db1)" using state table_utxo by (auto simp: attempt_state_def)
  obtain ps vs basket existing cs where al: "?al = map to_utxo (ps @ vs)"
    and alloc: "allocation_ok (ce_lib env) (db_UserUTXOs db1) (ce_locked env k) (fund_args_for pl basket existing cs) ps vs"
    by (rule build_action_ok [OF build env plan st(3)])
  have found: "\<exists>r \<in> set (db_Outputs db1). or_ID r = ux_OutputID u \<and> or_Satoshis r = ux_Satoshis u" if "u \<in> set ?al" for u
    using that allocated_amounts [OF alloc plan inv st(1,2) lib] by (auto simp: al to_utxo_def)
  note old = built_inputs_old [OF env plan inv state build]
  have spent: "nt_SpentOutputIDs nt = (pi_ChangeOutputIDs (cl_inputs pl) @ pi_KnownOutputIDs (cl_inputs pl)) @ map ux_OutputID ?al"
    by (rule build_actionE [OF build]) (simp add: mapReservedOutputIDs_def)
  note ok = built_tx_ok [OF build env plan st(3)]
  from create_effect [OF st(1) lib ok old create] obtain os where dist: "distinct (nt_SpentOutputIDs nt)"
    and outs: "db_Outputs db2 = map (claimed i (nt_SpentOutputIDs nt)) (db_Outputs db1) @ os" by blast
  have inv2: "db_inv db2" by (rule createTransactionInTx_inv [OF st(1) lib ok create])
  have same: "or_ID (claimed i ids r) = or_ID r" "or_Satoshis (claimed i ids r) = or_Satoshis r" for ids r
    by (simp_all add: claimed_def)
  have in2: "\<exists>r \<in> set (db_Outputs db2). or_ID r = fst p \<and> or_Satoshis r = snd p" if "p \<in> set (map ?key ?al)" for p
  proof -
    from that obtain u where u: "u \<in> set ?al" "p = ?key u" by auto
    from found [OF u(1)] obtain r where "r \<in> set (db_Outputs db1)" "or_ID r = ux_OutputID u" "or_Satoshis r = ux_Satoshis u" by blast
    with u(2) show ?thesis by (intro bexI [of _ "claimed i (nt_SpentOutputIDs nt) r"]) (simp_all add: outs same)
  qed
  have "sum_list (map or_Satoshis (filter (\<lambda>r. or_ID r \<in> fst ` set (map ?key ?al)) (db_Outputs db2))) = sum_list (map snd (map ?key ?al))"
    using db_invD(2) [OF inv2] dist in2 by (intro sum_by_id) (auto simp: outs_ok_def spent comp_def)
  then have "sum_list (map or_Satoshis (FindOutputsByIDs (map ux_OutputID ?al) db2)) = sum_list (map ux_Satoshis ?al)"
    by (auto simp: FindOutputsByIDs_def comp_def image_image)
  moreover have "input_known (db_Outputs db0) (pi_ChangeOutputIDs (cl_inputs pl) @ pi_KnownOutputIDs (cl_inputs pl)) x"
    if "x \<in> set (pi_Inputs (cl_inputs pl))" for x using plan that by (simp add: plan_ok_def)
  ultimately show ?thesis using result_inputs_sum [OF ins] by metis
qed

section \<open>The whole call\<close>

text \<open>Planning adds a basket at most.\<close>

definition only_baskets :: "go_lib \<Rightarrow> world \<Rightarrow> world \<Rightarrow> bool" where
  "only_baskets lib w w' \<longleftrightarrow> runs lib w w' \<and> db_UserUTXOs (w_db w') = db_UserUTXOs (w_db w) \<and> w_release w' = w_release w"

interpretation planning: step_relation "only_baskets lib" for lib
  by unfold_locales (auto simp: only_baskets_def intro: runs.R_refl runs.R_trans)

lemma only_baskets_create: "step_within (only_baskets lib) (wupdate (FindOrCreateBasket user name))"
  by (auto simp: step_within_def only_baskets_def wupdate_def runs_def FindOrCreateBasket_def createIfNotExist_frame
      intro: r_into_rtranclp storage_step.basket)

lemma plan_action_within: "step_within (only_baskets lib) (plan_action env userID params)"
proof -
  have "step_within (only_baskets lib) (ensureBasket user name)" for user name
    unfolding ensureBasket_def by (intro planning.within only_baskets_create)
  then show ?thesis
    unfolding plan_action_def choose_funding_basket_def Let_def by (intro planning.within)
qed

text \<open>What the creation of a basket keeps, planning keeps.\<close>

lemma plan_keeps:
  assumes "plan_action env userID params w = (r, w')" and "J (w_db w)" and keeps: "\<And>u name db. J db \<Longrightarrow> J (FindOrCreateBasket u name db)"
  shows "J (w_db w')"
proof -
  have ens: "J (w_db v')" if "ensureBasket u name v = (x, v')" "J (w_db v)" for u name v x v'
    using that keeps by (auto simp: ensureBasket_def step_defs split: option.splits)
  have "J (w_db v')" if "choose_funding_basket tc u use shape outs b v = (x, v')" "J (w_db v)" for tc u use shape outs b v x v'
    using that ens by (auto simp: choose_funding_basket_def wreturn_def split: option.splits if_splits)
  with assms(1,2) show ?thesis
    by (auto simp: plan_action_def wbind_def wresult_def wread_def wwrap_def wreturn_def Let_def split: prod.splits sum.splits)
qed

lemma create_body_Inr:
  assumes "create_body env userID params w0 = (Inr res, w)"
  obtains pl w1 w2 built inputs beef outputs where "plan_action env userID params w0 = (Inr pl, w1)"
    and "wattempts env pl w1 = (Inr built, w2)" and "w_db w = w_db w2"
    and "resultInputs (fr_AllocatedUTXOs (cb_funding built)) (cp_IncludeInputSourceRawTxs (cl_params pl)) (pi_Inputs (cl_inputs pl)) (w_db w2) =
      Inr inputs"
    and "resultOutputs (ce_lib env) (cb_outputs built) = Inr outputs"
    and "res = \<lparr>cr_InputBeef = beef, cr_Inputs = inputs, cr_Outputs = outputs,
       cr_NoSendChangeOutputVouts = changeOutputVoutsResult (cp_IsNoSend (cl_params pl)) (cb_outputs built),
       cr_DerivationPrefix = cb_prefix built, cr_Version = cp_Version (cl_params pl), cr_LockTime = cp_LockTime (cl_params pl),
       cr_Reference = cl_reference pl\<rparr>"
proof -
  from assms obtain pl w1 built w2 w3 where plan: "plan_action env userID params w0 = (Inr pl, w1)"
    and att: "wattempts env pl w1 = (Inr built, w2)" and arm: "warm (cl_reference pl) w2 = (Inr (), w3)"
    and rest: "wbind (wread (resultInputs (fr_AllocatedUTXOs (cb_funding built)) (cp_IncludeInputSourceRawTxs (cl_params pl)) (pi_Inputs (cl_inputs pl))))
      (\<lambda>inputs. wbind (wwrap ''failed to create BEEF with allocated UTXOs'' (wread (mergeAllocatedUTXOs (ce_sdk env) (pi_Beef (cl_inputs pl))
         (fr_AllocatedUTXOs (cb_funding built)) (cp_KnownTxIDs (cl_params pl)) (cp_TrustSelf (cl_params pl) \<and> cp_ReturnTXIDOnly (cl_params pl)))))
      (\<lambda>beef. wbind (wresult (resultOutputs (ce_lib env) (cb_outputs built))) (\<lambda>outputs.
      wreturn \<lparr>cr_InputBeef = beef, cr_Inputs = inputs, cr_Outputs = outputs,
       cr_NoSendChangeOutputVouts = changeOutputVoutsResult (cp_IsNoSend (cl_params pl)) (cb_outputs built),
       cr_DerivationPrefix = cb_prefix built, cr_Version = cp_Version (cl_params pl), cr_LockTime = cp_LockTime (cl_params pl),
       cr_Reference = cl_reference pl\<rparr>))) w3 = (Inr res, w)"
    unfolding create_body_def Let_def wbind_eq_Inr by (auto simp: warm_def wresult_def)
  have db: "w_db w3 = w_db w2" using arm by (auto simp: warm_def)
  from rest [unfolded step_Inr db] that [OF plan att] show thesis by (metis db)
qed

text \<open>The state in which the attempts start.\<close>

lemma planned_state:
  assumes plan: "plan_action env userID params w0 = (r, w1)" and inv: "db_inv (w_db w0)" "table_fits (w_db w0)"
    and lib: "convert_ok (ce_lib env)"
  shows "attempt_state env (w_db w0) (w_db w1)" and "w_release w1 = w_release w0"
proof -
  have "only_baskets (ce_lib env) w0 w1" using planning.within_at [OF plan_action_within, of "ce_lib env" w0 env userID params] plan by simp
  then have run: "(storage_step (ce_lib env))\<^sup>*\<^sup>* (w_db w0) (w_db w1)" and "table_fits (w_db w1)" and rel: "w_release w1 = w_release w0"
    using inv(2) by (simp_all add: only_baskets_def runs_def table_fits_def)
  then show "attempt_state env (w_db w0) (w_db w1)" "w_release w1 = w_release w0"
    using inv lib storage.run_good [OF run] outputs.run_later [OF run] by (auto simp: attempt_state_def)
qed

text \<open>The setting of the properties: a sound environment, and a database that satisfies its invariant.\<close>

definition create_setting :: "create_env \<Rightarrow> fee_model \<Rightarrow> world \<Rightarrow> bool" where
  "create_setting env model w \<longleftrightarrow> create_env_ok env model \<and> meanwhile_ok env \<and> db_inv (w_db w) \<and> table_fits (w_db w)"

lemma Create_success:
  assumes set: "create_setting env model w0" and create: "Create env userID params w0 = (Inr res, w)"
  obtains pl w1 k db1 built nt i inputs outputs beef where "plan_action env userID params (w0\<lparr>w_release := Some (newRelease userID)\<rparr>) = (Inr pl, w1)"
    and "plan_ok (db_Outputs (w_db w0)) pl" and "1 \<le> k" "k \<le> 3" and "attempt_state env (w_db w0) db1"
    and "build_action env pl k db1 = Inr (built, nt)" and "createTransactionInTx (ce_lib env) nt db1 = Inr (i, w_db w)"
    and "resultInputs (fr_AllocatedUTXOs (cb_funding built)) (cp_IncludeInputSourceRawTxs (cl_params pl)) (pi_Inputs (cl_inputs pl)) (w_db w) =
      Inr inputs"
    and "resultOutputs (ce_lib env) (cb_outputs built) = Inr outputs"
    and "res = \<lparr>cr_InputBeef = beef, cr_Inputs = inputs, cr_Outputs = outputs,
       cr_NoSendChangeOutputVouts = changeOutputVoutsResult (cp_IsNoSend (cl_params pl)) (cb_outputs built),
       cr_DerivationPrefix = cb_prefix built, cr_Version = cp_Version (cl_params pl), cr_LockTime = cp_LockTime (cl_params pl),
       cr_Reference = cl_reference pl\<rparr>"
proof -
  let ?w = "w0\<lparr>w_release := Some (newRelease userID)\<rparr>"
  have s: "create_env_ok env model" "meanwhile_ok env" "db_inv (w_db ?w)" "table_fits (w_db ?w)" using set by (simp_all add: create_setting_def)
  have "create_body env userID params ?w = (Inr res, w)" using create by (auto simp: Create_def split: sum.splits prod.splits)
  from create_body_Inr [OF this] obtain pl w1 w2 built inputs beef outputs where
    plan: "plan_action env userID params ?w = (Inr pl, w1)" and att: "wattempts env pl w1 = (Inr built, w2)" and w: "w_db w = w_db w2"
    and ins: "resultInputs (fr_AllocatedUTXOs (cb_funding built)) (cp_IncludeInputSourceRawTxs (cl_params pl)) (pi_Inputs (cl_inputs pl)) (w_db w) =
      Inr inputs" and outs: "resultOutputs (ce_lib env) (cb_outputs built) = Inr outputs"
    and res: "res = \<lparr>cr_InputBeef = beef, cr_Inputs = inputs, cr_Outputs = outputs,
       cr_NoSendChangeOutputVouts = changeOutputVoutsResult (cp_IsNoSend (cl_params pl)) (cb_outputs built),
       cr_DerivationPrefix = cb_prefix built, cr_Version = cp_Version (cl_params pl), cr_LockTime = cp_LockTime (cl_params pl),
       cr_Reference = cl_reference pl\<rparr>" by metis
  have ok: "plan_ok (db_Outputs (w_db ?w)) pl" by (rule plan_action_ok(1) [OF plan s(1)])
  note start = planned_state(1) [OF plan s(3,4) create_env_okD(3) [OF s(1)]]
  from wattempts_ok(4) [OF att s(1,2) ok start, of "\<lambda>_. True", OF TrueI TrueI TrueI refl] obtain k db1 nt i where "1 \<le> k" "k \<le> 3" "attempt_state env (w_db ?w) db1"
    "build_action env pl k db1 = Inr (built, nt)" "createTransactionInTx (ce_lib env) nt db1 = Inr (i, w_db w)" unfolding w by blast
  with plan ok ins outs res show thesis by (intro that) simp_all
qed

lemma create_body_runs:
  assumes set: "create_setting env model w0" and "w_db w = w_db w0"
  shows "runs (ce_lib env) w (snd (create_body env userID params w))"
proof -
  have s: "create_env_ok env model" "meanwhile_ok env" "db_inv (w_db w)" "table_fits (w_db w)" using assms by (simp_all add: create_setting_def)
  obtain r w1 where plan: "plan_action env userID params w = (r, w1)" by (cases "plan_action env userID params w")
  note start = planned_state(1) [OF plan s(3,4) create_env_okD(3) [OF s(1)]]
  show ?thesis
  proof (cases r)
    case (Inl e)
    with plan start show ?thesis by (simp add: create_body_def wbind_def runs_def attempt_state_def)
  next
    case (Inr pl)
    note plan = plan [unfolded Inr]
    obtain r2 w2 where att: "wattempts env pl w1 = (r2, w2)" by (cases "wattempts env pl w1")
    have run: "runs (ce_lib env) w w2"
      using wattempts_ok(2) [OF att s(1,2) plan_action_ok(1) [OF plan s(1)] start, of "\<lambda>_. True"] by (simp add: runs_def)
    show ?thesis
    proof (cases r2)
      case (Inl e)
      with plan att run show ?thesis by (simp add: create_body_def wbind_def)
    next
      case (Inr built)
      have arm: "step_within (runs (ce_lib env)) (warm ref)" for ref by (simp add: step_within_def runs_def warm_def)
      from plan att Inr run show ?thesis
        unfolding create_body_def Let_def
        by (simp add: wbind_def [of "plan_action env userID params"] wbind_def [of "wattempts env pl"] split del: if_split)
          (rule runs.R_trans [OF run], rule runs.within_at, intro runs.within arm)
    qed
  qed
qed

lemma Create_runs:
  assumes "create_setting env model w"
  shows "runs (ce_lib env) w (snd (Create env userID params w))"
proof -
  let ?w = "w\<lparr>w_release := Some (newRelease userID)\<rparr>"
  obtain r w1 where b: "create_body env userID params ?w = (r, w1)" by (cases "create_body env userID params ?w")
  have 1: "runs (ce_lib env) w w1" using create_body_runs [OF assms, of ?w userID params] b by (simp add: runs_def)
  show ?thesis
  proof (cases r)
    case (Inl e)
    let ?c = "if is_panic e then None else Some e"
    have "(storage_step (ce_lib env))\<^sup>*\<^sup>* (w_db w1) (snd (onError (Some (AbortAction (ce_lib env))) ?c (w_release w1) (w_db w1)))"
      by (rule onError_runs)
    with b Inl 1 show ?thesis by (auto simp: Create_def runs_def split: prod.splits intro: rtranclp_trans)
  qed (use b 1 in \<open>simp add: Create_def\<close>)
qed

end
