(* ===== verification/Background_Properties.thy ===== *)
theory Background_Properties
  imports Background_Correct Broadcaster_Correct Process_Properties Create_Correct
begin

text \<open>
  The properties of the background tasks and of the background broadcaster.
\<close>

section \<open>Refinement of the storage machine\<close>

text \<open>What a call may leave behind: the actions that create, process, abort and broadcast, and the background tasks.\<close>

definition ran :: "process_env \<Rightarrow> sync_env \<Rightarrow> world \<Rightarrow> world \<Rightarrow> bool" where
  "ran env s w w' \<longleftrightarrow> (\<exists>c model userID params. create_setting c model w \<and> ce_lib c = pe_lib env \<and> w' = snd (Create c userID params w)) \<or>
     (\<exists>userID reference. w' = w\<lparr>w_db := snd (AbortAction (pe_lib env) userID reference (w_db w))\<rparr>) \<or> (\<exists>userID args. w' = snd (Process env userID args w)) \<or>
     (\<exists>beef txIDs. w' = snd (BackgroundBroadcast env beef txIDs w)) \<or>
     (\<exists>envs clock halted fault locked age. (\<forall>n. pe_lib (envs n) = pe_lib env) \<and>
        w' = snd (SendWaitingTransactions envs clock halted fault locked age w)) \<or>
     w' = snd (UnFail env w) \<or> (\<exists>ev. w' = snd (ProcessExternalTxStatusUpdate env ev w)) \<or>
     (\<exists>locked. w' = snd (SynchronizeTxStatuses s locked w)) \<or>
     (\<exists>locked height h. w' = snd (SynchronizeTxStatusesForTip s locked height h w))"

lemma ran_runs:
  assumes "ran env s w w'" and lib: "sy_lib s = pe_lib env"
  shows "runs (pe_lib env) w w'"
proof -
  have sync: "runs (pe_lib env) w (snd (synchronizeTxStatusesInternal s locked height h w))" for locked height h
    using synchronize_runs [of s w] lib by simp
  have tip: "runs (pe_lib env) w (snd (SynchronizeTxStatuses s locked w))" for locked
    using sync by (cases "sy_FindChainTipHeader s") (auto simp: SynchronizeTxStatuses_def)
  have "runs (pe_lib env) w (snd (SendWaitingTransactions envs clock halted fault locked age w))"
    if "\<forall>n. pe_lib (envs n) = pe_lib env" for envs clock halted fault locked age
    using SendWaiting_safe [of envs "pe_lib env" w clock halted fault locked age] that by (simp add: safe_def)
  moreover have "runs (pe_lib env) w (snd (Create c userID params w))" if "create_setting c model w" "ce_lib c = pe_lib env" for c model userID params
    using Create_runs [OF that(1)] that(2) by simp
  moreover have "runs (pe_lib env) w (w\<lparr>w_db := snd (AbortAction (pe_lib env) userID reference (w_db w))\<rparr>)" for userID reference
    using AbortAction_runs by (simp add: runs_def)
  ultimately show ?thesis
    using assms(1) sync tip Process_runs [of env w] UnFail_runs [of env w] runs.within_at [OF within_BackgroundBroadcast, of env w]
      runs.within_at [OF within_external, of env w]
    by (auto simp: ran_def SynchronizeTxStatusesForTip_def)
qed


definition ex_sync :: sync_env where
  "ex_sync = \<lparr>sy_lib = std_lib, sy_FindChainTipHeader = Inr (900, ''tip''), sy_GetStatusForTxIDs = (\<lambda>_. Inl (GoErr ''down'')),
     sy_MerklePath = (\<lambda>_. Inl (GoErr ''down'')), sy_Done = (\<lambda>_. None), sy_BlocksDelay = 1, sy_MaxAttempts = 3,
     sy_MaxRebroadcastAttempts = 2, sy_checkNoSendDuration = 0, sy_reorgReproveDelay = 0\<rparr>"


section \<open>The background broadcaster\<close>

text \<open>C23. In every reachable state of the pool, each item that \<open>Add\<close> has accepted is in exactly one place: queued, held by a worker,
  parked under a parent, on its way back to the channel, or finished; and if requeued items wait for a sleeping
  dispatcher, a wake-up is pending.\<close>

theorem pool_loses_nothing:
  assumes "(pool_step sz)\<^sup>*\<^sup>* (NewBackgroundBroadcaster now) s"
  shows "mset (map item_key (unfinished s @ bp_finished s)) = mset (map item_key (bp_accepted s)) \<and>
    (bp_dispatch s = None \<longrightarrow> bp_requeueQueue s \<noteq> [] \<longrightarrow> bp_wake s \<or> 0 < bp_signals s)"
  using pool.run_good [OF assms new_pool_inv] by (simp add: pool_inv_def conserved_def awake_def)

text \<open>A child arrives before its parent, is parked, and is released when the parent was posted.\<close>

definition ex_parent_tx :: sdk_tx where
  "ex_parent_tx = \<lparr>stx_TxID = ''p'', stx_SourceTXIDs = [], stx_LockingScripts = []\<rparr>"

definition ex_child_tx :: sdk_tx where
  "ex_child_tx = \<lparr>stx_TxID = ''c'', stx_SourceTXIDs = [Some ''p''], stx_LockingScripts = []\<rparr>"

definition ex_chain :: broadcast_beef where
  "ex_chain = \<lparr>bb_txs = [''p'' \<mapsto> ex_parent_tx, ''c'' \<mapsto> ex_child_tx], bb_DataFormat = [''p'' \<mapsto> RawTx, ''c'' \<mapsto> RawTx]\<rparr>"

definition ex_sizing :: sizing where
  "ex_sizing = \<lparr>sz_Workers = 2, sz_ChannelSize = 5, sz_MaxParentWait = 0, sz_UnknownParentWait = 0, sz_PostedRetention = 0,
     sz_SweepInterval = 0\<rparr>"

definition ex_child_item :: broadcast_item where
  "ex_child_item = new_item (Some ex_chain) [''c'']"

definition ex_pool_taken :: pool where
  "ex_pool_taken = (NewBackgroundBroadcaster 0)\<lparr>bp_marking := [[''c'']], bp_taken := [ex_child_item], bp_accepted := [ex_child_item]\<rparr>"

lemmas ex_pool_defs = ex_pool_taken_def ex_child_item_def NewBackgroundBroadcaster_def new_item_def ex_sizing_def ex_chain_def
  ex_child_tx_def newTxidSet_def

lemma ex_pool_taken_reachable: "(pool_step ex_sizing)\<^sup>*\<^sup>* (NewBackgroundBroadcaster 0) ex_pool_taken"
proof -
  let ?s0 = "NewBackgroundBroadcaster 0"
  let ?s1 = "?s0\<lparr>bp_channel := [ex_child_item], bp_marking := [[''c'']], bp_accepted := [ex_child_item]\<rparr>"
  have "pool_step ex_sizing ?s0 ?s1"
    by (rule pool_step.add [of _ "Some ex_chain" "[''c'']"])
      (simp add: Add_item_def ParentsFirst_def ex_pool_defs sizing_channelSize_def)
  moreover have "pool_step ex_sizing ?s1 (?s1\<lparr>bp_channel := [], bp_taken := bp_taken ?s1 @ [ex_child_item]\<rparr>)"
    by (rule pool_step.worker_take) (simp_all add: ex_pool_defs sizing_workers_def)
  moreover have "?s1\<lparr>bp_channel := [], bp_taken := bp_taken ?s1 @ [ex_child_item]\<rparr> = ex_pool_taken"
    by (simp add: ex_pool_defs)
  ultimately show ?thesis by (metis converse_rtranclp_into_rtranclp r_into_rtranclp)
qed

theorem pool_loses_nothing_witness:
  "mset (map item_key (unfinished ex_pool_taken @ bp_finished ex_pool_taken)) = {#(Some ex_chain, [''c''])#}"
  using pool_loses_nothing [OF ex_pool_taken_reachable] by (simp add: ex_pool_taken_def ex_child_item_def item_key_def new_item_def)


text \<open>The parent arrives while the child is held by a worker, and is posted before the child reaches the gate.\<close>

definition ex_parent_item :: broadcast_item where
  "ex_parent_item = new_item (Some ex_chain) [''p'']"

definition ex_parent_added :: pool where
  "ex_parent_added = ex_pool_taken\<lparr>bp_channel := [ex_parent_item], bp_marking := [[''c''], [''p'']],
     bp_accepted := [ex_child_item, ex_parent_item]\<rparr>"

definition ex_parent_taken :: pool where
  "ex_parent_taken = ex_parent_added\<lparr>bp_channel := [], bp_taken := [ex_child_item, ex_parent_item]\<rparr>"

definition ex_parent_posting :: pool where
  "ex_parent_posting = ex_parent_taken\<lparr>bp_taken := [ex_child_item], bp_posting := [ex_parent_item]\<rparr>"

definition ex_parent_posted :: pool where
  "ex_parent_posted = ex_parent_posting\<lparr>bp_posting := [], bp_finished := [ex_parent_item], bp_succeeded := [''p''],
     bp_posted := set_add ''p'' 0 newTxidSet\<rparr>"

lemmas ex_parent_defs = ex_parent_posted_def ex_parent_posting_def ex_parent_taken_def ex_parent_added_def ex_parent_item_def
  ex_parent_tx_def ex_pool_defs

lemmas ex_gate_defs = park_def firstUnpostedParent_def firstUnpostedParentOf_def gate_worthy_def set_has_def set_add_def BeefTx_def

lemma ex_parent_added_step: "pool_step ex_sizing ex_pool_taken ex_parent_added"
  by (rule pool_step.add [of _ "Some ex_chain" "[''p'']"])
    (simp add: Add_item_def ParentsFirst_def ex_parent_defs sizing_channelSize_def)

lemma ex_parent_taken_step: "pool_step ex_sizing ex_parent_added ex_parent_taken"
  using pool_step.worker_take [of ex_parent_added ex_parent_item "[]" ex_sizing]
  by (simp add: ex_parent_defs sizing_workers_def)

lemma ex_parent_posting_step: "pool_step ex_sizing ex_parent_taken ex_parent_posting"
  using pool_step.worker_post [of ex_parent_taken "[ex_child_item]" ex_parent_item "[]" ex_sizing]
  by (simp add: ex_parent_defs ex_gate_defs)

lemma ex_parent_posted_step: "pool_step ex_sizing ex_parent_posting ex_parent_posted"
  using pool_step.post_succeeded [of ex_parent_posting "[]" ex_parent_item "[]" 0 ex_sizing]
  by (simp add: ex_parent_defs markPostedAndRelease_def post_one_def take_waiting_def)

lemmas ex_parent_steps = ex_parent_added_step ex_parent_taken_step ex_parent_posting_step ex_parent_posted_step




end
