(* ===== verification/Waiting_Properties.thy ===== *)
theory Waiting_Properties
  imports Background_Properties
begin

text \<open>
  What the background tasks do: how the sweep groups the waiting transactions, when a transaction counts as mined, and what
  the review of failed transactions reaches.
\<close>

section \<open>The batches of the sweep\<close>

text \<open>The reference grouping: one batch per name, in the order of the first occurrence of the names, each with the
  members in their order.\<close>

fun first_names :: "string list \<Rightarrow> string list" where
  "first_names [] = []"
| "first_names (x # xs) = x # filter (\<lambda>y. y \<noteq> x) (first_names xs)"

definition batches_of :: "known_tx_for_status_sync list \<Rightarrow> waiting_batch list" where
  "batches_of items = map (\<lambda>name. \<lparr>wb_name = name, wb_txIDs = map kts_TxID (filter (\<lambda>i. batch_name i = name) items)\<rparr>)
     (first_names (map batch_name items))"

lemma first_names_set [simp]: "set (first_names xs) = set xs"
  by (induction xs) auto

lemma first_names_distinct [simp]: "distinct (first_names xs)"
  by (induction xs) auto

lemma first_names_snoc: "first_names (xs @ [x]) = (if x \<in> set xs then first_names xs else first_names xs @ [x])"
  by (induction xs) auto

text \<open>The state of the collecting loop after some items: their reference grouping and the position of every name.\<close>

definition grouped :: "known_tx_for_status_sync list \<Rightarrow> waiting_batch list \<times> (string \<rightharpoonup> nat) \<Rightarrow> bool" where
  "grouped items st \<longleftrightarrow> fst st = batches_of items \<and>
     (\<forall>name n. snd st name = Some n \<longleftrightarrow> n < length (first_names (map batch_name items)) \<and>
        first_names (map batch_name items) ! n = name)"

lemma grouped_item:
  assumes g: "grouped items st"
  shows "grouped (items @ [item]) (collect_item item st)"
proof -
  let ?names = "first_names (map batch_name items)" and ?name = "batch_name item"
  obtain batches pos where st: "st = (batches, pos)" by (cases st)
  from g st have b: "batches = batches_of items" and p: "\<And>m n. pos m = Some n \<longleftrightarrow> n < length ?names \<and> ?names ! n = m"
    by (auto simp: grouped_def)
  have len: "length batches = length ?names" by (simp add: b batches_of_def)
  show ?thesis
  proof (cases "pos ?name")
    case None
    then have new: "?name \<notin> set ?names" using p by (metis in_set_conv_nth option.distinct(1))
    then have "batch_name i \<noteq> ?name" if "i \<in> set items" for i using that by (metis first_names_set image_eqI list.set_map)
    then have "filter (\<lambda>i. batch_name i = ?name) items = []" by (simp add: filter_empty_conv)
    moreover from new have names: "first_names (map batch_name (items @ [item])) = ?names @ [?name]"
      by (simp add: first_names_snoc)
    moreover have "name \<in> set ?names \<Longrightarrow> ?name \<noteq> name" for name using new by blast
    ultimately have "batches_of (items @ [item]) = batches_of items @ [\<lparr>wb_name = ?name, wb_txIDs = [kts_TxID item]\<rparr>]"
      by (simp add: batches_of_def del: first_names_set)
    moreover have "(pos(?name \<mapsto> length batches)) m = Some n \<longleftrightarrow> n < length (?names @ [?name]) \<and> (?names @ [?name]) ! n = m" for m n
      using p [of m n] new len by (auto simp: nth_append less_Suc_eq simp del: first_names_set dest: nth_mem)
    ultimately show ?thesis using None st unfolding grouped_def names by (simp add: collect_item_def b)
  next
    case (Some n)
    with p have n: "n < length ?names" "?names ! n = ?name" by auto
    then have "?name \<in> set (map batch_name items)" by (metis first_names_set nth_mem)
    then have same: "first_names (map batch_name items @ [?name]) = ?names" by (simp add: first_names_snoc)
    have other: "?names ! m \<noteq> ?name" if "m < length ?names" "m \<noteq> n" for m
      using that n by (metis first_names_distinct nth_eq_iff_index_eq)
    have "batches[n := (batches ! n)\<lparr>wb_txIDs := wb_txIDs (batches ! n) @ [kts_TxID item]\<rparr>] = batches_of (items @ [item])"
      using n by (intro nth_equalityI) (auto simp: b batches_of_def same nth_list_update dest: other)
    moreover have "collect_item item st = (batches[n := (batches ! n)\<lparr>wb_txIDs := wb_txIDs (batches ! n) @ [kts_TxID item]\<rparr>], pos)"
      using Some st by (simp add: collect_item_def)
    ultimately show ?thesis using p same by (simp add: grouped_def)
  qed
qed

lemma grouped_fold: "grouped items st \<Longrightarrow> grouped (items @ page) (fold collect_item page st)"
proof (induction page arbitrary: items st)
  case (Cons item page)
  from Cons.IH [OF grouped_item [OF Cons.prems]] show ?case by simp
qed simp

text \<open>The rows the sweep looks at, oldest first.\<close>

definition waiting_rows :: "int \<Rightarrow> database \<Rightarrow> known_tx_for_status_sync list" where
  "waiting_rows until db = mapKnownTxRowsForStatusSync (sort_key (\<lambda>k. (kt_CreatedAt k, kt_TxID k))
     (filter (\<lambda>k. kt_Status k \<in> set statusesOfWaitingTxs \<and> kt_CreatedAt k \<le> until) (db_KnownTxs db)))"

definition sweep_paging :: "nat \<Rightarrow> paging" where
  "sweep_paging n = \<lparr>pg_Limit = 1000, pg_Offset = int (1000 * n), pg_Sort = ''asc'', pg_SortBy = [], pg_ThenBy = ''tx_id''\<rparr>"

lemma sweep_page:
  "FindKnownTxIDsByStatuses statusesOfWaitingTxs (FromQueryOpts [WithUntil until, WithPage (sweep_paging n)]) db =
     take 1000 (drop (1000 * n) (waiting_rows until db))"
proof -
  have "filter (\<lambda>k. kt_CreatedAt k \<le> until) (filter (\<lambda>k. kt_Status k \<in> set statusesOfWaitingTxs) rows) =
      filter (\<lambda>k. kt_Status k \<in> set statusesOfWaitingTxs \<and> kt_CreatedAt k \<le> until) rows" for rows :: "known_tx_row list"
    by (simp add: conj_commute)
  moreover have "nat (1000 * int n) = 1000 * n" by linarith
  ultimately show ?thesis
    by (simp add: FindKnownTxIDsByStatuses_def FromQueryOpts_def MergeOptions_def merge_option_def WithUntil_def WithPage_def no_options_def
        ApplyDefaults_def sweep_paging_def known_order_def IsDesc_def strings_ToLower_def lower_char_def sql_page_def Let_def
        waiting_rows_def mapKnownTxRowsForStatusSync_def take_map drop_map)
qed

lemma sweep_paging_next: "n < 10 \<Longrightarrow> Next (sweep_paging n) = sweep_paging (Suc n)"
  by (simp add: Next_def sweep_paging_def wrap_i64_def)

lemma grouped_ne: "grouped items st \<Longrightarrow> items \<noteq> [] \<Longrightarrow> fst st \<noteq> []"
  by (cases items) (simp_all add: grouped_def batches_of_def)

text \<open>What the collecting loop may return: the grouping of whole pages, all of them unless it was disturbed, or the error of
  the first page.\<close>

definition collected :: "(nat \<Rightarrow> bool) \<Rightarrow> (nat \<Rightarrow> go_error option) \<Rightarrow> known_tx_for_status_sync list \<Rightarrow> waiting_batch list result \<Rightarrow> bool" where
  "collected halted fault rows r \<longleftrightarrow> (case r of
      Inl e \<Rightarrow> \<exists>e0. fault 0 = Some e0 \<and> \<not> isContextErr e0 \<and> \<not> halted 0 \<and> e = wrap_error ''failed to find known txs by statuses'' e0
    | Inr batches \<Rightarrow> (\<exists>m \<le> 10. batches = batches_of (take (1000 * m) rows)) \<and>
        ((\<forall>i < 10. \<not> halted i \<and> fault i = None) \<longrightarrow> batches = batches_of (take 10000 rows)))"

lemma collected_part:
  assumes "grouped (take (1000 * m) rows) st" and "m \<le> 10"
    and "m = 10 \<or> length rows \<le> 1000 * m \<or> (\<exists>i < 10. halted i \<or> fault i \<noteq> None)"
  shows "collected halted fault rows (Inr (fst st))"
proof -
  have "take (1000 * m) rows = take 10000 rows" if "m = 10 \<or> length rows \<le> 1000 * m" using that assms(2) by auto
  moreover have "fst st = batches_of (take (1000 * m) rows)" using assms(1) by (simp add: grouped_def)
  ultimately have "(\<forall>i < 10. \<not> halted i \<and> fault i = None) \<longrightarrow> fst st = batches_of (take 10000 rows)"
    using assms(3) by metis
  with \<open>fst st = _\<close> assms(2) show ?thesis unfolding collected_def sum.case by blast
qed

lemma collect_pages_grouped:
  fixes db :: database and until :: int
  defines "rows \<equiv> waiting_rows until db"
  assumes "grouped (take (1000 * n) rows) st" and "1000 * n \<le> length rows" and "n + left = 10"
  shows "collected halted fault rows (collect_pages halted fault until db left n (sweep_paging n) st)"
  using assms(2-4)
proof (induction left arbitrary: n st)
  case 0
  then show ?case using collected_part [OF 0(1), of halted fault] by simp
next
  case (Suc left)
  let ?page = "take 1000 (drop (1000 * n) rows)"
  have n: "n < 10" using Suc.prems(3) by simp
  have g: "grouped (take (1000 * Suc n) rows) (fold collect_item ?page st)"
    using grouped_fold [OF Suc.prems(1), of ?page] take_add [of "1000 * n" 1000 rows] by (simp add: add.commute)
  have page: "FindKnownTxIDsByStatuses statusesOfWaitingTxs (FromQueryOpts [WithUntil until, WithPage (sweep_paging n)]) db = ?page"
    by (simp add: sweep_page rows_def)
  have part: "collected halted fault rows (Inr (fst st))" if "halted n \<or> fault n \<noteq> None"
    using that n by (intro collected_part [OF Suc.prems(1)]) auto
  consider (halted) "halted n" | (fault) e where "\<not> halted n" "fault n = Some e" | (last) "\<not> halted n" "fault n = None" "length ?page < 1000"
    | (next_page) "\<not> halted n" "fault n = None" "\<not> length ?page < 1000" by fastforce
  then show ?case
  proof cases
    case halted
    then show ?thesis using part by simp
  next
    case fault
    have "n = 0" if "fst st = []" using that grouped_ne [OF Suc.prems(1)] Suc.prems(2) by (cases "rows = []") auto
    with fault part show ?thesis by (auto simp: collected_def)
  next
    case last
    then have "length rows \<le> 1000 * Suc n" by simp
    then have "collected halted fault rows (Inr (fst (fold collect_item ?page st)))"
      using n by (intro collected_part [OF g]) auto
    moreover have "length ?page < sendWaitingItemsPerPage" using last(3) by (simp add: sendWaitingItemsPerPage_def)
    ultimately show ?thesis using last(1,2) by (simp only: collect_pages.simps page Let_def if_True if_False option.case)
  next
    case next_page
    then have "1000 * Suc n \<le> length rows" by auto
    from Suc.IH [OF g this] Suc.prems(3) next_page show ?thesis
      by (simp add: page sweep_paging_next n sendWaitingItemsPerPage_def)
  qed
qed

text \<open>C26. The sweep groups the waiting transactions exactly as the reference grouping: one batch per name in the order of the oldest
  member, with the members oldest first. It covers the oldest ten thousand rows, or whole pages of a thousand
  when the context ends or a page cannot be read, and it fails only if the very first page cannot be read.\<close>

theorem sweep_groups_waiting_rows:
  "case collectWaitingBatches halted fault until db of
      Inl e \<Rightarrow> \<exists>e0. fault 0 = Some e0 \<and> \<not> isContextErr e0 \<and> \<not> halted 0 \<and> e = wrap_error ''failed to find known txs by statuses'' e0
    | Inr batches \<Rightarrow> (\<exists>m \<le> 10. batches = batches_of (take (1000 * m) (waiting_rows until db))) \<and>
        ((\<forall>i < 10. \<not> halted i \<and> fault i = None) \<longrightarrow> batches = batches_of (take 10000 (waiting_rows until db)))"
proof -
  have "grouped (take (1000 * 0) (waiting_rows until db)) ([], Map.empty)" by (simp add: grouped_def batches_of_def)
  from collect_pages_grouped [OF this, of 10 halted fault]
  have "collected halted fault (waiting_rows until db) (collectWaitingBatches halted fault until db)"
    by (simp add: collectWaitingBatches_def sendWaitingMaxPages_def sendWaitingItemsPerPage_def sweep_paging_def)
  then show ?thesis by (simp add: collected_def)
qed

text \<open>Two transactions of one batch with a lone transaction between them.\<close>

definition ex_waiting :: "string \<Rightarrow> int \<Rightarrow> string option \<Rightarrow> known_tx_row" where
  "ex_waiting txID created batch = (zero_known_tx created)\<lparr>kt_TxID := txID, kt_Status := ProvenTxStatusUnsent, kt_Batch := batch\<rparr>"

theorem sweep_groups_waiting_rows_witness:
  "collectWaitingBatches (\<lambda>_. False) (\<lambda>_. None) 9 (ex_db\<lparr>db_KnownTxs := [ex_waiting ''c'' 3 (Some ''B''), ex_waiting ''b'' 2 None,
       ex_waiting ''a'' 1 (Some ''B''), ex_waiting ''late'' 10 None]\<rparr>) =
     Inr [\<lparr>wb_name = ''B'', wb_txIDs = [''a'', ''c'']\<rparr>, \<lparr>wb_name = ''b'', wb_txIDs = [''b'']\<rparr>]"
proof -
  let ?db = "ex_db\<lparr>db_KnownTxs := [ex_waiting ''c'' 3 (Some ''B''), ex_waiting ''b'' 2 None,
       ex_waiting ''a'' 1 (Some ''B''), ex_waiting ''late'' 10 None]\<rparr>"
  have "batches_of (take 10000 (waiting_rows 9 ?db)) = [\<lparr>wb_name = ''B'', wb_txIDs = [''a'', ''c'']\<rparr>, \<lparr>wb_name = ''b'', wb_txIDs = [''b'']\<rparr>]"
    by (simp add: waiting_rows_def ex_waiting_def zero_known_tx_def statusesOfWaitingTxs_def mapKnownTxRowsForStatusSync_def
        batches_of_def batch_name_def)
  with sweep_groups_waiting_rows [of "\<lambda>_. None" "\<lambda>_. False" 9 ?db] show ?thesis by (auto split: sum.splits)
qed

section \<open>Mined transactions have a proof\<close>

text \<open>The columns of a KnownTx that hold its proof, and worlds that differ by completed transactions with an allowed proof.\<close>

definition proof_cols :: "known_tx_row \<Rightarrow> string \<times> string option \<times> nat option \<times> string option" where
  "proof_cols k = (kt_TxID k, kt_MerkleRoot k, kt_BlockHeight k, kt_BlockHash k)"

definition completes :: "(string \<times> string option \<times> nat option \<times> string option \<Rightarrow> bool) \<Rightarrow> known_tx_row list \<Rightarrow> known_tx_row list \<Rightarrow> bool" where
  "completes P ks ks' \<longleftrightarrow> (\<forall>k' \<in> set ks'. kt_Status k' = ProvenTxStatusCompleted \<longrightarrow>
     (\<exists>k \<in> set ks. proof_cols k = proof_cols k' \<and> kt_Status k = ProvenTxStatusCompleted) \<or> P (proof_cols k'))"

interpretation completing: step_relation "\<lambda>w w'. completes P (db_KnownTxs (w_db w)) (db_KnownTxs (w_db w'))" for P
  by unfold_locales (auto simp: completes_def, metis)

lemma completes_refl: "completes P ks ks"
  by (auto simp: completes_def)

lemma completes_update:
  assumes "\<And>k. k \<in> set ks \<Longrightarrow> Q k \<Longrightarrow> kt_Status (f k) = ProvenTxStatusCompleted \<Longrightarrow> P (proof_cols (f k))"
  shows "completes P ks (update_where Q f ks)"
  using assms by (fastforce simp: completes_def in_update_where)

lemma completing_wtx:
  assumes "\<And>db x db'. f db = Inr (x, db') \<Longrightarrow> completes P (db_KnownTxs db) (db_KnownTxs db')"
  shows "step_within (\<lambda>w w'. completes P (db_KnownTxs (w_db w)) (db_KnownTxs (w_db w'))) (wtx f)"
  using assms by (auto simp: step_within_def wtx_def in_db_tx_def completes_refl split: sum.splits prod.splits)

lemma completes_guarded:
  assumes "applyKnownTxStatusGuarded txID status skip ns db = Inr (b, db')" and "status \<noteq> ProvenTxStatusCompleted"
  shows "completes P (db_KnownTxs db) (db_KnownTxs db')"
  using assms by (auto simp: applyKnownTxStatusGuarded_def set_known_status_def completes_refl split: if_splits intro!: completes_update)

lemma timeout_status: "kt_Status (proofTimeoutUpdates mx k) \<noteq> ProvenTxStatusCompleted"
  by (simp add: proofTimeoutUpdates_def Let_def)

lemma completes_ops:
  "AdvanceKnownTxToBroadcasted lib txID skip ns db = Inr (b, db1) \<Longrightarrow> completes P (db_KnownTxs db) (db_KnownTxs db1)"
  "FailKnownTxAsDoubleSpend txID skip ns db = Inr (b, db2) \<Longrightarrow> completes P (db_KnownTxs db) (db_KnownTxs db2)"
  "RequeueKnownTxForRebroadcast txID mx sts ns db = Inr (y, db3) \<Longrightarrow> completes P (db_KnownTxs db) (db_KnownTxs db3)"
proof -
  show "AdvanceKnownTxToBroadcasted lib txID skip ns db = Inr (b, db1) \<Longrightarrow> completes P (db_KnownTxs db) (db_KnownTxs db1)"
    by (auto simp: AdvanceKnownTxToBroadcasted_def createUTXOsForSpendableOutputsByTxID_def Let_def result_simps
        dest!: frame_known_ops(1) split: if_splits intro: completes_guarded)
  show "FailKnownTxAsDoubleSpend txID skip ns db = Inr (b, db2) \<Longrightarrow> completes P (db_KnownTxs db) (db_KnownTxs db2)"
    by (auto simp: FailKnownTxAsDoubleSpend_def result_simps split: if_splits intro: completes_guarded)
  show "RequeueKnownTxForRebroadcast txID mx sts ns db = Inr (y, db3) \<Longrightarrow> completes P (db_KnownTxs db) (db_KnownTxs db3)"
    by (auto simp: RequeueKnownTxForRebroadcast_def Let_def completes_refl timeout_status split: list.splits intro!: completes_update)
qed

lemmas completing_basic = completing.within completing_wtx completes_ops

text \<open>What makes a proof acceptable: the services supplied it, or it came with the event and its computed root is valid for its
  height.\<close>

definition proven_by :: "process_env \<Rightarrow> broadcast_status_event \<Rightarrow> string \<times> string option \<times> nat option \<times> string option \<Rightarrow> bool" where
  "proven_by env ev cols \<longleftrightarrow> (\<exists>path header. cols = (ev_TxID ev, Some (mh_MerkleRoot header), Some (mh_Height header), Some (mh_Hash header)) \<and>
     ((\<exists>r. pe_MerklePath env (ev_TxID ev) = Inr (Some r) \<and> mr_MerklePath r = Some path \<and> mr_BlockHeader r = Some header) \<or>
      (mh_Height header = mp_BlockHeight path \<and> mh_Hash header = ev_BlockHash ev \<and> mh_Hash header \<noteq> [] \<and>
       (ev_BlockHeight ev = 0 \<or> mh_Height header = ev_BlockHeight ev) \<and>
       pe_NewMerklePathFromHex env (ev_MerklePath ev) = Inr path \<and> pe_ComputeRootHex env path (ev_TxID ev) = Inr (mh_MerkleRoot header) \<and>
       (\<exists>h. pe_NewHashFromHex env (mh_MerkleRoot header) = Inr h \<and> pe_IsValidRootForHeight env h (mh_Height header) = Inr True))))"

lemma merklePathFromServices_Some:
  "merklePathFromServices env txID = Inr (Some (path, header)) \<Longrightarrow>
   \<exists>r. pe_MerklePath env txID = Inr (Some r) \<and> mr_MerklePath r = Some path \<and> mr_BlockHeader r = Some header"
  by (auto simp: merklePathFromServices_def split: sum.splits option.splits if_splits)

lemma resolved_proven:
  assumes "resolveExternalMerklePath env ev = Inr (Some (path, header))"
  shows "proven_by env ev (ev_TxID ev, Some (mh_MerkleRoot header), Some (mh_Height header), Some (mh_Hash header))"
proof (cases "ev_MerklePath ev = [] \<or> ev_BlockHash ev = []")
  case True
  with assms have "merklePathFromServices env (ev_TxID ev) = Inr (Some (path, header))"
    by (auto simp: resolveExternalMerklePath_def split: if_splits)
  from merklePathFromServices_Some [OF this] show ?thesis unfolding proven_by_def by blast
next
  case False
  with assms show ?thesis
    unfolding proven_by_def
    by (intro exI [of _ path] exI [of _ header]) (auto simp: resolveExternalMerklePath_def result_simps split: if_splits)
qed

lemma completing_external:
  "step_within (\<lambda>w w'. completes (proven_by env ev) (db_KnownTxs (w_db w)) (db_KnownTxs (w_db w'))) (ProcessExternalTxStatusUpdate env ev)"
  (is "step_within ?R _")
proof -
  have report: "step_within ?R (report_status txID status)" for txID status
    unfolding report_status_def by (intro completing_basic)
  have advance: "step_within ?R (advanceToBroadcastedFromExternalEvent env ev current)" for current
    unfolding advanceToBroadcastedFromExternalEvent_def by (intro completing_basic report)
  have requeue: "step_within ?R (requeueExternallyRejectedTx env ev agg)" for agg
    unfolding requeueExternallyRejectedTx_def by (intro completing_basic report)
  have fail: "step_within ?R (failExternallyRejectedTx env ev agg)" for agg
    unfolding failExternallyRejectedTx_def by (intro completing_basic report)
  have rejected: "step_within ?R (applyExternalRejected env ev current)" for current
  proof (cases "confirmDoubleSpends env [ev_TxID ev] (synthesizeRejectedVerdict ev) (ev_TxID ev)")
    case (Some agg)
    then show ?thesis
      by (cases "ag_status agg") (simp_all add: applyExternalRejected_def completing.within advance requeue fail)
  qed (simp add: applyExternalRejected_def completing.within)
  have mined: "step_within ?R (applyExternalMined env ev)"
  proof (cases "resolveExternalMerklePath env ev")
    case (Inl e)
    then show ?thesis by (simp add: applyExternalMined_def step_within_def step_defs completes_refl)
  next
    case (Inr x)
    show ?thesis
    proof (cases x)
      case None
      with Inr show ?thesis by (simp add: applyExternalMined_def step_within_def step_defs completes_refl)
    next
      case (Some ph)
      obtain path header where ph: "ph = (path, header)" by (cases ph)
      from resolved_proven [of env ev path header] Inr Some ph
      have "completes (proven_by env ev) (db_KnownTxs db) (db_KnownTxs (UpdateKnownTxAsMined
          \<lparr>kam_TxID = ev_TxID ev, kam_BlockHeight = mh_Height header, kam_MerklePath = mp_Bytes path,
           kam_MerkleRoot = mh_MerkleRoot header, kam_BlockHash = mh_Hash header, kam_Notes = ns\<rparr> db))" for db ns
        by (auto simp: UpdateKnownTxAsMined_def Let_def proof_cols_def intro!: completes_update)
      with Inr Some ph show ?thesis by (simp add: applyExternalMined_def step_within_def step_defs)
    qed
  qed
  show ?thesis
    unfolding ProcessExternalTxStatusUpdate_def by (intro completing_basic mined advance rejected)
qed

text \<open>C27. An external status event completes no transaction but its own, and only with a proof that the services supplied or
  whose computed root the chain tracker accepts for its height; whatever was completed before keeps its proof, unless it is
  replaced by such a proof.\<close>

theorem mined_event_needs_proof:
  assumes "ProcessExternalTxStatusUpdate env ev w = (r, w')" and "k' \<in> set (db_KnownTxs (w_db w'))"
    and "kt_Status k' = ProvenTxStatusCompleted"
  shows "(\<exists>k \<in> set (db_KnownTxs (w_db w)). proof_cols k = proof_cols k' \<and> kt_Status k = ProvenTxStatusCompleted) \<or>
    proven_by env ev (proof_cols k')"
  using completing.within_at [OF completing_external [of env ev], of w] assms by (auto simp: completes_def)

text \<open>A mined event without a proof, for which the services know one.\<close>

definition ex_mined_env :: process_env where
  "ex_mined_env = ex_env\<lparr>pe_MerklePath := (\<lambda>_. Inr (Some \<lparr>mr_MerklePath = Some \<lparr>mp_BlockHeight = 7, mp_Bytes = [1]\<rparr>,
     mr_BlockHeader = Some \<lparr>mh_Height = 7, mh_MerkleRoot = ''root'', mh_Hash = ''hash''\<rparr>\<rparr>))\<rparr>"

definition ex_mined_event :: broadcast_status_event where
  "ex_mined_event = \<lparr>ev_EventID = [], ev_TxID = ''bb'', ev_Status = ''MINED'', ev_BlockHash = [], ev_BlockHeight = 0,
     ev_MerklePath = [], ev_ExtraInfo = [], ev_CompetingTxs = []\<rparr>"

theorem mined_event_needs_proof_witness:
  "\<exists>k' \<in> set (db_KnownTxs (w_db (snd (ProcessExternalTxStatusUpdate ex_mined_env ex_mined_event ex_world)))).
     kt_Status k' = ProvenTxStatusCompleted \<and> proven_by ex_mined_env ex_mined_event (proof_cols k')"
proof -
  obtain r w' where op: "ProcessExternalTxStatusUpdate ex_mined_env ex_mined_event ex_world = (r, w')" by (metis surj_pair)
  have "\<exists>k' \<in> set (db_KnownTxs (w_db (snd (ProcessExternalTxStatusUpdate ex_mined_env ex_mined_event ex_world)))).
      kt_TxID k' = ''bb'' \<and> kt_Status k' = ProvenTxStatusCompleted"
    by (simp add: ProcessExternalTxStatusUpdate_def ex_mined_env_def ex_mined_event_def ex_process_defs isTerminalProvenTxStatus_def
        applyExternalMined_def resolveExternalMerklePath_def merklePathFromServices_def UpdateKnownTxAsMined_def update_where_def
        addTxNotes_def set_transactions_status_def)
  then obtain k' where k': "k' \<in> set (db_KnownTxs (w_db w'))" "kt_Status k' = ProvenTxStatusCompleted" "kt_TxID k' = ''bb''"
    using op by auto
  have "\<not> (\<exists>k \<in> set (db_KnownTxs (w_db ex_world)). proof_cols k = proof_cols k' \<and> kt_Status k = ProvenTxStatusCompleted)"
    using k'(3) by (auto simp: ex_world_def ex_defs proof_cols_def)
  with mined_event_needs_proof [OF op k'(1,2)] k' op show ?thesis by auto
qed

section \<open>The review of failed transactions\<close>

text \<open>A KnownTx that failed for good and whose transaction still spends an output: the review never restores inputs, so
  the row needs a review for ever.\<close>

definition stuck :: "database \<Rightarrow> known_tx_row \<Rightarrow> bool" where
  "stuck db k \<longleftrightarrow> (\<exists>t \<in> set (db_Transactions db). tr_TxID t = Some (kt_TxID k) \<and>
     (\<exists>r \<in> set (db_Outputs db). or_SpentBy r = Some (tr_ID t)))"

definition review_page :: "database \<Rightarrow> known_tx_row list" where
  "review_page db = take 1000 (sort_key kt_CreatedAt
     (filter (\<lambda>k. kt_Status k \<in> set terminalFailureStatuses \<and> needs_failure_review db k) (db_KnownTxs db)))"

text \<open>What reviewing the txids \<open>X\<close> leaves alone: the known transactions, the spent marks, the keys of the transactions and every
  transaction with another txid.\<close>

definition reviewed :: "string set \<Rightarrow> database \<Rightarrow> database \<Rightarrow> bool" where
  "reviewed X db db' \<longleftrightarrow> db_KnownTxs db' = db_KnownTxs db \<and> map or_SpentBy (db_Outputs db') = map or_SpentBy (db_Outputs db) \<and>
     map (\<lambda>t. (tr_ID t, tr_TxID t)) (db_Transactions db') = map (\<lambda>t. (tr_ID t, tr_TxID t)) (db_Transactions db) \<and>
     (distinct (map tr_ID (db_Transactions db)) \<longrightarrow>
       filter (\<lambda>t. tr_TxID t \<notin> Some ` X) (db_Transactions db') = filter (\<lambda>t. tr_TxID t \<notin> Some ` X) (db_Transactions db))"

lemma reviewed_ids: "reviewed X db db' \<Longrightarrow> map tr_ID (db_Transactions db') = map tr_ID (db_Transactions db)"
  unfolding reviewed_def by (metis (no_types, lifting) fst_conv map_cols_proj map_eq_conv)

lemma reviewed_trans: "reviewed X db db' \<Longrightarrow> reviewed X db' db'' \<Longrightarrow> reviewed X db db''"
  using reviewed_ids [of X db db'] by (simp add: reviewed_def)

interpretation reviewing: step_relation "\<lambda>w w'. reviewed X (w_db w) (w_db w')" for X
  by unfold_locales (simp add: reviewed_def, rule reviewed_trans)

lemma filter_update_where: "(\<And>x. x \<in> set xs \<Longrightarrow> Q x \<Longrightarrow> \<not> P x \<and> \<not> P (f x)) \<Longrightarrow> filter P (update_where Q f xs) = filter P xs"
  by (induction xs) (auto simp: update_where_def)

lemma reviewed_status:
  assumes "UpdateTransactionStatusByID i st [] db = Inr (x, db')"
    and "distinct (map tr_ID (db_Transactions db)) \<longrightarrow> (\<forall>t \<in> set (db_Transactions db). tr_ID t = i \<longrightarrow> tr_TxID t \<in> Some ` X)"
  shows "reviewed X db db'"
proof -
  have "filter (\<lambda>t. tr_TxID t \<notin> Some ` X) (update_where (\<lambda>t. tr_ID t = i) (\<lambda>t. t\<lparr>tr_Status := st\<rparr>) (db_Transactions db)) =
      filter (\<lambda>t. tr_TxID t \<notin> Some ` X) (db_Transactions db)" if "distinct (map tr_ID (db_Transactions db))"
    using assms(2) that by (intro filter_update_where) auto
  then show ?thesis
    using assms(1) by (auto simp: UpdateTransactionStatusByID_def reviewed_def Let_def update_where_def split: if_splits)
qed

lemma reviewed_not_spendable: "reviewed X db (MarkCreatedOutputsAsNotSpendable i db)"
  by (auto simp: reviewed_def MarkCreatedOutputsAsNotSpendable_def update_where_def)

lemma reviewed_fail:
  "fail_transactions ids db = Inr (x, db') \<Longrightarrow>
   distinct (map tr_ID (db_Transactions db)) \<longrightarrow> (\<forall>t \<in> set (db_Transactions db). tr_ID t \<in> set ids \<longrightarrow> tr_TxID t \<in> Some ` X) \<Longrightarrow>
   reviewed X db db'"
proof (induction ids arbitrary: db)
  case (Cons i ids)
  from Cons.prems(1) obtain y db1 where u: "UpdateTransactionStatusByID i TxStatusFailed [] db = Inr (y, db1)"
    and rest: "fail_transactions ids (MarkCreatedOutputsAsNotSpendable i db1) = Inr (x, db')" by (auto simp: result_simps)
  let ?db2 = "MarkCreatedOutputsAsNotSpendable i db1"
  have "reviewed X db db1" using Cons.prems(2) by (intro reviewed_status [OF u]) simp
  then have 1: "reviewed X db ?db2" using reviewed_not_spendable by (rule reviewed_trans)
  then have keys: "map (\<lambda>t. (tr_ID t, tr_TxID t)) (db_Transactions ?db2) = map (\<lambda>t. (tr_ID t, tr_TxID t)) (db_Transactions db)"
    by (simp add: reviewed_def)
  have "tr_TxID t \<in> Some ` X" if "t \<in> set (db_Transactions ?db2)" "tr_ID t \<in> set ids" "distinct (map tr_ID (db_Transactions db))" for t
  proof -
    from map_cols_memD [OF keys that(1)] obtain u where "u \<in> set (db_Transactions db)" "(tr_ID u, tr_TxID u) = (tr_ID t, tr_TxID t)" .
    with Cons.prems(2) that(2,3) show ?thesis by (metis list.set_intros(2) prod.inject)
  qed
  then have "reviewed X ?db2 db'" using reviewed_ids [OF 1] by (intro Cons.IH [OF rest]) (simp del: map_map)
  with 1 show ?case by (rule reviewed_trans)
qed (simp add: reviewed_def)

lemma reviewed_one: "review_one txID db = Inr (x, db') \<Longrightarrow> txID \<in> X \<Longrightarrow> reviewed X db db'"
  unfolding review_one_def
  by (rule reviewed_fail, assumption) (auto simp: FindTransactionIDsByTxID_def distinct_map inj_on_def)

lemma reviewed_page:
  assumes "\<And>item. item \<in> set items \<Longrightarrow> kts_TxID item \<in> X"
  shows "reviewed X (w_db w) (w_db (snd (wfor (\<lambda>item. wtx (review_one (kts_TxID item))) items w)))"
  using assms
proof (induction items arbitrary: w)
  case (Cons item items)
  have "reviewed X (w_db w) (w_db (snd (wtx (review_one (kts_TxID item)) w)))" for w
    using reviewed_one Cons.prems by (auto simp: wtx_def in_db_tx_def reviewed_def split: sum.splits prod.splits)
  with Cons show ?case unfolding wfor.simps
    by (intro reviewing.bind_at) (auto simp: wreturn_def reviewed_def)
qed (simp add: wreturn_def reviewed_def)

lemma stuck_needs_review: "stuck db k \<Longrightarrow> needs_failure_review db k"
  by (auto simp: stuck_def needs_failure_review_def)

lemma reviewed_stuck:
  assumes r: "reviewed X db db'" and "stuck db k"
  shows "stuck db' k"
proof -
  from assms(2) obtain t o1 where t: "t \<in> set (db_Transactions db)" "tr_TxID t = Some (kt_TxID k)"
    and o1: "o1 \<in> set (db_Outputs db)" "or_SpentBy o1 = Some (tr_ID t)" by (auto simp: stuck_def)
  from r have keys: "map (\<lambda>t. (tr_ID t, tr_TxID t)) (db_Transactions db) = map (\<lambda>t. (tr_ID t, tr_TxID t)) (db_Transactions db')"
    and spent: "map or_SpentBy (db_Outputs db) = map or_SpentBy (db_Outputs db')" by (simp_all add: reviewed_def)
  from map_cols_memD [OF keys t(1)] obtain t' where "t' \<in> set (db_Transactions db')" "(tr_ID t', tr_TxID t') = (tr_ID t, tr_TxID t)" .
  moreover from map_cols_memD [OF spent o1(1)] obtain o2 where "o2 \<in> set (db_Outputs db')" "or_SpentBy o2 = or_SpentBy o1" .
  ultimately show ?thesis using t o1 unfolding stuck_def by (metis prod.inject)
qed

text \<open>Reviewing stuck rows changes nothing about which rows need a review.\<close>

lemma reviewed_needs:
  assumes r: "reviewed X db db'" and dist: "distinct (map tr_ID (db_Transactions db))"
    and "\<And>k. kt_TxID k \<in> X \<Longrightarrow> stuck db k"
  shows "needs_failure_review db' k = needs_failure_review db k"
proof (cases "kt_TxID k \<in> X")
  case True
  with assms(3) [OF True] reviewed_stuck [OF r] show ?thesis by (auto intro: stuck_needs_review)
next
  case False
  have "filter (\<lambda>t. tr_TxID t \<notin> Some ` X) (db_Transactions db') = filter (\<lambda>t. tr_TxID t \<notin> Some ` X) (db_Transactions db)"
    using r dist by (simp add: reviewed_def)
  from arg_cong [OF this, of set] False
  have "t \<in> set (db_Transactions db') \<longleftrightarrow> t \<in> set (db_Transactions db)" if "tr_TxID t = Some (kt_TxID k)" for t
    using that by auto
  moreover have "(\<exists>r \<in> set (db_Outputs db'). or_SpentBy r = Some i) \<longleftrightarrow> (\<exists>r \<in> set (db_Outputs db). or_SpentBy r = Some i)" for i
  proof -
    have "(\<exists>r \<in> set outs. or_SpentBy r = Some i) \<longleftrightarrow> Some i \<in> set (map or_SpentBy outs)" for outs :: "output_row list"
      by (auto simp: image_iff) (metis)
    then show ?thesis using r by (simp add: reviewed_def del: set_map)
  qed
  ultimately show ?thesis unfolding needs_failure_review_def by blast
qed

lemma page_items:
  "FindKnownTxIDsByStatusesNeedingFailureReview terminalFailureStatuses (int reviewKnownTxStatusesPerPage) db =
     mapKnownTxRowsForStatusSync (review_page db)"
  by (simp add: FindKnownTxIDsByStatusesNeedingFailureReview_def review_page_def terminalFailureStatuses_def
      reviewKnownTxStatusesPerPage_def)

lemma stuck_txid: "stuck db k \<Longrightarrow> kt_TxID k' = kt_TxID k \<Longrightarrow> stuck db k'"
  by (simp add: stuck_def)

lemma review_pages_stuck:
  assumes "distinct (map tr_ID (db_Transactions (w_db w)))" and "\<forall>k \<in> set (review_page (w_db w)). stuck (w_db w) k"
  shows "reviewed (kt_TxID ` set (review_page (w_db w))) (w_db w) (w_db (snd (review_pages left w)))"
  using assms
proof (induction left arbitrary: w)
  case (Suc left)
  let ?page = "review_page (w_db w)" and ?X = "kt_TxID ` set (review_page (w_db w))"
  let ?items = "mapKnownTxRowsForStatusSync ?page"
  let ?loop = "wfor (\<lambda>item. wtx (review_one (kts_TxID item))) ?items"
  have R: "reviewed ?X (w_db w) (w_db (snd (?loop w)))"
    by (rule reviewed_page) (auto simp: mapKnownTxRowsForStatusSync_def)
  let ?w = "snd (?loop w)"
  have st: "stuck (w_db w) k" if "kt_TxID k \<in> ?X" for k using that Suc.prems(2) stuck_txid by (auto simp del: set_map)
  have page: "review_page (w_db ?w) = ?page"
    using R reviewed_needs [OF R Suc.prems(1) st] by (simp add: review_page_def reviewed_def)
  have "reviewed ?X (w_db ?w) (w_db (snd (review_pages left ?w)))"
    using Suc.IH [of ?w] page reviewed_ids [OF R] reviewed_stuck [OF R] Suc.prems by simp
  with R have "reviewed ?X (w_db w) (w_db (snd (review_pages left ?w)))" by (rule reviewed_trans)
  with R show ?case
    by (auto simp: page_items wbind_def wread_def wreturn_def reviewed_def split: prod.splits sum.splits)
qed (simp add: wreturn_def reviewed_def)

lemma reviews_stuck:
  assumes "distinct (map tr_ID (db_Transactions (w_db w)))" and "\<forall>k \<in> set (review_page (w_db w)). stuck (w_db w) k"
  shows "reviewed (kt_TxID ` set (review_page (w_db w))) (w_db w) (w_db (((\<lambda>w. snd (reviewKnownTxStatuses w)) ^^ n) w))"
proof (induction n)
  case (Suc n)
  let ?w = "((\<lambda>w. snd (reviewKnownTxStatuses w)) ^^ n) w" and ?X = "kt_TxID ` set (review_page (w_db w))"
  have st: "stuck (w_db w) k" if "kt_TxID k \<in> ?X" for k using that assms(2) stuck_txid by (auto simp del: set_map)
  have page: "review_page (w_db ?w) = review_page (w_db w)"
    using Suc reviewed_needs [OF Suc assms(1) st] by (simp add: review_page_def reviewed_def)
  have "reviewed ?X (w_db ?w) (w_db (snd (reviewKnownTxStatuses ?w)))"
    using review_pages_stuck [of ?w reviewKnownTxStatusesMaxPages] page reviewed_ids [OF Suc] reviewed_stuck [OF Suc] assms
    by (simp add: reviewKnownTxStatuses_def)
  with Suc show ?case by (simp add: reviewed_trans)
qed (simp add: reviewed_def)

text \<open>The review of failed transactions can starve: when the oldest thousand failed transactions still spend outputs, which the
  review never gives back, it revisits exactly these in every round of every run, and the transaction rows of all younger failures keep
  their status for ever.\<close>

theorem failure_review_starves:
  assumes "distinct (map tr_ID (db_Transactions (w_db w)))" and "\<forall>k \<in> set (review_page (w_db w)). stuck (w_db w) k"
    and "t \<in> set (db_Transactions (w_db w))" and "tr_TxID t = Some x" and "x \<notin> kt_TxID ` set (review_page (w_db w))"
  shows "t \<in> set (db_Transactions (w_db (((\<lambda>w. snd (reviewKnownTxStatuses w)) ^^ n) w)))"
proof -
  let ?X = "kt_TxID ` set (review_page (w_db w))" and ?db = "w_db (((\<lambda>w. snd (reviewKnownTxStatuses w)) ^^ n) w)"
  have "filter (\<lambda>t. tr_TxID t \<notin> Some ` ?X) (db_Transactions ?db) = filter (\<lambda>t. tr_TxID t \<notin> Some ` ?X) (db_Transactions (w_db w))"
    using reviews_stuck [OF assms(1,2), of n] assms(1) by (simp add: reviewed_def)
  moreover have "t \<in> set (filter (\<lambda>t. tr_TxID t \<notin> Some ` ?X) (db_Transactions (w_db w)))" using assms(3-5) by auto
  ultimately have "t \<in> set (filter (\<lambda>t. tr_TxID t \<notin> Some ` ?X) (db_Transactions ?db))" by metis
  then show ?thesis by simp
qed

text \<open>A thousand failed transactions whose inputs stay spent, and one that failed later while its row is still in flight.\<close>

definition ex_txid :: "nat \<Rightarrow> string" where
  "ex_txid i = replicate i (CHR ''x'')"

definition ex_failed_db :: database where
  "ex_failed_db = (empty_database 0)\<lparr>
     db_Transactions := map (\<lambda>i. ex_tx i (if i < 1000 then TxStatusFailed else TxStatusUnproven) (ex_txid i) (Some (ex_txid i))) [0..<1001],
     db_Outputs := map (\<lambda>i. ex_out i 0 (Some i) 1) [0..<1001],
     db_KnownTxs := map (\<lambda>i. (ex_known (ex_txid i) ProvenTxStatusInvalid True)\<lparr>kt_CreatedAt := int i\<rparr>) [0..<1001]\<rparr>"

lemma ex_txid_inj: "ex_txid i = ex_txid j \<longleftrightarrow> i = j"
  by (metis ex_txid_def length_replicate)

lemma ex_failed_stuck: "i < 1001 \<Longrightarrow> stuck ex_failed_db ((ex_known (ex_txid i) ProvenTxStatusInvalid True)\<lparr>kt_CreatedAt := c\<rparr>)"
  unfolding stuck_def
  by (rule bexI [of _ "ex_tx i (if i < 1000 then TxStatusFailed else TxStatusUnproven) (ex_txid i) (Some (ex_txid i))"])
    (auto simp: ex_failed_db_def ex_tx_def ex_out_def ex_known_def)

lemma ex_failed_page:
  "review_page ex_failed_db = map (\<lambda>i. (ex_known (ex_txid i) ProvenTxStatusInvalid True)\<lparr>kt_CreatedAt := int i\<rparr>) [0..<1000]"
proof -
  let ?row = "\<lambda>i. (ex_known (ex_txid i) ProvenTxStatusInvalid True)\<lparr>kt_CreatedAt := int i\<rparr>"
  have "filter (\<lambda>k. kt_Status k \<in> set terminalFailureStatuses \<and> needs_failure_review ex_failed_db k) (map ?row [0..<1001]) = map ?row [0..<1001]"
    by (auto simp: filter_id_conv terminalFailureStatuses_def ex_known_def intro!: stuck_needs_review ex_failed_stuck [unfolded ex_known_def])
  moreover have "db_KnownTxs ex_failed_db = map ?row [0..<1001]" by (simp add: ex_failed_db_def)
  moreover have "sort_key kt_CreatedAt (map ?row [0..<1001]) = map ?row [0..<1001]"
    by (rule sort_key_id_if_sorted) (simp add: comp_def sorted_map)
  ultimately show ?thesis by (simp only: review_page_def take_map take_upt) simp
qed

theorem failure_review_starves_witness:
  "ex_tx 1000 TxStatusUnproven (ex_txid 1000) (Some (ex_txid 1000)) \<in>
     set (db_Transactions (w_db (((\<lambda>w. snd (reviewKnownTxStatuses w)) ^^ 5) (ex_world\<lparr>w_db := ex_failed_db\<rparr>))))"
proof (rule failure_review_starves)
  let ?w = "ex_world\<lparr>w_db := ex_failed_db\<rparr>"
  show "distinct (map tr_ID (db_Transactions (w_db ?w)))" by (simp add: ex_failed_db_def ex_tx_def comp_def distinct_map)
  show "\<forall>k \<in> set (review_page (w_db ?w)). stuck (w_db ?w) k" by (auto simp: ex_failed_page intro!: ex_failed_stuck)
  show "ex_tx 1000 TxStatusUnproven (ex_txid 1000) (Some (ex_txid 1000)) \<in> set (db_Transactions (w_db ?w))"
    by (auto simp: ex_failed_db_def image_iff intro!: bexI [of _ 1000])
  show "tr_TxID (ex_tx 1000 TxStatusUnproven (ex_txid 1000) (Some (ex_txid 1000))) = Some (ex_txid 1000)" by (simp add: ex_tx_def)
  show "ex_txid 1000 \<notin> kt_TxID ` set (review_page (w_db ?w))"
    by (auto simp: ex_failed_page ex_known_def ex_txid_inj)
qed

end
