(* ===== verification/Beef_Correct.thy ===== *)
theory Beef_Correct
  imports Beef Storage_Inv
begin

text \<open>
  The builder of BEEF data: reading rows ahead changes nothing but the number of queries, and what is built contains the
  ancestry of its subjects.
\<close>

section \<open>Reading ahead\<close>

text \<open>What was read ahead is what a query would find; of a trusted row only its existence matters.\<close>

definition pre_ok :: "database \<Rightarrow> get_beef_options \<Rightarrow> (string \<rightharpoonup> known_tx_row) \<Rightarrow> bool" where
  "pre_ok db o' pre \<longleftrightarrow> (\<forall>x m. pre x = Some m \<longrightarrow>
     (if TrustsSelfAsKnown o' then FindKnownTx db o' x \<noteq> None else FindKnownTx db o' x = Some m))"

lemma find_keyed:
  assumes "distinct (map f xs)" and "x \<in> set xs" and "P x"
  shows "find (\<lambda>y. f y = f x \<and> P y) xs = Some x"
  using assms by (induction xs) auto

lemma FindKnownTx_eq:
  assumes "distinct (map kt_TxID (db_KnownTxs db))" and "k \<in> set (db_KnownTxs db)" and "visible o' k"
  shows "FindKnownTx db o' (kt_TxID k) = Some k"
  using find_keyed [where P = "visible o'", OF assms] by (simp add: FindKnownTx_def)

lemma fold_upd_mem:
  "fold (\<lambda>m d. d(f m \<mapsto> g m)) ms dst x = Some y \<Longrightarrow> dst x = Some y \<or> (\<exists>m \<in> set ms. x = f m \<and> y = g m)"
proof (induction ms arbitrary: dst)
  case (Cons m ms)
  from Cons.IH [of "dst(f m \<mapsto> g m)"] Cons.prems show ?case by (auto split: if_splits)
qed simp

lemma preFetchInto_ok:
  assumes "pre_ok db o' dst" and "distinct (map kt_TxID (db_KnownTxs db))" and "\<not> TrustsSelfAsKnown o'"
  shows "pre_ok db o' (snd (preFetchInto db o' txIDs dst))"
  using assms by (auto simp: pre_ok_def preFetchInto_def Let_def dest!: fold_upd_mem intro: FindKnownTx_eq)

lemma generations_ok:
  assumes "distinct (map kt_TxID (db_KnownTxs db))" and "\<not> TrustsSelfAsKnown o'"
  shows "pre_ok db o' dst \<Longrightarrow> pre_ok db o' (generations left sdk db o' depth frontier dst)"
proof (induction left arbitrary: depth frontier dst)
  case (Suc left)
  have "pre_ok db o' (snd (preFetchInto db o' frontier dst))" by (rule preFetchInto_ok [OF Suc.prems assms])
  with Suc show ?case by (auto simp: Let_def split: prod.splits)
qed simp

lemma preFetchAncestry_ok:
  assumes "distinct (map kt_TxID (db_KnownTxs db))"
  shows "pre_ok db o' (preFetchAncestry sdk db o' seedIDs Map.empty)"
proof (cases "TrustsSelfAsKnown o'")
  case True
  with assms show ?thesis
    by (auto simp: pre_ok_def preFetchAncestry_def preFetchExistence_def Let_def dest!: fold_upd_mem dest: FindKnownTx_eq)
next
  case False
  with assms generations_ok [of db o' Map.empty] show ?thesis by (simp add: preFetchAncestry_def Let_def pre_ok_def)
qed

lemma find_model_pre:
  assumes "pre_ok db o' pre"
  obtains "find_model sdk db o' pre txID = find_model sdk db o' Map.empty txID"
  | m m' where "TrustsSelfAsKnown o'" "find_model sdk db o' pre txID = Inr (m, True)"
      "find_model sdk db o' Map.empty txID = Inr (m', True)"
  using assms by (cases "pre txID"; cases "TrustsSelfAsKnown o'") (fastforce simp: find_model_def pre_ok_def)+

lemma build_pre:
  assumes "pre_ok db o' pre" and "\<not> gb_DirectSourcesOnly o'"
  shows "recursiveBuildValidBEEF sdk db o' pre depth txID s = recursiveBuildValidBEEF sdk db o' Map.empty depth txID s"
    and "build_inputs sdk db o' pre depth inputs s = build_inputs sdk db o' Map.empty depth inputs s"
  using assms
proof (induction sdk db o' pre depth txID s and sdk db o' pre depth inputs s
    rule: recursiveBuildValidBEEF_build_inputs.induct)
  case (1 sdk db o' pre depth txID s)
  have needs: "needsInputBEEF o' p tx" for p tx using "1.prems" by (simp add: needsInputBEEF_def)
  from "1.prems"(1) show ?case
  proof (cases rule: find_model_pre [where sdk = sdk and txID = txID])
    case 1
    show ?thesis unfolding recursiveBuildValidBEEF.simps [of sdk db o' _ depth txID s] 1
      using "1.IH" "1.prems" needs by (auto simp: Let_def 1 intro!: rbind_cong split: option.split)
  next
    case (2 m m')
    then show ?thesis by (simp add: recursiveBuildValidBEEF.simps [of sdk db o' _ depth txID s])
  qed
next
  case (2 sdk db o' pre depth inputs s)
  then show ?case by (auto simp: build_inputs.simps [of sdk db o' _ depth inputs s] intro!: rbind_cong split: list.split option.split)
qed

section \<open>Completeness\<close>

definition tx_of :: "sdk_beef \<Rightarrow> string \<Rightarrow> full_tx option" where
  "tx_of b x = Option.bind (beef_entry b x) bt_Transaction"

definition sources :: "full_tx \<Rightarrow> string set" where
  "sources tx = {s. \<exists>input \<in> set (ft_Inputs tx). in_SourceTXID input = Some s}"

text \<open>A transaction is anchored in a BEEF by its proof, or by all its sources being there.\<close>

definition anchored :: "sdk_beef \<Rightarrow> full_tx \<Rightarrow> bool" where
  "anchored b tx \<longleftrightarrow> ft_MerklePath tx \<noteq> None \<or> (\<forall>s \<in> sources tx. tx_of b s \<noteq> None)"

definition dangling :: "sdk_beef \<Rightarrow> string set" where
  "dangling b = {x. \<exists>tx. tx_of b x = Some tx \<and> \<not> anchored b tx}"

text \<open>Only a bare txid has no transaction, and a txid determines the sources: \<open>inp\<close> gives them.\<close>

definition formed :: "(string \<Rightarrow> string set) \<Rightarrow> sdk_beef \<Rightarrow> bool" where
  "formed inp b \<longleftrightarrow> (\<forall>x tx. tx_of b x = Some tx \<longrightarrow> sources tx = inp x) \<and> (\<forall>x e. beef_entry b x = Some e \<longrightarrow> bt_DataFormat e \<noteq> TxIDOnly \<longrightarrow> bt_Transaction e \<noteq> None)"

text \<open>Entries stay, with their inputs; and what has a proof keeps one, with the exception of the entry that is replaced.\<close>

definition extends :: "sdk_beef \<Rightarrow> sdk_beef \<Rightarrow> bool" where
  "extends b b' \<longleftrightarrow> (\<forall>x tx. tx_of b x = Some tx \<longrightarrow> (\<exists>tx'. tx_of b' x = Some tx' \<and> sources tx' = sources tx))"

definition keeps_proofs :: "string set \<Rightarrow> sdk_beef \<Rightarrow> sdk_beef \<Rightarrow> bool" where
  "keeps_proofs X b b' \<longleftrightarrow> (\<forall>x tx tx'. x \<notin> X \<longrightarrow> tx_of b x = Some tx \<longrightarrow> tx_of b' x = Some tx' \<longrightarrow>
     ft_MerklePath tx \<noteq> None \<longrightarrow> ft_MerklePath tx' \<noteq> None)"

definition adds_only :: "string set \<Rightarrow> sdk_beef \<Rightarrow> sdk_beef \<Rightarrow> bool" where
  "adds_only X b b' \<longleftrightarrow> (\<forall>x. x \<notin> X \<longrightarrow> tx_of b x = None \<longrightarrow> tx_of b' x = None)"

text \<open>The documented behaviour of the container: merging keeps what is there, a merged transaction is there
  afterwards, and only a bare txid has no transaction.\<close>

definition beef_sdk_ok :: "(string \<Rightarrow> string set) \<Rightarrow> beef_sdk \<Rightarrow> bool" where
  "beef_sdk_ok inp sdk \<longleftrightarrow>
     (\<forall>raw tx. bs_NewTransactionFromBytes sdk raw = Inr tx \<longrightarrow> sources tx = inp (ft_TxID tx)) \<and>
     (\<forall>raw tx b b'. bs_NewTransactionFromBytes sdk raw = Inr tx \<longrightarrow> bs_MergeRawTx sdk raw b = Inr b' \<longrightarrow> formed inp b \<longrightarrow>
        formed inp b' \<and> extends b b' \<and> keeps_proofs {ft_TxID tx} b b' \<and> adds_only {ft_TxID tx} b b' \<and>
        (\<exists>tx'. tx_of b' (ft_TxID tx) = Some tx' \<and> sources tx' = sources tx)) \<and>
     (\<forall>p tx tx'. bs_AddMerkleProof sdk p tx = Inr tx' \<longrightarrow> ft_TxID tx' = ft_TxID tx \<and> sources tx' = sources tx \<and> ft_MerklePath tx' \<noteq> None) \<and>
     (\<forall>tx b b'. bs_MergeTransaction sdk tx b = Inr b' \<longrightarrow> ft_MerklePath tx \<noteq> None \<longrightarrow> sources tx = inp (ft_TxID tx) \<longrightarrow> formed inp b \<longrightarrow>
        formed inp b' \<and> extends b b' \<and> keeps_proofs {ft_TxID tx} b b' \<and> adds_only {ft_TxID tx} b b' \<and>
        (\<exists>tx'. tx_of b' (ft_TxID tx) = Some tx' \<and> ft_MerklePath tx' \<noteq> None)) \<and>
     (\<forall>bs b b'. bs_MergeBeefBytes sdk bs b = Inr b' \<longrightarrow> formed inp b \<longrightarrow> formed inp b' \<and> extends b b' \<and> keeps_proofs {} b b') \<and>
     (\<forall>b x. bs_FindTransaction sdk b x = tx_of b x)"

text \<open>The stored rows: the raw transaction hashes to the key of its row, and the input BEEF brings its own ancestry.\<close>

definition row_complete :: "(string \<Rightarrow> string set) \<Rightarrow> beef_sdk \<Rightarrow> known_tx_row \<Rightarrow> bool" where
  "row_complete inp sdk k \<longleftrightarrow>
     (\<forall>raw tx. kt_RawTx k = Some raw \<longrightarrow> bs_NewTransactionFromBytes sdk raw = Inr tx \<longrightarrow> ft_TxID tx = kt_TxID k) \<and>
     (\<forall>bs b b'. kt_InputBeef k = Some bs \<longrightarrow> bs_MergeBeefBytes sdk bs b = Inr b' \<longrightarrow> formed inp b \<longrightarrow>
        (\<forall>x tx. tx_of b x = None \<longrightarrow> tx_of b' x = Some tx \<longrightarrow> anchored b' tx))"

lemma extends_refl [simp]: "extends b b" by (simp add: extends_def)

lemma extends_trans: "extends b c \<Longrightarrow> extends c d \<Longrightarrow> extends b d"
  unfolding extends_def by metis

lemma extends_present: "extends b b' \<Longrightarrow> tx_of b x \<noteq> None \<Longrightarrow> tx_of b' x \<noteq> None"
  unfolding extends_def by fastforce

lemma dangling_merge:
  assumes "extends b b'" "keeps_proofs X b b'" and new: "\<And>x tx. tx_of b x = None \<Longrightarrow> tx_of b' x = Some tx \<Longrightarrow> x \<in> X \<or> anchored b' tx"
  shows "dangling b' \<subseteq> dangling b \<union> X"
proof
  fix x assume "x \<in> dangling b'"
  then obtain tx' where tx': "tx_of b' x = Some tx'" "\<not> anchored b' tx'" by (auto simp: dangling_def)
  show "x \<in> dangling b \<union> X"
  proof (rule ccontr)
    assume out: "x \<notin> dangling b \<union> X"
    with new tx' obtain tx where tx: "tx_of b x = Some tx" by (cases "tx_of b x") auto
    with out have "anchored b tx" by (auto simp: dangling_def)
    moreover have "sources tx' = sources tx" using assms(1) tx tx'(1) unfolding extends_def by fastforce
    moreover have "ft_MerklePath tx \<noteq> None \<Longrightarrow> ft_MerklePath tx' \<noteq> None"
      using assms(2) tx tx'(1) out unfolding keeps_proofs_def by blast
    ultimately have "anchored b' tx'" using extends_present [OF assms(1)] by (auto simp: anchored_def)
    with tx'(2) show False ..
  qed
qed

text \<open>What a part of the build achieves: nothing is lost, nothing new dangles, and \<open>X\<close> is there.\<close>

definition built :: "(string \<Rightarrow> string set) \<Rightarrow> string set \<Rightarrow> sdk_beef \<Rightarrow> sdk_beef \<Rightarrow> bool" where
  "built inp X b b' \<longleftrightarrow> formed inp b' \<and> extends b b' \<and> dangling b' \<subseteq> dangling b \<and> (\<forall>x \<in> X. tx_of b' x \<noteq> None)"

lemma built_trans: "built inp X b c \<Longrightarrow> built inp Y c d \<Longrightarrow> built inp (X \<union> Y) b d"
  unfolding built_def using extends_trans extends_present by blast

lemma merge_proven_built:
  assumes sdk: "beef_sdk_ok inp sdk" and "merge_proven sdk model tx b = Inr b'" and "formed inp b"
    and "bs_NewTransactionFromBytes sdk raw = Inr tx"
  shows "built inp {ft_TxID tx} b b'"
proof -
  from assms(2) obtain p tx1 where tx1: "bs_AddMerkleProof sdk p tx = Inr tx1" "bs_MergeTransaction sdk tx1 b = Inr b'"
    by (auto simp: merge_proven_def result_simps)
  from sdk tx1(1) have id: "ft_TxID tx1 = ft_TxID tx" "ft_MerklePath tx1 \<noteq> None" "sources tx1 = sources tx"
    unfolding beef_sdk_ok_def by blast+
  have "sources tx = inp (ft_TxID tx)" using sdk assms(4) unfolding beef_sdk_ok_def by metis
  with id have src: "sources tx1 = inp (ft_TxID tx1)" by simp
  have m: "formed inp b'" "extends b b'" "keeps_proofs {ft_TxID tx1} b b'" "adds_only {ft_TxID tx1} b b'"
      "\<exists>tx'. tx_of b' (ft_TxID tx1) = Some tx' \<and> ft_MerklePath tx' \<noteq> None"
    using sdk tx1(2) id(2) src assms(3) unfolding beef_sdk_ok_def by blast+
  have "dangling b' \<subseteq> dangling b \<union> {ft_TxID tx}"
    using dangling_merge [OF m(2,3)] m(4) id by (fastforce simp: adds_only_def)
  moreover have "ft_TxID tx \<notin> dangling b'" using m(5) id by (auto simp: dangling_def anchored_def)
  ultimately show ?thesis using m id by (auto simp: built_def)
qed

lemma merge_input_beef_built:
  assumes sdk: "beef_sdk_ok inp sdk" and "row_complete inp sdk model" and "merge_input_beef sdk model b = Inr b'" and "formed inp b"
  shows "built inp {} b b'"
proof (cases "kt_InputBeef model = None \<or> kt_InputBeef model = Some []")
  case True
  with assms show ?thesis by (auto simp: merge_input_beef_def built_def)
next
  case False
  with assms(3) obtain bs where bs: "kt_InputBeef model = Some bs" "bs_MergeBeefBytes sdk bs b = Inr b'"
    by (auto simp: merge_input_beef_def split: if_splits)
  have m: "formed inp b'" "extends b b'" "keeps_proofs {} b b'" using sdk bs(2) assms(4) unfolding beef_sdk_ok_def by blast+
  from assms(2,4) bs have "\<And>x tx. tx_of b x = None \<Longrightarrow> tx_of b' x = Some tx \<Longrightarrow> anchored b' tx"
    unfolding row_complete_def by blast
  from dangling_merge [OF m(2,3)] this have "dangling b' \<subseteq> dangling b" by blast
  with m show ?thesis by (simp add: built_def)
qed

lemma merge_raw_built:
  assumes sdk: "beef_sdk_ok inp sdk" and tx: "bs_NewTransactionFromBytes sdk raw = Inr tx" and "bs_MergeRawTx sdk raw b = Inr b'" and "formed inp b"
  shows "formed inp b'" "extends b b'" "dangling b' \<subseteq> dangling b \<union> {ft_TxID tx}"
    and "\<exists>tx'. tx_of b' (ft_TxID tx) = Some tx' \<and> sources tx' = sources tx"
proof -
  have m: "formed inp b'" "extends b b'" "keeps_proofs {ft_TxID tx} b b'" "adds_only {ft_TxID tx} b b'"
      "\<exists>tx'. tx_of b' (ft_TxID tx) = Some tx' \<and> sources tx' = sources tx"
    using sdk tx assms(3,4) unfolding beef_sdk_ok_def by blast+
  show "formed inp b'" "extends b b'" "\<exists>tx'. tx_of b' (ft_TxID tx) = Some tx' \<and> sources tx' = sources tx" by (rule m(1,2,5))+
  show "dangling b' \<subseteq> dangling b \<union> {ft_TxID tx}" using dangling_merge [OF m(2,3)] m(4) by (fastforce simp: adds_only_def)
qed

text \<open>The subject, its input BEEF and its sources.\<close>

lemma subject_built:
  assumes raw: "formed inp b1" "extends b b1" "dangling b1 \<subseteq> dangling b \<union> {t}" "tx_of b1 t = Some tx'" "sources tx' = sources tx"
    and "built inp {} b1 b2" and "built inp S b2 b3" and "ft_MerklePath (the (tx_of b2 t)) = None \<longrightarrow> sources tx \<subseteq> S"
    and "ft_MerklePath (the (tx_of b2 t)) \<noteq> None \<longrightarrow> b3 = b2"
  shows "built inp {t} b b3"
proof -
  have "extends b1 b2" "extends b2 b3" using assms(6,7) by (simp_all add: built_def)
  then obtain tx2 tx3 where tx2: "tx_of b2 t = Some tx2" "sources tx2 = sources tx" and tx3: "tx_of b3 t = Some tx3" "sources tx3 = sources tx"
    using raw(4,5) unfolding extends_def by metis
  have "t \<notin> dangling b3"
  proof (cases "ft_MerklePath tx2 = None")
    case True
    with assms(7,8) tx2 have "\<forall>s \<in> sources tx. tx_of b3 s \<noteq> None" by (auto simp: built_def)
    with tx3 show ?thesis by (auto simp: dangling_def anchored_def)
  next
    case False
    with assms(9) tx2 show ?thesis by (auto simp: dangling_def anchored_def)
  qed
  moreover have "dangling b3 \<subseteq> dangling b \<union> {t}" using assms(3,6,7) by (auto simp: built_def)
  moreover have "extends b b3" using raw(2) \<open>extends b1 b2\<close> \<open>extends b2 b3\<close> extends_trans by blast
  ultimately show ?thesis using assms(7) tx3 by (auto simp: built_def)
qed

text \<open>A build that promises the whole ancestry: nothing is left out on trust, and storage is the only source.\<close>

definition whole :: "get_beef_options \<Rightarrow> bool" where
  "whole o' \<longleftrightarrow> gb_KnownTxIDsSet o' = None \<and> \<not> TrustsSelfAsKnown o' \<and> \<not> gb_DirectSourcesOnly o' \<and> gb_TxGetterFcn o' = None"

definition rows_complete :: "(string \<Rightarrow> string set) \<Rightarrow> beef_sdk \<Rightarrow> database \<Rightarrow> bool" where
  "rows_complete inp sdk db \<longleftrightarrow> (\<forall>k \<in> set (db_KnownTxs db). row_complete inp sdk k)"

lemma whole_model:
  assumes "whole o'" and "rows_complete inp sdk db" and "find_model sdk db o' Map.empty txID = Inr (model, stored)"
  shows "stored" "row_complete inp sdk model" "kt_TxID model = txID"
  using assms by (auto simp: whole_def find_model_def rows_complete_def FindKnownTx_def find_Some_iff split: option.splits)

lemma whole_buildE:
  assumes "recursiveBuildValidBEEF sdk db o' Map.empty depth txID s = Inr s'" and o': "whole o'" and rows: "rows_complete inp sdk db"
  obtains model raw tx where "row_complete inp sdk model" "bs_NewTransactionFromBytes sdk raw = Inr tx" "ft_TxID tx = txID"
      "merge_proven sdk model tx (fst s) = Inr (fst s')"
  | model raw tx b1 b2 sub where "\<not> maxDepthOfRecursion < depth" "row_complete inp sdk model"
      "find_model sdk db o' Map.empty txID = Inr (model, True)" "kt_RawTx model = Some raw"
      "bs_NewTransactionFromBytes sdk raw = Inr tx" "ft_TxID tx = txID"
      "\<not> (HasMerklePath model \<and> \<not> (0 < gb_MinProofLevel o' \<and> int depth < gb_MinProofLevel o'))"
      "bs_MergeRawTx sdk raw (fst s) = Inr b1" "merge_input_beef sdk model b1 = Inr b2" "bs_FindTransaction sdk b2 txID = Some sub"
      "if ft_MerklePath sub \<noteq> None then s' = (b2, snd s)
        else build_inputs sdk db o' Map.empty (depth + 1) (ft_Inputs tx) (b2, snd s) = Inr s'"
proof -
  have plain: "\<not> IsKnownTxID o' txID" "\<not> TrustsSelfAsKnown o'" "\<not> gb_DirectSourcesOnly o'" "\<And>tx. needsInputBEEF o' Map.empty tx"
    using o' by (auto simp: whole_def IsKnownTxID_def needsInputBEEF_def)
  note eq = assms(1) [unfolded recursiveBuildValidBEEF.simps [of sdk db o' Map.empty depth txID s]]
  from eq plain have d: "\<not> maxDepthOfRecursion < depth" by auto
  from eq plain d obtain model stored where m: "find_model sdk db o' Map.empty txID = Inr (model, stored)"
    by (auto simp: rbind_eq_Inr)
  note model = whole_model [OF o' rows m]
  from eq plain d m model obtain raw where raw: "kt_RawTx model = Some raw" by (cases "kt_RawTx model") (auto simp: Let_def)
  from eq plain d m model raw obtain tx where tx: "bs_NewTransactionFromBytes sdk raw = Inr tx" by (auto simp: Let_def rbind_eq_Inr)
  from model raw tx have id: "ft_TxID tx = txID" by (auto simp: row_complete_def)
  show thesis
  proof (cases "HasMerklePath model \<and> \<not> (0 < gb_MinProofLevel o' \<and> int depth < gb_MinProofLevel o')")
    case True
    with eq d plain raw tx model m have "merge_proven sdk model tx (fst s) = Inr (fst s')"
      by (auto simp: rbind_eq_Inr Let_def)
    with that(1) model tx id show thesis by blast
  next
    case False
    with eq d plain raw tx model m obtain b1 b2 where b1: "bs_MergeRawTx sdk raw (fst s) = Inr b1"
      and b2: "merge_input_beef sdk model b1 = Inr b2" by (auto simp: rbind_eq_Inr Let_def)
    with eq d plain raw tx model m False obtain sub where "bs_FindTransaction sdk b2 txID = Some sub"
      "if ft_MerklePath sub \<noteq> None then s' = (b2, snd s)
        else build_inputs sdk db o' Map.empty (depth + 1) (ft_Inputs tx) (b2, snd s) = Inr s'"
      by (cases "bs_FindTransaction sdk b2 txID") (auto simp: rbind_eq_Inr Let_def split: if_splits)
    moreover have "find_model sdk db o' Map.empty txID = Inr (model, True)" using m model(1) by simp
    ultimately show thesis using that(2) d model(2) raw tx id False b1 b2 by blast
  qed
qed

lemma build_inputs_Cons:
  assumes "build_inputs sdk db o' pre depth (i # rest) s = Inr s'" and "formed inp (fst s)"
  obtains src s1 where "in_SourceTXID i = Some src" "recursiveBuildValidBEEF sdk db o' pre depth src s = Inr s1"
      "build_inputs sdk db o' pre depth rest s1 = Inr s'"
  | src where "in_SourceTXID i = Some src" "tx_of (fst s) src \<noteq> None" "build_inputs sdk db o' pre depth rest s = Inr s'"
  using assms by (auto simp: build_inputs.simps [of sdk db o' pre depth "i # rest"] rbind_eq_Inr formed_def tx_of_def
      split: option.splits if_splits)

text \<open>The induction is on the depth that is left, and inside of it on the inputs.\<close>

lemma build_complete:
  assumes sdk: "beef_sdk_ok inp sdk" and rows: "rows_complete inp sdk db" and o': "whole o'"
  shows "recursiveBuildValidBEEF sdk db o' Map.empty depth txID s = Inr s' \<Longrightarrow> formed inp (fst s) \<Longrightarrow> built inp {txID} (fst s) (fst s')"
proof (induction "maxDepthOfRecursion + 1 - depth" arbitrary: depth txID s s' rule: less_induct)
  case less
  have inputs: "build_inputs sdk db o' Map.empty (depth + 1) inputs u = Inr u' \<Longrightarrow> formed inp (fst u) \<Longrightarrow>
    built inp {x. \<exists>i \<in> set inputs. in_SourceTXID i = Some x} (fst u) (fst u')" if d: "\<not> maxDepthOfRecursion < depth" for inputs u u'
  proof (induction inputs arbitrary: u)
    case Nil
    then show ?case by (simp add: build_inputs.simps [where inputs = "[]"] built_def)
  next
    case (Cons i rest)
    have rest: "{x. \<exists>i' \<in> set (i # rest). in_SourceTXID i' = Some x} = {src} \<union> {x. \<exists>i \<in> set rest. in_SourceTXID i = Some x}"
      if "in_SourceTXID i = Some src" for src using that by auto
    from Cons.prems show ?case
    proof (cases rule: build_inputs_Cons)
      case (1 src u1)
      with less.hyps [OF _ 1(2)] d Cons.prems(2) have "built inp {src} (fst u) (fst u1)" by simp
      moreover from this have "formed inp (fst u1)" by (simp add: built_def)
      ultimately show ?thesis using built_trans Cons.IH [OF 1(3)] unfolding rest [OF 1(1)] by blast
    next
      case (2 src)
      have "built inp {src} (fst u) (fst u)" using 2(2) Cons.prems(2) by (simp add: built_def)
      with built_trans Cons.IH [OF 2(3) Cons.prems(2)] show ?thesis unfolding rest [OF 2(1)] by blast
    qed
  qed
  from less.prems(1) o' rows show ?case
  proof (cases rule: whole_buildE)
    case (1 model raw tx)
    with merge_proven_built [OF sdk 1(4) less.prems(2) 1(2)] show ?thesis by simp
  next
    case (2 model raw tx b1 b2 sub)
    note r = merge_raw_built [OF sdk 2(5,8) less.prems(2), unfolded 2(6)]
    note i = merge_input_beef_built [OF sdk 2(2,9) r(1)]
    have f2: "formed inp b2" and look: "tx_of b2 txID = Some sub"
      using i 2(10) sdk by (auto simp: built_def beef_sdk_ok_def)
    from r(4) obtain tx' where tx': "tx_of b1 txID = Some tx'" "sources tx' = sources tx" by blast
    show ?thesis
    proof (cases "ft_MerklePath sub = None")
      case True
      with 2(11) inputs [OF 2(1), of "ft_Inputs tx" "(b2, snd s)" s'] f2 have "built inp (sources tx) b2 (fst s')" by (simp add: sources_def)
      from subject_built [OF r(1-3) tx' i this] True look show ?thesis by simp
    next
      case False
      with 2(11) have "fst s' = b2" by auto
      moreover have "built inp {} b2 b2" using f2 by (simp add: built_def)
      ultimately show ?thesis using subject_built [OF r(1-3) tx' i, of "{}" b2] False look by simp
    qed
  qed
qed

lemma build_all_complete:
  assumes "beef_sdk_ok inp sdk" "rows_complete inp sdk db" "whole o'" and "formed inp (fst s)" and "build_all sdk db o' Map.empty txIDs s = Inr s'"
  shows "built inp (set txIDs) (fst s) (fst s')"
  using assms(4,5)
proof (induction txIDs arbitrary: s)
  case (Cons x xs)
  then obtain s1 where s1: "recursiveBuildValidBEEF sdk db o' Map.empty 0 x s = Inr s1" "build_all sdk db o' Map.empty xs s1 = Inr s'"
    by (auto simp: rbind_eq_Inr)
  from build_complete [OF assms(1-3) s1(1) Cons.prems(1)] have one: "built inp {x} (fst s) (fst s1)" .
  then have "formed inp (fst s1)" by (simp add: built_def)
  from built_trans [OF one Cons.IH [OF this s1(2)]] show ?case by simp
qed (simp add: built_def)

lemma build_all_pre:
  assumes "pre_ok db o' pre" and "\<not> gb_DirectSourcesOnly o'"
  shows "build_all sdk db o' pre txIDs s = build_all sdk db o' Map.empty txIDs s"
proof (induction txIDs arbitrary: s)
  case (Cons x xs)
  then show ?case by (auto simp: build_pre(1) [OF assms] intro: rbind_cong)
qed simp

lemma GetBEEFForTxIDs_pre:
  assumes "distinct (map kt_TxID (db_KnownTxs db))" and "\<not> gb_DirectSourcesOnly o'"
  shows "GetBEEFForTxIDs sdk db o' txIDs =
     build_all sdk db o' Map.empty (filter (\<lambda>txID. bs_FindTransaction sdk (start_beef o') txID = None) txIDs) (start_beef o', [])"
proof -
  have "pre_ok db o' Map.empty" by (simp add: pre_ok_def)
  with preFetchAncestry_ok [OF assms(1)] show ?thesis
    unfolding GetBEEFForTxIDs_def Let_def by (intro build_all_pre assms(2)) simp
qed

end
