(* ===== verification/Beef_Properties.thy ===== *)
theory Beef_Properties
  imports Beef_Correct
begin

text \<open>The properties of the BEEF builder, with a small concrete container for the examples.\<close>



section \<open>A concrete container\<close>

definition set_tx :: "full_tx \<Rightarrow> sdk_beef \<Rightarrow> sdk_beef" where
  "set_tx tx b = b\<lparr>sb_Transactions := (ft_TxID tx, \<lparr>bt_DataFormat = RawTx, bt_BumpIndex = 0, bt_Transaction = Some tx\<rparr>) # sb_Transactions b\<rparr>"

definition some_bump :: merkle_bump where "some_bump = \<lparr>mb_Path = []\<rparr>"

definition ex_child :: full_tx where
  "ex_child = \<lparr>ft_TxID = ''c'', ft_Inputs = [\<lparr>in_SourceTXID = Some ''p'', in_Linked = False\<rparr>], ft_Outputs = [], ft_MerklePath = None\<rparr>"

definition ex_parent :: full_tx where
  "ex_parent = \<lparr>ft_TxID = ''p'', ft_Inputs = [], ft_Outputs = [], ft_MerklePath = None\<rparr>"

definition ex_parse :: "bytes \<Rightarrow> full_tx result" where
  "ex_parse raw = (if raw = [3] then Inr ex_child else if raw = [2] then Inr ex_parent else Inl (GoErr ''parse''))"

definition simple_sdk :: beef_sdk where
  "simple_sdk = \<lparr>bs_NewHashFromHex = Inr, bs_NewTransactionFromBytes = ex_parse,
     bs_NewMerklePathFromBinary = (\<lambda>_. Inr some_bump), bs_MerklePath_Bytes = (\<lambda>_. [7]),
     bs_AddMerkleProof = (\<lambda>p tx. Inr (tx\<lparr>ft_MerklePath := Some p\<rparr>)), bs_FindTransaction = tx_of,
     bs_MergeTxidOnly = (\<lambda>x b. b\<lparr>sb_Transactions := sb_Transactions b @ [(x, \<lparr>bt_DataFormat = TxIDOnly, bt_BumpIndex = 0, bt_Transaction = None\<rparr>)]\<rparr>),
     bs_MergeRawTx = (\<lambda>raw b. rbind (ex_parse raw) (\<lambda>tx. Inr (if tx_of b (ft_TxID tx) = None then set_tx tx b else b))),
     bs_MergeTransaction = (\<lambda>tx b. Inr (case tx_of b (ft_TxID tx) of None \<Rightarrow> set_tx tx b
       | Some tx0 \<Rightarrow> set_tx (tx0\<lparr>ft_TxID := ft_TxID tx, ft_MerklePath := ft_MerklePath tx\<rparr>) b)),
     bs_MergeBeefBytes = (\<lambda>bs b. if bs = [9] then Inr b else Inl (GoErr ''beef'')),
     bs_MergeBeefTx = (\<lambda>e b. Inr b), bs_Bytes = (\<lambda>b. Inr [9])\<rparr>"

definition ex_sources :: "string \<Rightarrow> string set" where
  "ex_sources x = (if x = ''c'' then {''p''} else {})"

lemma tx_of_set_tx [simp]: "tx_of (set_tx tx b) x = (if x = ft_TxID tx then Some tx else tx_of b x)"
  by (simp add: tx_of_def set_tx_def)

lemma formed_set_tx: "formed inp b \<Longrightarrow> sources tx = inp (ft_TxID tx) \<Longrightarrow> formed inp (set_tx tx b)"
  unfolding formed_def by (simp add: set_tx_def) (simp add: tx_of_def)

lemma set_tx_merge:
  assumes "formed inp b" and "sources tx = inp (ft_TxID tx)"
  shows "extends b (set_tx tx b)" "keeps_proofs {ft_TxID tx} b (set_tx tx b)" "adds_only {ft_TxID tx} b (set_tx tx b)"
  using assms by (auto simp: extends_def keeps_proofs_def adds_only_def formed_def)

lemma same_merge: "keeps_proofs X b b" "adds_only X b b"
  by (auto simp: keeps_proofs_def adds_only_def)

lemma ex_parse_sources: "ex_parse raw = Inr tx \<Longrightarrow> sources tx = ex_sources (ft_TxID tx)"
  by (auto simp: ex_parse_def ex_sources_def sources_def ex_child_def ex_parent_def split: if_splits)

lemma simple_sdk_raw:
  assumes "ex_parse raw = Inr tx" and "bs_MergeRawTx simple_sdk raw b = Inr b'" and "formed ex_sources b"
  shows "formed ex_sources b' \<and> extends b b' \<and> keeps_proofs {ft_TxID tx} b b' \<and> adds_only {ft_TxID tx} b b' \<and>
    (\<exists>tx'. tx_of b' (ft_TxID tx) = Some tx' \<and> sources tx' = sources tx)"
proof (cases "tx_of b (ft_TxID tx)")
  case None
  with assms have "b' = set_tx tx b" by (simp add: simple_sdk_def)
  with formed_set_tx set_tx_merge assms ex_parse_sources show ?thesis by auto
next
  case (Some tx0)
  with assms have "b' = b" by (simp add: simple_sdk_def)
  with Some assms ex_parse_sources show ?thesis by (auto simp: same_merge formed_def)
qed

lemma simple_sdk_transaction:
  assumes "bs_MergeTransaction simple_sdk tx b = Inr b'" and "ft_MerklePath tx \<noteq> None" and "sources tx = ex_sources (ft_TxID tx)"
    and "formed ex_sources b"
  shows "formed ex_sources b' \<and> extends b b' \<and> keeps_proofs {ft_TxID tx} b b' \<and> adds_only {ft_TxID tx} b b' \<and>
    (\<exists>tx'. tx_of b' (ft_TxID tx) = Some tx' \<and> ft_MerklePath tx' \<noteq> None)"
proof -
  obtain tx1 where tx1: "b' = set_tx tx1 b" "ft_TxID tx1 = ft_TxID tx" "ft_MerklePath tx1 = ft_MerklePath tx"
    "sources tx1 = ex_sources (ft_TxID tx)"
  proof (cases "tx_of b (ft_TxID tx)")
    case None
    with assms that [of tx] show ?thesis by (simp add: simple_sdk_def)
  next
    case (Some tx0)
    with assms(4) have "sources tx0 = ex_sources (ft_TxID tx)" by (simp add: formed_def)
    with Some assms(1) that [of "tx0\<lparr>ft_TxID := ft_TxID tx, ft_MerklePath := ft_MerklePath tx\<rparr>"] show ?thesis
      by (simp add: simple_sdk_def sources_def)
  qed
  with assms(2) formed_set_tx [OF assms(4), of tx1] set_tx_merge [OF assms(4), of tx1] show ?thesis by simp
qed

lemma simple_sdk_ok: "beef_sdk_ok ex_sources simple_sdk"
proof -
  have "bs_NewTransactionFromBytes simple_sdk = ex_parse" "bs_FindTransaction simple_sdk = tx_of"
    "bs_AddMerkleProof simple_sdk = (\<lambda>p tx. Inr (tx\<lparr>ft_MerklePath := Some p\<rparr>))"
    "bs_MergeBeefBytes simple_sdk = (\<lambda>bs b. if bs = [9] then Inr b else Inl (GoErr ''beef''))"
    by (simp_all add: simple_sdk_def)
  then show ?thesis
    using simple_sdk_raw simple_sdk_transaction ex_parse_sources unfolding beef_sdk_ok_def
    by (auto simp: same_merge sources_def)
qed

definition ex_known :: "string \<Rightarrow> nat \<Rightarrow> bytes \<Rightarrow> known_tx_row" where
  "ex_known txID raw path = (bare_row txID)\<lparr>kt_RawTx := Some [raw], kt_InputBeef := Some [9], kt_MerklePath := path\<rparr>"

definition ex_beef_db :: database where
  "ex_beef_db = (empty_database 0)\<lparr>db_KnownTxs := [ex_known ''c'' 3 [], ex_known ''p'' 2 [7]]\<rparr>"

lemma ex_beef_db_ok: "db_inv ex_beef_db" "rows_complete ex_sources simple_sdk ex_beef_db"
proof -
  show "db_inv ex_beef_db"
    unfolding ex_beef_db_def by (rule db_inv_update(1) [OF empty_database_inv])
      (simp add: known_ok_def ex_known_def bare_row_def WasBroadcastStatus_def)
  show "rows_complete ex_sources simple_sdk ex_beef_db"
    by (auto simp: rows_complete_def row_complete_def ex_beef_db_def ex_known_def bare_row_def simple_sdk_def ex_parse_def
        ex_child_def ex_parent_def)
qed

definition ex_child_beef :: sdk_beef where
  "ex_child_beef = set_tx (ex_parent\<lparr>ft_MerklePath := Some some_bump\<rparr>) (set_tx ex_child NewBeefV2)"

lemmas ex_beef_defs = simple_sdk_def ex_parse_def ex_child_def ex_parent_def ex_beef_db_def ex_known_def bare_row_def
  FindKnownTx_def find_model_def visible_def default_options_def IsKnownTxID_def TrustsSelfAsKnown_def TrustSelfKnown_def
  HasMerklePath_def merge_proven_def merge_input_beef_def needsInputBEEF_def maxDepthOfRecursion_def

lemma ex_build_parent:
  "recursiveBuildValidBEEF simple_sdk ex_beef_db default_options Map.empty (Suc 0) ''p'' (set_tx ex_child NewBeefV2, []) =
     Inr (ex_child_beef, [])"
  by (subst recursiveBuildValidBEEF.simps) (simp add: ex_beef_defs ex_child_beef_def tx_of_def set_tx_def NewBeefV2_def)

lemma ex_build_child:
  "recursiveBuildValidBEEF simple_sdk ex_beef_db default_options Map.empty 0 ''c'' (NewBeefV2, []) = Inr (ex_child_beef, [])"
proof -
  have step: "bs_NewTransactionFromBytes simple_sdk [3] = Inr ex_child" "bs_MergeRawTx simple_sdk [3] NewBeefV2 = Inr (set_tx ex_child NewBeefV2)"
    "merge_input_beef simple_sdk (ex_known ''c'' 3 []) (set_tx ex_child NewBeefV2) = Inr (set_tx ex_child NewBeefV2)"
    "bs_FindTransaction simple_sdk (set_tx ex_child NewBeefV2) ''c'' = Some ex_child"
    by (simp_all add: simple_sdk_def ex_parse_def merge_input_beef_def ex_known_def tx_of_def set_tx_def NewBeefV2_def ex_child_def)
  have model: "find_model simple_sdk ex_beef_db default_options Map.empty ''c'' = Inr (ex_known ''c'' 3 [], True)"
    "kt_RawTx (ex_known ''c'' 3 []) = Some [3]" "\<not> HasMerklePath (ex_known ''c'' 3 [])"
    by (simp_all add: find_model_def FindKnownTx_def ex_beef_db_def ex_known_def bare_row_def visible_def default_options_def HasMerklePath_def)
  have "build_inputs simple_sdk ex_beef_db default_options Map.empty (Suc 0) (ft_Inputs ex_child) (set_tx ex_child NewBeefV2, []) = Inr (ex_child_beef, [])"
  proof -
    have "ft_Inputs ex_child = [\<lparr>in_SourceTXID = Some ''p'', in_Linked = False\<rparr>]" "beef_entry (set_tx ex_child NewBeefV2) ''p'' = None"
      by (simp_all add: ex_child_def set_tx_def NewBeefV2_def)
    then show ?thesis by (subst build_inputs.simps) (simp add: ex_build_parent build_inputs.simps [where inputs = "[]"])
  qed
  moreover have "\<not> IsKnownTxID default_options x" "\<not> TrustsSelfAsKnown default_options" "\<not> gb_DirectSourcesOnly default_options" for x
    by (simp_all add: default_options_def IsKnownTxID_def TrustsSelfAsKnown_def TrustSelfKnown_def)
  moreover have "ft_MerklePath ex_child = None" by (simp add: ex_child_def)
  ultimately show ?thesis
    by (subst recursiveBuildValidBEEF.simps) (simp add: model step needsInputBEEF_def)
qed

lemma ex_build: "GetBEEFForTxIDs simple_sdk ex_beef_db default_options [''c''] = Inr (ex_child_beef, [])"
proof -
  have "distinct (map kt_TxID (db_KnownTxs ex_beef_db))" using db_invD(4) [OF ex_beef_db_ok(1)] by (simp add: known_ok_def)
  from GetBEEFForTxIDs_pre [OF this, of default_options] ex_build_child show ?thesis
    by (simp add: default_options_def start_beef_def) (simp add: simple_sdk_def tx_of_def NewBeefV2_def)
qed



end
