(* ===== verification/Create_Failure.thy ===== *)
theory Create_Failure
  imports Create_Correct Abort_Properties
begin

text \<open>
  What a call leaves behind when it fails: nothing is claimed. Before the action is stored nothing was claimed at all; afterwards the
  deferred release aborts it.
\<close>

section \<open>The rows of a new action\<close>

lemma connect_rows: "connectOutputsWithBaskets uid outs db = (outs', db') \<Longrightarrow> map fst outs' = map fst outs"
  by (induction uid outs db arbitrary: outs' db' rule: connectOutputsWithBaskets.induct)
    (auto simp: Let_def split: option.splits if_splits prod.splits)

definition row_like :: "output_row \<Rightarrow> output_row \<Rightarrow> bool" where
  "row_like r q \<longleftrightarrow> or_SpentBy r = or_SpentBy q \<and> or_Type r = or_Type q \<and> or_Change r = or_Change q"

lemma insert_rows:
  "\<exists>os. db_Outputs (insert_outputs i outs db) = db_Outputs db @ os \<and>
     (\<forall>r \<in> set os. db_NextOutputID db \<le> or_ID r \<and> (\<exists>q \<in> set (map fst outs). row_like r q))"
proof (induction i outs db rule: insert_outputs.induct)
  case (2 i out utxo outs db)
  let ?row = "out\<lparr>or_ID := db_NextOutputID db, or_CreatedAt := db_Now db, or_TransactionID := i\<rparr>"
  from "2.IH" [OF refl refl refl] obtain os where
    "db_Outputs (insert_outputs i ((out, utxo) # outs) db) = db_Outputs db @ ?row # os"
    "\<forall>r \<in> set os. db_NextOutputID db + 1 \<le> or_ID r \<and> (\<exists>q \<in> set (map fst outs). row_like r q)"
    by (auto simp: Let_def)
  then show ?case by (intro exI [of _ "?row # os"]) (auto simp: row_like_def)
qed simp

lemma new_row_like: "makeNewOutput lib user out st = Inr p \<Longrightarrow> or_SpentBy (fst p) = None \<and> or_Type (fst p) = no_Type out \<and> or_Change (fst p) = no_Change out"
  by (auto simp: makeNewOutput_def result_simps Let_def split: option.splits if_splits)

lemma created_rows:
  assumes inv: "db_inv db" and lib: "convert_ok lib" and nt: "new_tx_ok nt db"
    and old: "\<forall>x \<in> set (nt_SpentOutputIDs nt). x < db_NextOutputID db"
    and create: "createTransactionInTx lib nt db = Inr (i, db2)"
  obtains t os where "db_Transactions db2 = db_Transactions db @ [t]" and "tr_ID t = i" "tr_UserID t = nt_UserID nt" "tr_TxID t = nt_TxID nt"
    and "tr_Reference t = nt_Reference nt" "tr_Status t = nt_Status nt" "tr_IsOutgoing t = nt_IsOutgoing nt"
    and "nt_Reference nt \<notin> set (map tr_Reference (db_Transactions db))"
    and "db_Outputs db2 = map (claimed i (nt_SpentOutputIDs nt)) (db_Outputs db) @ os"
    and "\<And>r. r \<in> set os \<Longrightarrow> or_SpentBy r = None \<and> (\<exists>o' \<in> set (nt_Outputs nt). or_Type r = no_Type o' \<and> or_Change r = no_Change o')"
proof -
  from createTransactionInTx_Inr [OF create] obtain model outputs outs db1 db3 db4 where
    tm: "toTransactionModel lib nt = Inr (model, outputs)"
    and con: "connectOutputsWithBaskets (nt_UserID nt) outputs db = (outs, db1)"
    and ins: "insert_transaction nt model outs db1 = Inr (i, db3)"
    and res: "reserveUTXOs i (nt_UserID nt) (nt_ReservedOutputIDs nt) db3 = Inr ((), db4)"
    and mark: "markReservedOutputsAsNotSpendable i (nt_UserID nt) (nt_SpentOutputIDs nt) db4 = Inr db2" by metis
  from connectOutputs_eq [OF con, of 0] obtain bs where db1: "db1 = db\<lparr>db_Baskets := bs\<rparr>" by auto
  from tm obtain ps where rows: "map_or_error (\<lambda>out. makeNewOutput lib (nt_UserID nt) out (nt_UTXOStatus nt)) (nt_Outputs nt) = Inr outputs"
    and model: "tr_UserID model = nt_UserID nt" "tr_TxID model = nt_TxID nt" "tr_Reference model = nt_Reference nt" "tr_Status model = nt_Status nt"
      "tr_IsOutgoing model = nt_IsOutgoing nt" by (auto simp: toTransactionModel_def result_simps)
  obtain cs where fresh: "tr_Reference model \<notin> set (map tr_Reference (db_Transactions db1))"
    and db3: "db3 = insert_outputs i outs (db1\<lparr>db_NextTransactionID := i + 1, db_Transactions :=
      db_Transactions db1 @ [model\<lparr>tr_ID := i, tr_CreatedAt := db_Now db1\<rparr>], db_Commissions := cs\<rparr>)"
    using insert_transaction_eq [OF ins] .
  from create_effect [OF inv lib nt old create] obtain os where
    os: "db_Outputs db2 = map (claimed i (nt_SpentOutputIDs nt)) (db_Outputs db) @ os" and ids: "\<forall>r \<in> set os. db_NextOutputID db \<le> or_ID r" by blast
  from insert_rows [of i outs "db1\<lparr>db_NextTransactionID := i + 1, db_Transactions :=
      db_Transactions db1 @ [model\<lparr>tr_ID := i, tr_CreatedAt := db_Now db1\<rparr>], db_Commissions := cs\<rparr>"]
  obtain os3 where os3: "db_Outputs db3 = db_Outputs db @ os3"
    "\<forall>r \<in> set os3. db_NextOutputID db \<le> or_ID r \<and> (\<exists>q \<in> set (map fst outs). row_like r q)" by (auto simp: db3 db1)
  have "db_Outputs db2 = update_where (\<lambda>r. or_ID r \<in> set (nt_SpentOutputIDs nt) \<and> or_UserID r = nt_UserID nt \<and> or_SpentBy r = None)
      (\<lambda>r. r\<lparr>or_Spendable := False, or_SpentBy := Some i\<rparr>) (db_Outputs db @ os3)"
    using markReserved_Inr(1) [OF mark] reserveUTXOs_Inr [OF res] os3(1) by simp
  moreover have "or_ID r \<notin> set (nt_SpentOutputIDs nt)" if "r \<in> set os3" for r using that os3(2) old by force
  then have "update_where (\<lambda>r. or_ID r \<in> set (nt_SpentOutputIDs nt) \<and> or_UserID r = nt_UserID nt \<and> or_SpentBy r = None)
      (\<lambda>r. r\<lparr>or_Spendable := False, or_SpentBy := Some i\<rparr>) os3 = os3" by (auto simp: update_where_def intro!: map_idI)
  ultimately have "os = os3" using os by (simp add: update_where_def)
  moreover have "\<exists>o' \<in> set (nt_Outputs nt). or_SpentBy r = None \<and> or_Type r = no_Type o' \<and> or_Change r = no_Change o'" if r: "r \<in> set os3" for r
  proof -
    from os3(2) r connect_rows [OF con] obtain p where p: "p \<in> set outputs" "row_like r (fst p)" by (metis image_iff list.set_map)
    from map_or_error_mem [OF rows p(1)] p(2) show ?thesis by (auto simp: row_like_def dest!: new_row_like)
  qed
  moreover have "db_Transactions db2 = db_Transactions db @ [model\<lparr>tr_ID := i, tr_CreatedAt := db_Now db1\<rparr>]"
    using markReserved_Inr(1) [OF mark] reserveUTXOs_Inr [OF res] by (simp add: db3 insert_outputs_frame db1)
  ultimately show thesis
    using fresh os model by (intro that [of "model\<lparr>tr_ID := i, tr_CreatedAt := db_Now db1\<rparr>" os]) (auto simp: db1)
qed

section \<open>The outputs of an action are of known types\<close>

lemma made_of_types:
  assumes "made_of new provided charge pre amounts shape plain" and "o' \<in> set new" and "no_Change o'"
  shows "no_Type o' = OutputTypeP2PKH"
proof -
  from assms(1) obtain ps cs ds ss where p: "plain = ps @ cs @ ds @ ss" "map_or_error provided_output provided = Inr ps"
    "map_or_error commission_output (case charge of None \<Rightarrow> [] | Some c \<Rightarrow> [c]) = Inr cs"
    and ds: "\<forall>o' \<in> set ds. \<exists>suffix sats. o' = change_output BasketNameForChange pre suffix sats"
    and ss: "\<forall>o' \<in> set ss. \<exists>s suffix sats. shape = Some s \<and> o' = change_output (sh_Basket s) pre suffix sats"
    and same: "mset (map unnumbered new) = mset (map unnumbered plain)" unfolding made_of_def by blast
  from same assms(2) have "unnumbered o' \<in> set (map unnumbered plain)" by (metis image_eqI list.set_map mset_eq_setD)
  then obtain q where q: "q \<in> set plain" "unnumbered o' = unnumbered q" by auto
  have fields: "no_Change (unnumbered x) = no_Change x" "no_Type (unnumbered x) = no_Type x" for x by (simp_all add: unnumbered_def)
  have "no_Change x \<longrightarrow> no_Type x = OutputTypeP2PKH" if "x \<in> set plain" for x
  proof -
    from that p(1) consider "x \<in> set ps" | "x \<in> set cs" | "x \<in> set ds" | "x \<in> set ss" by auto
    then show ?thesis
    proof cases
      case 1
      from map_or_error_mem [OF p(2) this] obtain y where "provided_output y = Inr x" by blast
      then show ?thesis by (auto simp: provided_output_def result_simps)
    next
      case 2
      from map_or_error_mem [OF p(3) this] obtain y where "commission_output y = Inr x" by blast
      then show ?thesis by (auto simp: commission_output_def result_simps)
    next
      case 3
      with ds obtain suffix sats where "x = change_output BasketNameForChange pre suffix sats" by blast
      then show ?thesis by (simp add: change_output_def)
    next
      case 4
      with ss obtain s suffix sats where "shape = Some s" "x = change_output (sh_Basket s) pre suffix sats" by blast
      then show ?thesis by (simp add: change_output_def)
    qed
  qed
  with q assms(3) fields show ?thesis by metis
qed

section \<open>The release of a failed call\<close>

text \<open>A stored action that its call releases: aborted, with nothing claimed.\<close>

definition given_back :: "string \<Rightarrow> database \<Rightarrow> bool" where
  "given_back reference db \<longleftrightarrow> (\<forall>t \<in> set (db_Transactions db). tr_Reference t = reference \<longrightarrow> tr_Status t = TxStatusAborted \<and>
     (\<forall>r \<in> set (db_Outputs db). or_SpentBy r \<noteq> Some (tr_ID t)) \<and> (\<forall>u \<in> set (db_UserUTXOs db). uu_ReservedByID u \<noteq> Some (tr_ID t)))"

definition fresh_reference :: "string \<Rightarrow> database \<Rightarrow> bool" where
  "fresh_reference reference db \<longleftrightarrow> (\<forall>t \<in> set (db_Transactions db). tr_Reference t \<noteq> reference)"

lemma created_action_given_back:
  assumes inv: "db_inv db" and lib: "convert_ok lib" and nt: "new_tx_ok nt db"
    and old: "\<forall>x \<in> set (nt_SpentOutputIDs nt). x < db_NextOutputID db"
    and create: "createTransactionInTx lib nt db = Inr (i, db2)"
    and tx: "nt_TxID nt = None" "nt_Status nt = TxStatusUnsigned" "nt_IsOutgoing nt"
    and p2pkh: "change_is_P2PKH (db_Outputs db)" "\<And>o'. o' \<in> set (nt_Outputs nt) \<Longrightarrow> no_Change o' \<Longrightarrow> no_Type o' = OutputTypeP2PKH"
  shows "given_back (nt_Reference nt) (snd (AbortAction lib (nt_UserID nt) (nt_Reference nt) db2))"
proof -
  from created_rows [OF inv lib nt old create] obtain t os where txs: "db_Transactions db2 = db_Transactions db @ [t]"
    and t: "tr_ID t = i" "tr_UserID t = nt_UserID nt" "tr_TxID t = None" "tr_Reference t = nt_Reference nt" "tr_Status t = TxStatusUnsigned"
      "tr_IsOutgoing t" and fresh: "nt_Reference nt \<notin> set (map tr_Reference (db_Transactions db))"
    and outs: "db_Outputs db2 = map (claimed i (nt_SpentOutputIDs nt)) (db_Outputs db) @ os"
    and os: "\<And>r. r \<in> set os \<Longrightarrow> or_SpentBy r = None \<and> (\<exists>o' \<in> set (nt_Outputs nt). or_Type r = no_Type o' \<and> or_Change r = no_Change o')"
    using tx by metis
  have inv2: "db_inv db2" by (rule createTransactionInTx_inv [OF inv lib nt create])
  have i: "i = db_NextTransactionID db" using create_effect [OF inv lib nt old create] by blast
  have none: "filter (\<lambda>s. tr_UserID s = nt_UserID nt \<and> tr_Reference s = nt_Reference nt) (db_Transactions db) = []"
    using fresh by (auto simp: filter_empty_conv image_iff)
  have find: "findTransactionForAbort (nt_UserID nt) (nt_Reference nt) db2 = Some t"
    by (simp add: findTransactionForAbort_def FindTransactionByReference_def first_by_def txs none t)
  have "change_is_P2PKH (db_Outputs db2)"
    using p2pkh os by (fastforce simp: outs change_is_P2PKH_def claimed_def isChangeDaoScope_def split: if_splits)
  moreover have "or_SpentBy r = None" if r: "r \<in> set (db_Outputs db2)" "or_TransactionID r = tr_ID t" for r
  proof -
    have "or_TransactionID q \<noteq> i" if "q \<in> set (db_Outputs db)" for q
      using that db_invD(1,2) [OF inv] by (force simp: i outs_ok_def out_ok_def owned_tx_def txs_ok_def)
    moreover have "or_TransactionID (claimed i ids q) = or_TransactionID q" for ids q by (simp add: claimed_def)
    ultimately have "r \<notin> claimed i (nt_SpentOutputIDs nt) ` set (db_Outputs db)" using r(2) t(1) by (metis imageE)
    then have "r \<in> set os" using r(1) by (simp add: outs)
    with os show ?thesis by blast
  qed
  ultimately obtain db' where ab: "AbortAction lib (nt_UserID nt) (nt_Reference nt) db2 = (Inr True, db')"
    using abort_succeeds [OF inv2 lib _ find] t by (auto simp: txStatusesAbortableBeforeBroadcast_def)
  note eff = abort_action_effect [OF inv2 lib ab find]
  have "tr_ID s = tr_ID t" if "s \<in> set (db_Transactions db2)" "tr_Reference s = nt_Reference nt" for s
    using that fresh by (auto simp: txs image_iff)
  note only = this
  have "tr_Status s = TxStatusAborted \<and> tr_ID s = tr_ID t" if "s \<in> set (db_Transactions db')" "tr_Reference s = nt_Reference nt" for s
  proof -
    from that(1) obtain s0 where s0: "s0 \<in> set (db_Transactions db2)" "s = (if tr_ID s0 = tr_ID t then s0\<lparr>tr_Status := TxStatusAborted\<rparr> else s0)"
      unfolding eff(2) by (auto simp: update_where_def)
    have "tr_Reference s0 = nt_Reference nt" using s0(2) that(2) by (simp split: if_splits)
    with only s0 show ?thesis by simp
  qed
  moreover have "or_SpentBy r \<noteq> Some (tr_ID t)" if "r \<in> set (db_Outputs db')" for r
    using that unfolding eff(1) by (auto simp: released_def split: if_splits)
  ultimately show ?thesis using eff(3) by (simp add: ab given_back_def)
qed

text \<open>The body of a failed call: either nothing was stored, or the release is armed for what was stored.\<close>

lemma create_body_Inl:
  assumes body: "create_body env userID params w = (Inl e, w')" and set: "create_setting env model w" and rel: "w_release w = Some (newRelease userID)"
    and ref: "ce_Base64 env 0 0 = Inr reference" "reference \<noteq> []"
    and start: "J (w_db w)" and keeps: "\<And>k db. J db \<Longrightarrow> J (ce_meanwhile env k db)" "\<And>u ids db. J db \<Longrightarrow> J (DeleteIndexRows u ids db)"
      "\<And>u name db. J db \<Longrightarrow> J (FindOrCreateBasket u name db)"
  shows "(J (w_db w') \<and> w_release w' = Some (newRelease userID)) \<or>
    (\<exists>pl k db1 made nt i. plan_ok (db_Outputs (w_db w)) pl \<and> cl_userID pl = userID \<and> cl_reference pl = reference \<and> attempt_state env (w_db w) db1 \<and>
      J db1 \<and> build_action env pl k db1 = Inr (made, nt) \<and> createTransactionInTx (ce_lib env) nt db1 = Inr (i, w_db w') \<and>
      w_release w' = Some \<lparr>rl_userID = userID, rl_reference = reference, rl_armed = True\<rparr>)"
proof -
  have s: "create_env_ok env model" "meanwhile_ok env" "db_inv (w_db w)" "table_fits (w_db w)" using set by (simp_all add: create_setting_def)
  obtain r w1 where plan: "plan_action env userID params w = (r, w1)" by (cases "plan_action env userID params w")
  note st = planned_state [OF plan s(3,4) create_env_okD(3) [OF s(1)]]
  have J1: "J (w_db w1)" using plan_keeps [OF plan start keeps(3)] .
  show ?thesis
  proof (cases r)
    case (Inl e')
    with plan body have "w' = w1" by (simp add: create_body_def wbind_def)
    with J1 st rel show ?thesis by simp
  next
    case (Inr pl)
    note plan = plan [unfolded Inr]
    note ok = plan_action_ok [OF plan s(1)]
    obtain r2 w2 where att: "wattempts env pl w1 = (r2, w2)" by (cases "wattempts env pl w1")
    note a = wattempts_ok [where J = J, OF att s(1,2) ok(1) st(1) J1]
    have w2: "w2 = w1\<lparr>w_db := w_db w2\<rparr>" by (rule a(1)) (simp_all add: keeps)
    then have rel2: "w_release w2 = Some (newRelease userID)" using st(2) rel by (metis world.select_convs(2) world.surjective world.update_convs(1))
    show ?thesis
    proof (cases r2)
      case (Inl e')
      with plan att body have "w' = w2" by (simp add: create_body_def wbind_def)
      moreover have "J (w_db w2)" by (rule conjunct2 [OF a(3)]) (simp_all add: keeps Inl)
      ultimately show ?thesis using rel2 by simp
    next
      case (Inr made)
      have "\<exists>k db1 nt i. 1 \<le> k \<and> k \<le> 3 \<and> attempt_state env (w_db w) db1 \<and> J db1 \<and> build_action env pl k db1 = Inr (made, nt) \<and>
        createTransactionInTx (ce_lib env) nt db1 = Inr (i, w_db w2)" by (rule a(4)) (simp_all add: keeps Inr)
      then obtain k db1 nt i where c: "attempt_state env (w_db w) db1" "J db1" "build_action env pl k db1 = Inr (made, nt)"
        "createTransactionInTx (ce_lib env) nt db1 = Inr (i, w_db w2)" by blast
      have ref2: "cl_reference pl = reference" using ok(3) ref by simp
      let ?w3 = "w2\<lparr>w_release := arm reference (w_release w2)\<rparr>"
      have "w' = ?w3" using body plan att Inr ref2
        by (auto simp: create_body_def wbind_def warm_def wread_def wwrap_def wresult_def wreturn_def Let_def split: prod.splits sum.splits)
      then have "w_db w' = w_db w2" "w_release w' = Some \<lparr>rl_userID = userID, rl_reference = reference, rl_armed = True\<rparr>"
        using rel2 ref(2) by (simp_all add: arm_def newRelease_def)
      with c ok(1,2) ref2 show ?thesis by auto
    qed
  qed
qed

end
