(* ===== verification/Create_Properties.thy ===== *)
theory Create_Properties
  imports Create_Failure Beef_Properties Funder_Properties
begin

text \<open>
  The properties of the creation of an action.
\<close>

section \<open>Balance\<close>


text \<open>A worked example: the user pays 832 satoshis out of an output of 1000, and the fee takes the rest.\<close>

definition cx_db :: database where
  "cx_db = ex_db\<lparr>db_Baskets := [\<lparr>br_UserID = 1, br_Name = ''default'', br_NumberOfDesiredUTXOs = 32, br_MinimumDesiredUTXOValue = 1000\<rparr>],
     db_Outputs := map (\<lambda>r. r\<lparr>or_LockingScript := Some [7]\<rparr>) (db_Outputs ex_db)\<rparr>"

definition cx_world :: world where
  "cx_world = \<lparr>w_db = cx_db, w_release = None, w_posts = [], w_KeyValues = Map.empty\<rparr>"

definition cx_throughput :: throughput_config where
  "cx_throughput = \<lparr>tc_Enabled = False, tc_Denomination = 0, tc_SpendPolicy = SpendPolicyAny, tc_PoolBasket = ''fuel'', tc_ReserveBasket = ''reserve'',
     tc_FanoutOutputsPerTx = 100\<rparr>"

definition cx_env :: create_env where
  "cx_env = \<lparr>ce_lib = std_lib, ce_sdk = simple_sdk\<lparr>bs_FindTransaction := (\<lambda>b x. Some ex_parent)\<rparr>,
     ce_verifiers = \<lparr>vf_VerifyBeef = (\<lambda>_. Inr True), vf_VerifyScripts = (\<lambda>_ _. Inr True)\<rparr>,
     ce_feeCalculator = example_fc, ce_maxChangeOutputsPerTx = 8, ce_commissionSatoshis = 0, ce_Generate = Inl (GoErr ''none''),
     ce_throughput = cx_throughput, ce_Base64 = (\<lambda>_ _. Inr ''ref''), ce_Uint64 = (\<lambda>_ _ m. m), ce_Shuffle = (\<lambda>_ xs. xs),
     ce_locked = (\<lambda>_ _. False), ce_cancelled = (\<lambda>_. False), ce_meanwhile = (\<lambda>_ db. db)\<rparr>"

definition cx_params :: "bool \<Rightarrow> create_params" where
  "cx_params raw = \<lparr>cp_Version = 1, cp_LockTime = 0, cp_Description = ''pay'', cp_KnownTxIDs = [], cp_Labels = [],
     cp_Outputs = [\<lparr>co_LockingScript = [], co_Satoshis = 832, co_OutputDescription = [], co_Basket = None, co_CustomInstructions = None, co_Tags = []\<rparr>],
     cp_Inputs = [], cp_NoSendChange = [], cp_InputBEEF = None, cp_RandomizeOutputs = False, cp_IncludeInputSourceRawTxs = raw,
     cp_TrustSelf = False, cp_IsNoSend = False, cp_IsDelayed = False, cp_FuelShape = None, cp_ReturnTXIDOnly = False\<rparr>"

lemma cx_setting: "create_setting cx_env example_model cx_world"
proof -
  have "db_inv (cx_db\<lparr>db_Baskets := []\<rparr>)"
    using db_inv_update(7) [OF ex_db_inv, of "db_Outputs cx_db"] by (simp add: cx_db_def ex_defs out_cols_def)
  from db_inv_update(3) [OF this, of "db_Baskets cx_db"] have "db_inv cx_db" by simp
  moreover have "table_fits cx_db" by (simp add: table_fits_def cx_db_def ex_defs)
  ultimately show ?thesis
    by (simp add: create_setting_def create_env_ok_def meanwhile_ok_def cx_env_def cx_world_def cx_throughput_def std_lib_ok example_new
        example_model_def [THEN arg_cong, of fm_Value])
qed

definition cx_args :: fund_args where
  "cx_args = \<lparr>fa_TargetSat = 832, fa_CurrentTxSize = 19, fa_OutputCount = 1,
     fa_Basket = \<lparr>ob_Name = ''default'', ob_NumberOfDesiredUTXOs = 32, ob_MinimumDesiredUTXOValue = 1000\<rparr>,
     fa_UserID = 1, fa_ForbiddenOutputIDs = [], fa_PriorityOutputs = [], fa_IncludeSending = False,
     fa_IsSweep = False, fa_Existing = 1, fa_Constraints = \<lparr>cs_Tiers = None, cs_MaxChangeOutputs = 0\<rparr>\<rparr>"

definition cx_collector :: utxo_collector where
  "cx_collector = example_collector\<lparr>c_txSats := 832, c_txSize := 19, c_fee := 20, c_numberOfDesiredUTXOs := 31\<rparr>"

definition cx_collector' :: utxo_collector where
  "cx_collector' = cx_collector\<lparr>c_txSize := 167, c_fee := 168, c_satsCovered := 1000,
     c_allocatedUTXOs := [\<lparr>ux_OutputID = 1, ux_Satoshis = 1000\<rparr>]\<rparr>"

lemma cx_fees: "Calculate std_lib example_fc 19 = Inr 20" "Calculate std_lib example_fc 167 = Inr 168"
  by (simp_all add: example_fee ceiling_eq_iff)

lemma cx_start: "start_collector std_lib (sql_funder_on cx_env k cx_db) cx_args = Inr cx_collector"
proof -
  have lib: "to_NoLessThan_u64 std_lib = max" "to_NoLessThan_i64 std_lib = max"
    "must_ConvertToUInt64 std_lib 31 = Some 31" by (simp_all add: std_lib_def)
  show ?thesis
    by (simp add: start_collector_def cx_args_def sql_funder_on_def cx_env_def newCollector_def increaseSize_def
        calculateMinimumChange_def calculateChangeOutputs_def setChangeOutputsSize_def change_def satsToCover_def
        cx_collector_def example_collector_def lib example_dust cx_fees example_arith Let_def)
qed

definition cx_row :: user_utxo where
  "cx_row = ex_row 1 None 1000"

lemma cx_allocate: "allocateUTXO std_lib cx_row cx_collector = Inr cx_collector'"
  by (simp add: allocateUTXO_def addToAllocated_def cx_row_def ex_row_def cx_collector_def example_collector_def increaseSize_def
      increaseValue_def calculateChangeOutputs_def setChangeOutputsSize_def change_def satsToCover_def
      cx_collector'_def cx_fees example_arith Let_def)

text \<open>Funding out of a single sufficient row.\<close>

lemma one_row_fund:
  assumes start: "start_collector lib f args = Inr c" and sweep: "\<not> fa_IsSweep args"
    and tiers: "resolveTiers (fa_IncludeSending args) (cs_Tiers (fa_Constraints args)) = UTXOStatusMined # ts"
    and funded: "IsFunded c = Inr False" "IsFunded c' = Inr True" and rem: "remaining lib c = Inr (int n)" "0 < n"
    and repo: "sf_utxoRepository f = UTXOs_repository [row] (\<lambda>_. False)" and alloc: "allocateUTXO lib row c = Inr c'"
    and row: "uu_UserID row = fa_UserID args" "uu_BasketName row = ob_Name (fa_Basket args)" "uu_ReservedByID row = None"
      "uu_UTXOStatus row = UTXOStatusMined" "n \<le> uu_Satoshis row" "uu_OutputID row \<notin> set (fa_ForbiddenOutputIDs args)"
  shows "FundWithConstraints lib f args = Some (GetResult c')"
proof -
  let ?a = "newBoundedAllocator (fa_UserID args) (ob_Name (fa_Basket args)) c (fa_ForbiddenOutputIDs args)"
  let ?a' = "?a\<lparr>ba_collector := c', ba_excluded := ba_excluded ?a @ [uu_OutputID row]\<rparr>"
  let ?repo = "UTXOs_repository [row] (\<lambda>_. False)"
  have ba: "ba_collector ?a = c" by (simp add: newBoundedAllocator_def)
  have claim: "claim lib row ?a = Inr ?a'" by (simp add: claim_def ba alloc)
  have find: "FindSmallestSufficientUTXOForUpdate ?repo (tier_query ?a UTXOStatusMined) n = Inr (Some row)"
    using row by (simp add: UTXOs_repository_def FindSmallestSufficient_cases bounded_rows_def tier_query_def
        newBoundedAllocator_def notReserved_def outputNotIn_def)
  have "fromTier lib ?repo UTXOStatusMined (int n) ?a = Inr (True, ?a')" by (simp add: fromTier_def find claim)
  then have round: "round_tiers lib ?repo (UTXOStatusMined # ts) (int n) ?a = Inr (True, ?a')" by simp
  have "run lib ?repo (UTXOStatusMined # ts) ?a' = Some (Inr ?a')" by (subst run.simps) (simp add: funded)
  then have "run lib ?repo (UTXOStatusMined # ts) ?a = Some (Inr ?a')"
    using rem(2) by (subst run.simps) (simp add: ba funded rem(1) round del: round_tiers.simps)
  with start sweep tiers funded repo show ?thesis by (simp add: FundWithConstraints_def)
qed

lemma cx_fund: "fund_call cx_env k cx_db cx_args = Inr \<lparr>fr_AllocatedUTXOs = [\<lparr>ux_OutputID = 1, ux_Satoshis = 1000\<rparr>],
  fr_ChangeOutputsCount = 0, fr_ChangeAmount = 0, fr_Fee = 168, fr_DustFloor = 386, fr_ChangeInitialValue = 1000\<rparr>" (is "_ = Inr ?r")
proof -
  have coll: "IsFunded cx_collector = Inr False" "IsFunded cx_collector' = Inr True" "remaining std_lib cx_collector = Inr (int 852)" "(0::nat) < 852"
    by (simp_all add: IsFunded_def remaining_def remaining_default_def cx_collector_def cx_collector'_def example_collector_def
        satsToCover_def example_arith)
  have "GetResult cx_collector' = Inr ?r"
    by (simp add: GetResult_def coll prepareResult_def)
      (simp add: change_def satsToCover_def changeInitialValue_def cx_collector'_def cx_collector_def example_collector_def example_arith)
  moreover have "sf_utxoRepository (sql_funder_on cx_env k cx_db) = UTXOs_repository [cx_row] (\<lambda>_. False)"
    by (simp add: sql_funder_on_def cx_env_def cx_db_def ex_db_def cx_row_def)
  ultimately have "FundWithConstraints std_lib (sql_funder_on cx_env k cx_db) cx_args = Some (Inr ?r)"
    using one_row_fund [OF cx_start _ _ coll _ cx_allocate]
    by (simp add: cx_args_def resolveTiers_def cx_row_def ex_row_def)
  then show ?thesis by (simp add: fund_call_def cx_env_def)
qed

lemma cx_amounts: "plan_amounts cx_env None [] (cp_Outputs (cx_params raw)) None = Inr (832, 19, 1, 0)"
proof -
  have lib: "to_UInt64 std_lib 0 = Some 0" by (simp add: std_lib_def)
  have "varint_ok std_lib" using std_lib_ok by (simp add: go_lib_okD)
  then have "varIntSize std_lib 0 = 1" "varIntSize std_lib 1 = 1"
    by (simp_all add: varIntSize_def varint_ok_def varint_length_def is_u64_def)
  then show ?thesis
    by (simp add: plan_amounts_def Let_def create_txSize_def TransactionSize_def targetSat_def Sum_sats_def cx_env_def cx_params_def
        ValidCreateActionOutput_ScriptLength_def TransactionOutputSize_def txEnvelopeSize_def satoshisSize_def lib example_arith)
qed

lemma cx_plan: "\<exists>pl. plan_action cx_env 1 (cx_params raw) (cx_world\<lparr>w_release := rl\<rparr>) = (Inr pl, cx_world\<lparr>w_release := rl\<rparr>) \<and> cl_params pl = cx_params raw \<and> cl_sweep pl = None \<and>
    cl_commOut pl = None \<and> cl_reference pl = ''ref'' \<and> cl_userID pl = 1 \<and> cl_inputs pl =
    \<lparr>pi_Inputs = [], pi_Beef = NewBeefV2, pi_ChangeOutputIDs = [], pi_KnownOutputIDs = []\<rparr> \<and>
    fund_args_for pl (cl_fundingBasket pl) (cl_existing pl) (cl_constraints pl) = cx_args"
proof -
  have amounts: "plan_amounts cx_env None [] [\<lparr>co_LockingScript = [], co_Satoshis = 832, co_OutputDescription = [], co_Basket = None,
      co_CustomInstructions = None, co_Tags = []\<rparr>] None = Inr (832, 19, 1, 0)"
    using cx_amounts by (simp add: cx_params_def)
  have env: "ce_throughput cx_env = cx_throughput" "ce_Base64 cx_env = (\<lambda>_ _. Inr ''ref'')" "ce_commissionSatoshis cx_env = 0"
    by (simp_all add: cx_env_def)
  show ?thesis
    by (simp add: plan_action_def step_defs env cx_params_def cx_world_def cx_throughput_def cx_db_def ex_defs Let_def
      FindBasketByName_def BasketNameForChange_def validateFuelShape_def validateReservedBaskets_def choose_funding_basket_def
      getNoSendOutputs_def FindOutputsByOutpoints_def NoSendChangeOutputs_def newInputsProcessor_def processInputs_def
      createCommissionOutput_def amounts SweepMaxSatoshis_def plan_constraints_def CountUTXOs_def notReserved_def fund_args_for_def cx_args_def)
qed

lemma cx_build:
  assumes pl: "cl_params pl = cx_params raw" "cl_sweep pl = None" "cl_commOut pl = None" "cl_reference pl = ''ref''" "cl_userID pl = 1"
    "cl_inputs pl = \<lparr>pi_Inputs = [], pi_Beef = NewBeefV2, pi_ChangeOutputIDs = [], pi_KnownOutputIDs = []\<rparr>"
    and args: "fund_args_for pl (cl_fundingBasket pl) (cl_existing pl) (cl_constraints pl) = cx_args"
  shows "\<exists>built nt. build_action cx_env pl k cx_db = Inr (built, nt) \<and> nt_UserID nt = 1 \<and> nt_ReservedOutputIDs nt = [1] \<and>
    nt_SpentOutputIDs nt = [1] \<and> nt_Reference nt = ''ref'' \<and> nt_Commission nt = None \<and>
    fr_AllocatedUTXOs (cb_funding built) = [\<lparr>ux_OutputID = 1, ux_Satoshis = 1000\<rparr>] \<and>
    nt_Outputs nt = cb_outputs built \<and> nt_UTXOStatus nt = UTXOStatusUnknown \<and> cb_outputs built =
    [\<lparr>no_LockingScript = Some [], no_CustomInstructions = None, no_Satoshis = 832, no_BasketName = None, no_Spendable = True,
      no_Change = False, no_ProvidedBy = ''you'', no_Purpose = [], no_Type = OutputTypeCustom, no_DerivationPrefix = None,
      no_DerivationSuffix = None, no_Description = [], no_Vout = 0, no_SenderIdentityKey = None, no_Tags = []\<rparr>]"
proof -
  have env: "ce_lib cx_env = std_lib" "bs_Bytes (ce_sdk cx_env) = (\<lambda>b. Inr [9])" "ce_Base64 cx_env = (\<lambda>_ _. Inr ''ref'')"
    by (simp_all add: cx_env_def simple_sdk_def)
  have seq: "seq_Of_sat std_lib [] = []" by (simp add: std_lib_def)
  show ?thesis
    by (simp add: build_action_def Let_def fund_action_def args cx_fund pl settle_sweep_def Distribute_def env seq randomDerivation_def
        newOutputs_def cx_params_def provided_output_def number_outputs_def TotalAllocated_def Sum_sats_def mapReservedOutputIDs_def
        createCommissionEntity_def example_arith)
qed

lemma outcome_Inr:
  assumes "MustFrom (Unsigned (tc_Denomination tc)) = Inr d"
  shows "rbind (classifyThroughputOutcome tc funding fallback) (\<lambda>_. Inr ()) = Inr ()"
  by (simp add: classifyThroughputOutcome_def assms split: list.split)

text \<open>A call whose first attempt succeeds.\<close>

lemma first_attempt_Create:
  assumes plan: "plan_action env userID params (w\<lparr>w_release := Some (newRelease userID)\<rparr>) = (Inr pl, w\<lparr>w_release := Some (newRelease userID)\<rparr>)"
    and build: "build_action env pl 1 (w_db w) = Inr (made, nt)" and create: "createTransactionInTx (ce_lib env) nt (w_db w) = Inr (i, db2)"
    and other: "ce_meanwhile env = (\<lambda>_ db. db)" and denomination: "MustFrom (Unsigned (tc_Denomination (ce_throughput env))) = Inr d"
    and ins: "resultInputs (fr_AllocatedUTXOs (cb_funding made)) (cp_IncludeInputSourceRawTxs (cl_params pl)) (pi_Inputs (cl_inputs pl)) db2 = Inr ins"
    and beef: "mergeAllocatedUTXOs (ce_sdk env) (pi_Beef (cl_inputs pl)) (fr_AllocatedUTXOs (cb_funding made)) (cp_KnownTxIDs (cl_params pl))
      (cp_TrustSelf (cl_params pl) \<and> cp_ReturnTXIDOnly (cl_params pl)) db2 = Inr beef"
    and outs: "resultOutputs (ce_lib env) (cb_outputs made) = Inr outs"
  shows "\<exists>res w'. Create env userID params w = (Inr res, w') \<and> cr_Inputs res = ins \<and> cr_Outputs res = outs"
proof -
  let ?w = "w\<lparr>w_release := Some (newRelease userID)\<rparr>"
  have "attempt_action env pl 1 (w_db w) = (Inr made, db2)"
    using build create by (simp add: attempt_action_def claim_or_heal_def)
  then have "wattempts env pl ?w = (Inr made, ?w\<lparr>w_db := db2\<rparr>)"
    by (simp add: wattempts_def retryOnContention_def maxFundingAttempts_def numeral_2_eq_2 other)
  with plan ins beef outs outcome_Inr [OF denomination] show ?thesis
    by (simp add: Create_def create_body_def wbind_def warm_def wread_def wwrap_def wresult_def wreturn_def Let_def)
qed

lemma cx_stored: "\<exists>pl made nt db2. plan_action cx_env 1 (cx_params raw) (cx_world\<lparr>w_release := Some (newRelease 1)\<rparr>) =
      (Inr pl, cx_world\<lparr>w_release := Some (newRelease 1)\<rparr>) \<and> build_action cx_env pl 1 cx_db = Inr (made, nt) \<and>
    createTransactionInTx std_lib nt cx_db = Inr (3, db2) \<and> cl_params pl = cx_params raw \<and> cl_reference pl = ''ref'' \<and>
    cl_inputs pl = \<lparr>pi_Inputs = [], pi_Beef = NewBeefV2, pi_ChangeOutputIDs = [], pi_KnownOutputIDs = []\<rparr> \<and>
    fr_AllocatedUTXOs (cb_funding made) = [\<lparr>ux_OutputID = 1, ux_Satoshis = 1000\<rparr>] \<and>
    (\<exists>o'. resultOutputs std_lib (cb_outputs made) = Inr [o'] \<and> int (co_Satoshis (ro_Output o')) = 832) \<and>
    FindOutputsByIDs [1] db2 = [(ex_out 1 1 (Some 3) 1000)\<lparr>or_LockingScript := Some [7]\<rparr>] \<and> FindKnownTxRawTx ''aa'' db2 = None \<and>
    output_txid db2 ((ex_out 1 1 (Some 3) 1000)\<lparr>or_LockingScript := Some [7]\<rparr>) = Some ''aa'' \<and> FindTxIDsByOutputIDs [1] db2 = [Some ''aa'']"
proof -
  let ?w = "cx_world\<lparr>w_release := Some (newRelease 1)\<rparr>"
  obtain pl where plan: "plan_action cx_env 1 (cx_params raw) ?w = (Inr pl, ?w)" and pl: "cl_params pl = cx_params raw" "cl_sweep pl = None"
    "cl_commOut pl = None" "cl_reference pl = ''ref''" "cl_userID pl = 1"
    "cl_inputs pl = \<lparr>pi_Inputs = [], pi_Beef = NewBeefV2, pi_ChangeOutputIDs = [], pi_KnownOutputIDs = []\<rparr>"
    "fund_args_for pl (cl_fundingBasket pl) (cl_existing pl) (cl_constraints pl) = cx_args" using cx_plan by metis
  obtain made nt where build: "build_action cx_env pl 1 cx_db = Inr (made, nt)" and nt: "nt_UserID nt = 1" "nt_ReservedOutputIDs nt = [1]"
    "nt_SpentOutputIDs nt = [1]" "nt_Reference nt = ''ref''" "nt_Commission nt = None" "nt_Outputs nt = cb_outputs made"
    "nt_UTXOStatus nt = UTXOStatusUnknown" and al: "fr_AllocatedUTXOs (cb_funding made) = [\<lparr>ux_OutputID = 1, ux_Satoshis = 1000\<rparr>]"
    and out: "cb_outputs made = [\<lparr>no_LockingScript = Some [], no_CustomInstructions = None, no_Satoshis = 832, no_BasketName = None,
      no_Spendable = True, no_Change = False, no_ProvidedBy = ''you'', no_Purpose = [], no_Type = OutputTypeCustom,
      no_DerivationPrefix = None, no_DerivationSuffix = None, no_Description = [], no_Vout = 0, no_SenderIdentityKey = None, no_Tags = []\<rparr>]"
    using cx_build [OF pl, of 1] by metis
  have "\<exists>db2. createTransactionInTx std_lib nt cx_db = Inr (3, db2) \<and> FindOutputsByIDs [1] db2 = [(ex_out 1 1 (Some 3) 1000)\<lparr>or_LockingScript := Some [7]\<rparr>] \<and>
      FindKnownTxRawTx ''aa'' db2 = None \<and>
      output_txid db2 ((ex_out 1 1 (Some 3) 1000)\<lparr>or_LockingScript := Some [7]\<rparr>) = Some ''aa'' \<and> FindTxIDsByOutputIDs [1] db2 = [Some ''aa'']"
    by (simp add: createTransactionInTx_def toTransactionModel_def makeNewOutput_def nt out Let_def HexString_ToBytes_def
        insert_transaction_def reserveUTXOs_def markReservedOutputsAsNotSpendable_def count_where_def update_where_def cx_db_def ex_defs
        FindOutputsByIDs_def output_txid_def FindTxIDsByOutputIDs_def FindKnownTxRawTx_def find_known_def)
  moreover have "\<exists>o'. resultOutputs std_lib (cb_outputs made) = Inr [o'] \<and> int (co_Satoshis (ro_Output o')) = 832"
    by (simp add: resultOutputs_def resultOutput_def out std_lib_def)
  ultimately show ?thesis using plan build pl(1,4,6) al by blast
qed

lemma cx_env_fields: "ce_lib cx_env = std_lib" "ce_meanwhile cx_env = (\<lambda>_ db. db)"
    "bs_Bytes (ce_sdk cx_env) = (\<lambda>b. Inr [9])" "bs_FindTransaction (ce_sdk cx_env) = (\<lambda>b x. Some ex_parent)"
    "cp_IncludeInputSourceRawTxs (cx_params raw) = raw" "cp_KnownTxIDs (cx_params raw) = []" "cp_TrustSelf (cx_params raw) = False"
    "w_db cx_world = cx_db" "MustFrom (Unsigned (tc_Denomination (ce_throughput cx_env))) = Inr 0"
  by (simp_all add: cx_env_def simple_sdk_def cx_params_def cx_world_def cx_throughput_def example_arith)

lemma cx_create: "\<exists>res w. Create cx_env 1 (cx_params False) cx_world = (Inr res, w) \<and> map ri_SourceSatoshis (cr_Inputs res) = [1000] \<and>
    map (int \<circ> co_Satoshis \<circ> ro_Output) (cr_Outputs res) = [832]"
proof -
  from cx_stored [of False] obtain pl made nt db2 o' where
    plan: "plan_action cx_env 1 (cx_params False) (cx_world\<lparr>w_release := Some (newRelease 1)\<rparr>) = (Inr pl, cx_world\<lparr>w_release := Some (newRelease 1)\<rparr>)"
    and build: "build_action cx_env pl 1 cx_db = Inr (made, nt)" and create: "createTransactionInTx std_lib nt cx_db = Inr (3, db2)"
    and pl: "cl_params pl = cx_params False" "cl_inputs pl = \<lparr>pi_Inputs = [], pi_Beef = NewBeefV2, pi_ChangeOutputIDs = [], pi_KnownOutputIDs = []\<rparr>"
    and al: "fr_AllocatedUTXOs (cb_funding made) = [\<lparr>ux_OutputID = 1, ux_Satoshis = 1000\<rparr>]"
    and outs: "resultOutputs std_lib (cb_outputs made) = Inr [o']" "int (co_Satoshis (ro_Output o')) = 832"
    and found: "FindOutputsByIDs [1] db2 = [(ex_out 1 1 (Some 3) 1000)\<lparr>or_LockingScript := Some [7]\<rparr>]"
      "output_txid db2 ((ex_out 1 1 (Some 3) 1000)\<lparr>or_LockingScript := Some [7]\<rparr>) = Some ''aa''" "FindTxIDsByOutputIDs [1] db2 = [Some ''aa'']"
    by (elim exE conjE)
  have "\<exists>inp. resultInputs [\<lparr>ux_OutputID = 1, ux_Satoshis = 1000\<rparr>] False [] db2 = Inr [inp] \<and> ri_SourceSatoshis inp = 1000"
    using found by (simp add: resultInputs_def Let_def resultInputForKnownUTXO_def) (simp add: ex_out_def)
  then obtain inp where ins: "resultInputs [\<lparr>ux_OutputID = 1, ux_Satoshis = 1000\<rparr>] False [] db2 = Inr [inp]" "ri_SourceSatoshis inp = 1000"
    by blast
  have beef: "mergeAllocatedUTXOs (ce_sdk cx_env) NewBeefV2 [\<lparr>ux_OutputID = 1, ux_Satoshis = 1000\<rparr>] [] False db2 = Inr [9]"
    using found(3) by (simp add: mergeAllocatedUTXOs_def Let_def GetBEEFForTxIDs_def cx_env_fields)
  have "\<exists>res w'. Create cx_env 1 (cx_params False) cx_world = (Inr res, w') \<and> cr_Inputs res = [inp] \<and> cr_Outputs res = [o']"
    by (rule first_attempt_Create [OF plan, where d = 0]) (use build create ins beef outs in \<open>simp_all add: cx_env_fields pl al\<close>)
  with ins(2) outs(2) show ?thesis by auto
qed


section \<open>The fuel pool\<close>

text \<open>C8. The pool and the reserve of the throughput strategy stay uniform. When the strategy is enabled, a created output lands in one
  of its two baskets only as part of the fan-out that the call asked for, with the amount the shape names; in the pool this amount is
  exactly the denomination, and in the reserve it pays for at least one full fan-out.\<close>

theorem fuel_pool_stays_uniform:
  assumes "create_setting env model w0" and "Create env userID params w0 = (Inr res, w)" and "tc_Enabled (ce_throughput env)"
    and "BasketNameForChange \<notin> {tc_PoolBasket (ce_throughput env), tc_ReserveBasket (ce_throughput env)}"
    and "o' \<in> set (cr_Outputs res)" and "co_Basket (ro_Output o') \<in> {Some (tc_PoolBasket (ce_throughput env)), Some (tc_ReserveBasket (ce_throughput env))}"
  shows "\<exists>s. cp_FuelShape params = Some s \<and> co_Basket (ro_Output o') = Some (sh_Basket s) \<and> co_Satoshis (ro_Output o') = sh_Satoshis s \<and>
    (if sh_Basket s = tc_PoolBasket (ce_throughput env) then sh_Satoshis s = tc_Denomination (ce_throughput env)
     else u64_mul (tc_FanoutOutputsPerTx (ce_throughput env)) (tc_Denomination (ce_throughput env)) \<le> sh_Satoshis s)"
proof -
  let ?tc = "ce_throughput env"
  from Create_success [OF assms(1,2)] obtain pl w1 k db1 built nt i outputs where
    plan: "plan_action env userID params (w0\<lparr>w_release := Some (newRelease userID)\<rparr>) = (Inr pl, w1)"
    and ok: "plan_ok (db_Outputs (w_db w0)) pl" and st: "attempt_state env (w_db w0) db1"
    and build: "build_action env pl k db1 = Inr (built, nt)"
    and outs: "resultOutputs (ce_lib env) (cb_outputs built) = Inr outputs" and res: "cr_Outputs res = outputs"
    by (metis create_result.select_convs(3))
  have env: "create_env_ok env model" using assms(1) by (simp add: create_setting_def)
  have tbl: "utxo_table (db_UserUTXOs db1)" using st table_utxo by (simp add: attempt_state_def)
  from build_action_ok [OF build env ok tbl] obtain final amounts plain where
    made: "made_of (cb_outputs built) final (cl_commOut pl) (cb_prefix built) amounts (cp_FuelShape (cl_params pl)) plain"
    and final: "map co_Basket final = map co_Basket (cp_Outputs (cl_params pl))" and am: "\<forall>x \<in> set amounts. valid_sats x" by metis
  note out = result_outputs_sum [OF outs create_env_okD(3) [OF env] valid_sats_i64 [OF made_of_valid [OF made am]]]
  let ?f = "\<lambda>o'. (co_Basket (ro_Output o'), int (co_Satoshis (ro_Output o')))"
  have "?f o' \<in> set (map ?f outputs)" using assms(5) res by force
  also have "set (map ?f outputs) = set (map (\<lambda>o'. (no_BasketName o', no_Satoshis o')) (cb_outputs built))" by (simp only: out(3))
  finally obtain q where q: "q \<in> set (cb_outputs built)" "no_BasketName q = co_Basket (ro_Output o')" "no_Satoshis q = int (co_Satoshis (ro_Output o'))"
    by auto
  obtain sweep where reserved: "validateReservedBaskets ?tc (cp_Outputs (cl_params pl)) = Inr ()"
    and shape: "validateFuelShape ?tc (cp_FuelShape (cl_params pl)) sweep = Inr ()" "cp_FuelShape (cl_params pl) = cp_FuelShape params"
    by (rule plan_actionE [OF plan]) simp
  have "no_BasketName q \<notin> set (map co_Basket final) \<union> {None, Some BasketNameForChange}"
    using reserved assms(3,4,6) unfolding final q(2) by (auto simp: validateReservedBaskets_def split: if_splits)
  with made_of_basket [OF made q(1)] obtain s where s: "cp_FuelShape (cl_params pl) = Some s" "no_BasketName q = Some (sh_Basket s)"
    "no_Satoshis q = int (sh_Satoshis s)" by blast
  then show ?thesis
    using shape q assms(3) by (auto simp: validateFuelShape_def not_less split: if_splits)
qed

text \<open>A fan-out of one output: the reserve pays 500 satoshis into the pool.\<close>

definition fx_throughput :: throughput_config where
  "fx_throughput = cx_throughput\<lparr>tc_Enabled := True, tc_Denomination := 500\<rparr>"

definition fx_env :: create_env where
  "fx_env = cx_env\<lparr>ce_throughput := fx_throughput\<rparr>"

definition fx_shape :: shaped_change where
  "fx_shape = \<lparr>sh_Count = 1, sh_Satoshis = 500, sh_Basket = ''fuel''\<rparr>"

definition fx_params :: create_params where
  "fx_params = (cx_params False)\<lparr>cp_Outputs := [], cp_FuelShape := Some fx_shape\<rparr>"

definition fx_row :: user_utxo where
  "fx_row = (ex_row 1 None 693)\<lparr>uu_BasketName := ''reserve''\<rparr>"

definition fx_db :: database where
  "fx_db = cx_db\<lparr>db_Baskets := db_Baskets cx_db @ [\<lparr>br_UserID = 1, br_Name = ''reserve'', br_NumberOfDesiredUTXOs = 1,
       br_MinimumDesiredUTXOValue = 1000\<rparr>],
     db_Outputs := [(ex_out 1 1 None 693)\<lparr>or_LockingScript := Some [7], or_BasketName := Some ''reserve''\<rparr>], db_UserUTXOs := [fx_row]\<rparr>"

definition fx_world :: world where
  "fx_world = cx_world\<lparr>w_db := fx_db\<rparr>"

lemma fx_setting: "create_setting fx_env example_model fx_world"
proof -
  have "db_inv fx_db"
    by (simp add: fx_db_def fx_row_def cx_db_def ex_defs db_inv_def txs_ok_def outs_ok_def out_ok_def owned_tx_def index_ok_def row_fits_def
        known_ok_def keyed_def is_i64_def WasBroadcastStatus_def)
  moreover have "table_fits fx_db" by (simp add: table_fits_def fx_db_def)
  ultimately show ?thesis
    by (simp add: create_setting_def create_env_ok_def meanwhile_ok_def fx_env_def cx_env_def fx_world_def fx_throughput_def cx_throughput_def
        std_lib_ok example_new) (simp add: example_model_def)
qed

definition fx_args :: fund_args where
  "fx_args = cx_args\<lparr>fa_TargetSat := 500, fa_CurrentTxSize := 44,
     fa_Basket := \<lparr>ob_Name = ''reserve'', ob_NumberOfDesiredUTXOs = 1, ob_MinimumDesiredUTXOValue = 1000\<rparr>,
     fa_Constraints := \<lparr>cs_Tiers = Some (SpendTiers SpendPolicyAny), cs_MaxChangeOutputs = 1\<rparr>\<rparr>"

definition fx_collector :: utxo_collector where
  "fx_collector = example_collector\<lparr>c_txSats := 500, c_txSize := 44, c_fee := 45, c_numberOfDesiredUTXOs := 1, c_maxChangeOutputsPerTx := 1\<rparr>"

definition fx_collector' :: utxo_collector where
  "fx_collector' = fx_collector\<lparr>c_txSize := 192, c_fee := 193, c_satsCovered := 693,
     c_allocatedUTXOs := [\<lparr>ux_OutputID = 1, ux_Satoshis = 693\<rparr>]\<rparr>"

lemma fx_fees: "Calculate std_lib example_fc 44 = Inr 45" "Calculate std_lib example_fc 192 = Inr 193"
  by (simp_all add: example_fee ceiling_eq_iff)

lemma fx_start: "start_collector std_lib (sql_funder_on fx_env k fx_db) fx_args = Inr fx_collector"
proof -
  have lib: "to_NoLessThan_u64 std_lib = max" "to_NoLessThan_i64 std_lib = max"
    "must_ConvertToUInt64 std_lib 1 = Some 1" by (simp_all add: std_lib_def)
  show ?thesis
    by (simp add: start_collector_def fx_args_def cx_args_def sql_funder_on_def fx_env_def cx_env_def newCollector_def increaseSize_def
        calculateMinimumChange_def calculateChangeOutputs_def setChangeOutputsSize_def change_def satsToCover_def
        fx_collector_def example_collector_def lib example_dust fx_fees example_arith Let_def)
qed

lemma fx_allocate: "allocateUTXO std_lib fx_row fx_collector = Inr fx_collector'"
  by (simp add: allocateUTXO_def addToAllocated_def fx_row_def ex_row_def fx_collector_def example_collector_def increaseSize_def
      increaseValue_def calculateChangeOutputs_def setChangeOutputsSize_def change_def satsToCover_def
      fx_collector'_def fx_fees example_arith Let_def)

lemma fx_fund: "fund_call fx_env k fx_db fx_args = Inr \<lparr>fr_AllocatedUTXOs = [\<lparr>ux_OutputID = 1, ux_Satoshis = 693\<rparr>],
  fr_ChangeOutputsCount = 0, fr_ChangeAmount = 0, fr_Fee = 193, fr_DustFloor = 386, fr_ChangeInitialValue = 1000\<rparr>" (is "_ = Inr ?r")
proof -
  have coll: "IsFunded fx_collector = Inr False" "IsFunded fx_collector' = Inr True" "remaining std_lib fx_collector = Inr (int 545)" "(0::nat) < 545"
    by (simp_all add: IsFunded_def remaining_def remaining_default_def fx_collector_def fx_collector'_def example_collector_def
        satsToCover_def example_arith)
  have "GetResult fx_collector' = Inr ?r"
    by (simp add: GetResult_def coll prepareResult_def)
      (simp add: change_def satsToCover_def changeInitialValue_def fx_collector'_def fx_collector_def example_collector_def example_arith)
  moreover have "sf_utxoRepository (sql_funder_on fx_env k fx_db) = UTXOs_repository [fx_row] (\<lambda>_. False)"
    by (simp add: sql_funder_on_def fx_env_def cx_env_def fx_db_def)
  ultimately have "FundWithConstraints std_lib (sql_funder_on fx_env k fx_db) fx_args = Some (Inr ?r)"
    using one_row_fund [OF fx_start _ _ coll _ fx_allocate]
    by (simp add: fx_args_def cx_args_def resolveTiers_def SpendTiers_def fx_row_def ex_row_def)
  then show ?thesis by (simp add: fund_call_def fx_env_def cx_env_def)
qed

lemma fx_amounts: "plan_amounts fx_env (Some fx_shape) [] [] None = Inr (500, 44, 1, 500)"
proof -
  have ok: "varint_ok std_lib" using std_lib_ok by (simp add: go_lib_okD)
  then have "varIntSize std_lib 0 = 1" by (simp add: varIntSize_def varint_ok_def varint_length_def is_u64_def)
  then show ?thesis
    by (simp add: plan_amounts_def Let_def create_txSize_def TransactionSize_def targetSat_def Sum_sats_def fx_env_def cx_env_def fx_shape_def
        txEnvelopeSize_def P2PKH_sizes(1) [OF ok] Multiply_def example_arith)
qed

lemma fx_plan: "\<exists>pl. plan_action fx_env 1 fx_params (fx_world\<lparr>w_release := rl\<rparr>) = (Inr pl, fx_world\<lparr>w_release := rl\<rparr>) \<and> cl_params pl = fx_params \<and>
    cl_sweep pl = None \<and> cl_commOut pl = None \<and> cl_reference pl = ''ref'' \<and> cl_userID pl = 1 \<and> cl_shapeValue pl = 500 \<and> cl_inputs pl =
    \<lparr>pi_Inputs = [], pi_Beef = NewBeefV2, pi_ChangeOutputIDs = [], pi_KnownOutputIDs = []\<rparr> \<and>
    fund_args_for pl (cl_fundingBasket pl) (cl_existing pl) (cl_constraints pl) = fx_args"
proof -
  have env: "ce_throughput fx_env = fx_throughput" "ce_Base64 fx_env = (\<lambda>_ _. Inr ''ref'')" "ce_commissionSatoshis fx_env = 0"
    by (simp_all add: fx_env_def cx_env_def)
  have shape: "sh_Count fx_shape = 1" "sh_Satoshis fx_shape = 500" "sh_Basket fx_shape = ''fuel''" by (simp_all add: fx_shape_def)
  show ?thesis
    by (simp add: plan_action_def step_defs env fx_params_def cx_params_def fx_world_def cx_world_def fx_throughput_def cx_throughput_def fx_db_def
      cx_db_def Let_def FindBasketByName_def BasketNameForChange_def validateFuelShape_def validateReservedBaskets_def choose_funding_basket_def
      ensureBasket_def getNoSendOutputs_def FindOutputsByOutpoints_def NoSendChangeOutputs_def newInputsProcessor_def processInputs_def
      createCommissionOutput_def fx_amounts shape plan_constraints_def fund_args_for_def fx_args_def cx_args_def)
qed

lemma fx_build:
  assumes pl: "cl_params pl = fx_params" "cl_sweep pl = None" "cl_commOut pl = None" "cl_reference pl = ''ref''" "cl_userID pl = 1"
    "cl_shapeValue pl = 500" "cl_inputs pl = \<lparr>pi_Inputs = [], pi_Beef = NewBeefV2, pi_ChangeOutputIDs = [], pi_KnownOutputIDs = []\<rparr>"
    and args: "fund_args_for pl (cl_fundingBasket pl) (cl_existing pl) (cl_constraints pl) = fx_args"
  shows "\<exists>built nt. build_action fx_env pl k fx_db = Inr (built, nt) \<and> nt_UserID nt = 1 \<and> nt_ReservedOutputIDs nt = [1] \<and>
    nt_SpentOutputIDs nt = [1] \<and> nt_Reference nt = ''ref'' \<and> nt_Commission nt = None \<and>
    fr_AllocatedUTXOs (cb_funding built) = [\<lparr>ux_OutputID = 1, ux_Satoshis = 693\<rparr>] \<and>
    nt_Outputs nt = cb_outputs built \<and> nt_UTXOStatus nt = UTXOStatusUnknown \<and>
    cb_outputs built = [change_output ''fuel'' ''ref'' ''ref'' 500]"
proof -
  have env: "ce_lib fx_env = std_lib" "bs_Bytes (ce_sdk fx_env) = (\<lambda>b. Inr [9])" "ce_Base64 fx_env = (\<lambda>_ _. Inr ''ref'')"
    by (simp_all add: fx_env_def cx_env_def simple_sdk_def)
  have seq: "seq_Of_sat std_lib [] = []" by (simp add: std_lib_def)
  show ?thesis
    by (simp add: build_action_def Let_def fund_action_def args fx_fund pl settle_sweep_def Distribute_def env seq randomDerivation_def
        newOutputs_def fx_params_def cx_params_def fx_shape_def number_outputs_def TotalAllocated_def Sum_sats_def mapReservedOutputIDs_def
        createCommissionEntity_def change_output_def example_arith)
qed

lemma fx_create: "\<exists>res w o'. Create fx_env 1 fx_params fx_world = (Inr res, w) \<and> cr_Outputs res = [o'] \<and> co_Basket (ro_Output o') = Some ''fuel''"
proof -
  let ?w = "fx_world\<lparr>w_release := Some (newRelease 1)\<rparr>" and ?r = "(ex_out 1 1 (Some 3) 693)\<lparr>or_LockingScript := Some [7], or_BasketName := Some ''reserve''\<rparr>"
  obtain pl where plan: "plan_action fx_env 1 fx_params ?w = (Inr pl, ?w)" and pl: "cl_params pl = fx_params" "cl_sweep pl = None"
    "cl_commOut pl = None" "cl_reference pl = ''ref''" "cl_userID pl = 1" "cl_shapeValue pl = 500"
    "cl_inputs pl = \<lparr>pi_Inputs = [], pi_Beef = NewBeefV2, pi_ChangeOutputIDs = [], pi_KnownOutputIDs = []\<rparr>"
    "fund_args_for pl (cl_fundingBasket pl) (cl_existing pl) (cl_constraints pl) = fx_args" using fx_plan by metis
  obtain built nt where build: "build_action fx_env pl 1 fx_db = Inr (built, nt)" and nt: "nt_UserID nt = 1" "nt_ReservedOutputIDs nt = [1]"
    "nt_SpentOutputIDs nt = [1]" "nt_Reference nt = ''ref''" "nt_Commission nt = None" "nt_Outputs nt = cb_outputs built"
    "nt_UTXOStatus nt = UTXOStatusUnknown" and al: "fr_AllocatedUTXOs (cb_funding built) = [\<lparr>ux_OutputID = 1, ux_Satoshis = 693\<rparr>]"
    and out: "cb_outputs built = [change_output ''fuel'' ''ref'' ''ref'' 500]" using fx_build [OF pl, of 1] by metis
  have lib: "to_UInt64 std_lib 500 = Some 500" by (simp add: std_lib_def)
  have "\<exists>db2. createTransactionInTx std_lib nt fx_db = Inr (3, db2) \<and> FindOutputsByIDs [1] db2 = [?r] \<and>
      output_txid db2 ?r = Some ''aa'' \<and> FindTxIDsByOutputIDs [1] db2 = [Some ''aa'']"
    by (simp add: createTransactionInTx_def toTransactionModel_def makeNewOutput_def change_output_def nt out Let_def lib is_EmptyString_def
        EstimatedInputSizeByType_def createIfNotExist_def
        insert_transaction_def reserveUTXOs_def markReservedOutputsAsNotSpendable_def count_where_def update_where_def fx_db_def fx_row_def
        cx_db_def ex_defs FindOutputsByIDs_def output_txid_def FindTxIDsByOutputIDs_def)
  then obtain db2 where create: "createTransactionInTx std_lib nt fx_db = Inr (3, db2)"
    and found: "FindOutputsByIDs [1] db2 = [?r]" "output_txid db2 ?r = Some ''aa''" "FindTxIDsByOutputIDs [1] db2 = [Some ''aa'']"
    by blast
  have env: "ce_lib fx_env = std_lib" "ce_cancelled fx_env = (\<lambda>_. False)" "ce_meanwhile fx_env = (\<lambda>_ db. db)"
    "bs_Bytes (ce_sdk fx_env) = (\<lambda>b. Inr [9])" "bs_FindTransaction (ce_sdk fx_env) = (\<lambda>b x. Some ex_parent)"
    "MustFrom (Unsigned (tc_Denomination (ce_throughput fx_env))) = Inr 500"
    by (simp_all add: fx_env_def cx_env_def simple_sdk_def fx_throughput_def example_arith)
  obtain ins where ins: "resultInputs [\<lparr>ux_OutputID = 1, ux_Satoshis = 693\<rparr>] False [] db2 = Inr ins"
    using found by (simp add: resultInputs_def Let_def resultInputForKnownUTXO_def)
  have beef: "mergeAllocatedUTXOs (ce_sdk fx_env) NewBeefV2 [\<lparr>ux_OutputID = 1, ux_Satoshis = 693\<rparr>] [] False db2 = Inr [9]"
    using found(3) by (simp add: mergeAllocatedUTXOs_def Let_def GetBEEFForTxIDs_def env)
  have "\<exists>o'. resultOutputs std_lib (cb_outputs built) = Inr [o'] \<and> co_Basket (ro_Output o') = Some ''fuel''"
    by (simp add: resultOutputs_def resultOutput_def out std_lib_def change_output_def)
  then obtain o' where outs: "resultOutputs std_lib (cb_outputs built) = Inr [o']" "co_Basket (ro_Output o') = Some ''fuel''" by blast
  have params: "cp_IncludeInputSourceRawTxs fx_params = False" "cp_KnownTxIDs fx_params = []" "cp_TrustSelf fx_params = False"
    by (simp_all add: fx_params_def cx_params_def)
  have "\<exists>res w'. Create fx_env 1 fx_params fx_world = (Inr res, w') \<and> cr_Inputs res = ins \<and> cr_Outputs res = [o']"
    by (rule first_attempt_Create [OF plan, where d = 500]) (use build create ins beef outs in \<open>simp_all add: env pl al params fx_world_def\<close>)
  with outs(2) show ?thesis by auto
qed

theorem fuel_pool_stays_uniform_witness:
  "\<exists>res w o'. Create fx_env 1 fx_params fx_world = (Inr res, w) \<and> o' \<in> set (cr_Outputs res) \<and> co_Basket (ro_Output o') = Some ''fuel'' \<and>
     co_Satoshis (ro_Output o') = 500"
proof -
  from fx_create obtain res w o' where c: "Create fx_env 1 fx_params fx_world = (Inr res, w)" "cr_Outputs res = [o']"
    "co_Basket (ro_Output o') = Some ''fuel''" by (elim exE conjE)
  have tc: "tc_Enabled (ce_throughput fx_env)" "tc_PoolBasket (ce_throughput fx_env) = ''fuel''" "tc_ReserveBasket (ce_throughput fx_env) = ''reserve''"
    by (simp_all add: fx_env_def fx_throughput_def cx_throughput_def)
  have "co_Satoshis (ro_Output o') = 500"
    using fuel_pool_stays_uniform [OF fx_setting c(1) tc(1), of o'] c(2,3) tc
    by (simp add: BasketNameForChange_def) (simp add: fx_params_def fx_shape_def)
  with c show ?thesis by auto
qed

section \<open>Failure\<close>

text \<open>C7. A failed call keeps nothing. When \<open>Create\<close> returns an error, no transaction with its reference holds anything: either
  none was stored, or it is aborted, no output is spent by it and no row of the index is reserved for it. The call has to be the only one that
  uses its random reference, and change outputs have to be of the type the wallet creates.\<close>

theorem failed_create_gives_back:
  assumes "create_setting env model w0" and "ce_Base64 env 0 0 = Inr reference" "reference \<noteq> []"
    and start: "fresh_reference reference (w_db w0)" "change_is_P2PKH (db_Outputs (w_db w0))"
    and keeps: "\<forall>k db. fresh_reference reference db \<and> change_is_P2PKH (db_Outputs db) \<longrightarrow>
      fresh_reference reference (ce_meanwhile env k db) \<and> change_is_P2PKH (db_Outputs (ce_meanwhile env k db))"
    and fail: "Create env userID params w0 = (Inl e, w)" "\<not> is_panic e"
  shows "given_back reference (w_db w)"
proof -
  let ?J = "\<lambda>db. fresh_reference reference db \<and> change_is_P2PKH (db_Outputs db)" and ?w = "w0\<lparr>w_release := Some (newRelease userID)\<rparr>"
  have J_back: "given_back reference db" if "?J db" for db using that by (auto simp: given_back_def fresh_reference_def)
  obtain w1 where body: "create_body env userID params ?w = (Inl e, w1)"
    and w: "w = w1\<lparr>w_release := fst (onError (Some (AbortAction (ce_lib env))) (Some e) (w_release w1) (w_db w1)),
      w_db := snd (onError (Some (AbortAction (ce_lib env))) (Some e) (w_release w1) (w_db w1))\<rparr>"
    using fail by (auto simp: Create_def split: prod.splits sum.splits)
  have "create_setting env model ?w" using assms(1) by (simp add: create_setting_def)
  from create_body_Inl [OF body this _ assms(2,3), of ?J] keeps start
  consider (clean) "?J (w_db w1)" "w_release w1 = Some (newRelease userID)"
    | (stored) pl k db1 made nt i where "plan_ok (db_Outputs (w_db w0)) pl" "cl_userID pl = userID" "cl_reference pl = reference"
        "attempt_state env (w_db w0) db1" "?J db1" "build_action env pl k db1 = Inr (made, nt)"
        "createTransactionInTx (ce_lib env) nt db1 = Inr (i, w_db w1)"
        "w_release w1 = Some \<lparr>rl_userID = userID, rl_reference = reference, rl_armed = True\<rparr>"
    by (simp add: fresh_reference_def DeleteIndexRows_def FindOrCreateBasket_def createIfNotExist_frame) metis
  then show ?thesis
  proof cases
    case clean
    then show ?thesis using J_back by (simp add: w onError_def newRelease_def)
  next
    case stored
    have env: "create_env_ok env model" "db_inv (w_db w0)" using assms(1) by (simp_all add: create_setting_def)
    have tbl: "utxo_table (db_UserUTXOs db1)" "db_inv db1" using stored(4) table_utxo by (simp_all add: attempt_state_def)
    obtain final amounts plain where
      made: "made_of (cb_outputs made) final (cl_commOut pl) (cb_prefix made) amounts (cp_FuelShape (cl_params pl)) plain"
      by (rule build_action_ok [OF stored(6) env(1) stored(1) tbl(1)])
    have nt: "nt_UserID nt = userID" "nt_Reference nt = reference" "nt_TxID nt = None" "nt_Status nt = TxStatusUnsigned" "nt_IsOutgoing nt"
      "nt_Outputs nt = cb_outputs made" by (rule build_actionE [OF stored(6)], simp add: stored(2,3))+
    have "given_back (nt_Reference nt) (snd (AbortAction (ce_lib env) (nt_UserID nt) (nt_Reference nt) (w_db w1)))"
      using made_of_types [OF made] stored(5) nt built_tx_ok [OF stored(6) env(1) stored(1) tbl(1)]
      by (intro created_action_given_back [OF tbl(2) create_env_okD(3) [OF env(1)] _ built_inputs_old [OF env(1) stored(1) env(2) stored(4,6)] stored(7)]) auto
    then show ?thesis using nt stored(8) by (simp add: w onError_def)
  qed
qed

text \<open>The raw transaction of the source is missing, so the call fails after its action was stored.\<close>

lemma cx_fail: "\<exists>e w. Create cx_env 1 (cx_params True) cx_world = (Inl e, w) \<and> \<not> is_panic e"
proof -
  let ?w = "cx_world\<lparr>w_release := Some (newRelease 1)\<rparr>"
  from cx_stored [of True] obtain pl made nt db2 where plan: "plan_action cx_env 1 (cx_params True) ?w = (Inr pl, ?w)"
    and build: "build_action cx_env pl 1 cx_db = Inr (made, nt)" and create: "createTransactionInTx std_lib nt cx_db = Inr (3, db2)"
    and pl: "cl_params pl = cx_params True" "cl_inputs pl = \<lparr>pi_Inputs = [], pi_Beef = NewBeefV2, pi_ChangeOutputIDs = [], pi_KnownOutputIDs = []\<rparr>"
    and al: "fr_AllocatedUTXOs (cb_funding made) = [\<lparr>ux_OutputID = 1, ux_Satoshis = 1000\<rparr>]"
    and found: "FindOutputsByIDs [1] db2 = [(ex_out 1 1 (Some 3) 1000)\<lparr>or_LockingScript := Some [7]\<rparr>]" "FindKnownTxRawTx ''aa'' db2 = None"
      "output_txid db2 ((ex_out 1 1 (Some 3) 1000)\<lparr>or_LockingScript := Some [7]\<rparr>) = Some ''aa''" by (elim exE conjE)
  obtain e where bad: "resultInputs [\<lparr>ux_OutputID = 1, ux_Satoshis = 1000\<rparr>] True [] db2 = Inl e" and e: "\<not> is_panic e"
    using found by (simp add: resultInputs_def Let_def resultInputForKnownUTXO_def)
  have "attempt_action cx_env pl 1 cx_db = (Inr made, db2)"
    using build create by (simp add: attempt_action_def claim_or_heal_def cx_env_fields)
  then have "wattempts cx_env pl ?w = (Inr made, ?w\<lparr>w_db := db2\<rparr>)"
    by (simp add: wattempts_def retryOnContention_def maxFundingAttempts_def numeral_2_eq_2 cx_env_fields)
  with plan bad have "\<exists>w. create_body cx_env 1 (cx_params True) ?w = (Inl e, w)"
    by (simp add: create_body_def wbind_def warm_def wread_def wresult_def pl al cx_env_fields outcome_Inr [OF cx_env_fields(9)] Let_def)
  with e show ?thesis by (auto simp: Create_def split: prod.splits)
qed

theorem failed_create_gives_back_witness:
  "\<exists>e w. Create cx_env 1 (cx_params True) cx_world = (Inl e, w) \<and> given_back ''ref'' (w_db w)"
proof -
  from cx_fail obtain e w where fail: "Create cx_env 1 (cx_params True) cx_world = (Inl e, w)" "\<not> is_panic e" by blast
  have "given_back ''ref'' (w_db w)"
    by (rule failed_create_gives_back [OF cx_setting _ _ _ _ _ fail])
      (simp_all add: cx_env_def cx_world_def fresh_reference_def change_is_P2PKH_def cx_db_def ex_defs)
  with fail show ?thesis by blast
qed

end
