(* ===== verification/Internalize.thy ===== *)
theory Internalize
  imports Create_Action Process_Action
begin

text \<open>
  Taking in a transaction that somebody else has made, \<open>pkg/storage/internal/actions/internalize.go\<close>, with the arguments and their
  validation (\<open>pkg/wdk/storage_internalize_action_args.go\<close>, \<open>pkg/internal/validate/validate_internalize_action_args.go\<close>) and
  \<open>SaveOutputs\<close> of the outputs repository.

  The parser of atomic BEEF data, the verifiers, the block headers and the transaction object of the SDK are third-party code and
  fields of \<open>internalize_env\<close>. \<open>gorm\<close>'s \<open>Save\<close> is documented to write every column: the creation time, which the new value does not have,
  is written as the zero time. A has-one association is inserted unless its key exists.
\<close>

section \<open>Arguments\<close>

datatype internalize_protocol = WalletPaymentProtocol | BasketInsertionProtocol | UnknownProtocol string

record wallet_payment =
  wy_DerivationPrefix :: string
  wy_DerivationSuffix :: string
  wy_SenderIdentityKey :: string

definition WalletPayment_Validate :: "wallet_payment \<Rightarrow> unit result" where
  "WalletPayment_Validate w =
     rbind (rwrap ''derivation prefix must be'' (Base64String_Validate (wy_DerivationPrefix w))) (\<lambda>_.
     rbind (rwrap ''derivation suffix must be'' (Base64String_Validate (wy_DerivationSuffix w))) (\<lambda>_.
     rwrap ''sender identity key must be'' (PubKeyHex_Validate (wy_SenderIdentityKey w))))"

record basket_insertion =
  bi_Basket :: string
  bi_CustomInstructions :: "string option"
  bi_Tags :: "string list"

fun validate_tags :: "string list \<Rightarrow> unit result" where
  "validate_tags [] = Inr ()"
| "validate_tags (tag # tags) = rbind (rwrap ''tag must be'' (StringUnder300_Validate tag)) (\<lambda>_. validate_tags tags)"

definition BasketInsertion_Validate :: "basket_insertion \<Rightarrow> unit result" where
  "BasketInsertion_Validate b =
     (if bi_Basket b = '''' then Inl (GoErr ''basket cannot be empty'')
      else rbind (rwrap ''basket must be'' (StringUnder300_Validate (bi_Basket b))) (\<lambda>_. validate_tags (bi_Tags b)))"

record internalize_output =
  io_OutputIndex :: nat
  io_Protocol :: internalize_protocol
  io_PaymentRemittance :: "wallet_payment option"
  io_InsertionRemittance :: "basket_insertion option"

definition InternalizeOutput_Validate :: "internalize_output \<Rightarrow> unit result" where
  "InternalizeOutput_Validate output = (case io_Protocol output of
     WalletPaymentProtocol \<Rightarrow> (case io_PaymentRemittance output of
         None \<Rightarrow> Inl (GoErr ''payment remittance cannot be nil for wallet payment protocol'')
       | Some r \<Rightarrow> rwrap ''wrong paymentRemittance'' (WalletPayment_Validate r))
   | BasketInsertionProtocol \<Rightarrow> (case io_InsertionRemittance output of
         None \<Rightarrow> Inl (GoErr ''insertion remittance cannot be nil for basket insertion protocol'')
       | Some r \<Rightarrow> rwrap ''wrong insertionRemittance'' (BasketInsertion_Validate r))
   | UnknownProtocol p \<Rightarrow> Inl (GoErr (if p = '''' then ''protocol cannot be empty'' else ''invalid protocol'')))"

record internalize_args =
  ia_Tx :: bytes
  ia_Outputs :: "internalize_output list"
  ia_Description :: string
  ia_Labels :: "string list"

fun validate_output_specs :: "internalize_output list \<Rightarrow> unit result" where
  "validate_output_specs [] = Inr ()"
| "validate_output_specs (x # xs) = rbind (rwrap ''invalid output'' (InternalizeOutput_Validate x)) (\<lambda>_. validate_output_specs xs)"

fun validate_labels :: "string list \<Rightarrow> unit result" where
  "validate_labels [] = Inr ()"
| "validate_labels (x # xs) = rbind (rwrap ''label must be'' (StringUnder300_Validate x)) (\<lambda>_. validate_labels xs)"

definition ValidInternalizeActionArgs :: "internalize_args \<Rightarrow> unit result" where
  "ValidInternalizeActionArgs args =
     (if ia_Tx args = [] then Inl (GoErr ''tx cannot be empty'')
      else if ia_Outputs args = [] then Inl (GoErr ''outputs cannot be empty'')
      else rbind (rwrap ''description must be'' (String5to2000Bytes_Validate (ia_Description args))) (\<lambda>_.
           rbind (validate_output_specs (ia_Outputs args)) (\<lambda>_. validate_labels (ia_Labels args))))"

text \<open>The check of the wallet client before it calls the storage; \<open>LockForSelf\<close> is the locking script that BRC-29 derives for the
  remittance, as a hexadecimal string. The index of an output is used as it is.\<close>

definition validateWalletPaymentOutput :: "(wallet_payment \<Rightarrow> string result) \<Rightarrow> internalize_output \<Rightarrow> tx_output \<Rightarrow> unit result" where
  "validateWalletPaymentOutput LockForSelf output txOutput = (case io_PaymentRemittance output of
     None \<Rightarrow> Inl (GoPanic ''nil pointer dereference'')
   | Some payment \<Rightarrow> rbind (rwrap ''failed to create expected address'' (LockForSelf payment)) (\<lambda>expected.
       if hex_EncodeToString (out_LockingScript txOutput) \<noteq> expected then Inl (GoErr ''locking script mismatch'') else Inr ()))"

definition validateOutput :: "(wallet_payment \<Rightarrow> string result) \<Rightarrow> internalize_output \<Rightarrow> full_tx \<Rightarrow> unit result" where
  "validateOutput LockForSelf output tx =
     (if length (ft_Outputs tx) \<le> io_OutputIndex output then Inl (GoPanic ''index out of range'')
      else case io_Protocol output of
          WalletPaymentProtocol \<Rightarrow> validateWalletPaymentOutput LockForSelf output (ft_Outputs tx ! io_OutputIndex output)
        | BasketInsertionProtocol \<Rightarrow> Inr ()
        | UnknownProtocol _ \<Rightarrow> Inl (GoErr ''unexpected protocol''))"

fun validate_wallet_outputs :: "(wallet_payment \<Rightarrow> string result) \<Rightarrow> full_tx \<Rightarrow> internalize_output list \<Rightarrow> unit result" where
  "validate_wallet_outputs LockForSelf tx [] = Inr ()"
| "validate_wallet_outputs LockForSelf tx (x # xs) =
     rbind (rwrap ''output validation failed'' (validateOutput LockForSelf x tx)) (\<lambda>_. validate_wallet_outputs LockForSelf tx xs)"

definition WalletInternalizeAction :: "(bytes \<Rightarrow> (sdk_beef \<times> string) result) \<Rightarrow> (sdk_beef \<Rightarrow> string \<Rightarrow> full_tx option) \<Rightarrow>
    (wallet_payment \<Rightarrow> string result) \<Rightarrow> internalize_args \<Rightarrow> unit result" where
  "WalletInternalizeAction NewBeefFromAtomicBytes FindAtomicTransactionByHash LockForSelf args =
     rbind (rwrap ''invalid internalize action args'' (ValidInternalizeActionArgs args)) (\<lambda>_.
     rbind (rwrap ''failed to create atomic beef from bytes'' (NewBeefFromAtomicBytes (ia_Tx args))) (\<lambda>(b, txID).
     case FindAtomicTransactionByHash b txID of
       None \<Rightarrow> Inl (GoErr ''atomic beef error: transaction not found'')
     | Some tx \<Rightarrow> validate_wallet_outputs LockForSelf tx (ia_Outputs args)))"

section \<open>Saving outputs\<close>

text \<open>The zero \<open>time.Time\<close> in nanoseconds of the Unix clock.\<close>

definition zero_time :: int where
  "zero_time = - 62135596800000000000"

definition ToOutput :: "new_output \<Rightarrow> nat \<Rightarrow> int \<Rightarrow> nat \<Rightarrow> output_row result" where
  "ToOutput no i userID transactionID =
     rbind (case no_LockingScript no of
         None \<Rightarrow> Inr None
       | Some h \<Rightarrow> rbind (rwrap ''failed to convert locking script to bytes'' (HexString_ToBytes h)) (\<lambda>b. Inr (Some b)))
       (\<lambda>lockingScript. Inr
         \<lparr>or_ID = i, or_CreatedAt = zero_time, or_UserID = userID, or_TransactionID = transactionID, or_SpentBy = None,
          or_Vout = no_Vout no, or_Satoshis = no_Satoshis no, or_LockingScript = lockingScript,
          or_CustomInstructions = no_CustomInstructions no, or_DerivationPrefix = no_DerivationPrefix no,
          or_DerivationSuffix = no_DerivationSuffix no, or_BasketName = no_BasketName no, or_Spendable = no_Spendable no,
          or_Change = no_Change no, or_Description = no_Description no, or_ProvidedBy = no_ProvidedBy no,
          or_Purpose = no_Purpose no, or_Type = no_Type no, or_SenderIdentityKey = no_SenderIdentityKey no, or_Tags = no_Tags no\<rparr>)"

definition insert_index_row :: "user_utxo \<Rightarrow> user_utxo list \<Rightarrow> user_utxo list" where
  "insert_index_row u us =
     (if \<exists>v \<in> set us. uu_UserID v = uu_UserID u \<and> uu_OutputID v = uu_OutputID u then us else us @ [u])"

text \<open>One \<open>Save\<close>: an output without a key is inserted, one with a key overwrites its row.\<close>

definition save_output :: "output_row \<times> user_utxo option \<Rightarrow> database \<Rightarrow> database" where
  "save_output p db = (case p of (out, utxo) \<Rightarrow>
     let new = or_ID out = 0;
         i = (if new then db_NextOutputID db else or_ID out);
         db1 = (if new then db\<lparr>db_NextOutputID := i + 1, db_Outputs := db_Outputs db @ [out\<lparr>or_ID := i, or_CreatedAt := db_Now db\<rparr>]\<rparr>
                else db\<lparr>db_Outputs := update_where (\<lambda>r. or_ID r = i) (\<lambda>_. out) (db_Outputs db)\<rparr>)
     in case utxo of
          None \<Rightarrow> db1
        | Some u \<Rightarrow> db1\<lparr>db_UserUTXOs := insert_index_row (u\<lparr>uu_OutputID := i, uu_CreatedAt := db_Now db,
            uu_BasketName := (case or_BasketName out of None \<Rightarrow> '''' | Some b \<Rightarrow> b)\<rparr>) (db_UserUTXOs db1)\<rparr>)"

definition SaveOutputs :: "(output_row \<times> user_utxo option) list \<Rightarrow> database \<Rightarrow> database" where
  "SaveOutputs outputs db = fold save_output outputs db"

section \<open>The outputs to take in\<close>

record output_to_internalize =
  oi_NewOutput :: new_output
  oi_existingOutputID :: "nat option"

record internalize_env =
  ie_lib :: go_lib
  ie_sdk :: beef_sdk
  ie_verifiers :: verifiers
  ie_process :: "process_env option"
  ie_NewBeefFromAtomicBytes :: "bytes \<Rightarrow> (sdk_beef \<times> string) result"
  ie_FindAtomicTransactionByHash :: "sdk_beef \<Rightarrow> string \<Rightarrow> full_tx option"
  ie_TxBytes :: "full_tx \<Rightarrow> bytes"
  ie_Version :: "full_tx \<Rightarrow> nat"
  ie_LockTime :: "full_tx \<Rightarrow> nat"
  ie_BlockHeight :: "merkle_bump \<Rightarrow> nat"
  ie_ComputeRootHex :: "merkle_bump \<Rightarrow> string \<Rightarrow> string result"
  ie_ChainHeaderByHeight :: "nat \<Rightarrow> string result"
  ie_Base64 :: "nat \<Rightarrow> string result"
  ie_UInt32 :: "int \<Rightarrow> nat option"

definition checkChangeBasket :: "int \<Rightarrow> database \<Rightarrow> unit result" where
  "checkChangeBasket userID db = (case FindBasketByName userID BasketNameForChange db of
     None \<Rightarrow> Inl (GoErr ''basket for change not found'') | Some _ \<Rightarrow> Inr ())"

definition isAllowedMergeStatus :: "tx_status \<Rightarrow> bool" where
  "isAllowedMergeStatus status \<longleftrightarrow> status \<in> {TxStatusCompleted, TxStatusUnproven, TxStatusNoSend, TxStatusSending}"

definition utxoStatusByTxStatusForMerge :: "tx_status \<Rightarrow> utxo_status result" where
  "utxoStatusByTxStatusForMerge txStatus = (case txStatus of
     TxStatusCompleted \<Rightarrow> Inr UTXOStatusMined
   | TxStatusUnproven \<Rightarrow> Inr UTXOStatusUnproven
   | TxStatusSending \<Rightarrow> Inr UTXOStatusSending
   | _ \<Rightarrow> Inl (GoErr ''unsupported transaction status for UTXO''))"

definition payment_output :: "nat \<Rightarrow> tx_output \<Rightarrow> int \<Rightarrow> wallet_payment \<Rightarrow> new_output" where
  "payment_output vout output sats r =
     \<lparr>no_LockingScript = Some (hex_EncodeToString (out_LockingScript output)), no_CustomInstructions = None, no_Satoshis = sats,
      no_BasketName = Some BasketNameForChange, no_Spendable = True, no_Change = True, no_ProvidedBy = ''storage'',
      no_Purpose = ''change'', no_Type = OutputTypeP2PKH, no_DerivationPrefix = Some (wy_DerivationPrefix r),
      no_DerivationSuffix = Some (wy_DerivationSuffix r), no_Description = '''', no_Vout = vout,
      no_SenderIdentityKey = Some (wy_SenderIdentityKey r), no_Tags = []\<rparr>"

definition inserted_output :: "nat \<Rightarrow> tx_output \<Rightarrow> int \<Rightarrow> basket_insertion \<Rightarrow> new_output" where
  "inserted_output vout output sats r =
     \<lparr>no_LockingScript = Some (hex_EncodeToString (out_LockingScript output)), no_CustomInstructions = bi_CustomInstructions r,
      no_Satoshis = sats, no_BasketName = Some (bi_Basket r), no_Spendable = True, no_Change = False, no_ProvidedBy = ''you'',
      no_Purpose = '''', no_Type = OutputTypeCustom, no_DerivationPrefix = None, no_DerivationSuffix = None, no_Description = '''',
      no_Vout = vout, no_SenderIdentityKey = None, no_Tags = bi_Tags r\<rparr>"

text \<open>The loop of \<open>makeOutputs\<close>: the outputs so far, the satoshis so far, and whether the change basket was looked up.\<close>

fun make_outputs_loop :: "int \<Rightarrow> full_tx \<Rightarrow> nat \<Rightarrow> bool \<Rightarrow> database \<Rightarrow> internalize_output list \<Rightarrow>
    output_to_internalize list \<Rightarrow> int \<Rightarrow> bool \<Rightarrow> (output_to_internalize list \<times> int) result" where
  "make_outputs_loop userID tx outputsCount isMerge db [] outs sats verified = Inr (outs, sats)"
| "make_outputs_loop userID tx outputsCount isMerge db (spec # specs) outs sats verified =
     (let vout = io_OutputIndex spec in
      if outputsCount \<le> vout then Inl (GoErr ''output index is out of range of provided tx outputs count'')
      else if length (ft_Outputs tx) \<le> vout then Inl (GoPanic ''index out of range'')
      else
        let output = ft_Outputs tx ! vout;
            existing = (if isMerge then FindOutput userID \<lparr>op_TxID = ft_TxID tx, op_Vout = vout\<rparr> db else None);
            wasChange = (case existing of None \<Rightarrow> False | Some r \<Rightarrow> or_BasketName r = Some BasketNameForChange)
        in case io_Protocol spec of
             WalletPaymentProtocol \<Rightarrow>
               if wasChange then make_outputs_loop userID tx outputsCount isMerge db specs outs sats verified
               else rbind (MustAdd (Signed sats) (Unsigned (out_Satoshis output))) (\<lambda>sats'.
                 rbind (if verified then Inr () else rwrap ''failed to check change basket'' (checkChangeBasket userID db)) (\<lambda>_.
                 rbind (MustFrom (Unsigned (out_Satoshis output))) (\<lambda>value.
                   case io_PaymentRemittance spec of
                     None \<Rightarrow> Inl (GoPanic ''nil pointer dereference'')
                   | Some r \<Rightarrow> make_outputs_loop userID tx outputsCount isMerge db specs
                       (outs @ [\<lparr>oi_NewOutput = payment_output vout output value r, oi_existingOutputID = map_option or_ID existing\<rparr>])
                       sats' True)))
           | BasketInsertionProtocol \<Rightarrow> (case io_InsertionRemittance spec of
               None \<Rightarrow> Inl (GoPanic ''nil pointer dereference'')
             | Some r \<Rightarrow> rbind (MustFrom (Unsigned (out_Satoshis output))) (\<lambda>value.
                 rbind (if wasChange then MustSubtract (Signed sats) (Unsigned (out_Satoshis output)) else Inr sats) (\<lambda>sats'.
                   make_outputs_loop userID tx outputsCount isMerge db specs
                     (outs @ [\<lparr>oi_NewOutput = inserted_output vout output value r, oi_existingOutputID = map_option or_ID existing\<rparr>])
                     sats' verified)))
           | UnknownProtocol _ \<Rightarrow> make_outputs_loop userID tx outputsCount isMerge db specs outs sats verified)"

definition makeOutputs :: "internalize_env \<Rightarrow> int \<Rightarrow> full_tx \<Rightarrow> internalize_output list \<Rightarrow> bool \<Rightarrow> database \<Rightarrow>
    (output_to_internalize list \<times> int) result" where
  "makeOutputs env userID tx specs isMerge db = (case ie_UInt32 env (int (length (ft_Outputs tx))) of
     None \<Rightarrow> Inl (GoWrap ''failed to convert outputs count to uint32'' (GoErr ''to.UInt32''))
   | Some outputsCount \<Rightarrow> make_outputs_loop userID tx outputsCount isMerge db specs [] 0 False)"

section \<open>Storing\<close>

definition merged_output :: "go_lib \<Rightarrow> transaction_row \<Rightarrow> output_to_internalize \<Rightarrow> (output_row \<times> user_utxo option) result" where
  "merged_output lib existingTx oi =
     rbind (rwrap ''failed to convert output-to-internalize spec to entity''
         (ToOutput (oi_NewOutput oi) (case oi_existingOutputID oi of None \<Rightarrow> 0 | Some i \<Rightarrow> i) (tr_UserID existingTx) (tr_ID existingTx)))
       (\<lambda>output.
     if \<not> (or_Spendable output \<and> or_Change output) then Inr (output, None)
     else if is_EmptyString (or_BasketName output) then Inl (GoErr ''basket not provided for change output'')
     else if or_Satoshis output = 0 then Inl (GoErr ''change output with zero satoshis'')
     else rbind (rwrap ''failed to convert satoshis to uint64'' (UInt64 (or_Satoshis output))) (\<lambda>sats.
       rbind (rwrap ''failed to get UTXO status by transaction status'' (utxoStatusByTxStatusForMerge (tr_Status existingTx))) (\<lambda>utxoStatus.
       rbind (EstimatedInputSizeByType lib (or_Type output)) (\<lambda>sz.
         Inr (output, Some \<lparr>uu_UserID = or_UserID output, uu_OutputID = 0, uu_UTXOStatus = utxoStatus, uu_BasketName = '''',
           uu_Satoshis = sats, uu_EstimatedInputSize = sz, uu_CreatedAt = 0, uu_ReservedByID = None\<rparr>)))))"

text \<open>Creating a basket twice is the same as creating it once, so the set of seen names is left out.\<close>

definition ensure_baskets :: "int \<Rightarrow> (output_row \<times> user_utxo option) list \<Rightarrow> database \<Rightarrow> database" where
  "ensure_baskets userID outputs db =
     fold (\<lambda>(out, _) d. case or_BasketName out of None \<Rightarrow> d | Some name \<Rightarrow> FindOrCreateBasket userID name d) outputs db"

definition upsertExistingTx :: "go_lib \<Rightarrow> transaction_row \<Rightarrow> output_to_internalize list \<Rightarrow> string list \<Rightarrow> unit db_tx" where
  "upsertExistingTx lib existingTx outputs labels db =
     rbind (rwrap ''failed to replace labels for existing transaction'' (AddLabels (tr_ID existingTx) labels db)) (\<lambda>(_, db1).
     rbind (map_or_error (merged_output lib existingTx) outputs) (\<lambda>outs.
     Inr ((), SaveOutputs outs (ensure_baskets (tr_UserID existingTx) outs db1))))"

text \<open>What \<open>storeNewTx\<close> decides from the proof and from the status of the KnownTx: the three statuses and whether to broadcast.\<close>

definition new_statuses :: "bool \<Rightarrow> proven_tx_req_status option \<Rightarrow> proven_tx_req_status \<times> tx_status \<times> utxo_status \<times> bool" where
  "new_statuses isMined existing =
     (if isMined \<or> (case existing of None \<Rightarrow> False | Some s \<Rightarrow> AlreadySent s)
      then (ProvenTxStatusUnmined, TxStatusUnproven, UTXOStatusUnproven, False)
      else (ProvenTxStatusUnsent, TxStatusSending, UTXOStatusSending, (case existing of None \<Rightarrow> True | Some s \<Rightarrow> \<not> IsInFlight s)))"

definition internalize_skip_statuses :: "proven_tx_req_status \<Rightarrow> proven_tx_req_status list" where
  "internalize_skip_statuses knownTxStatus = [ProvenTxStatusCompleted] @
     (if knownTxStatus = ProvenTxStatusUnmined then [ProvenTxStatusUnmined]
      else [ProvenTxStatusUnmined, ProvenTxStatusSending, ProvenTxStatusUnsent])"

definition internalized_tx :: "internalize_env \<Rightarrow> int \<Rightarrow> internalize_args \<Rightarrow> string \<Rightarrow> full_tx \<Rightarrow> int \<Rightarrow> output_to_internalize list \<Rightarrow>
    tx_status \<Rightarrow> utxo_status \<Rightarrow> string \<Rightarrow> new_tx" where
  "internalized_tx env userID args txID tx sats outputs txStatus utxoStatus reference =
     \<lparr>nt_UserID = userID, nt_Version = ie_Version env tx, nt_LockTime = ie_LockTime env tx, nt_Status = txStatus,
      nt_Reference = reference, nt_Satoshis = sats, nt_IsOutgoing = False, nt_InputBeef = None,
      nt_Description = ia_Description args, nt_TxID = Some txID, nt_ReservedOutputIDs = [], nt_SpentOutputIDs = [],
      nt_Outputs = map oi_NewOutput outputs, nt_UTXOStatus = utxoStatus, nt_Labels = ia_Labels args, nt_Commission = None\<rparr>"

definition storeNewTx :: "internalize_env \<Rightarrow> int \<Rightarrow> internalize_args \<Rightarrow> bytes \<Rightarrow> string \<Rightarrow> full_tx \<Rightarrow> int \<Rightarrow> output_to_internalize list \<Rightarrow>
    bool db_tx" where
  "storeNewTx env userID args anchoredBeef txID tx cumulativeSatoshis outputs db =
     (case new_statuses (ft_MerklePath tx \<noteq> None) (FindKnownTxStatuses [txID] db txID) of
        (knownTxStatus, txStatus, utxoStatus, shouldBroadcast) \<Rightarrow>
          rbind (rwrap ''failed to upsert known tx'' (upsertKnownTx
              \<lparr>ukt_InputBeef = Some anchoredBeef, ukt_RawTx = Some (ie_TxBytes env tx), ukt_TxID = txID, ukt_Status = knownTxStatus,
               ukt_SkipForStatuses = internalize_skip_statuses knownTxStatus\<rparr> (note_InternalizeAction userID) db)) (\<lambda>(_, db1).
          rbind (rwrap ''failed to generate random reference'' (ie_Base64 env referenceLength)) (\<lambda>reference.
          case createTransactionInTx (ie_lib env)
              (internalized_tx env userID args txID tx cumulativeSatoshis outputs txStatus utxoStatus reference) db1 of
            Inl e \<Rightarrow> Inl (wrap_error ''failed to create transaction'' (claim_go_error e))
          | Inr (_, db2) \<Rightarrow> Inr (shouldBroadcast, db2))))"

section \<open>The action\<close>

definition resolveTxidOnlyAncestors :: "internalize_env \<Rightarrow> database \<Rightarrow> sdk_beef \<Rightarrow> sdk_beef result" where
  "resolveTxidOnlyAncestors env db b = hydrateAncestryFromStorage (ie_sdk env) (\<lambda>needed. Some (missingProofError needed
     [''payment BEEF omits ancestors that are neither provided nor known to storage''])) db b"

text \<open>The script check of all unmined transactions: unlike in \<open>create_process_inputs.go\<close>, an entry without a transaction is an error.\<close>

fun verify_all_scripts :: "verifiers \<Rightarrow> sdk_beef \<Rightarrow> (string \<times> beef_tx) list \<Rightarrow> unit result" where
  "verify_all_scripts v b [] = Inr ()"
| "verify_all_scripts v b ((x, e) # es) = (case bt_Transaction e of
     None \<Rightarrow> Inl (GoErr ''failed to find raw tx inside beef'')
   | Some tx \<Rightarrow>
       if ft_MerklePath tx \<noteq> None then verify_all_scripts v b es
       else rbind (rwrap ''script verification failed'' (vf_VerifyScripts v b tx)) (\<lambda>ok.
         if ok then verify_all_scripts v b es else Inl (GoErr ''scripts are not valid for tx'')))"

text \<open>The part before the database transaction: the verified BEEF, its bytes, the txid and the transaction.\<close>

definition verified_payment :: "internalize_env \<Rightarrow> bytes \<Rightarrow> database \<Rightarrow> (sdk_beef \<times> bytes \<times> string \<times> full_tx) result" where
  "verified_payment env raw db =
     rbind (rwrap ''failed to create atomic beef from bytes'' (ie_NewBeefFromAtomicBytes env raw)) (\<lambda>(b0, txID).
     rbind (rwrap ''failed to resolve txid-only ancestors'' (resolveTxidOnlyAncestors env db b0)) (\<lambda>b1.
     rbind (rwrap ''failed to verify beef'' (vf_VerifyBeef (ie_verifiers env) b1)) (\<lambda>ok.
     if \<not> ok then Inl (GoErr ''provided beef is not valid'')
     else
       rbind (rwrap ''failed to hydrate beef for script verification'' (HydrateBEEF b1)) (\<lambda>b2.
       rbind (rwrap ''failed to serialize anchored beef'' (bs_Bytes (ie_sdk env) b2)) (\<lambda>anchored.
       rbind (verify_all_scripts (ie_verifiers env) b2 (sb_Transactions b2)) (\<lambda>_.
       case ie_FindAtomicTransactionByHash env b2 txID of
         None \<Rightarrow> Inl (GoErr ''atomic beef error: transaction not found'')
       | Some tx \<Rightarrow> Inr (b2, anchored, txID, tx)))))))"

text \<open>The unit of work: whether it is a merge, the satoshis, and whether to broadcast.\<close>

definition internalize_uow :: "internalize_env \<Rightarrow> int \<Rightarrow> internalize_args \<Rightarrow> bytes \<Rightarrow> string \<Rightarrow> full_tx \<Rightarrow> (bool \<times> int \<times> bool) db_tx" where
  "internalize_uow env userID args anchored txID tx db =
     (let storedTx = FindTransactionByUserIDAndTxID userID txID db; isMerge = storedTx \<noteq> None in
      if (case storedTx of None \<Rightarrow> False | Some t \<Rightarrow> \<not> isAllowedMergeStatus (tr_Status t))
      then Inl (GoErr ''target transaction of internalizeAction has invalid status'')
      else rbind (rwrap ''failed to create new outputs'' (makeOutputs env userID tx (ia_Outputs args) isMerge db)) (\<lambda>(outputs, sats).
        case storedTx of
          Some t \<Rightarrow> rbind (rwrap ''failed to upsert outputs (isMerge)'' (upsertExistingTx (ie_lib env) t outputs (ia_Labels args) db))
            (\<lambda>(_, db'). Inr ((True, sats, False), db'))
        | None \<Rightarrow> rbind (rwrap ''failed to store new transaction'' (storeNewTx env userID args anchored txID tx sats outputs db))
            (\<lambda>(shouldBroadcast, db'). Inr ((False, sats, shouldBroadcast), db'))))"

text \<open>The error of \<open>updateKnownTxAsMined\<close> is logged and dropped; a panic is not.\<close>

definition internalize_mined :: "internalize_env \<Rightarrow> string \<Rightarrow> merkle_bump \<Rightarrow> unit step" where
  "internalize_mined env txID path =
     wbind (wwrap ''failed to get chain header by height'' (wresult (ie_ChainHeaderByHeight env (ie_BlockHeight env path)))) (\<lambda>blockHash.
     wbind (wwrap ''failed to compute root hex'' (wresult (ie_ComputeRootHex env path txID))) (\<lambda>root.
     wupdate (UpdateKnownTxAsMined \<lparr>kam_TxID = txID, kam_BlockHeight = ie_BlockHeight env path,
       kam_MerklePath = bs_MerklePath_Bytes (ie_sdk env) path, kam_MerkleRoot = root, kam_BlockHash = blockHash,
       kam_Notes = [note_GetMerklePathSuccess ''internalize-storage'']\<rparr>)))"

definition logged :: "'b \<Rightarrow> ('a \<Rightarrow> 'b) \<Rightarrow> 'a step \<Rightarrow> 'b step" where
  "logged fallback ok m w = (case m w of
     (Inl e, w') \<Rightarrow> (if is_panic e then Inl e else Inr fallback, w')
   | (Inr x, w') \<Rightarrow> (Inr (ok x), w'))"

definition sendWithResultsFromReview :: "review_action_result list \<Rightarrow> send_with_result list" where
  "sendWithResultsFromReview review = map (\<lambda>r. \<lparr>sw_TxID = ra_TxID r, sw_Status = (case ra_Status r of
     ReviewActionResultStatusSuccess \<Rightarrow> SendWithResultStatusUnproven
   | ReviewActionResultStatusServiceError \<Rightarrow> SendWithResultStatusSending
   | ReviewActionResultStatusDoubleSpend \<Rightarrow> SendWithResultStatusFailed
   | ReviewActionResultStatusInvalidTx \<Rightarrow> SendWithResultStatusFailed)\<rparr>) review"

record internalize_result =
  ir_Accepted :: bool
  ir_IsMerge :: bool
  ir_TxID :: string
  ir_Satoshis :: int
  ir_SendWithResults :: "send_with_result list"
  ir_NotDelayedResults :: "review_action_result list"

text \<open>The view of the container that the broadcast works with.\<close>

definition beef_view :: "sdk_beef \<Rightarrow> beef" where
  "beef_view b x = map_option (\<lambda>t. \<lparr>stx_TxID = ft_TxID t, stx_SourceTXIDs = map in_SourceTXID (ft_Inputs t),
     stx_LockingScripts = map out_LockingScript (ft_Outputs t)\<rparr>) (Option.bind (beef_entry b x) bt_Transaction)"

definition Internalize :: "internalize_env \<Rightarrow> int \<Rightarrow> internalize_args \<Rightarrow> internalize_result step" where
  "Internalize env userID args =
     wbind (wread (verified_payment env (ia_Tx args))) (\<lambda>(beef, anchored, txID, tx).
     wbind (wtx (internalize_uow env userID args anchored txID tx)) (\<lambda>(isMerge, sats, shouldBroadcast).
     wbind (case ft_MerklePath tx of None \<Rightarrow> wreturn () | Some path \<Rightarrow> logged () (\<lambda>_. ()) (internalize_mined env txID path)) (\<lambda>_.
     let result = \<lparr>ir_Accepted = True, ir_IsMerge = isMerge, ir_TxID = txID, ir_Satoshis = sats, ir_SendWithResults = [],
           ir_NotDelayedResults = []\<rparr>
     in case (shouldBroadcast, ie_process env) of
          (True, Some process) \<Rightarrow>
            logged (result\<lparr>ir_SendWithResults := [\<lparr>sw_TxID = txID, sw_Status = SendWithResultStatusSending\<rparr>]\<rparr>)
              (\<lambda>review. result\<lparr>ir_NotDelayedResults := review, ir_SendWithResults := sendWithResultsFromReview review\<rparr>)
              (BackgroundBroadcast process (beef_view beef) [txID])
        | _ \<Rightarrow> wreturn result)))"

end
