(* ===== verification/Internalize_Properties.thy ===== *)
theory Internalize_Properties
  imports Internalize Process_Properties Beef_Properties
begin

text \<open>
  What taking in a transaction keeps: a refused call leaves no trace, a transaction that is new to the user is stored by a run of storage
  steps, it is broadcast only if nobody has sent it yet, the reported amount is what the index of spendable outputs gains, and
  repeating a call changes nothing. A merge over a spent output, however, revives it.
\<close>

section \<open>Worked environment\<close>

text \<open>The transaction \<open>cc\<close> of somebody else pays 700 satoshis to the user; \<open>aa\<close> is stored already. Scripts and BEEF data verify, and all
  services accept the post.\<close>

definition ex_payment :: full_tx where
  "ex_payment = \<lparr>ft_TxID = ''cc'', ft_Inputs = [], ft_Outputs = [\<lparr>out_Satoshis = 700, out_LockingScript = [1]\<rparr>], ft_MerklePath = None\<rparr>"

definition ex_stored :: full_tx where
  "ex_stored = \<lparr>ft_TxID = ''aa'', ft_Inputs = [], ft_Outputs = replicate 3 \<lparr>out_Satoshis = 500, out_LockingScript = [1]\<rparr>, ft_MerklePath = None\<rparr>"

definition ex_internalize :: internalize_env where
  "ex_internalize = \<lparr>ie_lib = std_lib, ie_sdk = simple_sdk, ie_verifiers = \<lparr>vf_VerifyBeef = (\<lambda>_. Inr True), vf_VerifyScripts = (\<lambda>_ _. Inr True)\<rparr>,
     ie_process = Some ex_env, ie_NewBeefFromAtomicBytes = (\<lambda>bs. if bs = [1] then
       Inr (\<lparr>sb_Transactions = [(''cc'', \<lparr>bt_DataFormat = RawTx, bt_BumpIndex = 0, bt_Transaction = Some ex_payment\<rparr>)], sb_BUMPs = []\<rparr>, ''cc'')
       else Inl (GoErr ''malformed'')),
     ie_FindAtomicTransactionByHash = (\<lambda>b x. Option.bind (beef_entry b x) bt_Transaction), ie_TxBytes = (\<lambda>_. [1]),
     ie_Version = (\<lambda>_. 1), ie_LockTime = (\<lambda>_. 0), ie_BlockHeight = (\<lambda>_. 0), ie_ComputeRootHex = (\<lambda>_ _. Inr ''root''),
     ie_ChainHeaderByHeight = (\<lambda>_. Inr ''block''), ie_Base64 = (\<lambda>_. Inr ''r9''), ie_UInt32 = (\<lambda>n. Some (nat n))\<rparr>"

definition ex_internalize_args :: internalize_args where
  "ex_internalize_args = \<lparr>ia_Tx = [1], ia_Outputs = [\<lparr>io_OutputIndex = 0, io_Protocol = WalletPaymentProtocol,
     io_PaymentRemittance = Some \<lparr>wy_DerivationPrefix = ''p'', wy_DerivationSuffix = ''s'', wy_SenderIdentityKey = ''k''\<rparr>,
     io_InsertionRemittance = None\<rparr>], ia_Description = ''payment'', ia_Labels = []\<rparr>"

definition ex_internalize_db :: database where
  "ex_internalize_db = ex_db\<lparr>db_Baskets := [\<lparr>br_UserID = 1, br_Name = ''default'', br_NumberOfDesiredUTXOs = 1, br_MinimumDesiredUTXOValue = 1\<rparr>]\<rparr>"

lemmas ex_internalize_defs = ex_payment_def ex_stored_def ex_internalize_def ex_internalize_args_def ex_internalize_db_def ex_defs

section \<open>The call as a whole\<close>

lemma logged_run:
  assumes "logged f g m w = (r, w')"
  shows "w' = snd (m w) \<and> ((\<exists>e. r = Inl e \<and> is_panic e) \<or> r = Inr f \<or> (\<exists>x. r = Inr (g x)))"
  using assms by (cases "m w") (auto simp: logged_def split: sum.splits if_splits)

text \<open>What follows the database transaction: the proof is recorded, and the transaction is broadcast.\<close>

lemma after_commit:
  fixes res0 :: internalize_result
  assumes call: "wbind (case path of None \<Rightarrow> wreturn () | Some p \<Rightarrow> logged () (\<lambda>_. ()) (mined p)) (\<lambda>_. case (bc, process) of
      (True, Some p) \<Rightarrow> logged (f res0) (\<lambda>x. g x res0) (post p) | _ \<Rightarrow> wreturn res0) w1 = (r, w')"
    and w2: "w2 = (case path of None \<Rightarrow> w1 | Some p \<Rightarrow> snd (mined p w1))"
  shows "(\<exists>e. r = Inl e \<and> is_panic e \<and> (w' = w2 \<or> bc \<and> (\<exists>p. process = Some p \<and> w' = snd (post p w2)))) \<or>
    ((r = Inr res0 \<or> r = Inr (f res0) \<or> (\<exists>x. r = Inr (g x res0))) \<and> w' = (case (bc, process) of (True, Some p) \<Rightarrow> snd (post p w2) | _ \<Rightarrow> w2))"
proof -
  obtain a b where m: "(case path of None \<Rightarrow> wreturn () | Some p \<Rightarrow> logged () (\<lambda>_. ()) (mined p)) w1 = (a, b)" by fastforce
  have b: "b = w2 \<and> ((\<exists>e. a = Inl e \<and> is_panic e) \<or> a = Inr ())"
    using m w2 by (cases path) (auto simp: wreturn_def dest: logged_run)
  show ?thesis
  proof (cases a)
    case (Inl e)
    with call m b show ?thesis by (auto simp: wbind_def)
  next
    case (Inr u)
    with call m b have k: "(case (bc, process) of (True, Some p) \<Rightarrow> logged (f res0) (\<lambda>x. g x res0) (post p) | _ \<Rightarrow> wreturn res0) w2 = (r, w')"
      by (simp add: wbind_def)
    show ?thesis
    proof (cases "bc \<and> process \<noteq> None")
      case True
      then obtain p where "bc" "process = Some p" by auto
      with k logged_run [of "f res0" "\<lambda>x. g x res0" "post p" w2 r w'] show ?thesis by auto
    next
      case False
      with k show ?thesis by (auto simp: wreturn_def split: bool.splits option.splits)
    qed
  qed
qed

text \<open>The stages of a call that has not been refused.\<close>

lemma Internalize_stages:
  assumes "Internalize env userID args w = (r, w')"
  obtains (refused) e where "r = Inl e" "w' = w"
  | (stored) beef abeef txID tx isMerge sats bc db1 w2 where
      "verified_payment env (ia_Tx args) (w_db w) = Inr (beef, abeef, txID, tx)"
      "internalize_uow env userID args abeef txID tx (w_db w) = Inr ((isMerge, sats, bc), db1)"
      "w2 = (case ft_MerklePath tx of None \<Rightarrow> w\<lparr>w_db := db1\<rparr> | Some path \<Rightarrow> snd (internalize_mined env txID path (w\<lparr>w_db := db1\<rparr>)))"
      "(\<exists>e. r = Inl e \<and> is_panic e \<and> (w' = w2 \<or> bc \<and> (\<exists>p. ie_process env = Some p \<and> w' = snd (BackgroundBroadcast p (beef_view beef) [txID] w2)))) \<or>
       (\<exists>res. r = Inr res \<and> ir_Accepted res \<and> ir_IsMerge res = isMerge \<and> ir_TxID res = txID \<and> ir_Satoshis res = sats \<and>
          w' = (case (bc, ie_process env) of (True, Some p) \<Rightarrow> snd (BackgroundBroadcast p (beef_view beef) [txID] w2) | _ \<Rightarrow> w2))"
proof (cases "verified_payment env (ia_Tx args) (w_db w)")
  case (Inl e)
  then have "r = Inl e \<and> w' = w" using assms by (auto simp: Internalize_def step_defs)
  then show thesis using refused by blast
next
  case (Inr y)
  obtain beef abeef txID tx where y: "y = (beef, abeef, txID, tx)" by (cases y) auto
  show thesis
  proof (cases "internalize_uow env userID args abeef txID tx (w_db w)")
    case (Inl e)
    with Inr y have "r = Inl e \<and> w' = w" using assms by (auto simp: Internalize_def step_defs in_db_tx_def)
    then show thesis using refused by blast
  next
    case ok: (Inr z)
    obtain isMerge sats bc db1 where z: "z = ((isMerge, sats, bc), db1)" by (cases z) auto
    define res0 where "res0 = \<lparr>ir_Accepted = True, ir_IsMerge = isMerge, ir_TxID = txID, ir_Satoshis = sats, ir_SendWithResults = [],
      ir_NotDelayedResults = []\<rparr>"
    define w2 where "w2 = (case ft_MerklePath tx of None \<Rightarrow> w\<lparr>w_db := db1\<rparr>
      | Some path \<Rightarrow> snd (internalize_mined env txID path (w\<lparr>w_db := db1\<rparr>)))"
    have "wbind (case ft_MerklePath tx of None \<Rightarrow> wreturn () | Some path \<Rightarrow> logged () (\<lambda>_. ()) (internalize_mined env txID path))
      (\<lambda>_. case (bc, ie_process env) of
          (True, Some process) \<Rightarrow>
            logged (res0\<lparr>ir_SendWithResults := [\<lparr>sw_TxID = txID, sw_Status = SendWithResultStatusSending\<rparr>]\<rparr>)
              (\<lambda>review. res0\<lparr>ir_NotDelayedResults := review, ir_SendWithResults := sendWithResultsFromReview review\<rparr>)
              (BackgroundBroadcast process (beef_view beef) [txID])
        | _ \<Rightarrow> wreturn res0) (w\<lparr>w_db := db1\<rparr>) = (r, w')"
      using assms Inr y ok z unfolding Internalize_def res0_def
      by (simp add: wbind_def [of "wread _"] wbind_def [of "wtx _"] wread_def wtx_def in_db_tx_def Let_def)
    from after_commit [where f = "\<lambda>q. q\<lparr>ir_SendWithResults := [\<lparr>sw_TxID = txID, sw_Status = SendWithResultStatusSending\<rparr>]\<rparr>"
        and g = "\<lambda>review q. q\<lparr>ir_NotDelayedResults := review, ir_SendWithResults := sendWithResultsFromReview review\<rparr>", OF this w2_def]
    have "(\<exists>e. r = Inl e \<and> is_panic e \<and> (w' = w2 \<or> bc \<and> (\<exists>p. ie_process env = Some p \<and> w' = snd (BackgroundBroadcast p (beef_view beef) [txID] w2)))) \<or>
       (\<exists>res. r = Inr res \<and> ir_Accepted res \<and> ir_IsMerge res = isMerge \<and> ir_TxID res = txID \<and> ir_Satoshis res = sats \<and>
          w' = (case (bc, ie_process env) of (True, Some p) \<Rightarrow> snd (BackgroundBroadcast p (beef_view beef) [txID] w2) | _ \<Rightarrow> w2))"
      by (auto simp: res0_def)
    then show thesis using stored [OF _ _ w2_def] Inr y ok z by blast
  qed
qed

text \<open>C11. A refused transaction leaves no trace. When the call returns an error, whatever its cause, the world is what it was: nothing is
  stored, nothing is posted. Once the database transaction has committed the call is accepted, also when the proof cannot be recorded
  or the broadcast fails.\<close>

theorem rejected_internalize_changes_nothing:
  assumes "Internalize env userID args w = (Inl e, w')" and "\<not> is_panic e"
  shows "w' = w"
  using assms by (cases rule: Internalize_stages [OF assms(1)]) auto

theorem rejected_internalize_changes_nothing_witness:
  "\<exists>e. Internalize ex_internalize 1 (ex_internalize_args\<lparr>ia_Tx := [2]\<rparr>) ex_world = (Inl e, ex_world)"
proof -
  obtain e w' where call: "Internalize ex_internalize 1 (ex_internalize_args\<lparr>ia_Tx := [2]\<rparr>) ex_world = (Inl e, w')" and "\<not> is_panic e"
    by (simp add: Internalize_def step_defs verified_payment_def ex_internalize_def ex_internalize_args_def)
  from rejected_internalize_changes_nothing [OF this] call show ?thesis by blast
qed

section \<open>The outputs of a new transaction\<close>

definition spec_value :: "full_tx \<Rightarrow> internalize_output \<Rightarrow> int" where
  "spec_value tx s = int (out_Satoshis (ft_Outputs tx ! io_OutputIndex s))"

definition payments :: "internalize_output list \<Rightarrow> internalize_output list" where
  "payments specs = filter (\<lambda>s. io_Protocol s = WalletPaymentProtocol) specs"

definition made_output :: "full_tx \<Rightarrow> internalize_output \<Rightarrow> new_output list" where
  "made_output tx s = (case io_Protocol s of
     WalletPaymentProtocol \<Rightarrow>
       [payment_output (io_OutputIndex s) (ft_Outputs tx ! io_OutputIndex s) (spec_value tx s) (the (io_PaymentRemittance s))]
   | BasketInsertionProtocol \<Rightarrow>
       [inserted_output (io_OutputIndex s) (ft_Outputs tx ! io_OutputIndex s) (spec_value tx s) (the (io_InsertionRemittance s))]
   | UnknownProtocol _ \<Rightarrow> [])"

lemma make_outputs_fresh:
  assumes "make_outputs_loop userID tx n False db specs outs sats verified = Inr (outs', sats')"
  shows "map oi_NewOutput outs' = map oi_NewOutput outs @ concat (map (made_output tx) specs) \<and>
    sats' = sats + (\<Sum>s \<leftarrow> payments specs. spec_value tx s) \<and>
    (\<forall>s \<in> set specs. io_OutputIndex s < n \<and> io_OutputIndex s < length (ft_Outputs tx) \<and>
       ((\<exists>p. io_Protocol s = UnknownProtocol p) \<or> valid_sats (spec_value tx s)))"
  using assms
proof (induction specs arbitrary: outs sats verified)
  case Nil
  then show ?case by (simp add: payments_def)
next
  case (Cons s specs)
  have bounds: "io_OutputIndex s < n" "io_OutputIndex s < length (ft_Outputs tx)"
    using Cons.prems by (auto simp: Let_def split: if_splits)
  show ?case
  proof (cases "io_Protocol s")
    case WalletPaymentProtocol
    with Cons.prems bounds obtain sats1 r where s1: "MustAdd (Signed sats) (Unsigned (out_Satoshis (ft_Outputs tx ! io_OutputIndex s))) = Inr sats1"
      and v: "valid_sats (spec_value tx s)" and r: "io_PaymentRemittance s = Some r"
      and rest: "make_outputs_loop userID tx n False db specs (outs @ [\<lparr>oi_NewOutput = payment_output (io_OutputIndex s)
          (ft_Outputs tx ! io_OutputIndex s) (spec_value tx s) r, oi_existingOutputID = None\<rparr>]) sats1 True = Inr (outs', sats')"
      by (auto simp: Let_def result_simps spec_value_def split: option.splits)
    have "sats1 = sats + spec_value tx s" using s1 by (auto simp: result_simps spec_value_def)
    with Cons.IH [OF rest] bounds v r WalletPaymentProtocol show ?thesis
      by (simp add: made_output_def payments_def)
  next
    case BasketInsertionProtocol
    with Cons.prems bounds obtain r where v: "valid_sats (spec_value tx s)" and r: "io_InsertionRemittance s = Some r"
      and rest: "make_outputs_loop userID tx n False db specs (outs @ [\<lparr>oi_NewOutput = inserted_output (io_OutputIndex s)
          (ft_Outputs tx ! io_OutputIndex s) (spec_value tx s) r, oi_existingOutputID = None\<rparr>]) sats verified = Inr (outs', sats')"
      by (auto simp: Let_def result_simps spec_value_def split: option.splits)
    from Cons.IH [OF rest] bounds v r BasketInsertionProtocol show ?thesis
      by (simp add: made_output_def payments_def)
  next
    case (UnknownProtocol p)
    with Cons.prems bounds have "make_outputs_loop userID tx n False db specs outs sats verified = Inr (outs', sats')"
      by (simp add: Let_def)
    from Cons.IH [OF this] bounds UnknownProtocol show ?thesis by (simp add: made_output_def payments_def)
  qed
qed

section \<open>A transaction that is new to the user\<close>

lemma made_output_i64:
  assumes "\<forall>s \<in> set specs. (\<exists>p. io_Protocol s = UnknownProtocol p) \<or> valid_sats (spec_value tx s)"
    and "no \<in> set (concat (map (made_output tx) specs))"
  shows "is_i64 (no_Satoshis no)"
proof -
  from assms(2) obtain s where s: "s \<in> set specs" "no \<in> set (made_output tx s)" by auto
  then have "no_Satoshis no = spec_value tx s" "\<nexists>p. io_Protocol s = UnknownProtocol p"
    by (auto simp: made_output_def payment_output_def inserted_output_def split: internalize_protocol.splits)
  with assms(1) s(1) have "valid_sats (no_Satoshis no)" by auto
  then show ?thesis by (auto simp: valid_sats_def MaxSatoshis_def is_i64_def)
qed

lemma storeNewTx_Inr:
  assumes "storeNewTx env userID args abeef txID tx sats outs db = Inr (bc, db2)"
  obtains ks ts us db1 reference i where
    "new_statuses (ft_MerklePath tx \<noteq> None) (FindKnownTxStatuses [txID] db txID) = (ks, ts, us, bc)"
    and "upsertKnownTx \<lparr>ukt_InputBeef = Some abeef, ukt_RawTx = Some (ie_TxBytes env tx), ukt_TxID = txID, ukt_Status = ks,
        ukt_SkipForStatuses = internalize_skip_statuses ks\<rparr> (note_InternalizeAction userID) db = Inr ((), db1)"
    and "createTransactionInTx (ie_lib env) (internalized_tx env userID args txID tx sats outs ts us reference) db1 = Inr (i, db2)"
proof -
  obtain ks ts us bc0 where st: "new_statuses (ft_MerklePath tx \<noteq> None) (FindKnownTxStatuses [txID] db txID) = (ks, ts, us, bc0)"
    by (metis prod_cases4)
  let ?nt = "internalized_tx env userID args txID tx sats outs ts us"
  from assms st obtain db1 reference where up: "upsertKnownTx \<lparr>ukt_InputBeef = Some abeef, ukt_RawTx = Some (ie_TxBytes env tx),
        ukt_TxID = txID, ukt_Status = ks, ukt_SkipForStatuses = internalize_skip_statuses ks\<rparr> (note_InternalizeAction userID) db = Inr ((), db1)"
    and cr: "(case createTransactionInTx (ie_lib env) (?nt reference) db1 of
        Inl e \<Rightarrow> Inl (wrap_error ''failed to create transaction'' (claim_go_error e)) | Inr (_, db2) \<Rightarrow> Inr (bc0, db2)) = Inr (bc, db2)"
    by (auto simp: storeNewTx_def result_simps)
  from cr obtain i where "createTransactionInTx (ie_lib env) (?nt reference) db1 = Inr (i, db2)" "bc0 = bc"
    by (cases "createTransactionInTx (ie_lib env) (?nt reference) db1") auto
  then show thesis using that st up by blast
qed

lemma internalize_uow_fresh:
  assumes "internalize_uow env userID args abeef txID tx db = Inr ((False, sats, bc), db')"
  obtains outs n where "FindTransactionByUserIDAndTxID userID txID db = None"
    and "ie_UInt32 env (int (length (ft_Outputs tx))) = Some n"
    and "make_outputs_loop userID tx n False db (ia_Outputs args) [] 0 False = Inr (outs, sats)"
    and "storeNewTx env userID args abeef txID tx sats outs db = Inr (bc, db')"
  using assms by (auto simp: internalize_uow_def Let_def result_simps makeOutputs_def split: option.splits if_splits prod.splits)

lemma internalize_uow_runs:
  assumes uow: "internalize_uow env userID args abeef txID tx db = Inr ((False, sats, bc), db')"
  shows "(storage_step (ie_lib env))\<^sup>*\<^sup>* db db'"
proof -
  from internalize_uow_fresh [OF uow] obtain outs n where
    mk: "make_outputs_loop userID tx n False db (ia_Outputs args) [] 0 False = Inr (outs, sats)"
    and st: "storeNewTx env userID args abeef txID tx sats outs db = Inr (bc, db')" .
  from storeNewTx_Inr [OF st] obtain ts us req n1 db1 reference i where up: "upsertKnownTx req n1 db = Inr ((), db1)"
    and cr: "createTransactionInTx (ie_lib env) (internalized_tx env userID args txID tx sats outs ts us reference) db1 = Inr (i, db')"
    by metis
  have "new_tx_ok (internalized_tx env userID args txID tx sats outs ts us reference) db1"
    using made_output_i64 [of "ia_Outputs args" tx] make_outputs_fresh [OF mk] by (auto simp: new_tx_ok_def internalized_tx_def)
  with up cr show ?thesis by (meson converse_rtranclp_into_rtranclp r_into_rtranclp storage_step.create storage_step.upsert)
qed

lemma within_internalize_mined: "step_within (runs lib) (internalize_mined env txID path)"
  unfolding internalize_mined_def by (intro within_basic)

text \<open>The posts of a step.\<close>

definition posts_only :: "string set \<Rightarrow> world \<Rightarrow> world \<Rightarrow> bool" where
  "posts_only X w w' \<longleftrightarrow> (\<exists>ps. w_posts w' = w_posts w @ ps \<and> (\<forall>b \<in> set ps. set b \<subseteq> X))"

interpretation posts_only: step_relation "posts_only X" for X
  by unfold_locales (fastforce simp: posts_only_def)+

lemma posts_only_basic: "step_within (posts_only X) (wtx f)" "step_within (posts_only X) (wupdate g)"
  "set ids \<subseteq> X \<Longrightarrow> step_within (posts_only X) (wpost env beef ids)"
  by (auto simp: step_within_def posts_only_def step_defs split: prod.splits)

lemma retainClaimed_subset: "set (retainClaimed ids cs) \<subseteq> set ids"
  by (auto simp: retainClaimed_def)

lemma posts_only_BackgroundBroadcast: "step_within (posts_only (set ids)) (BackgroundBroadcast env beef ids)"
  unfolding BackgroundBroadcast_def Let_def updateSingleTx_def
  by (intro posts_only.within posts_only_basic retainClaimed_subset)

lemma new_statuses_broadcast: "new_statuses mined st = (ks, ts, us, True) \<Longrightarrow> \<not> mined \<and> (\<forall>s. st = Some s \<longrightarrow> \<not> AlreadySent s \<and> \<not> IsInFlight s)"
  by (auto simp: new_statuses_def split: if_splits option.splits)

lemma internalize_mined_frame: "w_posts (snd (internalize_mined env txID path w)) = w_posts w"
  "w_release (snd (internalize_mined env txID path w)) = w_release w"
  by (auto simp: internalize_mined_def step_defs split: sum.splits)

text \<open>C9. A transaction that is new to the user is stored safely. The accepted call is a run of storage steps, so the invariant of the
  database holds afterwards; it posts at most the transaction itself, only if the network has not accepted it and nobody else is
  sending it, and whatever it posts carries the broadcast evidence that keeps it from being aborted.\<close>

theorem new_transaction_is_stored_safely:
  assumes call: "Internalize env userID args w = (Inr res, w')" and fresh: "\<not> ir_IsMerge res"
    and lib: "\<forall>p. ie_process env = Some p \<longrightarrow> pe_lib p = ie_lib env" "convert_ok (ie_lib env)"
    and inv: "db_inv (w_db w)" and rel: "w_release w = None"
  shows "(storage_step (ie_lib env))\<^sup>*\<^sup>* (w_db w) (w_db w') \<and> db_inv (w_db w') \<and>
    (\<exists>ps. w_posts w' = w_posts w @ ps \<and>
       (ps \<noteq> [] \<longrightarrow> (\<forall>s. FindKnownTxStatuses [ir_TxID res] (w_db w) (ir_TxID res) = Some s \<longrightarrow> \<not> AlreadySent s \<and> \<not> IsInFlight s)) \<and>
       (\<forall>b \<in> set ps. set b \<subseteq> {ir_TxID res} \<and> (\<forall>x \<in> set b. flagged (w_db w') x)))"
  using call
proof (cases rule: Internalize_stages)
  case (stored beef abeef txID tx isMerge sats bc db1 w2)
  have res: "ir_TxID res = txID" "isMerge = False" and
    w': "w' = (case (bc, ie_process env) of (True, Some p) \<Rightarrow> snd (BackgroundBroadcast p (beef_view beef) [txID] w2) | _ \<Rightarrow> w2)"
    using stored(4) fresh by auto
  have uow: "internalize_uow env userID args abeef txID tx (w_db w) = Inr ((False, sats, bc), db1)" using stored(2) res(2) by simp
  have "runs (ie_lib env) (w\<lparr>w_db := db1\<rparr>) (snd (internalize_mined env txID path (w\<lparr>w_db := db1\<rparr>)))" for path
    by (rule runs.within_at [OF within_internalize_mined])
  then have "(storage_step (ie_lib env))\<^sup>*\<^sup>* db1 (w_db w2)" by (auto simp: stored(3) runs_def split: option.splits)
  then have run2: "(storage_step (ie_lib env))\<^sup>*\<^sup>* (w_db w) (w_db w2)" using internalize_uow_runs [OF uow] by simp
  have inv2: "db_inv (w_db w2)" using storage.run_good [OF run2] inv lib(2) by blast
  have w2: "w_posts w2 = w_posts w" "w_release w2 = None" using rel by (auto simp: stored(3) internalize_mined_frame split: option.splits)
  show ?thesis
  proof (cases "bc \<and> ie_process env \<noteq> None")
    case False
    then have "w' = w2" using w' by (auto split: bool.splits option.splits)
    then show ?thesis using run2 inv2 w2(1) by (intro conjI exI [of _ "[]"]) auto
  next
    case True
    then obtain p where p: "ie_process env = Some p" "pe_lib p = ie_lib env" using lib(1) by auto
    have w'': "w' = snd (BackgroundBroadcast p (beef_view beef) [txID] w2)" using w' True p by simp
    have "safe (ie_lib env) w2 w'" using safe_BackgroundBroadcast [of w2 p] w2(2) p(2) by (simp add: w'' disarmed_def)
    then obtain ps where s: "(storage_step (ie_lib env))\<^sup>*\<^sup>* (w_db w2) (w_db w')" "w_posts w' = w_posts w2 @ ps"
      "\<forall>b \<in> set ps. \<forall>x \<in> set b. flagged (w_db w') x" using inv2 lib(2) by (auto simp: safe_def runs_def)
    have "posts_only (set [txID]) w2 w'" unfolding w'' by (rule posts_only.within_at [OF posts_only_BackgroundBroadcast])
    then have only: "\<forall>b \<in> set ps. set b \<subseteq> {txID}" using s(2) by (auto simp: posts_only_def)
    from internalize_uow_fresh [OF uow] obtain outs n where
      "storeNewTx env userID args abeef txID tx sats outs (w_db w) = Inr (bc, db1)" by metis
    from storeNewTx_Inr [OF this] obtain ks ts us where
      "new_statuses (ft_MerklePath tx \<noteq> None) (FindKnownTxStatuses [txID] (w_db w) txID) = (ks, ts, us, True)" using True by metis
    from new_statuses_broadcast [OF this] have "\<forall>s. FindKnownTxStatuses [txID] (w_db w) txID = Some s \<longrightarrow> \<not> AlreadySent s \<and> \<not> IsInFlight s" by blast
    moreover have run: "(storage_step (ie_lib env))\<^sup>*\<^sup>* (w_db w) (w_db w')" using run2 s(1) by simp
    moreover have "db_inv (w_db w')" using storage.run_good [OF run] inv lib(2) by blast
    ultimately show ?thesis using s only w2(1) unfolding res(1) by (intro conjI exI [of _ ps]) auto
  qed
qed auto

section \<open>The rows of a new transaction\<close>

text \<open>A prepared output and the specification it was made from.\<close>

definition fits_new :: "int \<Rightarrow> new_output \<Rightarrow> output_row \<times> user_utxo option \<Rightarrow> bool" where
  "fits_new user no p \<longleftrightarrow> (case p of (out, utxo) \<Rightarrow>
     or_UserID out = user \<and> or_Vout out = no_Vout no \<and> or_BasketName out = no_BasketName no \<and>
     (case utxo of None \<Rightarrow> \<not> (no_Spendable no \<and> no_Change no)
      | Some u \<Rightarrow> no_Spendable no \<and> no_Change no \<and> uu_UserID u = user \<and> int (uu_Satoshis u) = no_Satoshis no))"

lemma makeNewOutput_fits:
  "convert_ok lib \<Longrightarrow> is_i64 (no_Satoshis no) \<Longrightarrow> makeNewOutput lib user no st = Inr p \<Longrightarrow> fits_new user no p"
  by (auto simp: makeNewOutput_def fits_new_def convert_ok_def result_simps Let_def split: option.splits if_splits)

lemma map_or_error_all2: "map_or_error f xs = Inr ys \<Longrightarrow> list_all2 (\<lambda>x y. f x = Inr y) xs ys"
  by (induction xs arbitrary: ys) (auto simp: result_simps)

lemma toTransactionModel_fits:
  assumes "convert_ok lib" "new_tx_ok nt db" and "toTransactionModel lib nt = Inr (model, outs)"
  shows "list_all2 (fits_new (nt_UserID nt)) (nt_Outputs nt) outs"
proof -
  from assms(3) have "map_or_error (\<lambda>output. makeNewOutput lib (nt_UserID nt) output (nt_UTXOStatus nt)) (nt_Outputs nt) = Inr outs"
    by (auto simp: toTransactionModel_def result_simps)
  from map_or_error_all2 [OF this] show ?thesis
    by (rule list.rel_mono_strong) (use assms(1,2) in \<open>auto simp: new_tx_ok_def intro: makeNewOutput_fits\<close>)
qed

lemma connectOutputs_fits:
  "connectOutputsWithBaskets user outs db = (outs', db') \<Longrightarrow> list_all2 (fits_new user) nos outs \<Longrightarrow> list_all2 (fits_new user) nos outs'"
proof (induction user outs db arbitrary: nos outs' db' rule: connectOutputsWithBaskets.induct)
  case (1 user db)
  then show ?case by simp
next
  case (2 user out utxo outs db)
  from "2.prems"(2) obtain no nos' where nos: "nos = no # nos'" "fits_new user no (out, utxo)" "list_all2 (fits_new user) nos' outs"
    by (auto simp: list_all2_Cons2)
  have keep: "fits_new user no (out, map_option (\<lambda>u. u\<lparr>uu_BasketName := b\<rparr>) utxo)" for b
    using nos(2) by (auto simp: fits_new_def split: option.splits)
  show ?case
  proof (cases "or_BasketName out")
    case None
    with "2.prems"(1) "2.IH"(1) [OF None _ nos(3)] nos show ?thesis by (auto split: prod.splits)
  next
    case (Some b)
    show ?thesis
    proof (cases "b = []")
      case True
      with "2.prems"(1) "2.IH"(2) [OF Some True _ nos(3)] Some nos show ?thesis by (auto split: prod.splits)
    next
      case False
      with "2.prems"(1) "2.IH"(3) [OF Some False refl refl _ nos(3)] Some nos(1) keep show ?thesis by (auto simp: Let_def split: prod.splits)
    qed
  qed
qed

definition indexed_total :: "int \<Rightarrow> database \<Rightarrow> int" where
  "indexed_total user db = (\<Sum>u \<leftarrow> filter (\<lambda>u. uu_UserID u = user) (db_UserUTXOs db). int (uu_Satoshis u))"

lemma insert_outputs_rows:
  "list_all2 (fits_new user) nos outs \<Longrightarrow>
   \<exists>os. db_Outputs (insert_outputs i outs db) = db_Outputs db @ os \<and>
     list_all2 (\<lambda>no r. or_UserID r = user \<and> or_TransactionID r = i \<and> or_Vout r = no_Vout no \<and> or_BasketName r = no_BasketName no) nos os \<and>
     indexed_total user (insert_outputs i outs db) =
       indexed_total user db + (\<Sum>no \<leftarrow> filter (\<lambda>no. no_Spendable no \<and> no_Change no) nos. no_Satoshis no)"
proof (induction i outs db arbitrary: nos rule: insert_outputs.induct)
  case (1 i db)
  then show ?case by simp
next
  case (2 i out utxo outs db)
  from "2.prems" obtain no nos' where nos: "nos = no # nos'" "fits_new user no (out, utxo)" "list_all2 (fits_new user) nos' outs"
    by (auto simp: list_all2_Cons2)
  let ?row = "out\<lparr>or_ID := db_NextOutputID db, or_CreatedAt := db_Now db, or_TransactionID := i\<rparr>"
  from "2.IH" [OF refl refl refl nos(3)] obtain os where os:
    "db_Outputs (insert_outputs i ((out, utxo) # outs) db) = db_Outputs db @ ?row # os"
    "list_all2 (\<lambda>no r. or_UserID r = user \<and> or_TransactionID r = i \<and> or_Vout r = no_Vout no \<and> or_BasketName r = no_BasketName no) nos' os"
    "indexed_total user (insert_outputs i ((out, utxo) # outs) db) = indexed_total user (db\<lparr>db_UserUTXOs := db_UserUTXOs db @
       (case utxo of None \<Rightarrow> [] | Some u \<Rightarrow> [u\<lparr>uu_OutputID := db_NextOutputID db, uu_CreatedAt := db_Now db\<rparr>])\<rparr>) +
       (\<Sum>no \<leftarrow> filter (\<lambda>no. no_Spendable no \<and> no_Change no) nos'. no_Satoshis no)"
    by (auto simp: Let_def indexed_total_def)
  then show ?case using nos(1,2)
    by (intro exI [of _ "?row # os"]) (auto simp: fits_new_def indexed_total_def split: option.splits)
qed

abbreviation (input) new_row :: "int \<Rightarrow> nat \<Rightarrow> new_output \<Rightarrow> output_row \<Rightarrow> bool" where
  "new_row user i no r \<equiv> or_UserID r = user \<and> or_TransactionID r = i \<and> or_Vout r = no_Vout no \<and> or_BasketName r = no_BasketName no"

lemma createTransactionInTx_rows:
  assumes op: "createTransactionInTx lib nt db = Inr (i, db')" and lib: "convert_ok lib" and nt: "new_tx_ok nt db"
    and none: "nt_ReservedOutputIDs nt = []" "nt_SpentOutputIDs nt = []"
  shows "\<exists>t os. i = db_NextTransactionID db \<and> db_Transactions db' = db_Transactions db @ [t] \<and> tr_ID t = i \<and> tr_UserID t = nt_UserID nt \<and>
    tr_TxID t = nt_TxID nt \<and> tr_Status t = nt_Status nt \<and> tr_Satoshis t = nt_Satoshis nt \<and> tr_IsOutgoing t = nt_IsOutgoing nt \<and>
    db_Outputs db' = db_Outputs db @ os \<and> list_all2 (new_row (nt_UserID nt) i) (nt_Outputs nt) os \<and>
    indexed_total (nt_UserID nt) db' = indexed_total (nt_UserID nt) db +
      (\<Sum>no \<leftarrow> filter (\<lambda>no. no_Spendable no \<and> no_Change no) (nt_Outputs nt). no_Satoshis no)"
proof -
  from createTransactionInTx_Inr [OF op] obtain model outputs outs db1 db2 db3 where
    tm: "toTransactionModel lib nt = Inr (model, outputs)"
    and con: "connectOutputsWithBaskets (nt_UserID nt) outputs db = (outs, db1)"
    and ins: "insert_transaction nt model outs db1 = Inr (i, db2)"
    and "reserveUTXOs i (nt_UserID nt) (nt_ReservedOutputIDs nt) db2 = Inr ((), db3)"
    and "markReservedOutputsAsNotSpendable i (nt_UserID nt) (nt_SpentOutputIDs nt) db3 = Inr db'" .
  then have db': "db' = db2" by (simp add: none reserveUTXOs_def markReservedOutputsAsNotSpendable_def)
  obtain bs where db1: "db1 = db\<lparr>db_Baskets := bs\<rparr>" using connectOutputs_eq [OF con, of 0] by blast
  from insert_transaction_eq [OF ins] obtain cs where i: "i = db_NextTransactionID db1"
    and db2: "db2 = insert_outputs i outs (db1\<lparr>db_NextTransactionID := i + 1,
      db_Transactions := db_Transactions db1 @ [model\<lparr>tr_ID := i, tr_CreatedAt := db_Now db1\<rparr>], db_Commissions := cs\<rparr>)"
    (is "_ = insert_outputs i outs ?db") .
  have model: "tr_UserID model = nt_UserID nt" "tr_TxID model = nt_TxID nt" "tr_Status model = nt_Status nt"
    "tr_Satoshis model = nt_Satoshis nt" "tr_IsOutgoing model = nt_IsOutgoing nt"
    using tm by (auto simp: toTransactionModel_def result_simps)
  from insert_outputs_rows [OF connectOutputs_fits [OF con toTransactionModel_fits [OF lib nt tm]], of i ?db]
  show ?thesis
    by (intro exI [of _ "model\<lparr>tr_ID := i, tr_CreatedAt := db_Now db1\<rparr>"])
      (auto simp: db' db2 insert_outputs_frame model i db1 indexed_total_def)
qed

lemma upsertKnownTx_tables:
  "upsertKnownTx req n db = Inr (x, db') \<Longrightarrow> db_Transactions db' = db_Transactions db \<and> db_Outputs db' = db_Outputs db \<and>
     db_UserUTXOs db' = db_UserUTXOs db \<and> db_NextTransactionID db' = db_NextTransactionID db"
  by (auto simp: upsertKnownTx_def Let_def addTxNote_def split: if_splits)

text \<open>The rows of a stored transaction.\<close>

lemma internalize_uow_rows:
  assumes uow: "internalize_uow env userID args abeef txID tx db = Inr ((False, sats, bc), db')" and lib: "convert_ok (ie_lib env)"
  obtains n t os where "FindTransactionByUserIDAndTxID userID txID db = None"
    and "ie_UInt32 env (int (length (ft_Outputs tx))) = Some n"
    and "\<forall>s \<in> set (ia_Outputs args). io_OutputIndex s < n \<and> io_OutputIndex s < length (ft_Outputs tx)"
    and "sats = (\<Sum>s \<leftarrow> payments (ia_Outputs args). spec_value tx s)"
    and "db_Transactions db' = db_Transactions db @ [t]" and "tr_ID t = db_NextTransactionID db" and "tr_UserID t = userID"
    and "tr_TxID t = Some txID" and "tr_Satoshis t = sats" and "\<not> tr_IsOutgoing t" and "tr_Status t \<in> {TxStatusUnproven, TxStatusSending}"
    and "db_Outputs db' = db_Outputs db @ os"
    and "list_all2 (new_row userID (db_NextTransactionID db)) (concat (map (made_output tx) (ia_Outputs args))) os"
    and "indexed_total userID db' = indexed_total userID db + sats"
proof -
  from internalize_uow_fresh [OF uow] obtain outs n where none: "FindTransactionByUserIDAndTxID userID txID db = None"
    and n: "ie_UInt32 env (int (length (ft_Outputs tx))) = Some n"
    and mk: "make_outputs_loop userID tx n False db (ia_Outputs args) [] 0 False = Inr (outs, sats)"
    and st: "storeNewTx env userID args abeef txID tx sats outs db = Inr (bc, db')" .
  from storeNewTx_Inr [OF st] obtain ks ts us req n1 db1 reference i where
    ns: "new_statuses (ft_MerklePath tx \<noteq> None) (FindKnownTxStatuses [txID] db txID) = (ks, ts, us, bc)"
    and up: "upsertKnownTx req n1 db = Inr ((), db1)"
    and cr: "createTransactionInTx (ie_lib env) (internalized_tx env userID args txID tx sats outs ts us reference) db1 = Inr (i, db')"
    (is "createTransactionInTx _ ?nt _ = _") by metis
  note mk' = make_outputs_fresh [OF mk, simplified]
  have ok: "new_tx_ok ?nt db1"
    using made_output_i64 [of "ia_Outputs args" tx] mk' by (auto simp: new_tx_ok_def internalized_tx_def)
  have ts: "ts \<in> {TxStatusUnproven, TxStatusSending}" using ns by (auto simp: new_statuses_def split: if_splits)
  have credit: "(\<Sum>no \<leftarrow> filter (\<lambda>no. no_Spendable no \<and> no_Change no) (concat (map (made_output tx) specs)). no_Satoshis no) =
      (\<Sum>s \<leftarrow> payments specs. spec_value tx s)" for specs
    by (induction specs) (auto simp: payments_def made_output_def payment_output_def inserted_output_def split: internalize_protocol.splits)
  from createTransactionInTx_rows [OF cr lib ok] upsertKnownTx_tables [OF up] mk' ts credit [of "ia_Outputs args"] that [OF none n]
  show thesis by (auto simp: internalized_tx_def indexed_total_def)
qed

text \<open>C10. What a new transaction is reported to bring is what the wallet can spend. The reported amount is the sum of the outputs taken in as
  wallet payments, it is recorded with the transaction, and the index of the user's spendable outputs gains exactly this amount.\<close>

theorem internalized_amount_is_indexed:
  assumes "internalize_uow env userID args abeef txID tx db = Inr ((False, sats, bc), db')" and "convert_ok (ie_lib env)"
  shows "sats = (\<Sum>s \<leftarrow> payments (ia_Outputs args). spec_value tx s) \<and> indexed_total userID db' = indexed_total userID db + sats \<and>
    (\<exists>t. db_Transactions db' = db_Transactions db @ [t] \<and> tr_UserID t = userID \<and> tr_TxID t = Some txID \<and> tr_Satoshis t = sats \<and>
       \<not> tr_IsOutgoing t)"
  by (rule internalize_uow_rows [OF assms]) blast

lemmas uow_defs = internalize_uow_def FindTransactionByUserIDAndTxID_def first_by_def makeOutputs_def payment_output_def checkChangeBasket_def
  FindBasketByName_def BasketNameForChange_def Let_def MustAdd_def Add_def valid_sats_def MaxSatoshis_def is_i64_def

lemmas store_defs = storeNewTx_def new_statuses_def FindKnownTxStatuses_def upsertKnownTx_def find_known_def addTxNote_def internalize_skip_statuses_def
  internalized_tx_def createTransactionInTx_def toTransactionModel_def makeNewOutput_def createIfNotExist_def insert_transaction_def
  reserveUTXOs_def markReservedOutputsAsNotSpendable_def HexString_ToBytes_def hex_EncodeToString_def hex_digit_def hex_value_def
  is_EmptyString_def EstimatedInputSizeByType_def std_lib_def

text \<open>The example payment is stored.\<close>

lemma ex_payment_uow:
  obtains db' where "internalize_uow ex_internalize 1 ex_internalize_args [9] ''cc'' ex_payment ex_internalize_db = Inr ((False, 700, True), db')"
proof -
  have "\<exists>db'. internalize_uow ex_internalize 1 ex_internalize_args [9] ''cc'' ex_payment ex_internalize_db = Inr ((False, 700, True), db')"
    by (simp add: uow_defs store_defs ex_internalize_defs)
  then show thesis using that by blast
qed

lemma ex_internalize_lib: "convert_ok (ie_lib ex_internalize)"
  using std_convert_ok by (simp add: ex_internalize_def)

lemma ex_internalize_inv: "db_inv ex_internalize_db"
  using ex_db_inv by (simp add: ex_internalize_db_def db_inv_update(3))

theorem internalized_amount_is_indexed_witness:
  "\<exists>db'. internalize_uow ex_internalize 1 ex_internalize_args [9] ''cc'' ex_payment ex_internalize_db = Inr ((False, 700, True), db') \<and>
     indexed_total 1 db' = indexed_total 1 ex_internalize_db + 700"
proof (rule ex_payment_uow)
  fix db' assume uow: "internalize_uow ex_internalize 1 ex_internalize_args [9] ''cc'' ex_payment ex_internalize_db = Inr ((False, 700, True), db')"
  from internalized_amount_is_indexed [OF uow ex_internalize_lib] uow show ?thesis by blast
qed

text \<open>The whole call, with services that are down: the transaction is stored and posted, and the call is accepted.\<close>

definition ex_down :: internalize_env where
  "ex_down = ex_internalize\<lparr>ie_process := Some ex_env_down\<rparr>"

definition ex_payment_world :: world where
  "ex_payment_world = ex_world\<lparr>w_db := ex_internalize_db\<rparr>"

lemma ex_payment_call:
  "\<exists>res w'. Internalize ex_down 1 ex_internalize_args ex_payment_world = (Inr res, w') \<and> \<not> ir_IsMerge res \<and> w_posts w' = [[''cc'']]"
proof -
  have v: "verified_payment ex_down (ia_Tx ex_internalize_args) ex_internalize_db =
      Inr (\<lparr>sb_Transactions = [(''cc'', \<lparr>bt_DataFormat = RawTx, bt_BumpIndex = 0, bt_Transaction = Some ex_payment\<rparr>)], sb_BUMPs = []\<rparr>, [9], ''cc'', ex_payment)"
    by (simp add: verified_payment_def ex_down_def ex_internalize_def ex_internalize_args_def resolveTxidOnlyAncestors_def hydrateAncestryFromStorage_def
        maxAncestryHydrationRounds_def numeral_eq_Suc unanchorableSources_def HydrateBEEF_def ex_payment_def simple_sdk_def)
  obtain db1 k where u: "internalize_uow ex_down 1 ex_internalize_args [9] ''cc'' ex_payment ex_internalize_db = Inr ((False, 700, True), db1)"
    and k: "db_KnownTxs db1 = db_KnownTxs ex_db @ [k]" "kt_TxID k = ''cc''" "kt_Status k = ProvenTxStatusUnsent"
    by (simp add: uow_defs store_defs ex_internalize_defs ex_down_def)
  show ?thesis
    using v u k by (simp add: ex_db_def ex_known_def Internalize_def step_defs ex_payment_world_def ex_world_def in_db_tx_def ex_payment_def ex_down_def logged_def
      BackgroundBroadcast_def ClaimKnownTxsForBroadcast_def KnownTxClaimableForBroadcastStatuses_def retainClaimed_def ex_env_down_def Let_def)
qed

theorem new_transaction_is_stored_safely_witness:
  "\<exists>res w'. Internalize ex_down 1 ex_internalize_args ex_payment_world = (Inr res, w') \<and> db_inv (w_db w') \<and> w_posts w' = [[''cc'']] \<and>
     flagged (w_db w') ''cc''"
proof -
  from ex_payment_call obtain res w' where call: "Internalize ex_down 1 ex_internalize_args ex_payment_world = (Inr res, w')" "\<not> ir_IsMerge res"
    and posts: "w_posts w' = [[''cc'']]" by blast
  have "\<forall>p. ie_process ex_down = Some p \<longrightarrow> pe_lib p = ie_lib ex_down" "convert_ok (ie_lib ex_down)" "db_inv (w_db ex_payment_world)"
    "w_release ex_payment_world = None" "w_posts ex_payment_world = []"
    using ex_internalize_inv ex_internalize_lib
    by (simp_all add: ex_down_def ex_env_down_def ex_env_def ex_internalize_def ex_payment_world_def ex_world_def)
  from new_transaction_is_stored_safely [OF call this(1-4)] this(5) posts call show ?thesis by auto
qed

text \<open>The sum has one term per entry of the arguments, so an output that is listed twice is credited twice, and gets two rows.\<close>

lemma listed_twice_is_credited_twice:
  assumes "internalize_uow env userID args abeef txID tx db = Inr ((False, sats, bc), db')" and "convert_ok (ie_lib env)"
    and "ia_Outputs args = [s, s]" and "io_Protocol s = WalletPaymentProtocol"
  shows "sats = 2 * spec_value tx s \<and> indexed_total userID db' = indexed_total userID db + 2 * spec_value tx s \<and>
    (\<exists>r r'. db_Outputs db' = db_Outputs db @ [r, r'] \<and> or_TransactionID r = or_TransactionID r' \<and> or_Vout r = or_Vout r')"
  by (rule internalize_uow_rows [OF assms(1,2)]) (use assms(3,4) in \<open>auto simp: payments_def made_output_def list_all2_Cons1\<close>)

section \<open>Repeating a call\<close>

lemma all2_left: "list_all2 P xs ys \<Longrightarrow> x \<in> set xs \<Longrightarrow> \<exists>y \<in> set ys. P x y"
  by (induction rule: list_all2_induct) auto

lemma all2_right: "list_all2 P xs ys \<Longrightarrow> y \<in> set ys \<Longrightarrow> \<exists>x \<in> set xs. P x y"
  by (induction rule: list_all2_induct) auto

lemma first_by_ex: "r \<in> set rs \<Longrightarrow> P r \<Longrightarrow> \<exists>r'. first_by key P rs = Some r' \<and> r' \<in> set rs \<and> P r'"
proof -
  assume "r \<in> set rs" "P r"
  then obtain x where x: "first_by key P rs = Some x"
    by (cases "sort_key key (filter P rs)") (auto simp: first_by_def dest: arg_cong [of _ _ set])
  from first_by_Some [OF this] x show ?thesis by blast
qed

lemma first_by_None: "first_by key P rs = None \<longleftrightarrow> (\<forall>r \<in> set rs. \<not> P r)"
  using first_by_ex [of _ rs P key] first_by_Some [of key P rs] by (cases "first_by key P rs") auto

lemma make_outputs_all_change:
  assumes "\<forall>s \<in> set specs. io_Protocol s = WalletPaymentProtocol \<and> io_OutputIndex s < n \<and> io_OutputIndex s < length (ft_Outputs tx) \<and>
    (\<exists>r. FindOutput userID \<lparr>op_TxID = ft_TxID tx, op_Vout = io_OutputIndex s\<rparr> db = Some r \<and> or_BasketName r = Some BasketNameForChange)"
  shows "make_outputs_loop userID tx n True db specs outs sats v = Inr (outs, sats)"
  using assms by (induction specs arbitrary: outs) (auto simp: Let_def)



section \<open>Merging over an existing output\<close>

lemma merged_inserted:
  assumes "merged_output lib t \<lparr>oi_NewOutput = inserted_output vout output v ins, oi_existingOutputID = Some i\<rparr> = Inr p"
  shows "\<exists>out. p = (out, None) \<and> or_ID out = i \<and> or_Spendable out \<and> or_SpentBy out = None \<and> or_BasketName out = Some (bi_Basket ins)"
  using assms by (auto simp: merged_output_def ToOutput_def inserted_output_def result_simps)

text \<open>C13. A merge revives a spent output. Taking in a stored transaction again, with an output inserted into a basket, overwrites the whole row of
  the output: it becomes spendable and forgets the transaction that spends it, which may be signed and broadcast. When the output was
  change, the reported amount is negative, but its index row stays, so the funding of other actions still selects it.\<close>

theorem merge_revives_spent_output:
  assumes uow: "internalize_uow env userID args abeef txID tx db = Inr ((True, sats, bc), db')"
    and spec: "ia_Outputs args = [s]" "io_Protocol s = BasketInsertionProtocol" "io_InsertionRemittance s = Some ins"
    and row: "FindOutput userID \<lparr>op_TxID = ft_TxID tx, op_Vout = io_OutputIndex s\<rparr> db = Some r" "or_ID r \<noteq> 0"
  shows "(\<exists>r' \<in> set (db_Outputs db'). or_ID r' = or_ID r \<and> or_Spendable r' \<and> or_SpentBy r' = None \<and> or_BasketName r' = Some (bi_Basket ins)) \<and>
    (\<forall>r' \<in> set (db_Outputs db'). or_ID r' = or_ID r \<longrightarrow> or_SpentBy r' = None) \<and>
    db_UserUTXOs db' = db_UserUTXOs db \<and> (or_BasketName r = Some BasketNameForChange \<longrightarrow> sats = - spec_value tx s)"
proof -
  from uow obtain t outs where "FindTransactionByUserIDAndTxID userID txID db = Some t"
    and mk: "makeOutputs env userID tx [s] True db = Inr (outs, sats)"
    and up: "upsertExistingTx (ie_lib env) t outs (ia_Labels args) db = Inr ((), db')"
    by (auto simp: internalize_uow_def Let_def result_simps spec(1) split: option.splits if_splits)
  from mk spec(2,3) row(1) obtain v where outs: "outs = [\<lparr>oi_NewOutput = inserted_output (io_OutputIndex s) (ft_Outputs tx ! io_OutputIndex s) v ins,
      oi_existingOutputID = Some (or_ID r)\<rparr>]"
    and sats: "or_BasketName r = Some BasketNameForChange \<longrightarrow> sats = - spec_value tx s"
    by (auto simp: makeOutputs_def Let_def result_simps spec_value_def split: option.splits if_splits)
  from up obtain db1 p where lab: "AddLabels (tr_ID t) (ia_Labels args) db = Inr ((), db1)"
    and p: "merged_output (ie_lib env) t (hd outs) = Inr p" and db'': "db' = save_output p (ensure_baskets (tr_UserID t) [p] db1)"
    by (auto simp: upsertExistingTx_def outs result_simps SaveOutputs_def)
  from merged_inserted [OF p [unfolded outs list.sel]] db'' obtain out where
    out: "or_ID out = or_ID r" "or_Spendable out" "or_SpentBy out = None" "or_BasketName out = Some (bi_Basket ins)"
    and db': "db' = save_output (out, None) (ensure_baskets (tr_UserID t) [(out, None)] db1)" by blast
  have db1: "db_Outputs db1 = db_Outputs db" "db_UserUTXOs db1 = db_UserUTXOs db" using lab by (auto simp: AddLabels_def split: if_splits)
  have tables: "db_Outputs db' = update_where (\<lambda>x. or_ID x = or_ID r) (\<lambda>_. out) (db_Outputs db)" "db_UserUTXOs db' = db_UserUTXOs db"
    using out row(2) by (simp_all add: db' save_output_def Let_def ensure_baskets_def FindOrCreateBasket_def createIfNotExist_frame db1)
  have "r \<in> set (db_Outputs db)" using row(1) first_by_Some unfolding FindOutput_def by metis
  then have "out \<in> set (db_Outputs db')" unfolding tables by (auto simp: in_update_where)
  moreover have "\<forall>r' \<in> set (db_Outputs db'). or_ID r' = or_ID r \<longrightarrow> or_SpentBy r' = None"
    using out unfolding tables by (auto simp: in_update_where)
  ultimately show ?thesis using out sats tables(2) by blast
qed

text \<open>Output 2 of the example was spent by the signed transaction 2.\<close>

definition ex_insertion :: internalize_args where
  "ex_insertion = \<lparr>ia_Tx = [1], ia_Outputs = [\<lparr>io_OutputIndex = 2, io_Protocol = BasketInsertionProtocol, io_PaymentRemittance = None,
     io_InsertionRemittance = Some \<lparr>bi_Basket = ''tokens'', bi_CustomInstructions = None, bi_Tags = []\<rparr>\<rparr>], ia_Description = ''insert'', ia_Labels = []\<rparr>"

theorem merge_revives_spent_output_witness:
  "ex_out 2 1 (Some 2) 500 \<in> set (db_Outputs ex_internalize_db) \<and>
   (\<exists>sats bc db'. internalize_uow ex_internalize 1 ex_insertion [9] ''aa'' ex_stored ex_internalize_db = Inr ((True, sats, bc), db') \<and>
     (\<forall>r' \<in> set (db_Outputs db'). or_ID r' = 2 \<longrightarrow> or_SpentBy r' = None))"
proof -
  let ?s = "hd (ia_Outputs ex_insertion)" and ?r = "ex_out 2 1 (Some 2) 500"
  have "\<exists>db'. internalize_uow ex_internalize 1 ex_insertion [9] ''aa'' ex_stored ex_internalize_db = Inr ((True, -500, False), db')"
    by (simp add: uow_defs ex_internalize_defs ex_insertion_def isAllowedMergeStatus_def FindOutput_def at_outpoint_def inserted_output_def
        MustSubtract_def Subtract_def numeral_2_eq_2 upsertExistingTx_def AddLabels_def count_where_def merged_output_def ToOutput_def
        HexString_ToBytes_def hex_EncodeToString_def hex_digit_def hex_value_def)
  then obtain db' where uow: "internalize_uow ex_internalize 1 ex_insertion [9] ''aa'' ex_stored ex_internalize_db = Inr ((True, -500, False), db')" ..
  have "ia_Outputs ex_insertion = [?s]" "io_Protocol ?s = BasketInsertionProtocol"
    "io_InsertionRemittance ?s = Some \<lparr>bi_Basket = ''tokens'', bi_CustomInstructions = None, bi_Tags = []\<rparr>"
    "FindOutput 1 \<lparr>op_TxID = ft_TxID ex_stored, op_Vout = io_OutputIndex ?s\<rparr> ex_internalize_db = Some ?r" "or_ID ?r \<noteq> 0"
    by (simp_all add: ex_insertion_def FindOutput_def first_by_def at_outpoint_def ex_internalize_defs)
  from merge_revives_spent_output [OF uow this] have "\<forall>r' \<in> set (db_Outputs db'). or_ID r' = 2 \<longrightarrow> or_SpentBy r' = None"
    by (simp add: ex_out_def)
  moreover have "?r \<in> set (db_Outputs ex_internalize_db)" by (simp add: ex_internalize_db_def ex_db_def)
  ultimately show ?thesis using uow by blast
qed

section \<open>The check of the wallet client\<close>

text \<open>The wallet client does not compare the index with the number of outputs; the storage does.\<close>

lemma wallet_check_panics:
  assumes "ia_Outputs args = s # ss" "length (ft_Outputs tx) \<le> io_OutputIndex s" "ValidInternalizeActionArgs args = Inr ()"
    and "parse (ia_Tx args) = Inr (b, txID)" "find_tx b txID = Some tx"
  shows "\<exists>p. WalletInternalizeAction parse find_tx lock args = Inl (GoPanic p)"
    and "ie_UInt32 env (int (length (ft_Outputs tx))) = Some (length (ft_Outputs tx)) \<Longrightarrow>
      \<exists>e. makeOutputs env userID tx (ia_Outputs args) isMerge db = Inl e \<and> \<not> is_panic e"
  using assms by (auto simp: WalletInternalizeAction_def validateOutput_def makeOutputs_def)

end
