(* ===== verification/Create_Args.thy ===== *)
theory Create_Args
  imports Create_Action
begin

text \<open>
  The arguments of \<open>createAction\<close> and their validation: \<open>pkg/internal/validate/valid_create_action_args.go\<close>,
  \<open>pkg/wdk/storage_create_action_args.go\<close> and \<open>FromValidCreateActionArgs\<close> of \<open>create.go\<close>. An error names the part that was
  refused; the index that Go formats into the message is left out.

  \<open>typed_params\<close> is the type the validation establishes: what passes it cannot make the conversions of the action fail.
\<close>

section \<open>Data\<close>

text \<open>Optional booleans of \<open>primitives/boolean.go\<close>.\<close>

definition BooleanDefaultFalse_Value :: "bool option \<Rightarrow> bool" where
  "BooleanDefaultFalse_Value b = (case b of None \<Rightarrow> False | Some v \<Rightarrow> v)"

definition BooleanDefaultTrue_Value :: "bool option \<Rightarrow> bool" where
  "BooleanDefaultTrue_Value b = (case b of None \<Rightarrow> True | Some v \<Rightarrow> v)"

record create_options =
  cq_AcceptDelayedBroadcast :: "bool option"
  cq_ReturnTXIDOnly :: "bool option"
  cq_NoSend :: "bool option"
  cq_SendWith :: "string list"
  cq_SignAndProcess :: "bool option"
  cq_TrustSelf :: "string option"
  cq_KnownTxids :: "string list"
  cq_NoSendChange :: "out_point list"
  cq_RandomizeOutputs :: bool
  cq_FuelShape :: "shaped_change option"

record create_args =
  ca_Description :: string
  ca_InputBEEF :: "bytes option"
  ca_Inputs :: "create_input list"
  ca_Outputs :: "create_output list"
  ca_LockTime :: nat
  ca_Version :: nat
  ca_Labels :: "string list"
  ca_IsSignAction :: bool
  ca_IncludeAllSourceTransactions :: bool
  ca_Options :: create_options
  ca_IsSendWith :: bool
  ca_IsNewTx :: bool
  ca_IsRemixChange :: bool
  ca_IsNoSend :: bool
  ca_IsDelayed :: bool

section \<open>Validation\<close>

fun check_each :: "('a \<Rightarrow> unit result) \<Rightarrow> 'a list \<Rightarrow> unit result" where
  "check_each f [] = Inr ()"
| "check_each f (x # xs) = rbind (f x) (\<lambda>_. check_each f xs)"

lemma check_each_Inr [result_simps]: "check_each f xs = Inr u \<longleftrightarrow> (\<forall>x \<in> set xs. f x = Inr ())"
  by (induction xs) (auto simp: result_simps)

definition validateCreateActionInput :: "create_input \<Rightarrow> unit result" where
  "validateCreateActionInput input =
     (if ci_UnlockingScript input = None \<and> ci_UnlockingScriptLength input = None
      then Inl (GoErr ''at least one of unlockingScript, unlockingScriptLength must be set'')
      else rbind (case ci_UnlockingScript input of
          None \<Rightarrow> Inr ()
        | Some script \<Rightarrow> rbind (rwrap ''unlockingScript must be'' (HexString_Validate script)) (\<lambda>_.
            case ci_UnlockingScriptLength input of
              None \<Rightarrow> Inr ()
            | Some len \<Rightarrow> if length script \<noteq> len
                then Inl (GoErr ''unlockingScriptLength must match provided unlockingScript length'') else Inr ())) (\<lambda>_.
        rwrap ''inputDescription must be'' (String5to2000Bytes_Validate (ci_InputDescription input))))"

definition validateCreateActionOutput :: "create_output \<Rightarrow> unit result" where
  "validateCreateActionOutput output =
     rbind (rwrap ''lockingScript must be'' (HexString_Validate (co_LockingScript output))) (\<lambda>_.
     rbind (rwrap ''satoshis must be'' (SatoshiValue_Validate (co_Satoshis output))) (\<lambda>_.
     rbind (rwrap ''outputDescription must be'' (String5to2000Bytes_Validate (co_OutputDescription output))) (\<lambda>_.
     rbind (case co_Basket output of None \<Rightarrow> Inr () | Some b \<Rightarrow> rwrap ''basket must be'' (StringUnder300_Validate b)) (\<lambda>_.
       check_each (\<lambda>tag. rwrap ''tag must be'' (StringUnder300_Validate tag)) (co_Tags output)))))"

text \<open>The loop over the inputs with the outpoints it has seen.\<close>

fun validate_inputs :: "out_point list \<Rightarrow> create_input list \<Rightarrow> unit result" where
  "validate_inputs seen [] = Inr ()"
| "validate_inputs seen (input # inputs) =
     rbind (rwrap ''txid from outpoint in input is invalid'' (HexString_Validate (op_TxID (ci_Outpoint input)))) (\<lambda>_.
       if ci_Outpoint input \<in> set seen then Inl (GoErr ''duplicate input outpoint'')
       else rbind (rwrap ''invalid input'' (validateCreateActionInput input)) (\<lambda>_.
         validate_inputs (ci_Outpoint input # seen) inputs))"

definition WalletCreateActionArgs :: "create_args \<Rightarrow> unit result" where
  "WalletCreateActionArgs args =
     rbind (rwrap ''the description parameter must be'' (String5to2000Bytes_Validate (ca_Description args))) (\<lambda>_.
     rbind (check_each (\<lambda>label. rwrap ''label must be'' (StringUnder300_Validate label)) (ca_Labels args)) (\<lambda>_.
     rbind (validate_inputs [] (ca_Inputs args)) (\<lambda>_.
     rbind (check_each (\<lambda>output. rwrap ''invalid output'' (validateCreateActionOutput output)) (ca_Outputs args)) (\<lambda>_.
       if \<not> ca_IsNewTx args \<and> cq_SendWith (ca_Options args) = []
       then Inl (GoErr ''IsNewTx is false but no sendWith arguments provided'')
       else if \<not> ca_IsNoSend args \<and> cq_NoSendChange (ca_Options args) \<noteq> []
       then Inl (GoErr ''NoSendChange outputs are supported only with IsNoSend flag'')
       else if ca_IsNoSend args \<and> cq_NoSendChange (ca_Options args) \<noteq> [] \<and> \<not> distinct (cq_NoSendChange (ca_Options args))
       then Inl (GoErr ''duplicated outpoints in Options.NoSendChange'')
       else Inr ()))))"

definition ValidCreateActionArgs :: "create_args \<Rightarrow> unit result" where
  "ValidCreateActionArgs args = rbind (WalletCreateActionArgs args) (\<lambda>_.
     let opts = ca_Options args in
     if ca_IsSendWith args \<noteq> (cq_SendWith opts \<noteq> []) then Inl (GoErr ''inconsistent IsSendWith with Options.SendWith'')
     else if ca_IsRemixChange args \<noteq> (\<not> ca_IsSendWith args \<and> ca_Inputs args = [] \<and> ca_Outputs args = [])
     then Inl (GoErr ''inconsistent IsRemixChange with IsSendWith and Inputs and Outputs'')
     else if ca_IsNewTx args \<noteq> (ca_IsRemixChange args \<or> ca_Inputs args \<noteq> [] \<or> ca_Outputs args \<noteq> [])
     then Inl (GoErr ''inconsistent IsNewTx with IsRemixChange and Inputs and Outputs'')
     else if \<not> ca_IsNewTx args then Inl (GoErr ''create action is meant to create a new transaction'')
     else if (ca_IsNewTx args \<and> \<not> BooleanDefaultTrue_Value (cq_SignAndProcess opts)) \<and> \<not> ca_IsSignAction args
     then Inl (GoErr ''inconsistent IsSignAction with IsNewTx and Options.SignAndProcess'')
     else if ca_IsDelayed args \<noteq> BooleanDefaultTrue_Value (cq_AcceptDelayedBroadcast opts)
     then Inl (GoErr ''inconsistent IsDelayed with Options.AcceptDelayedBroadcast'')
     else if ca_IsNoSend args \<noteq> BooleanDefaultFalse_Value (cq_NoSend opts)
     then Inl (GoErr ''inconsistent IsNoSend with Options.NoSend'')
     else Inr ())"

definition FromValidCreateActionArgs :: "create_args \<Rightarrow> create_params" where
  "FromValidCreateActionArgs args =
     \<lparr>cp_Version = ca_Version args, cp_LockTime = ca_LockTime args, cp_Description = ca_Description args,
      cp_KnownTxIDs = cq_KnownTxids (ca_Options args), cp_Labels = ca_Labels args, cp_Outputs = ca_Outputs args,
      cp_Inputs = ca_Inputs args, cp_NoSendChange = cq_NoSendChange (ca_Options args), cp_InputBEEF = ca_InputBEEF args,
      cp_RandomizeOutputs = cq_RandomizeOutputs (ca_Options args),
      cp_IncludeInputSourceRawTxs = (ca_IsSignAction args \<and> ca_IncludeAllSourceTransactions args),
      cp_TrustSelf = (cq_TrustSelf (ca_Options args) = Some TrustSelfKnown),
      cp_IsNoSend = ca_IsNoSend args, cp_IsDelayed = ca_IsDelayed args, cp_FuelShape = cq_FuelShape (ca_Options args),
      cp_ReturnTXIDOnly = BooleanDefaultFalse_Value (cq_ReturnTXIDOnly (ca_Options args))\<rparr>"

section \<open>The type of validated parameters\<close>

definition hex_text :: "string \<Rightarrow> bool" where
  "hex_text s \<longleftrightarrow> s \<noteq> [] \<and> even (length s) \<and> list_all (\<lambda>c. hex_value c \<noteq> None) s"

definition typed_input :: "create_input \<Rightarrow> bool" where
  "typed_input i \<longleftrightarrow> hex_text (op_TxID (ci_Outpoint i)) \<and> 5 \<le> length (ci_InputDescription i) \<and> length (ci_InputDescription i) \<le> 2000 \<and>
     (case ci_UnlockingScript i of Some s \<Rightarrow> hex_text s \<and> ci_UnlockingScriptLength i \<in> {None, Some (length s)}
      | None \<Rightarrow> ci_UnlockingScriptLength i \<noteq> None)"

definition typed_output :: "create_output \<Rightarrow> bool" where
  "typed_output out \<longleftrightarrow> hex_text (co_LockingScript out) \<and> int (co_Satoshis out) \<le> MaxSatoshis \<and>
     5 \<le> length (co_OutputDescription out) \<and> length (co_OutputDescription out) \<le> 2000 \<and>
     (\<forall>name \<in> set_option (co_Basket out) \<union> set (co_Tags out). 1 \<le> length name \<and> length name \<le> 300)"

definition typed_params :: "create_params \<Rightarrow> bool" where
  "typed_params p \<longleftrightarrow> (\<forall>i \<in> set (cp_Inputs p). typed_input i) \<and> (\<forall>out \<in> set (cp_Outputs p). typed_output out) \<and>
     distinct (map ci_Outpoint (cp_Inputs p)) \<and> distinct (cp_NoSendChange p) \<and> (cp_NoSendChange p \<noteq> [] \<longrightarrow> cp_IsNoSend p) \<and>
     5 \<le> length (cp_Description p) \<and> length (cp_Description p) \<le> 2000 \<and> (\<forall>l \<in> set (cp_Labels p). 1 \<le> length l \<and> length l \<le> 300)"

lemma validate_strings [result_simps]:
  "String5to2000Bytes_Validate s = Inr u \<longleftrightarrow> 5 \<le> length s \<and> length s \<le> 2000"
  "StringUnder300_Validate s = Inr u \<longleftrightarrow> 1 \<le> length s \<and> length s \<le> 300"
  "HexString_Validate s = Inr u \<longleftrightarrow> hex_text s"
  "SatoshiValue_Validate n = Inr u \<longleftrightarrow> int n \<le> MaxSatoshis"
  by (auto simp: String5to2000Bytes_Validate_def StringUnder300_Validate_def HexString_Validate_def hexRegex_match_def hex_text_def
      SatoshiValue_Validate_def Suc_le_eq split: if_splits)

lemma validate_input_typed:
  "validateCreateActionInput i = Inr u \<and> hex_text (op_TxID (ci_Outpoint i)) \<longleftrightarrow> typed_input i"
  by (auto simp: validateCreateActionInput_def typed_input_def result_simps split: option.splits if_splits)

lemma validate_output_typed: "validateCreateActionOutput out = Inr u \<longleftrightarrow> typed_output out"
  by (auto simp: validateCreateActionOutput_def typed_output_def result_simps split: option.splits)

lemma validate_inputs_typed:
  "validate_inputs seen is = Inr u \<longleftrightarrow> (\<forall>i \<in> set is. typed_input i) \<and> distinct (map ci_Outpoint is) \<and>
     ci_Outpoint ` set is \<inter> set seen = {}"
proof (induction "is" arbitrary: seen)
  case (Cons i "is")
  have "validate_inputs seen (i # is) = Inr u \<longleftrightarrow> (validateCreateActionInput i = Inr () \<and> hex_text (op_TxID (ci_Outpoint i))) \<and>
      ci_Outpoint i \<notin> set seen \<and> validate_inputs (ci_Outpoint i # seen) is = Inr u"
    by (simp add: rbind_eq_Inr validate_strings) blast
  then show ?case unfolding validate_input_typed by (simp only: Cons.IH) auto
qed simp

lemma validate_args_typed:
  assumes "ValidCreateActionArgs args = Inr u"
  shows "typed_params (FromValidCreateActionArgs args)"
  using assms
  by (auto simp: ValidCreateActionArgs_def WalletCreateActionArgs_def result_simps validate_inputs_typed validate_output_typed
      typed_params_def FromValidCreateActionArgs_def Let_def split: if_splits)

section \<open>Progress\<close>

lemma hex_text_bytes: "hex_text s \<Longrightarrow> \<exists>bs. HexString_ToBytes s = Inr bs \<and> length s = 2 * length bs"
  using hex_decode_iff [of s] hex_decode_length [of s] by (auto simp: hex_text_def HexString_ToBytes_def)

lemma to_UInt64_length: "convert_ok lib \<Longrightarrow> n < 2 ^ 63 \<Longrightarrow> to_UInt64 lib (int n) = Some n"
  by (simp add: convert_ok_def is_i64_def)

lemma typed_input_length:
  assumes "typed_input i" "convert_ok lib" "\<forall>s \<in> set_option (ci_UnlockingScript i). length s < 2 ^ 63"
  shows "\<exists>n. ValidCreateActionInput_ScriptLength lib i = Inr n"
  using assms by (auto simp: typed_input_def ValidCreateActionInput_ScriptLength_def to_UInt64_length split: option.splits)

lemma script_sizes_Inr:
  "\<forall>r \<in> set rs. \<exists>n. r = Inr n \<Longrightarrow> \<exists>x. script_sizes_loop f m c acc rs = Inr x"
  by (induction rs arbitrary: c acc) auto

lemma map_or_error_Inr: "\<forall>x \<in> set xs. \<exists>y. f x = Inr y \<Longrightarrow> \<exists>ys. map_or_error f xs = Inr ys"
  by (induction xs) (auto simp: result_simps)

lemma map_or_error_set: "map_or_error f xs = Inr ys \<Longrightarrow> y \<in> set ys \<Longrightarrow> \<exists>x \<in> set xs. f x = Inr y"
  by (induction xs arbitrary: ys) (auto simp: result_simps)

lemma MustFrom_typed: "int n \<le> MaxSatoshis \<Longrightarrow> MustFrom (Unsigned n) = Inr (int n)"
  by (simp add: valid_sats_def MaxSatoshis_def)


definition ex_create_args :: create_args where
  "ex_create_args = \<lparr>ca_Description = ''a payment'', ca_InputBEEF = None,
     ca_Inputs = [\<lparr>ci_Outpoint = \<lparr>op_TxID = ''ab'', op_Vout = 1\<rparr>, ci_InputDescription = ''an input'', ci_SequenceNumber = 0,
       ci_UnlockingScript = None, ci_UnlockingScriptLength = Some 107\<rparr>],
     ca_Outputs = [\<lparr>co_LockingScript = ''76a9'', co_Satoshis = 500, co_OutputDescription = ''an output'', co_Basket = None,
       co_CustomInstructions = None, co_Tags = []\<rparr>],
     ca_LockTime = 0, ca_Version = 1, ca_Labels = [''label''], ca_IsSignAction = False, ca_IncludeAllSourceTransactions = False,
     ca_Options = \<lparr>cq_AcceptDelayedBroadcast = None, cq_ReturnTXIDOnly = None, cq_NoSend = None, cq_SendWith = [],
       cq_SignAndProcess = None, cq_TrustSelf = None, cq_KnownTxids = [], cq_NoSendChange = [], cq_RandomizeOutputs = False,
       cq_FuelShape = None\<rparr>,
     ca_IsSendWith = False, ca_IsNewTx = True, ca_IsRemixChange = False, ca_IsNoSend = False, ca_IsDelayed = True\<rparr>"

lemma ex_create_args_valid: "ValidCreateActionArgs ex_create_args = Inr ()"
  by code_simp


section \<open>The declared length of an unlocking script\<close>

text \<open>An input that gives its unlocking script together with the length of that script is refused: the validation compares the
  declared length with the number of hexadecimal characters, while the size of the transaction counts bytes. Only twice the length
  passes.\<close>

theorem declared_script_length_is_refused:
  assumes script: "ci_UnlockingScript i = Some s" "HexString_ToBytes s = Inr bs" "bs \<noteq> []" and lib: "convert_ok lib" "length s < 2 ^ 63"
    and descr: "5 \<le> length (ci_InputDescription i)" "length (ci_InputDescription i) \<le> 2000"
  shows "ValidCreateActionInput_ScriptLength lib i = Inr (length bs) \<and>
    (\<exists>e. validateCreateActionInput (i\<lparr>ci_UnlockingScriptLength := Some (length bs)\<rparr>) = Inl e) \<and>
    validateCreateActionInput (i\<lparr>ci_UnlockingScriptLength := Some (2 * length bs)\<rparr>) = Inr ()"
proof -
  have len: "length s = 2 * length bs" and hex: "hex_text s"
    using script hex_decode_length [of s bs] hex_decode_iff [of s] by (auto simp: HexString_ToBytes_def hex_text_def)
  have "HexString_Validate s = Inr ()" using hex by (simp add: result_simps)
  moreover have "String5to2000Bytes_Validate (ci_InputDescription i) = Inr ()" using descr by (simp add: result_simps)
  moreover have "length bs \<noteq> 2 * length bs" using script(3) by simp
  ultimately show ?thesis
    using script len lib to_UInt64_length [OF lib(1), of "length bs"]
    by (simp add: validateCreateActionInput_def ValidCreateActionInput_ScriptLength_def)
qed

definition ex_scripted_input :: create_input where
  "ex_scripted_input = \<lparr>ci_Outpoint = \<lparr>op_TxID = ''ab'', op_Vout = 1\<rparr>, ci_InputDescription = ''an input'', ci_SequenceNumber = 0,
     ci_UnlockingScript = Some ''76a9'', ci_UnlockingScriptLength = None\<rparr>"

theorem declared_script_length_is_refused_witness:
  "\<exists>e. validateCreateActionInput (ex_scripted_input\<lparr>ci_UnlockingScriptLength := Some 2\<rparr>) = Inl e"
proof -
  have script: "ci_UnlockingScript ex_scripted_input = Some ''76a9''" "HexString_ToBytes ''76a9'' = Inr [118, 169]" by code_simp+
  have "convert_ok std_lib" using std_lib_ok by (simp add: go_lib_okD)
  from declared_script_length_is_refused [OF script _ this] 
  have "\<exists>e. validateCreateActionInput (ex_scripted_input\<lparr>ci_UnlockingScriptLength := Some (length [118, 169 :: nat])\<rparr>) = Inl e"
    by (simp add: ex_scripted_input_def)
  then show ?thesis by (simp add: numeral_2_eq_2)
qed

end
