(* ===== verification/Circuit_Breaker.thy ===== *)
theory Circuit_Breaker
  imports Prelude
begin

text \<open>
  The circuit breaker in front of an external service, \<open>pkg/services/internal/circuitbreaker/circuitbreaker.go\<close>.

  Every operation takes the mutex for its whole body, so an interleaving of callers is a sequence of operations. The clock is a
  parameter: an operation that reads it takes the time as an argument. \<open>breaker_event\<close> lists the operations, with one tick of the
  health probe among them.
\<close>

section \<open>Definitions\<close>

datatype breaker_state = StateClosed | StateOpen | StateHalfOpen

definition State_String :: "breaker_state \<Rightarrow> string" where
  "State_String s = (case s of StateClosed \<Rightarrow> ''closed'' | StateOpen \<Rightarrow> ''open'' | StateHalfOpen \<Rightarrow> ''half-open'')"

record breaker_config =
  bc_FailureThreshold :: nat
  bc_ProbeInterval :: int

record breaker =
  cb_state :: breaker_state
  cb_consecutiveFailures :: nat
  cb_lastTrialAt :: int
  cb_cfg :: breaker_config

text \<open>Durations are nanoseconds; the zero time is any time, since it is not read before the circuit has opened.\<close>

definition New_breaker :: "breaker_config \<Rightarrow> int \<Rightarrow> breaker" where
  "New_breaker cfg zero =
     (let cfg1 = (if bc_FailureThreshold cfg = 0 then cfg\<lparr>bc_FailureThreshold := 1\<rparr> else cfg);
          cfg2 = (if bc_ProbeInterval cfg1 \<le> 0 then cfg1\<lparr>bc_ProbeInterval := 1000000000\<rparr> else cfg1)
      in \<lparr>cb_state = StateClosed, cb_consecutiveFailures = 0, cb_lastTrialAt = zero, cb_cfg = cfg2\<rparr>)"

definition transitionTo :: "breaker_state \<Rightarrow> breaker \<Rightarrow> breaker" where
  "transitionTo state cb = (if cb_state cb = state then cb else cb\<lparr>cb_state := state\<rparr>)"

definition Allow :: "int \<Rightarrow> breaker \<Rightarrow> bool \<times> breaker" where
  "Allow now cb = (case cb_state cb of
     StateClosed \<Rightarrow> (True, cb)
   | _ \<Rightarrow>
       if bc_ProbeInterval (cb_cfg cb) \<le> now - cb_lastTrialAt cb
       then (True, (transitionTo StateHalfOpen cb)\<lparr>cb_lastTrialAt := now\<rparr>)
       else (False, cb))"

definition RecordSuccess :: "breaker \<Rightarrow> breaker" where
  "RecordSuccess cb = transitionTo StateClosed (cb\<lparr>cb_consecutiveFailures := 0\<rparr>)"

definition RecordFailure :: "int \<Rightarrow> breaker \<Rightarrow> breaker" where
  "RecordFailure now cb0 =
     (let cb = cb0\<lparr>cb_consecutiveFailures := u64_add (cb_consecutiveFailures cb0) 1\<rparr> in
      case cb_state cb of
        StateClosed \<Rightarrow>
          if bc_FailureThreshold (cb_cfg cb) \<le> cb_consecutiveFailures cb
          then (transitionTo StateOpen cb)\<lparr>cb_lastTrialAt := now\<rparr> else cb
      | StateHalfOpen \<Rightarrow> (transitionTo StateOpen cb)\<lparr>cb_lastTrialAt := now\<rparr>
      | StateOpen \<Rightarrow> cb)"

text \<open>One tick of \<open>StartHealthProbe\<close>: the probe runs only while the circuit is open. It runs without the mutex, so its answer
  may arrive after other operations: a tick is the decision to probe, a success the recording of its answer.\<close>

definition probe_tick :: "(unit \<Rightarrow> bool) \<Rightarrow> breaker \<Rightarrow> breaker" where
  "probe_tick probe cb = (if cb_state cb \<noteq> StateOpen then cb else if probe () then RecordSuccess cb else cb)"

section \<open>Runs\<close>

datatype breaker_event = CallAt int | SuccessAt int | FailureAt int | ProbeAt int bool

fun event_time :: "breaker_event \<Rightarrow> int" where
  "event_time (CallAt t) = t"
| "event_time (SuccessAt t) = t"
| "event_time (FailureAt t) = t"
| "event_time (ProbeAt t ok) = t"

fun breaker_step :: "breaker_event \<Rightarrow> breaker \<Rightarrow> breaker" where
  "breaker_step (CallAt t) cb = snd (Allow t cb)"
| "breaker_step (SuccessAt t) cb = RecordSuccess cb"
| "breaker_step (FailureAt t) cb = RecordFailure t cb"
| "breaker_step (ProbeAt t ok) cb = probe_tick (\<lambda>_. ok) cb"

definition breaker_run :: "breaker_event list \<Rightarrow> breaker \<Rightarrow> breaker" where
  "breaker_run es cb = fold breaker_step es cb"

text \<open>The times of the calls a run admits.\<close>

fun admitted :: "breaker_event list \<Rightarrow> breaker \<Rightarrow> int list" where
  "admitted [] cb = []"
| "admitted (e # es) cb =
     (case e of CallAt t \<Rightarrow> if fst (Allow t cb) then [t] else [] | _ \<Rightarrow> []) @ admitted es (breaker_step e cb)"

fun is_success :: "breaker_event \<Rightarrow> bool" where
  "is_success (SuccessAt t) = True"
| "is_success (ProbeAt t ok) = ok"
| "is_success _ = False"

fun is_failure :: "breaker_event \<Rightarrow> bool" where
  "is_failure (FailureAt t) = True"
| "is_failure _ = False"

definition breaker_ok :: "breaker \<Rightarrow> bool" where
  "breaker_ok cb \<longleftrightarrow> 0 < bc_FailureThreshold (cb_cfg cb) \<and> is_u64 (bc_FailureThreshold (cb_cfg cb)) \<and> 0 < bc_ProbeInterval (cb_cfg cb) \<and>
     (cb_state cb = StateClosed \<longrightarrow> cb_consecutiveFailures cb < bc_FailureThreshold (cb_cfg cb))"

lemmas breaker_defs = Allow_def RecordSuccess_def RecordFailure_def transitionTo_def probe_tick_def

lemma New_breaker_ok: "is_u64 (bc_FailureThreshold cfg) \<Longrightarrow> breaker_ok (New_breaker cfg zero)"
  by (auto simp: New_breaker_def breaker_ok_def Let_def is_u64_def)

lemma breaker_step_cfg [simp]: "cb_cfg (breaker_step e cb) = cb_cfg cb"
  by (cases e) (auto simp: breaker_defs Let_def split: breaker_state.splits)

lemma breaker_step_ok: "breaker_ok cb \<Longrightarrow> breaker_ok (breaker_step e cb)"
  by (cases e) (auto simp: breaker_ok_def breaker_defs Let_def is_u64_def split: breaker_state.splits if_splits)

lemma breaker_run_ok: "breaker_ok cb \<Longrightarrow> breaker_ok (breaker_run es cb) \<and> cb_cfg (breaker_run es cb) = cb_cfg cb"
  by (induction es arbitrary: cb) (simp_all add: breaker_run_def breaker_step_ok)

lemma breaker_step_open:
  assumes "cb_state cb \<noteq> StateClosed" "\<not> is_success e"
  shows "cb_state (breaker_step e cb) \<noteq> StateClosed"
  using assms by (cases e) (auto simp: breaker_defs Let_def split: breaker_state.splits)

text \<open>Without a success the trials of an open circuit keep their distance.\<close>

lemma trials_spaced:
  assumes "\<forall>e \<in> set es. \<not> is_success e" "sorted (map event_time es)" "\<forall>e \<in> set es. cb_lastTrialAt cb \<le> event_time e"
    "cb_state cb \<noteq> StateClosed" "0 < bc_ProbeInterval (cb_cfg cb)"
  shows "sorted_wrt (\<lambda>a b. bc_ProbeInterval (cb_cfg cb) \<le> b - a) (cb_lastTrialAt cb # admitted es cb)"
  using assms
proof (induction es arbitrary: cb)
  case (Cons e es)
  let ?cb = "breaker_step e cb" and ?P = "bc_ProbeInterval (cb_cfg cb)"
  have e: "\<not> is_success e" "cb_lastTrialAt cb \<le> event_time e" "\<forall>e' \<in> set es. event_time e \<le> event_time e'" using Cons.prems by auto
  have last: "cb_lastTrialAt cb \<le> cb_lastTrialAt ?cb \<and> cb_lastTrialAt ?cb \<in> {cb_lastTrialAt cb, event_time e}"
    using e(1,2) by (cases e) (auto simp: breaker_defs Let_def split: breaker_state.splits)
  with Cons.prems e(3) have "\<forall>e' \<in> set es. cb_lastTrialAt ?cb \<le> event_time e'" by auto
  with Cons.prems breaker_step_open [OF Cons.prems(4) e(1)]
  have IH: "sorted_wrt (\<lambda>a b. ?P \<le> b - a) (cb_lastTrialAt ?cb # admitted es ?cb)"
    using Cons.IH [of ?cb] by simp
  show ?case
  proof (cases "\<exists>t. e = CallAt t \<and> fst (Allow t cb)")
    case True
    then obtain t where t: "e = CallAt t" "fst (Allow t cb)" by blast
    with Cons.prems(4) have "?P \<le> t - cb_lastTrialAt cb" "cb_lastTrialAt ?cb = t"
      by (auto simp: Allow_def transitionTo_def split: breaker_state.splits if_splits)
    with IH t Cons.prems(5) show ?thesis by fastforce
  next
    case False
    then have "admitted (e # es) cb = admitted es ?cb" by (auto split: breaker_event.splits)
    with IH last show ?thesis by auto
  qed
qed simp

lemma spaced_length:
  fixes P :: int
  assumes "sorted_wrt (\<lambda>a b. P \<le> b - a) xs" "\<forall>x \<in> set xs. lo \<le> x \<and> x \<le> hi" "xs \<noteq> []"
  shows "int (length xs - 1) * P \<le> hi - lo"
  using assms
proof (induction xs arbitrary: lo)
  case (Cons x xs)
  show ?case
  proof (cases "xs = []")
    case False
    have "\<forall>y \<in> set xs. x + P \<le> y \<and> y \<le> hi" using Cons.prems by force
    with Cons.IH [of "x + P"] Cons.prems False have "int (length xs - 1) * P \<le> hi - (x + P)" by simp
    moreover have "int (length xs) * P = int (length xs - 1) * P + P" using False by (cases xs) (simp_all add: algebra_simps)
    ultimately show ?thesis using Cons.prems by simp
  qed (use Cons.prems in auto)
qed simp

lemma admitted_times: "set (admitted es cb) \<subseteq> event_time ` set es"
  by (induction es arbitrary: cb) (force split: breaker_event.splits)+

lemma breaker_run_snoc: "breaker_run (es @ [e]) cb = breaker_step e (breaker_run es cb)"
  by (simp add: breaker_run_def)

text \<open>A run from a fresh breaker in which nothing succeeds.\<close>

lemma failing_run:
  assumes "\<forall>e \<in> set es. \<not> is_success e" "is_u64 (bc_FailureThreshold cfg)"
  shows "let cb = breaker_run es (New_breaker cfg zero) in
    (if length (filter is_failure es) < bc_FailureThreshold (cb_cfg cb)
     then cb_state cb = StateClosed \<and> cb_consecutiveFailures cb = length (filter is_failure es)
     else cb_state cb \<noteq> StateClosed \<and> cb_lastTrialAt cb \<in> event_time ` set es)"
  using assms
proof (induction es rule: rev_induct)
  case Nil
  then show ?case by (simp add: breaker_run_def New_breaker_def Let_def)
next
  case (snoc e es)
  let ?cb = "breaker_run es (New_breaker cfg zero)"
  have ok: "breaker_ok ?cb" using breaker_run_ok [OF New_breaker_ok [OF snoc.prems(2)]] by blast
  have e: "\<not> is_success e" and es: "\<forall>e \<in> set es. \<not> is_success e" using snoc.prems by auto
  note IH = snoc.IH [OF es snoc.prems(2)]
  show ?case
  proof (cases "length (filter is_failure es) < bc_FailureThreshold (cb_cfg ?cb)")
    case True
    with IH have "cb_state ?cb = StateClosed" "cb_consecutiveFailures ?cb = length (filter is_failure es)" by (simp_all add: Let_def)
    with True ok e show ?thesis unfolding breaker_run_snoc
      by (cases e) (auto simp: breaker_defs Let_def breaker_ok_def is_u64_def u64_add_def wrap_u64_def)
  next
    case False
    with IH have "cb_state ?cb \<noteq> StateClosed" "cb_lastTrialAt ?cb \<in> event_time ` set es" by (simp_all add: Let_def)
    with False e breaker_step_open [of ?cb e] show ?thesis unfolding breaker_run_snoc
      by (cases e) (auto simp: breaker_defs Let_def split: breaker_state.splits)
  qed
qed

section \<open>Properties\<close>

text \<open>C39. The breaker shields a failing service. While nothing succeeds, a new breaker stays closed for exactly as many failures as the
  threshold allows (a threshold of zero counts as one). From then on, whatever is called and recorded, the calls it admits are at least
  one probe interval apart: during a span of time it lets through at most one call per interval and one more.\<close>

theorem breaker_shields_failing_service:
  assumes fail: "\<forall>e \<in> set (es @ later). \<not> is_success e" and times: "sorted (map event_time (es @ later))"
    and cfg: "is_u64 (bc_FailureThreshold cfg)"
    and span: "\<forall>e \<in> set later. lo \<le> event_time e \<and> event_time e \<le> hi" "lo \<le> hi"
  shows "(cb_state (breaker_run es (New_breaker cfg zero)) = StateClosed \<longleftrightarrow>
      length (filter is_failure es) < max 1 (bc_FailureThreshold cfg)) \<and>
    (cb_state (breaker_run es (New_breaker cfg zero)) \<noteq> StateClosed \<longrightarrow>
      int (length (admitted later (breaker_run es (New_breaker cfg zero))) - 1) *
        bc_ProbeInterval (cb_cfg (New_breaker cfg zero)) \<le> hi - lo)"
proof -
  let ?cb = "breaker_run es (New_breaker cfg zero)" and ?P = "bc_ProbeInterval (cb_cfg (New_breaker cfg zero))"
  note ok = breaker_run_ok [OF New_breaker_ok [OF cfg, of zero], of es]
  have "bc_FailureThreshold (cb_cfg ?cb) = max 1 (bc_FailureThreshold cfg)"
    using ok by (simp add: New_breaker_def Let_def)
  moreover note run = failing_run [of es cfg zero, unfolded Let_def]
  ultimately have closed: "cb_state ?cb = StateClosed \<longleftrightarrow> length (filter is_failure es) < max 1 (bc_FailureThreshold cfg)"
    using fail cfg by (auto split: if_splits)
  moreover have "int (length (admitted later ?cb) - 1) * ?P \<le> hi - lo" if "cb_state ?cb \<noteq> StateClosed"
  proof -
    have "cb_lastTrialAt ?cb \<in> event_time ` set es" using run that fail cfg by (auto split: if_splits)
    with times have "\<forall>e \<in> set later. cb_lastTrialAt ?cb \<le> event_time e" by (auto simp: sorted_append)
    with trials_spaced [of later ?cb] that fail times ok
    have "sorted_wrt (\<lambda>a b. ?P \<le> b - a) (admitted later ?cb)" by (auto simp: sorted_append breaker_ok_def)
    with spaced_length [of ?P "admitted later ?cb" lo hi] admitted_times [of later ?cb] span show ?thesis
      by (cases "admitted later ?cb = []") force+
  qed
  ultimately show ?thesis by blast
qed

text \<open>Two failures open the circuit; of the next four calls one is admitted.\<close>

definition ex_breaker_cfg :: breaker_config where
  "ex_breaker_cfg = \<lparr>bc_FailureThreshold = 2, bc_ProbeInterval = 8\<rparr>"

lemma ex_breaker_open: "breaker_run [FailureAt 1, FailureAt 2] (New_breaker ex_breaker_cfg 0) =
    \<lparr>cb_state = StateOpen, cb_consecutiveFailures = 2, cb_lastTrialAt = 2, cb_cfg = ex_breaker_cfg\<rparr>"
  by (simp add: breaker_run_def New_breaker_def ex_breaker_cfg_def Let_def breaker_defs u64_add_def wrap_u64_def)

theorem breaker_shields_failing_service_witness:
  "int (length (admitted [CallAt 9, CallAt 10, CallAt 11, CallAt 12] (breaker_run [FailureAt 1, FailureAt 2]
     (New_breaker ex_breaker_cfg 0))) - 1) * 8 \<le> 3 \<and>
   admitted [CallAt 9, CallAt 10, CallAt 11, CallAt 12] (breaker_run [FailureAt 1, FailureAt 2] (New_breaker ex_breaker_cfg 0)) = [10]"
proof -
  have "bc_ProbeInterval (cb_cfg (New_breaker ex_breaker_cfg 0)) = 8" by (simp add: New_breaker_def ex_breaker_cfg_def Let_def)
  with breaker_shields_failing_service [of "[FailureAt 1, FailureAt 2]" "[CallAt 9, CallAt 10, CallAt 11, CallAt 12]" ex_breaker_cfg 9 12 0]
  have "int (length (admitted [CallAt 9, CallAt 10, CallAt 11, CallAt 12] (breaker_run [FailureAt 1, FailureAt 2]
      (New_breaker ex_breaker_cfg 0))) - 1) * 8 \<le> 3"
    by (simp add: ex_breaker_open is_u64_def del: admitted.simps) (simp add: ex_breaker_cfg_def del: admitted.simps)
  moreover have "admitted [CallAt 9, CallAt 10, CallAt 11, CallAt 12] (breaker_run [FailureAt 1, FailureAt 2]
      (New_breaker ex_breaker_cfg 0)) = [10]"
    by (simp add: ex_breaker_open) (simp add: ex_breaker_cfg_def breaker_defs)
  ultimately show ?thesis by blast
qed

text \<open>The breaker never locks a service out: an open circuit admits a call as soon as the probe interval has passed, one success
  closes it from any state, and a closed circuit admits every call.\<close>

theorem breaker_recovers:
  assumes "breaker_ok cb" "cb_lastTrialAt cb + bc_ProbeInterval (cb_cfg cb) \<le> now"
  shows "fst (Allow now cb) \<and> cb_state (RecordSuccess (snd (Allow now cb))) = StateClosed \<and>
    breaker_ok (RecordSuccess (snd (Allow now cb))) \<and> (\<forall>t. fst (Allow t (RecordSuccess (snd (Allow now cb)))))"
proof -
  have "breaker_ok (RecordSuccess (snd (Allow now cb)))"
    using breaker_step_ok [OF breaker_step_ok [OF assms(1), of "CallAt now"], of "SuccessAt now"] by simp
  then show ?thesis using assms(2) by (auto simp: breaker_defs split: breaker_state.splits)
qed

theorem breaker_recovers_witness:
  "fst (Allow 10 (breaker_run [FailureAt 1, FailureAt 2] (New_breaker ex_breaker_cfg 0)))"
proof -
  have "breaker_ok (breaker_run [FailureAt 1, FailureAt 2] (New_breaker ex_breaker_cfg 0))"
    using breaker_run_ok [OF New_breaker_ok] by (simp add: is_u64_def ex_breaker_cfg_def)
  from breaker_recovers [OF this, of 10] show ?thesis by (simp add: ex_breaker_open) (simp add: ex_breaker_cfg_def)
qed

end
