(* ===== verification/Service_Queue.thy ===== *)
theory Service_Queue
  imports Prelude "HOL-Library.Multiset"
begin

text \<open>
  The queues of equivalent external services, \<open>pkg/services/internal/servicequeue\<close>: asking one service after the other, asking all of
  them in parallel, and the history of the calls.

  A service is a name and a call; the queues for zero to three arguments differ only in the arguments the call is closed over. A call
  returns a value, nil (\<open>Inr None\<close>), an error or a panic. The clock is a parameter: every recorded call has its start and its end.
  Logging and metrics are left out. The counters are unbounded.
\<close>

section \<open>Call history\<close>

abbreviation (input) ErrNotFoundError :: string where "ErrNotFoundError \<equiv> ''wdk.ErrNotFoundError''"
abbreviation (input) ErrEmptyResult :: string where "ErrEmptyResult \<equiv> ''service returns an empty result''"
abbreviation (input) ErrNoServicesRegistered :: string where "ErrNoServicesRegistered \<equiv> ''no services registered''"
abbreviation (input) context_Canceled :: string where "context_Canceled \<equiv> ''context.Canceled''"

datatype call_outcome = OutcomeOK | OutcomeNotFound | OutcomeEmpty | OutcomeCanceled | OutcomeError

definition outcomeOf :: "go_error option \<Rightarrow> call_outcome" where
  "outcomeOf err = (case err of
     None \<Rightarrow> OutcomeOK
   | Some e \<Rightarrow>
       if errors_Is e ErrNotFoundError then OutcomeNotFound
       else if errors_Is e ErrEmptyResult then OutcomeEmpty
       else if errors_Is e context_Canceled then OutcomeCanceled
       else OutcomeError)"

record service_call =
  sv_When :: int
  sv_Msecs :: int
  sv_Success :: bool
  sv_Result :: "call_outcome option"
  sv_Error :: "go_error option"

record call_counts =
  cc_Success :: int
  cc_Failure :: int
  cc_Error :: int
  cc_Since :: int
  cc_Until :: int

record provider_history =
  ph_ServiceName :: string
  ph_ProviderName :: string
  ph_Calls :: "service_call list"
  ph_TotalCounts :: call_counts
  ph_ResetCounts :: "call_counts list"

record call_history =
  ch_since :: int
  ch_byMethod :: "string \<Rightarrow> string \<Rightarrow> provider_history option"

definition maxCallHistory :: nat where "maxCallHistory = 32"

definition maxResetCounts :: nat where "maxResetCounts = 32"

definition new_counts :: "int \<Rightarrow> int \<Rightarrow> call_counts" where
  "new_counts since until = \<lparr>cc_Success = 0, cc_Failure = 0, cc_Error = 0, cc_Since = since, cc_Until = until\<rparr>"

definition NewCallHistory :: "int \<Rightarrow> call_history" where
  "NewCallHistory now = \<lparr>ch_since = now, ch_byMethod = (\<lambda>_ _. None)\<rparr>"

text \<open>The zero time of a counter that was never updated is written 0.\<close>

definition new_provider :: "string \<Rightarrow> string \<Rightarrow> int \<Rightarrow> provider_history" where
  "new_provider methodName provider since = \<lparr>ph_ServiceName = methodName, ph_ProviderName = provider, ph_Calls = [],
     ph_TotalCounts = new_counts since 0, ph_ResetCounts = [new_counts since 0]\<rparr>"

definition count_call :: "call_outcome \<Rightarrow> int \<Rightarrow> call_counts \<Rightarrow> call_counts" where
  "count_call outcome now c = (case outcome of
     OutcomeOK \<Rightarrow> c\<lparr>cc_Success := cc_Success c + 1, cc_Until := now\<rparr>
   | OutcomeError \<Rightarrow> c\<lparr>cc_Failure := cc_Failure c + 1, cc_Error := cc_Error c + 1, cc_Until := now\<rparr>
   | _ \<Rightarrow> c\<lparr>cc_Failure := cc_Failure c + 1, cc_Until := now\<rparr>)"

definition call_entry :: "int \<Rightarrow> int \<Rightarrow> go_error option \<Rightarrow> service_call" where
  "call_entry start now err = (let outcome = outcomeOf err in
     \<lparr>sv_When = start, sv_Msecs = (now - start) div 1000000, sv_Success = (outcome = OutcomeOK),
      sv_Result = (if outcome \<in> {OutcomeOK, OutcomeError} then None else Some outcome),
      sv_Error = (if outcome = OutcomeError then err else None)\<rparr>)"

definition record_call :: "int \<Rightarrow> int \<Rightarrow> go_error option \<Rightarrow> provider_history \<Rightarrow> provider_history" where
  "record_call start now err ph =
     ph\<lparr>ph_TotalCounts := count_call (outcomeOf err) now (ph_TotalCounts ph),
        ph_ResetCounts := count_call (outcomeOf err) now (hd (ph_ResetCounts ph)) # tl (ph_ResetCounts ph),
        ph_Calls := take maxCallHistory (call_entry start now err # ph_Calls ph)\<rparr>"

definition Record :: "string \<Rightarrow> string \<Rightarrow> int \<Rightarrow> int \<Rightarrow> go_error option \<Rightarrow> call_history \<Rightarrow> call_history" where
  "Record methodName provider start now err h =
     (let ph = (case ch_byMethod h methodName provider of None \<Rightarrow> new_provider methodName provider (ch_since h) | Some ph \<Rightarrow> ph)
      in h\<lparr>ch_byMethod := (ch_byMethod h)(methodName := (ch_byMethod h methodName)(provider \<mapsto> record_call start now err ph))\<rparr>)"

definition reset_provider :: "int \<Rightarrow> provider_history \<Rightarrow> provider_history" where
  "reset_provider now ph =
     ph\<lparr>ph_ResetCounts := take maxResetCounts (new_counts now now # (hd (ph_ResetCounts ph))\<lparr>cc_Until := now\<rparr> # tl (ph_ResetCounts ph))\<rparr>"

text \<open>The copy a snapshot returns, and the history afterwards.\<close>

definition Snapshot :: "bool \<Rightarrow> int \<Rightarrow> call_history \<Rightarrow> (string \<Rightarrow> string \<Rightarrow> provider_history option) \<times> call_history" where
  "Snapshot reset now h = (ch_byMethod h,
     if reset then h\<lparr>ch_byMethod := (\<lambda>m p. map_option (reset_provider now) (ch_byMethod h m p))\<rparr> else h)"

section \<open>Queues\<close>

record 'r service =
  sq_Name :: string
  sq_call :: "'r option result"
  sq_start :: int
  sq_end :: int

datatype queue_error = NoServicesRegistered | AllServicesFailed "(string \<times> go_error) list"

text \<open>A panic of a service is recovered and becomes its error.\<close>

definition recovered :: "'r option result \<Rightarrow> 'r option result" where
  "recovered r = (case r of
     Inl (GoPanic m) \<Rightarrow> Inl (GoWrap ''service has paniced with'' (GoErr m))
   | _ \<Rightarrow> r)"

definition recordResult :: "string \<Rightarrow> 'r service \<Rightarrow> call_history option \<Rightarrow> call_history option" where
  "recordResult methodName s h = map_option (Record methodName (sq_Name s) (sq_start s) (sq_end s)
     (case recovered (sq_call s) of Inl e \<Rightarrow> Some e | Inr None \<Rightarrow> Some (GoSentinel ErrEmptyResult) | Inr (Some _) \<Rightarrow> None)) h"

text \<open>The usable result of a service: nil counts as an error.\<close>

definition named_result :: "'r service \<Rightarrow> 'r result" where
  "named_result s = (case recovered (sq_call s) of
     Inl e \<Rightarrow> Inl e | Inr None \<Rightarrow> Inl (GoSentinel ErrEmptyResult) | Inr (Some v) \<Rightarrow> Inr v)"

fun one_by_one :: "string \<Rightarrow> 'r service list \<Rightarrow> (string \<times> go_error) list \<Rightarrow> call_history option \<Rightarrow> (queue_error + 'r) \<times> call_history option" where
  "one_by_one methodName [] errs h = (Inl (AllServicesFailed errs), h)"
| "one_by_one methodName (s # ss) errs h = (case named_result s of
     Inr v \<Rightarrow> (Inr v, recordResult methodName s h)
   | Inl e \<Rightarrow> one_by_one methodName ss (errs @ [(sq_Name s, e)]) (recordResult methodName s h))"

definition processOneByOne :: "string \<Rightarrow> 'r service list \<Rightarrow> call_history option \<Rightarrow> (queue_error + 'r) \<times> call_history option" where
  "processOneByOne methodName services h =
     (if services = [] then (Inl NoServicesRegistered, h) else one_by_one methodName services [] h)"

text \<open>Parallel calls: \<open>finished\<close> lists the services whose calls ended, in this order; \<open>delivered\<close> those whose results reached the
  caller before the context was cancelled.\<close>

definition service_index :: "'r service list \<Rightarrow> string \<Rightarrow> nat" where
  "service_index services name = (case find (\<lambda>i. sq_Name (services ! i) = name) (rev [0..<length services]) of
     None \<Rightarrow> 0 | Some i \<Rightarrow> i)"

definition sortedResults :: "'r service list \<Rightarrow> (string \<times> 'r result) list \<Rightarrow> (string \<times> 'r result) list" where
  "sortedResults services results = sort_key (\<lambda>r. service_index services (fst r)) results"

definition processParallel :: "string \<Rightarrow> 'r service list \<Rightarrow> 'r service list \<Rightarrow> 'r service list \<Rightarrow> call_history option \<Rightarrow>
    (queue_error + (string \<times> 'r result) list) \<times> call_history option" where
  "processParallel methodName services finished delivered h =
     (if services = [] then (Inl NoServicesRegistered, h)
      else (Inr (sortedResults services (map (\<lambda>s. (sq_Name s, named_result s)) delivered)), fold (recordResult methodName) finished h))"

section \<open>The history is a summary of the log\<close>

text \<open>The events of one provider: calls and resets, oldest first.\<close>

datatype history_event = Called int int "go_error option" | Reset int

fun provider_step :: "history_event \<Rightarrow> provider_history \<Rightarrow> provider_history" where
  "provider_step (Called start now err) ph = record_call start now err ph"
| "provider_step (Reset now) ph = reset_provider now ph"

definition calls_of :: "history_event list \<Rightarrow> (int \<times> int \<times> go_error option) list" where
  "calls_of es = concat (map (\<lambda>e. case e of Called s n err \<Rightarrow> [(s, n, err)] | Reset _ \<Rightarrow> []) es)"

definition resets_of :: "history_event list \<Rightarrow> nat" where
  "resets_of es = length (filter (\<lambda>e. case e of Reset _ \<Rightarrow> True | _ \<Rightarrow> False) es)"

definition outcome_count :: "(call_outcome \<Rightarrow> bool) \<Rightarrow> history_event list \<Rightarrow> int" where
  "outcome_count P es = int (length (filter (\<lambda>(s, n, err). P (outcomeOf err)) (calls_of es)))"

lemma log_snoc [simp]:
  "calls_of (es @ [Called s n err]) = calls_of es @ [(s, n, err)]"
  "calls_of (es @ [Reset n]) = calls_of es"
  "resets_of (es @ [Called s n err]) = resets_of es"
  "resets_of (es @ [Reset n]) = Suc (resets_of es)"
  "calls_of [] = []" "resets_of [] = 0"
  by (simp_all add: calls_of_def resets_of_def)

lemma outcome_count_snoc [simp]:
  "outcome_count P [] = 0"
  "outcome_count P (es @ [Called s n err]) = outcome_count P es + (if P (outcomeOf err) then 1 else 0)"
  "outcome_count P (es @ [Reset n]) = outcome_count P es"
  by (simp_all add: outcome_count_def)

lemma count_call_fields:
  "cc_Success (count_call x now c) = cc_Success c + (if x = OutcomeOK then 1 else 0)"
  "cc_Failure (count_call x now c) = cc_Failure c + (if x = OutcomeOK then 0 else 1)"
  "cc_Error (count_call x now c) = cc_Error c + (if x = OutcomeError then 1 else 0)"
  by (cases x; simp add: count_call_def)+

lemma take_Cons_take: "take n (x # take n xs) = take n (x # xs)"
  by (cases n) (simp_all add: min_def)

definition provider_run :: "string \<Rightarrow> string \<Rightarrow> int \<Rightarrow> history_event list \<Rightarrow> provider_history" where
  "provider_run methodName provider since es = fold provider_step es (new_provider methodName provider since)"

lemma provider_run_summary:
  fixes es :: "history_event list" and methodName provider :: string and since :: int
  defines "ph \<equiv> provider_run methodName provider since"
  shows "ph_Calls (ph es) = take maxCallHistory (rev (map (\<lambda>(s, n, err). call_entry s n err) (calls_of es))) \<and>
    cc_Success (ph_TotalCounts (ph es)) = outcome_count (\<lambda>x. x = OutcomeOK) es \<and>
    cc_Failure (ph_TotalCounts (ph es)) = outcome_count (\<lambda>x. x \<noteq> OutcomeOK) es \<and>
    cc_Error (ph_TotalCounts (ph es)) = outcome_count (\<lambda>x. x = OutcomeError) es \<and>
    length (ph_ResetCounts (ph es)) = min maxResetCounts (Suc (resets_of es)) \<and>
    (resets_of es < maxResetCounts \<longrightarrow>
       sum_list (map cc_Success (ph_ResetCounts (ph es))) = cc_Success (ph_TotalCounts (ph es)) \<and>
       sum_list (map cc_Failure (ph_ResetCounts (ph es))) = cc_Failure (ph_TotalCounts (ph es)))"
  unfolding ph_def
proof (induction es rule: rev_induct)
  case Nil
  show ?case by (simp add: provider_run_def new_provider_def new_counts_def maxResetCounts_def)
next
  case (snoc e es)
  have run: "provider_run methodName provider since (es @ [e]) = provider_step e (provider_run methodName provider since es)"
    by (simp add: provider_run_def)
  from snoc.IH have "ph_ResetCounts (provider_run methodName provider since es) \<noteq> []" by (auto simp: maxResetCounts_def)
  then obtain c cs where c: "ph_ResetCounts (provider_run methodName provider since es) = c # cs" by (cases "ph_ResetCounts (provider_run methodName provider since es)") auto
  show ?case
  proof (cases e)
    case (Called s n err)
    with snoc.IH c show ?thesis unfolding run
      by (simp add: record_call_def count_call_fields take_Cons_take)
  next
    case (Reset n)
    have "length cs < maxResetCounts" if "Suc (resets_of es) < maxResetCounts"
      using snoc.IH c that by simp
    then have "take maxResetCounts (c' # c'' # cs) = c' # c'' # cs" if "Suc (resets_of es) < maxResetCounts" for c' c''
      using snoc.IH c that by (simp add: take_Cons')
    with Reset snoc.IH c show ?thesis unfolding run
      by (auto simp: reset_provider_def new_counts_def)
  qed
qed

text \<open>The operations on the whole history, and what one provider sees of them: resets before its first call do not concern it.\<close>

datatype history_op = RecordOp string string int int "go_error option" | SnapshotOp bool int

fun history_step :: "history_op \<Rightarrow> call_history \<Rightarrow> call_history" where
  "history_step (RecordOp m p start now err) h = Record m p start now err h"
| "history_step (SnapshotOp reset now) h = snd (Snapshot reset now h)"

fun is_reset :: "history_event \<Rightarrow> bool" where
  "is_reset (Reset _) = True"
| "is_reset _ = False"

definition op_event :: "string \<Rightarrow> string \<Rightarrow> history_op \<Rightarrow> history_event list" where
  "op_event m p x = (case x of
     RecordOp m' p' start now err \<Rightarrow> if m' = m \<and> p' = p then [Called start now err] else []
   | SnapshotOp reset now \<Rightarrow> if reset then [Reset now] else [])"

definition events_of :: "string \<Rightarrow> string \<Rightarrow> history_op list \<Rightarrow> history_event list" where
  "events_of m p ops = dropWhile is_reset (concat (map (op_event m p) ops))"

lemma dropWhile_snoc: "dropWhile P (xs @ [x]) = (if dropWhile P xs = [] \<and> P x then [] else dropWhile P xs @ [x])"
  by (induction xs) auto

lemma events_of_snoc:
  "events_of m p (ops @ [x]) = (case op_event m p x of [] \<Rightarrow> events_of m p ops
    | e # _ \<Rightarrow> if events_of m p ops = [] \<and> is_reset e then [] else events_of m p ops @ [e])"
  by (auto simp: events_of_def op_event_def dropWhile_snoc simp del: dropWhile_eq_Nil_conv split: history_op.split)

lemma history_run:
  "ch_since (fold history_step ops (NewCallHistory now)) = now \<and>
   ch_byMethod (fold history_step ops (NewCallHistory now)) m p =
     (if events_of m p ops = [] then None else Some (provider_run m p now (events_of m p ops)))"
proof (induction ops rule: rev_induct)
  case Nil
  show ?case by (simp add: NewCallHistory_def events_of_def)
next
  case (snoc x ops)
  show ?case
  proof (cases x)
    case (RecordOp m' p' start n err)
    with snoc show ?thesis
      by (cases "events_of m p ops = []") (auto simp: Record_def Let_def events_of_snoc op_event_def provider_run_def)
  next
    case (SnapshotOp reset n)
    with snoc show ?thesis
      by (cases "events_of m p ops = []") (auto simp: Snapshot_def events_of_snoc op_event_def provider_run_def)
  qed
qed

section \<open>Properties\<close>

text \<open>The call history is a faithful summary of an unbounded log. After any sequence of recorded calls and snapshots, a provider is in
  the history exactly when it was called; its entry holds its newest calls (32 at most, newest first), its totals count every call ever
  made, and as long as no interval was dropped the failures of the intervals add up to all its failures.\<close>

theorem call_history_summarises_log:
  fixes m p :: string and ops :: "history_op list"
  defines "es \<equiv> events_of m p ops"
  shows "case ch_byMethod (fold history_step ops (NewCallHistory now)) m p of
     None \<Rightarrow> es = []
   | Some ph \<Rightarrow>
       ph_Calls ph = take maxCallHistory (rev (map (\<lambda>(s, n, err). call_entry s n err) (calls_of es))) \<and>
       cc_Success (ph_TotalCounts ph) + cc_Failure (ph_TotalCounts ph) = int (length (calls_of es)) \<and>
       cc_Error (ph_TotalCounts ph) = outcome_count (\<lambda>x. x = OutcomeError) es \<and>
       length (ph_ResetCounts ph) = min maxResetCounts (Suc (resets_of es)) \<and>
       (resets_of es < maxResetCounts \<longrightarrow>
          sum_list (map cc_Failure (ph_ResetCounts ph)) = outcome_count (\<lambda>x. x \<noteq> OutcomeOK) es)"
proof -
  have "outcome_count (\<lambda>x. x = OutcomeOK) es + outcome_count (\<lambda>x. x \<noteq> OutcomeOK) es = int (length (calls_of es))"
    unfolding outcome_count_def case_prod_beta
    using sum_length_filter_compl [of "\<lambda>x. outcomeOf (snd (snd x)) = OutcomeOK" "calls_of es"] by linarith
  with provider_run_summary [of m p now es] history_run [of ops now m p] show ?thesis by (simp add: es_def)
qed

text \<open>The hypothesis on the intervals is met by a history that was never reset.\<close>

theorem call_history_summarises_log_witness:
  "case ch_byMethod (fold history_step [RecordOp ''m'' ''p'' 1 2 None] (NewCallHistory 0)) ''m'' ''p'' of
     None \<Rightarrow> False | Some ph \<Rightarrow> sum_list (map cc_Failure (ph_ResetCounts ph)) = 0"
  using call_history_summarises_log [of "''m''" "''p''" "[RecordOp ''m'' ''p'' 1 2 None]" 0]
  by (simp add: events_of_def op_event_def calls_of_def resets_of_def outcome_count_def maxResetCounts_def outcomeOf_def
      split: option.splits)

text \<open>Asking one by one: the first service with a usable answer decides, the services after it are not called, and the call fails only
  when every service was asked and none had an answer. Panics and nil answers count as failures.\<close>

theorem one_by_one_first_answer:
  assumes "services \<noteq> []"
  shows "(case fst (processOneByOne methodName services h) of
      Inr v \<Rightarrow> (\<exists>pre s post. services = pre @ s # post \<and> named_result s = Inr v \<and> (\<forall>s' \<in> set pre. \<exists>e. named_result s' = Inl e) \<and>
        snd (processOneByOne methodName services h) = fold (recordResult methodName) (pre @ [s]) h)
    | Inl err \<Rightarrow> (\<exists>es. map Inl es = map named_result services \<and> err = AllServicesFailed (zip (map sq_Name services) es) \<and>
        snd (processOneByOne methodName services h) = fold (recordResult methodName) services h))"
proof -
  have "case fst (one_by_one methodName ss errs h) of
      Inr v \<Rightarrow> (\<exists>pre s post. ss = pre @ s # post \<and> named_result s = Inr v \<and> (\<forall>s' \<in> set pre. \<exists>e. named_result s' = Inl e) \<and>
        snd (one_by_one methodName ss errs h) = fold (recordResult methodName) (pre @ [s]) h)
    | Inl err \<Rightarrow> (\<exists>es. map Inl es = map named_result ss \<and> err = AllServicesFailed (errs @ zip (map sq_Name ss) es) \<and>
        snd (one_by_one methodName ss errs h) = fold (recordResult methodName) ss h)" for ss errs
  proof (induction ss arbitrary: errs h)
    case (Cons s ss)
    show ?case
    proof (cases "named_result s")
      case (Inr v)
      then show ?thesis by (simp, intro exI [of _ "[]"] exI [of _ s] exI [of _ ss]) simp
    next
      case (Inl e)
      with Cons.IH [of "errs @ [(sq_Name s, e)]" "recordResult methodName s h"] show ?thesis
      proof (cases "fst (one_by_one methodName ss (errs @ [(sq_Name s, e)]) (recordResult methodName s h))")
        case failed: (Inl err)
        with Inl Cons.IH [of "errs @ [(sq_Name s, e)]" "recordResult methodName s h"] obtain es where
          "map Inl es = map named_result ss" "err = AllServicesFailed ((errs @ [(sq_Name s, e)]) @ zip (map sq_Name ss) es)"
          "snd (one_by_one methodName ss (errs @ [(sq_Name s, e)]) (recordResult methodName s h)) = fold (recordResult methodName) ss (recordResult methodName s h)"
          by auto
        with Inl failed show ?thesis by (simp, intro exI [of _ "e # es"]) simp
      next
        case ok: (Inr v)
        with Inl Cons.IH [of "errs @ [(sq_Name s, e)]" "recordResult methodName s h"] obtain pre s' post where
          "ss = pre @ s' # post" "named_result s' = Inr v" "\<forall>s' \<in> set pre. \<exists>e. named_result s' = Inl e"
          "snd (one_by_one methodName ss (errs @ [(sq_Name s, e)]) (recordResult methodName s h)) =
             fold (recordResult methodName) (pre @ [s']) (recordResult methodName s h)" by auto
        with Inl ok show ?thesis by (simp, intro exI [of _ "s # pre"] exI [of _ s'] exI [of _ post]) simp
      qed
    qed
  qed simp
  from this [of services "[]"] show ?thesis
    unfolding processOneByOne_def if_not_P [OF assms] append_Nil .
qed

definition ex_services :: "nat service list" where
  "ex_services = [\<lparr>sq_Name = ''a'', sq_call = Inl (GoPanic ''nil''), sq_start = 0, sq_end = 1\<rparr>,
     \<lparr>sq_Name = ''b'', sq_call = Inr (Some 7), sq_start = 1, sq_end = 2\<rparr>]"

theorem one_by_one_first_answer_witness:
  "fst (processOneByOne ''m'' ex_services None) = Inr 7 \<and> (\<exists>s \<in> set ex_services. named_result s = Inr 7)"
proof -
  have first: "fst (processOneByOne ''m'' ex_services None) = Inr 7"
    by (simp add: processOneByOne_def ex_services_def named_result_def recovered_def)
  have "ex_services \<noteq> []" by (simp add: ex_services_def)
  from one_by_one_first_answer [OF this, of "''m''" None] first obtain pre s post where
    "ex_services = pre @ s # post" "named_result s = Inr 7" by auto
  with first show ?thesis by (metis in_set_conv_decomp)
qed

text \<open>Asking in parallel is deterministic: when the services have different names and every call delivers its result, the results are
  those of the services in their configured order, in whatever order the calls end.\<close>

theorem parallel_results_in_order:
  assumes "services \<noteq> []" and names: "distinct (map sq_Name services)" and all: "mset delivered = mset services"
  shows "fst (processParallel methodName services finished delivered h) = Inr (map (\<lambda>s. (sq_Name s, named_result s)) services)"
proof -
  let ?r = "\<lambda>s. (sq_Name s, named_result s)" and ?k = "\<lambda>r. service_index services (fst r)"
  have index: "service_index services (sq_Name (services ! i)) = i" if "i < length services" for i
  proof -
    have "find (\<lambda>j. sq_Name (services ! j) = sq_Name (services ! i)) (rev [0..<length services]) = Some i"
    proof -
      have *: "sq_Name (services ! j) = sq_Name (services ! i) \<longleftrightarrow> j = i" if "j < length services" for j
        using names that \<open>i < length services\<close> nth_eq_iff_index_eq [of "map sq_Name services" j i] by simp
      have "\<exists>j \<in> set (rev [0..<length services]). sq_Name (services ! j) = sq_Name (services ! i)" using that by auto
      then obtain j where "find (\<lambda>j. sq_Name (services ! j) = sq_Name (services ! i)) (rev [0..<length services]) = Some j"
        by (cases "find (\<lambda>j. sq_Name (services ! j) = sq_Name (services ! i)) (rev [0..<length services])") (auto simp: find_None_iff)
      with * show ?thesis by (auto simp: find_Some_iff rev_nth)
    qed
    then show ?thesis by (simp add: service_index_def)
  qed
  have keys: "map (?k \<circ> ?r) services = [0..<length services]"
    by (rule nth_equalityI) (simp_all add: index)
  have same: "mset (map ?r delivered) = mset (map ?r services)" using arg_cong [OF all, of "image_mset ?r"] by simp
  have "inj_on (?k \<circ> ?r) (set services)" using arg_cong [OF keys, of distinct] by (simp add: distinct_map)
  then have "inj_on ?k (?r ` set services)" by (rule inj_on_imageI)
  then have "inj_on ?k (set (map ?r delivered))" using mset_eq_setD [OF same] by simp
  moreover have "sorted (map ?k (map ?r services))" unfolding map_map keys by simp
  ultimately have "sort_key ?k (map ?r delivered) = map ?r services" by (rule sort_key_inj_key_eq [OF same])
  then show ?thesis using assms(1) by (simp add: processParallel_def sortedResults_def)
qed

theorem parallel_results_in_order_witness:
  "fst (processParallel ''m'' ex_services ex_services (rev ex_services) None) = Inr (map (\<lambda>s. (sq_Name s, named_result s)) ex_services)"
proof -
  have "ex_services \<noteq> []" "distinct (map sq_Name ex_services)" "mset (rev ex_services) = mset ex_services"
    by (simp_all add: ex_services_def)
  then show ?thesis by (rule parallel_results_in_order)
qed

end
