(* ===== verification/Broadcast_Router.thy ===== *)
theory Broadcast_Router
  imports Circuit_Breaker Service_Queue Broadcast_Result
begin

text \<open>
  The router of a single broadcast, \<open>pkg/services/broadcast_router.go\<close>: Arcade is the primary service behind a circuit breaker, the other
  broadcasters are failovers in a fixed order.

  The services are parameters: a target is a name and the answer it gives to the \<open>n\<close>-th attempt. So are the context (its error after
  \<open>n\<close> attempts) and the clock. A \<open>BackpressureError\<close> in the chain of an error is the optional delay of \<open>PostFailed\<close>.
\<close>

section \<open>Definitions\<close>

datatype post_answer = Posted posted_txid | NoResult | PostFailed "int option" go_error

record broadcast_target =
  tg_name :: string
  tg_post :: "nat \<Rightarrow> post_answer"

record broadcast_router =
  br_primary :: broadcast_target
  br_failovers :: "broadcast_target list"

record broadcast_call =
  bx_ctxErr :: "nat \<Rightarrow> go_error option"
  bx_clock :: "nat \<Rightarrow> int"

record router_state =
  rs_breaker :: breaker
  rs_history :: "call_history option"
  rs_attempts :: "string list"

abbreviation (input) errNoResult :: go_error where "errNoResult \<equiv> GoSentinel ''service returned no result''"

definition resultAsTransportOutcome :: "post_answer \<Rightarrow> post_answer" where
  "resultAsTransportOutcome a = (case a of
     Posted p \<Rightarrow> if pt_error p \<and> \<not> pt_double_spend p then PostFailed None (GoErr ''posted.Error'') else a
   | _ \<Rightarrow> a)"

definition failover_target :: "string \<Rightarrow> (nat \<Rightarrow> post_answer) \<Rightarrow> broadcast_target" where
  "failover_target name post = \<lparr>tg_name = name, tg_post = resultAsTransportOutcome \<circ> post\<rparr>"

definition newBroadcastRouter :: "(nat \<Rightarrow> post_answer) \<Rightarrow> (string \<times> (nat \<Rightarrow> post_answer)) option \<Rightarrow> (string \<times> (nat \<Rightarrow> post_answer)) option \<Rightarrow>
    (nat \<Rightarrow> post_answer) option \<Rightarrow> (nat \<Rightarrow> post_answer) option \<Rightarrow> broadcast_router" where
  "newBroadcastRouter arcade arc gorilla woc bitails =
     \<lparr>br_primary = \<lparr>tg_name = ''Arcade'', tg_post = arcade\<rparr>,
      br_failovers =
        (case arc of None \<Rightarrow> [] | Some (name, f) \<Rightarrow> [failover_target name f]) @
        (case gorilla of None \<Rightarrow> [] | Some (name, f) \<Rightarrow> [failover_target name f]) @
        (case woc of None \<Rightarrow> [] | Some f \<Rightarrow> [failover_target ''WhatsOnChain'' f]) @
        (case bitails of None \<Rightarrow> [] | Some f \<Rightarrow> [failover_target ''Bitails'' f])\<rparr>"

definition targetResult :: "string \<Rightarrow> posted_txid \<Rightarrow> post_service_result" where
  "targetResult name posted = \<lparr>ps_name = name, ps_posted = Some [posted], ps_error = False\<rparr>"

definition errorResult :: "string \<Rightarrow> post_service_result" where
  "errorResult name = \<lparr>ps_name = name, ps_posted = None, ps_error = True\<rparr>"

text \<open>The result of a retry whose caller went away: it carries the error of the retry, which is nil when the retry had an answer.\<close>

definition cancelledResult :: "string \<Rightarrow> post_answer \<Rightarrow> post_service_result" where
  "cancelledResult name a = \<lparr>ps_name = name, ps_posted = None, ps_error = (case a of PostFailed _ _ \<Rightarrow> True | _ \<Rightarrow> False)\<rparr>"

definition isContextError :: "go_error \<Rightarrow> bool" where
  "isContextError e \<longleftrightarrow> errors_Is e ''context.Canceled'' \<or> errors_Is e ''context.DeadlineExceeded''"

text \<open>\<open>broadcastRouter.post\<close>: one attempt, recorded in the call history.\<close>

definition router_post :: "broadcast_call \<Rightarrow> broadcast_target \<Rightarrow> router_state \<Rightarrow> post_answer \<times> router_state" where
  "router_post bc target st =
     (let n = length (rs_attempts st);
          a = tg_post target n;
          recorded = (case a of Posted _ \<Rightarrow> None | NoResult \<Rightarrow> Some errNoResult | PostFailed _ e \<Rightarrow> Some e)
      in (a, st\<lparr>rs_attempts := rs_attempts st @ [tg_name target],
             rs_history := map_option (Record ''PostBEEF'' (tg_name target) (bx_clock bc n) (bx_clock bc (n + 1)) recorded) (rs_history st)\<rparr>))"

definition ctx_Err :: "broadcast_call \<Rightarrow> router_state \<Rightarrow> go_error option" where
  "ctx_Err bc st = bx_ctxErr bc (length (rs_attempts st))"

text \<open>The wait is bounded by thirty seconds and takes no step of the model but the check of the context that follows it.\<close>

definition retryAfterBackpressure :: "broadcast_call \<Rightarrow> broadcast_router \<Rightarrow> router_state \<Rightarrow> post_answer \<times> router_state" where
  "retryAfterBackpressure bc r st = (case ctx_Err bc st of
     Some e \<Rightarrow> (PostFailed None (GoWrap ''broadcast canceled while honoring backpressure'' e), st)
   | None \<Rightarrow> router_post bc (br_primary r) st)"

definition record_primary :: "(breaker \<Rightarrow> breaker) \<Rightarrow> router_state \<Rightarrow> router_state" where
  "record_primary f st = st\<lparr>rs_breaker := f (rs_breaker st)\<rparr>"

text \<open>The second half of \<open>tryPrimary\<close>: what the final answer of the primary means.\<close>

definition settle_primary :: "broadcast_call \<Rightarrow> broadcast_router \<Rightarrow> post_answer \<Rightarrow> router_state \<Rightarrow>
    (post_service_result list \<times> bool) \<times> router_state" where
  "settle_primary bc r a st =
     (let name = tg_name (br_primary r);
          now = bx_clock bc (length (rs_attempts st));
          failed = (\<lambda>e. if isContextError e then (([errorResult name], ctx_Err bc st \<noteq> None), st)
                        else (([errorResult name], False), record_primary (RecordFailure now) st))
      in case a of
           Posted p \<Rightarrow> (([targetResult name p], True), record_primary RecordSuccess st)
         | NoResult \<Rightarrow> failed errNoResult
         | PostFailed _ e \<Rightarrow> failed e)"

definition tryPrimary :: "broadcast_call \<Rightarrow> broadcast_router \<Rightarrow> router_state \<Rightarrow> (post_service_result list \<times> bool) \<times> router_state" where
  "tryPrimary bc r st0 = (case router_post bc (br_primary r) st0 of (a, st) \<Rightarrow> (case a of
     PostFailed (Some _) _ \<Rightarrow> (case retryAfterBackpressure bc r st of (a', st') \<Rightarrow>
       if ctx_Err bc st' \<noteq> None then (([cancelledResult (tg_name (br_primary r)) a'], True), st')
       else settle_primary bc r a' st')
   | _ \<Rightarrow> settle_primary bc r a st))"

fun failover_loop :: "broadcast_call \<Rightarrow> broadcast_target list \<Rightarrow> post_service_result list \<Rightarrow> router_state \<Rightarrow>
    (bool \<times> post_service_result list) \<times> router_state" where
  "failover_loop bc [] partial st = ((False, partial), st)"
| "failover_loop bc (target # targets) partial st = (case router_post bc target st of (a, st') \<Rightarrow> (case a of
     Posted p \<Rightarrow> ((True, partial @ [targetResult (tg_name target) p]), st')
   | _ \<Rightarrow> failover_loop bc targets (partial @ [errorResult (tg_name target)]) st'))"

definition runFailovers :: "broadcast_call \<Rightarrow> broadcast_router \<Rightarrow> post_service_result list \<Rightarrow> router_state \<Rightarrow>
    post_service_result list \<times> router_state" where
  "runFailovers bc r partial st = (case failover_loop bc (br_failovers r) partial st of ((won, results), st') \<Rightarrow>
     (if \<not> won \<and> results = [] then [errorResult (tg_name (br_primary r))] else results, st'))"

definition broadcast :: "broadcast_call \<Rightarrow> broadcast_router \<Rightarrow> router_state \<Rightarrow> post_service_result list \<times> router_state" where
  "broadcast bc r st0 = (case Allow (bx_clock bc (length (rs_attempts st0))) (rs_breaker st0) of (ok, cb) \<Rightarrow>
     let st = st0\<lparr>rs_breaker := cb\<rparr> in
     if \<not> ok then runFailovers bc r [] st
     else (case tryPrimary bc r st of ((results, fin), st') \<Rightarrow>
       if fin then (results, st') else runFailovers bc r results st'))"

section \<open>Lemmas\<close>

lemma router_post_attempts [simp]:
  "fst (router_post bc t st) = tg_post t (length (rs_attempts st))"
  "rs_attempts (snd (router_post bc t st)) = rs_attempts st @ [tg_name t]"
  "rs_breaker (snd (router_post bc t st)) = rs_breaker st"
  by (simp_all add: router_post_def Let_def)

lemma router_post_pair: "router_post bc t st = (tg_post t (length (rs_attempts st)), snd (router_post bc t st))"
  by (metis prod.collapse router_post_attempts(1))

lemma result_simps_router [simp]:
  "ps_error (targetResult n p) = False" "ps_error (errorResult n) = True" "ps_name (targetResult n p) = n"
  "ps_name (errorResult n) = n" "ps_posted (targetResult n p) = Some [p]"
  "ps_posted (errorResult n) = None" "ps_posted (cancelledResult n a) = None"
  by (simp_all add: targetResult_def errorResult_def cancelledResult_def)

lemma record_primary_attempts [simp]: "rs_attempts (record_primary f st) = rs_attempts st"
  by (simp add: record_primary_def)

text \<open>What a sequence of failovers leaves behind.\<close>

lemma failover_loop_cases:
  obtains (won) pre t post p st' where "targets = pre @ t # post"
      "failover_loop bc targets partial st = ((True, partial @ map (errorResult \<circ> tg_name) pre @ [targetResult (tg_name t) p]), st')"
      "tg_post t (length (rs_attempts st) + length pre) = Posted p"
      "rs_attempts st' = rs_attempts st @ map tg_name (pre @ [t])" "rs_breaker st' = rs_breaker st"
      "\<forall>i < length pre. \<forall>q. tg_post (pre ! i) (length (rs_attempts st) + i) \<noteq> Posted q"
    | (lost) st' where "failover_loop bc targets partial st = ((False, partial @ map (errorResult \<circ> tg_name) targets), st')"
      "rs_attempts st' = rs_attempts st @ map tg_name targets" "rs_breaker st' = rs_breaker st"
      "\<forall>i < length targets. \<forall>q. tg_post (targets ! i) (length (rs_attempts st) + i) \<noteq> Posted q"
proof (induction targets arbitrary: partial st thesis)
  case Nil
  then show ?case by simp
next
  case (Cons t targets)
  let ?n = "length (rs_attempts st)" and ?st = "snd (router_post bc t st)"
  show ?case
  proof (cases "\<exists>p. tg_post t ?n = Posted p")
    case True
    then obtain p where p: "tg_post t ?n = Posted p" by blast
    have "failover_loop bc (t # targets) partial st = ((True, partial @ [targetResult (tg_name t) p]), ?st)"
      by (subst failover_loop.simps, subst router_post_pair) (simp add: p)
    then show ?thesis by (intro Cons.prems(1) [of "[]" t targets p ?st]) (simp_all add: p)
  next
    case False
    then have step: "failover_loop bc (t # targets) partial st = failover_loop bc targets (partial @ [errorResult (tg_name t)]) ?st"
      by (subst failover_loop.simps, subst router_post_pair) (simp split: post_answer.split)
    show ?thesis
    proof (rule Cons.IH [of "partial @ [errorResult (tg_name t)]" ?st])
      fix pre u post p st' assume *: "targets = pre @ u # post" "failover_loop bc targets (partial @ [errorResult (tg_name t)]) ?st =
          ((True, (partial @ [errorResult (tg_name t)]) @ map (errorResult \<circ> tg_name) pre @ [targetResult (tg_name u) p]), st')"
        "tg_post u (length (rs_attempts ?st) + length pre) = Posted p" "rs_attempts st' = rs_attempts ?st @ map tg_name (pre @ [u])"
        "rs_breaker st' = rs_breaker ?st" "\<forall>i < length pre. \<forall>q. tg_post (pre ! i) (length (rs_attempts ?st) + i) \<noteq> Posted q"
      have "\<forall>i < length (t # pre). \<forall>q. tg_post ((t # pre) ! i) (?n + i) \<noteq> Posted q"
        using *(6) False by (auto simp: nth_Cons less_Suc_eq_0_disj split: nat.splits)
      with * step show thesis by (intro Cons.prems(1) [of "t # pre" u post p st']) simp_all
    next
      fix st' assume *: "failover_loop bc targets (partial @ [errorResult (tg_name t)]) ?st =
          ((False, (partial @ [errorResult (tg_name t)]) @ map (errorResult \<circ> tg_name) targets), st')"
        "rs_attempts st' = rs_attempts ?st @ map tg_name targets" "rs_breaker st' = rs_breaker ?st"
        "\<forall>i < length targets. \<forall>q. tg_post (targets ! i) (length (rs_attempts ?st) + i) \<noteq> Posted q"
      have "\<forall>i < length (t # targets). \<forall>q. tg_post ((t # targets) ! i) (?n + i) \<noteq> Posted q"
        using *(4) False by (auto simp: nth_Cons less_Suc_eq_0_disj split: nat.splits)
      with * step show thesis by (intro Cons.prems(2) [of st']) simp_all
    qed
  qed
qed

text \<open>The attempts at the primary.\<close>

lemma settle_primary_cases:
  obtains (answer) p where "a = Posted p" "settle_primary bc r a st = (([targetResult (tg_name (br_primary r)) p], True), record_primary RecordSuccess st)"
    | (gone) "\<forall>q. a \<noteq> Posted q" "ctx_Err bc st \<noteq> None" "settle_primary bc r a st = (([errorResult (tg_name (br_primary r))], True), st)"
    | (failed) st' where "\<forall>q. a \<noteq> Posted q" "settle_primary bc r a st = (([errorResult (tg_name (br_primary r))], False), st')"
        "rs_attempts st' = rs_attempts st"
proof -
  let ?E = "[errorResult (tg_name (br_primary r))]"
  have fail: thesis if no: "\<forall>q. a \<noteq> Posted q" and eq: "settle_primary bc r a st =
      (if isContextError e then ((?E, ctx_Err bc st \<noteq> None), st) else ((?E, False), record_primary f st))" for e f
  proof (cases "isContextError e")
    case True
    with eq no gone failed [of st] show thesis by (cases "ctx_Err bc st") simp_all
  next
    case False
    with eq no failed [of "record_primary f st"] show thesis by simp
  qed
  show thesis
  proof (cases a)
    case (Posted p)
    with answer show thesis by (simp add: settle_primary_def Let_def)
  next
    case NoResult
    then show thesis by (intro fail [of errNoResult]) (auto simp: settle_primary_def Let_def)
  next
    case (PostFailed d e)
    then show thesis by (intro fail [of e]) (auto simp: settle_primary_def Let_def)
  qed
qed

lemma tryPrimary_cases:
  fixes r :: broadcast_router and st0 :: router_state
  defines "n \<equiv> length (rs_attempts st0)" and "pr \<equiv> br_primary r"
  obtains (answer) k p st where "k < 2" "tg_post pr (n + k) = Posted p" "\<forall>i < k. \<forall>q. tg_post pr (n + i) \<noteq> Posted q"
      "tryPrimary bc r st0 = (([targetResult (tg_name pr) p], True), st)" "rs_attempts st = rs_attempts st0 @ replicate (Suc k) (tg_name pr)"
    | (gone) k x st where "k < 2" "\<forall>i < k. \<forall>q. tg_post pr (n + i) \<noteq> Posted q" "ps_posted x = None" "ctx_Err bc st \<noteq> None"
      "tryPrimary bc r st0 = (([x], True), st)" "rs_attempts st = rs_attempts st0 @ replicate (Suc k) (tg_name pr)"
    | (failed) k st where "k < 2" "\<forall>i < Suc k. \<forall>q. tg_post pr (n + i) \<noteq> Posted q"
      "tryPrimary bc r st0 = (([errorResult (tg_name pr)], False), st)" "rs_attempts st = rs_attempts st0 @ replicate (Suc k) (tg_name pr)"
proof -
  let ?a = "tg_post pr n" and ?st = "snd (router_post bc pr st0)"
  let ?b = "tg_post pr (Suc n)" and ?st2 = "snd (router_post bc pr ?st)"
  have attempt: "tryPrimary bc r st0 = (case ?a of PostFailed (Some _) _ \<Rightarrow> (case retryAfterBackpressure bc r ?st of (a', st') \<Rightarrow>
       if ctx_Err bc st' \<noteq> None then (([cancelledResult (tg_name pr) a'], True), st') else settle_primary bc r a' st')
     | _ \<Rightarrow> settle_primary bc r ?a ?st)"
    unfolding tryPrimary_def pr_def n_def by (subst router_post_pair) simp
  have len: "rs_attempts ?st = rs_attempts st0 @ [tg_name pr]" by simp
  show thesis
  proof (cases "\<exists>d e. ?a = PostFailed (Some d) e")
    case False
    then have once: "tryPrimary bc r st0 = settle_primary bc r ?a ?st" unfolding attempt by (auto split: post_answer.split option.split)
    show thesis
    proof (cases rule: settle_primary_cases [of ?a bc r ?st])
      case (answer p)
      with once len show thesis by (intro that(1) [of 0 p "record_primary RecordSuccess ?st"]) (simp_all add: pr_def)
    next
      case gone
      with once len show thesis by (intro that(2) [of 0 "errorResult (tg_name pr)" ?st]) (simp_all add: pr_def)
    next
      case (failed st')
      with once len show thesis by (intro that(3) [of 0 st']) (simp_all add: pr_def)
    qed
  next
    case True
    then have no: "\<forall>q. ?a \<noteq> Posted q" by auto
    show thesis
    proof (cases "ctx_Err bc ?st")
      case (Some e)
      with True have "tryPrimary bc r st0 = (([cancelledResult (tg_name pr) (PostFailed None (GoWrap ''broadcast canceled while honoring backpressure'' e))], True), ?st)"
        unfolding attempt by (auto simp: retryAfterBackpressure_def)
      with Some len show thesis by (intro that(2) [of 0 _ ?st]) auto
    next
      case None
      have "retryAfterBackpressure bc r ?st = (?b, ?st2)"
        unfolding retryAfterBackpressure_def None pr_def [symmetric] using router_post_pair [of bc pr ?st] by (simp add: n_def)
      with True have twice: "tryPrimary bc r st0 =
          (if ctx_Err bc ?st2 \<noteq> None then (([cancelledResult (tg_name pr) ?b], True), ?st2) else settle_primary bc r ?b ?st2)"
        unfolding attempt by auto
      have len2: "rs_attempts ?st2 = rs_attempts st0 @ replicate (Suc 1) (tg_name pr)" by simp
      have no2: "\<forall>i < Suc 0. \<forall>q. tg_post pr (n + i) \<noteq> Posted q" using no by simp
      show thesis
      proof (cases "ctx_Err bc ?st2")
        case (Some e)
        with twice len2 no2 show thesis by (intro that(2) [of 1 "cancelledResult (tg_name pr) ?b" ?st2]) simp_all
      next
        case alive: None
        show thesis
        proof (cases rule: settle_primary_cases [of ?b bc r ?st2])
          case (answer p)
          with twice alive len2 no2 show thesis by (intro that(1) [of 1 p "record_primary RecordSuccess ?st2"]) (simp_all add: pr_def)
        next
          case gone
          with alive show thesis by simp
        next
          case (failed st')
          with no have "\<forall>i < Suc 1. \<forall>q. tg_post pr (n + i) \<noteq> Posted q" by (auto simp: less_Suc_eq)
          with failed twice alive len2 show thesis by (intro that(3) [of 1 st']) (simp_all add: pr_def)
        qed
      qed
    qed
  qed
qed

text \<open>A target whose attempt had no final answer.\<close>

definition unanswered :: "broadcast_target list \<Rightarrow> nat \<Rightarrow> nat \<Rightarrow> bool" where
  "unanswered ts n m \<longleftrightarrow> (\<forall>i < m. \<forall>q. tg_post (ts ! i) (n + i) \<noteq> Posted q)"

lemma runFailovers_routes:
  assumes partial: "\<forall>x \<in> set partial. ps_error x \<and> ps_posted x = None" and run: "runFailovers bc r partial st = (results, st')"
  shows "\<exists>pre post. br_failovers r = pre @ post \<and> rs_attempts st' = rs_attempts st @ map tg_name pre \<and> results \<noteq> [] \<and>
    (\<forall>x \<in> set (butlast results). ps_error x) \<and>
    (pre \<noteq> [] \<and> unanswered pre (length (rs_attempts st)) (length pre - 1) \<and>
       (\<exists>p. tg_post (last pre) (length (rs_attempts st) + length pre - 1) = Posted p \<and> last results = targetResult (tg_name (last pre)) p) \<or>
     post = [] \<and> unanswered pre (length (rs_attempts st)) (length pre) \<and> (\<forall>x \<in> set results. ps_posted x = None))"
proof (cases rule: failover_loop_cases [of "br_failovers r" bc partial st])
  case (won pre t post p st1)
  have un: "unanswered (pre @ [t]) (length (rs_attempts st)) (length pre)" using won(6) by (auto simp: unanswered_def nth_append)
  have res: "results = (partial @ map (errorResult \<circ> tg_name) pre) @ [targetResult (tg_name t) p]" "st' = st1"
    using won(2) run by (simp_all add: runFailovers_def)
  have "\<forall>x \<in> set (butlast results). ps_error x" unfolding res(1) butlast_snoc using partial by auto
  with won un res show ?thesis
    by - (rule exI [of _ "pre @ [t]"], rule exI [of _ post], auto)
next
  case (lost st1)
  have res: "results = (if br_failovers r = [] \<and> partial = [] then [errorResult (tg_name (br_primary r))]
      else partial @ map (errorResult \<circ> tg_name) (br_failovers r))" "st' = st1" using lost(1) run by (auto simp: runFailovers_def split: if_splits)
  have all: "\<forall>x \<in> set results. ps_error x \<and> ps_posted x = None" unfolding res(1) using partial by auto
  have "results \<noteq> []" unfolding res(1) by auto
  with lost res(2) all show ?thesis
    by - (rule exI [of _ "br_failovers r"], rule exI [of _ "[]"], auto simp: unanswered_def dest: in_set_butlastD)
qed

text \<open>The attempts of one broadcast: \<open>k\<close> at the primary, then the failovers \<open>pre\<close> of \<open>pre @ post\<close>.\<close>

definition routed :: "broadcast_call \<Rightarrow> broadcast_router \<Rightarrow> router_state \<Rightarrow> post_service_result list \<Rightarrow> router_state \<Rightarrow>
    nat \<Rightarrow> broadcast_target list \<Rightarrow> broadcast_target list \<Rightarrow> bool" where
  "routed bc r st results st' k pre post \<longleftrightarrow>
     (let tried = replicate k (br_primary r) @ pre; n = length (rs_attempts st) in
      br_failovers r = pre @ post \<and> rs_attempts st' = rs_attempts st @ map tg_name tried \<and> unanswered tried n (length tried - 1) \<and>
      (if \<exists>x \<in> set results. ps_posted x \<noteq> None
       then tried \<noteq> [] \<and> (\<exists>p. tg_post (last tried) (n + length tried - 1) = Posted p \<and> last results = targetResult (tg_name (last tried)) p)
       else post = [] \<or> ctx_Err bc st' \<noteq> None))"

lemma routed_failovers:
  assumes st1: "rs_attempts st1 = rs_attempts st @ replicate k (tg_name (br_primary r))"
    and un: "unanswered (replicate k (br_primary r)) (length (rs_attempts st)) k"
    and partial: "\<forall>x \<in> set partial. ps_error x \<and> ps_posted x = None" and run: "runFailovers bc r partial st1 = (results, st')"
  shows "\<exists>pre post. routed bc r st results st' k pre post \<and> results \<noteq> [] \<and> (\<forall>x \<in> set (butlast results). ps_error x)"
proof -
  let ?n = "length (rs_attempts st)" and ?pr = "replicate k (br_primary r)"
  from runFailovers_routes [OF partial run] obtain pre post where rt: "br_failovers r = pre @ post"
    "rs_attempts st' = rs_attempts st1 @ map tg_name pre" "results \<noteq> []" "\<forall>x \<in> set (butlast results). ps_error x"
    "pre \<noteq> [] \<and> unanswered pre (length (rs_attempts st1)) (length pre - 1) \<and>
       (\<exists>p. tg_post (last pre) (length (rs_attempts st1) + length pre - 1) = Posted p \<and> last results = targetResult (tg_name (last pre)) p) \<or>
     post = [] \<and> unanswered pre (length (rs_attempts st1)) (length pre) \<and> (\<forall>x \<in> set results. ps_posted x = None)" by metis
  have n: "length (rs_attempts st1) = ?n + k" using st1 by simp
  have both: "unanswered (?pr @ pre) ?n (k + m)" if "unanswered pre (?n + k) m" for m
    unfolding unanswered_def
  proof (intro allI impI)
    fix i q assume i: "i < k + m"
    show "tg_post ((?pr @ pre) ! i) (?n + i) \<noteq> Posted q"
    proof (cases "i < k")
      case True
      with un show ?thesis by (simp add: unanswered_def nth_append)
    next
      case False
      with that i show ?thesis by (auto simp: unanswered_def nth_append dest: spec [of _ "i - k"])
    qed
  qed
  have at: "rs_attempts st' = rs_attempts st @ map tg_name (?pr @ pre)" using st1 rt(2) by simp
  from rt(5) have "routed bc r st results st' k pre post"
  proof
    assume w: "pre \<noteq> [] \<and> unanswered pre (length (rs_attempts st1)) (length pre - 1) \<and>
       (\<exists>p. tg_post (last pre) (length (rs_attempts st1) + length pre - 1) = Posted p \<and> last results = targetResult (tg_name (last pre)) p)"
    then have "unanswered (?pr @ pre) ?n (length (?pr @ pre) - 1)" using both [of "length pre - 1"] n by (cases pre) simp_all
    moreover have "\<exists>x \<in> set results. ps_posted x \<noteq> None" using w rt(3) by (intro bexI [of _ "last results"]) auto
    ultimately show ?thesis using w n at rt(1) by (auto simp: routed_def Let_def ac_simps)
  next
    assume l: "post = [] \<and> unanswered pre (length (rs_attempts st1)) (length pre) \<and> (\<forall>x \<in> set results. ps_posted x = None)"
    then have "unanswered (?pr @ pre) ?n (length (?pr @ pre) - 1)" using both [of "length pre"] n by (auto simp: unanswered_def)
    with l at rt(1) show ?thesis by (auto simp: routed_def Let_def)
  qed
  with rt(3,4) show ?thesis by blast
qed

section \<open>Properties\<close>

text \<open>C35. A transaction is offered to the services in their order and no further than needed. The primary is asked once, or twice under
  backpressure, and only when the breaker admits the call; then a prefix of the failovers is asked, each once. No service is asked
  after one has given a final answer (an acceptance or a rejection of the transaction), which is the last result returned. There is
  always a result; without a final answer every failover was asked or the caller went away.\<close>

theorem broadcast_routes_in_order:
  assumes run: "broadcast bc r st = (results, st')"
  shows "results \<noteq> [] \<and> (\<forall>x \<in> set (butlast results). ps_error x) \<and> (\<exists>k pre post. routed bc r st results st' k pre post \<and>
    k \<le> 2 \<and> (0 < k \<longleftrightarrow> fst (Allow (bx_clock bc (length (rs_attempts st))) (rs_breaker st))))"
proof -
  let ?n = "length (rs_attempts st)" and ?pr = "br_primary r"
  obtain ok cb where allow: "Allow (bx_clock bc ?n) (rs_breaker st) = (ok, cb)" by fastforce
  let ?st = "st\<lparr>rs_breaker := cb\<rparr>"
  show ?thesis
  proof (cases ok)
    case False
    with run allow have "runFailovers bc r [] ?st = (results, st')" by (simp add: broadcast_def)
    from routed_failovers [OF _ _ _ this, of st 0] have "\<exists>pre post. routed bc r st results st' 0 pre post \<and> results \<noteq> [] \<and>
        (\<forall>x \<in> set (butlast results). ps_error x)" by (simp add: unanswered_def)
    with False allow show ?thesis by (metis fst_conv le0 less_numeral_extra(3))
  next
    case True
    then have k: "0 < Suc k \<longleftrightarrow> fst (Allow (bx_clock bc ?n) (rs_breaker st))" for k using allow by simp
    show ?thesis
    proof (cases rule: tryPrimary_cases [of r ?st bc])
      case (answer k p st1)
      with run allow True have res: "results = [targetResult (tg_name ?pr) p]" "st' = st1" by (simp_all add: broadcast_def)
      with answer have "routed bc r st results st' (Suc k) [] (br_failovers r)"
        by (auto simp: routed_def Let_def unanswered_def last_replicate simp del: replicate_Suc)
      with res answer(1) k [of k] show ?thesis by (intro conjI exI [of _ "Suc k"] exI) auto
    next
      case (gone k x st1)
      with run allow True have res: "results = [x]" "st' = st1" by (simp_all add: broadcast_def)
      with gone have "routed bc r st results st' (Suc k) [] (br_failovers r)"
        by (auto simp: routed_def Let_def unanswered_def simp del: replicate_Suc)
      with res gone(1) k [of k] show ?thesis by (intro conjI exI [of _ "Suc k"] exI) auto
    next
      case (failed k st1)
      with run allow True have rf: "runFailovers bc r [errorResult (tg_name ?pr)] st1 = (results, st')" by (simp add: broadcast_def)
      have "unanswered (replicate (Suc k) ?pr) ?n (Suc k)" using failed(2) by (simp add: unanswered_def nth_append del: replicate_Suc)
      from routed_failovers [OF _ this _ rf] failed(4) have "\<exists>pre post. routed bc r st results st' (Suc k) pre post \<and> results \<noteq> [] \<and>
          (\<forall>x \<in> set (butlast results). ps_error x)" by simp
      with failed(1) k [of k] show ?thesis by (metis Suc_leI)
    qed
  qed
qed

text \<open>The primary fails, the first failover does not answer and the second one accepts; the third is not asked.\<close>

definition ex_posted :: posted_txid where
  "ex_posted = \<lparr>pt_result = PostedTxIDResultSuccess, pt_txid = ''aa'', pt_double_spend = False, pt_competing_txs = [], pt_error = False,
     pt_notes = []\<rparr>"

definition ex_router :: broadcast_router where
  "ex_router = newBroadcastRouter (\<lambda>_. PostFailed None (GoErr ''down'')) (Some (''ARC'', \<lambda>_. NoResult)) None (Some (\<lambda>_. Posted ex_posted))
     (Some (\<lambda>_. Posted ex_posted))"

definition ex_router_state :: router_state where
  "ex_router_state = \<lparr>rs_breaker = New_breaker ex_breaker_cfg 0, rs_history = None, rs_attempts = []\<rparr>"

definition ex_broadcast :: broadcast_call where
  "ex_broadcast = \<lparr>bx_ctxErr = (\<lambda>_. None), bx_clock = int\<rparr>"

lemma ex_broadcast_run:
  "\<exists>st. broadcast ex_broadcast ex_router ex_router_state =
     ([errorResult ''Arcade'', errorResult ''ARC'', targetResult ''WhatsOnChain'' ex_posted], st) \<and>
     rs_attempts st = [''Arcade'', ''ARC'', ''WhatsOnChain'']"
  by (simp add: broadcast_def ex_router_state_def New_breaker_def ex_breaker_cfg_def Let_def Allow_def tryPrimary_def router_post_def
      ex_router_def newBroadcastRouter_def failover_target_def resultAsTransportOutcome_def settle_primary_def isContextError_def
      runFailovers_def record_primary_def ex_posted_def)

theorem broadcast_routes_in_order_witness:
  "\<exists>st k pre post. routed ex_broadcast ex_router ex_router_state [errorResult ''Arcade'', errorResult ''ARC'', targetResult ''WhatsOnChain'' ex_posted]
     st k pre post \<and> rs_attempts st = [''Arcade'', ''ARC'', ''WhatsOnChain'']"
  using ex_broadcast_run broadcast_routes_in_order by metis

text \<open>A caller that goes away does not count against the primary: when the primary's answer is a context error, or the context ends
  during the wait for a retry, the breaker keeps the state it had after admitting the call, and no failure is recorded.\<close>

theorem cancelled_broadcast_spares_breaker:
  assumes "fst (Allow (bx_clock bc (length (rs_attempts st))) (rs_breaker st))"
    and gone: "\<forall>n. bx_ctxErr bc n \<noteq> None"
    and answer: "tg_post (br_primary r) (length (rs_attempts st)) = PostFailed retry e" "retry = None \<longrightarrow> isContextError e"
  shows "rs_breaker (snd (broadcast bc r st)) = snd (Allow (bx_clock bc (length (rs_attempts st))) (rs_breaker st)) \<and>
    (\<exists>x. fst (broadcast bc r st) = [x] \<and> ps_error x)"
proof -
  obtain cb where allow: "Allow (bx_clock bc (length (rs_attempts st))) (rs_breaker st) = (True, cb)"
    using assms(1) by (metis prod.collapse)
  let ?st = "st\<lparr>rs_breaker := cb\<rparr>"
  have ctx: "\<exists>e'. ctx_Err bc s = Some e'" for s using gone by (simp add: ctx_Err_def)
  obtain st1 where post: "router_post bc (br_primary r) ?st = (PostFailed retry e, st1)" and same: "rs_breaker st1 = cb"
    using router_post_pair [of bc "br_primary r" ?st] router_post_attempts(3) [of bc "br_primary r" ?st] answer(1) by simp
  have "\<exists>x. tryPrimary bc r ?st = (([x], True), st1) \<and> ps_error x"
  proof (cases retry)
    case None
    with answer(2) ctx [of st1] post show ?thesis by (auto simp: tryPrimary_def settle_primary_def Let_def)
  next
    case (Some d)
    with ctx [of st1] post show ?thesis by (auto simp: tryPrimary_def retryAfterBackpressure_def cancelledResult_def)
  qed
  then show ?thesis using allow same by (auto simp: broadcast_def)
qed

theorem cancelled_broadcast_spares_breaker_witness:
  "rs_breaker (snd (broadcast (ex_broadcast\<lparr>bx_ctxErr := (\<lambda>_. Some (GoSentinel ''context.Canceled''))\<rparr>)
     (ex_router\<lparr>br_primary := \<lparr>tg_name = ''Arcade'', tg_post = (\<lambda>_. PostFailed None (GoSentinel ''context.Canceled''))\<rparr>\<rparr>) ex_router_state)) =
   snd (Allow 0 (New_breaker ex_breaker_cfg 0))"
proof -
  let ?bc = "ex_broadcast\<lparr>bx_ctxErr := (\<lambda>_. Some (GoSentinel ''context.Canceled''))\<rparr>"
  let ?r = "ex_router\<lparr>br_primary := \<lparr>tg_name = ''Arcade'', tg_post = (\<lambda>_. PostFailed None (GoSentinel ''context.Canceled''))\<rparr>\<rparr>"
  have "fst (Allow (bx_clock ?bc (length (rs_attempts ex_router_state))) (rs_breaker ex_router_state))"
    by (simp add: ex_router_state_def New_breaker_def Allow_def Let_def ex_breaker_cfg_def)
  from cancelled_broadcast_spares_breaker [OF this, of ?r None "GoSentinel ''context.Canceled''"] show ?thesis
    by (simp add: isContextError_def ex_broadcast_def ex_router_state_def)
qed

end
