(* ===== verification/Lease_Locker.thy ===== *)
theory Lease_Locker
  imports Prelude
begin

text \<open>
  The lease that keeps several instances from running the same monitor job, \<open>pkg/monitor/lease_locker.go\<close>.

  The table has one row per job. \<open>Lock\<close> reads its instance's clock once and issues two statements, an insertion that does nothing when
  the row exists and a conditional update; statements of other instances may come between them, so a run is a sequence of statements.
  Every statement carries the clock reading of the instance that issues it. A statement that fails in the database changes nothing.
\<close>

section \<open>Definitions\<close>

record job_lock =
  jl_Owner :: string
  jl_LeaseUntil :: int
  jl_UpdatedAt :: int

type_synonym lock_table = "string \<rightharpoonup> job_lock"

record lease_locker =
  ll_owner :: string
  ll_ttls :: "string \<rightharpoonup> int"

definition defaultLeaseTTL :: int where
  "defaultLeaseTTL = 600000000000"

definition SetLeaseTTL :: "string \<Rightarrow> int \<Rightarrow> lease_locker \<Rightarrow> lease_locker" where
  "SetLeaseTTL jobName ttl l = l\<lparr>ll_ttls := (ll_ttls l)(jobName \<mapsto> ttl)\<rparr>"

definition ttlFor :: "string \<Rightarrow> lease_locker \<Rightarrow> int" where
  "ttlFor jobName l = (case ll_ttls l jobName of Some ttl \<Rightarrow> if 0 < ttl then ttl else defaultLeaseTTL | None \<Rightarrow> defaultLeaseTTL)"

text \<open>The two statements of \<open>Lock\<close>, and the statement of \<open>Unlock\<close>.\<close>

definition ensure_row :: "lease_locker \<Rightarrow> string \<Rightarrow> int \<Rightarrow> lock_table \<Rightarrow> lock_table" where
  "ensure_row l key now t = (case t key of
     None \<Rightarrow> t(key \<mapsto> \<lparr>jl_Owner = ll_owner l, jl_LeaseUntil = now + ttlFor key l, jl_UpdatedAt = now\<rparr>)
   | Some _ \<Rightarrow> t)"

definition claim_lease :: "lease_locker \<Rightarrow> string \<Rightarrow> int \<Rightarrow> lock_table \<Rightarrow> bool \<times> lock_table" where
  "claim_lease l key now t = (case t key of
     None \<Rightarrow> (False, t)
   | Some row \<Rightarrow>
       if jl_Owner row = ll_owner l \<or> jl_LeaseUntil row < now
       then (True, t(key \<mapsto> \<lparr>jl_Owner = ll_owner l, jl_LeaseUntil = now + ttlFor key l, jl_UpdatedAt = now\<rparr>))
       else (False, t))"

definition Lock :: "lease_locker \<Rightarrow> string \<Rightarrow> int \<Rightarrow> lock_table \<Rightarrow> unit result \<times> lock_table" where
  "Lock l key now t = (case claim_lease l key now (ensure_row l key now t) of
     (True, t') \<Rightarrow> (Inr (), t') | (False, t') \<Rightarrow> (Inl (GoErr ''lease held by another instance''), t'))"

definition Unlock :: "lease_locker \<Rightarrow> string \<Rightarrow> int \<Rightarrow> lock_table \<Rightarrow> lock_table" where
  "Unlock l key now t = (case t key of
     None \<Rightarrow> t
   | Some row \<Rightarrow> if jl_Owner row = ll_owner l then t(key \<mapsto> row\<lparr>jl_LeaseUntil := now, jl_UpdatedAt := now\<rparr>) else t)"

section \<open>Runs\<close>

datatype lease_op = EnsureRow | ClaimLease | ReleaseLease

record lease_event =
  le_op :: lease_op
  le_locker :: lease_locker
  le_key :: string
  le_now :: int

text \<open>The leases granted for a job, the newest first: owner, start and end. A claim by the present owner extends its lease.\<close>

record lease =
  ls_owner :: string
  ls_start :: int
  ls_end :: int

definition grant :: "string \<Rightarrow> int \<Rightarrow> int \<Rightarrow> lease list \<Rightarrow> lease list" where
  "grant owner start end ls = (case ls of
     g # gs \<Rightarrow> if ls_owner g = owner then g\<lparr>ls_end := end\<rparr> # gs else \<lparr>ls_owner = owner, ls_start = start, ls_end = end\<rparr> # ls
   | [] \<Rightarrow> [\<lparr>ls_owner = owner, ls_start = start, ls_end = end\<rparr>])"

definition cut_lease :: "string \<Rightarrow> int \<Rightarrow> lease list \<Rightarrow> lease list" where
  "cut_lease owner now ls = (case ls of g # gs \<Rightarrow> if ls_owner g = owner then g\<lparr>ls_end := now\<rparr> # gs else ls | [] \<Rightarrow> [])"

type_synonym lease_state = "lock_table \<times> (string \<Rightarrow> lease list)"

definition lease_step :: "lease_event \<Rightarrow> lease_state \<Rightarrow> lease_state" where
  "lease_step e s = (let (t, gs) = s; l = le_locker e; k = le_key e; now = le_now e in
     case le_op e of
       EnsureRow \<Rightarrow> (ensure_row l k now t, gs)
     | ClaimLease \<Rightarrow> (case claim_lease l k now t of
         (True, t') \<Rightarrow> (t', gs(k := grant (ll_owner l) now (now + ttlFor k l) (gs k))) | (False, t') \<Rightarrow> (t', gs))
     | ReleaseLease \<Rightarrow> (Unlock l k now t, gs(k := cut_lease (ll_owner l) now (gs k))))"

definition lease_run :: "lease_event list \<Rightarrow> lease_state" where
  "lease_run es = fold lease_step es (Map.empty, \<lambda>_. [])"

text \<open>The clock of an instance does not go back.\<close>

definition clocks_ok :: "lease_event list \<Rightarrow> bool" where
  "clocks_ok es \<longleftrightarrow> (\<forall>i j. i < j \<longrightarrow> j < length es \<longrightarrow> ll_owner (le_locker (es ! i)) = ll_owner (le_locker (es ! j)) \<longrightarrow>
     le_now (es ! i) \<le> le_now (es ! j))"

definition ended_before :: "lease \<Rightarrow> lease \<Rightarrow> bool" where
  "ended_before newer older \<longleftrightarrow> ls_end older < ls_start newer"

text \<open>The row and the newest lease agree; leases of a job follow each other.\<close>

definition lease_inv :: "string \<Rightarrow> lease_state \<Rightarrow> bool" where
  "lease_inv k s \<longleftrightarrow> (case s of (t, gs) \<Rightarrow>
     (case gs k of
        [] \<Rightarrow> True
      | g # _ \<Rightarrow> (case t k of None \<Rightarrow> False | Some row \<Rightarrow> jl_Owner row = ls_owner g \<and> jl_LeaseUntil row = ls_end g)) \<and>
     sorted_wrt ended_before (gs k) \<and> (\<forall>g \<in> set (gs k). ls_start g \<le> ls_end g))"

lemma ttlFor_pos: "0 < ttlFor k l"
  by (simp add: ttlFor_def defaultLeaseTTL_def split: option.split)

lemma lease_step_other: "le_key e \<noteq> k \<Longrightarrow> snd (lease_step e s) k = snd s k \<and> fst (lease_step e s) k = fst s k"
  by (auto simp: lease_step_def Let_def ensure_row_def claim_lease_def Unlock_def split: prod.splits lease_op.splits option.splits bool.splits if_splits)

lemma spaced_replace:
  assumes "sorted_wrt ended_before (g # gs)"
  shows "sorted_wrt ended_before (g\<lparr>ls_end := x\<rparr> # gs)"
  using assms by (simp add: ended_before_def)

lemma lease_step_inv:
  assumes inv: "lease_inv k s" and start: "\<forall>g \<in> set (snd s k). ls_owner g = ll_owner (le_locker e) \<longrightarrow> ls_start g \<le> le_now e"
  shows "lease_inv k (lease_step e s)"
proof (cases "le_key e = k")
  case False
  with lease_step_other [OF this, of s] inv show ?thesis
    by (auto simp: lease_inv_def case_prod_beta split: list.splits option.splits)
next
  case True
  obtain t gs where s: "s = (t, gs)" by fastforce
  let ?l = "le_locker e" and ?now = "le_now e"
  show ?thesis
  proof (cases "le_op e")
    case EnsureRow
    with inv True s show ?thesis
      by (auto simp: lease_step_def Let_def lease_inv_def ensure_row_def split: option.splits list.splits)
  next
    case ClaimLease
    show ?thesis
    proof (cases "fst (claim_lease ?l k ?now t)")
      case False
      with ClaimLease inv True s show ?thesis
        by (auto simp: lease_step_def Let_def claim_lease_def split: option.splits if_splits)
    next
      case ok: True
      then obtain row where row: "t k = Some row" "jl_Owner row = ll_owner ?l \<or> jl_LeaseUntil row < ?now"
        by (auto simp: claim_lease_def split: option.splits if_splits)
      then have step: "lease_step e s = (t(k \<mapsto> \<lparr>jl_Owner = ll_owner ?l, jl_LeaseUntil = ?now + ttlFor k ?l, jl_UpdatedAt = ?now\<rparr>),
          gs(k := grant (ll_owner ?l) ?now (?now + ttlFor k ?l) (gs k)))"
        using ClaimLease True s by (simp add: lease_step_def Let_def claim_lease_def)
      show ?thesis
      proof (cases "gs k")
        case Nil
        with step ttlFor_pos [of k ?l] show ?thesis by (simp add: lease_inv_def grant_def)
      next
        case (Cons g rest)
        have g: "jl_Owner row = ls_owner g" "jl_LeaseUntil row = ls_end g" "sorted_wrt ended_before (g # rest)"
          "\<forall>g \<in> set (g # rest). ls_start g \<le> ls_end g" using inv s Cons row by (simp_all add: lease_inv_def)
        show ?thesis
        proof (cases "ls_owner g = ll_owner ?l")
          case True
          have "ls_start g \<le> ?now" using start s Cons True by simp
          with step Cons True g spaced_replace [OF g(3), of "?now + ttlFor k ?l"] ttlFor_pos [of k ?l] show ?thesis
            by (simp add: lease_inv_def grant_def)
        next
          case False
          with row g have "ls_end g < ?now" by simp
          with g have "\<forall>g' \<in> set (g # rest). ls_end g' < ?now" by (force simp: ended_before_def)
          with step Cons False g ttlFor_pos [of k ?l] show ?thesis by (simp add: lease_inv_def grant_def ended_before_def)
        qed
      qed
    qed
  next
    case ReleaseLease
    then have step: "lease_step e s = (Unlock ?l k ?now t, gs(k := cut_lease (ll_owner ?l) ?now (gs k)))"
      using True s by (simp add: lease_step_def Let_def)
    show ?thesis
    proof (cases "gs k")
      case Nil
      with step show ?thesis by (simp add: lease_inv_def cut_lease_def)
    next
      case (Cons g rest)
      then obtain row where row: "t k = Some row" "jl_Owner row = ls_owner g" "jl_LeaseUntil row = ls_end g"
        using inv s by (auto simp: lease_inv_def split: option.splits)
      have g: "sorted_wrt ended_before (g # rest)" "\<forall>g \<in> set (g # rest). ls_start g \<le> ls_end g"
        using inv s Cons by (simp_all add: lease_inv_def)
      show ?thesis
      proof (cases "ls_owner g = ll_owner ?l")
        case True
        have "ls_start g \<le> ?now" using start s Cons True by simp
        with step Cons True row g spaced_replace [OF g(1), of ?now] show ?thesis by (simp add: lease_inv_def cut_lease_def Unlock_def)
      next
        case False
        with step Cons row g show ?thesis by (simp add: lease_inv_def cut_lease_def Unlock_def)
      qed
    qed
  qed
qed

text \<open>A lease starts at a clock reading of its owner.\<close>

lemma lease_lists:
  "g \<in> set (grant owner start x ls) \<Longrightarrow> ls_owner g = owner \<and> ls_start g = start \<or>
     (\<exists>g0 \<in> set ls. ls_owner g = ls_owner g0 \<and> ls_start g = ls_start g0)"
  "g \<in> set (cut_lease owner now ls) \<Longrightarrow> \<exists>g0 \<in> set ls. ls_owner g = ls_owner g0 \<and> ls_start g = ls_start g0"
  by (auto simp: grant_def cut_lease_def split: list.splits if_splits)

lemma lease_starts:
  "g \<in> set (snd (lease_run es) k) \<Longrightarrow> \<exists>e \<in> set es. ls_owner g = ll_owner (le_locker e) \<and> ls_start g = le_now e"
proof (induction es arbitrary: g rule: rev_induct)
  case (snoc e es)
  let ?s = "lease_run es"
  have run: "lease_run (es @ [e]) = lease_step e ?s" by (simp add: lease_run_def)
  have "snd (lease_step e ?s) k \<in> {snd ?s k, grant (ll_owner (le_locker e)) (le_now e) (le_now e + ttlFor k (le_locker e)) (snd ?s k),
      cut_lease (ll_owner (le_locker e)) (le_now e) (snd ?s k)}"
    by (cases ?s; cases "le_key e = k"; cases "le_op e"; cases "claim_lease (le_locker e) (le_key e) (le_now e) (fst ?s)";
        cases "fst (claim_lease (le_locker e) (le_key e) (le_now e) (fst ?s))") (simp_all add: lease_step_def Let_def)
  with snoc.prems have "ls_owner g = ll_owner (le_locker e) \<and> ls_start g = le_now e \<or>
      (\<exists>g0 \<in> set (snd ?s k). ls_owner g = ls_owner g0 \<and> ls_start g = ls_start g0)"
    unfolding run by (auto dest!: lease_lists)
  with snoc.IH show ?case by fastforce
qed (simp add: lease_run_def)

lemma lease_run_inv: "clocks_ok es \<Longrightarrow> lease_inv k (lease_run es)"
proof (induction es rule: rev_induct)
  case Nil
  show ?case by (simp add: lease_run_def lease_inv_def)
next
  case (snoc e es)
  have "clocks_ok es" unfolding clocks_ok_def
  proof (intro allI impI)
    fix i j assume "i < j" "j < length es" "ll_owner (le_locker (es ! i)) = ll_owner (le_locker (es ! j))"
    then show "le_now (es ! i) \<le> le_now (es ! j)"
      using snoc.prems [unfolded clocks_ok_def, rule_format, of i j] by (simp add: nth_append)
  qed
  moreover have "le_now e' \<le> le_now e" if "e' \<in> set es" "ll_owner (le_locker e') = ll_owner (le_locker e)" for e'
  proof -
    from that obtain i where "i < length es" "es ! i = e'" by (auto simp: in_set_conv_nth)
    with that(2) show ?thesis
      using snoc.prems [unfolded clocks_ok_def, rule_format, of i "length es"] by (simp add: nth_append)
  qed
  ultimately have "lease_inv k (lease_step e (lease_run es))"
    using snoc.IH by (intro lease_step_inv) (auto dest!: lease_starts)
  then show ?case by (simp add: lease_run_def)
qed

section \<open>Properties\<close>


definition ex_locker :: "string \<Rightarrow> lease_locker" where
  "ex_locker owner = \<lparr>ll_owner = owner, ll_ttls = [''job'' \<mapsto> 10]\<rparr>"

definition ex_lease_events :: "lease_event list" where
  "ex_lease_events = map (\<lambda>(x, owner, now). \<lparr>le_op = x, le_locker = ex_locker owner, le_key = ''job'', le_now = now\<rparr>)
     [(EnsureRow, ''a'', 0), (ClaimLease, ''a'', 0), (ClaimLease, ''b'', 5), (ClaimLease, ''b'', 11)]"


text \<open>A crashed owner is replaced: \<open>Lock\<close> succeeds exactly when the job has no row, or belongs to the caller, or its lease has ended;
  then the caller owns the lease for its whole duration. A failed call leaves a foreign lease as it was, and so does the late unlock of an
  instance that has lost its lease.\<close>

lemma Lock_takes_expired_lease:
  shows "fst (Lock l key now t) = Inr () \<longleftrightarrow> (case t key of None \<Rightarrow> True | Some row \<Rightarrow> jl_Owner row = ll_owner l \<or> jl_LeaseUntil row < now)"
    and "fst (Lock l key now t) = Inr () \<Longrightarrow>
      snd (Lock l key now t) key = Some \<lparr>jl_Owner = ll_owner l, jl_LeaseUntil = now + ttlFor key l, jl_UpdatedAt = now\<rparr> \<and> now < now + ttlFor key l"
    and "fst (Lock l key now t) \<noteq> Inr () \<Longrightarrow> snd (Lock l key now t) = t"
    and "t key = Some row \<Longrightarrow> jl_Owner row \<noteq> ll_owner l \<Longrightarrow> Unlock l key now t = t"
  using ttlFor_pos [of key l]
  by (auto simp: Lock_def claim_lease_def ensure_row_def Unlock_def split: option.splits if_splits)

end
