(* ===== verification/Action_Time_Labels.thy ===== *)
theory Action_Time_Labels
  imports Primitives
begin

text \<open>
  The time labels of BRC-114 in a query for actions, \<open>pkg/internal/brc114/action_time_labels.go\<close>. \<open>strconv.ParseInt\<close> is only called on
  strings of decimal digits, where it fails exactly when the number exceeds 64 bits.
\<close>

section \<open>Definitions\<close>

definition ActionTimeFromPrefix :: string where "ActionTimeFromPrefix = ''action time from ''"

definition ActionTimeToPrefix :: string where "ActionTimeToPrefix = ''action time to ''"

definition ActionTimeLabelPrefix :: string where "ActionTimeLabelPrefix = ''action time ''"

definition MaxSafeInteger :: nat where "MaxSafeInteger = 9007199254740991"

record parsed_time_labels =
  pl_From :: "nat option"
  pl_To :: "nat option"
  pl_TimeFilterRequested :: bool
  pl_RemainingLabels :: "string list"

record time_parse_state =
  tp_from :: "nat option"
  tp_to :: "nat option"
  tp_requested :: bool

definition has_prefix :: "string \<Rightarrow> string \<Rightarrow> bool" where
  "has_prefix s p \<longleftrightarrow> take (length p) s = p"

definition isAllDigits :: "string \<Rightarrow> bool" where
  "isAllDigits s \<longleftrightarrow> list_all (\<lambda>c. 48 \<le> (of_char c :: nat) \<and> (of_char c :: nat) \<le> 57) s"

definition decimal_value :: "string \<Rightarrow> nat" where
  "decimal_value s = foldl (\<lambda>n c. 10 * n + ((of_char c :: nat) - 48)) 0 s"

definition strconv_ParseInt :: "string \<Rightarrow> nat result" where
  "strconv_ParseInt v = (if decimal_value v \<le> 9223372036854775807 then Inr (decimal_value v) else Inl (GoErr ''value out of range''))"

definition parseUnixMillis :: "string \<Rightarrow> nat result" where
  "parseUnixMillis v =
     (if v = [] \<or> \<not> isAllDigits v then Inl (GoErr ''Invalid action time timestamp value'')
      else case strconv_ParseInt v of
        Inl _ \<Rightarrow> Inl (GoErr ''Invalid action time timestamp value'')
      | Inr n \<Rightarrow> if MaxSafeInteger < n then Inl (GoErr ''Invalid action time timestamp value'') else Inr n)"

text \<open>\<open>consume\<close>: whether the label was a control label, and the new state.\<close>

definition consume :: "string \<Rightarrow> time_parse_state \<Rightarrow> (bool \<times> time_parse_state) result" where
  "consume label s =
     (if has_prefix label ActionTimeFromPrefix then
        (if tp_from s \<noteq> None then Inl (GoErr ''Duplicate action time from label'')
         else rbind (parseUnixMillis (drop (length ActionTimeFromPrefix) label)) (\<lambda>n.
           Inr (True, s\<lparr>tp_requested := True, tp_from := Some n\<rparr>)))
      else if has_prefix label ActionTimeToPrefix then
        (if tp_to s \<noteq> None then Inl (GoErr ''Duplicate action time to label'')
         else rbind (parseUnixMillis (drop (length ActionTimeToPrefix) label)) (\<lambda>n.
           Inr (True, s\<lparr>tp_requested := True, tp_to := Some n\<rparr>)))
      else Inr (False, s))"

fun consume_labels :: "string list \<Rightarrow> time_parse_state \<Rightarrow> string list \<Rightarrow> (time_parse_state \<times> string list) result" where
  "consume_labels [] s remaining = Inr (s, remaining)"
| "consume_labels (label # labels) s remaining = rbind (consume label s) (\<lambda>(handled, s').
     consume_labels labels s' (if handled then remaining else remaining @ [label]))"

definition validateRange :: "time_parse_state \<Rightarrow> unit result" where
  "validateRange s = (case (tp_from s, tp_to s) of
     (Some f, Some t) \<Rightarrow> if t \<le> f then Inl (GoErr ''action time from must be less than action time to'') else Inr ()
   | _ \<Rightarrow> Inr ())"

definition ParseActionTimeLabels :: "string list \<Rightarrow> parsed_time_labels result" where
  "ParseActionTimeLabels labels =
     rbind (consume_labels labels \<lparr>tp_from = None, tp_to = None, tp_requested = False\<rparr> []) (\<lambda>(s, remaining).
     rbind (validateRange s) (\<lambda>_.
       Inr \<lparr>pl_From = tp_from s, pl_To = tp_to s, pl_TimeFilterRequested = tp_requested s, pl_RemainingLabels = remaining\<rparr>))"

definition MakeActionTimeLabel :: "nat \<Rightarrow> string" where
  "MakeActionTimeLabel unixMillis = ActionTimeLabelPrefix @ show_nat unixMillis"

section \<open>Numerals\<close>

lemma digit_char_value: "d < 10 \<Longrightarrow> (of_char (digit_char d) :: nat) = 48 + d"
  by (simp add: digit_char_def of_char_of)

lemma show_nat_value: "decimal_value (show_nat n) = n \<and> isAllDigits (show_nat n) \<and> show_nat n \<noteq> []"
proof (induction n rule: show_nat.induct)
  case (1 n)
  show ?case
  proof (cases "n < 10")
    case True
    then show ?thesis by (simp add: show_nat.simps [of n] decimal_value_def isAllDigits_def digit_char_value)
  next
    case False
    with 1 show ?thesis
      by (simp add: show_nat.simps [of n] decimal_value_def isAllDigits_def digit_char_value)
  qed
qed

lemma parse_show: "n \<le> MaxSafeInteger \<Longrightarrow> parseUnixMillis (show_nat n) = Inr n"
  using show_nat_value [of n] by (simp add: parseUnixMillis_def strconv_ParseInt_def MaxSafeInteger_def)

section \<open>Scanning\<close>

definition is_control :: "string \<Rightarrow> bool" where
  "is_control label \<longleftrightarrow> has_prefix label ActionTimeFromPrefix \<or> has_prefix label ActionTimeToPrefix"

lemma consume_labels_append:
  "consume_labels (xs @ ys) s r = rbind (consume_labels xs s r) (\<lambda>(s', r'). consume_labels ys s' r')"
  by (induction xs arbitrary: s r) (auto simp: rbind_def split: sum.splits prod.splits)

lemma consume_labels_plain: "\<forall>x \<in> set xs. \<not> is_control x \<Longrightarrow> consume_labels xs s r = Inr (s, r @ xs)"
  by (induction xs arbitrary: r) (auto simp: is_control_def consume_def)

lemma consume_from: "tp_from s = None \<Longrightarrow> n \<le> MaxSafeInteger \<Longrightarrow>
    consume (ActionTimeFromPrefix @ show_nat n) s = Inr (True, s\<lparr>tp_requested := True, tp_from := Some n\<rparr>)"
  by (simp add: consume_def has_prefix_def parse_show)

lemma consume_to: "tp_to s = None \<Longrightarrow> n \<le> MaxSafeInteger \<Longrightarrow>
    consume (ActionTimeToPrefix @ show_nat n) s = Inr (True, s\<lparr>tp_requested := True, tp_to := Some n\<rparr>)"
  by (simp add: consume_def has_prefix_def parse_show ActionTimeFromPrefix_def ActionTimeToPrefix_def)

lemma consume_labels_remaining:
  "consume_labels xs s r = Inr (s', r') \<Longrightarrow> r' = r @ filter (\<lambda>x. \<not> is_control x) xs \<and>
     (tp_requested s' \<longleftrightarrow> tp_requested s \<or> (\<exists>x \<in> set xs. is_control x))"
proof (induction xs arbitrary: s r)
  case (Cons x xs)
  then obtain h s1 where x: "consume x s = Inr (h, s1)" and rest: "consume_labels xs s1 (if h then r else r @ [x]) = Inr (s', r')"
    by (auto simp: result_simps)
  have "h \<longleftrightarrow> is_control x" "tp_requested s1 \<longleftrightarrow> tp_requested s \<or> is_control x"
    using x by (auto simp: consume_def is_control_def result_simps split: if_splits)
  with Cons.IH [OF rest] show ?case by auto
qed simp

section \<open>Properties\<close>



text \<open>The computed label of a response is never a control label, and an accepted list loses only its control labels.\<close>

lemma computed_label_plain: "\<not> is_control (MakeActionTimeLabel n)"
proof -
  obtain c cs where c: "show_nat n = c # cs" "48 \<le> (of_char c :: nat)" "(of_char c :: nat) \<le> 57"
    using show_nat_value [of n] by (cases "show_nat n") (auto simp: isAllDigits_def)
  then have "c \<noteq> CHR ''f''" "c \<noteq> CHR ''t''" by auto
  with c(1) show ?thesis
    by (auto simp: is_control_def has_prefix_def MakeActionTimeLabel_def ActionTimeLabelPrefix_def ActionTimeFromPrefix_def ActionTimeToPrefix_def)
qed

lemma parsed_labels_remaining:
  assumes "ParseActionTimeLabels labels = Inr p"
  shows "pl_RemainingLabels p = filter (\<lambda>x. \<not> is_control x) labels" and "pl_TimeFilterRequested p \<longleftrightarrow> (\<exists>x \<in> set labels. is_control x)"
  using assms by (auto simp: ParseActionTimeLabels_def result_simps dest: consume_labels_remaining)

end
