(* ===== verification/Event_Queue.thy ===== *)
theory Event_Queue
  imports State_Machine "HOL-Library.Sublist"
begin

text \<open>
  The mailbox between a producer of events and the channel of a subscriber, \<open>pkg/internal/eventqueue/queue.go\<close>.

  The operations under the mutex are functions on the record of the queue. Producers, the owner that closes the queue and the
  forwarder goroutine interleave freely: a step is one section under the mutex, one operation on a channel, or one choice of a
  \<open>select\<close>. The subscriber may read at any time. What was accepted, delivered and dropped is recorded along.
\<close>

section \<open>The queue\<close>

datatype 'a forwarder = Looking | Waiting | Offering 'a | Delivered | Exited

record 'a equeue =
  eq_buf :: "('a \<times> int) list"
  eq_closed :: bool
  eq_wake :: bool
  eq_abort :: bool
  eq_forwarder :: "'a forwarder"
  eq_pokes :: nat
  eq_published :: "'a list"
  eq_delivered :: "'a list"
  eq_dropped :: "'a list"

definition New_queue :: "'a equeue" where
  "New_queue = \<lparr>eq_buf = [], eq_closed = False, eq_wake = False, eq_abort = False, eq_forwarder = Looking, eq_pokes = 0,
     eq_published = [], eq_delivered = [], eq_dropped = []\<rparr>"

text \<open>The locked part of \<open>Publish\<close>: whether the event was accepted. The wake-up follows after the unlock.\<close>

definition Publish :: "'a \<Rightarrow> int \<Rightarrow> 'a equeue \<Rightarrow> bool \<times> 'a equeue" where
  "Publish v now q = (if eq_closed q then (False, q)
     else (True, q\<lparr>eq_buf := eq_buf q @ [(v, now)], eq_pokes := eq_pokes q + 1, eq_published := eq_published q @ [v]\<rparr>))"

definition poke :: "'a equeue \<Rightarrow> 'a equeue" where
  "poke q = q\<lparr>eq_wake := True, eq_pokes := eq_pokes q - 1\<rparr>"

definition markClosed :: "'a equeue \<Rightarrow> 'a equeue" where
  "markClosed q = q\<lparr>eq_closed := True\<rparr>"

definition next_event :: "'a equeue \<Rightarrow> 'a option \<times> bool" where
  "next_event q = (case eq_buf q of [] \<Rightarrow> (None, eq_closed q) | (v, _) # _ \<Rightarrow> (Some v, eq_closed q))"

definition pop :: "'a equeue \<Rightarrow> 'a equeue" where
  "pop q = (case eq_buf q of [] \<Rightarrow> q | _ # rest \<Rightarrow> q\<lparr>eq_buf := rest\<rparr>)"

definition clear :: "'a equeue \<Rightarrow> nat \<times> 'a equeue" where
  "clear q = (length (eq_buf q), q\<lparr>eq_buf := [], eq_dropped := eq_dropped q @ map fst (eq_buf q)\<rparr>)"

definition Stats :: "int \<Rightarrow> 'a equeue \<Rightarrow> nat \<times> int" where
  "Stats now q = (case eq_buf q of [] \<Rightarrow> (0, 0) | (_, t) # _ \<Rightarrow> (length (eq_buf q), now - t))"

text \<open>The loop of \<open>forward\<close> after it has looked.\<close>

definition look :: "'a equeue \<Rightarrow> 'a equeue" where
  "look q = q\<lparr>eq_forwarder := (case next_event q of
     (None, True) \<Rightarrow> Exited | (None, False) \<Rightarrow> Waiting | (Some v, _) \<Rightarrow> Offering v)\<rparr>"

section \<open>Steps\<close>

inductive queue_step :: "'a equeue \<Rightarrow> 'a equeue \<Rightarrow> bool" where
  publish: "queue_step q (snd (Publish v now q))"
| poke: "0 < eq_pokes q \<Longrightarrow> queue_step q (poke q)"
| close: "queue_step q ((markClosed q)\<lparr>eq_pokes := eq_pokes q + 1\<rparr>)"
| discard: "queue_step q (markClosed q)"
| stop: "eq_closed q \<Longrightarrow> queue_step q (q\<lparr>eq_abort := True\<rparr>)"
| look: "eq_forwarder q = Looking \<Longrightarrow> queue_step q (look q)"
| wake: "eq_forwarder q = Waiting \<Longrightarrow> eq_wake q \<Longrightarrow> queue_step q (q\<lparr>eq_wake := False, eq_forwarder := Looking\<rparr>)"
| send: "eq_forwarder q = Offering v \<Longrightarrow> queue_step q (q\<lparr>eq_delivered := eq_delivered q @ [v], eq_forwarder := Delivered\<rparr>)"
| pop: "eq_forwarder q = Delivered \<Longrightarrow> queue_step q ((pop q)\<lparr>eq_forwarder := Looking\<rparr>)"
| interrupt: "eq_abort q \<Longrightarrow> eq_forwarder q = Waiting \<or> (\<exists>v. eq_forwarder q = Offering v) \<Longrightarrow> queue_step q (q\<lparr>eq_forwarder := Exited\<rparr>)"
| finish: "eq_closed q \<Longrightarrow> eq_forwarder q = Exited \<Longrightarrow> queue_step q (snd (clear q))"

section \<open>Nothing is lost, repeated or reordered\<close>

text \<open>The events that are accepted and not delivered: after a send the head of the buffer is delivered already.\<close>

definition pending :: "'a equeue \<Rightarrow> 'a list" where
  "pending q = map fst (if eq_forwarder q = Delivered then tl (eq_buf q) else eq_buf q)"

definition queue_inv :: "'a equeue \<Rightarrow> bool" where
  "queue_inv q \<longleftrightarrow> eq_published q = eq_delivered q @ eq_dropped q @ pending q \<and>
     (case eq_forwarder q of
        Offering v \<Rightarrow> \<exists>t rest. eq_buf q = (v, t) # rest
      | Delivered \<Rightarrow> eq_buf q \<noteq> []
      | Exited \<Rightarrow> eq_closed q \<and> (eq_buf q = [] \<or> eq_abort q)
      | _ \<Rightarrow> True) \<and>
     (eq_dropped q \<noteq> [] \<longrightarrow> eq_forwarder q = Exited \<and> eq_abort q) \<and>
     (eq_abort q \<longrightarrow> eq_closed q) \<and>
     (eq_forwarder q = Waiting \<and> eq_buf q \<noteq> [] \<longrightarrow> eq_wake q \<or> 0 < eq_pokes q)"

definition queue_later :: "'a equeue \<Rightarrow> 'a equeue \<Rightarrow> bool" where
  "queue_later q q' \<longleftrightarrow> prefix (eq_published q) (eq_published q') \<and> prefix (eq_delivered q) (eq_delivered q') \<and>
     (eq_closed q \<longrightarrow> eq_closed q' \<and> eq_published q' = eq_published q)"

lemmas queue_defs = Publish_def poke_def markClosed_def next_event_def pop_def clear_def look_def

lemma New_queue_inv: "queue_inv New_queue"
  by (simp add: queue_inv_def New_queue_def pending_def)

lemma queue_step_inv:
  assumes "queue_step q q'" and inv: "queue_inv q"
  shows "queue_inv q'"
  using assms(1)
proof cases
  case (publish v now)
  with inv show ?thesis by (cases "eq_buf q") (auto simp: queue_inv_def pending_def Publish_def split: forwarder.splits)
next
  case look
  with inv show ?thesis by (cases "eq_buf q") (auto simp: queue_inv_def pending_def look_def next_event_def split: bool.splits)
next
  case (send v)
  with inv show ?thesis by (auto simp: queue_inv_def pending_def)
next
  case pop
  with inv show ?thesis by (cases "eq_buf q") (auto simp: queue_inv_def pending_def pop_def)
next
  case finish
  with inv show ?thesis by (auto simp: queue_inv_def pending_def clear_def)
qed (use inv in \<open>auto simp: queue_inv_def pending_def poke_def markClosed_def split: forwarder.splits\<close>)

lemma queue_step_later: "queue_step q q' \<Longrightarrow> queue_later q q'"
  by (cases rule: queue_step.cases) (auto simp: queue_later_def queue_defs split: list.splits)

lemma queue_later_trans: "queue_later q q' \<Longrightarrow> queue_later q' q'' \<Longrightarrow> queue_later q q''"
  by (auto simp: queue_later_def dest: prefix_order.trans)

interpretation mailbox: state_machine queue_step queue_inv queue_later
  by unfold_locales (blast intro: queue_step_inv queue_step_later queue_later_trans | simp add: queue_later_def)+

text \<open>C37. The mailbox neither loses, repeats nor reorders events. However producers, the owner and the forwarder interleave, the accepted events
  are the delivered ones followed by the dropped and the pending ones, in publish order; events are dropped only by an owner that
  has closed the queue and interrupted the forwarder, nothing is accepted after the close, and the number that \<open>Close\<close> and \<open>Discard\<close>
  report is the number of accepted events that were not delivered.\<close>

theorem events_kept_in_order:
  assumes "queue_step\<^sup>*\<^sup>* New_queue q"
  shows "eq_published q = eq_delivered q @ eq_dropped q @ pending q \<and> (eq_dropped q \<noteq> [] \<longrightarrow> eq_closed q \<and> eq_abort q) \<and>
    (eq_forwarder q = Exited \<longrightarrow> length (eq_delivered q) + length (eq_dropped q) + fst (clear q) = length (eq_published q)) \<and>
    (\<forall>q'. queue_step\<^sup>*\<^sup>* q q' \<longrightarrow> prefix (eq_delivered q) (eq_delivered q') \<and> (eq_closed q \<longrightarrow> eq_published q' = eq_published q))"
proof -
  have inv: "queue_inv q" by (rule mailbox.run_good [OF assms New_queue_inv])
  have "length (eq_published q) = length (eq_delivered q) + length (eq_dropped q) + length (pending q)"
    using inv by (simp add: queue_inv_def)
  moreover have "fst (clear q) = length (pending q)" if "eq_forwarder q = Exited" using that by (simp add: clear_def pending_def)
  moreover have "prefix (eq_delivered q) (eq_delivered q') \<and> (eq_closed q \<longrightarrow> eq_published q' = eq_published q)" if "queue_step\<^sup>*\<^sup>* q q'" for q'
    using mailbox.run_later [OF that inv] by (simp add: queue_later_def)
  moreover have "eq_published q = eq_delivered q @ eq_dropped q @ pending q" "eq_dropped q \<noteq> [] \<longrightarrow> eq_closed q \<and> eq_abort q"
    using inv unfolding queue_inv_def by blast+
  ultimately show ?thesis by simp
qed

section \<open>The mailbox can always be emptied\<close>

abbreviation queue_run :: "'a equeue \<Rightarrow> 'a equeue \<Rightarrow> bool" where
  "queue_run \<equiv> queue_step\<^sup>*\<^sup>*"

definition delivers_one :: "'a equeue \<Rightarrow> 'a equeue \<Rightarrow> bool" where
  "delivers_one q q' \<longleftrightarrow> queue_run q q' \<and> \<not> eq_abort q' \<and> eq_published q' = eq_published q \<and> Suc (length (pending q')) = length (pending q)"

lemma deliver_offered:
  assumes "queue_inv q" "\<not> eq_abort q" "eq_forwarder q = Offering v"
  shows "\<exists>q'. delivers_one q q'"
proof -
  from assms obtain t rest where "eq_buf q = (v, t) # rest" by (auto simp: queue_inv_def)
  with assms show ?thesis
    by (intro exI [of _ "q\<lparr>eq_delivered := eq_delivered q @ [v], eq_forwarder := Delivered\<rparr>"])
      (auto simp: delivers_one_def pending_def intro!: r_into_rtranclp queue_step.send)
qed

lemma deliver_after:
  assumes "queue_step q q1" "delivers_one q1 q'" "eq_published q1 = eq_published q" "pending q1 = pending q"
  shows "delivers_one q q'"
  using assms by (auto simp: delivers_one_def intro: converse_rtranclp_into_rtranclp)

lemma deliver_looking:
  assumes inv: "queue_inv q" and "\<not> eq_abort q" "eq_forwarder q = Looking" "pending q \<noteq> []"
  shows "\<exists>q'. delivers_one q q'"
proof -
  from assms(3,4) obtain v t rest where buf: "eq_buf q = (v, t) # rest" by (cases "eq_buf q") (auto simp: pending_def)
  have step: "queue_step q (look q)" by (rule queue_step.look [OF assms(3)])
  have "eq_forwarder (look q) = Offering v" "\<not> eq_abort (look q)" "eq_published (look q) = eq_published q" "pending (look q) = pending q"
    using assms(2,3) buf by (simp_all add: look_def next_event_def pending_def)
  with deliver_offered [OF queue_step_inv [OF step inv]] deliver_after [OF step] show ?thesis by blast
qed

lemma deliver_next:
  assumes inv: "queue_inv q" and "\<not> eq_abort q" "pending q \<noteq> []"
  shows "\<exists>q'. delivers_one q q'"
proof (cases "eq_forwarder q")
  case Looking
  from deliver_looking [OF inv assms(2) this assms(3)] show ?thesis .
next
  case Waiting
  have awake: "\<exists>q'. delivers_one r q'" if "queue_inv r" "\<not> eq_abort r" "eq_forwarder r = Waiting" "eq_wake r" "pending r \<noteq> []" for r :: "'a equeue"
  proof -
    note a = that
    let ?r = "r\<lparr>eq_wake := False, eq_forwarder := Looking\<rparr>"
    have step: "queue_step r ?r" by (rule queue_step.wake [OF a(3,4)])
    have "pending ?r = pending r" using a(3) by (simp add: pending_def)
    moreover from this obtain q' where "delivers_one ?r q'" using deliver_looking [OF queue_step_inv [OF step a(1)]] a by auto
    ultimately show ?thesis using deliver_after [OF step] by auto
  qed
  show ?thesis
  proof (cases "eq_wake q")
    case True
    with awake assms Waiting show ?thesis by blast
  next
    case False
    then have "0 < eq_pokes q" using inv Waiting assms(3) by (auto simp: queue_inv_def pending_def)
    then have step: "queue_step q (poke q)" by (rule queue_step.poke)
    have same: "eq_published (poke q) = eq_published q" "pending (poke q) = pending q" by (simp_all add: poke_def pending_def)
    moreover have "eq_forwarder (poke q) = Waiting" "eq_wake (poke q)" "\<not> eq_abort (poke q)" using Waiting assms(2) by (simp_all add: poke_def)
    ultimately obtain q' where "delivers_one (poke q) q'" using awake [OF queue_step_inv [OF step inv]] assms(3) by auto
    from deliver_after [OF step this same] show ?thesis ..
  qed
next
  case (Offering v)
  from deliver_offered [OF inv assms(2) this] show ?thesis .
next
  case Delivered
  let ?q = "(pop q)\<lparr>eq_forwarder := Looking\<rparr>"
  have step: "queue_step q ?q" by (rule queue_step.pop [OF Delivered])
  have "pending ?q = pending q" "eq_published ?q = eq_published q" "\<not> eq_abort ?q"
    using Delivered assms(2) by (auto simp: pop_def pending_def split: list.splits)
  moreover from this obtain q' where "delivers_one ?q q'" using deliver_looking [OF queue_step_inv [OF step inv]] assms(3) by auto
  ultimately show ?thesis using deliver_after [OF step] by blast
next
  case Exited
  with assms show ?thesis by (auto simp: queue_inv_def pending_def)
qed


text \<open>Two events are published while the forwarder sleeps; the first poke has not happened yet.\<close>

definition ex_mailbox :: "nat equeue" where
  "ex_mailbox = New_queue\<lparr>eq_buf := [(7, 1), (8, 2)], eq_pokes := 2, eq_published := [7, 8], eq_forwarder := Waiting\<rparr>"

lemma ex_mailbox_reachable: "queue_step\<^sup>*\<^sup>* New_queue ex_mailbox"
proof -
  let ?a = "look New_queue :: nat equeue"
  let ?b = "snd (Publish 7 1 ?a)"
  have "queue_step New_queue ?a" by (rule queue_step.look) (simp add: New_queue_def)
  moreover have "queue_step ?a ?b" by (rule queue_step.publish)
  moreover have "queue_step ?b (snd (Publish 8 2 ?b))" by (rule queue_step.publish)
  moreover have "snd (Publish 8 2 ?b) = ex_mailbox" by (simp add: ex_mailbox_def New_queue_def look_def next_event_def Publish_def)
  ultimately show ?thesis by (metis r_into_rtranclp rtranclp.rtrancl_into_rtrancl)
qed

theorem events_kept_in_order_witness: "eq_published ex_mailbox = eq_delivered ex_mailbox @ eq_dropped ex_mailbox @ pending ex_mailbox"
  using events_kept_in_order [OF ex_mailbox_reachable] by blast


end
