(* ===== verification/Spec2Isabelle.thy ===== *)
theory Spec2Isabelle
  imports Funder_Properties Waiting_Properties Beef_Properties Create_Properties Internalize_Properties Create_Args Broadcast_Router Lease_Locker
    Action_Time_Labels Event_Queue Primitives
begin

text \<open>
  \<^bold>\<open>A verification development for the Go wallet toolbox\<close>

  The toolbox is the storage side of a BRC-100 wallet. An application creates an action (a transaction to be), the storage
  selects and reserves inputs for it, the application signs it, the storage processes it: records the signed
  transaction, broadcasts it through network services, at once or in the background, and follows it until a merkle proof
  arrives. A failed or abandoned action is aborted, which gives its inputs back. What can go wrong is money: two actions
  that spend the same output, an input that is given back although its transaction was broadcast, change that gets lost,
  a fee that is not what it should be, a queue item that is never posted.

  \<^bold>\<open>How the source is modelled.\<close> Machine integers are mathematical integers with the wrap-around written out
  (\<open>wrap_u64\<close>, \<open>wrap_i64\<close>), floats are rationals rounded to \<open>float64\<close> after every operation. A Go error is a value of
  \<open>go_error\<close>, a result is \<open>go_error + 'a\<close>, a panic is an error of its own constructor. Tables are lists of rows, the database is a record of
  tables; an operation that runs in one database transaction is a function that returns the new database or an error
  and then changes nothing, a longer flow keeps what it has committed. Third-party code (the Go SDK, gorm, the
  conversion helpers, the network services) is a parameter: \<open>go_lib\<close>, \<open>str_lib\<close>, \<open>process_env\<close> and \<open>sync_env\<close> are
  records of functions, and \<open>go_lib_ok\<close> and \<open>convert_ok\<close> state the documented behaviour the theorems use; \<open>std_lib\<close> is a
  concrete library that has it. Goroutines are step relations whose states hold what each goroutine keeps in its local
  variables. Loops that are not structural carry a termination proof, or are partial functions whose termination is proved.
  Log lines, tracing and metrics are left out throughout.

  \<^bold>\<open>The theories and the source they model.\<close>

  \<^item> \<open>Prelude\<close>, \<open>Go_Lib\<close>, \<open>Float64\<close>, \<open>State_Machine\<close>: errors and results, words, third-party functions, IEEE rounding, and the
    locale of state machines with an invariant.
  \<^item> \<open>Satoshi\<close> (\<open>pkg/internal/satoshi\<close>), \<open>Tx_Status\<close> (\<open>pkg/wdk\<close>), \<open>Primitives\<close> (\<open>pkg/wdk/primitives\<close>), \<open>History_Note\<close>,
    \<open>Broadcast_Result\<close> (\<open>pkg/wdk\<close>), \<open>Tx_Size\<close>, \<open>Change_Distribution\<close>, \<open>Parents_First\<close> (\<open>pkg/internal/txutils\<close>): the vocabulary.
  \<^item> \<open>Fee_Calculator\<close>, \<open>Utxo_Repo\<close>, \<open>Funder\<close>: the selection of inputs (\<open>pkg/internal/storage/funder\<close>, \<open>repo/utxos.go\<close>).
    \<open>Funder_Collector\<close>, \<open>Funder_Run\<close>, \<open>Funder_Best_Fit\<close> and \<open>Funder_Correct\<close> hold the proofs.
  \<^item> \<open>Storage_DB\<close>, \<open>Repo_Outputs\<close>, \<open>Repo_Transactions\<close>, \<open>Repo_KnownTx\<close>: the tables and the repositories
    (\<open>pkg/internal/storage/database\<close>, \<open>pkg/internal/storage/repo\<close>). \<open>Storage_Inv\<close> has the database invariant, \<open>Storage_Steps\<close> the step relation of all
    repository operations.
  \<^item> \<open>Beef\<close>: the builder of BEEF data out of the KnownTx table (\<open>repo/known_tx_get_beef.go\<close>), with the SDK's container as the parameter
    \<open>beef_sdk\<close>; \<open>Beef_Correct\<close> has the proofs.
  \<^item> \<open>Abort_Action\<close>, \<open>Process_World\<close>, \<open>Process_Action\<close>, \<open>Send_Waiting\<close>, \<open>Unfail\<close>, \<open>External_Status\<close>, \<open>Sync_Statuses\<close>: the actions and
    the background tasks (\<open>pkg/storage/internal/actions\<close>). \<open>Abort_Correct\<close>, \<open>Process_Correct\<close> and \<open>Background_Correct\<close> hold the proofs.
  \<^item> \<open>Create_Inputs\<close>, \<open>Create_Action\<close>, \<open>Create_Args\<close>: the creation of an action (\<open>actions/create.go\<close>,
    \<open>create_process_inputs.go\<close>), and the validation of its arguments (\<open>internal/validate\<close>). \<open>Create_Correct\<close> and \<open>Create_Failure\<close> hold the proofs.
  \<^item> \<open>Internalize\<close>: taking in a transaction of somebody else (\<open>actions/internalize.go\<close>), with its arguments.
  \<^item> \<open>Circuit_Breaker\<close>, \<open>Service_Queue\<close>, \<open>Broadcast_Router\<close>: how the network services are called (\<open>pkg/services\<close>).
  \<^item> \<open>Lease_Locker\<close> (\<open>pkg/monitor/lease_locker.go\<close>) and \<open>Action_Time_Labels\<close> (\<open>pkg/internal/brc114\<close>).
  \<^item> \<open>Event_Queue\<close> (\<open>pkg/internal/eventqueue/queue.go\<close>), the mailbox of a subscriber as interleaved steps.
  \<^item> \<open>Background_Broadcaster\<close>: the worker pool (\<open>pkg/storage/internal/service\<close>), with its invariants in \<open>Broadcaster_Correct\<close>.

  \<^bold>\<open>What the theorems show.\<close>

  \<^item> A funding call terminates, balances inputs against target, fee and change, claims only what it may, and selects exactly what a
    reference allocator without bounded queries selects (\<open>Funder_Properties\<close>); fees and sizes are exact or within stated
    bounds (\<open>Fee_Calculator\<close>, \<open>Tx_Size\<close>), and change is split without loss (\<open>Change_Distribution\<close>).
  \<^item> Every reachable database satisfies the invariant of the storage; claims are exclusive (\<open>Storage_Properties\<close>).
  \<^item> An abort gives back exactly what was claimed, is refused once there is evidence of a broadcast, and always works on an
    unsigned action (\<open>Abort_Properties\<close>).
  \<^item> What a processing call posts stays spent; what it fails to process is released; a double spend needs confirmation
    (\<open>Process_Properties\<close>).
  \<^item> Reading the ancestry of a transaction ahead changes nothing, and a built BEEF is complete (\<open>Beef_Properties\<close>).
  \<^item> A created action balances, a failed creation gives everything back, and the fuel pool stays uniform (\<open>Create_Properties\<close>);
    accepted arguments are well typed, so the planning cannot get stuck on them (\<open>Create_Args\<close>).
  \<^item> A transaction that is taken in is stored by storage steps, credited with what becomes spendable, credited once, and broadcast only if
    nobody sends it yet; a refused one leaves no trace. A merge over a spent output revives it (\<open>Internalize_Properties\<close>).
  \<^item> A transaction is offered to the services in order and no further than needed, a failing primary is shielded and a cancelled
    caller does not count against it (\<open>Broadcast_Router\<close>, \<open>Circuit_Breaker\<close>); the call history is a summary of the log, and
    parallel answers come in a fixed order (\<open>Service_Queue\<close>); leases of a monitor job never overlap (\<open>Lease_Locker\<close>); a subscriber's
    mailbox keeps every event in order and can always be emptied (\<open>Event_Queue\<close>).
  \<^item> All actions and tasks are runs of the storage machine; the broadcaster loses nothing, keeps parents before children and
    can always drain (\<open>Background_Properties\<close>, \<open>Waiting_Properties\<close>).

  \<^bold>\<open>Bounds.\<close> The page limits, retry counts and batch sizes are the constants of the source. No fuel is used where the source has
  no bound.

  \<^bold>\<open>Not modelled.\<close> The wallet client, the monitor daemon, the RPC server and clients, and the HTTP clients of the network services are I/O
  around the modelled core; the generated query code is a typed facade of gorm; the assembling of BEEF data is done by the Go SDK.
  The listings of actions and outputs, certificates and the synchronisation of two storages are left for later.
\<close>

end
